(* ===== verification/Prelude.thy ===== *)
theory Prelude
  imports Main "HOL-Library.Char_ord"
begin

text \<open>
  What every component of the development shares: the exceptions of the Python
  code as values, the few \<^theory_text>\<open>str\<close> operations the code uses (on ASCII text, the only
  text the identifiers, hosts and codes of the program may hold), and the generic
  lemmas on results, lists and association lists the component proofs rest on.

  Collections: \<^theory_text>\<open>result_simps\<close> unfolds the result monad, \<^theory_text>\<open>guard_simps\<close>
  collects the argument checks (\<^theory_text>\<open>_identifier\<close> and its relatives).
\<close>

named_theorems result_simps
named_theorems guard_simps

section \<open>Exceptions as values\<close>

text \<open>The exception classes the modelled code raises, each with the message's
  fixed part. A call that may raise returns \<^theory_text>\<open>exn + 'a\<close>: \<^theory_text>\<open>Inl\<close> is the raise.\<close>

datatype exn =
    ValueError string
  | TypeError string
  | RuntimeError string
  | PermissionError string
  | KeyError string
  | RunConflictError string string
  | IntegrityError string
  | BrowserPolicyInactiveError string string
  | SessionUnavailable string
  | DisplayUnavailable string
  | LiveViewDenied string
  | AssertionError string
  | PhaseNotDrivable string
  | DecisionFailed string

type_synonym 'a result = "exn + 'a"

fun bindR :: "'a result \<Rightarrow> ('a \<Rightarrow> 'b result) \<Rightarrow> 'b result" where
  "bindR (Inl e) f = Inl e"
| "bindR (Inr x) f = f x"

definition guardR :: "bool \<Rightarrow> exn \<Rightarrow> unit result" where
  "guardR ok e = (if ok then Inr () else Inl e)"

fun returned :: "'a result \<Rightarrow> bool" where
  "returned (Inl e) = False"
| "returned (Inr x) = True"

lemma bindR_Inr_iff [result_simps]: "bindR m f = Inr y \<longleftrightarrow> (\<exists>x. m = Inr x \<and> f x = Inr y)"
  by (cases m) auto

lemma bindR_Inl_iff [result_simps]:
  "bindR m f = Inl e \<longleftrightarrow> m = Inl e \<or> (\<exists>x. m = Inr x \<and> f x = Inl e)"
  by (cases m) auto

lemma bindR_assoc: "bindR (bindR m f) g = bindR m (\<lambda>x. bindR (f x) g)"
  by (cases m) auto

lemma guardR_Inr_iff [result_simps]: "guardR b e = Inr u \<longleftrightarrow> b"
  by (simp add: guardR_def)

lemma guardR_Inl_iff [result_simps]: "guardR b e = Inl e' \<longleftrightarrow> \<not> b \<and> e' = e"
  by (auto simp: guardR_def)

lemma returned_iff [result_simps]: "returned m \<longleftrightarrow> (\<exists>x. m = Inr x)"
  by (cases m) auto

section \<open>Strings\<close>

text \<open>\<^theory_text>\<open>str.isspace\<close> on one ASCII character: tab to carriage return, the four
  separators 28 to 31, and the blank.\<close>

definition is_space :: "char \<Rightarrow> bool" where
  "is_space c = (let n = of_char c :: nat in (9 \<le> n \<and> n \<le> 13) \<or> (28 \<le> n \<and> n \<le> 32))"

definition strip :: "string \<Rightarrow> string" where
  "strip s = rev (dropWhile is_space (rev (dropWhile is_space s)))"

definition rstrip_chr :: "char \<Rightarrow> string \<Rightarrow> string" where
  "rstrip_chr c s = rev (dropWhile (\<lambda>d. d = c) (rev s))"

definition is_digit :: "char \<Rightarrow> bool" where
  "is_digit c = (let n = of_char c :: nat in 48 \<le> n \<and> n \<le> 57)"

definition is_lower_alpha :: "char \<Rightarrow> bool" where
  "is_lower_alpha c = (let n = of_char c :: nat in 97 \<le> n \<and> n \<le> 122)"

definition is_upper_alpha :: "char \<Rightarrow> bool" where
  "is_upper_alpha c = (let n = of_char c :: nat in 65 \<le> n \<and> n \<le> 90)"

definition lower_char :: "char \<Rightarrow> char" where
  "lower_char c = (if is_upper_alpha c then char_of (of_char c + 32 :: nat) else c)"

definition lower :: "string \<Rightarrow> string" where
  "lower s = map lower_char s"

text \<open>\<^theory_text>\<open>str.split\<close> on one separator character: never empty.\<close>

fun split_chr :: "char \<Rightarrow> string \<Rightarrow> string list" where
  "split_chr c [] = [[]]"
| "split_chr c (d # s) =
     (if d = c then [] # split_chr c s
      else (case split_chr c s of [] \<Rightarrow> [[d]] | w # ws \<Rightarrow> (d # w) # ws))"

fun join_chr :: "char \<Rightarrow> string list \<Rightarrow> string" where
  "join_chr c [] = []"
| "join_chr c [w] = w"
| "join_chr c (w # ws) = w @ c # join_chr c ws"

definition starts_with :: "string \<Rightarrow> string \<Rightarrow> bool" where
  "starts_with p s = (take (length p) s = p)"

definition ends_with :: "string \<Rightarrow> string \<Rightarrow> bool" where
  "ends_with p s = (length p \<le> length s \<and> drop (length s - length p) s = p)"

lemma split_chr_nonempty [simp]: "split_chr c s \<noteq> []"
  by (induction s) (auto split: list.splits)

lemma split_chr_app:
  "c \<notin> set w \<Longrightarrow> split_chr c (w @ c # s) = w # split_chr c s"
  by (induction w) auto

lemma split_chr_none: "c \<notin> set s \<Longrightarrow> split_chr c s = [s]"
  by (induction s) auto

lemma split_join_chr:
  "ws \<noteq> [] \<Longrightarrow> \<forall>w\<in>set ws. c \<notin> set w \<Longrightarrow> split_chr c (join_chr c ws) = ws"
  by (induction c ws rule: join_chr.induct) (auto simp: split_chr_app split_chr_none)

lemma join_split_chr [simp]: "join_chr c (split_chr c s) = s"
proof (induction s)
  case (Cons d s)
  obtain w ws where w: "split_chr c s = w # ws" by (cases "split_chr c s") auto
  show ?case
    using Cons w by (cases ws) auto
qed simp

lemma split_chr_sep: "w \<in> set (split_chr c s) \<Longrightarrow> c \<notin> set w"
  by (induction s arbitrary: w) (auto split: list.splits if_splits)

lemma join_chr_app:
  "xs \<noteq> [] \<Longrightarrow> ys \<noteq> [] \<Longrightarrow> join_chr c (xs @ ys) = join_chr c xs @ c # join_chr c ys"
proof (induction c xs rule: join_chr.induct)
  case (2 c w)
  then show ?case by (cases ys) auto
qed auto

lemma set_join_chr: "set (join_chr c ws) \<subseteq> insert c (\<Union>w\<in>set ws. set w)"
  by (induction c ws rule: join_chr.induct) auto

lemma join_chr_eq_Nil: "join_chr c ws = [] \<longleftrightarrow> ws = [] \<or> ws = [[]]"
  by (induction c ws rule: join_chr.induct) auto

lemma last_join_chr: "ws \<noteq> [] \<Longrightarrow> last ws \<noteq> [] \<Longrightarrow> last (join_chr c ws) = last (last ws)"
  by (induction c ws rule: join_chr.induct) (auto simp: join_chr_eq_Nil)

lemma hd_join_chr: "ws \<noteq> [] \<Longrightarrow> hd ws \<noteq> [] \<Longrightarrow> hd (join_chr c ws) = hd (hd ws)"
  by (induction c ws rule: join_chr.induct) auto

lemma of_char_lower_char:
  "(of_char (lower_char c) :: nat) = (if is_upper_alpha c then of_char c + 32 else of_char c)"
  by (auto simp: lower_char_def is_upper_alpha_def Let_def)

lemma char_eq_iff: "c = d \<longleftrightarrow> (of_char c :: nat) = of_char d"
  by simp

lemma lower_char_idem [simp]: "lower_char (lower_char c) = lower_char c"
  unfolding char_eq_iff of_char_lower_char by (auto simp: is_upper_alpha_def of_char_lower_char Let_def)

lemma lower_idem [simp]: "lower (lower s) = lower s"
  by (simp add: lower_def)

lemma lower_char_fixed:
  "\<not> is_upper_alpha d \<Longrightarrow> \<not> is_lower_alpha d \<Longrightarrow> lower_char c = d \<longleftrightarrow> c = d"
  unfolding char_eq_iff of_char_lower_char
  by (auto simp: is_upper_alpha_def is_lower_alpha_def Let_def)

lemma rstrip_lower:
  "\<not> is_upper_alpha d \<Longrightarrow> \<not> is_lower_alpha d \<Longrightarrow> rstrip_chr d (lower s) = lower (rstrip_chr d s)"
  by (simp add: rstrip_chr_def lower_def rev_map dropWhile_map lower_char_fixed comp_def)

lemma rstrip_idem [simp]: "rstrip_chr d (rstrip_chr d s) = rstrip_chr d s"
  by (simp add: rstrip_chr_def dropWhile_idem)

lemma rstrip_id: "s = [] \<or> last s \<noteq> d \<Longrightarrow> rstrip_chr d s = s"
  unfolding rstrip_chr_def by (cases s rule: rev_cases) auto

lemma lower_id: "list_all (\<lambda>c. \<not> is_upper_alpha c) s \<Longrightarrow> lower s = s"
  by (induction s) (auto simp: lower_def lower_char_def)

lemma starts_with_iff: "starts_with p s \<longleftrightarrow> (\<exists>t. s = p @ t)"
  unfolding starts_with_def by (metis append_eq_conv_conj append_take_drop_id)

lemma ends_with_iff: "ends_with p s \<longleftrightarrow> (\<exists>t. s = t @ p)"
proof
  assume "ends_with p s"
  then have "s = take (length s - length p) s @ p"
    unfolding ends_with_def by (metis append_take_drop_id)
  then show "\<exists>t. s = t @ p" ..
qed (auto simp: ends_with_def)

lemma is_space_lower_char: "is_lower_alpha c \<Longrightarrow> lower_char c = c"
  by (simp add: lower_char_def is_upper_alpha_def is_lower_alpha_def Let_def)

lemma strip_idem_of_ends:
  "s \<noteq> [] \<Longrightarrow> \<not> is_space (hd s) \<Longrightarrow> \<not> is_space (last s) \<Longrightarrow> strip s = s"
  unfolding strip_def
  by (metis dropWhile_eq_self_iff hd_rev rev_is_Nil_conv rev_rev_ident)

lemma strip_empty [simp]: "strip [] = []"
  by (simp add: strip_def)

lemma strip_length: "length (strip s) \<le> length s"
  unfolding strip_def
  by (metis length_dropWhile_le length_rev order_trans)

text \<open>Python truth of an optional text.\<close>

definition truthy :: "string option \<Rightarrow> bool" where
  "truthy v = (case v of None \<Rightarrow> False | Some s \<Rightarrow> s \<noteq> [])"

section \<open>Argument checks\<close>

text \<open>The identifier check the effect, lease, driver and admission modules each
  restate: a string whose stripped form is not empty and whose length is within
  the limit, returned stripped.\<close>

definition identifier_check :: "nat \<Rightarrow> string \<Rightarrow> string \<Rightarrow> string result" where
  "identifier_check limit msg s =
     (if strip s = [] \<or> limit < length (strip s) then Inl (ValueError msg) else Inr (strip s))"

lemma identifier_check_Inr [guard_simps]:
  "identifier_check limit msg s = Inr t \<longleftrightarrow> t = strip s \<and> t \<noteq> [] \<and> length t \<le> limit"
  by (auto simp: identifier_check_def)

text \<open>The stricter check of the ledger's stores: not empty, within the limit, every
  character printable and none a space. On ASCII text that is the range 33 to 126.\<close>

definition printable_nonspace :: "char \<Rightarrow> bool" where
  "printable_nonspace c = (let n = of_char c :: nat in 33 \<le> n \<and> n \<le> 126)"

definition store_identifier :: "nat \<Rightarrow> string \<Rightarrow> string \<Rightarrow> string result" where
  "store_identifier limit field s =
     (if s = [] \<or> limit < length s then Inl (ValueError field)
      else if \<not> list_all printable_nonspace s then Inl (ValueError field)
      else Inr s)"

definition identifier_ok :: "nat \<Rightarrow> string \<Rightarrow> bool" where
  "identifier_ok limit s = (s \<noteq> [] \<and> length s \<le> limit \<and> list_all printable_nonspace s)"

lemma store_identifier_Inr [guard_simps]:
  "store_identifier limit field s = Inr t \<longleftrightarrow> t = s \<and> identifier_ok limit s"
  by (auto simp: store_identifier_def identifier_ok_def)

section \<open>Lists\<close>

lemma takeWhile_until_none: "c \<notin> set s \<Longrightarrow> takeWhile (\<lambda>d. d \<noteq> c) s = s"
  by (induction s) auto

lemma dropWhile_until_none: "c \<notin> set s \<Longrightarrow> dropWhile (\<lambda>d. d \<noteq> c) s = []"
  by (induction s) auto

lemma takeWhile_until_app: "c \<notin> set s \<Longrightarrow> takeWhile (\<lambda>d. d \<noteq> c) (s @ c # t) = s"
  by (induction s) auto

lemma dropWhile_until_app: "c \<notin> set s \<Longrightarrow> dropWhile (\<lambda>d. d \<noteq> c) (s @ c # t) = c # t"
  by (induction s) auto

lemmas until_simps = takeWhile_until_none dropWhile_until_none takeWhile_until_app
  dropWhile_until_app

lemma find_None_not: "List.find P xs = None \<longleftrightarrow> (\<forall>x\<in>set xs. \<not> P x)"
  by (induction xs) auto

lemma find_Some_in: "List.find P xs = Some x \<Longrightarrow> x \<in> set xs \<and> P x"
  by (induction xs) (auto split: if_splits)

lemma filter_length_le: "length (filter P xs) \<le> length xs"
  by simp

end
