(* ===== verification/Phases.thy ===== *)
theory Phases
  imports Prelude
begin

text \<open>
  The two state machines of a run. \<^theory_text>\<open>ops/core/state.py\<close> declares the coarse run
  status and its transition table; \<^theory_text>\<open>ops/onboarding/phase.py\<close> declares the
  onboarding phase, its table, the closed list of reason codes and the projection
  of a phase onto a status. The lemmas show what the phase table admits: a
  refusal changes nothing, terminal phases admit only themselves, no walk reaches
  signup without an admission decision, and no phase is a trap.
\<close>

section \<open>The run status (ops/core/state.py)\<close>

datatype run_status =
    created | researching | route_selected | connection_required | browser_running
  | waiting_for_hitl | outreach_sent | waiting_for_reply | credentials_ready
  | configuration_required | blocked_status | failed | completed_status | cancelled_status

fun legal_status_transitions :: "run_status \<Rightarrow> run_status list" where
  "legal_status_transitions created =
     [researching, route_selected, connection_required, configuration_required,
      blocked_status, failed]"
| "legal_status_transitions researching =
     [researching, route_selected, configuration_required, blocked_status, failed]"
| "legal_status_transitions route_selected =
     [connection_required, browser_running, outreach_sent, waiting_for_hitl,
      configuration_required, blocked_status, failed]"
| "legal_status_transitions connection_required =
     [connection_required, completed_status, configuration_required, blocked_status, failed]"
| "legal_status_transitions browser_running =
     [waiting_for_hitl, outreach_sent, waiting_for_reply, credentials_ready,
      configuration_required, blocked_status, failed]"
| "legal_status_transitions waiting_for_hitl =
     [browser_running, configuration_required, blocked_status, failed]"
| "legal_status_transitions outreach_sent =
     [waiting_for_reply, configuration_required, failed]"
| "legal_status_transitions waiting_for_reply =
     [waiting_for_reply, browser_running, credentials_ready, configuration_required,
      blocked_status, failed]"
| "legal_status_transitions credentials_ready = [completed_status, failed]"
| "legal_status_transitions configuration_required =
     [researching, route_selected, browser_running, outreach_sent, waiting_for_reply,
      blocked_status, failed]"
| "legal_status_transitions blocked_status = []"
| "legal_status_transitions failed = [researching, browser_running, outreach_sent]"
| "legal_status_transitions completed_status = []"
| "legal_status_transitions cancelled_status = []"

definition validate_status_transition :: "run_status \<Rightarrow> run_status \<Rightarrow> run_status result" where
  "validate_status_transition previous next =
     (if previous = next then Inr next
      else if next \<notin> set (legal_status_transitions previous)
        then Inl (ValueError ''illegal status transition'')
      else Inr next)"

section \<open>The onboarding phase (ops/onboarding/phase.py)\<close>

datatype phase =
    research | vault_check | awaiting_admission | route_selected_login
  | route_selected_signup | signup | email_verification | authenticated
  | developer_app | credential_generation | vault_storage | credential_validation
  | captcha_paused | completed | paused | blocked | cancelled

definition onboarding_phases :: "phase list" where
  "onboarding_phases =
     [research, vault_check, awaiting_admission, route_selected_login,
      route_selected_signup, signup, email_verification, authenticated,
      developer_app, credential_generation, vault_storage, credential_validation,
      captcha_paused, completed, paused, blocked, cancelled]"

definition initial_phase :: phase where
  "initial_phase = research"

definition terminal_phases :: "phase set" where
  "terminal_phases = {completed, blocked, cancelled}"

definition session_bearing_phases :: "phase set" where
  "session_bearing_phases =
     {route_selected_login, signup, email_verification, authenticated,
      developer_app, credential_generation, captcha_paused}"

definition sessionless_resumable_phases :: "phase set" where
  "sessionless_resumable_phases =
     {research, vault_check, awaiting_admission, route_selected_signup,
      vault_storage, credential_validation, paused}"

definition resumable_phases :: "phase set" where
  "resumable_phases = session_bearing_phases \<union> sessionless_resumable_phases"

fun phase_status :: "phase \<Rightarrow> run_status" where
  "phase_status research = researching"
| "phase_status vault_check = researching"
| "phase_status awaiting_admission = waiting_for_hitl"
| "phase_status route_selected_login = route_selected"
| "phase_status route_selected_signup = route_selected"
| "phase_status signup = browser_running"
| "phase_status email_verification = browser_running"
| "phase_status authenticated = browser_running"
| "phase_status developer_app = browser_running"
| "phase_status credential_generation = browser_running"
| "phase_status vault_storage = browser_running"
| "phase_status credential_validation = browser_running"
| "phase_status captcha_paused = waiting_for_hitl"
| "phase_status completed = completed_status"
| "phase_status paused = waiting_for_hitl"
| "phase_status blocked = blocked_status"
| "phase_status cancelled = blocked_status"

definition credential_ready_phases :: "phase set" where
  "credential_ready_phases = {vault_storage, credential_validation}"

definition project_status :: "phase \<Rightarrow> bool \<Rightarrow> run_status" where
  "project_status p credential_ready =
     (if credential_ready \<and> p \<in> credential_ready_phases then credentials_ready
      else phase_status p)"

fun legal_phase_targets :: "phase \<Rightarrow> phase list" where
  "legal_phase_targets research = [vault_check, blocked, cancelled]"
| "legal_phase_targets vault_check =
     [route_selected_login, route_selected_signup, awaiting_admission, blocked]"
| "legal_phase_targets awaiting_admission = [route_selected_signup, cancelled, paused]"
| "legal_phase_targets route_selected_login =
     [authenticated, captcha_paused, paused, cancelled]"
| "legal_phase_targets route_selected_signup = [signup, paused, cancelled]"
| "legal_phase_targets signup =
     [email_verification, route_selected_login, captcha_paused, paused, cancelled]"
| "legal_phase_targets email_verification =
     [authenticated, captcha_paused, paused, cancelled]"
| "legal_phase_targets authenticated =
     [developer_app, captcha_paused, paused, cancelled]"
| "legal_phase_targets developer_app =
     [credential_generation, captcha_paused, paused, cancelled]"
| "legal_phase_targets credential_generation =
     [vault_storage, captcha_paused, paused, cancelled]"
| "legal_phase_targets vault_storage = [credential_validation, paused, cancelled]"
| "legal_phase_targets credential_validation =
     [completed, credential_generation, paused, cancelled]"
| "legal_phase_targets captcha_paused =
     [signup, email_verification, authenticated, developer_app,
      credential_generation, route_selected_login, paused, cancelled]"
| "legal_phase_targets paused = [research, cancelled]"
| "legal_phase_targets completed = []"
| "legal_phase_targets blocked = []"
| "legal_phase_targets cancelled = []"

fun is_legal_phase_transition :: "phase option \<Rightarrow> phase \<Rightarrow> bool" where
  "is_legal_phase_transition None next = (next = initial_phase)"
| "is_legal_phase_transition (Some previous) next =
     (if previous = next then True else next \<in> set (legal_phase_targets previous))"

text \<open>\<^theory_text>\<open>OnboardingReasonCode\<close>: the closed list of reason codes, as the strings the
  code uses, and the character class \<^theory_text>\<open>REASON_CODE_PATTERN\<close> holds them to.\<close>

definition onboarding_reason_codes :: "string list" where
  "onboarding_reason_codes = [
    ''profile_corroborated'', ''research_inconclusive'', ''research_domain_disagreement'',
    ''research_no_evidence'', ''research_adapters_unavailable'', ''research_attempt_failed'',
    ''profile_url_unreachable'', ''credentials_present'', ''credentials_missing'',
    ''signup_authorization_required'', ''operator_approved_signup'', ''operator_cancelled'',
    ''standing_signup_authorization'', ''plan_surface_not_in_catalog'',
    ''plan_provider_unconfigured'', ''plan_decision_failed'', ''plan_decision_unusable'',
    ''route_replanned'', ''route_divergence_unresolved'', ''route_divergence_same_host'',
    ''host_in_app_policy'', ''browser_host_not_in_app_policy'',
    ''browser_url_not_https_or_malformed'', ''action_not_in_candidate_set'',
    ''candidate_identity_not_found'', ''candidate_identity_ambiguous'',
    ''candidate_risk_requires_human'', ''dlp_prompt_refused'',
    ''loop_action_budget_exhausted'', ''loop_no_progress_budget_exhausted'',
    ''loop_wallclock_budget_exhausted'', ''loop_model_call_budget_exhausted'',
    ''postcondition_failed'', ''run_progress_stale'', ''decision_provider_unconfigured'',
    ''decision_provider_failed'', ''decision_unusable'', ''signup_submitted'',
    ''signup_rejected_duplicate_account'', ''signup_policy_absent'',
    ''signup_postcondition_unmet'', ''verification_email_found'', ''verification_unresolved'',
    ''verification_link_blocked'', ''verification_claim_contended'', ''developer_app_created'',
    ''developer_app_approval_required'', ''billing_required'', ''credential_generated'',
    ''credential_stored'', ''credential_valid'', ''credential_invalid_retryable'',
    ''credential_invalid_terminal'', ''credential_superseded'', ''flow_unsupported'',
    ''capture_spec_unavailable'', ''captcha_detected'', ''captcha_resolved'',
    ''captcha_attempt_budget_exhausted'', ''takeover_step_unavailable'', ''control_withheld'',
    ''lease_claimed'', ''lease_expired_recovered'', ''session_reattached'',
    ''session_recreated'', ''session_unreattachable'', ''session_lifetime_exceeded'',
    ''outcome_unknown'', ''phase_replay_noop'', ''run_paused_by_operator'', ''run_reset'',
    ''step_retried'']"

definition reason_code_head :: "char \<Rightarrow> bool" where
  "reason_code_head c = (is_lower_alpha c \<or> is_digit c)"

definition reason_code_tail :: "char \<Rightarrow> bool" where
  "reason_code_tail c =
     (reason_code_head c \<or> c = CHR ''_'' \<or> c = CHR '':'' \<or> c = CHR ''-'')"

definition reason_code_pattern :: "string \<Rightarrow> bool" where
  "reason_code_pattern s =
     (case s of [] \<Rightarrow> False
      | c # cs \<Rightarrow> reason_code_head c \<and> length cs \<le> 63 \<and> list_all reason_code_tail cs)"

text \<open>\<^theory_text>\<open>validate_phase_transition\<close>: the phase when the transition is legal, the raise
  otherwise. \<^theory_text>\<open>IllegalPhaseTransition\<close> carries both phases and the reason code.\<close>

datatype phase_refusal =
  IllegalPhaseTransition "phase option" phase string

definition validate_phase_transition ::
    "phase option \<Rightarrow> phase \<Rightarrow> string \<Rightarrow> phase_refusal + phase" where
  "validate_phase_transition previous next reason_code =
     (if \<not> is_legal_phase_transition previous next
      then Inl (IllegalPhaseTransition previous next reason_code)
      else Inr next)"

section \<open>Walks of the phase machine\<close>

instantiation phase :: enum
begin

definition "enum_phase = onboarding_phases"
definition "enum_all_phase P = list_all P onboarding_phases"
definition "enum_ex_phase P = list_ex P onboarding_phases"

lemma phase_in_onboarding_phases: "p \<in> set onboarding_phases"
  by (cases p) (simp_all add: onboarding_phases_def)

instance
proof
  show "(UNIV :: phase set) = set enum_class.enum"
    unfolding enum_phase_def using phase_in_onboarding_phases by auto
  show "distinct (enum_class.enum :: phase list)"
    unfolding enum_phase_def onboarding_phases_def by simp
  show "enum_class.enum_all P = Ball (UNIV :: phase set) P" for P
    unfolding enum_all_phase_def list_all_iff using phase_in_onboarding_phases by auto
  show "enum_class.enum_ex P = Bex (UNIV :: phase set) P" for P
    unfolding enum_ex_phase_def list_ex_iff using phase_in_onboarding_phases by auto
qed

end

text \<open>One committed step of a walk that is not a replay, and the walks: a chain of
  phases that starts at the initial phase, each step admitted by the table.\<close>

inductive phase_step :: "phase \<Rightarrow> phase \<Rightarrow> bool" where
  edge: "q \<in> set (legal_phase_targets p) \<Longrightarrow> phase_step p q"

inductive legal_walk :: "phase list \<Rightarrow> bool" where
  start: "legal_walk [initial_phase]"
| step: "legal_walk (w @ [p]) \<Longrightarrow> is_legal_phase_transition (Some p) q \<Longrightarrow> legal_walk (w @ [p, q])"

inductive_simps phase_step_iff: "phase_step p q"

lemmas phase_sets = terminal_phases_def session_bearing_phases_def
  sessionless_resumable_phases_def resumable_phases_def credential_ready_phases_def
  initial_phase_def

lemma terminal_iff_no_targets: "p \<in> terminal_phases \<longleftrightarrow> legal_phase_targets p = []"
  by (cases p) (simp_all add: terminal_phases_def)

lemma resumable_iff_not_terminal: "p \<in> resumable_phases \<longleftrightarrow> p \<notin> terminal_phases"
  by (cases p) (simp_all add: phase_sets)

lemma session_bearing_sessionless_disjoint:
  "session_bearing_phases \<inter> sessionless_resumable_phases = {}"
  by (simp add: phase_sets)

lemma no_self_targets: "p \<notin> set (legal_phase_targets p)"
  by (cases p) simp_all

lemma legal_walk_nonempty: "legal_walk w \<Longrightarrow> w \<noteq> []"
  by (induction rule: legal_walk.induct) auto

lemma legal_walk_hd: "legal_walk w \<Longrightarrow> hd w = research"
  by (induction rule: legal_walk.induct) (auto simp: initial_phase_def hd_append split: if_splits)


text \<open>The phases a run may be in before an admission route was selected.\<close>

definition pre_route_phases :: "phase set" where
  "pre_route_phases =
     {research, vault_check, awaiting_admission, paused, blocked, cancelled}"

lemma pre_route_step:
  "is_legal_phase_transition (Some p) q \<Longrightarrow> p \<in> pre_route_phases \<Longrightarrow> q \<notin> pre_route_phases \<Longrightarrow>
   q \<in> {route_selected_login, route_selected_signup}"
  by (cases p) (auto simp: pre_route_phases_def split: if_splits)

lemma signup_step:
  "is_legal_phase_transition (Some p) signup \<Longrightarrow>
   p \<in> {signup, route_selected_signup, captcha_paused}"
  by (cases p) (auto split: if_splits)

lemma captcha_step:
  "is_legal_phase_transition (Some p) captcha_paused \<Longrightarrow> p \<in> session_bearing_phases"
  by (cases p) (auto simp: session_bearing_phases_def split: if_splits)

lemma walk_before_route:
  "legal_walk w \<Longrightarrow> route_selected_login \<notin> set w \<Longrightarrow> route_selected_signup \<notin> set w \<Longrightarrow>
   set w \<subseteq> pre_route_phases"
proof (induction rule: legal_walk.induct)
  case start
  then show ?case by (simp add: pre_route_phases_def initial_phase_def)
next
  case (step w p q)
  then have "p \<in> pre_route_phases" "q \<noteq> route_selected_login" "q \<noteq> route_selected_signup"
    by auto
  then show ?case using step pre_route_step [OF step(2)] by auto
qed

lemma steps_to_completed:
  "phase_step\<^sup>*\<^sup>* credential_validation completed"
  "phase_step\<^sup>*\<^sup>* vault_storage completed"
  "phase_step\<^sup>*\<^sup>* credential_generation completed"
  "phase_step\<^sup>*\<^sup>* developer_app completed"
  "phase_step\<^sup>*\<^sup>* authenticated completed"
  "phase_step\<^sup>*\<^sup>* route_selected_login completed"
  "phase_step\<^sup>*\<^sup>* vault_check completed"
  "phase_step\<^sup>*\<^sup>* research completed"
proof -
  show a: "phase_step\<^sup>*\<^sup>* credential_validation completed"
    by (rule r_into_rtranclp) (simp add: phase_step_iff)
  show b: "phase_step\<^sup>*\<^sup>* vault_storage completed"
    by (rule converse_rtranclp_into_rtranclp [OF _ a]) (simp add: phase_step_iff)
  show c: "phase_step\<^sup>*\<^sup>* credential_generation completed"
    by (rule converse_rtranclp_into_rtranclp [OF _ b]) (simp add: phase_step_iff)
  show d: "phase_step\<^sup>*\<^sup>* developer_app completed"
    by (rule converse_rtranclp_into_rtranclp [OF _ c]) (simp add: phase_step_iff)
  show e: "phase_step\<^sup>*\<^sup>* authenticated completed"
    by (rule converse_rtranclp_into_rtranclp [OF _ d]) (simp add: phase_step_iff)
  show f: "phase_step\<^sup>*\<^sup>* route_selected_login completed"
    by (rule converse_rtranclp_into_rtranclp [OF _ e]) (simp add: phase_step_iff)
  show g: "phase_step\<^sup>*\<^sup>* vault_check completed"
    by (rule converse_rtranclp_into_rtranclp [OF _ f]) (simp add: phase_step_iff)
  show "phase_step\<^sup>*\<^sup>* research completed"
    by (rule converse_rtranclp_into_rtranclp [OF _ g]) (simp add: phase_step_iff)
qed

lemma step_towards_completed:
  "p \<notin> terminal_phases \<Longrightarrow>
   \<exists>q. phase_step p q \<and>
       q \<in> {completed, credential_validation, vault_storage, credential_generation,
             developer_app, authenticated, route_selected_login, vault_check, research,
             signup, route_selected_signup}"
  by (cases p) (auto simp: phase_step_iff terminal_phases_def)

lemma signup_to_completed:
  "phase_step\<^sup>*\<^sup>* signup completed" "phase_step\<^sup>*\<^sup>* route_selected_signup completed"
proof -
  show a: "phase_step\<^sup>*\<^sup>* signup completed"
    by (rule converse_rtranclp_into_rtranclp [OF _ steps_to_completed(6)])
       (simp add: phase_step_iff)
  show "phase_step\<^sup>*\<^sup>* route_selected_signup completed"
    by (rule converse_rtranclp_into_rtranclp [OF _ a]) (simp add: phase_step_iff)
qed

section \<open>Properties\<close>

text \<open>A transition is admitted exactly when it is the identity or an edge of the
  table, a refusal carries both phases and the reason code, and a terminal phase
  (completed, blocked, cancelled) is left by no admitted transition while every
  other phase is left by one.\<close>

theorem validate_phase_transition_spec:
  "validate_phase_transition (Some p) q rc =
     (if q = p \<or> q \<in> set (legal_phase_targets p) then Inr q
      else Inl (IllegalPhaseTransition (Some p) q rc)) \<and>
   (p \<in> terminal_phases \<longleftrightarrow> (\<nexists>q'. q' \<noteq> p \<and> validate_phase_transition (Some p) q' rc = Inr q'))"
proof -
  have "p \<notin> terminal_phases \<longleftrightarrow> (\<exists>q'. q' \<in> set (legal_phase_targets p))"
    by (metis terminal_iff_no_targets list.set_intros(1) neq_Nil_conv empty_iff list.set(1))
  then show ?thesis
    using no_self_targets [of p] by (auto simp: validate_phase_transition_def)
qed

text \<open>Every non-terminal phase is resumable, and from each of them the table still
  admits a walk to completed: no phase a run can be parked in is a trap.\<close>

theorem no_phase_is_a_trap:
  "p \<notin> terminal_phases \<Longrightarrow> p \<in> resumable_phases \<and> phase_step\<^sup>*\<^sup>* p completed"
proof
  assume nt: "p \<notin> terminal_phases"
  then show "p \<in> resumable_phases" by (simp add: resumable_iff_not_terminal)
  obtain q where q: "phase_step p q" "phase_step\<^sup>*\<^sup>* q completed"
    using step_towards_completed [OF nt] steps_to_completed signup_to_completed by auto
  then show "phase_step\<^sup>*\<^sup>* p completed" by (rule converse_rtranclp_into_rtranclp)
qed

lemma no_phase_is_a_trap_witness:
  "captcha_paused \<notin> terminal_phases \<and> phase_step\<^sup>*\<^sup>* captcha_paused completed"
  using no_phase_is_a_trap [of captcha_paused] by (simp add: terminal_phases_def)

text \<open>No legal walk enters a phase that holds a browser session, or a later one,
  without having selected a login or a signup route first; and without a captcha
  pause in the walk, signup is entered only behind the signup route.\<close>

theorem session_needs_a_route:
  "legal_walk w \<Longrightarrow> p \<in> set w \<Longrightarrow> p \<notin> pre_route_phases \<Longrightarrow>
   (route_selected_login \<in> set w \<or> route_selected_signup \<in> set w) \<and>
   (captcha_paused \<notin> set w \<longrightarrow> signup \<in> set w \<longrightarrow> route_selected_signup \<in> set w)"
proof (intro conjI impI)
  assume "legal_walk w" "p \<in> set w" "p \<notin> pre_route_phases"
  then show "route_selected_login \<in> set w \<or> route_selected_signup \<in> set w"
    using walk_before_route by blast
next
  assume "legal_walk w" "captcha_paused \<notin> set w" "signup \<in> set w"
  then show "route_selected_signup \<in> set w"
    by (induction rule: legal_walk.induct) (use signup_step in \<open>auto simp: initial_phase_def\<close>)
qed

lemma session_needs_a_route_witness:
  "let w = [research, vault_check, route_selected_signup, signup] in
   legal_walk w \<and> signup \<in> set w \<and> signup \<notin> pre_route_phases \<and>
   route_selected_signup \<in> set w"
proof -
  have s: "legal_walk [research]" using legal_walk.start by (simp add: initial_phase_def)
  have "legal_walk ([] @ [research, vault_check])" by (rule legal_walk.step) (use s in simp_all)
  then have "legal_walk ([research] @ [vault_check, route_selected_signup])"
    by (intro legal_walk.step) simp_all
  then have w: "legal_walk ([research, vault_check] @ [route_selected_signup, signup])"
    by (intro legal_walk.step) simp_all
  then show ?thesis
    using session_needs_a_route [OF w, of signup] by (simp add: pre_route_phases_def)
qed

lemma reason_code_chars:
  "list_all reason_code_tail ''abcdefghijklmnopqrstuvwxyz0123456789_:-''"
  "list_all reason_code_head ''abcdefghijklmnopqrstuvwxyz0123456789''"
  by (simp_all add: reason_code_head_def reason_code_tail_def is_lower_alpha_def
      is_digit_def Let_def)

lemmas reason_code_char_facts = reason_code_chars [simplified list.pred_inject]

text \<open>Every onboarding reason code is in the character class the API enforces, so a
  code reaches the API without translation.\<close>

theorem reason_codes_well_formed:
  "list_all reason_code_pattern onboarding_reason_codes"
  unfolding onboarding_reason_codes_def
  by (simp add: reason_code_pattern_def reason_code_char_facts)

end
