(* ===== verification/State_Projection.thy ===== *)
theory State_Projection
  imports Phases
begin

text \<open>
  The run ledger's status writers. \<^theory_text>\<open>ops/core/storage.py\<close> keeps one row per run
  (\<^theory_text>\<open>_get_run\<close>, \<^theory_text>\<open>_update_run\<close>, \<^theory_text>\<open>_append_audit_event\<close>);
  \<^theory_text>\<open>ops/runs/state_projection.py\<close> projects workflow state onto it
  (\<^theory_text>\<open>apply_projection\<close>, \<^theory_text>\<open>project\<close>, \<^theory_text>\<open>guarded_status_update\<close>); \<^theory_text>\<open>_project\<close> of
  \<^theory_text>\<open>ops/runs/resume.py\<close> writes the status a committed phase projects onto.

  A row is its status, its two revision counters and a map of the other mutable
  columns. \<^theory_text>\<open>rd\<close> stands for \<^theory_text>\<open>redact_text\<close> and \<^theory_text>\<open>sj\<close> for \<^theory_text>\<open>_structured_json\<close> on a
  serialised value; timestamps are not modelled. The lemmas show that no writer
  makes a status change outside the table, that replays change nothing, and which
  phase edges the status table cannot follow.
\<close>

section \<open>Rows and the update (ops/core/storage.py)\<close>

datatype cell = CNull | CText string | CInt int | CJson string

record run_row =
  status :: run_status
  state_revision :: int
  last_projected_revision :: int
  columns :: "string \<Rightarrow> cell option"

record audit_event =
  ev_run :: string
  ev_type :: string
  ev_payload :: "(string \<times> cell) list"

record run_ledger =
  runs :: "string \<Rightarrow> run_row option"
  audit :: "audit_event list"

record run_changes =
  ch_status :: "run_status option"
  ch_revision :: "int option"
  ch_projected :: "int option"
  ch_columns :: "(string \<times> cell) list"

definition mutable_columns :: "string list" where
  "mutable_columns =
     [''status'', ''access_route'', ''browser_session_id'', ''browser_live_url'',
      ''gmail_session_id'', ''gmail_thread_id'', ''integrator_bundle'', ''p1_summary'',
      ''operational_research'', ''route_reason_code'', ''route_explanation'',
      ''missing_fields'', ''provider_status'', ''hitl_request'', ''validation'',
      ''scope_policy'', ''execution_mode'', ''provider_session_id'',
      ''connection_request_id'', ''attempt'', ''phase'', ''reason_code'',
      ''effect_identity'', ''external_actions'', ''state_revision'',
      ''last_projected_revision'']"

definition json_run_fields :: "string list" where
  "json_run_fields =
     [''integrator_bundle'', ''p1_summary'', ''operational_research'', ''request'',
      ''recipe_snapshot'', ''missing_fields'', ''provider_status'', ''hitl_request'',
      ''validation'']"

definition default_json_values :: "string \<Rightarrow> string option" where
  "default_json_values =
     [''missing_fields'' \<mapsto> ''[]'', ''provider_status'' \<mapsto> ''{}'']"

text \<open>What one assignment of \<^theory_text>\<open>_update_run\<close> stores.\<close>

fun stored_cell ::
    "(string \<Rightarrow> string) \<Rightarrow> (string \<Rightarrow> string) \<Rightarrow> string \<Rightarrow> cell \<Rightarrow> cell" where
  "stored_cell rd sj name CNull =
     (if name \<in> set json_run_fields
      then (case default_json_values name of Some d \<Rightarrow> CJson d | None \<Rightarrow> CNull)
      else if name = ''external_actions'' then CInt 0 else CNull)"
| "stored_cell rd sj name (CText s) =
     (if name = ''external_actions'' then CInt (if s = [] then 0 else 1) else CText (rd s))"
| "stored_cell rd sj name (CInt n) =
     (if name = ''external_actions'' then CInt (if n = 0 then 0 else 1) else CInt n)"
| "stored_cell rd sj name (CJson j) = CJson (sj j)"

definition get_run :: "(string \<Rightarrow> string) \<Rightarrow> run_ledger \<Rightarrow> string \<Rightarrow> run_row option" where
  "get_run rd L run_id = runs L (rd run_id)"

definition changed_row ::
    "(string \<Rightarrow> string) \<Rightarrow> (string \<Rightarrow> string) \<Rightarrow> run_changes \<Rightarrow> run_row \<Rightarrow> run_row" where
  "changed_row rd sj ch r =
     r\<lparr>status := (case ch_status ch of Some s \<Rightarrow> s | None \<Rightarrow> status r),
       state_revision :=
         (case ch_revision ch of Some n \<Rightarrow> n | None \<Rightarrow> state_revision r),
       last_projected_revision :=
         (case ch_projected ch of Some n \<Rightarrow> n | None \<Rightarrow> last_projected_revision r),
       columns := fold (\<lambda>(n, v) m. m(n \<mapsto> stored_cell rd sj n v)) (ch_columns ch) (columns r)\<rparr>"

definition update_run ::
    "(string \<Rightarrow> string) \<Rightarrow> (string \<Rightarrow> string) \<Rightarrow> run_ledger \<Rightarrow> string \<Rightarrow> run_changes \<Rightarrow>
     (run_ledger \<times> run_row) result" where
  "update_run rd sj L run_id ch =
     (if \<exists>(n, v) \<in> set (ch_columns ch). n \<notin> set mutable_columns
      then Inl (ValueError ''unsupported run update field'')
      else if \<exists>(n, v) \<in> set (ch_columns ch). n = ''browser_live_url'' \<and> v \<noteq> CNull
      then Inl (ValueError ''browser live capability URLs cannot be persisted'')
      else (case runs L (rd run_id) of
          None \<Rightarrow> Inl (KeyError ''run was not found'')
        | Some r \<Rightarrow>
            let r' = changed_row rd sj ch r
            in Inr (L\<lparr>runs := (runs L)(rd run_id \<mapsto> r')\<rparr>, r')))"

definition append_audit_event ::
    "(string \<Rightarrow> string) \<Rightarrow> run_ledger \<Rightarrow> string \<Rightarrow> string \<Rightarrow> (string \<times> cell) list \<Rightarrow> run_ledger" where
  "append_audit_event rd L run_id event_type payload =
     L\<lparr>audit := audit L @
         [\<lparr>ev_run = rd run_id, ev_type = rd event_type, ev_payload = payload\<rparr>]\<rparr>"

definition list_audit_events :: "(string \<Rightarrow> string) \<Rightarrow> run_ledger \<Rightarrow> string \<Rightarrow> audit_event list" where
  "list_audit_events rd L run_id = filter (\<lambda>e. ev_run e = rd run_id) (audit L)"

section \<open>The projection (ops/runs/state_projection.py)\<close>

definition create_projection_chains :: "run_status \<Rightarrow> run_status list option" where
  "create_projection_chains s =
     map_of
       [(waiting_for_reply, [route_selected, outreach_sent, waiting_for_reply]),
        (outreach_sent, [route_selected, outreach_sent]),
        (browser_running, [route_selected, browser_running]),
        (waiting_for_hitl, [route_selected, browser_running, waiting_for_hitl]),
        (credentials_ready, [route_selected, browser_running, credentials_ready]),
        (completed_status,
         [route_selected, browser_running, credentials_ready, completed_status])] s"

fun validate_chain :: "run_status \<Rightarrow> run_status list \<Rightarrow> unit result" where
  "validate_chain previous [] = Inr ()"
| "validate_chain previous (next # rest) =
     bindR (validate_status_transition previous next) (\<lambda>_. validate_chain next rest)"

definition validate_created_projection :: "run_status \<Rightarrow> unit result" where
  "validate_created_projection final_status =
     (case create_projection_chains final_status of
        None \<Rightarrow> bindR (validate_status_transition created final_status) (\<lambda>_. Inr ())
      | Some chain \<Rightarrow> validate_chain created chain)"

text \<open>The workflow state a projection reads: the keys present in the mapping.\<close>

record graph_state =
  gs_status :: "run_status option"
  gs_access_route :: "string option"
  gs_route_reason_code :: "string option"
  gs_route_reason :: "string option"
  gs_operational_research :: "string option"
  gs_missing_fields :: "string option"

fun opt_column :: "string \<Rightarrow> (string \<Rightarrow> cell) \<Rightarrow> string option \<Rightarrow> (string \<times> cell) list" where
  "opt_column name c None = []"
| "opt_column name c (Some v) = [(name, c v)]"

definition projected_columns :: "graph_state \<Rightarrow> (string \<times> cell) list" where
  "projected_columns g =
     opt_column ''access_route'' CText (gs_access_route g) @
     opt_column ''route_reason_code'' CText (gs_route_reason_code g) @
     opt_column ''route_explanation'' CText (gs_route_reason g) @
     opt_column ''operational_research'' CJson (gs_operational_research g) @
     opt_column ''missing_fields'' CJson (gs_missing_fields g)"

definition apply_projection ::
    "(string \<Rightarrow> string) \<Rightarrow> (string \<Rightarrow> string) \<Rightarrow> (run_status \<Rightarrow> cell) \<Rightarrow> run_ledger \<Rightarrow> string \<Rightarrow>
     graph_state \<Rightarrow> int \<Rightarrow> (run_ledger \<times> run_row) result" where
  "apply_projection rd sj st L run_id g revision =
     (case get_run rd L run_id of
        None \<Rightarrow> Inl (KeyError ''run was not found'')
      | Some current \<Rightarrow>
          if revision \<le> last_projected_revision current then Inr (L, current)
          else
            let previous = status current;
                next = (case gs_status g of Some s \<Rightarrow> s | None \<Rightarrow> previous)
            in bindR (validate_status_transition previous next) (\<lambda>_.
               bindR (update_run rd sj L run_id
                        \<lparr>ch_status = Some next, ch_revision = Some revision,
                         ch_projected = Some revision, ch_columns = projected_columns g\<rparr>)
                 (\<lambda>(L', r'). Inr
                   (append_audit_event rd L' run_id ''state_projected''
                      [(''status'', st next), (''revision'', CInt revision),
                       (''external_actions'', CInt 0)], r'))))"

definition terminal_browser_statuses :: "run_status set" where
  "terminal_browser_statuses =
     {completed_status, failed, blocked_status, configuration_required}"

text \<open>\<^theory_text>\<open>project\<close> and \<^theory_text>\<open>guarded_status_update\<close>: the ledger after the call (a raise rolls
  the unit of work back), the value, and whether the browser session is released
  with the command's reason. \<^theory_text>\<open>busy\<close> says whether another command holds the run's
  lock.\<close>

definition project ::
    "(string \<Rightarrow> string) \<Rightarrow> (string \<Rightarrow> string) \<Rightarrow> (run_status \<Rightarrow> cell) \<Rightarrow> run_ledger \<Rightarrow> string \<Rightarrow>
     graph_state \<Rightarrow> int \<Rightarrow> run_ledger \<times> (run_row \<times> bool) result" where
  "project rd sj st L run_id g revision =
     (case apply_projection rd sj st L run_id g revision of
        Inl e \<Rightarrow> (L, Inl e)
      | Inr (L', r) \<Rightarrow> (L', Inr (r, status r \<in> terminal_browser_statuses)))"

definition guarded_status_update ::
    "(string \<Rightarrow> string) \<Rightarrow> (string \<Rightarrow> string) \<Rightarrow> bool \<Rightarrow> run_ledger \<Rightarrow> string \<Rightarrow> int \<Rightarrow>
     run_status \<Rightarrow> string \<Rightarrow> (string \<times> cell) list \<Rightarrow>
     run_ledger \<times> (run_row \<times> bool) result" where
  "guarded_status_update rd sj busy L run_id expected next command cols =
     (if busy then (L, Inl (RunConflictError run_id command))
      else (case get_run rd L run_id of
          None \<Rightarrow> (L, Inl (KeyError ''run was not found''))
        | Some current \<Rightarrow>
            if state_revision current \<noteq> expected
            then (L, Inl (RunConflictError run_id command))
            else (case bindR (validate_status_transition (status current) next) (\<lambda>_.
                    update_run rd sj L run_id
                      \<lparr>ch_status = Some next, ch_revision = Some (expected + 1),
                       ch_projected = Some (expected + 1), ch_columns = cols\<rparr>) of
                Inl e \<Rightarrow> (L, Inl e)
              | Inr (L', r) \<Rightarrow> (L', Inr (r, next \<in> terminal_browser_statuses)))))"

section \<open>The status a committed phase writes (ops/runs/resume.py, \_project)\<close>

definition project_phase ::
    "(string \<Rightarrow> string) \<Rightarrow> (string \<Rightarrow> string) \<Rightarrow> (run_status \<Rightarrow> cell) \<Rightarrow> (phase \<Rightarrow> string) \<Rightarrow>
     run_ledger \<Rightarrow> string \<Rightarrow> phase \<Rightarrow> string \<Rightarrow> string \<Rightarrow> bool \<Rightarrow> run_ledger result" where
  "project_phase rd sj st pn L run_id p reason_code event_type released =
     (case get_run rd L run_id of
        None \<Rightarrow> Inl (KeyError ''run was not found'')
      | Some record \<Rightarrow>
          let revision = state_revision record + 1;
              previous = status record;
              target = project_status p False;
              written =
                (if previous \<noteq> target then
                   (case validate_status_transition previous target of
                      Inl _ \<Rightarrow> None | Inr _ \<Rightarrow> Some target)
                 else None)
          in bindR (update_run rd sj L run_id
                 \<lparr>ch_status = written, ch_revision = Some revision,
                  ch_projected = Some revision,
                  ch_columns = [(''phase'', CText (pn p)), (''reason_code'', CText reason_code)]\<rparr>)
               (\<lambda>(L', r'). Inr
                 (append_audit_event rd L' run_id event_type
                    [(''onboarding_phase'', CText (pn p)), (''reason_code'', CText reason_code),
                     (''status'', st (case written of Some s \<Rightarrow> s | None \<Rightarrow> previous)),
                     (''browser_session_released'', CInt (if released then 1 else 0)),
                     (''external_actions'', CInt (if released then 1 else 0))])))"

section \<open>What the writers keep\<close>

lemma validate_status_Inr:
  "validate_status_transition p q = Inr x \<longleftrightarrow>
   x = q \<and> (q = p \<or> q \<in> set (legal_status_transitions p))"
  by (auto simp: validate_status_transition_def)

lemma update_run_Inr:
  "update_run rd sj L run_id ch = Inr (L', r') \<Longrightarrow>
   \<exists>r. runs L (rd run_id) = Some r \<and> r' = changed_row rd sj ch r \<and>
       runs L' = (runs L)(rd run_id \<mapsto> r') \<and> audit L' = audit L"
  by (auto simp: update_run_def Let_def split: if_splits option.splits)

lemma changed_row_status:
  "status (changed_row rd sj ch r) = (case ch_status ch of Some s \<Rightarrow> s | None \<Rightarrow> status r)"
  "state_revision (changed_row rd sj ch r) =
     (case ch_revision ch of Some s \<Rightarrow> s | None \<Rightarrow> state_revision r)"
  "last_projected_revision (changed_row rd sj ch r) =
     (case ch_projected ch of Some s \<Rightarrow> s | None \<Rightarrow> last_projected_revision r)"
  by (simp_all add: changed_row_def)

text \<open>The relation between a ledger and its successor that every writer keeps: no
  run disappears, each status stays or moves along the table, and no audit row is
  lost.\<close>

definition legal_successor :: "run_ledger \<Rightarrow> run_ledger \<Rightarrow> bool" where
  "legal_successor L L' \<longleftrightarrow>
     (\<forall>k r. runs L k = Some r \<longrightarrow>
        (\<exists>r'. runs L' k = Some r' \<and>
              (status r' = status r \<or> status r' \<in> set (legal_status_transitions (status r))))) \<and>
     (\<exists>es. audit L' = audit L @ es)"

lemma legal_successor_refl [simp]: "legal_successor L L"
  by (auto simp: legal_successor_def)

lemma legal_successor_update:
  assumes "update_run rd sj L run_id ch = Inr (L', r')" "runs L (rd run_id) = Some r"
    and "status r' = status r \<or> status r' \<in> set (legal_status_transitions (status r))"
  shows "legal_successor L L'"
  using update_run_Inr [OF assms(1)] assms(2,3) by (auto simp: legal_successor_def)

lemma legal_successor_audit:
  "legal_successor L (append_audit_event rd L' i t p) \<longleftrightarrow> legal_successor L L'"
  if "audit L' = audit L"
  using that by (auto simp: legal_successor_def append_audit_event_def)

lemma legal_successor_write:
  assumes u: "update_run rd sj L run_id ch = Inr (L', r')" "runs L (rd run_id) = Some r"
    and s: "case ch_status ch of None \<Rightarrow> True
            | Some n \<Rightarrow> n = status r \<or> n \<in> set (legal_status_transitions (status r))"
  shows "legal_successor L L'" "legal_successor L (append_audit_event rd L' i t p)"
proof -
  obtain r0 where "runs L (rd run_id) = Some r0" "r' = changed_row rd sj ch r0"
    and a: "audit L' = audit L"
    using update_run_Inr [OF u(1)] by blast
  then have "status r' = status r \<or> status r' \<in> set (legal_status_transitions (status r))"
    using u(2) s by (auto simp: changed_row_status split: option.splits)
  then show "legal_successor L L'" by (rule legal_successor_update [OF u])
  then show "legal_successor L (append_audit_event rd L' i t p)"
    using a by (simp add: legal_successor_audit)
qed

lemma apply_projection_legal:
  assumes "apply_projection rd sj st L run_id g revision = Inr (L', r')"
  shows "legal_successor L L'"
proof (cases "get_run rd L run_id")
  case (Some cur)
  show ?thesis
  proof (cases "revision \<le> last_projected_revision cur")
    case False
    then show ?thesis
      using assms Some
      by (auto simp: apply_projection_def Let_def result_simps validate_status_Inr
          get_run_def split: option.splits intro: legal_successor_write)
  qed (use assms Some in \<open>auto simp: apply_projection_def\<close>)
qed (use assms in \<open>auto simp: apply_projection_def\<close>)

lemma guarded_update_legal:
  "guarded_status_update rd sj busy L run_id n s c cols = (L', res) \<Longrightarrow> legal_successor L L'"
  unfolding guarded_status_update_def
  by (auto simp: result_simps validate_status_Inr get_run_def
      split: if_splits option.splits sum.splits prod.splits intro: legal_successor_write(1))

lemma project_phase_legal:
  assumes "project_phase rd sj st pn L run_id p rc ev rel = Inr L'"
  shows "legal_successor L L'"
  using assms unfolding project_phase_def Let_def
  by (auto simp: result_simps get_run_def validate_status_transition_def
      split: if_splits option.splits sum.splits intro!: legal_successor_write(2))

text \<open>One command of any of the three writers.\<close>

inductive status_write ::
    "(string \<Rightarrow> string) \<Rightarrow> (string \<Rightarrow> string) \<Rightarrow> (run_status \<Rightarrow> cell) \<Rightarrow> (phase \<Rightarrow> string) \<Rightarrow>
     run_ledger \<Rightarrow> run_ledger \<Rightarrow> bool" for rd sj st pn where
  projected: "project rd sj st L run_id g revision = (L', res) \<Longrightarrow> status_write rd sj st pn L L'"
| guarded: "guarded_status_update rd sj busy L run_id n s c cols = (L', res) \<Longrightarrow>
            status_write rd sj st pn L L'"
| phase_projected: "project_phase rd sj st pn L run_id p rc ev rel = Inr L' \<Longrightarrow>
            status_write rd sj st pn L L'"

lemma status_write_legal: "status_write rd sj st pn L L' \<Longrightarrow> legal_successor L L'"
proof (induction rule: status_write.induct)
  case (projected L run_id g revision L' res)
  then show ?case
    by (auto simp: project_def split: sum.splits prod.splits dest: apply_projection_legal)
qed (auto dest: guarded_update_legal project_phase_legal)

lemma apply_projection_Inr:
  assumes "apply_projection rd sj st L run_id g revision = Inr (L', r')"
  obtains r where "get_run rd L run_id = Some r" "revision \<le> last_projected_revision r"
      "L' = L" "r' = r"
  | r where "get_run rd L run_id = Some r" "\<not> revision \<le> last_projected_revision r"
      "status r' = status r \<or> status r' \<in> set (legal_status_transitions (status r))"
      "get_run rd L' run_id = Some r'" "last_projected_revision r' = revision"
proof (cases "get_run rd L run_id")
  case (Some r)
  show thesis
  proof (cases "revision \<le> last_projected_revision r")
    case True
    then show thesis using that(1) Some assms by (auto simp: apply_projection_def)
  next
    case False
    then show thesis
      using assms Some
      by (intro that(2) [OF Some False])
        (auto simp: apply_projection_def Let_def result_simps validate_status_Inr get_run_def
          append_audit_event_def changed_row_status dest!: update_run_Inr split: option.splits)
  qed
qed (use assms in \<open>auto simp: apply_projection_def\<close>)

definition status_refused_edges :: "(phase \<times> phase) set" where
  "status_refused_edges =
     {(vault_check, awaiting_admission), (awaiting_admission, route_selected_signup),
      (signup, route_selected_login), (credential_validation, completed),
      (captcha_paused, route_selected_login), (paused, research)}"

lemma status_table_on_phase_edges:
  "q \<in> set (legal_phase_targets p) \<Longrightarrow>
   validate_status_transition (project_status p False) (project_status q False) =
     (if (p, q) \<in> status_refused_edges then Inl (ValueError ''illegal status transition'')
      else Inr (project_status q False))"
  by (cases p; cases q)
     (simp_all add: project_status_def validate_status_transition_def status_refused_edges_def)

section \<open>Properties\<close>

text \<open>No sequence of status writes, by any of the three writers and with any
  arguments, moves a run out of a terminal status, and none loses an audit row.\<close>

theorem terminal_status_is_final:
  "(status_write rd sj st pn)\<^sup>*\<^sup>* L L' \<Longrightarrow> runs L k = Some r \<Longrightarrow>
   status r \<in> {completed_status, blocked_status, cancelled_status} \<Longrightarrow>
   (\<exists>r'. runs L' k = Some r' \<and> status r' = status r) \<and> (\<exists>es. audit L' = audit L @ es)"
proof (induction rule: rtranclp_induct)
  case (step M M')
  then obtain r1 es where "runs M k = Some r1" "status r1 = status r" "audit M = audit L @ es"
    by blast
  moreover obtain r2 es' where "runs M' k = Some r2" "audit M' = audit M @ es'"
    "status r2 = status r1 \<or> status r2 \<in> set (legal_status_transitions (status r1))"
    using status_write_legal [OF step(2)] \<open>runs M k = Some r1\<close>
    unfolding legal_successor_def by blast
  ultimately show ?case using step.prems(2) by auto
qed auto

text \<open>A projection whose revision was already projected changes nothing and returns
  the stored row; one that is applied records its revision, so projecting it again
  is such a replay; and it refuses the whole write when the status edge is illegal.\<close>

theorem projection_replay_is_noop:
  "project rd sj st L run_id g revision = (L', Inr (r', released)) \<Longrightarrow>
   project rd sj st L' run_id g' revision = (L', Inr (r', status r' \<in> terminal_browser_statuses)) \<and>
   (\<exists>r. get_run rd L run_id = Some r \<and>
        (revision \<le> last_projected_revision r \<longrightarrow> L' = L \<and> r' = r) \<and>
        (status r' = status r \<or> status r' \<in> set (legal_status_transitions (status r))))"
proof -
  assume "project rd sj st L run_id g revision = (L', Inr (r', released))"
  then have "apply_projection rd sj st L run_id g revision = Inr (L', r')"
    by (auto simp: project_def split: sum.splits prod.splits)
  then show ?thesis
    by (cases rule: apply_projection_Inr) (auto simp: project_def apply_projection_def)
qed

text \<open>Of two commands that read the same revision at most one is applied: after a
  guarded update succeeds, a second one that expects the same revision is refused
  as a conflict and changes nothing, as is any command while the lock is held.\<close>

theorem guarded_update_serializes:
  "guarded_status_update rd sj busy L run_id n s c cols = (L', Inr (r', released)) \<Longrightarrow>
   guarded_status_update rd sj busy' L' run_id n s' c' cols' =
     (L', Inl (RunConflictError run_id c')) \<and> \<not> busy"
  unfolding guarded_status_update_def
  by (auto simp: result_simps get_run_def changed_row_status dest!: update_run_Inr
      split: if_splits option.splits sum.splits)

text \<open>On a row whose status is the projection of its phase, committing any edge of the
  phase table records the phase and moves the status to the new phase's projection,
  except on six edges the status table refuses, where the status stays behind:
  one of them is the reset from paused to research, after which the row still
  says a person is awaited.\<close>

theorem phase_projection_follows:
  "get_run rd L run_id = Some r \<Longrightarrow> status r = project_status p False \<Longrightarrow>
   q \<in> set (legal_phase_targets p) \<Longrightarrow>
   \<exists>L' r'. project_phase rd sj st pn L run_id q rc ev rel = Inr L' \<and>
     get_run rd L' run_id = Some r' \<and>
     columns r' ''phase'' = Some (CText (rd (pn q))) \<and>
     state_revision r' = state_revision r + 1 \<and>
     status r' = (if (p, q) \<in> status_refused_edges then status r else project_status q False)"
  using status_table_on_phase_edges [of q p]
  by (cases "project_status p False = project_status q False")
    (auto simp: project_phase_def get_run_def update_run_def changed_row_def Let_def
      append_audit_event_def mutable_columns_def validate_status_transition_def
      split: if_splits)

lemma phase_projection_follows_witness:
  "let r = \<lparr>status = waiting_for_hitl, state_revision = 4, last_projected_revision = 4,
            columns = Map.empty\<rparr>;
       L = \<lparr>runs = [''r1'' \<mapsto> r], audit = []\<rparr>
   in \<exists>L' r'. project_phase id id (\<lambda>_. CNull) (\<lambda>_. ''research'') L ''r1'' research
          ''run_reset'' ''reset'' False = Inr L' \<and>
        get_run id L' ''r1'' = Some r' \<and> status r' = waiting_for_hitl"
  using phase_projection_follows
    [of id "\<lparr>runs = [''r1'' \<mapsto> \<lparr>status = waiting_for_hitl, state_revision = 4,
       last_projected_revision = 4, columns = Map.empty\<rparr>], audit = []\<rparr>" "''r1''"
       "\<lparr>status = waiting_for_hitl, state_revision = 4,
       last_projected_revision = 4, columns = Map.empty\<rparr>" paused research id
       "\<lambda>_. CNull" "\<lambda>_. ''research''" "''run_reset''" "''reset''" False]
  by (auto simp: get_run_def project_status_def status_refused_edges_def)

section \<open>Witnesses\<close>

definition sample_row :: "run_status \<Rightarrow> run_row" where
  "sample_row s = \<lparr>status = s, state_revision = 2, last_projected_revision = 2,
     columns = Map.empty\<rparr>"

definition sample_ledger :: "run_status \<Rightarrow> run_ledger" where
  "sample_ledger s = \<lparr>runs = [''r1'' \<mapsto> sample_row s], audit = []\<rparr>"

lemmas sample_defs = sample_ledger_def sample_row_def

lemma terminal_status_is_final_witness:
  "\<exists>r'. runs (sample_ledger blocked_status) ''r1'' = Some r' \<and> status r' = blocked_status"
  using terminal_status_is_final
    [OF rtranclp.rtrancl_refl, of "sample_ledger blocked_status" "''r1''"
       "sample_row blocked_status"]
  by (simp add: sample_defs)

definition sample_state :: graph_state where
  "sample_state = \<lparr>gs_status = Some waiting_for_hitl, gs_access_route = None,
     gs_route_reason_code = None, gs_route_reason = None, gs_operational_research = None,
     gs_missing_fields = None\<rparr>"

lemma projection_replay_is_noop_witness:
  "let L' = fst (project id id (\<lambda>_. CNull) (sample_ledger browser_running) ''r1'' sample_state 3)
   in snd (project id id (\<lambda>_. CNull) L' ''r1'' sample_state 3) =
        Inr (\<lparr>status = waiting_for_hitl, state_revision = 3, last_projected_revision = 3,
              columns = Map.empty\<rparr>, False)"
proof -
  let ?L = "sample_ledger browser_running"
  obtain L' where L': "project id id (\<lambda>_. CNull) ?L ''r1'' sample_state 3 =
      (L', Inr (\<lparr>status = waiting_for_hitl, state_revision = 3, last_projected_revision = 3,
              columns = Map.empty\<rparr>, False))"
    by (simp add: project_def apply_projection_def get_run_def sample_defs sample_state_def
        validate_status_transition_def update_run_def changed_row_def projected_columns_def
        terminal_browser_statuses_def Let_def)
  show ?thesis
    using projection_replay_is_noop [OF L', of sample_state] L'
    by (simp add: terminal_browser_statuses_def)
qed

lemma guarded_update_serializes_witness:
  "let L' = fst (guarded_status_update id id False (sample_ledger browser_running) ''r1'' 2
                   waiting_for_hitl ''pause'' [])
   in snd (guarded_status_update id id False L' ''r1'' 2 blocked_status ''block'' []) =
        Inl (RunConflictError ''r1'' ''block'')"
proof -
  let ?L = "sample_ledger browser_running"
  obtain L' r' where L': "guarded_status_update id id False ?L ''r1'' 2 waiting_for_hitl ''pause'' []
      = (L', Inr (r', False))"
    by (simp add: guarded_status_update_def get_run_def sample_defs
        validate_status_transition_def update_run_def changed_row_def
        terminal_browser_statuses_def Let_def)
  show ?thesis
    using guarded_update_serializes [OF L', of False blocked_status "''block''" "[]"] L' by simp
qed

end
