(* ===== verification/Effect_Ledger.thy ===== *)
theory Effect_Ledger
  imports Prelude "HOL-Library.List_Lexorder" "HOL-Library.Multiset"
begin

text \<open>
  The durable ledger of external effects, \<^theory_text>\<open>ops/core/effect_ledger.py\<close>: one row per
  effect key with the status pending, completed, outcome_unknown or failed.
  \<^theory_text>\<open>reserve\<close> grants an effect at most once: a granted effect stays pending until the
  caller settles it, and only a settlement as failed frees the key again.

  The table is a map from keys to rows and every operation returns the table after
  it (the rolled back one when it raises). \<^theory_text>\<open>sha\<close> stands for the hex digest of
  SHA-256 and \<^theory_text>\<open>rd\<close> for \<^theory_text>\<open>redact_data\<close> on a receipt. A receipt is the association
  list of a dict; its JSON text is represented by the list sorted by key, which the
  text determines and is determined by.

  The locale \<^theory_text>\<open>effect_grants\<close> and its extension \<^theory_text>\<open>effect_store\<close> state what
  clients rely on; the guarantees for any
  sequence of calls are proved in it and interpreted on the model at the end.
\<close>

section \<open>Rows and receipts\<close>

type_synonym receipt = "(string \<times> string) list"

datatype effect_row_status = Pending | Completed | Outcome_Unknown | Failed

record effect_row =
  row_provider :: string
  row_action :: string
  row_status :: effect_row_status
  row_receipt :: "receipt option"

type_synonym effect_table = "string \<Rightarrow> effect_row option"

datatype effect_reservation =
    Reserved
  | Already_Completed receipt
  | Reconcile_Required

definition effect_key :: "(string \<Rightarrow> string) \<Rightarrow> string \<Rightarrow> string \<Rightarrow> string \<Rightarrow> string result" where
  "effect_key sha provider action idempotency_key =
     (if provider = [] \<or> action = [] \<or> idempotency_key = [] \<or> 500 < length idempotency_key
      then Inl (ValueError ''provider, action, and idempotency key are required'')
      else Inr (sha (provider @ char_of (0::nat) # action @ char_of (0::nat) # idempotency_key)))"

definition serialize_receipt :: "(receipt \<Rightarrow> receipt) \<Rightarrow> receipt \<Rightarrow> receipt result" where
  "serialize_receipt rd r =
     (if r = [] \<or> \<not> list_all (\<lambda>(k, v). length v \<le> 1000) r
      then Inl (ValueError ''effect receipts must contain bounded string identifiers'')
      else if rd r \<noteq> r
      then Inl (ValueError ''effect receipts cannot contain secret-like values'')
      else Inr (sort_key fst r))"

definition deserialize_receipt :: "receipt option \<Rightarrow> receipt result" where
  "deserialize_receipt v =
     (case v of None \<Rightarrow> Inl (RuntimeError ''completed external effect has no receipt'')
      | Some r \<Rightarrow> Inr r)"

section \<open>Operations\<close>

definition reserve ::
    "(string \<Rightarrow> string) \<Rightarrow> effect_table \<Rightarrow> string \<Rightarrow> string \<Rightarrow> string \<Rightarrow>
     effect_table \<times> effect_reservation result" where
  "reserve sha T provider action ik =
     (case effect_key sha provider action ik of
        Inl e \<Rightarrow> (T, Inl e)
      | Inr key \<Rightarrow>
         (case T key of
            None \<Rightarrow>
              (T(key \<mapsto> \<lparr>row_provider = provider, row_action = action,
                         row_status = Pending, row_receipt = None\<rparr>), Inr Reserved)
          | Some row \<Rightarrow>
             (case row_status row of
                Completed \<Rightarrow>
                  (T, bindR (deserialize_receipt (row_receipt row)) (\<lambda>r. Inr (Already_Completed r)))
              | Failed \<Rightarrow>
                  (T(key \<mapsto> row\<lparr>row_status := Pending, row_receipt := None\<rparr>), Inr Reserved)
              | Pending \<Rightarrow> (T, Inr Reconcile_Required)
              | Outcome_Unknown \<Rightarrow> (T, Inr Reconcile_Required))))"

definition transition ::
    "(string \<Rightarrow> string) \<Rightarrow> effect_table \<Rightarrow> string \<Rightarrow> string \<Rightarrow> string \<Rightarrow>
     effect_row_status \<Rightarrow> effect_row_status \<Rightarrow> receipt option \<Rightarrow> effect_table \<times> unit result" where
  "transition sha T provider action ik from_status to_status receipt_json =
     (case effect_key sha provider action ik of
        Inl e \<Rightarrow> (T, Inl e)
      | Inr key \<Rightarrow>
         (case T key of
            None \<Rightarrow> (T, Inl (RuntimeError ''external effect was not reserved''))
          | Some row \<Rightarrow>
              if row_status row = to_status \<and> row_receipt row = receipt_json then (T, Inr ())
              else if row_status row \<noteq> from_status
              then (T, Inl (RuntimeError
                     ''external effect is not in the expected reservation state''))
              else (T(key \<mapsto> row\<lparr>row_status := to_status, row_receipt := receipt_json\<rparr>), Inr ())))"

definition complete ::
    "(string \<Rightarrow> string) \<Rightarrow> (receipt \<Rightarrow> receipt) \<Rightarrow> effect_table \<Rightarrow> string \<Rightarrow> string \<Rightarrow> string \<Rightarrow>
     receipt \<Rightarrow> effect_table \<times> unit result" where
  "complete sha rd T provider action ik receipt =
     (case serialize_receipt rd receipt of
        Inl e \<Rightarrow> (T, Inl e)
      | Inr serialized \<Rightarrow>
          transition sha T provider action ik Pending Completed (Some serialized))"

definition reconcile_completed ::
    "(string \<Rightarrow> string) \<Rightarrow> (receipt \<Rightarrow> receipt) \<Rightarrow> effect_table \<Rightarrow> string \<Rightarrow> string \<Rightarrow> string \<Rightarrow>
     receipt \<Rightarrow> effect_table \<times> unit result" where
  "reconcile_completed sha rd T provider action ik receipt =
     (case serialize_receipt rd receipt of
        Inl e \<Rightarrow> (T, Inl e)
      | Inr serialized \<Rightarrow>
         (case effect_key sha provider action ik of
            Inl e \<Rightarrow> (T, Inl e)
          | Inr key \<Rightarrow>
             (case T key of
                None \<Rightarrow> (T, Inl (RuntimeError ''external effect was not reserved''))
              | Some row \<Rightarrow>
                  if row_status row = Completed \<and> row_receipt row = Some serialized
                  then (T, Inr ())
                  else if row_status row \<notin> {Pending, Outcome_Unknown}
                  then (T, Inl (RuntimeError ''external effect cannot be reconciled''))
                  else (T(key \<mapsto> row\<lparr>row_status := Completed, row_receipt := Some serialized\<rparr>),
                        Inr ()))))"

definition mark_outcome_unknown ::
    "(string \<Rightarrow> string) \<Rightarrow> effect_table \<Rightarrow> string \<Rightarrow> string \<Rightarrow> string \<Rightarrow> effect_table \<times> unit result" where
  "mark_outcome_unknown sha T provider action ik =
     transition sha T provider action ik Pending Outcome_Unknown None"

definition mark_failed ::
    "(string \<Rightarrow> string) \<Rightarrow> effect_table \<Rightarrow> string \<Rightarrow> string \<Rightarrow> string \<Rightarrow> effect_table \<times> unit result" where
  "mark_failed sha T provider action ik =
     transition sha T provider action ik Pending Failed None"

text \<open>The migration of the first schema: every row it kept was a completed effect. A
  row of that table has a key, provider, action and receipt.\<close>

definition migrate_v1 :: "(string \<times> string \<times> string \<times> receipt option) list \<Rightarrow> effect_table" where
  "migrate_v1 rows =
     fold (\<lambda>(key, p, a, r) T. T(key \<mapsto> \<lparr>row_provider = p, row_action = a,
                                   row_status = Completed, row_receipt = r\<rparr>)) rows Map.empty"

section \<open>The contract clients rely on\<close>

datatype settlement =
    Settle_Completed receipt
  | Settle_Reconciled receipt
  | Settle_Unknown
  | Settle_Failed

text \<open>\<^theory_text>\<open>row s k\<close> is the state of the row under key \<^theory_text>\<open>k\<close>, \<^theory_text>\<open>ident q\<close> the key of a call's
  arguments (none when the call refuses them), \<^theory_text>\<open>granted v\<close> whether an answer hands out the
  execution.\<close>

locale effect_grants =
  fixes ident :: "'q \<Rightarrow> 'k option"
    and row :: "'s \<Rightarrow> 'k \<Rightarrow> (effect_row_status \<times> receipt option) option"
    and res :: "'s \<Rightarrow> 'q \<Rightarrow> 's \<times> 'v"
    and granted :: "'v \<Rightarrow> bool"
    and settle :: "'s \<Rightarrow> 'q \<Rightarrow> settlement \<Rightarrow> 's \<times> unit result"
  assumes res_grant: "res s q = (s', v) \<Longrightarrow> granted v \<Longrightarrow>
      \<exists>k. ident q = Some k \<and> (row s k = None \<or> (\<exists>r. row s k = Some (Failed, r))) \<and>
          row s' = (row s)(k \<mapsto> (Pending, None))"
    and res_row: "res s q = (s', v) \<Longrightarrow> \<not> granted v \<Longrightarrow> row s' = row s"
    and settle_only: "settle s q c = (s', u) \<Longrightarrow>
      row s' = row s \<or>
      (\<exists>k st' r'. ident q = Some k \<and> row s' = (row s)(k \<mapsto> (st', r')) \<and>
         (st' = Failed \<longrightarrow> c = Settle_Failed))"

text \<open>A store whose answers are determined by the row and whose settlements move only an
  open row.\<close>

locale effect_store = effect_grants ident row res "\<lambda>v. v = Inr Reserved" settle
  for ident :: "'q \<Rightarrow> 'k option"
    and row :: "'s \<Rightarrow> 'k \<Rightarrow> (effect_row_status \<times> receipt option) option"
    and res :: "'s \<Rightarrow> 'q \<Rightarrow> 's \<times> effect_reservation result"
    and settle :: "'s \<Rightarrow> 'q \<Rightarrow> settlement \<Rightarrow> 's \<times> unit result" +
  assumes res_keep: "res s q = (s', v) \<Longrightarrow> v \<noteq> Inr Reserved \<Longrightarrow> s' = s"
    and res_free: "ident q = Some k \<Longrightarrow> row s k = None \<or> (\<exists>r. row s k = Some (Failed, r)) \<Longrightarrow>
      snd (res s q) = Inr Reserved"
    and res_done: "ident q = Some k \<Longrightarrow> row s k = Some (Completed, Some r) \<Longrightarrow>
      snd (res s q) = Inr (Already_Completed r)"
    and res_open: "ident q = Some k \<Longrightarrow>
      (\<exists>r. row s k = Some (Pending, r) \<or> row s k = Some (Outcome_Unknown, r)) \<Longrightarrow>
      snd (res s q) = Inr Reconcile_Required"
    and settle_row: "settle s q c = (s', u) \<Longrightarrow>
      row s' = row s \<or>
      (\<exists>k st r st' r'. ident q = Some k \<and> row s k = Some (st, r) \<and>
         row s' = (row s)(k \<mapsto> (st', r')) \<and> st \<in> {Pending, Outcome_Unknown} \<and>
         (st' = Failed \<longrightarrow> c = Settle_Failed) \<and> st' \<noteq> Pending)"

text \<open>A client: a list of calls, and the reservations it was answered.\<close>

datatype 'q ledger_call = Call_Reserve 'q | Call_Settle 'q settlement

fun run_calls ::
    "('s \<Rightarrow> 'q \<Rightarrow> 's \<times> 'v) \<Rightarrow> ('s \<Rightarrow> 'q \<Rightarrow> settlement \<Rightarrow> 's \<times> unit result) \<Rightarrow>
     's \<Rightarrow> 'q ledger_call list \<Rightarrow> 's \<times> ('q \<times> 'v) list" where
  "run_calls rsv stl s [] = (s, [])"
| "run_calls rsv stl s (Call_Reserve q # cs) =
     (let (s1, v) = rsv s q; (s2, out) = run_calls rsv stl s1 cs in (s2, (q, v) # out))"
| "run_calls rsv stl s (Call_Settle q c # cs) = run_calls rsv stl (fst (stl s q c)) cs"

text \<open>How many of the answers for a key hand out the execution.\<close>

definition granted_count :: "('q \<Rightarrow> 'k option) \<Rightarrow> ('v \<Rightarrow> bool) \<Rightarrow> 'k \<Rightarrow> ('q \<times> 'v) list \<Rightarrow> nat" where
  "granted_count ident granted k out = length (filter (\<lambda>(q, v). ident q = Some k \<and> granted v) out)"

definition grants :: "('q \<Rightarrow> 'k option) \<Rightarrow> 'k \<Rightarrow> ('q \<times> effect_reservation result) list \<Rightarrow> nat" where
  "grants ident k out = length (filter (\<lambda>(q, v). ident q = Some k \<and> v = Inr Reserved) out)"

fun failures :: "('q \<Rightarrow> 'k option) \<Rightarrow> 'k \<Rightarrow> 'q ledger_call list \<Rightarrow> nat" where
  "failures ident k [] = 0"
| "failures ident k (Call_Settle q Settle_Failed # cs) =
     (if ident q = Some k then 1 else 0) + failures ident k cs"
| "failures ident k (c # cs) = failures ident k cs"

lemma grants_count: "grants ident k out = granted_count ident (\<lambda>v. v = Inr Reserved) k out"
  by (simp add: grants_def granted_count_def)

lemma granted_count_Cons:
  "granted_count ident granted k ((q, v) # out) =
   (if ident q = Some k \<and> granted v then 1 else 0) + granted_count ident granted k out"
  by (simp add: granted_count_def)

context effect_grants
begin

definition free :: "'s \<Rightarrow> 'k \<Rightarrow> bool" where
  "free s k \<longleftrightarrow> row s k = None \<or> (\<exists>r. row s k = Some (Failed, r))"

lemma res_other: "res s q = (s', v) \<Longrightarrow> ident q \<noteq> Some k \<Longrightarrow> row s' k = row s k"
  using res_grant [of s q s' v] res_row [of s q s' v] by (cases "granted v") auto

lemma res_grant_free:
  "res s q = (s', v) \<Longrightarrow> granted v \<Longrightarrow> ident q = Some k \<Longrightarrow> free s k \<and> \<not> free s' k"
  using res_grant [of s q s' v] by (auto simp: free_def)

lemma settle_free:
  assumes "settle s q c = (s', v)" "free s' k" "\<not> free s k"
  shows "c = Settle_Failed \<and> ident q = Some k"
  using settle_only [OF assms(1)] assms(2,3) by (auto simp: free_def split: if_splits)

lemma grants_bound:
  "run_calls res settle s cs = (s', out) \<Longrightarrow>
   granted_count ident granted k out \<le> failures ident k cs + (if free s k then 1 else 0)"
proof (induction cs arbitrary: s s' out)
  case Nil
  then show ?case by (simp add: granted_count_def)
next
  case (Cons c cs)
  show ?case
  proof (cases c)
    case (Call_Reserve q)
    obtain s1 v where r: "res s q = (s1, v)" by (cases "res s q") auto
    obtain s2 o2 where o: "run_calls res settle s1 cs = (s2, o2)"
      by (cases "run_calls res settle s1 cs") auto
    have out: "out = (q, v) # o2" using Cons.prems Call_Reserve r o by simp
    show ?thesis
    proof (cases "ident q = Some k \<and> granted v")
      case True
      then show ?thesis
        using Cons.IH [OF o] res_grant_free [OF r, of k] out Call_Reserve
        by (simp add: granted_count_Cons)
    next
      case False
      then have "free s1 k = free s k"
        using res_other [OF r, of k] res_row [OF r] by (cases "ident q = Some k") (auto simp: free_def)
      then show ?thesis using Cons.IH [OF o] False out Call_Reserve by (auto simp: granted_count_Cons)
    qed
  next
    case (Call_Settle q st)
    obtain s1 v where r: "settle s q st = (s1, v)" by (cases "settle s q st") auto
    have "run_calls res settle s1 cs = (s', out)" using Cons.prems Call_Settle r by simp
    from Cons.IH [OF this] show ?thesis
      using settle_free [OF r, of k] Call_Settle
      by (cases st) (auto split: if_splits)
  qed
qed

end

context effect_store
begin

lemma completed_is_final:
  "run_calls res settle s cs = (s', out) \<Longrightarrow> row s k = Some (Completed, Some r) \<Longrightarrow>
   row s' k = Some (Completed, Some r) \<and>
   (\<forall>(q, v) \<in> set out. ident q = Some k \<longrightarrow> v = Inr (Already_Completed r))"
proof (induction cs arbitrary: s s' out)
  case (Cons c cs)
  show ?case
  proof (cases c)
    case (Call_Reserve q)
    obtain s1 v where r: "res s q = (s1, v)" by (cases "res s q") auto
    obtain s2 o2 where o: "run_calls res settle s1 cs = (s2, o2)"
      by (cases "run_calls res settle s1 cs") auto
    have "row s1 k = row s k"
      using res_other [OF r] res_keep [OF r] res_done [of q k s] Cons.prems(2) r
      by (cases "ident q = Some k") auto
    then show ?thesis
      using Cons.IH [OF o] Cons.prems Call_Reserve r o res_done [of q k s] by auto
  next
    case (Call_Settle q st)
    obtain s1 v where r: "settle s q st = (s1, v)" by (cases "settle s q st") auto
    have "row s1 k = row s k" using settle_row [OF r] Cons.prems(2) by auto
    then show ?thesis using Cons Call_Settle r by auto
  qed
qed simp

end

section \<open>The model provides the contract\<close>

type_synonym effect_ref = "string \<times> string \<times> string"

fun effect_ident :: "(string \<Rightarrow> string) \<Rightarrow> effect_ref \<Rightarrow> string option" where
  "effect_ident sha (provider, action, ik) =
     (case effect_key sha provider action ik of Inl e \<Rightarrow> None | Inr k \<Rightarrow> Some k)"

definition effect_state :: "effect_table \<Rightarrow> string \<Rightarrow> (effect_row_status \<times> receipt option) option" where
  "effect_state T k = map_option (\<lambda>r. (row_status r, row_receipt r)) (T k)"

fun reserve_ref ::
    "(string \<Rightarrow> string) \<Rightarrow> effect_table \<Rightarrow> effect_ref \<Rightarrow> effect_table \<times> effect_reservation result" where
  "reserve_ref sha T (provider, action, ik) = reserve sha T provider action ik"

fun settle_ref ::
    "(string \<Rightarrow> string) \<Rightarrow> (receipt \<Rightarrow> receipt) \<Rightarrow> effect_table \<Rightarrow> effect_ref \<Rightarrow> settlement \<Rightarrow>
     effect_table \<times> unit result" where
  "settle_ref sha rd T (p, a, ik) (Settle_Completed r) = complete sha rd T p a ik r"
| "settle_ref sha rd T (p, a, ik) (Settle_Reconciled r) = reconcile_completed sha rd T p a ik r"
| "settle_ref sha rd T (p, a, ik) Settle_Unknown = mark_outcome_unknown sha T p a ik"
| "settle_ref sha rd T (p, a, ik) Settle_Failed = mark_failed sha T p a ik"

lemma effect_state_upd: "effect_state (T(k \<mapsto> r)) = (effect_state T)(k \<mapsto> (row_status r, row_receipt r))"
  by (auto simp: effect_state_def fun_eq_iff)

lemma reserve_state:
  "reserve_ref sha T q = (T', Inr Reserved) \<Longrightarrow>
   \<exists>k. effect_ident sha q = Some k \<and>
     (effect_state T k = None \<or> (\<exists>r. effect_state T k = Some (Failed, r))) \<and>
     effect_state T' = (effect_state T)(k \<mapsto> (Pending, None))"
  by (cases q, auto simp: reserve_def effect_state_upd result_simps
      split: sum.splits option.splits effect_row_status.splits)
    (auto simp: effect_state_def)

lemma transition_state:
  "transition sha T p a ik Pending st r = (T', v) \<Longrightarrow>
   effect_state T' = effect_state T \<or>
   (\<exists>k r0. effect_ident sha (p, a, ik) = Some k \<and> effect_state T k = Some (Pending, r0) \<and>
      effect_state T' = (effect_state T)(k \<mapsto> (st, r)))"
  by (auto simp: transition_def effect_state_upd split: sum.splits option.splits if_splits)
     (auto simp: effect_state_def)

lemma reconcile_state:
  "reconcile_completed sha rd T p a ik rc = (T', v) \<Longrightarrow>
   effect_state T' = effect_state T \<or>
   (\<exists>k st r0 r. effect_ident sha (p, a, ik) = Some k \<and> effect_state T k = Some (st, r0) \<and>
      st \<in> {Pending, Outcome_Unknown} \<and>
      effect_state T' = (effect_state T)(k \<mapsto> (Completed, Some r)))"
  by (auto simp: reconcile_completed_def effect_state_upd split: sum.splits option.splits if_splits)
     (auto simp: effect_state_def)

lemma settle_state:
  "settle_ref sha rd T q c = (T', v) \<Longrightarrow>
   effect_state T' = effect_state T \<or>
   (\<exists>k st r st' r'. effect_ident sha q = Some k \<and> effect_state T k = Some (st, r) \<and>
      effect_state T' = (effect_state T)(k \<mapsto> (st', r')) \<and> st \<in> {Pending, Outcome_Unknown} \<and>
      (st' = Failed \<longrightarrow> c = Settle_Failed) \<and> st' \<noteq> Pending)"
proof (cases q)
  case (fields p a ik)
  assume s: "settle_ref sha rd T q c = (T', v)"
  show ?thesis
  proof (cases c)
    case (Settle_Completed r)
    then show ?thesis
      using s fields transition_state [of sha T p a ik Completed _ T' v]
      by (fastforce simp: complete_def split: sum.splits)
  next
    case (Settle_Reconciled r)
    then show ?thesis using s fields reconcile_state [of sha rd T p a ik r T' v] by fastforce
  next
    case Settle_Unknown
    then show ?thesis
      using s fields transition_state [of sha T p a ik Outcome_Unknown None T' v]
      by (fastforce simp: mark_outcome_unknown_def)
  next
    case Settle_Failed
    then show ?thesis
      using s fields transition_state [of sha T p a ik Failed None T' v]
      by (fastforce simp: mark_failed_def)
  qed
qed

interpretation ledger: effect_store "effect_ident sha" effect_state "reserve_ref sha"
  "settle_ref sha rd" for sha rd
proof unfold_locales
  fix T T' :: effect_table and q v
  assume "reserve_ref sha T q = (T', v)" "v \<noteq> Inr Reserved"
  then show "T' = T" and "effect_state T' = effect_state T"
    by (cases q, auto simp: reserve_def split: sum.splits option.splits effect_row_status.splits)+
next
  fix T :: effect_table and q k
  assume "effect_ident sha q = Some k"
    "effect_state T k = None \<or> (\<exists>r. effect_state T k = Some (Failed, r))"
  then show "snd (reserve_ref sha T q) = Inr Reserved"
    by (cases q) (auto simp: reserve_def effect_state_def split: sum.splits option.splits)
next
  fix T :: effect_table and q k r
  assume "effect_ident sha q = Some k" "effect_state T k = Some (Completed, Some r)"
  then show "snd (reserve_ref sha T q) = Inr (Already_Completed r)"
    by (cases q) (auto simp: reserve_def effect_state_def deserialize_receipt_def
        split: sum.splits option.splits)
next
  fix T :: effect_table and q k
  assume "effect_ident sha q = Some k"
    "\<exists>r. effect_state T k = Some (Pending, r) \<or> effect_state T k = Some (Outcome_Unknown, r)"
  then show "snd (reserve_ref sha T q) = Inr Reconcile_Required"
    by (cases q) (auto simp: reserve_def effect_state_def split: sum.splits option.splits)
qed (use reserve_state settle_state in blast)+

definition all_completed :: "effect_table \<Rightarrow> bool" where
  "all_completed T \<longleftrightarrow> (\<forall>k r. T k = Some r \<longrightarrow> row_status r = Completed)"

lemma migrated_rows_completed: "all_completed (migrate_v1 rows)"
proof -
  have "all_completed T \<Longrightarrow>
    all_completed (fold (\<lambda>(key, p, a, rc) T. T(key \<mapsto> \<lparr>row_provider = p, row_action = a,
          row_status = Completed, row_receipt = rc\<rparr>)) rows T)" for T
  proof (induction rows arbitrary: T)
    case (Cons x rows)
    obtain k p a r where x: "x = (k, p, a, r)" by (cases x) auto
    have "all_completed (T(k \<mapsto> \<lparr>row_provider = p, row_action = a,
        row_status = Completed, row_receipt = r\<rparr>))"
      using Cons.prems by (simp add: all_completed_def)
    from Cons.IH [OF this] show ?case by (simp add: x)
  qed simp
  from this [of Map.empty] show ?thesis
    unfolding migrate_v1_def by (simp add: all_completed_def)
qed

lemma nul_join_inject:
  fixes c :: char
  assumes "c \<notin> set p" "c \<notin> set a" "c \<notin> set p'" "c \<notin> set a'"
    and eq: "p @ c # a @ c # i = p' @ c # a' @ c # i'"
  shows "p = p' \<and> a = a' \<and> i = i'"
proof -
  have "p = p'" using assms(1,3) eq takeWhile_until_app by metis
  then have "a @ c # i = a' @ c # i'" using eq by simp
  then show ?thesis using \<open>p = p'\<close> assms(2,4) takeWhile_until_app
    by (metis same_append_eq list.inject)
qed

lemma transition_from_pending:
  "effect_key sha p a ik = Inr k \<Longrightarrow> T k = Some row \<Longrightarrow> row_status row = Pending \<Longrightarrow>
   st \<noteq> Pending \<Longrightarrow>
   transition sha T p a ik Pending st r =
     (T(k \<mapsto> row\<lparr>row_status := st, row_receipt := r\<rparr>), Inr ())"
  by (simp add: transition_def)

section \<open>Properties\<close>

text \<open>C28. Starting from a table without a row for the key, any sequence of calls, by any
  number of callers, grants an effect at most once more than it was settled as
  failed: without a failure an effect is executed at most once.\<close>

theorem effect_granted_once:
  "T k = None \<Longrightarrow>
   grants (effect_ident sha) k (snd (run_calls (reserve_ref sha) (settle_ref sha rd) T calls))
   \<le> 1 + failures (effect_ident sha) k calls"
proof -
  obtain T' out where
    r: "run_calls (reserve_ref sha) (settle_ref sha rd) T calls = (T', out)"
    by (cases "run_calls (reserve_ref sha) (settle_ref sha rd) T calls") auto
  have "grants (effect_ident sha) k out
      \<le> failures (effect_ident sha) k calls + (if ledger.free T k then 1 else 0)"
    unfolding grants_count by (rule ledger.grants_bound [OF r])
  then show ?thesis using r by (auto split: if_splits)
qed

lemma effect_granted_once_witness:
  "let q = (''gmail'', ''send'', ''run-1'');
       calls = [Call_Reserve q, Call_Settle q Settle_Failed, Call_Reserve q, Call_Reserve q];
       out = snd (run_calls (reserve_ref id) (settle_ref id id) Map.empty calls)
   in map snd out = [Inr Reserved, Inr Reserved, Inr Reconcile_Required] \<and>
      (\<forall>k. grants (effect_ident id) k out \<le> 2)"
proof -
  let ?q = "(''gmail'', ''send'', ''run-1'')"
  let ?calls = "[Call_Reserve ?q, Call_Settle ?q Settle_Failed, Call_Reserve ?q, Call_Reserve ?q]"
  have "grants (effect_ident id) k
      (snd (run_calls (reserve_ref id) (settle_ref id id) Map.empty ?calls)) \<le> 2" for k
    using effect_granted_once [of Map.empty k id id ?calls]
    by (cases "effect_ident id ?q = Some k") auto
  then show ?thesis
    by (simp add: reserve_def mark_failed_def transition_def effect_key_def)
qed

text \<open>A completed effect is final: whatever calls follow, its row keeps the receipt
  and every later reservation of the key is answered with that receipt.\<close>

theorem completed_effect_is_final:
  "effect_state T k = Some (Completed, Some r) \<Longrightarrow>
   run_calls (reserve_ref sha) (settle_ref sha rd) T calls = (T', out) \<Longrightarrow>
   effect_state T' k = Some (Completed, Some r) \<and>
   (\<forall>(q, v) \<in> set out. effect_ident sha q = Some k \<longrightarrow> v = Inr (Already_Completed r))"
  by (rule ledger.completed_is_final)

lemma completed_effect_is_final_witness:
  "let k = ''gmail'' @ char_of (0::nat) # ''send'' @ char_of (0::nat) # ''run-1'';
       T = [k \<mapsto> \<lparr>row_provider = ''gmail'', row_action = ''send'', row_status = Completed,
                  row_receipt = Some [(''id'', ''m1'')]\<rparr>];
       q = (''gmail'', ''send'', ''run-1'')
   in effect_state (fst (run_calls (reserve_ref id) (settle_ref id id) T
        [Call_Settle q Settle_Unknown, Call_Settle q Settle_Failed, Call_Reserve q])) k
      = Some (Completed, Some [(''id'', ''m1'')])"
  unfolding Let_def
  by (rule completed_effect_is_final [THEN conjunct1, OF _ surjective_pairing])
     (simp add: effect_state_def)

text \<open>Round trip of a granted effect: once it is granted, settling it with a
  bounded, secret-free receipt succeeds and the next reservation of the same
  arguments returns that receipt, its entries sorted by key.\<close>

theorem granted_effect_roundtrip:
  "reserve sha T p a ik = (T1, Inr Reserved) \<Longrightarrow> serialize_receipt rd r = Inr r' \<Longrightarrow>
   \<exists>T2. complete sha rd T1 p a ik r = (T2, Inr ()) \<and>
        reserve sha T2 p a ik = (T2, Inr (Already_Completed r')) \<and>
        complete sha rd T2 p a ik r = (T2, Inr ()) \<and>
        mset r' = mset r \<and> sorted (map fst r')"
proof -
  assume res: "reserve sha T p a ik = (T1, Inr Reserved)" and ser: "serialize_receipt rd r = Inr r'"
  from res obtain k row where k: "effect_key sha p a ik = Inr k" "T1 k = Some row"
    "row_status row = Pending"
    by (auto simp: reserve_def result_simps split: sum.splits option.splits
        effect_row_status.splits)
  let ?T2 = "T1(k \<mapsto> row\<lparr>row_status := Completed, row_receipt := Some r'\<rparr>)"
  have "complete sha rd T1 p a ik r = (?T2, Inr ())"
    using ser k by (simp add: complete_def transition_from_pending)
  moreover have "reserve sha ?T2 p a ik = (?T2, Inr (Already_Completed r'))"
    using k by (simp add: reserve_def deserialize_receipt_def)
  moreover have "complete sha rd ?T2 p a ik r = (?T2, Inr ())"
    using k ser by (simp add: complete_def transition_def)
  moreover have "mset r' = mset r \<and> sorted (map fst r')"
    using ser by (auto simp: serialize_receipt_def split: if_splits)
  ultimately show ?thesis by blast
qed

lemma granted_effect_roundtrip_witness:
  "\<exists>T2. reserve id T2 ''gmail'' ''send'' ''run-1'' =
     (T2, Inr (Already_Completed [(''id'', ''m1''), (''thread'', ''t1'')]))"
  using granted_effect_roundtrip
    [of id Map.empty "''gmail''" "''send''" "''run-1''" _ id
        "[(''thread'', ''t1''), (''id'', ''m1'')]" "[(''id'', ''m1''), (''thread'', ''t1'')]"]
  by (auto simp: reserve_def effect_key_def serialize_receipt_def)

end
