(* ===== verification/Url.thy ===== *)
theory Url
  imports Prelude
begin

text \<open>
  The part of Python 3.11's \<^theory_text>\<open>urllib.parse\<close> the program reads addresses with, on ASCII
  text: \<^theory_text>\<open>urlsplit\<close>, the properties \<^theory_text>\<open>hostname\<close>, \<^theory_text>\<open>port\<close>, \<^theory_text>\<open>username\<close> and
  \<^theory_text>\<open>password\<close> of its result, and \<^theory_text>\<open>urlunsplit\<close>. Host policy, effect keys and plan
  surfaces are all decided on what it returns.

  \<^theory_text>\<open>v6\<close> stands for the grammar check of a bracketed host, which the library
  delegates to \<^theory_text>\<open>ipaddress\<close>.
\<close>

section \<open>Splitting strings\<close>

text \<open>\<^theory_text>\<open>str.partition\<close> and \<^theory_text>\<open>str.rpartition\<close> on one character: the part before, whether
  the separator was found, the part after.\<close>

definition partition_chr :: "char \<Rightarrow> string \<Rightarrow> string \<times> bool \<times> string" where
  "partition_chr c s =
     (takeWhile (\<lambda>d. d \<noteq> c) s, c \<in> set s, drop 1 (dropWhile (\<lambda>d. d \<noteq> c) s))"

definition rpartition_chr :: "char \<Rightarrow> string \<Rightarrow> string \<times> bool \<times> string" where
  "rpartition_chr c s =
     (if c \<in> set s
      then (let (a, _, b) = partition_chr c (rev s) in (rev b, True, rev a))
      else ([], False, s))"

lemma partition_chr_none: "c \<notin> set s \<Longrightarrow> partition_chr c s = (s, False, [])"
  by (simp add: partition_chr_def until_simps)

lemma partition_chr_app: "c \<notin> set a \<Longrightarrow> partition_chr c (a @ c # b) = (a, True, b)"
  by (simp add: partition_chr_def until_simps)

lemma rpartition_chr_none: "c \<notin> set s \<Longrightarrow> rpartition_chr c s = ([], False, s)"
  by (simp add: rpartition_chr_def)

lemma partition_chr_first: "c \<notin> set (fst (partition_chr c s))"
  by (auto simp: partition_chr_def dest: set_takeWhileD)

section \<open>The split\<close>

record split_result =
  scheme :: string
  netloc :: string
  path :: string
  query :: string
  fragment :: string

definition is_alpha :: "char \<Rightarrow> bool" where
  "is_alpha c = (is_lower_alpha c \<or> is_upper_alpha c)"

definition scheme_char :: "char \<Rightarrow> bool" where
  "scheme_char c =
     (is_alpha c \<or> is_digit c \<or> c = CHR ''+'' \<or> c = CHR ''-'' \<or> c = CHR ''.'')"

definition c0_or_space :: "char \<Rightarrow> bool" where
  "c0_or_space c = ((of_char c :: nat) \<le> 32)"

definition unsafe_url_char :: "char \<Rightarrow> bool" where
  "unsafe_url_char c = (let n = of_char c :: nat in n = 9 \<or> n = 10 \<or> n = 13)"

definition split_scheme :: "string \<Rightarrow> string \<times> string" where
  "split_scheme url =
     (case partition_chr (CHR '':'') url of (a, found, b) \<Rightarrow>
        if found \<and> a \<noteq> [] \<and> is_alpha (hd a) \<and> list_all scheme_char a
        then (lower a, b) else ([], url))"

definition netloc_end :: "char \<Rightarrow> bool" where
  "netloc_end c = (c = CHR ''/'' \<or> c = CHR ''?'' \<or> c = CHR ''#'')"

definition split_netloc :: "string \<Rightarrow> string \<times> string" where
  "split_netloc url =
     (if starts_with ''//'' url
      then (takeWhile (\<lambda>c. \<not> netloc_end c) (drop 2 url),
            dropWhile (\<lambda>c. \<not> netloc_end c) (drop 2 url))
      else ([], url))"

definition bracket_ok :: "(string \<Rightarrow> bool) \<Rightarrow> string \<Rightarrow> bool" where
  "bracket_ok v6 nl =
     (let opens = CHR ''['' \<in> set nl; closes = CHR '']'' \<in> set nl
      in opens = closes \<and>
         (opens \<longrightarrow> v6 (fst (partition_chr (CHR '']'') (snd (snd (partition_chr (CHR ''['') nl)))))))"

definition urlsplit :: "(string \<Rightarrow> bool) \<Rightarrow> string \<Rightarrow> split_result result" where
  "urlsplit v6 url0 =
     (let url1 = filter (\<lambda>c. \<not> unsafe_url_char c) (dropWhile c0_or_space url0);
          (sch, url2) = split_scheme url1;
          (nl, url3) = split_netloc url2
      in if \<not> bracket_ok v6 nl then Inl (ValueError ''Invalid IPv6 URL'')
         else
           let (url4, _, frag) = partition_chr (CHR ''#'') url3;
               (p, _, q) = partition_chr (CHR ''?'') url4
           in Inr \<lparr>scheme = sch, netloc = nl, path = p, query = q, fragment = frag\<rparr>)"

section \<open>The properties of a split result\<close>

definition userinfo :: "split_result \<Rightarrow> string option \<times> string option" where
  "userinfo u =
     (case rpartition_chr (CHR ''@'') (netloc u) of (info, found, _) \<Rightarrow>
        if found
        then (case partition_chr (CHR '':'') info of (name, has_pw, pw) \<Rightarrow>
                (Some name, if has_pw then Some pw else None))
        else (None, None))"

definition username :: "split_result \<Rightarrow> string option" where
  "username u = fst (userinfo u)"

definition password :: "split_result \<Rightarrow> string option" where
  "password u = snd (userinfo u)"

definition hostinfo :: "split_result \<Rightarrow> string \<times> string option" where
  "hostinfo u =
     (let (_, _, hi) = rpartition_chr (CHR ''@'') (netloc u);
          (_, bracket, bracketed) = partition_chr (CHR ''['') hi;
          (h, p) =
            (if bracket then
               (let (h, _, after) = partition_chr (CHR '']'') bracketed
                in (h, snd (snd (partition_chr (CHR '':'') after))))
             else (let (h, _, p) = partition_chr (CHR '':'') hi in (h, p)))
      in (h, if p = [] then None else Some p))"

definition hostname :: "split_result \<Rightarrow> string option" where
  "hostname u =
     (let h = fst (hostinfo u)
      in if h = [] then None
         else (case partition_chr (CHR ''%'') h of (a, pct, zone) \<Rightarrow>
                 Some (lower a @ (if pct then CHR ''%'' # zone else []))))"

definition digits_value :: "string \<Rightarrow> nat" where
  "digits_value s = foldl (\<lambda>n c. 10 * n + (of_char c - 48)) 0 s"

definition port :: "split_result \<Rightarrow> nat option result" where
  "port u =
     (case snd (hostinfo u) of
        None \<Rightarrow> Inr None
      | Some p \<Rightarrow>
          if \<not> list_all is_digit p
          then Inl (ValueError ''Port could not be cast to integer value'')
          else if 65535 < digits_value p then Inl (ValueError ''Port out of range 0-65535'')
          else Inr (Some (digits_value p)))"

definition uses_netloc :: "string list" where
  "uses_netloc =
     ['''', ''ftp'', ''http'', ''gopher'', ''nntp'', ''telnet'', ''imap'', ''wais'', ''file'',
      ''mms'', ''https'', ''shttp'', ''snews'', ''prospero'', ''rtsp'', ''rtsps'', ''rtspu'',
      ''rsync'', ''svn'', ''svn+ssh'', ''sftp'', ''nfs'', ''git'', ''git+ssh'', ''ws'', ''wss'']"

definition urlunsplit :: "split_result \<Rightarrow> string" where
  "urlunsplit u =
     (let p1 = (if netloc u \<noteq> [] \<or> (scheme u \<noteq> [] \<and> scheme u \<in> set uses_netloc) \<or>
                   take 2 (path u) = ''//''
                then ''//'' @ netloc u @
                     (if path u \<noteq> [] \<and> hd (path u) \<noteq> CHR ''/'' then CHR ''/'' # path u
                      else path u)
                else path u);
          p2 = (if scheme u \<noteq> [] then scheme u @ CHR '':'' # p1 else p1);
          p3 = (if query u \<noteq> [] then p2 @ CHR ''?'' # query u else p2)
      in if fragment u \<noteq> [] then p3 @ CHR ''#'' # fragment u else p3)"

text \<open>Decimal text of a number, as \<^theory_text>\<open>str(n)\<close> gives it.\<close>

fun nat_digits :: "nat \<Rightarrow> string" where
  "nat_digits n =
     (if n < 10 then [char_of (48 + n)] else nat_digits (n div 10) @ [char_of (48 + n mod 10)])"

declare nat_digits.simps [simp del]

lemma nat_digits_nonempty: "nat_digits n \<noteq> []"
  by (subst nat_digits.simps) simp

lemma digits_value_snoc: "digits_value (s @ [c]) = 10 * digits_value s + (of_char c - 48)"
  by (simp add: digits_value_def)

lemma digit_char: "d < 10 \<Longrightarrow> is_digit (char_of (48 + d :: nat)) \<and> of_char (char_of (48 + d :: nat)) = 48 + d"
  by (simp add: is_digit_def Let_def)

text \<open>Printing and reading back a number.\<close>

lemma digits_value_nat_digits: "digits_value (nat_digits n) = n \<and> list_all is_digit (nat_digits n)"
proof (induction n rule: nat_digits.induct)
  case (1 n)
  show ?case
  proof (cases "n < 10")
    case True
    then show ?thesis
      using digit_char [of n] by (subst (1 2) nat_digits.simps) (simp add: digits_value_def)
  next
    case False
    then show ?thesis
      using 1 digit_char [of "n mod 10"]
      by (subst (1 2) nat_digits.simps) (simp add: digits_value_snoc)
  qed
qed

lemma nat_digits_inject: "nat_digits m = nat_digits n \<longleftrightarrow> m = n"
  by (metis digits_value_nat_digits)

section \<open>What the split guarantees\<close>

lemma hostname_netloc_empty: "netloc u = [] \<Longrightarrow> hostname u = None"
  by (simp add: hostname_def hostinfo_def rpartition_chr_def partition_chr_def)

lemma username_none_iff: "username u = None \<longleftrightarrow> CHR ''@'' \<notin> set (netloc u)"
  by (simp add: username_def userinfo_def rpartition_chr_def split: prod.splits)

lemma simple_netloc:
  assumes "CHR ''@'' \<notin> set h" "CHR ''['' \<notin> set h" "CHR '':'' \<notin> set h" "CHR ''%'' \<notin> set h"
    and "h \<noteq> []" "netloc u = h"
  shows "hostname u = Some (lower h)" "username u = None" "password u = None" "port u = Inr None"
  using assms
  by (simp_all add: hostname_def hostinfo_def username_def password_def userinfo_def port_def
      rpartition_chr_none partition_chr_none)

lemma takeWhile_all_app: "list_all P h \<Longrightarrow> takeWhile P (h @ p) = h @ takeWhile P p"
  by (induction h) auto

lemma dropWhile_all_app: "list_all P h \<Longrightarrow> dropWhile P (h @ p) = dropWhile P p"
  by (induction h) auto
text \<open>Splitting a plain https address of a host without delimiters.\<close>

lemma urlsplit_https:
  assumes "list_all (\<lambda>c. \<not> netloc_end c) h" "CHR ''['' \<notin> set h" "CHR '']'' \<notin> set h"
    and "\<not> list_ex unsafe_url_char h" "\<not> list_ex unsafe_url_char p"
    and "CHR ''#'' \<notin> set p" "CHR ''?'' \<notin> set p" "p = [] \<or> hd p = CHR ''/''"
  shows "urlsplit v6 (''https://'' @ h @ p) =
    Inr \<lparr>scheme = ''https'', netloc = h, path = p, query = [], fragment = []\<rparr>"
proof -
  let ?u = "''https://'' @ h @ p"
  have a: "dropWhile c0_or_space ?u = ?u" by (simp add: c0_or_space_def)
  have b: "filter (\<lambda>c. \<not> unsafe_url_char c) ?u = ?u"
    using assms(4,5) by (simp add: filter_id_conv list_ex_iff unsafe_url_char_def Let_def)
  have c: "split_scheme ?u = (''https'', ''//'' @ h @ p)"
    by (simp add: split_scheme_def partition_chr_def is_alpha_def scheme_char_def
        is_lower_alpha_def is_upper_alpha_def lower_def lower_char_def Let_def)
  have n: "takeWhile (\<lambda>c. \<not> netloc_end c) p = []" "dropWhile (\<lambda>c. \<not> netloc_end c) p = p"
    using assms(8) by (cases p; simp add: netloc_end_def)+
  have d: "split_netloc (''//'' @ h @ p) = (h, p)"
    using n assms(1) by (simp add: split_netloc_def starts_with_def takeWhile_all_app dropWhile_all_app)
  have e: "bracket_ok v6 h"
    using assms(2,3) by (simp add: bracket_ok_def)
  show ?thesis
    unfolding urlsplit_def a b c Let_def split d
    using assms(6,7) e by (simp add: partition_chr_none)
qed
end
