(* ===== verification/Effects.thy ===== *)
theory Effects
  imports Effect_Ledger Url
begin

text \<open>
  \<^theory_text>\<open>ops/onboarding/effects.py\<close>: the operation keys of the three provider-visible
  effects of a run, and the plan (execute, skip, reconcile) the ledger's answer to a
  key authorizes. \<^theory_text>\<open>sha\<close> is the hex digest of SHA-256, \<^theory_text>\<open>v6\<close> the bracketed-host
  check of \<^theory_text>\<open>urlsplit\<close>.

  The lemmas show that a key is derived from durable inputs only and separates
  effects, that every key is within the ledger's bound, and that the plan read off a
  stored row is the plan the ledger's reservation gives.
\<close>

section \<open>Vocabulary\<close>

datatype onboarding_effect = signup_submit | create_dev_app | generate_credential

datatype effect_disposition = Execute | Skip | Reconcile | Pause_Outcome_Unknown

fun effect_action :: "onboarding_effect \<Rightarrow> string" where
  "effect_action signup_submit = ''signup_submit''"
| "effect_action create_dev_app = ''create_dev_app''"
| "effect_action generate_credential = ''generate_credential''"

fun effect_reason_code :: "onboarding_effect \<Rightarrow> string" where
  "effect_reason_code signup_submit = ''signup_submitted''"
| "effect_reason_code create_dev_app = ''developer_app_created''"
| "effect_reason_code generate_credential = ''credential_generated''"

definition reconcile_reason_code :: string where
  "reconcile_reason_code = ''outcome_unknown''"

definition effect_provider :: string where
  "effect_provider = ''provider_onboarding''"

definition max_key_part_length :: nat where
  "max_key_part_length = 200"

definition scope_digest_length :: nat where
  "scope_digest_length = 16"

definition default_port :: "string \<Rightarrow> nat option" where
  "default_port = [''http'' \<mapsto> 80, ''https'' \<mapsto> 443]"

record effect_plan =
  plan_key :: string
  plan_provider :: string
  plan_action :: onboarding_effect
  plan_disposition :: effect_disposition
  plan_receipt :: "receipt option"
  plan_reason :: string

text \<open>The fields of a provider profile the keys read.\<close>

record key_profile =
  kp_digest :: string
  kp_signup_url :: "string option"
  kp_flow_kind :: string
  kp_flow_entry_url :: "string option"

section \<open>Operation keys\<close>

definition nul :: char where
  "nul = char_of (0::nat)"

definition key_part_ok :: "string \<Rightarrow> bool" where
  "key_part_ok p = (p \<noteq> [] \<and> nul \<notin> set p \<and> length p \<le> max_key_part_length)"

definition scope_digest :: "(string \<Rightarrow> string) \<Rightarrow> string list \<Rightarrow> string result" where
  "scope_digest sha parts =
     (if \<not> list_all key_part_ok parts
      then Inl (ValueError ''operation key parts must be bounded, non-empty, NUL-free strings'')
      else Inr (take scope_digest_length (sha (join_chr nul parts))))"

definition key_identifier :: "string \<Rightarrow> string result" where
  "key_identifier s =
     identifier_check max_key_part_length
       ''operation key part must be a bounded, non-empty identifier'' s"

definition canonical_path :: "string \<Rightarrow> string" where
  "canonical_path p0 =
     (let p = (if p0 = [] then ''/'' else p0)
      in if p \<noteq> ''/'' then (let r = rstrip_chr (CHR ''/'') p in if r = [] then ''/'' else r)
         else p)"

definition canonical :: "(string \<Rightarrow> bool) \<Rightarrow> string \<Rightarrow> string result" where
  "canonical v6 url =
     bindR (urlsplit v6 (strip url)) (\<lambda>parsed.
       let sch = lower (scheme parsed);
           host = rstrip_chr (CHR ''.'') (case hostname parsed of None \<Rightarrow> [] | Some h \<Rightarrow> h)
       in if sch = [] \<or> host = []
          then Inl (ValueError ''an operation key url must be absolute and carry a host'')
          else
            let host' = (if CHR '':'' \<in> set host then CHR ''['' # host @ '']'' else host)
            in bindR (port parsed) (\<lambda>prt.
                 let nl = (if prt = None \<or> prt = default_port sch then host'
                           else host' @ CHR '':'' # nat_digits (the prt))
                 in Inr (urlunsplit \<lparr>scheme = sch, netloc = nl,
                           path = canonical_path (path parsed), query = [], fragment = []\<rparr>)))"

definition composed_key :: "string \<Rightarrow> string \<Rightarrow> string \<Rightarrow> string" where
  "composed_key run tag scope = run @ CHR '':'' # tag @ CHR '':'' # scope @ '':v1''"

definition signup_submit_key ::
    "(string \<Rightarrow> string) \<Rightarrow> (string \<Rightarrow> bool) \<Rightarrow> string \<Rightarrow> key_profile \<Rightarrow> string \<Rightarrow> string result" where
  "signup_submit_key sha v6 run_id profile account_ref =
     (case kp_signup_url profile of
        None \<Rightarrow> Inl (ValueError ''a signup submission requires a profile signup url'')
      | Some url \<Rightarrow>
          bindR (canonical v6 url) (\<lambda>c.
          bindR (key_identifier account_ref) (\<lambda>a.
          bindR (scope_digest sha [kp_digest profile, c, a]) (\<lambda>scope.
          bindR (key_identifier run_id) (\<lambda>run.
            Inr (composed_key run ''signup-submit'' scope))))))"

definition create_dev_app_key ::
    "(string \<Rightarrow> string) \<Rightarrow> (string \<Rightarrow> bool) \<Rightarrow> string \<Rightarrow> key_profile \<Rightarrow> string \<Rightarrow> string result" where
  "create_dev_app_key sha v6 run_id profile requested_name =
     (case kp_flow_entry_url profile of
        None \<Rightarrow> Inl (ValueError ''a developer application requires a flow entry url'')
      | Some url \<Rightarrow>
          bindR (canonical v6 url) (\<lambda>c.
          bindR (key_identifier requested_name) (\<lambda>n.
          bindR (scope_digest sha [kp_digest profile, kp_flow_kind profile, c, n]) (\<lambda>scope.
          bindR (key_identifier run_id) (\<lambda>run.
            Inr (composed_key run ''create-dev-app'' scope))))))"

definition generate_credential_key ::
    "(string \<Rightarrow> string) \<Rightarrow> string \<Rightarrow> string \<Rightarrow> string \<Rightarrow> int \<Rightarrow> string result" where
  "generate_credential_key sha run_id developer_app_id kind generation =
     (if generation < 0
      then Inl (ValueError ''a credential generation counter cannot be negative'')
      else
        bindR (key_identifier developer_app_id) (\<lambda>app.
        bindR (scope_digest sha [app, kind, nat_digits (nat generation)]) (\<lambda>scope.
        bindR (key_identifier run_id) (\<lambda>run.
          Inr (composed_key run ''generate-credential'' scope)))))"

section \<open>Plans\<close>

definition make_plan ::
    "string \<Rightarrow> onboarding_effect \<Rightarrow> effect_disposition \<Rightarrow> receipt option \<Rightarrow> effect_plan" where
  "make_plan key action disposition receipt =
     \<lparr>plan_key = key, plan_provider = effect_provider, plan_action = action,
      plan_disposition = disposition, plan_receipt = receipt,
      plan_reason = (if disposition = Reconcile then reconcile_reason_code
                     else effect_reason_code action)\<rparr>"

definition plan_for_row_status ::
    "string \<Rightarrow> onboarding_effect \<Rightarrow> effect_row_status option \<Rightarrow> receipt option \<Rightarrow>
     effect_plan result" where
  "plan_for_row_status key action rs receipt =
     (let has = (receipt \<noteq> None \<and> receipt \<noteq> Some [])
      in if rs = Some Completed then
           (if \<not> has then Inl (ValueError ''a completed effect must carry its receipt'')
            else Inr (make_plan key action Skip receipt))
         else if has then Inl (ValueError ''only a completed effect carries a receipt'')
         else if rs \<in> {Some Pending, Some Outcome_Unknown}
         then Inr (make_plan key action Reconcile None)
         else Inr (make_plan key action Execute None))"

definition plan_for_reservation ::
    "string \<Rightarrow> onboarding_effect \<Rightarrow> effect_reservation \<Rightarrow> effect_plan result" where
  "plan_for_reservation key action reservation =
     (case reservation of
        Already_Completed r \<Rightarrow>
          if r = [] then Inl (ValueError ''a completed effect must carry its receipt'')
          else Inr (make_plan key action Skip (Some r))
      | Reconcile_Required \<Rightarrow> Inr (make_plan key action Reconcile None)
      | Reserved \<Rightarrow> Inr (make_plan key action Execute None))"

definition plan_effect ::
    "(string \<Rightarrow> string) \<Rightarrow> effect_table \<Rightarrow> string \<Rightarrow> onboarding_effect \<Rightarrow>
     effect_table \<times> effect_plan result" where
  "plan_effect sha T key action =
     (let (T', v) = reserve sha T effect_provider (effect_action action) key
      in (T', bindR v (plan_for_reservation key action)))"

definition complete_effect ::
    "(string \<Rightarrow> string) \<Rightarrow> (receipt \<Rightarrow> receipt) \<Rightarrow> effect_table \<Rightarrow> effect_plan \<Rightarrow> receipt \<Rightarrow>
     effect_table \<times> unit result" where
  "complete_effect sha rd T plan receipt =
     complete sha rd T effect_provider (effect_action (plan_action plan)) (plan_key plan) receipt"

definition reconcile_completed_effect ::
    "(string \<Rightarrow> string) \<Rightarrow> (receipt \<Rightarrow> receipt) \<Rightarrow> effect_table \<Rightarrow> effect_plan \<Rightarrow> receipt \<Rightarrow>
     effect_table \<times> unit result" where
  "reconcile_completed_effect sha rd T plan receipt =
     reconcile_completed sha rd T effect_provider (effect_action (plan_action plan))
       (plan_key plan) receipt"

definition mark_effect_outcome_unknown ::
    "(string \<Rightarrow> string) \<Rightarrow> effect_table \<Rightarrow> effect_plan \<Rightarrow> effect_table \<times> unit result" where
  "mark_effect_outcome_unknown sha T plan =
     mark_outcome_unknown sha T effect_provider (effect_action (plan_action plan)) (plan_key plan)"

definition mark_effect_failed ::
    "(string \<Rightarrow> string) \<Rightarrow> effect_table \<Rightarrow> effect_plan \<Rightarrow> effect_table \<times> unit result" where
  "mark_effect_failed sha T plan =
     mark_failed sha T effect_provider (effect_action (plan_action plan)) (plan_key plan)"

section \<open>Lemmas on keys\<close>

lemma nul_char: "nul = CHR 0x00"
  by (simp add: nul_def char_of_def)

lemma key_identifier_Inr [guard_simps]:
  "key_identifier s = Inr t \<longleftrightarrow> t = strip s \<and> t \<noteq> [] \<and> length t \<le> 200"
  by (simp add: key_identifier_def identifier_check_Inr max_key_part_length_def)

lemma scope_digest_length:
  "scope_digest sha parts = Inr d \<Longrightarrow> length d \<le> 16"
  by (auto simp: scope_digest_def scope_digest_length_def split: if_splits)

lemma scope_digest_length16:
  "\<forall>x. 16 \<le> length (sha x) \<Longrightarrow> scope_digest sha parts = Inr d \<Longrightarrow> length d = 16"
  by (auto simp: scope_digest_def scope_digest_length_def min_absorb2 split: if_splits)

lemma composed_key_inject:
  assumes "composed_key run tag scope = composed_key run' tag' scope'"
    and "length scope = length scope'" "CHR '':'' \<notin> set tag" "CHR '':'' \<notin> set tag'"
  shows "run = run' \<and> tag = tag' \<and> scope = scope'"
proof -
  have a: "run @ CHR '':'' # tag @ CHR '':'' # scope = run' @ CHR '':'' # tag' @ CHR '':'' # scope'"
    using assms(1) by (simp add: composed_key_def)
  then have "(run @ CHR '':'' # tag @ '':'') @ scope = (run' @ CHR '':'' # tag' @ '':'') @ scope'"
    by simp
  then have "run @ CHR '':'' # tag @ '':'' = run' @ CHR '':'' # tag' @ '':'' \<and> scope = scope'"
    using append_eq_append_conv [of "run @ CHR '':'' # tag @ '':''"
        "run' @ CHR '':'' # tag' @ '':''" scope scope'] assms(2) by blast
  then have s: "scope = scope'"
    and "(run @ CHR '':'' # tag) @ '':'' = (run' @ CHR '':'' # tag') @ '':''" by simp_all
  then have r: "run @ CHR '':'' # tag = run' @ CHR '':'' # tag'" by blast
  have "rev tag @ CHR '':'' # rev run = rev tag' @ CHR '':'' # rev run'"
    using arg_cong [OF r, of rev] by simp
  then have "rev tag = rev tag'"
    using assms(3,4) takeWhile_until_app [of "CHR '':''" "rev tag" "rev run"]
      takeWhile_until_app [of "CHR '':''" "rev tag'" "rev run'"] by simp
  then show ?thesis using r s by simp
qed

lemma join_nul_inject:
  "list_all key_part_ok xs \<Longrightarrow> list_all key_part_ok ys \<Longrightarrow> xs \<noteq> [] \<Longrightarrow> ys \<noteq> [] \<Longrightarrow>
   join_chr nul xs = join_chr nul ys \<longleftrightarrow> xs = ys"
  using split_join_chr [of xs nul] split_join_chr [of ys nul]
  by (metis (no_types, lifting) key_part_ok_def list_all_iff)

lemma scope_digest_inject:
  assumes inj: "inj_on (\<lambda>x. take 16 (sha x)) {join_chr nul xs, join_chr nul ys}"
    and "scope_digest sha xs = Inr d" "scope_digest sha ys = Inr d" "xs \<noteq> []" "ys \<noteq> []"
  shows "xs = ys"
  using assms(2-5) inj
  by (auto simp: scope_digest_def scope_digest_length_def join_nul_inject split: if_splits)

lemma signup_submit_key_Inr:
  "signup_submit_key sha v6 run p a = Inr k \<longleftrightarrow>
   (\<exists>url c scope. kp_signup_url p = Some url \<and> canonical v6 url = Inr c \<and>
      key_identifier a = Inr (strip a) \<and> key_identifier run = Inr (strip run) \<and>
      scope_digest sha [kp_digest p, c, strip a] = Inr scope \<and>
      k = composed_key (strip run) ''signup-submit'' scope)"
  by (auto simp: signup_submit_key_def result_simps guard_simps split: option.splits)

lemma create_dev_app_key_Inr:
  "create_dev_app_key sha v6 run p n = Inr k \<longleftrightarrow>
   (\<exists>url c scope. kp_flow_entry_url p = Some url \<and> canonical v6 url = Inr c \<and>
      key_identifier n = Inr (strip n) \<and> key_identifier run = Inr (strip run) \<and>
      scope_digest sha [kp_digest p, kp_flow_kind p, c, strip n] = Inr scope \<and>
      k = composed_key (strip run) ''create-dev-app'' scope)"
  by (auto simp: create_dev_app_key_def result_simps guard_simps split: option.splits)

lemma generate_credential_key_Inr:
  "generate_credential_key sha run app kind g = Inr k \<longleftrightarrow>
   (\<exists>scope. 0 \<le> g \<and> key_identifier app = Inr (strip app) \<and>
      key_identifier run = Inr (strip run) \<and>
      scope_digest sha [strip app, kind, nat_digits (nat g)] = Inr scope \<and>
      k = composed_key (strip run) ''generate-credential'' scope)"
  by (auto simp: generate_credential_key_def result_simps guard_simps)

lemmas effect_key_forms =
  signup_submit_key_Inr create_dev_app_key_Inr generate_credential_key_Inr

text \<open>A composed key, and the relation between a run, an effect and a key the three key
  functions give.\<close>

inductive key_of_effect ::
    "(string \<Rightarrow> string) \<Rightarrow> (string \<Rightarrow> bool) \<Rightarrow> string \<Rightarrow> onboarding_effect \<Rightarrow> string \<Rightarrow> bool"
  for sha v6 where
  "signup_submit_key sha v6 run p a = Inr k \<Longrightarrow> key_of_effect sha v6 run signup_submit k"
| "create_dev_app_key sha v6 run p n = Inr k \<Longrightarrow> key_of_effect sha v6 run create_dev_app k"
| "generate_credential_key sha run app kind g = Inr k \<Longrightarrow>
     key_of_effect sha v6 run generate_credential k"

fun effect_tag :: "onboarding_effect \<Rightarrow> string" where
  "effect_tag signup_submit = ''signup-submit''"
| "effect_tag create_dev_app = ''create-dev-app''"
| "effect_tag generate_credential = ''generate-credential''"

lemma key_of_effect_form:
  assumes "key_of_effect sha v6 run eff k"
  obtains parts scope where "scope_digest sha parts = Inr scope"
    "k = composed_key (strip run) (effect_tag eff) scope" "key_identifier run = Inr (strip run)"
  using assms by (cases rule: key_of_effect.cases) (auto simp: effect_key_forms)

lemma effect_tag_facts:
  "CHR '':'' \<notin> set (effect_tag e)" "effect_tag e = effect_tag e' \<longleftrightarrow> e = e'"
  "length (effect_tag e) \<le> 19"
  by (cases e; cases e'; simp)+

section \<open>Properties\<close>

text \<open>The plan the recovery reads off a stored row is the plan the ledger's
  reservation of the same key gives, for every row status and for an absent row, and
  only an absent or failed row is planned for execution.\<close>

theorem plan_agrees_with_row:
  "effect_key sha effect_provider (effect_action action) key = Inr k \<Longrightarrow>
   (case effect_state T k of
      None \<Rightarrow> plan_for_row_status key action None None
    | Some (st, r) \<Rightarrow> plan_for_row_status key action (Some st) (if st = Completed then r else None))
     = (case effect_state T k of
          Some (Completed, None) \<Rightarrow> Inl (ValueError ''a completed effect must carry its receipt'')
        | _ \<Rightarrow> snd (plan_effect sha T key action)) \<and>
   (\<forall>p. snd (plan_effect sha T key action) = Inr p \<longrightarrow> plan_disposition p = Execute \<longrightarrow>
        effect_state T k = None \<or> (\<exists>r. effect_state T k = Some (Failed, r)))"
  by (auto simp: plan_for_row_status_def plan_effect_def plan_for_reservation_def reserve_def
      effect_state_def deserialize_receipt_def make_plan_def result_simps
      split: option.splits effect_row_status.splits list.splits if_splits)

lemma plan_agrees_with_row_witness:
  "plan_for_row_status ''run-1:signup-submit:abc:v1'' signup_submit (Some Outcome_Unknown) None =
   snd (plan_effect id
     [effect_provider @ nul # ''signup_submit'' @ nul # ''run-1:signup-submit:abc:v1'' \<mapsto>
        \<lparr>row_provider = effect_provider, row_action = ''signup_submit'',
         row_status = Outcome_Unknown, row_receipt = None\<rparr>]
     ''run-1:signup-submit:abc:v1'' signup_submit)"
  using plan_agrees_with_row
    [of id signup_submit "''run-1:signup-submit:abc:v1''"
        "effect_provider @ nul # ''signup_submit'' @ nul # ''run-1:signup-submit:abc:v1''"
        "[effect_provider @ nul # ''signup_submit'' @ nul # ''run-1:signup-submit:abc:v1'' \<mapsto>
        \<lparr>row_provider = effect_provider, row_action = ''signup_submit'',
         row_status = Outcome_Unknown, row_receipt = None\<rparr>]"]
  by (simp add: effect_key_def effect_state_def effect_provider_def nul_def)

text \<open>Keys of different effects, and keys of different runs, never coincide: with a
  digest of at least sixteen characters, two effects whose keys are equal are the
  same effect of the same run. Every key is accepted by the ledger.\<close>

theorem effect_keys_separate:
  "\<forall>x. 16 \<le> length (sha x) \<Longrightarrow> key_of_effect sha v6 run e k \<Longrightarrow>
   (key_of_effect sha v6 run' e' k \<longrightarrow> strip run = strip run' \<and> e = e') \<and>
   returned (effect_key sha' effect_provider (effect_action e) k)"
proof (intro conjI impI)
  assume len: "\<forall>x. 16 \<le> length (sha x)" and k: "key_of_effect sha v6 run e k"
  obtain parts scope where s: "scope_digest sha parts = Inr scope"
    and kf: "k = composed_key (strip run) (effect_tag e) scope"
    and run: "key_identifier run = Inr (strip run)"
    using k by (rule key_of_effect_form)
  have len16: "length scope = 16" by (rule scope_digest_length16 [OF len s])
  {
    assume k': "key_of_effect sha v6 run' e' k"
    obtain parts' scope' where s': "scope_digest sha parts' = Inr scope'"
      and kf': "k = composed_key (strip run') (effect_tag e') scope'"
      using k' by (rule key_of_effect_form)
    have "composed_key (strip run) (effect_tag e) scope =
          composed_key (strip run') (effect_tag e') scope'" using kf kf' by simp
    from composed_key_inject [OF this] show "strip run = strip run'" "e = e'"
      using len16 scope_digest_length16 [OF len s'] by (auto simp: effect_tag_facts)
  }
  have "length (strip run) \<le> 200" using run by (simp add: guard_simps)
  then have "length k \<le> 500" "k \<noteq> []"
    using kf len16 effect_tag_facts(3) [of e] by (auto simp: composed_key_def)
  then show "returned (effect_key sha' effect_provider (effect_action e) k)"
    by (cases e) (auto simp: effect_key_def effect_provider_def)
qed

lemma effect_keys_separate_witness:
  "key_of_effect (\<lambda>x. ''0123456789abcdef'') (\<lambda>_. True) ''run-1'' generate_credential
     ''run-1:generate-credential:0123456789abcdef:v1'' \<and>
   \<not> key_of_effect (\<lambda>x. ''0123456789abcdef'') (\<lambda>_. True) ''run-1'' signup_submit
     ''run-1:generate-credential:0123456789abcdef:v1''"
proof -
  have s: "strip ''run-1'' = ''run-1''" "strip ''app-9'' = ''app-9''"
    by (simp_all add: strip_def is_space_def Let_def)
  have "nat_digits 0 = ''0''" "nul \<notin> set (nat_digits 0)"
    by code_simp+
  then have k: "key_of_effect (\<lambda>x. ''0123456789abcdef'') (\<lambda>_. True) ''run-1'' generate_credential
     ''run-1:generate-credential:0123456789abcdef:v1''"
    by (intro key_of_effect.intros(3) [where app = "''app-9''" and kind = "''api_key''" and g = 0])
       (simp add: generate_credential_key_Inr s guard_simps scope_digest_def key_part_ok_def
         max_key_part_length_def scope_digest_length_def composed_key_def nul_char)
  show ?thesis
    using k effect_keys_separate [OF _ k, of "''run-1''" signup_submit id] by auto
qed

text \<open>The signup key is a function of durable inputs and determines them: two keys
  are equal exactly when the runs, the profile digests, the canonical signup
  addresses and the account references are, provided the digest separates the two
  part lists.\<close>

theorem signup_key_determines_inputs:
  "\<forall>x. 16 \<le> length (sha x) \<Longrightarrow>
   signup_submit_key sha v6 run p a = Inr k \<Longrightarrow> signup_submit_key sha v6 run' p' a' = Inr k' \<Longrightarrow>
   kp_signup_url p = Some u \<Longrightarrow> canonical v6 u = Inr c \<Longrightarrow>
   kp_signup_url p' = Some u' \<Longrightarrow> canonical v6 u' = Inr c' \<Longrightarrow>
   inj_on (\<lambda>x. take 16 (sha x))
     {join_chr nul [kp_digest p, c, strip a], join_chr nul [kp_digest p', c', strip a']} \<Longrightarrow>
   k = k' \<longleftrightarrow> strip run = strip run' \<and> kp_digest p = kp_digest p' \<and> c = c' \<and> strip a = strip a'"
proof
  assume len: "\<forall>x. 16 \<le> length (sha x)"
    and k: "signup_submit_key sha v6 run p a = Inr k"
    and k': "signup_submit_key sha v6 run' p' a' = Inr k'"
    and u: "kp_signup_url p = Some u" "canonical v6 u = Inr c"
    and u': "kp_signup_url p' = Some u'" "canonical v6 u' = Inr c'"
    and inj: "inj_on (\<lambda>x. take 16 (sha x))
     {join_chr nul [kp_digest p, c, strip a], join_chr nul [kp_digest p', c', strip a']}"
  obtain s where s: "scope_digest sha [kp_digest p, c, strip a] = Inr s"
    and kf: "k = composed_key (strip run) ''signup-submit'' s"
    using k u by (auto simp: signup_submit_key_Inr)
  obtain s' where s': "scope_digest sha [kp_digest p', c', strip a'] = Inr s'"
    and kf': "k' = composed_key (strip run') ''signup-submit'' s'"
    using k' u' by (auto simp: signup_submit_key_Inr)
  have l: "length s = length s'"
    using scope_digest_length16 [OF len s] scope_digest_length16 [OF len s'] by simp
  {
    assume "k = k'"
    then have "strip run = strip run' \<and> s = s'"
      using composed_key_inject [of "strip run" "''signup-submit''" s "strip run'"
          "''signup-submit''" s'] l kf kf' by simp
    then show "strip run = strip run' \<and> kp_digest p = kp_digest p' \<and> c = c' \<and> strip a = strip a'"
      using scope_digest_inject [OF inj s] s' by simp
  }
  assume "strip run = strip run' \<and> kp_digest p = kp_digest p' \<and> c = c' \<and> strip a = strip a'"
  then show "k = k'" using s s' kf kf' by simp
qed

definition sample_profile :: key_profile where
  "sample_profile = \<lparr>kp_digest = ''d1'', kp_signup_url = Some ''https://x.io/join/'',
     kp_flow_kind = ''oauth'', kp_flow_entry_url = None\<rparr>"

lemma signup_key_determines_inputs_witness:
  "signup_submit_key (\<lambda>x. x @ ''................'') (\<lambda>_. True) ''r1'' sample_profile ''m@b.io'' \<noteq>
   signup_submit_key (\<lambda>x. x @ ''................'') (\<lambda>_. True) ''r2'' sample_profile ''m@b.io''"
proof -
  let ?sha = "\<lambda>x. x @ ''................''" and ?v6 = "\<lambda>_::string. True"
  have c: "canonical ?v6 ''https://x.io/join/'' = Inr ''https://x.io/join''" by code_simp
  have s: "strip ''m@b.io'' = ''m@b.io''" "strip ''r1'' = ''r1''" "strip ''r2'' = ''r2''"
    by code_simp+
  have k: "\<exists>k. signup_submit_key ?sha ?v6 r sample_profile ''m@b.io'' = Inr k"
    if "strip r = r" "r \<noteq> []" "length r \<le> 200" for r
    using that c s by (auto simp: signup_submit_key_def sample_profile_def key_identifier_def
        identifier_check_def max_key_part_length_def scope_digest_def key_part_ok_def nul_char)
  obtain k1 where k1: "signup_submit_key ?sha ?v6 ''r1'' sample_profile ''m@b.io'' = Inr k1"
    using k [of "''r1''"] s by auto
  obtain k2 where k2: "signup_submit_key ?sha ?v6 ''r2'' sample_profile ''m@b.io'' = Inr k2"
    using k [of "''r2''"] s by auto
  have "k1 \<noteq> k2"
    using signup_key_determines_inputs [OF _ k1 k2, of "''https://x.io/join/''" "''https://x.io/join''"
        "''https://x.io/join/''" "''https://x.io/join''"] c s
    by (simp add: sample_profile_def)
  then show ?thesis using k1 k2 by simp
qed

end
