(* ===== verification/Run_Lease.thy ===== *)
theory Run_Lease
  imports Prelude "HOL-Library.AList"
begin

text \<open>
  Ownership of a run by one worker: \<^theory_text>\<open>ops/onboarding/lease.py\<close> (the lease, its
  timings) and \<^theory_text>\<open>ops/onboarding/lease_store.py\<close> (the SQLite lease table and the run
  queue). Instants are microseconds as \<^typ>\<open>int\<close>: the code's deadlines are
  fixed-width UTC text, whose order as text is the order of the instants. The clock
  is an argument of every operation. A table is an association list in insertion
  order; each operation is one immediate transaction, hence one function.
  \<^theory_text>\<open>known\<close> tells which runs exist (the foreign key of both tables).

  The locale \<^theory_text>\<open>lease_store\<close> states the contract a driver relies on, the fencing
  guarantees are proved in it for any sequence of calls by any workers.
\<close>

section \<open>Leases (ops/onboarding/lease.py)\<close>

definition max_identifier_length :: nat where
  "max_identifier_length = 200"

record lease_timings =
  ttl_seconds :: int
  renew_interval_seconds :: int

definition make_timings :: "int \<Rightarrow> int \<Rightarrow> lease_timings result" where
  "make_timings ttl renew_interval =
     (if ttl < 1 \<or> renew_interval < 1
      then Inl (ValueError ''lease timings must be at least one second'')
      else if ttl < renew_interval * 3
      then Inl (ValueError ''lease renew interval must be at most one third of the lease ttl'')
      else Inr \<lparr>ttl_seconds = ttl, renew_interval_seconds = renew_interval\<rparr>)"

definition default_timings :: lease_timings where
  "default_timings = \<lparr>ttl_seconds = 60, renew_interval_seconds = 20\<rparr>"

record lease =
  lease_run :: string
  lease_worker :: string
  fencing_token :: nat
  lease_deadline :: int

definition deadline_after :: "int \<Rightarrow> int \<Rightarrow> int" where
  "deadline_after ttl now = now + ttl * 1000000"

definition is_expired :: "lease \<Rightarrow> int \<Rightarrow> bool" where
  "is_expired l now = (lease_deadline l \<le> now)"

section \<open>The lease table (SQLiteLeaseStore)\<close>

record lease_row =
  lr_holder :: "string option"
  lr_token :: nat
  lr_deadline :: "int option"
  lr_claimed_at :: int
  lr_released_at :: "int option"

type_synonym lease_table = "(string \<times> lease_row) list"

definition ttl_check :: "int \<Rightarrow> int result" where
  "ttl_check ttl =
     (if ttl < 1 then Inl (ValueError ''lease ttl must be at least one second'') else Inr ttl)"

definition limit_check :: "int \<Rightarrow> int result" where
  "limit_check n = (if n < 1 then Inl (ValueError ''limit must be at least one'') else Inr n)"

text \<open>The SQL condition under which a row may be taken over: no holder, or a deadline in
  the past. A comparison with NULL is not true.\<close>

definition claimable_row :: "int \<Rightarrow> lease_row \<Rightarrow> bool" where
  "claimable_row now r =
     (lr_holder r = None \<or> (case lr_deadline r of None \<Rightarrow> False | Some d \<Rightarrow> d < now))"

text \<open>\<^theory_text>\<open>_claim\<close> with its upsert.\<close>

definition claim_row ::
    "(string \<Rightarrow> bool) \<Rightarrow> lease_table \<Rightarrow> int \<Rightarrow> string \<Rightarrow> string \<Rightarrow> int \<Rightarrow>
     lease_table \<times> lease option result" where
  "claim_row known T moment run worker ttl =
     (let d = deadline_after ttl moment in
      case map_of T run of
        None \<Rightarrow>
          if \<not> known run then (T, Inl (IntegrityError ''FOREIGN KEY constraint failed''))
          else (AList.update run \<lparr>lr_holder = Some worker, lr_token = 1, lr_deadline = Some d,
                   lr_claimed_at = moment, lr_released_at = None\<rparr> T,
                Inr (Some \<lparr>lease_run = run, lease_worker = worker, fencing_token = 1,
                          lease_deadline = d\<rparr>))
      | Some r \<Rightarrow>
          if claimable_row moment r then
            (AList.update run \<lparr>lr_holder = Some worker, lr_token = lr_token r + 1,
                lr_deadline = Some d, lr_claimed_at = moment, lr_released_at = None\<rparr> T,
             Inr (Some \<lparr>lease_run = run, lease_worker = worker,
                       fencing_token = lr_token r + 1, lease_deadline = d\<rparr>))
          else (T, Inr None))"

definition claim ::
    "(string \<Rightarrow> bool) \<Rightarrow> lease_table \<Rightarrow> int \<Rightarrow> string \<Rightarrow> string \<Rightarrow> int \<Rightarrow>
     lease_table \<times> lease option result" where
  "claim known T now run_id worker_id ttl =
     (case bindR (store_identifier max_identifier_length ''run id is invalid'' run_id) (\<lambda>run.
           bindR (store_identifier max_identifier_length ''worker id is invalid'' worker_id) (\<lambda>w.
           bindR (ttl_check ttl) (\<lambda>t. Inr (run, w, t)))) of
        Inl e \<Rightarrow> (T, Inl e)
      | Inr (run, w, t) \<Rightarrow> claim_row known T now run w t)"

definition owns_row :: "lease \<Rightarrow> lease_row \<Rightarrow> bool" where
  "owns_row l r = (lr_holder r = Some (lease_worker l) \<and> lr_token r = fencing_token l)"

definition renew ::
    "lease_table \<Rightarrow> int \<Rightarrow> lease \<Rightarrow> int \<Rightarrow> lease_table \<times> lease option result" where
  "renew T now l ttl =
     (case ttl_check ttl of
        Inl e \<Rightarrow> (T, Inl e)
      | Inr t \<Rightarrow>
         (let d = deadline_after t now in
          case map_of T (lease_run l) of
            None \<Rightarrow> (T, Inr None)
          | Some r \<Rightarrow>
              if owns_row l r
              then (AList.update (lease_run l) (r\<lparr>lr_deadline := Some d\<rparr>) T,
                    Inr (Some (l\<lparr>lease_deadline := d\<rparr>)))
              else (T, Inr None)))"

definition release :: "lease_table \<Rightarrow> int \<Rightarrow> lease \<Rightarrow> lease_table \<times> bool" where
  "release T now l =
     (case map_of T (lease_run l) of
        None \<Rightarrow> (T, False)
      | Some r \<Rightarrow>
          if owns_row l r
          then (AList.update (lease_run l)
                  (r\<lparr>lr_holder := None, lr_deadline := None, lr_released_at := Some now\<rparr>) T, True)
          else (T, False))"

definition holds :: "lease_table \<Rightarrow> int \<Rightarrow> string \<Rightarrow> bool result" where
  "holds T now run_id =
     bindR (store_identifier max_identifier_length ''run id is invalid'' run_id) (\<lambda>run.
       Inr (case map_of T run of
              None \<Rightarrow> False
            | Some r \<Rightarrow> lr_holder r \<noteq> None \<and>
                (case lr_deadline r of None \<Rightarrow> False | Some d \<Rightarrow> now \<le> d)))"

definition row_expired :: "int \<Rightarrow> lease_row \<Rightarrow> bool" where
  "row_expired now r =
     (lr_holder r \<noteq> None \<and> (case lr_deadline r of None \<Rightarrow> False | Some d \<Rightarrow> d < now))"

definition expired :: "lease_table \<Rightarrow> int \<Rightarrow> int \<Rightarrow> string list result" where
  "expired T now n =
     bindR (limit_check n) (\<lambda>m.
       Inr (take (nat m) (map fst
         (sort_key (\<lambda>(run, r). case lr_deadline r of None \<Rightarrow> 0 | Some d \<Rightarrow> d)
           (filter (\<lambda>(run, r). row_expired now r) T)))))"

section \<open>The run queue (SQLiteRunQueue)\<close>

record queue_row =
  not_before :: int
  enqueued_at :: int

type_synonym run_queue = "(string \<times> queue_row) list"

definition run_id_check :: "string \<Rightarrow> string result" where
  "run_id_check run_id = store_identifier max_identifier_length ''run id is invalid'' run_id"

definition upsert_ready ::
    "(string \<Rightarrow> bool) \<Rightarrow> (int \<Rightarrow> int \<Rightarrow> int) \<Rightarrow> run_queue \<Rightarrow> int \<Rightarrow> string \<Rightarrow> int \<Rightarrow>
     run_queue \<times> unit result" where
  "upsert_ready known merge Q now run ready =
     (case map_of Q run of
        None \<Rightarrow>
          if \<not> known run then (Q, Inl (IntegrityError ''FOREIGN KEY constraint failed''))
          else (AList.update run \<lparr>not_before = ready, enqueued_at = now\<rparr> Q, Inr ())
      | Some q \<Rightarrow> (AList.update run (q\<lparr>not_before := merge (not_before q) ready\<rparr>) Q, Inr ()))"

definition enqueue ::
    "(string \<Rightarrow> bool) \<Rightarrow> run_queue \<Rightarrow> int \<Rightarrow> string \<Rightarrow> int option \<Rightarrow> run_queue \<times> unit result" where
  "enqueue known Q now run_id nb =
     (case run_id_check run_id of
        Inl e \<Rightarrow> (Q, Inl e)
      | Inr run \<Rightarrow>
          upsert_ready known min Q now run (case nb of None \<Rightarrow> now | Some t \<Rightarrow> t))"

definition defer_run ::
    "(string \<Rightarrow> bool) \<Rightarrow> run_queue \<Rightarrow> int \<Rightarrow> string \<Rightarrow> int \<Rightarrow> run_queue \<times> unit result" where
  "defer_run known Q now run_id nb =
     (case run_id_check run_id of
        Inl e \<Rightarrow> (Q, Inl e)
      | Inr run \<Rightarrow> upsert_ready known (\<lambda>old new. new) Q now run nb)"

definition remove_run :: "run_queue \<Rightarrow> string \<Rightarrow> run_queue \<times> bool result" where
  "remove_run Q run_id =
     (case run_id_check run_id of
        Inl e \<Rightarrow> (Q, Inl e)
      | Inr run \<Rightarrow> (AList.delete run Q, Inr (map_of Q run \<noteq> None)))"

definition dequeue_candidates :: "run_queue \<Rightarrow> int \<Rightarrow> int \<Rightarrow> string list result" where
  "dequeue_candidates Q now n =
     bindR (limit_check n) (\<lambda>m.
       Inr (take (nat m) (map fst
         (sort_key (\<lambda>(run, q). not_before q) (filter (\<lambda>(run, q). not_before q \<le> now) Q)))))"

section \<open>Claiming the next queued run\<close>

definition claim_candidate_limit :: nat where
  "claim_candidate_limit = 20"

definition queue_claimable :: "lease_table \<Rightarrow> int \<Rightarrow> string \<times> queue_row \<Rightarrow> bool" where
  "queue_claimable T now e =
     (not_before (snd e) \<le> now \<and>
      (case map_of T (fst e) of None \<Rightarrow> True | Some r \<Rightarrow> claimable_row now r))"

definition claimable_since :: "lease_table \<Rightarrow> string \<times> queue_row \<Rightarrow> int" where
  "claimable_since T e =
     (case map_of T (fst e) of
        None \<Rightarrow> not_before (snd e)
      | Some r \<Rightarrow> (case lr_deadline r of None \<Rightarrow> not_before (snd e) | Some d \<Rightarrow> d))"

definition claim_candidates :: "lease_table \<Rightarrow> run_queue \<Rightarrow> int \<Rightarrow> string list" where
  "claim_candidates T Q now =
     take claim_candidate_limit
       (map fst (sort_key (claimable_since T) (filter (queue_claimable T now) Q)))"

text \<open>The loop over the candidates; \<^theory_text>\<open>moment\<close> is the clock at its claims.\<close>

fun claim_first ::
    "(string \<Rightarrow> bool) \<Rightarrow> lease_table \<Rightarrow> int \<Rightarrow> string \<Rightarrow> int \<Rightarrow> string list \<Rightarrow>
     lease_table \<times> lease option result" where
  "claim_first known T moment worker ttl [] = (T, Inr None)"
| "claim_first known T moment worker ttl (run # runs) =
     (case claim_row known T moment run worker ttl of
        (T', Inl e) \<Rightarrow> (T, Inl e)
      | (T', Inr (Some l)) \<Rightarrow> (T', Inr (Some l))
      | (T', Inr None) \<Rightarrow> claim_first known T' moment worker ttl runs)"

definition claim_next ::
    "(string \<Rightarrow> bool) \<Rightarrow> lease_table \<Rightarrow> run_queue \<Rightarrow> int \<Rightarrow> int \<Rightarrow> string \<Rightarrow> int \<Rightarrow>
     lease_table \<times> lease option result" where
  "claim_next known T Q now moment worker_id ttl =
     (case bindR (store_identifier max_identifier_length ''worker id is invalid'' worker_id) (\<lambda>w.
           bindR (ttl_check ttl) (\<lambda>t. Inr (w, t))) of
        Inl e \<Rightarrow> (T, Inl e)
      | Inr (w, t) \<Rightarrow> claim_first known T moment w t (claim_candidates T Q now))"

section \<open>The contract\<close>

text \<open>\<^theory_text>\<open>owner s run\<close> is the worker and deadline of the current lease of a run,
  \<^theory_text>\<open>token s run\<close> the last fencing token given out for it (0 before the first).\<close>

locale lease_store =
  fixes owner :: "'s \<Rightarrow> string \<Rightarrow> (string \<times> int) option"
    and token :: "'s \<Rightarrow> string \<Rightarrow> nat"
    and clm :: "'s \<Rightarrow> int \<Rightarrow> string \<Rightarrow> string \<Rightarrow> int \<Rightarrow> 's \<times> lease option result"
    and rnw :: "'s \<Rightarrow> int \<Rightarrow> lease \<Rightarrow> int \<Rightarrow> 's \<times> lease option result"
    and rls :: "'s \<Rightarrow> int \<Rightarrow> lease \<Rightarrow> 's \<times> bool"
    and wf :: "'s \<Rightarrow> bool"
  assumes clm_wf: "wf s \<Longrightarrow> wf (fst (clm s now r w ttl))"
    and rnw_wf: "wf s \<Longrightarrow> wf (fst (rnw s now l ttl))"
    and rls_wf: "wf s \<Longrightarrow> wf (fst (rls s now l))"
    and clm_grant: "wf s \<Longrightarrow> clm s now r w ttl = (s', Inr (Some l)) \<Longrightarrow>
      (\<forall>o' d. owner s r = Some (o', d) \<longrightarrow> d < now) \<and>
      lease_run l = r \<and> lease_worker l = w \<and> fencing_token l = token s r + 1 \<and>
      lease_deadline l = deadline_after ttl now \<and>
      owner s' = (owner s)(r := Some (w, lease_deadline l)) \<and>
      token s' = (token s)(r := fencing_token l)"
    and clm_refuse: "clm s now r w ttl = (s', v) \<Longrightarrow> \<forall>l. v \<noteq> Inr (Some l) \<Longrightarrow> s' = s"
    and rnw_grant: "wf s \<Longrightarrow> rnw s now l ttl = (s', Inr (Some l')) \<Longrightarrow>
      l' = l\<lparr>lease_deadline := deadline_after ttl now\<rparr> \<and>
      (\<exists>d. owner s (lease_run l) = Some (lease_worker l, d)) \<and>
      token s (lease_run l) = fencing_token l \<and>
      owner s' = (owner s)(lease_run l := Some (lease_worker l, lease_deadline l')) \<and>
      token s' = token s"
    and rnw_refuse: "rnw s now l ttl = (s', v) \<Longrightarrow> \<forall>l'. v \<noteq> Inr (Some l') \<Longrightarrow> s' = s"
    and rls_done: "wf s \<Longrightarrow> rls s now l = (s', True) \<Longrightarrow>
      (\<exists>d. owner s (lease_run l) = Some (lease_worker l, d)) \<and>
      token s (lease_run l) = fencing_token l \<and>
      owner s' = (owner s)(lease_run l := None) \<and> token s' = token s"
    and rls_noop: "rls s now l = (s', False) \<Longrightarrow> s' = s"

text \<open>Calls of any workers, and the leases the claims granted.\<close>

datatype lease_call =
    Do_Claim int string string int
  | Do_Renew int lease int
  | Do_Release int lease

fun run_lease_calls ::
    "('s \<Rightarrow> int \<Rightarrow> string \<Rightarrow> string \<Rightarrow> int \<Rightarrow> 's \<times> lease option result) \<Rightarrow>
     ('s \<Rightarrow> int \<Rightarrow> lease \<Rightarrow> int \<Rightarrow> 's \<times> lease option result) \<Rightarrow> ('s \<Rightarrow> int \<Rightarrow> lease \<Rightarrow> 's \<times> bool) \<Rightarrow>
     's \<Rightarrow> lease_call list \<Rightarrow> 's \<times> lease list" where
  "run_lease_calls c n l s [] = (s, [])"
| "run_lease_calls c n l s (Do_Claim now r w ttl # cs) =
     (let (s1, v) = c s now r w ttl; (s2, ls) = run_lease_calls c n l s1 cs
      in (s2, (case v of Inr (Some x) \<Rightarrow> x # ls | _ \<Rightarrow> ls)))"
| "run_lease_calls c n l s (Do_Renew now x ttl # cs) = run_lease_calls c n l (fst (n s now x ttl)) cs"
| "run_lease_calls c n l s (Do_Release now x # cs) = run_lease_calls c n l (fst (l s now x)) cs"

definition granted_tokens :: "string \<Rightarrow> lease list \<Rightarrow> nat list" where
  "granted_tokens r ls = map fencing_token (filter (\<lambda>x. lease_run x = r) ls)"

context lease_store
begin

lemma clm_token:
  assumes "wf s" "clm s now r w ttl = (s', v)"
  shows "token s' k = (if k = r \<and> (\<exists>l. v = Inr (Some l)) then token s k + 1 else token s k)"
proof (cases "\<exists>l. v = Inr (Some l)")
  case True
  then obtain l where "v = Inr (Some l)" by blast
  then show ?thesis using clm_grant [OF assms(1)] assms(2) by fastforce
next
  case False
  then show ?thesis using clm_refuse [OF assms(2)] by auto
qed

lemma rnw_token: "wf s \<Longrightarrow> rnw s now l ttl = (s', v) \<Longrightarrow> token s' = token s"
  using rnw_grant rnw_refuse by blast

lemma rls_token: "wf s \<Longrightarrow> rls s now l = (s', b) \<Longrightarrow> token s' = token s"
  using rls_done [of s now l s'] rls_noop [of s now l s'] by (cases b) auto

lemma run_token_mono:
  "wf s \<Longrightarrow> run_lease_calls clm rnw rls s cs = (s', ls) \<Longrightarrow>
   wf s' \<and> token s r \<le> token s' r"
proof (induction cs arbitrary: s s' ls)
  case (Cons c cs)
  show ?case
  proof (cases c)
    case (Do_Claim now k w ttl)
    obtain s1 v where v: "clm s now k w ttl = (s1, v)" by (cases "clm s now k w ttl") auto
    obtain s2 l2 where l2: "run_lease_calls clm rnw rls s1 cs = (s2, l2)"
      by (cases "run_lease_calls clm rnw rls s1 cs") auto
    have "wf s1" using clm_wf [OF Cons.prems(1), of now k w ttl] v by simp
    then show ?thesis
      using Cons.IH [OF _ l2] clm_token [OF Cons.prems(1) v, of r] Cons.prems(2) Do_Claim v l2
      by (auto split: if_splits)
  next
    case (Do_Renew now x ttl)
    obtain s1 v where v: "rnw s now x ttl = (s1, v)" by (cases "rnw s now x ttl") auto
    have "wf s1" using rnw_wf [OF Cons.prems(1), of now x ttl] v by simp
    then show ?thesis
      using Cons.IH [of s1 s' ls] rnw_token [OF Cons.prems(1) v] Cons.prems(2) Do_Renew v by auto
  next
    case (Do_Release now x)
    obtain s1 v where v: "rls s now x = (s1, v)" by (cases "rls s now x") auto
    have "wf s1" using rls_wf [OF Cons.prems(1), of now x] v by simp
    then show ?thesis
      using Cons.IH [of s1 s' ls] rls_token [OF Cons.prems(1) v] Cons.prems(2) Do_Release v by auto
  qed
qed simp

text \<open>A lease whose token is no longer the run's last one is dead: whatever happens
  afterwards it is never renewed and its release does nothing.\<close>

lemma stale_forever:
  assumes "wf s" "fencing_token l < token s (lease_run l)"
    and "run_lease_calls clm rnw rls s cs = (s', ls)"
  shows "\<exists>v. rnw s' now l ttl = (s', v) \<and> (\<forall>l'. v \<noteq> Inr (Some l'))" "rls s' now' l = (s', False)"
proof -
  have wf': "wf s'" and t: "fencing_token l < token s' (lease_run l)"
    using run_token_mono [OF assms(1,3), of "lease_run l"] assms(2) by simp_all
  obtain s1 v where v: "rnw s' now l ttl = (s1, v)" by (cases "rnw s' now l ttl") auto
  then have "\<forall>l'. v \<noteq> Inr (Some l')" using rnw_grant [OF wf', of now l ttl s1] t by auto
  then show "\<exists>v. rnw s' now l ttl = (s', v) \<and> (\<forall>l'. v \<noteq> Inr (Some l'))"
    using rnw_refuse [OF v] v by auto
  obtain s2 b where b: "rls s' now' l = (s2, b)" by (cases "rls s' now' l") auto
  then show "rls s' now' l = (s', False)"
    using rls_done [OF wf', of now' l s2] rls_noop [of s' now' l s2] t by (cases b) auto
qed

text \<open>The tokens granted for a run are strictly increasing, above every earlier one and
  not above the last.\<close>

lemma tokens_increase:
  "wf s \<Longrightarrow> run_lease_calls clm rnw rls s cs = (s', ls) \<Longrightarrow>
   sorted_wrt (<) (granted_tokens r ls) \<and>
   (\<forall>t \<in> set (granted_tokens r ls). token s r < t \<and> t \<le> token s' r)"
proof (induction cs arbitrary: s s' ls)
  case Nil
  then show ?case by (simp add: granted_tokens_def)
next
  case (Cons c cs)
  show ?case
  proof (cases c)
    case (Do_Claim now k w ttl)
    obtain s1 v where v: "clm s now k w ttl = (s1, v)" by (cases "clm s now k w ttl") auto
    obtain s2 l2 where l2: "run_lease_calls clm rnw rls s1 cs = (s2, l2)"
      by (cases "run_lease_calls clm rnw rls s1 cs") auto
    have wf1: "wf s1" using clm_wf [OF Cons.prems(1), of now k w ttl] v by simp
    note IH = Cons.IH [OF wf1 l2]
    show ?thesis
    proof (cases "\<exists>l. v = Inr (Some l)")
      case True
      then obtain l where l: "v = Inr (Some l)" by blast
      then have ls: "ls = l # l2" using Cons.prems(2) Do_Claim v l2 by simp
      have "lease_run l = k" "fencing_token l = token s k + 1" "token s1 = (token s)(k := token s k + 1)"
        using clm_grant [OF Cons.prems(1)] v l by auto
      then show ?thesis
        using IH ls l2 Do_Claim v Cons.prems(2) run_token_mono [OF wf1 l2, of r]
        by (auto simp: granted_tokens_def)
    next
      case False
      then have "ls = l2" "s2 = s'"
        using Cons.prems(2) Do_Claim v l2 by (auto split: sum.splits option.splits)
      then show ?thesis using IH clm_refuse [OF v] False by auto
    qed
  next
    case (Do_Renew now x ttl)
    obtain s1 v where v: "rnw s now x ttl = (s1, v)" by (cases "rnw s now x ttl") auto
    have "wf s1" using rnw_wf [OF Cons.prems(1), of now x ttl] v by simp
    then show ?thesis
      using Cons.IH [of s1 s' ls] rnw_token [OF Cons.prems(1) v] Cons.prems(2) Do_Renew v by auto
  next
    case (Do_Release now x)
    obtain s1 v where v: "rls s now x = (s1, v)" by (cases "rls s now x") auto
    have "wf s1" using rls_wf [OF Cons.prems(1), of now x] v by simp
    then show ?thesis
      using Cons.IH [of s1 s' ls] rls_token [OF Cons.prems(1) v] Cons.prems(2) Do_Release v by auto
  qed
qed

text \<open>While a lease is live nobody else gets the run.\<close>

lemma live_lease_excludes:
  assumes "wf s" "owner s r = Some (w, d)" "now \<le> d" "clm s now r w' ttl = (s', v)"
  shows "s' = s \<and> (\<forall>l. v \<noteq> Inr (Some l))"
proof -
  have "\<forall>l. v \<noteq> Inr (Some l)"
    using clm_grant [OF assms(1), of now r w' ttl s'] assms(2,3,4) by fastforce
  then show ?thesis using clm_refuse [OF assms(4)] by blast
qed

end

section \<open>The model provides the contract\<close>

definition lease_owner :: "lease_table \<Rightarrow> string \<Rightarrow> (string \<times> int) option" where
  "lease_owner T run =
     (case map_of T run of None \<Rightarrow> None
      | Some r \<Rightarrow> (case (lr_holder r, lr_deadline r) of
            (Some w, Some d) \<Rightarrow> Some (w, d) | _ \<Rightarrow> None))"

definition lease_token :: "lease_table \<Rightarrow> string \<Rightarrow> nat" where
  "lease_token T run = (case map_of T run of None \<Rightarrow> 0 | Some r \<Rightarrow> lr_token r)"

text \<open>A held row has a deadline, and no token is zero.\<close>

definition lease_row_ok :: "lease_row \<Rightarrow> bool" where
  "lease_row_ok r = ((lr_holder r = None \<longleftrightarrow> lr_deadline r = None) \<and> 1 \<le> lr_token r)"

definition lease_table_ok :: "lease_table \<Rightarrow> bool" where
  "lease_table_ok T = (distinct (map fst T) \<and> (\<forall>(run, r) \<in> set T. lease_row_ok r))"

lemma lease_table_ok_lookup: "lease_table_ok T \<Longrightarrow> map_of T k = Some r \<Longrightarrow> lease_row_ok r"
  by (auto simp: lease_table_ok_def dest: map_of_SomeD)

lemma lease_table_ok_update: "lease_table_ok T \<Longrightarrow> lease_row_ok r \<Longrightarrow> lease_table_ok (AList.update k r T)"
  by (induction T) (auto simp: lease_table_ok_def AList.dom_update)

lemma claim_row_wf:
  "lease_table_ok T \<Longrightarrow> claim_row known T now r w ttl = (T', v) \<Longrightarrow> lease_table_ok T'"
  by (auto simp: claim_row_def Let_def lease_row_ok_def split: option.splits if_splits
      intro!: lease_table_ok_update)

lemma claim_Inr:
  "claim known T now r w ttl = (T', Inr v) \<Longrightarrow>
   claim_row known T now r w ttl = (T', Inr v) \<and> identifier_ok 200 r \<and> identifier_ok 200 w \<and> 1 \<le> ttl"
  by (auto simp: claim_def result_simps guard_simps ttl_check_def max_identifier_length_def
      split: sum.splits if_splits)

lemma claim_wf: "lease_table_ok T \<Longrightarrow> lease_table_ok (fst (claim known T now r w ttl))"
  by (auto simp: claim_def split: sum.splits) (metis claim_row_wf prod.exhaust_sel)

lemma renew_wf: "lease_table_ok T \<Longrightarrow> lease_table_ok (fst (renew T now l ttl))"
  by (auto simp: renew_def Let_def owns_row_def lease_row_ok_def split: sum.splits option.splits
      intro!: lease_table_ok_update dest: lease_table_ok_lookup)

lemma release_wf: "lease_table_ok T \<Longrightarrow> lease_table_ok (fst (release T now l))"
  by (auto simp: release_def owns_row_def lease_row_ok_def split: option.splits
      intro!: lease_table_ok_update dest: lease_table_ok_lookup)

lemma lease_view_update:
  "lease_owner (AList.update k r T) =
     (lease_owner T)(k := (case (lr_holder r, lr_deadline r) of
            (Some w, Some d) \<Rightarrow> Some (w, d) | _ \<Rightarrow> None))"
  "lease_token (AList.update k r T) = (lease_token T)(k := lr_token r)"
  by (auto simp: lease_owner_def lease_token_def AList.update_conv fun_eq_iff)

lemma claim_row_grant:
  assumes "lease_table_ok T" "claim_row known T now r w ttl = (T', Inr (Some l))"
  shows "(\<forall>o' d. lease_owner T r = Some (o', d) \<longrightarrow> d < now) \<and>
      lease_run l = r \<and> lease_worker l = w \<and> fencing_token l = lease_token T r + 1 \<and>
      lease_deadline l = deadline_after ttl now \<and>
      lease_owner T' = (lease_owner T)(r := Some (w, lease_deadline l)) \<and>
      lease_token T' = (lease_token T)(r := fencing_token l)"
proof (cases "map_of T r")
  case None
  then have "T' = AList.update r \<lparr>lr_holder = Some w, lr_token = 1,
        lr_deadline = Some (deadline_after ttl now), lr_claimed_at = now,
        lr_released_at = None\<rparr> T"
    and "l = \<lparr>lease_run = r, lease_worker = w, fencing_token = 1,
             lease_deadline = deadline_after ttl now\<rparr>"
    using assms(2) by (auto simp: claim_row_def Let_def split: if_splits)
  moreover have "lease_owner T r = None" "lease_token T r = 0"
    using None by (simp_all add: lease_owner_def lease_token_def)
  ultimately show ?thesis by (simp add: lease_view_update)
next
  case (Some row)
  then have c: "claimable_row now row"
    and "T' = AList.update r \<lparr>lr_holder = Some w, lr_token = lr_token row + 1,
        lr_deadline = Some (deadline_after ttl now), lr_claimed_at = now,
        lr_released_at = None\<rparr> T"
    and "l = \<lparr>lease_run = r, lease_worker = w, fencing_token = lr_token row + 1,
             lease_deadline = deadline_after ttl now\<rparr>"
    using assms(2) by (auto simp: claim_row_def Let_def split: if_splits)
  moreover have "lease_token T r = lr_token row" using Some by (simp add: lease_token_def)
  moreover have "\<forall>o' d. lease_owner T r = Some (o', d) \<longrightarrow> d < now"
    using Some c by (auto simp: lease_owner_def claimable_row_def split: option.splits)
  ultimately show ?thesis by (simp add: lease_view_update)
qed

lemma claim_row_refuse:
  "claim_row known T now r w ttl = (T', v) \<Longrightarrow> \<forall>l. v \<noteq> Inr (Some l) \<Longrightarrow> T' = T"
  by (auto simp: claim_row_def Let_def split: option.splits if_splits)

lemma owns_row_owner:
  "lease_table_ok T \<Longrightarrow> map_of T (lease_run l) = Some r \<Longrightarrow> owns_row l r \<Longrightarrow>
   \<exists>d. lease_owner T (lease_run l) = Some (lease_worker l, d)"
  using lease_table_ok_lookup [of T "lease_run l" r]
  by (cases "lr_deadline r") (auto simp: lease_owner_def owns_row_def lease_row_ok_def)

interpretation leases: lease_store lease_owner lease_token "claim known" renew release
  lease_table_ok for known
proof unfold_locales
  fix T T' :: lease_table and now r w ttl l
  assume "lease_table_ok T" "claim known T now r w ttl = (T', Inr (Some l))"
  then show "(\<forall>o' d. lease_owner T r = Some (o', d) \<longrightarrow> d < now) \<and>
      lease_run l = r \<and> lease_worker l = w \<and> fencing_token l = lease_token T r + 1 \<and>
      lease_deadline l = deadline_after ttl now \<and>
      lease_owner T' = (lease_owner T)(r := Some (w, lease_deadline l)) \<and>
      lease_token T' = (lease_token T)(r := fencing_token l)"
    by (intro claim_row_grant) (auto dest: claim_Inr)
next
  fix T T' :: lease_table and now r w ttl v
  assume c: "claim known T now r w ttl = (T', v)" and n: "\<forall>l. v \<noteq> Inr (Some l)"
  show "T' = T"
  proof (cases v)
    case (Inl e)
    then show ?thesis
      using c claim_row_refuse [of known T now r w ttl T' v] n
      by (auto simp: claim_def result_simps guard_simps ttl_check_def split: sum.splits if_splits
          dest: claim_row_refuse)
  next
    case (Inr x)
    then show ?thesis using c claim_Inr [of known T now r w ttl T' x] claim_row_refuse n by blast
  qed
next
  fix T T' :: lease_table and now l ttl l'
  assume "lease_table_ok T" "renew T now l ttl = (T', Inr (Some l'))"
  then show "l' = l\<lparr>lease_deadline := deadline_after ttl now\<rparr> \<and>
      (\<exists>d. lease_owner T (lease_run l) = Some (lease_worker l, d)) \<and>
      lease_token T (lease_run l) = fencing_token l \<and>
      lease_owner T' = (lease_owner T)(lease_run l := Some (lease_worker l, lease_deadline l')) \<and>
      lease_token T' = lease_token T"
    using owns_row_owner [of T l]
    by (auto simp: renew_def Let_def lease_view_update owns_row_def lease_token_def ttl_check_def
        AList.update_conv split: sum.splits option.splits if_splits)
next
  fix T T' :: lease_table and now l
  assume "lease_table_ok T" "release T now l = (T', True)"
  then show "(\<exists>d. lease_owner T (lease_run l) = Some (lease_worker l, d)) \<and>
      lease_token T (lease_run l) = fencing_token l \<and>
      lease_owner T' = (lease_owner T)(lease_run l := None) \<and> lease_token T' = lease_token T"
    using owns_row_owner [of T l]
    by (auto simp: release_def lease_view_update owns_row_def lease_token_def
        AList.update_conv split: option.splits if_splits)
next
  fix T T' :: lease_table and now l ttl v
  assume "renew T now l ttl = (T', v)" "\<forall>l'. v \<noteq> Inr (Some l')"
  then show "T' = T"
    by (auto simp: renew_def Let_def split: sum.splits option.splits if_splits)
next
  fix T T' :: lease_table and now l
  assume "release T now l = (T', False)"
  then show "T' = T" by (auto simp: release_def split: option.splits if_splits)
qed (simp_all add: claim_wf renew_wf release_wf)

section \<open>Claiming from the queue\<close>

lemma claim_row_claimable:
  assumes "known r" "case map_of T r of None \<Rightarrow> True | Some row \<Rightarrow> claimable_row now row"
  shows "\<exists>T' l. claim_row known T now r w ttl = (T', Inr (Some l)) \<and> lease_run l = r"
  using assms by (auto simp: claim_row_def Let_def split: option.splits)

lemma claimable_row_mono: "claimable_row now r \<Longrightarrow> now \<le> now' \<Longrightarrow> claimable_row now' r"
  by (auto simp: claimable_row_def split: option.splits)

lemma sort_key_head:
  "sort_key f xs = y # ys \<Longrightarrow> y \<in> set xs \<and> (\<forall>x \<in> set xs. f y \<le> f x)"
proof -
  assume s: "sort_key f xs = y # ys"
  have "sorted (map f (y # ys))" using sorted_sort_key [of f xs] s by simp
  moreover have "set xs = set (y # ys)" using set_sort [of f xs] s by simp
  ultimately show ?thesis by auto
qed

lemma claim_candidates_cases:
  fixes T :: lease_table and Q :: run_queue and now :: int
  obtains "claim_candidates T Q now = []" "\<forall>e \<in> set Q. \<not> queue_claimable T now e"
  | e runs where "claim_candidates T Q now = fst e # runs" "e \<in> set Q" "queue_claimable T now e"
      "\<forall>e' \<in> set Q. queue_claimable T now e' \<longrightarrow> claimable_since T e \<le> claimable_since T e'"
proof (cases "sort_key (claimable_since T) (filter (queue_claimable T now) Q)")
  case Nil
  then have "filter (queue_claimable T now) Q = []"
    by (metis length_0_conv length_sort)
  then show thesis
    using that(1) Nil by (auto simp: claim_candidates_def filter_empty_conv)
next
  case (Cons e es)
  note h = sort_key_head [OF this]
  show thesis
  proof (rule that(2))
    show "claim_candidates T Q now = fst e # map fst (take 19 es)"
      using Cons by (simp add: claim_candidates_def claim_candidate_limit_def take_map)
  qed (use h in auto)
qed

lemma held_row_holds:
  "lease_table_ok T \<Longrightarrow> identifier_ok 200 r \<Longrightarrow>
   holds T now r = Inr (case map_of T r of None \<Rightarrow> False | Some row \<Rightarrow> \<not> claimable_row now row)"
  using lease_table_ok_lookup [of T r]
  by (auto simp: holds_def store_identifier_def identifier_ok_def max_identifier_length_def
      claimable_row_def lease_row_ok_def split: option.splits)

section \<open>Properties\<close>

text \<open>The fencing tokens granted for a run strictly increase over any sequence of
  claims, renewals and releases by any workers: no two grants share a token.\<close>

theorem fencing_tokens_increase:
  "lease_table_ok T \<Longrightarrow>
   sorted_wrt (<) (granted_tokens r (snd (run_lease_calls (claim known) renew release T calls)))"
  using leases.tokens_increase [of T known calls _ _ r]
  by (metis surjective_pairing)

text \<open>C19. A worker whose run was claimed by another after it is fenced out for ever:
  whatever else happens, its lease is never renewed and releasing it does nothing.\<close>

theorem fenced_out_forever:
  "lease_table_ok T \<Longrightarrow> claim known T now r w ttl = (T1, Inr (Some l)) \<Longrightarrow>
   run_lease_calls (claim known) renew release T1 calls = (T2, ls) \<Longrightarrow>
   l2 \<in> set ls \<Longrightarrow> lease_run l2 = r \<Longrightarrow>
   fst (renew T2 now' l ttl') = T2 \<and> (\<forall>l'. snd (renew T2 now' l ttl') \<noteq> Inr (Some l')) \<and>
   release T2 now' l = (T2, False)"
proof -
  assume ok: "lease_table_ok T" and c: "claim known T now r w ttl = (T1, Inr (Some l))"
    and run: "run_lease_calls (claim known) renew release T1 calls = (T2, ls)"
    and l2: "l2 \<in> set ls" "lease_run l2 = r"
  have ok1: "lease_table_ok T1" using claim_wf [OF ok, of known now r w ttl] c by simp
  have l: "lease_run l = r" "fencing_token l = lease_token T1 r"
    using leases.clm_grant [OF ok c] by auto
  have "fencing_token l2 \<in> set (granted_tokens r ls)" using l2 by (auto simp: granted_tokens_def)
  then have t: "fencing_token l < lease_token T2 (lease_run l)"
    using leases.tokens_increase [OF ok1 run, of r] l by fastforce
  have ok2: "lease_table_ok T2" using leases.run_token_mono [OF ok1 run] by blast
  have none: "run_lease_calls (claim known) renew release T2 [] = (T2, [])" by simp
  show ?thesis
    using leases.stale_forever(1) [OF ok2 t none, of now' ttl']
      leases.stale_forever(2) [OF ok2 t none, of now'] by auto
qed

text \<open>A well-formed claim succeeds exactly when no live lease owns the run: a live
  lease excludes every claim, a released or expired one none.\<close>

theorem claim_iff_not_held:
  "lease_table_ok T \<Longrightarrow> identifier_ok 200 r \<Longrightarrow> identifier_ok 200 w \<Longrightarrow> 1 \<le> ttl \<Longrightarrow> known r \<Longrightarrow>
   (\<exists>l. snd (claim known T now r w ttl) = Inr (Some l)) \<longleftrightarrow> holds T now r = Inr False"
  using held_row_holds [of T r now]
  by (auto simp: claim_def store_identifier_def identifier_ok_def max_identifier_length_def
      ttl_check_def claim_row_def Let_def split: option.splits)

text \<open>Claiming from the queue takes a due, unheld run that has been claimable longest,
  and takes none exactly when no queued run is due and unheld.\<close>

theorem claim_next_longest_waiting:
  "identifier_ok 200 w \<Longrightarrow> 1 \<le> ttl \<Longrightarrow> now \<le> moment \<Longrightarrow> \<forall>e \<in> set Q. known (fst e) \<Longrightarrow>
   claim_next known T Q now moment w ttl = (T', v) \<Longrightarrow>
   (v = Inr None \<and> T' = T \<and> (\<forall>e \<in> set Q. \<not> queue_claimable T now e)) \<or>
   (\<exists>l e. v = Inr (Some l) \<and> e \<in> set Q \<and> lease_run l = fst e \<and> queue_claimable T now e \<and>
      (\<forall>e' \<in> set Q. queue_claimable T now e' \<longrightarrow> claimable_since T e \<le> claimable_since T e'))"
proof -
  assume w: "identifier_ok 200 w" "1 \<le> ttl" and m: "now \<le> moment"
    and k: "\<forall>e \<in> set Q. known (fst e)"
    and cn: "claim_next known T Q now moment w ttl = (T', v)"
  have cf: "claim_first known T moment w ttl (claim_candidates T Q now) = (T', v)"
    using cn w by (auto simp: claim_next_def store_identifier_def identifier_ok_def
        max_identifier_length_def ttl_check_def)
  show ?thesis
  proof (rule claim_candidates_cases [of T Q now])
    assume "claim_candidates T Q now = []" "\<forall>e \<in> set Q. \<not> queue_claimable T now e"
    then show ?thesis using cf by simp
  next
    fix e runs
    assume 2: "claim_candidates T Q now = fst e # runs" "e \<in> set Q" "queue_claimable T now e"
      "\<forall>e' \<in> set Q. queue_claimable T now e' \<longrightarrow> claimable_since T e \<le> claimable_since T e'"
    have "case map_of T (fst e) of None \<Rightarrow> True | Some row \<Rightarrow> claimable_row moment row"
      using 2(3) m claimable_row_mono by (auto simp: queue_claimable_def split: option.splits)
    then obtain T1 l where c: "claim_row known T moment (fst e) w ttl = (T1, Inr (Some l))"
      and r: "lease_run l = fst e"
      using claim_row_claimable k 2(2) by blast
    have "v = Inr (Some l)" using cf 2(1) c by simp
    then show ?thesis
      using 2 r by (intro disjI2 exI [of _ l] exI [of _ e]) simp
  qed
qed

text \<open>Enqueueing never makes a run ready later than it was, deferring sets the ready
  time, removing drops the run, and none of them touches another run's entry.\<close>

theorem queue_updates:
  "known r \<Longrightarrow> identifier_ok 200 r \<Longrightarrow>
   (\<exists>q. map_of (fst (enqueue known Q now r nb)) r = Some q \<and>
        not_before q = (case map_of Q r of
            None \<Rightarrow> (case nb of None \<Rightarrow> now | Some t \<Rightarrow> t)
          | Some q0 \<Rightarrow> min (not_before q0) (case nb of None \<Rightarrow> now | Some t \<Rightarrow> t))) \<and>
   (\<exists>q. map_of (fst (defer_run known Q now r t)) r = Some q \<and> not_before q = t) \<and>
   map_of (fst (remove_run Q r)) r = None \<and>
   (\<forall>r'. r' \<noteq> r \<longrightarrow>
      map_of (fst (enqueue known Q now r nb)) r' = map_of Q r' \<and>
      map_of (fst (defer_run known Q now r t)) r' = map_of Q r' \<and>
      map_of (fst (remove_run Q r)) r' = map_of Q r')"
  by (auto simp: enqueue_def defer_run_def remove_run_def upsert_ready_def run_id_check_def
      store_identifier_def identifier_ok_def max_identifier_length_def AList.update_conv
      AList.delete_conv split: option.splits)

section \<open>Witnesses\<close>

text \<open>Worker A claims run r at instant 0 for 60 seconds; at 61 seconds worker B takes it.\<close>

definition sample_calls :: "lease_call list" where
  "sample_calls =
     [Do_Claim 0 ''r'' ''A'' 60, Do_Claim 1 ''r'' ''B'' 60, Do_Claim 61000000 ''r'' ''B'' 60]"

definition lease_A :: lease where
  "lease_A = \<lparr>lease_run = ''r'', lease_worker = ''A'', fencing_token = 1,
     lease_deadline = 60000000\<rparr>"

definition table_A :: lease_table where
  "table_A = [(''r'', \<lparr>lr_holder = Some ''A'', lr_token = 1, lr_deadline = Some 60000000,
     lr_claimed_at = 0, lr_released_at = None\<rparr>)]"

definition everyone :: "string \<Rightarrow> bool" where
  "everyone r = True"

lemma table_A_claim: "claim everyone [] 0 ''r'' ''A'' 60 = (table_A, Inr (Some lease_A))"
  by code_simp

lemma fencing_tokens_increase_witness:
  "granted_tokens ''r'' (snd (run_lease_calls (claim everyone) renew release [] sample_calls)) = [1, 2] \<and>
   sorted_wrt (<) (granted_tokens ''r''
     (snd (run_lease_calls (claim everyone) renew release [] sample_calls)))"
proof
  show "granted_tokens ''r'' (snd (run_lease_calls (claim everyone) renew release [] sample_calls)) = [1, 2]"
    by code_simp
  show "sorted_wrt (<) (granted_tokens ''r''
     (snd (run_lease_calls (claim everyone) renew release [] sample_calls)))"
    by (rule fencing_tokens_increase) (simp add: lease_table_ok_def)
qed

lemma fenced_out_forever_witness:
  "\<exists>T2. fst (run_lease_calls (claim everyone) renew release table_A
            [Do_Claim 61000000 ''r'' ''B'' 60]) = T2 \<and>
        release T2 62000000 lease_A = (T2, False)"
proof -
  obtain T2 l2 where r: "run_lease_calls (claim everyone) renew release table_A
      [Do_Claim 61000000 ''r'' ''B'' 60] = (T2, [l2])" "lease_run l2 = ''r''"
    by (simp add: table_A_def claim_def claim_row_def claimable_row_def store_identifier_def
        max_identifier_length_def printable_nonspace_def ttl_check_def Let_def everyone_def)
  have ok: "lease_table_ok ([] :: lease_table)" by (simp add: lease_table_ok_def)
  show ?thesis
    using fenced_out_forever [OF ok table_A_claim r(1), of l2 62000000 60] r by simp
qed

lemma claim_iff_not_held_witness:
  "\<not> (\<exists>l. snd (claim everyone table_A 59000000 ''r'' ''B'' 60) = Inr (Some l)) \<and>
   (\<exists>l. snd (claim everyone table_A 61000000 ''r'' ''B'' 60) = Inr (Some l))"
proof -
  have ok: "lease_table_ok table_A" by code_simp
  have i: "identifier_ok 200 ''r''" "identifier_ok 200 ''B''" by code_simp+
  have "holds table_A 59000000 ''r'' \<noteq> Inr False" "holds table_A 61000000 ''r'' = Inr False"
    by code_simp+
  then show ?thesis
    using claim_iff_not_held [OF ok i, of 60 everyone] by (simp add: everyone_def)
qed

definition sample_queue :: run_queue where
  "sample_queue = [(''q1'', \<lparr>not_before = 70000000, enqueued_at = 0\<rparr>),
     (''r'', \<lparr>not_before = 0, enqueued_at = 0\<rparr>)]"

lemma claim_next_longest_waiting_witness:
  "\<exists>l. snd (claim_next everyone table_A sample_queue 80000000 80000000 ''B'' 60) = Inr (Some l) \<and>
       lease_run l = ''r''"
proof -
  obtain T' v where c: "claim_next everyone table_A sample_queue 80000000 80000000 ''B'' 60 = (T', v)"
    by (cases "claim_next everyone table_A sample_queue 80000000 80000000 ''B'' 60") auto
  have i: "identifier_ok 200 ''B''" by code_simp
  have q: "queue_claimable table_A 80000000 (''r'', \<lparr>not_before = 0, enqueued_at = 0\<rparr>)"
    "claimable_since table_A (''q1'', \<lparr>not_before = 70000000, enqueued_at = 0\<rparr>) = 70000000"
    "claimable_since table_A (''r'', \<lparr>not_before = 0, enqueued_at = 0\<rparr>) = 60000000"
    by code_simp+
  show ?thesis
    using claim_next_longest_waiting [OF i _ _ _ c] c q
    by (auto simp: sample_queue_def everyone_def)
qed

lemma queue_updates_witness:
  "\<exists>q. map_of (fst (enqueue everyone sample_queue 90000000 ''q1'' None)) ''q1'' = Some q \<and>
       not_before q = 70000000"
proof -
  have "identifier_ok 200 ''q1''" by code_simp
  from queue_updates [OF _ this, of everyone sample_queue 90000000 None] show ?thesis
    by (simp add: sample_queue_def everyone_def)
qed

end
