(* ===== verification/Lease_Guard.thy ===== *)
theory Lease_Guard
  imports Run_Lease
begin

text \<open>
  \<^theory_text>\<open>LeaseGuard\<close> of \<^theory_text>\<open>ops/onboarding/driver.py\<close>: the object that renews a worker's
  lease on cadence and stops the driver as soon as it cannot. The guard is a client
  of the lease store's contract: its operations take the store's renewal and release
  as arguments, its lemmas are proved in \<^theory_text>\<open>lease_store\<close> and reach the model of the
  SQLite store through the interpretation \<^theory_text>\<open>leases\<close>.

  \<^theory_text>\<open>now\<close> is the guard's clock at the call, \<^theory_text>\<open>snow\<close> the store's clock while it serves
  the call; \<^theory_text>\<open>reachable\<close> says whether the store answers or raises.
\<close>

datatype guard_status = Guard_Ok | Fenced | Renewal_Unconfirmed

record lease_guard =
  g_lease :: lease
  g_timings :: lease_timings
  g_confirmed_at :: int
  g_failures :: nat
  g_status :: guard_status
  g_released :: bool

record renewal_check =
  rc_status :: guard_status
  rc_lease :: "lease option"

definition may_drive :: "renewal_check \<Rightarrow> bool" where
  "may_drive c = (rc_status c = Guard_Ok)"

definition max_renewal_failures :: nat where
  "max_renewal_failures = 2"

definition make_guard :: "lease \<Rightarrow> lease_timings \<Rightarrow> int \<Rightarrow> lease_guard" where
  "make_guard l timings now = \<lparr>g_lease = l, g_timings = timings, g_confirmed_at = now,
     g_failures = 0, g_status = Guard_Ok, g_released = False\<rparr>"

definition renewal_due :: "lease_guard \<Rightarrow> int \<Rightarrow> bool" where
  "renewal_due G now =
     (renew_interval_seconds (g_timings G) * 1000000 \<le> now - g_confirmed_at G)"

definition unconfirmed :: "lease_guard \<Rightarrow> int \<Rightarrow> lease_guard \<times> renewal_check" where
  "unconfirmed G now =
     (let G' = G\<lparr>g_failures := g_failures G + 1\<rparr>
      in if is_expired (g_lease G) now \<or> max_renewal_failures \<le> g_failures G'
         then (G'\<lparr>g_status := Renewal_Unconfirmed\<rparr>,
               \<lparr>rc_status = Renewal_Unconfirmed, rc_lease = None\<rparr>)
         else (G', \<lparr>rc_status = Guard_Ok, rc_lease = Some (g_lease G)\<rparr>))"

definition before_step ::
    "('s \<Rightarrow> int \<Rightarrow> lease \<Rightarrow> int \<Rightarrow> 's \<times> lease option result) \<Rightarrow> 's \<Rightarrow> lease_guard \<Rightarrow> int \<Rightarrow> int \<Rightarrow>
     bool \<Rightarrow> 's \<times> lease_guard \<times> renewal_check" where
  "before_step rnw s G now snow reachable =
     (if g_status G \<noteq> Guard_Ok then (s, G, \<lparr>rc_status = g_status G, rc_lease = None\<rparr>)
      else if \<not> renewal_due G now
      then (s, G, \<lparr>rc_status = Guard_Ok, rc_lease = Some (g_lease G)\<rparr>)
      else
        (case (if reachable then rnw s snow (g_lease G) (ttl_seconds (g_timings G))
               else (s, Inl (RuntimeError ''store unreachable''))) of
           (s', Inl e) \<Rightarrow> (s', unconfirmed G now)
         | (s', Inr None) \<Rightarrow>
             (s', G\<lparr>g_status := Fenced\<rparr>, \<lparr>rc_status = Fenced, rc_lease = None\<rparr>)
         | (s', Inr (Some renewed)) \<Rightarrow>
             (s', G\<lparr>g_lease := renewed, g_confirmed_at := now, g_failures := 0\<rparr>,
              \<lparr>rc_status = Guard_Ok, rc_lease = Some renewed\<rparr>)))"

text \<open>\<^theory_text>\<open>release\<close>: the store after it, the guard, the answer, and whether the store was
  asked. A store that raises leaves the guard latched.\<close>

definition guard_release ::
    "('s \<Rightarrow> int \<Rightarrow> lease \<Rightarrow> 's \<times> bool) \<Rightarrow> 's \<Rightarrow> lease_guard \<Rightarrow> int \<Rightarrow> bool \<Rightarrow>
     's \<times> lease_guard \<times> bool result \<times> bool" where
  "guard_release rls s G snow reachable =
     (if g_released G then (s, G, Inr False, False)
      else
        let G' = G\<lparr>g_released := True\<rparr>
        in if \<not> reachable then (s, G', Inl (RuntimeError ''store unreachable''), True)
           else (let (s', b) = rls s snow (g_lease G) in (s', G', Inr b, True)))"

section \<open>The life of a guard\<close>

datatype guard_call = Step int int bool | Release_Call int bool

text \<open>A worker's calls, with how often the store was asked to release and the leases the
  checks handed out.\<close>

fun run_guard ::
    "('s \<Rightarrow> int \<Rightarrow> lease \<Rightarrow> int \<Rightarrow> 's \<times> lease option result) \<Rightarrow> ('s \<Rightarrow> int \<Rightarrow> lease \<Rightarrow> 's \<times> bool) \<Rightarrow>
     's \<Rightarrow> lease_guard \<Rightarrow> guard_call list \<Rightarrow> 's \<times> lease_guard \<times> nat \<times> renewal_check list" where
  "run_guard rnw rls s G [] = (s, G, 0, [])"
| "run_guard rnw rls s G (Step now snow ok # cs) =
     (let (s1, G1, c) = before_step rnw s G now snow ok;
          (s2, G2, n, out) = run_guard rnw rls s1 G1 cs
      in (s2, G2, n, c # out))"
| "run_guard rnw rls s G (Release_Call snow ok # cs) =
     (let (s1, G1, b, asked) = guard_release rls s G snow ok;
          (s2, G2, n, out) = run_guard rnw rls s1 G1 cs
      in (s2, G2, (if asked then 1 else 0) + n, out))"

lemma before_step_released:
  "before_step rnw s G now snow ok = (s', G', c) \<Longrightarrow> g_released G' = g_released G"
  by (auto simp: before_step_def unconfirmed_def Let_def
      split: if_splits prod.splits sum.splits option.splits)

lemma run_guard_releases:
  "run_guard rnw rls s G cs = (s', G', n, out) \<Longrightarrow>
   n = (if g_released G \<or> \<not> (\<exists>snow ok. Release_Call snow ok \<in> set cs) then 0 else 1) \<and>
   (g_released G' \<longleftrightarrow> g_released G \<or> (\<exists>snow ok. Release_Call snow ok \<in> set cs))"
proof (induction cs arbitrary: s G s' G' n out)
  case (Cons c cs)
  show ?case
  proof (cases c)
    case (Step now snow ok)
    obtain s1 G1 ch where 1: "before_step rnw s G now snow ok = (s1, G1, ch)"
      by (cases "before_step rnw s G now snow ok") auto
    obtain s2 G2 m o2 where 2: "run_guard rnw rls s1 G1 cs = (s2, G2, m, o2)"
      by (cases "run_guard rnw rls s1 G1 cs") auto
    show ?thesis
      using Cons.IH [OF 2] Cons.prems 1 2 before_step_released [OF 1] Step by simp
  next
    case (Release_Call snow ok)
    obtain s1 G1 b a where 1: "guard_release rls s G snow ok = (s1, G1, b, a)"
      by (cases "guard_release rls s G snow ok") auto
    obtain s2 G2 m o2 where 2: "run_guard rnw rls s1 G1 cs = (s2, G2, m, o2)"
      by (cases "run_guard rnw rls s1 G1 cs") auto
    have "g_released G1" "a \<longleftrightarrow> \<not> g_released G"
      using 1 by (auto simp: guard_release_def Let_def split: if_splits prod.splits)
    then show ?thesis using Cons.IH [OF 2] Cons.prems 1 2 Release_Call by auto
  qed
qed simp

lemma before_step_latched:
  "g_status G \<noteq> Guard_Ok \<Longrightarrow>
   before_step rnw s G now snow ok = (s, G, \<lparr>rc_status = g_status G, rc_lease = None\<rparr>)"
  by (simp add: before_step_def)

lemma guard_release_status:
  "guard_release rls s G snow ok = (s', G', b, a) \<Longrightarrow> g_status G' = g_status G"
  by (auto simp: guard_release_def Let_def split: if_splits prod.splits)

lemma run_guard_latched:
  "run_guard rnw rls s G cs = (s', G', n, out) \<Longrightarrow> g_status G \<noteq> Guard_Ok \<Longrightarrow>
   (\<forall>c \<in> set out. rc_lease c = None \<and> \<not> may_drive c)"
proof (induction cs arbitrary: s G s' G' n out)
  case (Cons c cs)
  show ?case
  proof (cases c)
    case (Step now snow ok)
    obtain s2 G2 m o2 where 2: "run_guard rnw rls s G cs = (s2, G2, m, o2)"
      by (cases "run_guard rnw rls s G cs") auto
    have "out = \<lparr>rc_status = g_status G, rc_lease = None\<rparr> # o2"
      using Cons.prems(1) Step 2 by (simp add: before_step_latched [OF Cons.prems(2)])
    then show ?thesis
      using Cons.IH [OF 2 Cons.prems(2)] Cons.prems(2) by (simp add: may_drive_def)
  next
    case (Release_Call snow ok)
    obtain s1 G1 b a where 1: "guard_release rls s G snow ok = (s1, G1, b, a)"
      by (cases "guard_release rls s G snow ok") auto
    obtain s2 G2 m o2 where 2: "run_guard rnw rls s1 G1 cs = (s2, G2, m, o2)"
      by (cases "run_guard rnw rls s1 G1 cs") auto
    show ?thesis
      using Cons.IH [OF 2] guard_release_status [OF 1] Cons.prems 1 2 Release_Call by simp
  qed
qed simp

text \<open>The margin of a guard: its confirmation plus three renewal intervals is within the
  deadline of the lease it holds.\<close>

definition guard_ok :: "lease_guard \<Rightarrow> bool" where
  "guard_ok G =
     (1 \<le> renew_interval_seconds (g_timings G) \<and>
      renew_interval_seconds (g_timings G) * 3 \<le> ttl_seconds (g_timings G) \<and>
      g_confirmed_at G + 3 * renew_interval_seconds (g_timings G) * 1000000
        \<le> lease_deadline (g_lease G))"

lemma make_guard_ok:
  "make_timings ttl ri = Inr tm \<Longrightarrow> now + 3 * ri * 1000000 \<le> lease_deadline l \<Longrightarrow>
   guard_ok (make_guard l tm now)"
  by (auto simp: make_timings_def guard_ok_def make_guard_def split: if_splits)

text \<open>A call that is not about a given lease, and if a claim, no later than its deadline.\<close>

definition foreign_call :: "lease \<Rightarrow> lease_call \<Rightarrow> bool" where
  "foreign_call l c =
     (case c of
        Do_Claim t r w ttl \<Rightarrow> t \<le> lease_deadline l
      | Do_Renew t x ttl \<Rightarrow> lease_run x = lease_run l \<longrightarrow> fencing_token x \<noteq> fencing_token l
      | Do_Release t x \<Rightarrow> lease_run x = lease_run l \<longrightarrow> fencing_token x \<noteq> fencing_token l)"

context lease_store
begin

lemma before_step_guard_ok:
  assumes "wf s" "guard_ok G" "now \<le> snow" "before_step rnw s G now snow ok = (s', G', c)"
  shows "guard_ok G' \<and> wf s' \<and>
    (\<forall>l. rc_lease c = Some l \<longrightarrow> now < lease_deadline l \<and> g_lease G' = l \<and> may_drive c)"
proof (cases "g_status G = Guard_Ok \<and> renewal_due G now \<and> ok")
  case False
  then show ?thesis
    using assms
    by (auto simp: before_step_def unconfirmed_def guard_ok_def is_expired_def may_drive_def
        renewal_due_def Let_def split: if_splits)
next
  case True
  obtain s1 v where v: "rnw s snow (g_lease G) (ttl_seconds (g_timings G)) = (s1, v)"
    by (cases "rnw s snow (g_lease G) (ttl_seconds (g_timings G))") auto
  have wf1: "wf s1" using rnw_wf [OF assms(1)] v by (metis fst_conv)
  show ?thesis
  proof (cases "\<exists>l'. v = Inr (Some l')")
    case False
    then have "s' = s1"
      using assms(4) True v by (auto simp: before_step_def split: sum.splits option.splits)
    then show ?thesis
      using assms(2,4) True v wf1 False
      by (auto simp: before_step_def unconfirmed_def guard_ok_def is_expired_def may_drive_def
          Let_def split: if_splits sum.splits option.splits)
  next
    case True2: True
    then obtain l' where l': "v = Inr (Some l')" by blast
    have d: "l' = (g_lease G)\<lparr>lease_deadline := deadline_after (ttl_seconds (g_timings G)) snow\<rparr>"
      using rnw_grant [OF assms(1)] v l' by blast
    have G': "G' = G\<lparr>g_lease := l', g_confirmed_at := now, g_failures := 0\<rparr>" "s' = s1"
      "c = \<lparr>rc_status = Guard_Ok, rc_lease = Some l'\<rparr>"
      using assms(4) True v l' by (simp_all add: before_step_def)
    have "lease_deadline l' = snow + ttl_seconds (g_timings G) * 1000000"
      using d by (simp add: deadline_after_def)
    moreover have "1 \<le> ttl_seconds (g_timings G)"
      "renew_interval_seconds (g_timings G) * 3 \<le> ttl_seconds (g_timings G)"
      using assms(2) by (auto simp: guard_ok_def)
    ultimately show ?thesis
      using G' assms(2,3) wf1 by (auto simp: guard_ok_def may_drive_def)
  qed
qed

text \<open>A fenced guard wrote nothing, and its release will find nothing to release.\<close>

lemma before_step_fenced:
  assumes "before_step rnw s G now snow ok = (s', G', c)" "g_status G = Guard_Ok"
    and "g_status G' = Fenced"
  shows "s' = s \<and> g_lease G' = g_lease G \<and> rc_lease c = None"
proof -
  obtain s1 v where v: "rnw s snow (g_lease G) (ttl_seconds (g_timings G)) = (s1, v)"
    by (cases "rnw s snow (g_lease G) (ttl_seconds (g_timings G))") auto
  show ?thesis
    using assms v rnw_refuse [OF v]
    by (auto simp: before_step_def unconfirmed_def Let_def
        split: if_splits sum.splits option.splits)
qed

text \<open>Foreign calls leave a lease the owner.\<close>

definition owned :: "'s \<Rightarrow> lease \<Rightarrow> bool" where
  "owned s l \<longleftrightarrow> owner s (lease_run l) = Some (lease_worker l, lease_deadline l) \<and>
                token s (lease_run l) = fencing_token l"

lemma owned_kept:
  "wf s \<Longrightarrow> owned s l \<Longrightarrow> \<forall>c \<in> set cs. foreign_call l c \<Longrightarrow>
   run_lease_calls clm rnw rls s cs = (s', ls) \<Longrightarrow> owned s' l \<and> wf s'"
proof (induction cs arbitrary: s s' ls)
  case (Cons c cs)
  show ?case
  proof (cases c)
    case (Do_Claim t r w ttl)
    obtain s1 v where v: "clm s t r w ttl = (s1, v)" by (cases "clm s t r w ttl") auto
    have wf1: "wf s1" using clm_wf [OF Cons.prems(1), of t r w ttl] v by simp
    have o1: "owned s1 l"
    proof (cases "\<exists>x. v = Inr (Some x)")
      case True
      then obtain x where x: "v = Inr (Some x)" by blast
      have g: "\<forall>o' d. owner s r = Some (o', d) \<longrightarrow> d < t"
        "owner s1 = (owner s)(r := Some (w, lease_deadline x))"
        "token s1 = (token s)(r := fencing_token x)"
        using clm_grant [OF Cons.prems(1)] v x by blast+
      have "t \<le> lease_deadline l" using Cons.prems(3) Do_Claim by (simp add: foreign_call_def)
      then have "r \<noteq> lease_run l" using g(1) Cons.prems(2) by (fastforce simp: owned_def)
      then show ?thesis using g(2,3) Cons.prems(2) by (simp add: owned_def)
    next
      case False
      then show ?thesis using clm_refuse [OF v] Cons.prems(2) by simp
    qed
    obtain s2 l2 where "run_lease_calls clm rnw rls s1 cs = (s2, l2)"
      by (cases "run_lease_calls clm rnw rls s1 cs") auto
    then show ?thesis
      using Cons.IH [OF wf1 o1] Cons.prems(3,4) Do_Claim v by auto
  next
    case (Do_Renew t x ttl)
    obtain s1 v where v: "rnw s t x ttl = (s1, v)" by (cases "rnw s t x ttl") auto
    have wf1: "wf s1" using rnw_wf [OF Cons.prems(1), of t x ttl] v by simp
    have o1: "owned s1 l"
    proof (cases "\<exists>y. v = Inr (Some y)")
      case True
      then obtain y where y: "v = Inr (Some y)" by blast
      have g: "token s (lease_run x) = fencing_token x"
        "owner s1 = (owner s)(lease_run x := Some (lease_worker x, lease_deadline y))"
        "token s1 = token s"
        using rnw_grant [OF Cons.prems(1)] v y by blast+
      have "lease_run x \<noteq> lease_run l"
        using g(1) Cons.prems(2,3) Do_Renew by (auto simp: foreign_call_def owned_def)
      then show ?thesis using g(2,3) Cons.prems(2) by (simp add: owned_def)
    next
      case False
      then show ?thesis using rnw_refuse [OF v] Cons.prems(2) by simp
    qed
    then show ?thesis using Cons.IH [OF wf1 o1] Cons.prems(3,4) Do_Renew v by auto
  next
    case (Do_Release t x)
    obtain s1 b where v: "rls s t x = (s1, b)" by (cases "rls s t x") auto
    have wf1: "wf s1" using rls_wf [OF Cons.prems(1), of t x] v by simp
    have o1: "owned s1 l"
    proof (cases b)
      case True
      have g: "token s (lease_run x) = fencing_token x"
        "owner s1 = (owner s)(lease_run x := None)" "token s1 = token s"
        using rls_done [OF Cons.prems(1), of t x s1] v True by simp_all
      have "lease_run x \<noteq> lease_run l"
        using g(1) Cons.prems(2,3) Do_Release by (auto simp: foreign_call_def owned_def)
      then show ?thesis using g(2,3) Cons.prems(2) by (simp add: owned_def)
    next
      case False
      then show ?thesis using rls_noop [of s t x s1] v Cons.prems(2) by simp
    qed
    then show ?thesis using Cons.IH [OF wf1 o1] Cons.prems(3,4) Do_Release v by auto
  qed
qed simp

end

section \<open>Properties\<close>

lemma before_step_stops:
  "before_step rnw s G now snow ok = (s', G', c) \<Longrightarrow> \<not> may_drive c \<Longrightarrow>
   g_status G' \<noteq> Guard_Ok \<and> rc_lease c = None"
  by (auto simp: before_step_def unconfirmed_def may_drive_def Let_def
      split: if_splits prod.splits sum.splits option.splits)

lemma run_guard_stays_stopped:
  "run_guard rnw rls s G cs = (s', G', n, out) \<Longrightarrow>
   sorted_wrt (\<lambda>a b. \<not> may_drive a \<longrightarrow> \<not> may_drive b \<and> rc_lease b = None) out"
proof (induction cs arbitrary: s G s' G' n out)
  case (Cons c cs)
  show ?case
  proof (cases c)
    case (Step now snow ok)
    obtain s1 G1 ch where 1: "before_step rnw s G now snow ok = (s1, G1, ch)"
      by (cases "before_step rnw s G now snow ok") auto
    obtain s2 G2 m o2 where 2: "run_guard rnw rls s1 G1 cs = (s2, G2, m, o2)"
      by (cases "run_guard rnw rls s1 G1 cs") auto
    then show ?thesis
      using Cons.IH [OF 2] Cons.prems 1 Step before_step_stops [OF 1] run_guard_latched [OF 2] by auto
  next
    case (Release_Call snow ok)
    obtain s1 G1 b a where 1: "guard_release rls s G snow ok = (s1, G1, b, a)"
      by (cases "guard_release rls s G snow ok") auto
    obtain s2 G2 m o2 where 2: "run_guard rnw rls s1 G1 cs = (s2, G2, m, o2)"
      by (cases "run_guard rnw rls s1 G1 cs") auto
    then show ?thesis using Cons.IH [OF 2] Cons.prems 1 Release_Call by simp
  qed
qed simp

text \<open>A guard stops for good and releases exactly once: after its first check that does
  not allow driving no later check hands out a lease, and however often the release
  is called, on whatever exit path, the store is asked exactly once.\<close>

theorem guard_stops_for_good_and_releases_once:
  "run_guard rnw rls s (make_guard l tm t) cs = (s', G', n, out) \<Longrightarrow> Release_Call snow ok \<in> set cs \<Longrightarrow>
   n = 1 \<and> sorted_wrt (\<lambda>a b. \<not> may_drive a \<longrightarrow> \<not> may_drive b \<and> rc_lease b = None) out"
  using run_guard_releases [of rnw rls s "make_guard l tm t" cs] run_guard_stays_stopped
  by (fastforce simp: make_guard_def)

text \<open>A lease a check hands out is live: with timings the code accepts, a guard built
  while three renewal intervals remain, and a store clock not behind the guard's, the
  deadline of every lease handed out is in the future, even after a failed renewal;
  the margin is an invariant of the guard.\<close>

theorem guard_lease_is_live:
  "lease_table_ok T \<Longrightarrow> guard_ok G \<Longrightarrow> now \<le> snow \<Longrightarrow>
   before_step renew T G now snow reachable = (T', G', c) \<Longrightarrow>
   guard_ok G' \<and> lease_table_ok T' \<and> (\<forall>l. rc_lease c = Some l \<longrightarrow> \<not> is_expired l now)"
  using leases.before_step_guard_ok [of T G now snow reachable T' G' c]
  by (auto simp: is_expired_def)

text \<open>C3. A worker whose check hands out a lease owns the run: if its lease was the current
  one and only foreign calls made up to its deadline happened since, the store still
  names it as the owner with that token, and the guard is not fenced.\<close>

definition owns_lease :: "lease_table \<Rightarrow> lease \<Rightarrow> bool" where
  "owns_lease T l =
     (lease_owner T (lease_run l) = Some (lease_worker l, lease_deadline l) \<and>
      lease_token T (lease_run l) = fencing_token l)"

lemma renew_owned:
  assumes "lease_table_ok T" "owns_lease T l" "1 \<le> ttl"
  shows "\<exists>T'. renew T now l ttl = (T', Inr (Some (l\<lparr>lease_deadline := deadline_after ttl now\<rparr>)))"
proof -
  obtain r where r: "map_of T (lease_run l) = Some r"
    using assms(2) by (auto simp: owns_lease_def lease_owner_def split: option.splits)
  then have "owns_row l r"
    using assms(2) by (auto simp: owns_lease_def owns_row_def lease_owner_def lease_token_def
        split: option.splits)
  then show ?thesis using r assms(3) by (simp add: renew_def ttl_check_def Let_def)
qed

theorem guard_ok_worker_owns_run:
  "lease_table_ok T \<Longrightarrow> owns_lease T (g_lease G) \<Longrightarrow> g_status G = Guard_Ok \<Longrightarrow>
   1 \<le> ttl_seconds (g_timings G) \<Longrightarrow> \<forall>c \<in> set calls. foreign_call (g_lease G) c \<Longrightarrow>
   run_lease_calls (claim known) renew release T calls = (T1, ls) \<Longrightarrow>
   before_step renew T1 G now snow reachable = (T2, G2, c) \<Longrightarrow>
   g_status G2 \<noteq> Fenced \<and> (\<forall>l. rc_lease c = Some l \<longrightarrow> owns_lease T2 l)"
proof -
  assume ok: "lease_table_ok T" and own: "owns_lease T (g_lease G)" and st: "g_status G = Guard_Ok"
    and ttl: "1 \<le> ttl_seconds (g_timings G)" and f: "\<forall>c \<in> set calls. foreign_call (g_lease G) c"
    and run: "run_lease_calls (claim known) renew release T calls = (T1, ls)"
    and bs: "before_step renew T1 G now snow reachable = (T2, G2, c)"
  have own1: "owns_lease T1 (g_lease G)" and ok1: "lease_table_ok T1"
    using leases.owned_kept [OF ok _ f run] own
    by (auto simp: leases.owned_def owns_lease_def)
  obtain T3 where r: "renew T1 snow (g_lease G) (ttl_seconds (g_timings G)) =
      (T3, Inr (Some ((g_lease G)\<lparr>lease_deadline :=
          deadline_after (ttl_seconds (g_timings G)) snow\<rparr>)))"
    using renew_owned [OF ok1 own1 ttl] by blast
  have own3: "owns_lease T3 ((g_lease G)\<lparr>lease_deadline :=
          deadline_after (ttl_seconds (g_timings G)) snow\<rparr>)"
    using leases.rnw_grant [OF ok1 r] own1 by (auto simp: owns_lease_def)
  show ?thesis
    using bs st r own1 own3
    by (auto simp: before_step_def unconfirmed_def Let_def split: if_splits)
qed

section \<open>Witnesses\<close>

definition guard_A :: lease_guard where
  "guard_A = make_guard lease_A default_timings 0"

lemma guard_stops_for_good_and_releases_once_witness:
  "fst (snd (snd (run_guard renew release table_A guard_A
     [Step 20000000 20000000 False, Step 21000000 21000000 False, Release_Call 22000000 True,
      Release_Call 23000000 True]))) = 1"
proof -
  obtain s' G' n out where r: "run_guard renew release table_A guard_A
     [Step 20000000 20000000 False, Step 21000000 21000000 False, Release_Call 22000000 True,
      Release_Call 23000000 True] = (s', G', n, out)"
    by (cases "run_guard renew release table_A guard_A
     [Step 20000000 20000000 False, Step 21000000 21000000 False, Release_Call 22000000 True,
      Release_Call 23000000 True]")
  show ?thesis
    using guard_stops_for_good_and_releases_once
      [OF r [unfolded guard_A_def], of 22000000 True] r by simp
qed

lemma table_A_facts: "lease_table_ok table_A" "guard_ok guard_A" "owns_lease table_A (g_lease guard_A)"
  by code_simp+

lemma guard_lease_is_live_witness:
  "\<exists>l. rc_lease (snd (snd (before_step renew table_A guard_A 20000000 20000000 False))) = Some l \<and>
       \<not> is_expired l 20000000"
proof -
  obtain T' G' c where b: "before_step renew table_A guard_A 20000000 20000000 False = (T', G', c)"
    and c: "rc_lease c = Some lease_A"
    by (simp add: before_step_def unconfirmed_def guard_A_def make_guard_def default_timings_def
        renewal_due_def is_expired_def lease_A_def max_renewal_failures_def)
  show ?thesis
    using guard_lease_is_live [OF table_A_facts(1,2) _ b] b c by simp
qed

lemma guard_ok_worker_owns_run_witness:
  "\<exists>T2 G2 c l. before_step renew table_A guard_A 20000000 20000000 True = (T2, G2, c) \<and>
       rc_lease c = Some l \<and> owns_lease T2 l"
proof -
  obtain T1 ls where r: "run_lease_calls (claim everyone) renew release table_A
      [Do_Claim 10000000 ''r'' ''B'' 60] = (T1, ls)" and t: "T1 = table_A"
    by (simp add: table_A_def claim_def claim_row_def claimable_row_def store_identifier_def
        max_identifier_length_def printable_nonspace_def ttl_check_def Let_def)
  obtain T2 G2 c l where b: "before_step renew T1 guard_A 20000000 20000000 True = (T2, G2, c)"
    and c: "rc_lease c = Some l"
    by (simp add: t table_A_def before_step_def guard_A_def make_guard_def default_timings_def
        renewal_due_def lease_A_def renew_def ttl_check_def owns_row_def Let_def)
  have f: "\<forall>c \<in> set [Do_Claim 10000000 ''r'' ''B'' 60]. foreign_call (g_lease guard_A) c"
    by (simp add: foreign_call_def guard_A_def make_guard_def lease_A_def)
  have "g_status guard_A = Guard_Ok" "1 \<le> ttl_seconds (g_timings guard_A)"
    by (simp_all add: guard_A_def make_guard_def default_timings_def)
  from guard_ok_worker_owns_run [OF table_A_facts(1,3) this f r b] show ?thesis
    using b c t by blast
qed

end
