(* ===== verification/Phase_Store.thy ===== *)
theory Phase_Store
  imports Phases Effects "HOL-Library.AList"
begin

text \<open>
  The durable phase history of \<^theory_text>\<open>ops/onboarding/driver.py\<close>
  (\<^theory_text>\<open>SQLitePhaseHistoryStore\<close>) over the tables of \<^theory_text>\<open>ops/core/storage.py\<close>: the phase
  boundaries of a run, its state row with the counters the phases own, the
  side-effect intents and the reservation view of each operation key.

  The database is a record of four tables. Every method is one immediate
  transaction, hence a function from the database to the database after it and a
  result; a raise leaves the database unchanged. \<^theory_text>\<open>known\<close> tells which runs exist (the
  foreign key), \<^theory_text>\<open>rd\<close> stands for \<^theory_text>\<open>redact_text\<close> on the identifiers the ledger
  stores, \<^theory_text>\<open>rdr\<close> for \<^theory_text>\<open>redact_data\<close> on a receipt and \<^theory_text>\<open>jlen\<close> for the length of its
  JSON text. Timestamps and the external id of an intent are not modelled.
\<close>

section \<open>Rows\<close>

record phase_boundary =
  pb_sequence :: nat
  pb_from :: "phase option"
  pb_to :: phase
  pb_reason :: string
  pb_digest :: string
  pb_attempt :: int
  pb_correlation :: string

record run_state =
  rs_phase :: phase
  rs_phase_at_pause :: "phase option"
  rs_digest :: string
  rs_account_ref :: string
  rs_generation :: nat
  rs_verification :: nat
  rs_validation :: nat
  rs_captcha_prompts :: nat
  rs_admission_prompts :: nat

record effect_record =
  er_effect :: onboarding_effect
  er_generation :: int
  er_phase :: phase
  er_disposition :: effect_disposition
  er_receipt :: "receipt option"
  er_reason :: string

record phase_db =
  db_history :: "string \<Rightarrow> phase_boundary list"
  db_states :: "string \<Rightarrow> run_state option"
  db_intents :: "string \<times> string \<Rightarrow> effect_row_status option"
  db_reservations :: "string \<Rightarrow> (string \<times> effect_record) list"

record phase_commit =
  pc_from :: "phase option"
  pc_to :: phase
  pc_reason :: string
  pc_digest :: string
  pc_attempt :: int
  pc_correlation :: string

record reserved_phase_commit =
  rpc_committed :: bool
  rpc_plan :: effect_plan

definition empty_db :: phase_db where
  "empty_db = \<lparr>db_history = (\<lambda>_. []), db_states = Map.empty, db_intents = Map.empty,
               db_reservations = (\<lambda>_. [])\<rparr>"

section \<open>Argument checks\<close>

definition run_identifier :: "string \<Rightarrow> string result" where
  "run_identifier s = store_identifier 200 ''run id is invalid'' s"

definition key_check :: "string \<Rightarrow> string result" where
  "key_check s = store_identifier 200 ''operation key is invalid'' s"

definition reason_code_check :: "string \<Rightarrow> string result" where
  "reason_code_check s =
     (if s \<notin> set onboarding_reason_codes
      then Inl (ValueError ''reason code is not an onboarding reason code'') else Inr s)"

definition profile_digest_check :: "string \<Rightarrow> string result" where
  "profile_digest_check s =
     (if length s \<noteq> 64 then Inl (ValueError ''profile digest must be a sha256 hex digest'')
      else Inr s)"

definition attempt_check :: "int \<Rightarrow> int result" where
  "attempt_check n =
     (if n < 0 then Inl (ValueError ''attempt must be zero or greater'') else Inr n)"

definition transition_check :: "phase option \<Rightarrow> phase \<Rightarrow> string \<Rightarrow> phase result" where
  "transition_check from_phase to_phase code =
     (case validate_phase_transition from_phase to_phase code of
        Inl _ \<Rightarrow> Inl (ValueError ''illegal phase transition'') | Inr p \<Rightarrow> Inr p)"

text \<open>The checks of \<^theory_text>\<open>commit_phase\<close>, in its order.\<close>

definition commit_check :: "string \<Rightarrow> phase_commit \<Rightarrow> unit result" where
  "commit_check run_id c =
     bindR (run_identifier run_id) (\<lambda>_.
     bindR (reason_code_check (pc_reason c)) (\<lambda>_.
     bindR (profile_digest_check (pc_digest c)) (\<lambda>_.
     bindR (store_identifier 64 ''correlation id is invalid'' (pc_correlation c)) (\<lambda>_.
     bindR (attempt_check (pc_attempt c)) (\<lambda>_.
     bindR (transition_check (pc_from c) (pc_to c) (pc_reason c)) (\<lambda>_. Inr ()))))))"

text \<open>The checks of \<^theory_text>\<open>commit_phase_with_reservation\<close>: the key and the generation come
  before the transition.\<close>

definition reserved_commit_check :: "string \<Rightarrow> phase_commit \<Rightarrow> string \<Rightarrow> int \<Rightarrow> unit result" where
  "reserved_commit_check run_id c key generation =
     bindR (run_identifier run_id) (\<lambda>_.
     bindR (reason_code_check (pc_reason c)) (\<lambda>_.
     bindR (profile_digest_check (pc_digest c)) (\<lambda>_.
     bindR (store_identifier 64 ''correlation id is invalid'' (pc_correlation c)) (\<lambda>_.
     bindR (attempt_check (pc_attempt c)) (\<lambda>_.
     bindR (key_check key) (\<lambda>_.
     bindR (guardR (0 \<le> generation)
              (ValueError ''effect generation must be zero or greater'')) (\<lambda>_.
     bindR (transition_check (pc_from c) (pc_to c) (pc_reason c)) (\<lambda>_. Inr ()))))))))"

section \<open>Committing a boundary\<close>

definition next_sequence :: "phase_db \<Rightarrow> string \<Rightarrow> nat" where
  "next_sequence D run = Max (insert 0 (pb_sequence ` set (db_history D run))) + 1"

text \<open>The two unique constraints: the sequence, and the boundary with a missing source
  folded to the empty text, which is no phase.\<close>

definition same_boundary :: "phase_commit \<Rightarrow> phase_boundary \<Rightarrow> bool" where
  "same_boundary c b =
     (pb_from b = pc_from c \<and> pb_to b = pc_to c \<and> pb_attempt b = pc_attempt c \<and>
      pb_correlation b = pc_correlation c)"

definition violates_unique :: "phase_db \<Rightarrow> string \<Rightarrow> phase_commit \<Rightarrow> bool" where
  "violates_unique D run c =
     (\<exists>b \<in> set (db_history D run).
        pb_sequence b = next_sequence D run \<or> same_boundary c b)"

definition boundary_of :: "nat \<Rightarrow> phase_commit \<Rightarrow> phase_boundary" where
  "boundary_of n c = \<lparr>pb_sequence = n, pb_from = pc_from c, pb_to = pc_to c,
     pb_reason = pc_reason c, pb_digest = pc_digest c, pb_attempt = pc_attempt c,
     pb_correlation = pc_correlation c\<rparr>"

definition upsert_state :: "run_state option \<Rightarrow> phase_commit \<Rightarrow> run_state" where
  "upsert_state s c =
     (case s of
        None \<Rightarrow> \<lparr>rs_phase = pc_to c, rs_phase_at_pause = None, rs_digest = pc_digest c,
                 rs_account_ref = [], rs_generation = 0, rs_verification = 0,
                 rs_validation = 0, rs_captcha_prompts = 0, rs_admission_prompts = 0\<rparr>
      | Some r \<Rightarrow> r\<lparr>rs_phase := pc_to c, rs_digest := pc_digest c\<rparr>)"

text \<open>\<^theory_text>\<open>_commit_phase\<close> inside a transaction; False is the replay.\<close>

definition commit_boundary ::
    "(string \<Rightarrow> bool) \<Rightarrow> phase_db \<Rightarrow> string \<Rightarrow> phase_commit \<Rightarrow> phase_db \<times> bool result" where
  "commit_boundary known D run c =
     (if violates_unique D run c then (D, Inr False)
      else if \<not> known run then (D, Inl (IntegrityError ''FOREIGN KEY constraint failed''))
      else
        (D\<lparr>db_history := (db_history D)
              (run := db_history D run @ [boundary_of (next_sequence D run) c]),
           db_states := (db_states D)(run \<mapsto> upsert_state (db_states D run) c)\<rparr>, Inr True))"

definition commit_phase ::
    "(string \<Rightarrow> bool) \<Rightarrow> phase_db \<Rightarrow> string \<Rightarrow> phase_commit \<Rightarrow> phase_db \<times> bool result" where
  "commit_phase known D run_id c =
     (case commit_check run_id c of
        Inl e \<Rightarrow> (D, Inl e)
      | Inr _ \<Rightarrow> commit_boundary known D run_id c)"

section \<open>Reservations (ops/core/storage.py)\<close>

text \<open>\<^theory_text>\<open>_effect_receipt_json\<close>: the receipt as stored, sorted by key.\<close>

definition receipt_json ::
    "(receipt \<Rightarrow> receipt) \<Rightarrow> (receipt \<Rightarrow> nat) \<Rightarrow> receipt option \<Rightarrow> receipt option result" where
  "receipt_json rdr jlen r =
     (case r of
        None \<Rightarrow> Inr None
      | Some rc \<Rightarrow>
          if rc = [] then Inl (ValueError ''an effect receipt must carry at least one identifier'')
          else if rdr rc \<noteq> rc
          then Inl (ValueError ''effect receipts cannot contain secret-like values'')
          else if 2000 < jlen rc then Inl (ValueError ''effect receipt is too large'')
          else Inr (Some (sort_key fst rc)))"

definition intent_key :: "(string \<Rightarrow> string) \<Rightarrow> string \<Rightarrow> string \<Rightarrow> string \<times> string" where
  "intent_key rd run key = (rd run, rd key)"

definition reserve_side_effect ::
    "(string \<Rightarrow> string) \<Rightarrow> (string \<Rightarrow> bool) \<Rightarrow> phase_db \<Rightarrow> string \<Rightarrow> string \<Rightarrow> string \<Rightarrow>
     phase_db \<times> (effect_row_status \<times> bool) result" where
  "reserve_side_effect rd known D run key provider =
     (if key = [] \<or> 200 < length key then (D, Inl (ValueError ''operation key is invalid''))
      else if provider = [] \<or> 64 < length provider
      then (D, Inl (ValueError ''provider name is invalid''))
      else (case db_intents D (intent_key rd run key) of
          Some st \<Rightarrow> (D, Inr (st, False))
        | None \<Rightarrow>
            if \<not> known (rd run)
            then (D, Inl (IntegrityError ''FOREIGN KEY constraint failed''))
            else (D\<lparr>db_intents := (db_intents D)(intent_key rd run key \<mapsto> Pending)\<rparr>,
                  Inr (Pending, True))))"

definition update_side_effect ::
    "(string \<Rightarrow> string) \<Rightarrow> phase_db \<Rightarrow> string \<Rightarrow> string \<Rightarrow> effect_row_status \<Rightarrow>
     phase_db \<times> unit result" where
  "update_side_effect rd D run key st =
     (case db_intents D (intent_key rd run key) of
        None \<Rightarrow> (D, Inl (KeyError ''side-effect intent was not found''))
      | Some _ \<Rightarrow> (D\<lparr>db_intents := (db_intents D)(intent_key rd run key \<mapsto> st)\<rparr>, Inr ()))"

definition read_reservation ::
    "(string \<Rightarrow> string) \<Rightarrow> phase_db \<Rightarrow> string \<Rightarrow> string \<Rightarrow> effect_record option" where
  "read_reservation rd D run key = map_of (db_reservations D (rd run)) (rd key)"

text \<open>The upsert: effect and generation are written once, a missing receipt leaves the
  recorded one.\<close>

definition record_reservation ::
    "(string \<Rightarrow> string) \<Rightarrow> (string \<Rightarrow> bool) \<Rightarrow> (receipt \<Rightarrow> receipt) \<Rightarrow> (receipt \<Rightarrow> nat) \<Rightarrow>
     phase_db \<Rightarrow> string \<Rightarrow> string \<Rightarrow> effect_record \<Rightarrow> phase_db \<times> effect_record result" where
  "record_reservation rd known rdr jlen D run key e =
     (if er_generation e < 0
      then (D, Inl (ValueError ''effect generation must be zero or greater''))
      else if key = [] \<or> 200 < length key
      then (D, Inl (ValueError ''operation key is invalid''))
      else (case receipt_json rdr jlen (er_receipt e) of
          Inl x \<Rightarrow> (D, Inl x)
        | Inr rj \<Rightarrow>
            if \<not> known (rd run)
            then (D, Inl (IntegrityError ''FOREIGN KEY constraint failed''))
            else
              let rows = db_reservations D (rd run);
                  e' = (case map_of rows (rd key) of
                      None \<Rightarrow> e\<lparr>er_receipt := rj\<rparr>
                    | Some old \<Rightarrow> old\<lparr>er_phase := er_phase e, er_disposition := er_disposition e,
                        er_receipt := (case rj of None \<Rightarrow> er_receipt old | Some r \<Rightarrow> Some r),
                        er_reason := er_reason e\<rparr>)
              in (D\<lparr>db_reservations := (db_reservations D)
                      (rd run := AList.update (rd key) e' rows)\<rparr>, Inr e')))"

definition list_reservations ::
    "(string \<Rightarrow> string) \<Rightarrow> phase_db \<Rightarrow> string \<Rightarrow> (string \<times> effect_record) list" where
  "list_reservations rd D run = db_reservations D (rd run)"

section \<open>Committing a boundary with its reservation\<close>

definition stored_receipt ::
    "(string \<Rightarrow> string) \<Rightarrow> phase_db \<Rightarrow> string \<Rightarrow> string \<Rightarrow> receipt option" where
  "stored_receipt rd D run key =
     (case read_reservation rd D run key of None \<Rightarrow> None | Some e \<Rightarrow> er_receipt e)"

definition plan_for_intent ::
    "(string \<Rightarrow> string) \<Rightarrow> phase_db \<Rightarrow> string \<Rightarrow> string \<Rightarrow> onboarding_effect \<Rightarrow>
     effect_row_status option \<Rightarrow> effect_plan result" where
  "plan_for_intent rd D run key action st =
     plan_for_row_status key action st
       (if st = Some Completed then stored_receipt rd D run key else None)"

definition standing_plan ::
    "(string \<Rightarrow> string) \<Rightarrow> phase_db \<Rightarrow> string \<Rightarrow> string \<Rightarrow> onboarding_effect \<Rightarrow>
     effect_plan result" where
  "standing_plan rd D run key action =
     plan_for_intent rd D run key action (db_intents D (intent_key rd run key))"

definition commit_phase_with_reservation ::
    "(string \<Rightarrow> string) \<Rightarrow> (string \<Rightarrow> bool) \<Rightarrow> (receipt \<Rightarrow> receipt) \<Rightarrow> (receipt \<Rightarrow> nat) \<Rightarrow>
     phase_db \<Rightarrow> string \<Rightarrow> phase_commit \<Rightarrow> onboarding_effect \<Rightarrow> string \<Rightarrow> int \<Rightarrow>
     phase_db \<times> reserved_phase_commit result" where
  "commit_phase_with_reservation rd known rdr jlen D run c action key generation =
     (case reserved_commit_check run c key generation of
        Inl e \<Rightarrow> (D, Inl e)
      | Inr _ \<Rightarrow>
        (case commit_boundary known D run c of
           (_, Inl e) \<Rightarrow> (D, Inl e)
         | (_, Inr False) \<Rightarrow>
             (D, bindR (standing_plan rd D run key action) (\<lambda>p.
                   Inr \<lparr>rpc_committed = False, rpc_plan = p\<rparr>))
         | (D1, Inr True) \<Rightarrow>
            (case reserve_side_effect rd known D1 run key effect_provider of
               (_, Inl e) \<Rightarrow> (D, Inl e)
             | (D2, Inr (st, fresh)) \<Rightarrow>
                 let row = (if fresh then None else Some st)
                 in (case plan_for_intent rd D2 run key action row of
                       Inl e \<Rightarrow> (D, Inl e)
                     | Inr p \<Rightarrow>
                         let D3 = (if row = Some Failed
                                   then fst (update_side_effect rd D2 run key Pending) else D2)
                         in (case record_reservation rd known rdr jlen D3 run key
                                 \<lparr>er_effect = action, er_generation = generation,
                                  er_phase = pc_to c, er_disposition = plan_disposition p,
                                  er_receipt = None, er_reason = plan_reason p\<rparr> of
                               (_, Inl e) \<Rightarrow> (D, Inl e)
                             | (D4, Inr _) \<Rightarrow>
                                 (D4, Inr \<lparr>rpc_committed = True, rpc_plan = p\<rparr>))))))"

section \<open>Settling a reservation\<close>

definition complete_effect_reservation ::
    "(string \<Rightarrow> string) \<Rightarrow> (string \<Rightarrow> bool) \<Rightarrow> (receipt \<Rightarrow> receipt) \<Rightarrow> (receipt \<Rightarrow> nat) \<Rightarrow>
     phase_db \<Rightarrow> string \<Rightarrow> string \<Rightarrow> receipt \<Rightarrow> phase_db \<times> effect_record result" where
  "complete_effect_reservation rd known rdr jlen D run key rc =
     (case bindR (run_identifier run) (\<lambda>_. key_check key) of
        Inl e \<Rightarrow> (D, Inl e)
      | Inr _ \<Rightarrow>
        (case read_reservation rd D run key of
           None \<Rightarrow> (D, Inl (KeyError ''effect reservation was not found''))
         | Some old \<Rightarrow>
            (case update_side_effect rd D run key Completed of
               (_, Inl e) \<Rightarrow> (D, Inl e)
             | (D1, Inr _) \<Rightarrow>
                (case plan_for_row_status key (er_effect old) (Some Completed) (Some rc) of
                   Inl e \<Rightarrow> (D, Inl e)
                 | Inr p \<Rightarrow>
                    (case record_reservation rd known rdr jlen D1 run key
                        (old\<lparr>er_disposition := plan_disposition p, er_reason := plan_reason p,
                             er_receipt := Some rc\<rparr>) of
                       (_, Inl e) \<Rightarrow> (D, Inl e)
                     | (D2, Inr e') \<Rightarrow> (D2, Inr e'))))))"

definition mark_reservation_unknown ::
    "(string \<Rightarrow> string) \<Rightarrow> (string \<Rightarrow> bool) \<Rightarrow> (receipt \<Rightarrow> receipt) \<Rightarrow> (receipt \<Rightarrow> nat) \<Rightarrow>
     phase_db \<Rightarrow> string \<Rightarrow> string \<Rightarrow> phase_db \<times> effect_record result" where
  "mark_reservation_unknown rd known rdr jlen D run key =
     (case bindR (run_identifier run) (\<lambda>_. key_check key) of
        Inl e \<Rightarrow> (D, Inl e)
      | Inr _ \<Rightarrow>
        (case read_reservation rd D run key of
           None \<Rightarrow> (D, Inl (KeyError ''effect reservation was not found''))
         | Some old \<Rightarrow>
            (case update_side_effect rd D run key Outcome_Unknown of
               (_, Inl e) \<Rightarrow> (D, Inl e)
             | (D1, Inr _) \<Rightarrow>
                (case record_reservation rd known rdr jlen D1 run key
                    (old\<lparr>er_disposition := Pause_Outcome_Unknown,
                         er_reason := reconcile_reason_code, er_receipt := None\<rparr>) of
                   (_, Inl e) \<Rightarrow> (D, Inl e)
                 | (D2, Inr e') \<Rightarrow> (D2, Inr e')))))"

definition submitted_statuses :: "effect_row_status set" where
  "submitted_statuses = {Pending, Completed, Outcome_Unknown}"

definition submission_count ::
    "(string \<Rightarrow> string) \<Rightarrow> phase_db \<Rightarrow> string \<Rightarrow> string \<Rightarrow> nat result" where
  "submission_count rd D run key =
     bindR (run_identifier run) (\<lambda>_. bindR (key_check key) (\<lambda>_.
       Inr (case db_intents D (intent_key rd run key) of
              None \<Rightarrow> 0 | Some st \<Rightarrow> if st \<in> submitted_statuses then 1 else 0)))"

definition effect_reservation ::
    "(string \<Rightarrow> string) \<Rightarrow> phase_db \<Rightarrow> string \<Rightarrow> string \<Rightarrow> effect_record option result" where
  "effect_reservation rd D run key =
     bindR (run_identifier run) (\<lambda>_. bindR (key_check key) (\<lambda>_.
       Inr (read_reservation rd D run key)))"

definition reservations ::
    "(string \<Rightarrow> string) \<Rightarrow> phase_db \<Rightarrow> string \<Rightarrow> (string \<times> effect_record) list result" where
  "reservations rd D run = bindR (run_identifier run) (\<lambda>_. Inr (list_reservations rd D run))"

section \<open>Reading the history\<close>

definition history :: "phase_db \<Rightarrow> string \<Rightarrow> phase_boundary list result" where
  "history D run =
     bindR (run_identifier run) (\<lambda>_. Inr (sort_key pb_sequence (db_history D run)))"

definition current_phase :: "phase_db \<Rightarrow> string \<Rightarrow> (phase \<times> int) option result" where
  "current_phase D run =
     bindR (run_identifier run) (\<lambda>_.
       Inr (case sort_key pb_sequence (db_history D run) of
              [] \<Rightarrow> None
            | b # bs \<Rightarrow> (let l = last (b # bs) in Some (pb_to l, pb_attempt l))))"

section \<open>The counters of a run\<close>

datatype counter = Generation | Verification | Validation | Captcha_Prompts | Admission_Prompts

fun read_counter :: "counter \<Rightarrow> run_state \<Rightarrow> nat" where
  "read_counter Generation s = rs_generation s"
| "read_counter Verification s = rs_verification s"
| "read_counter Validation s = rs_validation s"
| "read_counter Captcha_Prompts s = rs_captcha_prompts s"
| "read_counter Admission_Prompts s = rs_admission_prompts s"

fun write_counter :: "counter \<Rightarrow> nat \<Rightarrow> run_state \<Rightarrow> run_state" where
  "write_counter Generation n s = s\<lparr>rs_generation := n\<rparr>"
| "write_counter Verification n s = s\<lparr>rs_verification := n\<rparr>"
| "write_counter Validation n s = s\<lparr>rs_validation := n\<rparr>"
| "write_counter Captcha_Prompts n s = s\<lparr>rs_captcha_prompts := n\<rparr>"
| "write_counter Admission_Prompts n s = s\<lparr>rs_admission_prompts := n\<rparr>"

definition read_generation :: "phase_db \<Rightarrow> string \<Rightarrow> counter \<Rightarrow> nat result" where
  "read_generation D run c =
     (case db_states D run of
        None \<Rightarrow> Inl (KeyError ''onboarding run state was not found'')
      | Some s \<Rightarrow> Inr (read_counter c s))"

definition generation_column :: "onboarding_effect \<Rightarrow> counter result" where
  "generation_column eff =
     (if eff = generate_credential then Inr Generation
      else Inl (ValueError ''effect has no generation counter''))"

definition advance_counter :: "phase_db \<Rightarrow> string \<Rightarrow> counter \<Rightarrow> phase_db \<times> nat result" where
  "advance_counter D run c =
     (case db_states D run of
        None \<Rightarrow> (D, Inl (KeyError ''onboarding run state was not found''))
      | Some s \<Rightarrow>
          let n = read_counter c s + 1
          in (D\<lparr>db_states := (db_states D)(run \<mapsto> write_counter c n s)\<rparr>, Inr n))"

definition next_generation :: "phase_db \<Rightarrow> string \<Rightarrow> onboarding_effect \<Rightarrow> phase_db \<times> nat result" where
  "next_generation D run eff =
     (case bindR (run_identifier run) (\<lambda>_. generation_column eff) of
        Inl e \<Rightarrow> (D, Inl e) | Inr c \<Rightarrow> advance_counter D run c)"

definition current_generation :: "phase_db \<Rightarrow> string \<Rightarrow> onboarding_effect \<Rightarrow> nat result" where
  "current_generation D run eff =
     bindR (run_identifier run) (\<lambda>_. bindR (generation_column eff) (read_generation D run))"

definition next_validation_attempt :: "phase_db \<Rightarrow> string \<Rightarrow> phase_db \<times> nat result" where
  "next_validation_attempt D run =
     (case run_identifier run of
        Inl e \<Rightarrow> (D, Inl e) | Inr _ \<Rightarrow> advance_counter D run Validation)"

definition next_verification_attempt :: "phase_db \<Rightarrow> string \<Rightarrow> phase_db \<times> nat result" where
  "next_verification_attempt D run =
     (case run_identifier run of
        Inl e \<Rightarrow> (D, Inl e) | Inr _ \<Rightarrow> advance_counter D run Verification)"

text \<open>\<^theory_text>\<open>_counter\<close>: a missing state row is zero, not an error.\<close>

definition counter_value :: "phase_db \<Rightarrow> string \<Rightarrow> counter \<Rightarrow> nat result" where
  "counter_value D run c =
     bindR (run_identifier run) (\<lambda>_.
       (case read_generation D run c of Inl _ \<Rightarrow> Inr 0 | Inr n \<Rightarrow> Inr n))"

record captcha_pause_row =
  cp_phase_at_pause :: "phase option"
  cp_prompts :: nat

definition record_captcha_pause ::
    "phase_db \<Rightarrow> string \<Rightarrow> phase \<Rightarrow> phase_db \<times> captcha_pause_row result" where
  "record_captcha_pause D run p =
     (case run_identifier run of
        Inl e \<Rightarrow> (D, Inl e)
      | Inr _ \<Rightarrow>
        (case db_states D run of
           None \<Rightarrow> (D, Inl (KeyError ''onboarding run state was not found''))
         | Some s \<Rightarrow>
             let n = rs_captcha_prompts s + 1
             in (D\<lparr>db_states := (db_states D)(run \<mapsto>
                     s\<lparr>rs_phase_at_pause := Some p, rs_captcha_prompts := n\<rparr>)\<rparr>,
                 Inr \<lparr>cp_phase_at_pause = Some p, cp_prompts = n\<rparr>)))"

definition captcha_pause :: "phase_db \<Rightarrow> string \<Rightarrow> captcha_pause_row result" where
  "captcha_pause D run =
     bindR (run_identifier run) (\<lambda>_.
       (case db_states D run of
          None \<Rightarrow> Inl (KeyError ''onboarding run state was not found'')
        | Some s \<Rightarrow> Inr \<lparr>cp_phase_at_pause = rs_phase_at_pause s,
                          cp_prompts = rs_captcha_prompts s\<rparr>))"

definition admission_prompt_limit :: nat where
  "admission_prompt_limit = 1"

definition record_admission_prompt :: "phase_db \<Rightarrow> string \<Rightarrow> phase_db \<times> nat result" where
  "record_admission_prompt D run =
     (case run_identifier run of
        Inl e \<Rightarrow> (D, Inl e)
      | Inr _ \<Rightarrow>
        (case db_states D run of
           None \<Rightarrow> (D, Inr 0)
         | Some s \<Rightarrow>
             if rs_phase s = awaiting_admission \<and> rs_admission_prompts s = 0
             then (D\<lparr>db_states := (db_states D)(run \<mapsto>
                       s\<lparr>rs_admission_prompts := admission_prompt_limit\<rparr>)\<rparr>,
                   Inr admission_prompt_limit)
             else (D, Inr 0)))"

definition admission_prompts :: "phase_db \<Rightarrow> string \<Rightarrow> nat result" where
  "admission_prompts D run =
     bindR (run_identifier run) (\<lambda>_. read_generation D run Admission_Prompts)"

section \<open>What every operation keeps\<close>

text \<open>The history of a run is gapless from 1 in insertion order, holds no boundary twice
  and only legal, well-formed ones, and the state row projects its last boundary.\<close>

definition boundary_ok :: "phase_boundary \<Rightarrow> bool" where
  "boundary_ok b =
     (is_legal_phase_transition (pb_from b) (pb_to b) \<and>
      pb_reason b \<in> set onboarding_reason_codes \<and> length (pb_digest b) = 64 \<and> 0 \<le> pb_attempt b)"

definition boundary_key :: "phase_boundary \<Rightarrow> phase option \<times> phase \<times> int \<times> string" where
  "boundary_key b = (pb_from b, pb_to b, pb_attempt b, pb_correlation b)"

definition run_ok :: "phase_boundary list \<Rightarrow> run_state option \<Rightarrow> bool" where
  "run_ok h s =
     (map pb_sequence h = [1..<length h + 1] \<and> distinct (map boundary_key h) \<and>
      list_all boundary_ok h \<and>
      (case s of None \<Rightarrow> h = []
       | Some r \<Rightarrow> h \<noteq> [] \<and> rs_phase r = pb_to (last h) \<and> rs_digest r = pb_digest (last h)))"

definition db_ok :: "phase_db \<Rightarrow> bool" where
  "db_ok D = (\<forall>run. run_ok (db_history D run) (db_states D run))"

lemma empty_db_ok: "db_ok empty_db"
  by (simp add: db_ok_def run_ok_def empty_db_def)

lemma next_sequence_length: "map pb_sequence (db_history D run) = [1..<n + 1] \<Longrightarrow>
  next_sequence D run = n + 1"
proof -
  assume "map pb_sequence (db_history D run) = [1..<n + 1]"
  then have "pb_sequence ` set (db_history D run) = {1..n}"
    by (metis atLeastLessThanSuc_atLeastAtMost list.set_map set_upt Suc_eq_plus1)
  moreover have "Max (insert 0 {1..n}) = n"
    by (cases n) (auto intro!: Max_eqI)
  ultimately show ?thesis by (simp add: next_sequence_def)
qed

lemma run_ok_next: "run_ok (db_history D run) s \<Longrightarrow> next_sequence D run = length (db_history D run) + 1"
  by (rule next_sequence_length) (simp add: run_ok_def)

lemma violates_unique_iff:
  assumes "run_ok (db_history D run) s"
  shows "violates_unique D run c \<longleftrightarrow>
    (pc_from c, pc_to c, pc_attempt c, pc_correlation c) \<in> boundary_key ` set (db_history D run)"
proof -
  have "pb_sequence b \<noteq> next_sequence D run" if "b \<in> set (db_history D run)" for b
  proof -
    have "pb_sequence b \<in> set [1..<length (db_history D run) + 1]"
      using assms that unfolding run_ok_def by (metis image_eqI list.set_map)
    then show ?thesis using run_ok_next [OF assms] by auto
  qed
  then have "violates_unique D run c \<longleftrightarrow> (\<exists>b \<in> set (db_history D run). same_boundary c b)"
    by (auto simp: violates_unique_def)
  moreover have "same_boundary c b \<longleftrightarrow>
      (pc_from c, pc_to c, pc_attempt c, pc_correlation c) = boundary_key b" for b
    by (auto simp: same_boundary_def boundary_key_def)
  ultimately show ?thesis by (simp add: image_iff)
qed

definition commit_ok :: "phase_commit \<Rightarrow> bool" where
  "commit_ok c =
     (is_legal_phase_transition (pc_from c) (pc_to c) \<and>
      pc_reason c \<in> set onboarding_reason_codes \<and> length (pc_digest c) = 64 \<and> 0 \<le> pc_attempt c)"

lemma transition_check_Inr:
  "transition_check f t rc = Inr p \<longleftrightarrow> p = t \<and> is_legal_phase_transition f t"
  by (auto simp: transition_check_def validate_phase_transition_def)

lemma commit_check_ok: "commit_check run c = Inr u \<Longrightarrow> commit_ok c"
  by (auto simp: commit_check_def result_simps reason_code_check_def profile_digest_check_def
      attempt_check_def transition_check_Inr commit_ok_def split: if_splits)

lemma reserved_commit_check_ok: "reserved_commit_check run c k g = Inr u \<Longrightarrow> commit_ok c \<and> 0 \<le> g"
  by (auto simp: reserved_commit_check_def result_simps reason_code_check_def
      profile_digest_check_def attempt_check_def transition_check_Inr commit_ok_def
      split: if_splits)

lemma commit_boundary_cases:
  assumes "commit_boundary known D run c = (D', v)"
  obtains (replay) "v = Inr False" "D' = D" "violates_unique D run c"
  | (no_run) e where "v = Inl e" "D' = D" "\<not> known run"
  | (commit) "v = Inr True" "\<not> violates_unique D run c" "known run"
      "D' = D\<lparr>db_history := (db_history D)
              (run := db_history D run @ [boundary_of (next_sequence D run) c]),
           db_states := (db_states D)(run \<mapsto> upsert_state (db_states D run) c)\<rparr>"
  using assms by (auto simp: commit_boundary_def split: if_splits)

lemma run_ok_commit:
  assumes ok: "run_ok (db_history D run) s" and c: "commit_ok c" "\<not> violates_unique D run c"
  shows "run_ok (db_history D run @ [boundary_of (next_sequence D run) c]) (Some (upsert_state s c))"
proof -
  have "distinct (map boundary_key (db_history D run @ [boundary_of (next_sequence D run) c]))"
    using ok c(2) violates_unique_iff [OF ok, of c]
    by (auto simp: run_ok_def boundary_key_def boundary_of_def)
  then show ?thesis
    using ok c(1) run_ok_next [OF ok]
    by (auto simp: run_ok_def boundary_of_def boundary_ok_def commit_ok_def upsert_state_def
        split: option.splits)
qed

lemma commit_boundary_ok:
  assumes "db_ok D" "commit_ok c" "commit_boundary known D run c = (D', v)"
  shows "db_ok D'"
  using assms(3)
proof (cases rule: commit_boundary_cases)
  case commit
  then show ?thesis
    using assms(1,2) run_ok_commit [of D run "db_states D run" c] by (simp add: db_ok_def)
qed (use assms(1) in simp_all)

lemma commit_phase_ok: "db_ok D \<Longrightarrow> commit_phase known D run c = (D', v) \<Longrightarrow> db_ok D'"
  by (auto simp: commit_phase_def split: sum.splits
      dest: commit_check_ok intro: commit_boundary_ok)

text \<open>The reservation tables and the history tables do not touch one another.\<close>

definition same_phases :: "phase_db \<Rightarrow> phase_db \<Rightarrow> bool" where
  "same_phases D D' = (db_history D' = db_history D \<and> db_states D' = db_states D)"

lemma same_phases_ok: "same_phases D D' \<Longrightarrow> db_ok D' = db_ok D"
  by (simp add: same_phases_def db_ok_def)

lemma reserve_frame: "reserve_side_effect rd known D run key pr = (D', v) \<Longrightarrow> same_phases D D'"
  by (auto simp: reserve_side_effect_def same_phases_def split: if_splits option.splits)

lemma update_frame: "update_side_effect rd D run key st = (D', v) \<Longrightarrow> same_phases D D'"
  by (auto simp: update_side_effect_def same_phases_def split: option.splits)

lemma record_frame:
  "record_reservation rd known rdr jlen D run key e = (D', v) \<Longrightarrow>
   same_phases D D' \<and> db_intents D' = db_intents D"
  by (auto simp: record_reservation_def same_phases_def Let_def
      split: if_splits sum.splits)

lemma plan_for_intent_cong:
  "db_reservations D = db_reservations D' \<Longrightarrow>
   plan_for_intent rd D run key action st = plan_for_intent rd D' run key action st"
  by (simp add: plan_for_intent_def stored_receipt_def read_reservation_def)

text \<open>\<^theory_text>\<open>commit_phase_with_reservation\<close> either commits the boundary, leaves an open intent
  and a reservation row with the plan's disposition, or changes nothing.\<close>

lemma reserved_commit_cases:
  assumes "commit_phase_with_reservation rd known rdr jlen D run c action key g = (D', v)"
  obtains (unchanged) "D' = D" "\<forall>r. v = Inr r \<longrightarrow> \<not> rpc_committed r"
  | (committed) p D1 row where "v = Inr \<lparr>rpc_committed = True, rpc_plan = p\<rparr>"
      "commit_ok c" "commit_boundary known D run c = (D1, Inr True)" "same_phases D1 D'"
      "row = db_intents D (intent_key rd run key)"
      "plan_for_intent rd D run key action row = Inr p"
      "db_intents D' = (db_intents D)(intent_key rd run key \<mapsto>
         (if row = None \<or> row = Some Failed then Pending else the row))"
      "\<exists>e. read_reservation rd D' run key = Some e \<and> er_disposition e = plan_disposition p"
proof (cases "\<exists>r. v = Inr r \<and> rpc_committed r")
  case False
  then have "D' = D"
    using assms
    by (auto simp: commit_phase_with_reservation_def Let_def bindR_Inr_iff
        split: sum.splits prod.splits bool.splits)
  then show thesis using False unchanged by blast
next
  case True
  then obtain r where r: "v = Inr r" "rpc_committed r" by blast
  obtain u where u: "reserved_commit_check run c key g = Inr u"
    using assms r by (auto simp: commit_phase_with_reservation_def split: sum.splits)
  obtain D1 b where D1: "commit_boundary known D run c = (D1, b)" by (cases "commit_boundary known D run c")
  have b: "b = Inr True"
    using assms r u D1
    by (auto simp: commit_phase_with_reservation_def result_simps split: sum.splits bool.splits)
  obtain D2 w where D2: "reserve_side_effect rd known D1 run key effect_provider = (D2, w)"
    by (cases "reserve_side_effect rd known D1 run key effect_provider")
  obtain st fresh where w: "w = Inr (st, fresh)"
    using assms r u D1 b D2
    by (cases w) (auto simp: commit_phase_with_reservation_def)
  define row where "row = (if fresh then None else Some st)"
  obtain p where p: "plan_for_intent rd D2 run key action row = Inr p"
    using assms r u D1 b D2 w
    by (cases "plan_for_intent rd D2 run key action row")
       (auto simp: commit_phase_with_reservation_def row_def)
  define D3 where "D3 = (if row = Some Failed
                         then fst (update_side_effect rd D2 run key Pending) else D2)"
  let ?e = "\<lparr>er_effect = action, er_generation = g, er_phase = pc_to c,
      er_disposition = plan_disposition p, er_receipt = None, er_reason = plan_reason p\<rparr>"
  obtain D4 x where D4: "record_reservation rd known rdr jlen D3 run key ?e = (D4, x)"
    by (cases "record_reservation rd known rdr jlen D3 run key ?e")
  have run: "commit_phase_with_reservation rd known rdr jlen D run c action key g =
      (case x of Inl e \<Rightarrow> (D, Inl e) | Inr _ \<Rightarrow> (D4, Inr \<lparr>rpc_committed = True, rpc_plan = p\<rparr>))"
    using u D1 b D2 w p D4
    by (simp add: commit_phase_with_reservation_def row_def [symmetric] D3_def [symmetric]
        split: sum.splits)
  obtain e' where x: "x = Inr e'" and v: "v = Inr \<lparr>rpc_committed = True, rpc_plan = p\<rparr>" and D': "D' = D4"
    using run assms r by (cases x) auto
  have i1: "db_intents D1 = db_intents D" "db_reservations D1 = db_reservations D"
    using D1 b by (auto simp: commit_boundary_def split: if_splits)
  have i2: "row = db_intents D (intent_key rd run key)"
    "db_intents D2 = (db_intents D)(intent_key rd run key \<mapsto> (if row = None then Pending else the row))"
    "db_reservations D2 = db_reservations D1" "same_phases D1 D2"
    using D2 w i1 reserve_frame [OF D2]
    by (auto simp: reserve_side_effect_def row_def fun_upd_idem split: if_splits option.splits)
  have i3: "db_intents D3 = (db_intents D)(intent_key rd run key \<mapsto>
      (if row = None \<or> row = Some Failed then Pending else the row))"
    "same_phases D2 D3" "db_reservations D3 = db_reservations D2"
    using i2 by (auto simp: D3_def update_side_effect_def same_phases_def)
  have i4: "db_intents D4 = db_intents D3" "same_phases D3 D4"
    using record_frame [OF D4] by auto
  have pl: "plan_for_intent rd D run key action row = Inr p"
    using p plan_for_intent_cong [of D2 D] i1(2) i2(3) by simp
  have rr: "\<exists>e. read_reservation rd D' run key = Some e \<and> er_disposition e = plan_disposition p"
    using D4 x D'
    by (auto simp: record_reservation_def Let_def read_reservation_def AList.update_conv
        receipt_json_def split: if_splits option.splits)
  show thesis
    using committed [OF v _ _ _ i2(1) pl _ rr] D1 b i2(4) i3 i4 D' reserved_commit_check_ok [OF u]
    by (auto simp: same_phases_def)
qed

lemma complete_frame:
  "complete_effect_reservation rd known rdr jlen D run key rc = (D', v) \<Longrightarrow> same_phases D D'"
  using update_frame record_frame
  by (fastforce simp: complete_effect_reservation_def same_phases_def
      split: sum.splits option.splits prod.splits)

lemma mark_unknown_frame:
  "mark_reservation_unknown rd known rdr jlen D run key = (D', v) \<Longrightarrow> same_phases D D'"
  using update_frame record_frame
  by (fastforce simp: mark_reservation_unknown_def same_phases_def
      split: sum.splits option.splits prod.splits)

lemma reserved_commit_ok:
  assumes "db_ok D" "commit_phase_with_reservation rd known rdr jlen D run c a k g = (D', v)"
  shows "db_ok D'"
  using assms(2)
proof (cases rule: reserved_commit_cases)
  case (committed p D1 row)
  then show ?thesis
    using commit_boundary_ok [OF assms(1) committed(2,3)] same_phases_ok by blast
qed (use assms(1) in simp)

text \<open>A write of the state row that keeps the phase and the digest keeps the invariant.\<close>

lemma state_write_ok:
  assumes "db_ok D" "db_states D run = Some s" "rs_phase s' = rs_phase s" "rs_digest s' = rs_digest s"
  shows "db_ok (D\<lparr>db_states := (db_states D)(run \<mapsto> s')\<rparr>)"
  using assms by (auto simp: db_ok_def run_ok_def dest!: spec [of _ run] split: option.splits)

lemma write_counter_keeps:
  "rs_phase (write_counter c n s) = rs_phase s" "rs_digest (write_counter c n s) = rs_digest s"
  "read_counter c (write_counter c n s) = n"
  by (cases c; simp)+

lemma advance_counter_ok: "db_ok D \<Longrightarrow> advance_counter D run c = (D', v) \<Longrightarrow> db_ok D'"
  by (auto simp: advance_counter_def Let_def write_counter_keeps split: option.splits
      intro!: state_write_ok)

lemma captcha_pause_ok: "db_ok D \<Longrightarrow> record_captcha_pause D run p = (D', v) \<Longrightarrow> db_ok D'"
  by (auto simp: record_captcha_pause_def Let_def split: sum.splits option.splits
      intro!: state_write_ok)

lemma admission_prompt_ok: "db_ok D \<Longrightarrow> record_admission_prompt D run = (D', v) \<Longrightarrow> db_ok D'"
  by (auto simp: record_admission_prompt_def split: sum.splits option.splits if_splits
      intro!: state_write_ok)

inductive store_step ::
    "(string \<Rightarrow> string) \<Rightarrow> (string \<Rightarrow> bool) \<Rightarrow> (receipt \<Rightarrow> receipt) \<Rightarrow> (receipt \<Rightarrow> nat) \<Rightarrow>
     phase_db \<Rightarrow> phase_db \<Rightarrow> bool" for rd known rdr jlen where
  "commit_phase known D run c = (D', v1) \<Longrightarrow> store_step rd known rdr jlen D D'"
| "commit_phase_with_reservation rd known rdr jlen D run c a k g = (D', v2) \<Longrightarrow>
     store_step rd known rdr jlen D D'"
| "complete_effect_reservation rd known rdr jlen D run k rc = (D', v3) \<Longrightarrow>
     store_step rd known rdr jlen D D'"
| "mark_reservation_unknown rd known rdr jlen D run k = (D', v3) \<Longrightarrow>
     store_step rd known rdr jlen D D'"
| "update_side_effect rd D run k st = (D', v4) \<Longrightarrow> store_step rd known rdr jlen D D'"
| "next_generation D run eff = (D', v5) \<Longrightarrow> store_step rd known rdr jlen D D'"
| "next_validation_attempt D run = (D', v5) \<Longrightarrow> store_step rd known rdr jlen D D'"
| "next_verification_attempt D run = (D', v5) \<Longrightarrow> store_step rd known rdr jlen D D'"
| "record_captcha_pause D run p = (D', v6) \<Longrightarrow> store_step rd known rdr jlen D D'"
| "record_admission_prompt D run = (D', v5) \<Longrightarrow> store_step rd known rdr jlen D D'"

lemma store_step_ok: "store_step rd known rdr jlen D D' \<Longrightarrow> db_ok D \<Longrightarrow> db_ok D'"
proof (induction rule: store_step.induct)
  case (6 D run eff D' v5)
  then show ?case
    by (auto simp: next_generation_def split: sum.splits dest: advance_counter_ok)
next
  case (7 D run D' v5)
  then show ?case
    by (auto simp: next_validation_attempt_def split: sum.splits dest: advance_counter_ok)
next
  case (8 D run D' v5)
  then show ?case
    by (auto simp: next_verification_attempt_def split: sum.splits dest: advance_counter_ok)
qed (auto dest: commit_phase_ok reserved_commit_ok complete_frame mark_unknown_frame update_frame
     captcha_pause_ok admission_prompt_ok simp: same_phases_ok)

lemma reachable_ok: "(store_step rd known rdr jlen)\<^sup>*\<^sup>* empty_db D \<Longrightarrow> db_ok D"
  by (induction rule: rtranclp_induct) (auto simp: empty_db_ok store_step_ok)

lemma sort_key_upt:
  "map f xs = [m..<n] \<Longrightarrow> sort_key f xs = xs"
  by (metis sorted_upt sort_key_id_if_sorted)

section \<open>The store grants an effect at most once\<close>

type_synonym boundary_call = "string \<times> phase_commit \<times> onboarding_effect \<times> string \<times> int"

fun boundary_ident :: "(string \<Rightarrow> string) \<Rightarrow> boundary_call \<Rightarrow> (string \<times> string) option" where
  "boundary_ident rd (run, c, a, k, g) = Some (intent_key rd run k)"

definition intent_state ::
    "phase_db \<Rightarrow> string \<times> string \<Rightarrow> (effect_row_status \<times> receipt option) option" where
  "intent_state D k = map_option (\<lambda>st. (st, None)) (db_intents D k)"

text \<open>The reserving commit on one argument, and the answers that commit a boundary and hand out the
  execution of its effect.\<close>

fun commit_call ::
    "(string \<Rightarrow> string) \<Rightarrow> (string \<Rightarrow> bool) \<Rightarrow> (receipt \<Rightarrow> receipt) \<Rightarrow> (receipt \<Rightarrow> nat) \<Rightarrow>
     phase_db \<Rightarrow> boundary_call \<Rightarrow> phase_db \<times> reserved_phase_commit result" where
  "commit_call rd known rdr jlen D (run, c, a, k, g) = commit_phase_with_reservation rd known rdr jlen D run c a k g"

fun hands_out :: "reserved_phase_commit result \<Rightarrow> bool" where
  "hands_out (Inl e) = False"
| "hands_out (Inr r) = (rpc_committed r \<and> plan_disposition (rpc_plan r) = Execute)"

definition forget :: "phase_db \<times> 'a result \<Rightarrow> phase_db \<times> unit result" where
  "forget x = (fst x, bindR (snd x) (\<lambda>_. Inr ()))"

fun settle_boundary ::
    "(string \<Rightarrow> string) \<Rightarrow> (string \<Rightarrow> bool) \<Rightarrow> (receipt \<Rightarrow> receipt) \<Rightarrow> (receipt \<Rightarrow> nat) \<Rightarrow>
     phase_db \<Rightarrow> boundary_call \<Rightarrow> settlement \<Rightarrow> phase_db \<times> unit result" where
  "settle_boundary rd known rdr jlen D (run, c, a, k, g) (Settle_Completed r) =
     forget (complete_effect_reservation rd known rdr jlen D run k r)"
| "settle_boundary rd known rdr jlen D (run, c, a, k, g) (Settle_Reconciled r) =
     forget (complete_effect_reservation rd known rdr jlen D run k r)"
| "settle_boundary rd known rdr jlen D (run, c, a, k, g) Settle_Unknown =
     forget (mark_reservation_unknown rd known rdr jlen D run k)"
| "settle_boundary rd known rdr jlen D (run, c, a, k, g) Settle_Failed =
     update_side_effect rd D run k Failed"

lemma plan_execute_row:
  "plan_for_intent rd D run k a st = Inr p \<Longrightarrow>
   plan_disposition p = Execute \<longleftrightarrow> st = None \<or> st = Some Failed"
  by (auto simp: plan_for_intent_def plan_for_row_status_def make_plan_def Let_def split: if_splits)
     (metis effect_row_status.exhaust option.exhaust)+

lemma replayed_plan:
  assumes "commit_phase_with_reservation rd known rdr jlen D run c a k g = (D', Inr r)" "\<not> rpc_committed r"
  shows "D' = D \<and> (plan_disposition (rpc_plan r) = Execute \<longleftrightarrow> db_intents D (intent_key rd run k) \<in> {None, Some Failed})"
proof
  show "D' = D" using assms by (cases rule: reserved_commit_cases) auto
  have "standing_plan rd D run k a = Inr (rpc_plan r)"
    using assms
    by (auto simp: commit_phase_with_reservation_def Let_def bindR_Inr_iff split: sum.splits prod.splits bool.splits)
  then show "plan_disposition (rpc_plan r) = Execute \<longleftrightarrow> db_intents D (intent_key rd run k) \<in> {None, Some Failed}"
    using plan_execute_row [of rd D run k a] by (simp add: standing_plan_def)
qed

lemma intent_state_upd: "db_intents D' = (db_intents D)(k \<mapsto> st) \<Longrightarrow>
  intent_state D' = (intent_state D)(k \<mapsto> (st, None))"
  by (auto simp: intent_state_def fun_eq_iff)

lemma intent_state_eq: "db_intents D' = db_intents D \<Longrightarrow> intent_state D' = intent_state D"
  by (simp add: intent_state_def fun_eq_iff)

lemma commit_call_grant:
  assumes "commit_call rd known rdr jlen D q = (D', v)" "hands_out v"
  shows "\<exists>k. boundary_ident rd q = Some k \<and>
    (intent_state D k = None \<or> (\<exists>r. intent_state D k = Some (Failed, r))) \<and>
    intent_state D' = (intent_state D)(k \<mapsto> (Pending, None))"
proof -
  obtain run c a k g where q: "q = (run, c, a, k, g)" by (cases q) auto
  obtain r where r: "commit_phase_with_reservation rd known rdr jlen D run c a k g = (D', Inr r)"
    "rpc_committed r" "plan_disposition (rpc_plan r) = Execute"
    using assms q by (cases v) auto
  from r(1) show ?thesis
  proof (cases rule: reserved_commit_cases)
    case unchanged
    then show ?thesis using r by simp
  next
    case (committed p D1 row)
    then have "row = None \<or> row = Some Failed" using plan_execute_row r(3) by simp
    then have "db_intents D' = (db_intents D)(intent_key rd run k \<mapsto> Pending)"
      using committed(7) by auto
    then show ?thesis
      using intent_state_upd [of D' D] q committed(5) \<open>row = None \<or> row = Some Failed\<close>
      by (auto simp: intent_state_def)
  qed
qed

lemma commit_call_row:
  assumes "commit_call rd known rdr jlen D q = (D', v)" "\<not> hands_out v"
  shows "intent_state D' = intent_state D"
proof -
  obtain run c a k g where q: "q = (run, c, a, k, g)" by (cases q) auto
  have w: "commit_phase_with_reservation rd known rdr jlen D run c a k g = (D', v)"
    and nr: "\<forall>r. v = Inr r \<longrightarrow> rpc_committed r \<longrightarrow> plan_disposition (rpc_plan r) \<noteq> Execute"
    using assms q by auto
  from w show ?thesis
  proof (cases rule: reserved_commit_cases)
    case (committed p D1 row)
    then have "row \<noteq> None" "row \<noteq> Some Failed" using nr plan_execute_row by auto
    then have "db_intents D' = db_intents D" using committed(5,7) by (auto simp: fun_upd_idem)
    then show ?thesis by (rule intent_state_eq)
  qed simp
qed

lemma update_intents:
  "update_side_effect rd D run k st = (D', v) \<Longrightarrow>
   db_intents D' = db_intents D \<or> db_intents D' = (db_intents D)(intent_key rd run k \<mapsto> st)"
  by (auto simp: update_side_effect_def split: option.splits)

lemma complete_intents:
  "complete_effect_reservation rd known rdr jlen D run k rc = (D', v) \<Longrightarrow>
   db_intents D' = db_intents D \<or> db_intents D' = (db_intents D)(intent_key rd run k \<mapsto> Completed)"
  using update_intents record_frame
  by (fastforce simp: complete_effect_reservation_def
      split: sum.splits option.splits prod.splits)

lemma mark_unknown_intents:
  "mark_reservation_unknown rd known rdr jlen D run k = (D', v) \<Longrightarrow>
   db_intents D' = db_intents D \<or>
   db_intents D' = (db_intents D)(intent_key rd run k \<mapsto> Outcome_Unknown)"
  using update_intents record_frame
  by (fastforce simp: mark_reservation_unknown_def
      split: sum.splits option.splits prod.splits)

lemma settle_boundary_only:
  assumes "settle_boundary rd known rdr jlen D q c = (D', u)"
  shows "intent_state D' = intent_state D \<or>
    (\<exists>k st' r'. boundary_ident rd q = Some k \<and> intent_state D' = (intent_state D)(k \<mapsto> (st', r')) \<and>
       (st' = Failed \<longrightarrow> c = Settle_Failed))"
proof -
  obtain run cm a k g where q: "q = (run, cm, a, k, g)" by (cases q) auto
  have "db_intents D' = db_intents D \<or>
    (\<exists>st. db_intents D' = (db_intents D)(intent_key rd run k \<mapsto> st) \<and> (st = Failed \<longrightarrow> c = Settle_Failed))"
  proof (cases c)
    case (Settle_Completed rc)
    then have "D' = fst (complete_effect_reservation rd known rdr jlen D run k rc)"
      using assms q by (simp add: forget_def)
    then show ?thesis
      using complete_intents [OF surjective_pairing, of rd known rdr jlen D run k rc] by auto
  next
    case (Settle_Reconciled rc)
    then have "D' = fst (complete_effect_reservation rd known rdr jlen D run k rc)"
      using assms q by (simp add: forget_def)
    then show ?thesis
      using complete_intents [OF surjective_pairing, of rd known rdr jlen D run k rc] by auto
  next
    case Settle_Unknown
    then have "D' = fst (mark_reservation_unknown rd known rdr jlen D run k)"
      using assms q by (simp add: forget_def)
    then show ?thesis
      using mark_unknown_intents [OF surjective_pairing, of rd known rdr jlen D run k] by auto
  next
    case Settle_Failed
    then show ?thesis using assms q update_intents [of rd D run k Failed D' u] by auto
  qed
  then show ?thesis
  proof
    assume "db_intents D' = db_intents D"
    then show ?thesis by (intro disjI1 intent_state_eq)
  next
    assume "\<exists>st. db_intents D' = (db_intents D)(intent_key rd run k \<mapsto> st) \<and>
      (st = Failed \<longrightarrow> c = Settle_Failed)"
    then obtain st where "db_intents D' = (db_intents D)(intent_key rd run k \<mapsto> st)"
      "st = Failed \<longrightarrow> c = Settle_Failed" by blast
    then show ?thesis
      using intent_state_upd [of D' D "intent_key rd run k" st] q by auto
  qed
qed

interpretation boundaries: effect_grants "boundary_ident rd" intent_state
  "commit_call rd known rdr jlen" hands_out "settle_boundary rd known rdr jlen"
  for rd known rdr jlen
  by unfold_locales (fact commit_call_grant commit_call_row settle_boundary_only)+

section \<open>Properties\<close>

text \<open>C12. In every database reachable by any sequence of the store's methods the history of
  a run is gapless from 1, holds no boundary twice and only admitted transitions
  with closed reason codes, and its current phase is the phase of the state row.\<close>

theorem phase_history_invariant:
  "(store_step rd known rdr jlen)\<^sup>*\<^sup>* empty_db D \<Longrightarrow> identifier_ok 200 run \<Longrightarrow>
   \<exists>h. history D run = Inr h \<and> map pb_sequence h = [1..<length h + 1] \<and>
       distinct (map boundary_key h) \<and>
       (\<forall>b \<in> set h. is_legal_phase_transition (pb_from b) (pb_to b) \<and>
                    pb_reason b \<in> set onboarding_reason_codes) \<and>
       current_phase D run =
         Inr (case db_states D run of None \<Rightarrow> None
              | Some s \<Rightarrow> Some (rs_phase s, pb_attempt (last h)))"
proof -
  assume reach: "(store_step rd known rdr jlen)\<^sup>*\<^sup>* empty_db D" and id: "identifier_ok 200 run"
  have "db_ok D" by (rule reachable_ok [OF reach])
  then have ok: "run_ok (db_history D run) (db_states D run)" by (simp add: db_ok_def)
  have srt: "sort_key pb_sequence (db_history D run) = db_history D run"
    using ok unfolding run_ok_def by (intro sort_key_upt) blast
  have r: "run_identifier run = Inr run"
    using id by (simp add: run_identifier_def guard_simps)
  have h: "history D run = Inr (db_history D run)" using r srt by (simp add: history_def)
  have "current_phase D run =
      Inr (case db_states D run of None \<Rightarrow> None
           | Some s \<Rightarrow> Some (rs_phase s, pb_attempt (last (db_history D run))))"
    using ok unfolding current_phase_def r srt
    by (cases "db_history D run"; cases "db_states D run") (auto simp: run_ok_def Let_def)
  then show ?thesis
    using h ok by (auto simp: run_ok_def list_all_iff boundary_ok_def)
qed

text \<open>Replaying a committed boundary is a no-op: once a boundary was committed or
  recognised, committing it again with any reason code and profile digest the store
  accepts returns False and leaves the database as it is; and a call that returned
  False changed nothing.\<close>

theorem boundary_replay_is_noop:
  "commit_phase known D run c = (D1, Inr fresh) \<Longrightarrow> db_ok D \<Longrightarrow>
   pc_from c' = pc_from c \<Longrightarrow> pc_to c' = pc_to c \<Longrightarrow> pc_attempt c' = pc_attempt c \<Longrightarrow>
   pc_correlation c' = pc_correlation c \<Longrightarrow> commit_check run c' = Inr () \<Longrightarrow>
   commit_phase known D1 run c' = (D1, Inr False) \<and> (\<not> fresh \<longrightarrow> D1 = D) \<and>
   (fresh \<longrightarrow> db_history D1 = (db_history D)(run := db_history D run @
       [boundary_of (length (db_history D run) + 1) c]))"
proof -
  assume c: "commit_phase known D run c = (D1, Inr fresh)" and ok: "db_ok D"
    and same: "pc_from c' = pc_from c" "pc_to c' = pc_to c" "pc_attempt c' = pc_attempt c"
      "pc_correlation c' = pc_correlation c"
    and chk: "commit_check run c' = Inr ()"
  have ro: "run_ok (db_history D run) (db_states D run)" using ok by (simp add: db_ok_def)
  have cb: "commit_boundary known D run c = (D1, Inr fresh)"
    using c by (auto simp: commit_phase_def split: sum.splits)
  have sb: "same_boundary c' = same_boundary c" using same by (simp add: same_boundary_def fun_eq_iff)
  from cb show ?thesis
  proof (cases rule: commit_boundary_cases)
    case replay
    then have "violates_unique D1 run c'" using sb by (simp add: violates_unique_def)
    then show ?thesis using replay chk by (simp add: commit_phase_def commit_boundary_def)
  next
    case commit
    let ?b = "boundary_of (next_sequence D run) c"
    have b: "same_boundary c ?b" by (simp add: same_boundary_def boundary_of_def)
    have "?b \<in> set (db_history D1 run)" using commit(4) by simp
    with b sb have "\<exists>x \<in> set (db_history D1 run). same_boundary c' x" by auto
    then have "violates_unique D1 run c'" by (auto simp: violates_unique_def)
    then show ?thesis
      using commit chk run_ok_next [OF ro] by (simp add: commit_phase_def commit_boundary_def)
  qed auto
qed

text \<open>C40. Committing a boundary with its reservation is atomic: either the boundary is the
  new last one, the effect's intent is open or completed and a reservation row holds
  the disposition of the plan that is returned, or nothing changed at all.\<close>

theorem reserved_commit_is_atomic:
  "commit_phase_with_reservation rd known rdr jlen D run c action key g = (D', v) \<Longrightarrow>
   (D' = D \<and> (\<forall>r. v = Inr r \<longrightarrow> \<not> rpc_committed r)) \<or>
   (\<exists>p b. v = Inr \<lparr>rpc_committed = True, rpc_plan = p\<rparr> \<and>
      db_history D' run = db_history D run @ [b] \<and> pb_to b = pc_to c \<and> pb_from b = pc_from c \<and>
      (\<exists>st. db_intents D' (intent_key rd run key) = Some st \<and> st \<noteq> Failed) \<and>
      (\<exists>e. read_reservation rd D' run key = Some e \<and> er_disposition e = plan_disposition p))"
proof -
  assume "commit_phase_with_reservation rd known rdr jlen D run c action key g = (D', v)"
  then show ?thesis
  proof (cases rule: reserved_commit_cases)
    case (committed p D1 row)
    from committed(3) have "db_history D1 run = db_history D run @ [boundary_of (next_sequence D run) c]"
      by (cases rule: commit_boundary_cases) auto
    then have "db_history D' run = db_history D run @ [boundary_of (next_sequence D run) c]"
      using committed(4) by (simp add: same_phases_def)
    moreover have "\<exists>st. db_intents D' (intent_key rd run key) = Some st \<and> st \<noteq> Failed"
      using committed(7) by (cases row) auto
    ultimately show ?thesis using committed(1,8) by (auto simp: boundary_of_def)
  qed blast
qed

text \<open>C1. Over any sequence of reserving commits, completions, unknown outcomes and recorded
  failures, by any workers and for any boundaries, the commits that enter a boundary hand out an
  effect's execution at most once more than it was recorded as failed. The answer to a replayed
  boundary enters nothing and changes nothing; its plan reads execute exactly when the key has no
  intent row or a failed one.\<close>

theorem effect_executed_at_most_once:
  assumes "run_calls (commit_call rd known rdr jlen) (settle_boundary rd known rdr jlen) D calls = (D', out)"
    and "db_intents D k = None"
  shows "granted_count (boundary_ident rd) hands_out k out \<le> 1 + failures (boundary_ident rd) k calls \<and>
    (commit_call rd known rdr jlen D' (run, c, a, key, g) = (D'', Inr r) \<and> \<not> rpc_committed r \<longrightarrow>
       D'' = D' \<and> (plan_disposition (rpc_plan r) = Execute \<longleftrightarrow>
         db_intents D' (intent_key rd run key) \<in> {None, Some Failed}))"
proof
  show "granted_count (boundary_ident rd) hands_out k out \<le> 1 + failures (boundary_ident rd) k calls"
    using boundaries.grants_bound [OF assms(1), of k] by (auto split: if_splits)
  show "commit_call rd known rdr jlen D' (run, c, a, key, g) = (D'', Inr r) \<and> \<not> rpc_committed r \<longrightarrow>
      D'' = D' \<and> (plan_disposition (rpc_plan r) = Execute \<longleftrightarrow> db_intents D' (intent_key rd run key) \<in> {None, Some Failed})"
    using replayed_plan [of rd known rdr jlen D' run c a key g D'' r] by auto
qed

text \<open>The submission count of a key is 0 or 1, marking the outcome unknown or completing
  the effect never lowers it, and a plan to execute is returned only with a count
  that was 0 before the commit and is 1 after it.\<close>

theorem submission_count_arithmetic:
  "submission_count rd D run key = Inr n \<Longrightarrow>
   n \<le> 1 \<and>
   (\<forall>D' v. mark_reservation_unknown rd known rdr jlen D run key = (D', v) \<longrightarrow>
      (\<exists>m. submission_count rd D' run key = Inr m \<and> n \<le> m)) \<and>
   (\<forall>D' v rc. complete_effect_reservation rd known rdr jlen D run key rc = (D', v) \<longrightarrow>
      (\<exists>m. submission_count rd D' run key = Inr m \<and> n \<le> m)) \<and>
   (\<forall>D' p c a g. commit_phase_with_reservation rd known rdr jlen D run c a key g =
        (D', Inr \<lparr>rpc_committed = True, rpc_plan = p\<rparr>) \<longrightarrow> plan_disposition p = Execute \<longrightarrow>
      n = 0 \<and> submission_count rd D' run key = Inr 1)"
proof -
  assume n: "submission_count rd D run key = Inr n"
  have ids: "\<exists>u. run_identifier run = Inr u" "\<exists>u. key_check key = Inr u"
    using n by (auto simp: submission_count_def result_simps)
  have count: "submission_count rd E run key =
      Inr (case db_intents E (intent_key rd run key) of
              None \<Rightarrow> 0 | Some st \<Rightarrow> if st \<in> submitted_statuses then 1 else 0)" for E
    using ids by (auto simp: submission_count_def)
  have after: "\<exists>m. submission_count rd D' run key = Inr m \<and> n \<le> m"
    if "db_intents D' = db_intents D \<or> db_intents D' = (db_intents D)(intent_key rd run key \<mapsto> st)"
      and "st \<in> submitted_statuses" for D' st
    using that n count by (auto split: option.splits)
  have "n \<le> 1" using n count [of D] by (auto split: option.splits)
  moreover have "\<exists>m. submission_count rd D' run key = Inr m \<and> n \<le> m"
    if "mark_reservation_unknown rd known rdr jlen D run key = (D', v)" for D' v
    using after [OF mark_unknown_intents [OF that]] by (simp add: submitted_statuses_def)
  moreover have "\<exists>m. submission_count rd D' run key = Inr m \<and> n \<le> m"
    if "complete_effect_reservation rd known rdr jlen D run key rc = (D', v)" for D' v rc
    using after [OF complete_intents [OF that]] by (simp add: submitted_statuses_def)
  moreover {
    fix D' p c a g
    assume "commit_phase_with_reservation rd known rdr jlen D run c a key g =
        (D', Inr \<lparr>rpc_committed = True, rpc_plan = p\<rparr>)" and ex: "plan_disposition p = Execute"
    then have "n = 0 \<and> submission_count rd D' run key = Inr 1"
    proof (cases rule: reserved_commit_cases)
      case (committed p' D1 row)
      then have "row = None \<or> row = Some Failed" using plan_execute_row ex by simp
      then show ?thesis
        using committed(5,7) n count by (auto simp: submitted_statuses_def)
    qed auto
  }
  ultimately show ?thesis by blast
qed

text \<open>A replayed boundary presented with a key the store holds no row for is answered
  with a plan to execute although nothing was reserved: the count stays 0, so the
  answer of a replay does not by itself authorize a submission.\<close>

theorem replay_with_unreserved_key_plans_execution:
  "reserved_commit_check run c key g = Inr () \<Longrightarrow> violates_unique D run c \<Longrightarrow>
   db_intents D (intent_key rd run key) = None \<Longrightarrow>
   commit_phase_with_reservation rd known rdr jlen D run c action key g =
     (D, Inr \<lparr>rpc_committed = False, rpc_plan = make_plan key action Execute None\<rparr>) \<and>
   submission_count rd D run key = Inr 0"
proof -
  assume chk: "reserved_commit_check run c key g = Inr ()" and vio: "violates_unique D run c"
    and none: "db_intents D (intent_key rd run key) = None"
  have ids: "\<exists>u. run_identifier run = Inr u" "\<exists>u. key_check key = Inr u"
    using chk by (auto simp: reserved_commit_check_def result_simps)
  have "commit_boundary known D run c = (D, Inr False)" using vio by (simp add: commit_boundary_def)
  moreover have "standing_plan rd D run key action = Inr (make_plan key action Execute None)"
    using none by (simp add: standing_plan_def plan_for_intent_def plan_for_row_status_def)
  ultimately have "commit_phase_with_reservation rd known rdr jlen D run c action key g =
     (D, Inr \<lparr>rpc_committed = False, rpc_plan = make_plan key action Execute None\<rparr>)"
    using chk by (simp add: commit_phase_with_reservation_def)
  then show ?thesis using ids none by (auto simp: submission_count_def)
qed

definition prompted :: "phase_db \<Rightarrow> string \<Rightarrow> bool" where
  "prompted D run = (case db_states D run of None \<Rightarrow> False | Some s \<Rightarrow> rs_admission_prompts s \<noteq> 0)"

lemma same_phases_prompted: "same_phases D D' \<Longrightarrow> prompted D' run = prompted D run"
  by (simp add: same_phases_def prompted_def)

lemma commit_boundary_prompted:
  assumes "commit_boundary known D r c = (D', v)" "prompted D run"
  shows "prompted D' run"
  using assms(1) by (cases rule: commit_boundary_cases)
    (use assms(2) in \<open>auto simp: prompted_def upsert_state_def split: option.splits\<close>)

lemma advance_prompted: "advance_counter D r c = (D', v) \<Longrightarrow> prompted D run \<Longrightarrow> prompted D' run"
  by (cases c) (auto simp: advance_counter_def prompted_def Let_def split: option.splits if_splits)

lemma reserved_commit_prompted:
  assumes "commit_phase_with_reservation rd known rdr jlen D r c a k g = (D', v)" "prompted D run"
  shows "prompted D' run"
  using assms(1) by (cases rule: reserved_commit_cases)
    (use assms(2) commit_boundary_prompted same_phases_prompted in blast)+

lemma store_step_prompted:
  "store_step rd known rdr jlen D D' \<Longrightarrow> prompted D run \<Longrightarrow> prompted D' run"
proof (induction rule: store_step.induct)
  case (1 D r c D' v1)
  then show ?case by (auto simp: commit_phase_def split: sum.splits dest: commit_boundary_prompted)
next
  case (6 D r eff D' v5)
  then show ?case by (auto simp: next_generation_def split: sum.splits dest: advance_prompted)
next
  case (7 D r D' v5)
  then show ?case by (auto simp: next_validation_attempt_def split: sum.splits dest: advance_prompted)
next
  case (8 D r D' v5)
  then show ?case by (auto simp: next_verification_attempt_def split: sum.splits dest: advance_prompted)
next
  case (9 D r p D' v6)
  then show ?case
    by (auto simp: record_captcha_pause_def prompted_def Let_def
        split: sum.splits option.splits if_splits)
next
  case (10 D r D' v5)
  then show ?case
    by (auto simp: record_admission_prompt_def prompted_def admission_prompt_limit_def
        split: sum.splits option.splits if_splits)
qed (auto dest: reserved_commit_prompted complete_frame mark_unknown_frame update_frame
     simp: same_phases_prompted)

lemma store_steps_prompted:
  "(store_step rd known rdr jlen)\<^sup>*\<^sup>* D D' \<Longrightarrow> prompted D run \<Longrightarrow> prompted D' run"
  by (induction rule: rtranclp_induct) (auto intro: store_step_prompted)

text \<open>The admission prompt is authorized at most once in a run's life: it is granted only
  while the committed phase is awaiting_admission, and once granted no later call
  grants it again, whatever the store does in between.\<close>

theorem admission_prompt_at_most_once:
  "record_admission_prompt D run = (D1, Inr n) \<Longrightarrow> 0 < n \<Longrightarrow>
   (store_step rd known rdr jlen)\<^sup>*\<^sup>* D1 D2 \<Longrightarrow>
   n = 1 \<and> (\<exists>s. db_states D run = Some s \<and> rs_phase s = awaiting_admission) \<and>
   record_admission_prompt D2 run = (D2, Inr 0)"
proof -
  assume p: "record_admission_prompt D run = (D1, Inr n)" "0 < n"
    and steps: "(store_step rd known rdr jlen)\<^sup>*\<^sup>* D1 D2"
  obtain u where u: "run_identifier run = Inr u"
    using p by (auto simp: record_admission_prompt_def split: sum.splits)
  have g: "n = 1 \<and> (\<exists>s. db_states D run = Some s \<and> rs_phase s = awaiting_admission) \<and> prompted D1 run"
    using p u by (auto simp: record_admission_prompt_def prompted_def admission_prompt_limit_def
        split: option.splits if_splits)
  then have "prompted D2 run" using store_steps_prompted [OF steps] by blast
  then show ?thesis
    using g u by (auto simp: record_admission_prompt_def prompted_def split: option.splits)
qed

section \<open>Witnesses\<close>

definition all_runs :: "string \<Rightarrow> bool" where
  "all_runs r = True"

definition digest64 :: string where
  "digest64 = replicate 64 (CHR ''a'')"

definition first_commit :: phase_commit where
  "first_commit = \<lparr>pc_from = None, pc_to = research, pc_reason = ''lease_claimed'',
     pc_digest = digest64, pc_attempt = 0, pc_correlation = ''c1''\<rparr>"

definition second_commit :: phase_commit where
  "second_commit = \<lparr>pc_from = Some research, pc_to = vault_check,
     pc_reason = ''profile_corroborated'', pc_digest = digest64, pc_attempt = 0,
     pc_correlation = ''c2''\<rparr>"

definition db1 :: phase_db where
  "db1 = fst (commit_phase all_runs empty_db ''r1'' first_commit)"

lemma sample_identifiers:
  "run_identifier ''r1'' = Inr ''r1''" "key_check ''k1'' = Inr ''k1''"
  "store_identifier 64 ''correlation id is invalid'' ''c1'' = Inr ''c1''"
  "store_identifier 64 ''correlation id is invalid'' ''c2'' = Inr ''c2''"
  by code_simp+

lemma sample_commits_checked:
  "commit_check ''r1'' first_commit = Inr ()" "commit_check ''r1'' second_commit = Inr ()"
  "reserved_commit_check ''r1'' first_commit ''k1'' 0 = Inr ()"
  "reserved_commit_check ''r1'' second_commit ''k1'' 0 = Inr ()"
  by (simp_all add: commit_check_def reserved_commit_check_def sample_identifiers
      first_commit_def second_commit_def reason_code_check_def onboarding_reason_codes_def
      profile_digest_check_def digest64_def attempt_check_def transition_check_def
      validate_phase_transition_def initial_phase_def guardR_def)

lemma first_commit_commits: "commit_phase all_runs empty_db ''r1'' first_commit = (db1, Inr True)"
  using sample_commits_checked(1)
  by (simp add: db1_def commit_phase_def commit_boundary_def violates_unique_def empty_db_def
      all_runs_def)

lemma db1_ok: "db_ok db1"
  by (rule commit_phase_ok [OF empty_db_ok first_commit_commits])

lemma phase_history_invariant_witness:
  "\<exists>h. history db1 ''r1'' = Inr h \<and> map pb_sequence h = [1..<length h + 1]"
proof -
  have "(store_step id all_runs id length)\<^sup>*\<^sup>* empty_db db1"
    by (rule r_into_rtranclp) (rule store_step.intros(1) [OF first_commit_commits])
  moreover have "identifier_ok 200 ''r1''" by code_simp
  ultimately show ?thesis using phase_history_invariant by blast
qed

lemma boundary_replay_is_noop_witness:
  "commit_phase all_runs db1 ''r1'' (first_commit\<lparr>pc_reason := ''lease_expired_recovered''\<rparr>) =
     (db1, Inr False)"
proof -
  let ?c = "first_commit\<lparr>pc_reason := ''lease_expired_recovered''\<rparr>"
  have "commit_check ''r1'' ?c = Inr ()"
    by (simp add: commit_check_def sample_identifiers first_commit_def reason_code_check_def
        onboarding_reason_codes_def profile_digest_check_def digest64_def attempt_check_def
        transition_check_def validate_phase_transition_def initial_phase_def)
  then show ?thesis
    using boundary_replay_is_noop [OF first_commit_commits empty_db_ok, of ?c] by simp
qed

definition db2 :: phase_db where
  "db2 = fst (commit_phase_with_reservation id all_runs id length db1 ''r1'' second_commit
     signup_submit ''k1'' 0)"

lemma db1_fields:
  "db_history db1 ''r1'' = [boundary_of 1 first_commit]" "db_intents db1 = Map.empty"
  "db_reservations db1 = (\<lambda>_. [])"
  using sample_commits_checked(1)
  by (simp_all add: db1_def commit_phase_def commit_boundary_def violates_unique_def
      empty_db_def all_runs_def next_sequence_def)

lemma second_commit_commits:
  "commit_phase_with_reservation id all_runs id length db1 ''r1'' second_commit signup_submit ''k1'' 0
   = (db2, Inr \<lparr>rpc_committed = True, rpc_plan = make_plan ''k1'' signup_submit Execute None\<rparr>)"
proof -
  have "\<not> violates_unique db1 ''r1'' second_commit"
    by (simp add: violates_unique_def db1_fields next_sequence_def boundary_of_def
        same_boundary_def first_commit_def second_commit_def)
  then show ?thesis
    using sample_commits_checked(4) db1_fields
    by (simp add: db2_def commit_phase_with_reservation_def commit_boundary_def all_runs_def
        reserve_side_effect_def effect_provider_def plan_for_intent_def plan_for_row_status_def
        intent_key_def record_reservation_def receipt_json_def make_plan_def Let_def)
qed

lemma reserved_commit_is_atomic_witness:
  "\<exists>st. db_intents db2 (intent_key id ''r1'' ''k1'') = Some st \<and> st \<noteq> Failed"
  using reserved_commit_is_atomic [OF second_commit_commits] by auto

lemma effect_executed_at_most_once_witness:
  "granted_count (boundary_ident id) hands_out (''r1'', ''k1'')
     (snd (run_calls (commit_call id all_runs id length) (settle_boundary id all_runs id length) db1
        [Call_Reserve (''r1'', second_commit, signup_submit, ''k1'', 0),
         Call_Reserve (''r1'', second_commit, signup_submit, ''k1'', 0)])) \<le> 1 \<and>
   hands_out (snd (commit_call id all_runs id length db1 (''r1'', second_commit, signup_submit, ''k1'', 0)))"
  using effect_executed_at_most_once [OF surjective_pairing, of db1 "(''r1'', ''k1'')" id all_runs id length
      "[Call_Reserve (''r1'', second_commit, signup_submit, ''k1'', 0),
         Call_Reserve (''r1'', second_commit, signup_submit, ''k1'', 0)]"] db1_fields second_commit_commits
  by (simp add: make_plan_def)

lemma submission_count_arithmetic_witness:
  "submission_count id db1 ''r1'' ''k1'' = Inr 0 \<and> submission_count id db2 ''r1'' ''k1'' = Inr 1"
proof -
  have z: "submission_count id db1 ''r1'' ''k1'' = Inr 0"
    by (simp add: submission_count_def sample_identifiers db1_fields)
  have e: "plan_disposition (make_plan ''k1'' signup_submit Execute None) = Execute"
    by (simp add: make_plan_def)
  have "submission_count id db2 ''r1'' ''k1'' = Inr 1"
    using submission_count_arithmetic [OF z] second_commit_commits e by blast
  with z show ?thesis by simp
qed

lemma replay_with_unreserved_key_plans_execution_witness:
  "snd (commit_phase_with_reservation id all_runs id length db1 ''r1'' first_commit
      signup_submit ''k1'' 0)
   = Inr \<lparr>rpc_committed = False, rpc_plan = make_plan ''k1'' signup_submit Execute None\<rparr>"
proof -
  have "violates_unique db1 ''r1'' first_commit"
    by (simp add: violates_unique_def db1_fields boundary_of_def same_boundary_def)
  then show ?thesis
    using replay_with_unreserved_key_plans_execution [OF sample_commits_checked(3)] db1_fields
    by simp
qed

lemma admission_prompt_at_most_once_witness:
  "let D = db1\<lparr>db_states := [''r1'' \<mapsto> \<lparr>rs_phase = awaiting_admission, rs_phase_at_pause = None,
             rs_digest = digest64, rs_account_ref = [], rs_generation = 0, rs_verification = 0,
             rs_validation = 0, rs_captcha_prompts = 0, rs_admission_prompts = 0\<rparr>]\<rparr>
   in snd (record_admission_prompt D ''r1'') = Inr 1 \<and>
      snd (record_admission_prompt (fst (record_admission_prompt D ''r1'')) ''r1'') = Inr 0"
proof -
  let ?D = "db1\<lparr>db_states := [''r1'' \<mapsto> \<lparr>rs_phase = awaiting_admission, rs_phase_at_pause = None,
             rs_digest = digest64, rs_account_ref = [], rs_generation = 0, rs_verification = 0,
             rs_validation = 0, rs_captcha_prompts = 0, rs_admission_prompts = 0\<rparr>]\<rparr>"
  obtain D1 where p: "record_admission_prompt ?D ''r1'' = (D1, Inr 1)"
    by (simp add: record_admission_prompt_def sample_identifiers admission_prompt_limit_def)
  show ?thesis
    using admission_prompt_at_most_once [OF p _ rtranclp.rtrancl_refl] p
    by (simp add: Let_def)
qed

end
