(* ===== verification/Host_Policy.thy ===== *)
theory Host_Policy
  imports Url
begin

text \<open>
  Where the browser may go: \<^theory_text>\<open>ops/browser/host_policy.py\<close>. The registrable domain of a
  host, the policy a reviewed recipe or the app's own agreeing addresses give, the
  flat pattern list it crosses the RPC boundary as, and the one navigation check.

  The recipe catalog and the researched overlays are arguments (a lookup by slug
  and an overlay of a recipe); \<^theory_text>\<open>discovery\<close> is the settings flag. Host names are
  ASCII, so \<^theory_text>\<open>casefold\<close> is \<^theory_text>\<open>lower\<close>.
\<close>

section \<open>Recipes\<close>

text \<open>The fields of a recipe the modelled code reads.\<close>

record browser_recipe =
  br_exact_hosts :: "string list"
  br_identity_provider_hosts :: "string list"
  br_post_auth_hosts :: "string list"
  br_entry_submit_implies_legal_acceptance :: "bool option"

record app_recipe =
  rc_app_slug :: string
  rc_app_name :: string
  rc_route_kind :: string
  rc_browser :: "browser_recipe option"

definition get_app_recipe ::
    "(string \<Rightarrow> app_recipe option) \<Rightarrow> (app_recipe \<Rightarrow> app_recipe option) \<Rightarrow> string \<Rightarrow>
     app_recipe option" where
  "get_app_recipe by_slug overlay_for app_slug =
     (case by_slug (lower (strip app_slug)) of
        None \<Rightarrow> None
      | Some reviewed \<Rightarrow>
          Some (case overlay_for reviewed of None \<Rightarrow> reviewed | Some ov \<Rightarrow> ov))"

section \<open>The registrable domain\<close>

definition browser_routes :: "string set" where
  "browser_routes = {''self_serve'', ''hybrid''}"

definition browser_route_kinds :: "string set" where
  "browser_route_kinds = {''playwright'', ''managed_key''}"

definition multi_label_suffixes :: "string list" where
  "multi_label_suffixes =
     [''co.uk'', ''org.uk'', ''ac.uk'', ''co.jp'', ''co.nz'', ''co.za'', ''co.in'', ''com.au'',
      ''com.br'', ''com.sg'', ''com.mx'', ''com.tr'']"

definition registry_category_labels :: "string list" where
  "registry_category_labels =
     [''ac'', ''co'', ''com'', ''edu'', ''gob'', ''gov'', ''govt'', ''gr'', ''lg'', ''mil'', ''ne'', ''net'',
      ''nom'', ''or'', ''org'', ''sch'']"

definition max_allowed_host_patterns :: nat where
  "max_allowed_host_patterns = 32"

definition is_public_suffix_pair :: "string \<Rightarrow> string \<Rightarrow> bool" where
  "is_public_suffix_pair second_level tld =
     (second_level @ ''.'' @ tld \<in> set multi_label_suffixes \<or>
      (length tld = 2 \<and> second_level \<in> set registry_category_labels))"

definition fold_host :: "string \<Rightarrow> string" where
  "fold_host h = lower (rstrip_chr (CHR ''.'') h)"

definition last_labels :: "nat \<Rightarrow> string list \<Rightarrow> string list" where
  "last_labels n ls = drop (length ls - n) ls"

definition registrable_domain :: "string \<Rightarrow> string option" where
  "registrable_domain name =
     (let host = fold_host (strip name)
      in if host = [] \<or> CHR ''/'' \<in> set host \<or> CHR '':'' \<in> set host then None
         else let labels = split_chr (CHR ''.'') host
              in if length labels < 2 \<or> [] \<in> set labels then None
                 else if 3 \<le> length labels \<and>
                         is_public_suffix_pair (labels ! (length labels - 2)) (last labels)
                      then Some (join_chr (CHR ''.'') (last_labels 3 labels))
                      else Some (join_chr (CHR ''.'') (last_labels 2 labels)))"

section \<open>Policies\<close>

record browser_host_policy =
  hp_app_slug :: string
  hp_active :: bool
  hp_exact_hosts :: "string list"
  hp_vendor_wildcard_domains :: "string list"
  hp_identity_provider_hosts :: "string list"
  hp_post_auth_hosts :: "string list"

record browser_allowed_hosts =
  ah_app_slug :: string
  ah_exact_hosts :: "string list"
  ah_vendor_wildcard_domains :: "string list"

definition patterns :: "browser_allowed_hosts \<Rightarrow> string list" where
  "patterns a = ah_exact_hosts a @ map (\<lambda>d. ''*.'' @ d) (ah_vendor_wildcard_domains a)"

record browser_host_decision =
  hd_allowed :: bool
  hd_current_url :: string
  hd_blocked_hostname :: "string option"
  hd_allowed_hosts :: "string list"
  hd_reason_code :: string
  hd_backend_policy_update_required :: bool

definition browser_policy_from_recipe :: "app_recipe \<Rightarrow> browser_host_policy option" where
  "browser_policy_from_recipe recipe =
     (if rc_route_kind recipe \<notin> browser_route_kinds then None
      else (case rc_browser recipe of
          None \<Rightarrow> Some \<lparr>hp_app_slug = rc_app_slug recipe, hp_active = False, hp_exact_hosts = [],
                       hp_vendor_wildcard_domains = [], hp_identity_provider_hosts = [],
                       hp_post_auth_hosts = []\<rparr>
        | Some b \<Rightarrow> Some \<lparr>hp_app_slug = rc_app_slug recipe, hp_active = True,
                       hp_exact_hosts = br_exact_hosts b, hp_vendor_wildcard_domains = [],
                       hp_identity_provider_hosts = br_identity_provider_hosts b,
                       hp_post_auth_hosts = br_post_auth_hosts b\<rparr>))"

definition get_browser_policy ::
    "(string \<Rightarrow> app_recipe option) \<Rightarrow> string \<Rightarrow> browser_host_policy option" where
  "get_browser_policy lookup app_slug =
     (case lookup app_slug of None \<Rightarrow> None | Some r \<Rightarrow> browser_policy_from_recipe r)"

text \<open>\<^theory_text>\<open>dict.fromkeys\<close>: the first of equal entries stays.\<close>

fun first_occurrences :: "string list \<Rightarrow> string list" where
  "first_occurrences [] = []"
| "first_occurrences (x # xs) = x # filter (\<lambda>y. y \<noteq> x) (first_occurrences xs)"

definition allowed_from_policy ::
    "string \<Rightarrow> browser_host_policy \<Rightarrow> browser_allowed_hosts" where
  "allowed_from_policy app_slug policy =
     \<lparr>ah_app_slug = app_slug,
      ah_exact_hosts = first_occurrences (hp_exact_hosts policy @
        hp_identity_provider_hosts policy @ hp_post_auth_hosts policy),
      ah_vendor_wildcard_domains = hp_vendor_wildcard_domains policy\<rparr>"

definition allowed_hosts_from_recipe :: "app_recipe \<Rightarrow> browser_allowed_hosts option" where
  "allowed_hosts_from_recipe recipe =
     (case browser_policy_from_recipe recipe of
        None \<Rightarrow> None
      | Some policy \<Rightarrow> if \<not> hp_active policy then None
                       else Some (allowed_from_policy (rc_app_slug recipe) policy))"

record research_urls =
  ru_login_url :: "string option"
  ru_signup_url :: "string option"
  ru_credential_management_url :: "string option"
  ru_developer_portal_url :: "string option"

definition navigation_target_urls :: "research_urls \<Rightarrow> string list" where
  "navigation_target_urls r =
     map the (filter truthy [ru_login_url r, ru_signup_url r, ru_credential_management_url r,
       ru_developer_portal_url r])"

text \<open>The loop of \<^theory_text>\<open>discovered_policy_from_research\<close>: the registrable domains of the
  https candidates, without repetition.\<close>

fun discovered_domains :: "(string \<Rightarrow> bool) \<Rightarrow> string list \<Rightarrow> string list result" where
  "discovered_domains v6 [] = Inr []"
| "discovered_domains v6 (url # urls) =
     bindR (urlsplit v6 url) (\<lambda>u.
     bindR (discovered_domains v6 urls) (\<lambda>ds.
       if scheme u \<noteq> ''https'' \<or> \<not> truthy (hostname u) then Inr ds
       else (case registrable_domain (the (hostname u)) of
               None \<Rightarrow> Inr ds
             | Some d \<Rightarrow> Inr (if d \<in> set ds then ds else d # ds))))"

definition discovered_policy_from_research ::
    "(string \<Rightarrow> bool) \<Rightarrow> string \<Rightarrow> research_urls \<Rightarrow> browser_host_policy option result" where
  "discovered_policy_from_research v6 app_slug research =
     bindR (discovered_domains v6 (navigation_target_urls research)) (\<lambda>ds.
       case ds of
         [d] \<Rightarrow> Inr (Some \<lparr>hp_app_slug = app_slug, hp_active = True, hp_exact_hosts = [d],
                   hp_vendor_wildcard_domains = [d], hp_identity_provider_hosts = [],
                   hp_post_auth_hosts = []\<rparr>)
       | _ \<Rightarrow> Inr None)"

definition build_browser_allowed_hosts ::
    "(string \<Rightarrow> bool) \<Rightarrow> (string \<Rightarrow> app_recipe option) \<Rightarrow> string \<Rightarrow> research_urls \<Rightarrow>
     string option \<Rightarrow> app_recipe option \<Rightarrow> bool \<Rightarrow> browser_allowed_hosts result" where
  "build_browser_allowed_hosts v6 lookup app_slug research access_route recipe discovery =
     (if access_route \<noteq> None \<and> the access_route \<notin> browser_routes
      then Inl (BrowserPolicyInactiveError app_slug ''route_is_not_a_browser_route'')
      else if recipe \<noteq> None \<and> rc_app_slug (the recipe) \<noteq> app_slug
      then Inl (BrowserPolicyInactiveError app_slug ''immutable_recipe_app_mismatch'')
      else bindR
        (case (case recipe of Some r \<Rightarrow> browser_policy_from_recipe r
                            | None \<Rightarrow> get_browser_policy lookup app_slug) of
           Some policy \<Rightarrow> Inr policy
         | None \<Rightarrow>
             if \<not> discovery
             then Inl (BrowserPolicyInactiveError app_slug ''reviewed_browser_policy_required'')
             else bindR (discovered_policy_from_research v6 app_slug research) (\<lambda>p.
                    case p of
                      None \<Rightarrow> Inl (BrowserPolicyInactiveError app_slug ''discovery_domain_unproven'')
                    | Some policy \<Rightarrow> Inr policy))
        (\<lambda>policy.
           if \<not> hp_active policy
           then Inl (BrowserPolicyInactiveError app_slug ''browser_policy_inactive_for_app'')
           else Inr (allowed_from_policy app_slug policy)))"

section \<open>The serialized allow-list\<close>

definition host_alnum :: "char \<Rightarrow> bool" where
  "host_alnum c = (is_lower_alpha c \<or> is_digit c)"

definition host_label_ok :: "string \<Rightarrow> bool" where
  "host_label_ok l =
     (l \<noteq> [] \<and> list_all (\<lambda>c. host_alnum c \<or> c = CHR ''-'') l \<and> host_alnum (hd l) \<and>
      host_alnum (last l))"

definition is_wildcard :: "string \<Rightarrow> bool" where
  "is_wildcard p = starts_with ''*.'' p"

definition allowed_host_pattern :: "string \<Rightarrow> bool" where
  "allowed_host_pattern p =
     (let labels = split_chr (CHR ''.'') (if is_wildcard p then drop 2 p else p)
      in 2 \<le> length labels \<and> list_all host_label_ok labels)"

definition fold_pattern :: "string \<Rightarrow> string" where
  "fold_pattern raw = fold_host (strip raw)"

text \<open>The loop: \<^theory_text>\<open>seen\<close>, \<^theory_text>\<open>exact_hosts\<close> and \<^theory_text>\<open>wildcard_domains\<close> as they
  stand before an entry.\<close>

fun read_patterns ::
    "string list \<Rightarrow> string list \<Rightarrow> string list \<Rightarrow> string list \<Rightarrow>
     (string list \<times> string list) result" where
  "read_patterns seen exact wild [] = Inr (exact, wild)"
| "read_patterns seen exact wild (raw # rest) =
     (let pattern = fold_pattern raw
      in if pattern \<in> set seen then read_patterns seen exact wild rest
         else if max_allowed_host_patterns < length (pattern # seen)
         then Inl (ValueError ''allow-list is larger than the reviewed bound'')
         else if \<not> allowed_host_pattern pattern
         then Inl (ValueError ''allow-list pattern is malformed'')
         else if is_wildcard pattern then
           (let domain = drop 2 pattern
            in if registrable_domain domain \<noteq> Some domain \<or> domain \<in> set multi_label_suffixes
               then Inl (ValueError ''wildcard is wider than one registrable domain'')
               else read_patterns (pattern # seen) exact (wild @ [domain]) rest)
         else if registrable_domain pattern = None
         then Inl (ValueError ''exact host has no registrable domain'')
         else read_patterns (pattern # seen) (exact @ [pattern]) wild rest)"

definition allowed_hosts_from_patterns ::
    "string \<Rightarrow> string list \<Rightarrow> browser_allowed_hosts result" where
  "allowed_hosts_from_patterns app_slug ps =
     bindR (read_patterns [] [] [] ps) (\<lambda>(exact, wild).
       if exact = [] \<and> wild = [] then Inl (ValueError ''allow-list is empty'')
       else Inr \<lparr>ah_app_slug = app_slug, ah_exact_hosts = exact,
                 ah_vendor_wildcard_domains = wild\<rparr>)"

section \<open>The navigation check\<close>

definition pattern_matches :: "string \<Rightarrow> string \<Rightarrow> bool" where
  "pattern_matches host pattern =
     (if is_wildcard pattern
      then host \<noteq> drop 2 pattern \<and> ends_with (CHR ''.'' # drop 2 pattern) host
      else host = pattern)"

definition host_matches_patterns :: "string \<Rightarrow> string list \<Rightarrow> bool" where
  "host_matches_patterns name ps = list_ex (pattern_matches (fold_host name)) ps"

definition evaluate_navigation ::
    "(string \<Rightarrow> bool) \<Rightarrow> string \<Rightarrow> browser_allowed_hosts \<Rightarrow> browser_host_decision result" where
  "evaluate_navigation v6 url allowed =
     bindR (urlsplit v6 url) (\<lambda>parsed.
       if scheme parsed \<noteq> ''https'' \<or> \<not> truthy (hostname parsed) \<or> truthy (username parsed) \<or>
          truthy (password parsed)
       then Inr \<lparr>hd_allowed = False, hd_current_url = url, hd_blocked_hostname = hostname parsed,
                 hd_allowed_hosts = patterns allowed,
                 hd_reason_code = ''browser_url_not_https_or_malformed'',
                 hd_backend_policy_update_required = False\<rparr>
       else
         let host = fold_host (the (hostname parsed))
         in if host_matches_patterns host (patterns allowed)
            then Inr \<lparr>hd_allowed = True, hd_current_url = url, hd_blocked_hostname = None,
                      hd_allowed_hosts = patterns allowed, hd_reason_code = ''host_in_app_policy'',
                      hd_backend_policy_update_required = False\<rparr>
            else Inr \<lparr>hd_allowed = False, hd_current_url = url, hd_blocked_hostname = Some host,
                      hd_allowed_hosts = patterns allowed,
                      hd_reason_code = ''browser_host_not_in_app_policy'',
                      hd_backend_policy_update_required = True\<rparr>)"

fun first_denied_navigation ::
    "(string \<Rightarrow> bool) \<Rightarrow> string list \<Rightarrow> browser_allowed_hosts \<Rightarrow>
     browser_host_decision option result" where
  "first_denied_navigation v6 [] allowed = Inr None"
| "first_denied_navigation v6 (url # urls) allowed =
     bindR (evaluate_navigation v6 url allowed) (\<lambda>d.
       if \<not> hd_allowed d then Inr (Some d) else first_denied_navigation v6 urls allowed)"

section \<open>Lemmas\<close>

lemma dot_fixed: "\<not> is_upper_alpha (CHR ''.'')" "\<not> is_lower_alpha (CHR ''.'')"
  by (simp_all add: is_upper_alpha_def is_lower_alpha_def)

lemma fold_host_idem [simp]: "fold_host (fold_host h) = fold_host h"
  by (simp add: fold_host_def rstrip_lower dot_fixed)

text \<open>Which hosts a list of patterns matches.\<close>

lemma pattern_matches_iff:
  "pattern_matches h p \<longleftrightarrow>
   (if is_wildcard p then \<exists>sub. h = sub @ CHR ''.'' # drop 2 p else h = p)"
  by (auto simp: pattern_matches_def ends_with_iff dest: arg_cong [where f = length])

lemma host_matches_patterns_iff:
  "host_matches_patterns h ps \<longleftrightarrow> (\<exists>p\<in>set ps. pattern_matches (fold_host h) p)"
  by (simp add: host_matches_patterns_def list_ex_iff)

lemma wildcard_pattern [simp]: "is_wildcard (CHR ''*'' # CHR ''.'' # d)"
  by (simp add: is_wildcard_def starts_with_def)

lemma evaluate_navigation_Inr:
  "evaluate_navigation v6 url allowed = Inr d \<Longrightarrow>
   hd_allowed d \<longleftrightarrow> (\<exists>u h. urlsplit v6 url = Inr u \<and> scheme u = ''https'' \<and> hostname u = Some h \<and>
     h \<noteq> [] \<and> \<not> truthy (username u) \<and> \<not> truthy (password u) \<and>
     host_matches_patterns h (patterns allowed))"
proof -
  assume e: "evaluate_navigation v6 url allowed = Inr d"
  then obtain u where u: "urlsplit v6 url = Inr u" by (auto simp: evaluate_navigation_def result_simps)
  let ?bad = "scheme u \<noteq> ''https'' \<or> \<not> truthy (hostname u) \<or> truthy (username u) \<or> truthy (password u)"
  have f: "host_matches_patterns (fold_host h) ps = host_matches_patterns h ps" for h ps
    by (simp add: host_matches_patterns_def)
  have "hd_allowed d \<longleftrightarrow> \<not> ?bad \<and> host_matches_patterns (the (hostname u)) (patterns allowed)"
    using e by (cases ?bad) (auto simp: evaluate_navigation_def u Let_def f split: if_splits)
  moreover have "truthy (hostname u) \<longleftrightarrow> (\<exists>h. hostname u = Some h \<and> h \<noteq> [])"
    by (auto simp: truthy_def split: option.splits)
  ultimately show ?thesis unfolding u by auto
qed

lemma evaluate_navigation_returns:
  "urlsplit v6 url = Inr u \<Longrightarrow> \<exists>d. evaluate_navigation v6 url allowed = Inr d"
  unfolding evaluate_navigation_def Let_def
  by (simp split: if_split)

section \<open>Transit of an allow-list\<close>

text \<open>A pattern the reader takes as it stands.\<close>

definition admissible :: "string \<Rightarrow> bool" where
  "admissible p =
     (allowed_host_pattern p \<and>
      (if is_wildcard p
       then registrable_domain (drop 2 p) = Some (drop 2 p) \<and> drop 2 p \<notin> set multi_label_suffixes
       else registrable_domain p \<noteq> None))"

lemma host_label_chars:
  "list_all host_label_ok ls \<Longrightarrow> ls \<noteq> [] \<Longrightarrow>
   list_all (\<lambda>c. host_alnum c \<or> c = CHR ''-'' \<or> c = CHR ''.'') (join_chr (CHR ''.'') ls) \<and>
   host_alnum (hd (join_chr (CHR ''.'') ls)) \<and> host_alnum (last (join_chr (CHR ''.'') ls)) \<and>
   join_chr (CHR ''.'') ls \<noteq> []"
proof -
  assume ok: "list_all host_label_ok ls" and ne: "ls \<noteq> []"
  have "hd ls \<in> set ls" "last ls \<in> set ls" using ne by simp_all
  then have "host_label_ok (hd ls)" "host_label_ok (last ls)" using ok by (auto simp: list_all_iff)
  then have e: "hd ls \<noteq> []" "last ls \<noteq> []" "host_alnum (hd (hd ls))" "host_alnum (last (last ls))"
    by (simp_all add: host_label_ok_def)
  have "\<forall>l\<in>set ls. \<forall>c\<in>set l. host_alnum c \<or> c = CHR ''-''"
    using ok by (simp add: list_all_iff host_label_ok_def)
  then have "list_all (\<lambda>c. host_alnum c \<or> c = CHR ''-'' \<or> c = CHR ''.'') (join_chr (CHR ''.'') ls)"
    unfolding list_all_iff using set_join_chr [of "CHR ''.''" ls] by blast
  moreover have "join_chr (CHR ''.'') ls \<noteq> []" using ne e(1) by (auto simp: join_chr_eq_Nil)
  ultimately show ?thesis using ne e by (simp add: hd_join_chr last_join_chr)
qed

lemma host_char_plain:
  "host_alnum c \<or> c = CHR ''-'' \<or> c = CHR ''.'' \<or> c = CHR ''*'' \<Longrightarrow>
   \<not> is_upper_alpha c \<and> \<not> is_space c"
  by (auto simp: host_alnum_def is_lower_alpha_def is_digit_def is_upper_alpha_def is_space_def
      Let_def)

lemma fold_pattern_id:
  assumes "allowed_host_pattern p" shows "fold_pattern p = p"
proof -
  let ?b = "if is_wildcard p then drop 2 p else p"
  let ?ls = "split_chr (CHR ''.'') ?b"
  have ls: "list_all host_label_ok ?ls" using assms by (simp add: allowed_host_pattern_def Let_def)
  have b: "list_all (\<lambda>c. host_alnum c \<or> c = CHR ''-'' \<or> c = CHR ''.'') ?b" "host_alnum (hd ?b)"
    "host_alnum (last ?b)" "?b \<noteq> []"
    using host_label_chars [OF ls] by simp_all
  have p: "p = (if is_wildcard p then ''*.'' else []) @ ?b"
    by (auto simp: is_wildcard_def starts_with_iff)
  have chars: "list_all (\<lambda>c. host_alnum c \<or> c = CHR ''-'' \<or> c = CHR ''.'' \<or> c = CHR ''*'') p"
    using b(1) by (subst p) (auto simp: list_all_iff)
  have "p \<noteq> []" using b(4) p by auto
  moreover have "last p = last ?b" using b(4) by (subst p) simp
  ultimately have ends: "p \<noteq> []" "host_alnum (last p)" using b(3) by simp_all
  then have "strip p = p"
    using chars by (intro strip_idem_of_ends) (auto simp: list_all_iff dest!: host_char_plain)
  moreover have "rstrip_chr (CHR ''.'') p = p"
    using ends(2) by (intro rstrip_id) (auto simp: host_alnum_def is_lower_alpha_def is_digit_def)
  moreover have "lower p = p"
    using chars host_char_plain by (intro lower_id) (auto simp: list_all_iff)
  ultimately show ?thesis by (simp add: fold_pattern_def fold_host_def)
qed

definition reading :: "string list \<Rightarrow> string list \<Rightarrow> string list \<Rightarrow> bool" where
  "reading seen E W =
     (list_all (\<lambda>p. admissible p \<and> \<not> is_wildcard p) E \<and> list_all (\<lambda>d. admissible (''*.'' @ d)) W \<and>
      distinct E \<and> distinct W \<and> set E \<inter> set seen = {} \<and>
      (\<lambda>d. ''*.'' @ d) ` set W \<inter> set seen = {} \<and>
      length seen + length E + length W \<le> max_allowed_host_patterns)"

lemma reading_wild:
  "reading ((''*.'' @ d) # seen) E W \<Longrightarrow> admissible (''*.'' @ d) \<Longrightarrow> ''*.'' @ d \<notin> set seen \<Longrightarrow>
   reading seen E (d # W)"
  by (auto simp: reading_def)

lemma reading_exact:
  "reading (p # seen) E W \<Longrightarrow> admissible p \<Longrightarrow> \<not> is_wildcard p \<Longrightarrow> p \<notin> set seen \<Longrightarrow>
   reading seen (p # E) W"
  by (auto simp: reading_def)

lemma read_patterns_Inr:
  "read_patterns seen ex wd ps = Inr (E, W) \<Longrightarrow> length seen \<le> max_allowed_host_patterns \<Longrightarrow>
   \<exists>E' W'. E = ex @ E' \<and> W = wd @ W' \<and> reading seen E' W'"
proof (induction ps arbitrary: seen ex wd)
  case Nil
  then show ?case by (simp add: reading_def)
next
  case (Cons raw rest)
  let ?p = "fold_pattern raw"
  show ?case
  proof (cases "?p \<in> set seen")
    case True
    then show ?thesis using Cons by simp
  next
    case new: False
    have ok: "length (?p # seen) \<le> max_allowed_host_patterns" "allowed_host_pattern ?p"
      using Cons.prems(1) new by (auto simp: Let_def split: if_splits)
    show ?thesis
    proof (cases "is_wildcard ?p")
      case True
      have r: "read_patterns (?p # seen) ex (wd @ [drop 2 ?p]) rest = Inr (E, W)"
        and a: "admissible ?p"
        using Cons.prems(1) new True ok by (auto simp: Let_def admissible_def split: if_splits)
      have p: "?p = ''*.'' @ drop 2 ?p" using True by (auto simp: is_wildcard_def starts_with_iff)
      obtain E' W' where w: "E = ex @ E'" "W = (wd @ [drop 2 ?p]) @ W'" "reading (?p # seen) E' W'"
        using Cons.IH [OF r ok(1)] by blast
      have "reading seen E' (drop 2 ?p # W')" using w(3) a new p by (metis reading_wild)
      then show ?thesis using w(1,2) by auto
    next
      case False
      have r: "read_patterns (?p # seen) (ex @ [?p]) wd rest = Inr (E, W)" and a: "admissible ?p"
        using Cons.prems(1) new False ok by (auto simp: Let_def admissible_def split: if_splits)
      obtain E' W' where w: "E = (ex @ [?p]) @ E'" "W = wd @ W'" "reading (?p # seen) E' W'"
        using Cons.IH [OF r ok(1)] by blast
      have "reading seen (?p # E') W'" using w(3) a False new by (rule reading_exact)
      then show ?thesis using w(1,2) by auto
    qed
  qed
qed

lemma read_admissible:
  "list_all admissible ps \<Longrightarrow> distinct ps \<Longrightarrow> set ps \<inter> set seen = {} \<Longrightarrow>
   length seen + length ps \<le> max_allowed_host_patterns \<Longrightarrow>
   read_patterns seen ex wd ps =
     Inr (ex @ filter (\<lambda>p. \<not> is_wildcard p) ps, wd @ map (drop 2) (filter is_wildcard ps))"
proof (induction ps arbitrary: seen ex wd)
  case (Cons p ps)
  have f: "fold_pattern p = p" using Cons.prems(1) by (simp add: admissible_def fold_pattern_id)
  have "read_patterns (p # seen) ex' wd' ps =
     Inr (ex' @ filter (\<lambda>p. \<not> is_wildcard p) ps, wd' @ map (drop 2) (filter is_wildcard ps))" for ex' wd'
    using Cons.prems by (intro Cons.IH) auto
  then show ?case using Cons.prems f by (auto simp: admissible_def Let_def split: if_splits)
qed simp

lemma allowed_hosts_from_patterns_Inr:
  assumes "allowed_hosts_from_patterns slug ps = Inr a"
  shows "a = \<lparr>ah_app_slug = slug, ah_exact_hosts = ah_exact_hosts a,
      ah_vendor_wildcard_domains = ah_vendor_wildcard_domains a\<rparr>"
    "reading [] (ah_exact_hosts a) (ah_vendor_wildcard_domains a)" "patterns a \<noteq> []"
proof -
  obtain E W where r: "read_patterns [] [] [] ps = Inr (E, W)" "E \<noteq> [] \<or> W \<noteq> []"
    "a = \<lparr>ah_app_slug = slug, ah_exact_hosts = E, ah_vendor_wildcard_domains = W\<rparr>"
    using assms by (auto simp: allowed_hosts_from_patterns_def result_simps split: if_splits)
  have "reading [] E W" using read_patterns_Inr [OF r(1)] by simp
  then show "a = \<lparr>ah_app_slug = slug, ah_exact_hosts = ah_exact_hosts a,
      ah_vendor_wildcard_domains = ah_vendor_wildcard_domains a\<rparr>"
    "reading [] (ah_exact_hosts a) (ah_vendor_wildcard_domains a)" "patterns a \<noteq> []"
    using r(2,3) by (auto simp: patterns_def)
qed

section \<open>Discovery\<close>

definition target_domain :: "(string \<Rightarrow> bool) \<Rightarrow> string \<Rightarrow> string \<Rightarrow> bool" where
  "target_domain v6 url d =
     (\<exists>u h. urlsplit v6 url = Inr u \<and> scheme u = ''https'' \<and> hostname u = Some h \<and> h \<noteq> [] \<and>
            registrable_domain h = Some d)"

lemma discovered_domains_Inr:
  "discovered_domains v6 urls = Inr ds \<Longrightarrow>
   distinct ds \<and> set ds = {d. \<exists>url\<in>set urls. target_domain v6 url d}"
proof (induction urls arbitrary: ds)
  case (Cons url urls)
  obtain u es where u: "urlsplit v6 url = Inr u" "discovered_domains v6 urls = Inr es"
    "(if scheme u \<noteq> ''https'' \<or> \<not> truthy (hostname u) then Inr es
       else (case registrable_domain (the (hostname u)) of
               None \<Rightarrow> Inr es
             | Some d \<Rightarrow> Inr (if d \<in> set es then es else d # es))) = (Inr ds :: string list result)"
    using Cons.prems by (auto simp: result_simps)
  let ?t = "scheme u = ''https'' \<and> truthy (hostname u)"
  have t: "target_domain v6 url d \<longleftrightarrow> ?t \<and> registrable_domain (the (hostname u)) = Some d" for d
    by (auto simp: target_domain_def u(1) truthy_def split: option.splits)
  have "distinct ds \<and> set ds = set es \<union> {d. target_domain v6 url d}"
    unfolding t using u(3) Cons.IH [OF u(2)]
    by (cases ?t; cases "registrable_domain (the (hostname u))") (auto split: if_splits)
  then show ?case using Cons.IH [OF u(2)] by auto
qed simp

lemma last_labels_join:
  assumes "n \<le> length ls" "0 < n"
  shows "join_chr c ls = join_chr c (last_labels n ls) \<or>
    (\<exists>sub. join_chr c ls = sub @ c # join_chr c (last_labels n ls))"
proof (cases "length ls = n")
  case False
  have "ls \<noteq> []" "\<not> length ls \<le> length ls - n" using assms by auto
  then have "join_chr c ls =
      join_chr c (take (length ls - n) ls) @ c # join_chr c (last_labels n ls)"
    using join_chr_app [of "take (length ls - n) ls" "last_labels n ls" c] assms False
    by (simp add: last_labels_def)
  then show ?thesis by blast
qed (simp add: last_labels_def)

text \<open>A host lies at or below its registrable domain.\<close>

lemma registrable_domain_suffix:
  assumes "registrable_domain h = Some d"
  shows "fold_host (strip h) = d \<or> (\<exists>sub. fold_host (strip h) = sub @ CHR ''.'' # d)"
proof -
  let ?ls = "split_chr (CHR ''.'') (fold_host (strip h))"
  have "\<exists>n. n \<le> length ?ls \<and> 0 < n \<and> d = join_chr (CHR ''.'') (last_labels n ?ls)"
    using assms
    by (auto simp: registrable_domain_def Let_def not_less split: if_splits
        intro: exI [of _ 2] exI [of _ 3])
  then obtain n where n: "n \<le> length ?ls" "0 < n" "d = join_chr (CHR ''.'') (last_labels n ?ls)"
    by blast
  then show ?thesis using last_labels_join [OF n(1,2), of "CHR ''.''"] by simp
qed

lemma set_first_occurrences [simp]: "set (first_occurrences xs) = set xs"
  by (induction xs) auto

text \<open>The allow-list of an active recipe holds its three host lists.\<close>

lemma build_from_recipe:
  assumes "build_browser_allowed_hosts v6 lookup slug r route (Some rc) discovery = Inr a"
    "rc_route_kind rc \<in> browser_route_kinds" "rc_browser rc = Some b"
  shows "set (patterns a) = set (br_exact_hosts b) \<union> set (br_identity_provider_hosts b) \<union>
    set (br_post_auth_hosts b)"
  using assms
  by (auto simp: build_browser_allowed_hosts_def browser_policy_from_recipe_def
      allowed_from_policy_def patterns_def result_simps split: if_splits)

section \<open>Properties\<close>


text \<open>An allow-list survives its transit: whatever pattern list was admitted, the flat
  list of the result rebuilds exactly the same allow-list, holds at most 32 entries
  and is not empty, none of its exact hosts is a wildcard, and every wildcard domain is
  its own registrable domain outside the listed public suffixes.\<close>

theorem allow_list_transit:
  "allowed_hosts_from_patterns slug ps = Inr a \<Longrightarrow>
   allowed_hosts_from_patterns slug (patterns a) = Inr a \<and>
   patterns a \<noteq> [] \<and> length (patterns a) \<le> max_allowed_host_patterns \<and>
   (\<forall>e\<in>set (ah_exact_hosts a). \<not> is_wildcard e \<and> registrable_domain e \<noteq> None) \<and>
   (\<forall>w\<in>set (ah_vendor_wildcard_domains a).
      registrable_domain w = Some w \<and> w \<notin> set multi_label_suffixes)"
proof -
  assume a: "allowed_hosts_from_patterns slug ps = Inr a"
  let ?E = "ah_exact_hosts a" and ?W = "ah_vendor_wildcard_domains a"
  note r = allowed_hosts_from_patterns_Inr [OF a]
  have ok: "list_all admissible (patterns a)" "distinct (patterns a)"
    "length (patterns a) \<le> max_allowed_host_patterns"
    using r(2) by (auto simp: reading_def patterns_def list_all_iff distinct_map inj_on_def)
  have "filter (\<lambda>p. \<not> is_wildcard p) (patterns a) = ?E" "map (drop 2) (filter is_wildcard (patterns a)) = ?W"
    using r(2) by (auto simp: reading_def patterns_def list_all_iff filter_empty_conv filter_map
        comp_def filter_id_conv)
  then have "read_patterns [] [] [] (patterns a) = Inr (?E, ?W)"
    using read_admissible [OF ok(1,2), of "[]" "[]" "[]"] ok(3) by simp
  then have "allowed_hosts_from_patterns slug (patterns a) = Inr a"
    using r(1,3) by (auto simp: allowed_hosts_from_patterns_def patterns_def)
  then show ?thesis
    using r(2,3) ok(3) by (auto simp: reading_def list_all_iff admissible_def)
qed

text \<open>A discovered policy rests on one domain: every https navigation target of the
  research that has a registrable domain has this one, its host is admitted (where it
  carries no blanks at its ends), and, unless the domain itself reads as a wildcard,
  every admitted host is the domain or lies below it.\<close>

theorem discovery_single_domain:
  "discovered_policy_from_research v6 slug r = Inr (Some p) \<Longrightarrow>
   \<exists>dom. (\<forall>url\<in>set (navigation_target_urls r). \<forall>u h.
        urlsplit v6 url = Inr u \<and> scheme u = ''https'' \<and> hostname u = Some h \<and> h \<noteq> [] \<and>
        registrable_domain h \<noteq> None \<longrightarrow>
        registrable_domain h = Some dom \<and>
        (strip h = h \<and> \<not> is_wildcard dom \<longrightarrow>
         host_matches_patterns h (patterns (allowed_from_policy slug p)))) \<and>
     (\<forall>h. \<not> is_wildcard dom \<and> host_matches_patterns h (patterns (allowed_from_policy slug p)) \<longrightarrow>
        fold_host h = dom \<or> (\<exists>sub. fold_host h = sub @ ''.'' @ dom))"
proof -
  assume "discovered_policy_from_research v6 slug r = Inr (Some p)"
  then obtain ds where ds: "discovered_domains v6 (navigation_target_urls r) = Inr ds"
    "(case ds of
         [d] \<Rightarrow> Inr (Some \<lparr>hp_app_slug = slug, hp_active = True, hp_exact_hosts = [d],
                   hp_vendor_wildcard_domains = [d], hp_identity_provider_hosts = [],
                   hp_post_auth_hosts = []\<rparr>)
       | _ \<Rightarrow> Inr None) = (Inr (Some p) :: browser_host_policy option result)"
    by (auto simp: discovered_policy_from_research_def result_simps)
  then obtain dom where "ds = [dom]" by (cases ds rule: list.exhaust; cases "tl ds") auto
  then have d: "discovered_domains v6 (navigation_target_urls r) = Inr [dom]"
    "hp_exact_hosts p = [dom]" "hp_vendor_wildcard_domains p = [dom]"
    "hp_identity_provider_hosts p = []" "hp_post_auth_hosts p = []"
    using ds by auto
  have pat: "patterns (allowed_from_policy slug p) = [dom, ''*.'' @ dom]"
    by (simp add: patterns_def allowed_from_policy_def d)
  have m: "host_matches_patterns h [dom, ''*.'' @ dom] \<longleftrightarrow>
      fold_host h = dom \<or> (\<exists>sub. fold_host h = sub @ ''.'' @ dom)" if "\<not> is_wildcard dom" for h
    using that by (auto simp: host_matches_patterns_iff pattern_matches_iff)
  have "registrable_domain h = Some dom \<and>
      (strip h = h \<and> \<not> is_wildcard dom \<longrightarrow> host_matches_patterns h [dom, ''*.'' @ dom])"
    if t: "url \<in> set (navigation_target_urls r)" "urlsplit v6 url = Inr u" "scheme u = ''https''"
      "hostname u = Some h" "h \<noteq> []" "registrable_domain h \<noteq> None" for url u h
  proof -
    obtain e where e: "registrable_domain h = Some e" using t(6) by blast
    then have "target_domain v6 url e" using t by (auto simp: target_domain_def)
    then have "e \<in> set [dom]" using discovered_domains_Inr [OF d(1)] t(1) by blast
    then have "registrable_domain h = Some dom" using e by simp
    then show ?thesis using registrable_domain_suffix [of h dom] m [of h] by auto
  qed
  then show ?thesis unfolding pat using m by blast
qed

text \<open>Where an allow-list comes from: for a recipe of a browser route kind it is exactly
  the union of the three reviewed host lists, with no wildcard, whether or not
  discovery is on; any other allow-list was discovered, with discovery switched on,
  and the route, where one is given, is a browser route.\<close>

theorem allow_list_sources:
  "build_browser_allowed_hosts v6 lookup slug r route recipe discovery = Inr a \<Longrightarrow>
   (route = None \<or> the route \<in> browser_routes) \<and>
   (case (case recipe of Some rc \<Rightarrow> Some rc | None \<Rightarrow> lookup slug) of
      Some rc \<Rightarrow>
        (if rc_route_kind rc \<in> browser_route_kinds
         then (\<exists>b. rc_browser rc = Some b \<and> ah_vendor_wildcard_domains a = [] \<and>
                set (ah_exact_hosts a) = set (br_exact_hosts b) \<union>
                  set (br_identity_provider_hosts b) \<union> set (br_post_auth_hosts b))
         else discovery)
    | None \<Rightarrow> discovery)"
proof -
  assume b: "build_browser_allowed_hosts v6 lookup slug r route recipe discovery = Inr a"
  have occ: "set (first_occurrences xs) = set xs" for xs
    by (induction xs) auto
  have route: "route = None \<or> the route \<in> browser_routes"
    using b by (auto simp: build_browser_allowed_hosts_def split: if_splits)
  show ?thesis
  proof (cases "case recipe of Some rc \<Rightarrow> Some rc | None \<Rightarrow> lookup slug")
    case None
    then show ?thesis
      using b route by (auto simp: build_browser_allowed_hosts_def get_browser_policy_def
          result_simps split: if_splits option.splits)
  next
    case (Some rc)
    have p: "(case recipe of Some rc \<Rightarrow> browser_policy_from_recipe rc
        | None \<Rightarrow> get_browser_policy lookup slug) = browser_policy_from_recipe rc"
      using Some by (auto simp: get_browser_policy_def split: option.splits)
    show ?thesis
      using b route unfolding build_browser_allowed_hosts_def p Some
      by (cases "rc_browser rc")
         (auto simp: browser_policy_from_recipe_def allowed_from_policy_def result_simps occ
           split: if_splits)
  qed
qed

section \<open>Witnesses\<close>

definition no_v6 :: "string \<Rightarrow> bool" where
  "no_v6 s = False"

definition acme_hosts :: browser_allowed_hosts where
  "acme_hosts = \<lparr>ah_app_slug = ''acme'', ah_exact_hosts = [''acme.com''],
     ah_vendor_wildcard_domains = [''acme.com'']\<rparr>"

definition acme_research :: research_urls where
  "acme_research = \<lparr>ru_login_url = Some ''https://app.acme.com/login'',
     ru_signup_url = Some ''https://acme.com/signup'', ru_credential_management_url = None,
     ru_developer_portal_url = Some ''http://other.org''\<rparr>"

lemma acme_navigation:
  "evaluate_navigation no_v6 ''https://app.acme.com/login'' acme_hosts =
     Inr \<lparr>hd_allowed = True, hd_current_url = ''https://app.acme.com/login'',
          hd_blocked_hostname = None, hd_allowed_hosts = patterns acme_hosts,
          hd_reason_code = ''host_in_app_policy'', hd_backend_policy_update_required = False\<rparr>"
  by code_simp


lemma acme_patterns:
  "allowed_hosts_from_patterns ''acme'' [''Acme.com.'', ''acme.com'', ''*.acme.com''] = Inr acme_hosts"
  by code_simp

lemma allow_list_transit_witness:
  "allowed_hosts_from_patterns ''acme'' (patterns acme_hosts) = Inr acme_hosts"
  using allow_list_transit [OF acme_patterns] by blast

lemma acme_discovered:
  "discovered_policy_from_research no_v6 ''acme'' acme_research =
     Inr (Some \<lparr>hp_app_slug = ''acme'', hp_active = True, hp_exact_hosts = [''acme.com''],
                hp_vendor_wildcard_domains = [''acme.com''], hp_identity_provider_hosts = [],
                hp_post_auth_hosts = []\<rparr>)"
  by code_simp

lemma discovery_single_domain_witness:
  "\<exists>dom. registrable_domain ''app.acme.com'' = Some dom"
proof -
  have u: "urlsplit no_v6 ''https://app.acme.com/login'' = Inr \<lparr>scheme = ''https'',
      netloc = ''app.acme.com'', path = ''/login'', query = [], fragment = []\<rparr>"
    "hostname \<lparr>scheme = ''https'', netloc = ''app.acme.com'', path = ''/login'', query = [],
      fragment = []\<rparr> = Some ''app.acme.com''"
    "registrable_domain ''app.acme.com'' \<noteq> None"
    "''https://app.acme.com/login'' \<in> set (navigation_target_urls acme_research)"
    by code_simp+
  then show ?thesis using discovery_single_domain [OF acme_discovered] by fastforce
qed

definition acme_recipe :: app_recipe where
  "acme_recipe = \<lparr>rc_app_slug = ''acme'', rc_app_name = ''Acme'', rc_route_kind = ''playwright'',
     rc_browser = Some \<lparr>br_exact_hosts = [''acme.com''],
       br_identity_provider_hosts = [''accounts.google.com''],
       br_post_auth_hosts = [''console.acme.com''],
       br_entry_submit_implies_legal_acceptance = None\<rparr>\<rparr>"

lemma acme_built:
  "build_browser_allowed_hosts no_v6 (\<lambda>_. Some acme_recipe) ''acme'' acme_research
     (Some ''self_serve'') None True =
   Inr \<lparr>ah_app_slug = ''acme'',
        ah_exact_hosts = [''acme.com'', ''accounts.google.com'', ''console.acme.com''],
        ah_vendor_wildcard_domains = []\<rparr>"
  by code_simp

lemma allow_list_sources_witness:
  "''self_serve'' \<in> browser_routes \<and> rc_route_kind acme_recipe \<in> browser_route_kinds"
  using allow_list_sources [OF acme_built]
  by (simp add: browser_route_kinds_def acme_recipe_def)

section \<open>Where the boundary is wider than stated\<close>

text \<open>The reader admits a wildcard over a public zone outside the twelve listed
  suffixes, and the rebuilt allow-list then matches a host whose registrable domain is
  another registrant's.\<close>

lemma public_zone_wildcard:
  "allowed_hosts_from_patterns ''acme'' [''*.com.pl''] =
     Inr \<lparr>ah_app_slug = ''acme'', ah_exact_hosts = [], ah_vendor_wildcard_domains = [''com.pl'']\<rparr> \<and>
   host_matches_patterns ''evil-shop.com.pl'' [''*.com.pl''] \<and>
   registrable_domain ''evil-shop.com.pl'' = Some ''evil-shop.com.pl'' \<and>
   is_public_suffix_pair ''com'' ''pl''"
  by code_simp

text \<open>An app whose reviewed recipe is not browser-drivable is discovered like one without
  a recipe.\<close>

lemma gated_recipe_is_discovered:
  "build_browser_allowed_hosts no_v6
     (\<lambda>_. Some (acme_recipe\<lparr>rc_route_kind := ''managed_auth'', rc_browser := None\<rparr>))
     ''acme'' acme_research None None True = Inr acme_hosts"
  by code_simp

text \<open>A target whose host is literally \<^theory_text>\<open>*.com\<close> becomes an exact host that reads as a
  wildcard over the whole zone.\<close>

lemma star_host_opens_zone:
  "map_sum id (\<lambda>p. host_matches_patterns ''evil.com'' (patterns (allowed_from_policy ''acme'' (the p))))
     (discovered_policy_from_research no_v6 ''acme''
        (acme_research\<lparr>ru_login_url := Some ''https://*.com/login'', ru_signup_url := None\<rparr>)) =
   Inr True"
  by code_simp

end
