(* ===== verification/Admission.thy ===== *)
theory Admission
  imports Phases
begin

text \<open>
  Who may create an account: \<^theory_text>\<open>ops/onboarding/admission.py\<close> (the vault probe, the
  three admission outcomes, the decision record whose construction is the
  authorization check), \<^theory_text>\<open>ops/onboarding/standing_authorization.py\<close> (an owner's
  grant per app from the settings) and the decision table of
  \<^theory_text>\<open>ops/core/storage.py\<close>.

  The vault is the list of references it holds for the run's app and account, the
  recipe catalog the list of its slugs, both arguments. \<^theory_text>\<open>now\<close> is the text of the
  clock, \<^theory_text>\<open>rd\<close> stands for \<^theory_text>\<open>redact_text\<close>.
\<close>

section \<open>Vault references (ops/core/secret_store.py)\<close>

record vault_reference =
  vr_app :: string
  vr_kind :: string
  vr_identifier :: string

definition slug_char :: "char \<Rightarrow> bool" where
  "slug_char c = (is_lower_alpha c \<or> is_digit c \<or> c = CHR ''-'')"

definition kind_char :: "char \<Rightarrow> bool" where
  "kind_char c = (slug_char c \<or> c = CHR ''_'')"

definition reference_id_char :: "char \<Rightarrow> bool" where
  "reference_id_char c = (kind_char c \<or> is_upper_alpha c)"

definition parse_vault_reference :: "string \<Rightarrow> vault_reference result" where
  "parse_vault_reference s =
     (let bad = Inl (ValueError ''an exact vault reference is required'')
      in if \<not> starts_with ''vault://'' s then bad
         else (case split_chr (CHR ''/'') (drop 8 s) of
             [a, k, i] \<Rightarrow>
               if a \<noteq> [] \<and> list_all slug_char a \<and> k \<noteq> [] \<and> list_all kind_char k \<and>
                  i \<noteq> [] \<and> list_all reference_id_char i
               then Inr \<lparr>vr_app = a, vr_kind = k, vr_identifier = i\<rparr> else bad
           | _ \<Rightarrow> bad))"

definition format_vault_reference :: "vault_reference \<Rightarrow> string" where
  "format_vault_reference r =
     ''vault://'' @ join_chr (CHR ''/'') [vr_app r, vr_kind r, vr_identifier r]"

section \<open>The decision record\<close>

datatype admission_route = Login_Route | Signup_Route | Cancelled_Route

datatype admission_decider = System | Operator | Standing_Authorization

datatype admission_input = Create_Account | Cancel_Run

definition signup_deciders :: "admission_decider set" where
  "signup_deciders = {Operator, Standing_Authorization}"

record admission_decision =
  ad_run_id :: string
  ad_profile_digest :: string
  ad_route :: admission_route
  ad_reason_code :: string
  ad_decided_by :: admission_decider
  ad_actor_owner_id :: string
  ad_decided_at :: string
  ad_credential_refs :: "(string \<times> string) list"

definition admission_identifier :: "string \<Rightarrow> string result" where
  "admission_identifier s = store_identifier 200 ''identifier is invalid'' s"

definition hex_digit :: "char \<Rightarrow> bool" where
  "hex_digit c = (is_digit c \<or> (let n = of_char c :: nat in 97 \<le> n \<and> n \<le> 102))"

definition profile_digest_form :: "string \<Rightarrow> bool" where
  "profile_digest_form s = (length s = 64 \<and> list_all hex_digit s)"

fun check_refs :: "string list \<Rightarrow> (string \<times> string) list \<Rightarrow> unit result" where
  "check_refs seen [] = Inr ()"
| "check_refs seen ((field, reference) # rest) =
     bindR (admission_identifier field) (\<lambda>_.
       if field \<in> set seen
       then Inl (ValueError ''credential references must name distinct fields'')
       else bindR (parse_vault_reference reference) (\<lambda>_. check_refs (field # seen) rest))"

definition make_decision :: "admission_decision \<Rightarrow> admission_decision result" where
  "make_decision d =
     (if ad_route d = Signup_Route \<and> ad_decided_by d \<notin> signup_deciders
      then Inl (ValueError ''signup route requires a human authority'')
      else if ad_route d = Login_Route \<and> ad_credential_refs d = []
      then Inl (ValueError ''login route requires credential references'')
      else bindR (admission_identifier (ad_run_id d)) (\<lambda>_.
           bindR (admission_identifier (ad_actor_owner_id d)) (\<lambda>_.
           if \<not> profile_digest_form (ad_profile_digest d)
           then Inl (ValueError ''a decision must name a committed profile digest'')
           else if ad_decided_at d = []
           then Inl (ValueError ''a decision must carry its timestamp'')
           else bindR (check_refs [] (ad_credential_refs d)) (\<lambda>_. Inr d))))"

section \<open>Standing authorizations\<close>

record standing_signup_authorization =
  sa_app_slug :: string
  sa_authorized_by :: string
  sa_authorized_at :: string

definition make_standing :: "standing_signup_authorization \<Rightarrow> standing_signup_authorization result" where
  "make_standing a =
     bindR (admission_identifier (sa_app_slug a)) (\<lambda>_.
     bindR (admission_identifier (sa_authorized_by a)) (\<lambda>_.
       if sa_authorized_at a = []
       then Inl (ValueError ''a standing authorization must carry its timestamp'') else Inr a))"

record settings_authority =
  au_authorized :: "string list"
  au_by :: string
  au_at :: string

text \<open>\<^theory_text>\<open>from_settings\<close>: the listed slugs that the reviewed catalog knows, or the whole
  catalog under the wildcard.\<close>

definition from_settings ::
    "string list \<Rightarrow> string list \<Rightarrow> string option \<Rightarrow> string option \<Rightarrow> settings_authority option" where
  "from_settings catalog apps by at =
     (let listed = map (\<lambda>s. lower (strip s)) (filter (\<lambda>s. strip s \<noteq> []) apps);
          text = (\<lambda>v. strip (case v of None \<Rightarrow> [] | Some s \<Rightarrow> s))
      in if listed = [] then None
         else Some \<lparr>au_authorized = (if ''*'' \<in> set listed then catalog
                                    else filter (\<lambda>s. s \<in> set listed) catalog),
                    au_by = text by, au_at = text at\<rparr>)"

definition signup_authorization ::
    "settings_authority \<Rightarrow> string \<Rightarrow> standing_signup_authorization option result" where
  "signup_authorization au app_slug =
     (let slug = lower (strip app_slug)
      in if slug = [] \<or> slug \<notin> set (au_authorized au) then Inr None
         else bindR (make_standing \<lparr>sa_app_slug = slug, sa_authorized_by = au_by au,
                        sa_authorized_at = au_at au\<rparr>) (\<lambda>a. Inr (Some a)))"

section \<open>Probing and admitting\<close>

record vault_probe_result =
  vp_present :: bool
  vp_reason_code :: string
  vp_refs :: "(string \<times> string) list"

record hitl_request =
  hr_type :: string
  hr_app_name :: string
  hr_live_view :: bool

record admission_outcome =
  ao_phase :: phase
  ao_reason_code :: string
  ao_probe :: vault_probe_result
  ao_decision :: "admission_decision option"
  ao_prompts :: "hitl_request list"

text \<open>The required login fields, sorted.\<close>

definition required_login_fields :: "string list" where
  "required_login_fields = [''login_email'', ''login_password'']"

definition probe_login_refs :: "(string \<times> string) list \<Rightarrow> vault_probe_result" where
  "probe_login_refs references =
     (let present = (\<lambda>f. case map_of references f of None \<Rightarrow> None
                        | Some r \<Rightarrow> if r = [] then None else Some r)
      in if \<not> list_all (\<lambda>f. present f \<noteq> None) required_login_fields
         then \<lparr>vp_present = False, vp_reason_code = ''credentials_missing'', vp_refs = []\<rparr>
         else \<lparr>vp_present = True, vp_reason_code = ''credentials_present'',
               vp_refs = map (\<lambda>f. (f, the (present f))) required_login_fields\<rparr>)"

definition admission_prompt :: "string \<Rightarrow> hitl_request result" where
  "admission_prompt app_name =
     (let name = strip app_name
      in if name = [] \<or> 200 < length name
         then Inl (ValueError ''app name is outside the request bounds'')
         else Inr \<lparr>hr_type = ''signup_authorization'', hr_app_name = name,
                   hr_live_view = False\<rparr>)"

definition admit_from_vault ::
    "(string \<times> string) list \<Rightarrow> string \<Rightarrow> string \<Rightarrow> string \<Rightarrow> string \<Rightarrow> string \<Rightarrow>
     string option \<Rightarrow> string \<Rightarrow> (string \<Rightarrow> standing_signup_authorization option result) option \<Rightarrow>
     admission_outcome result" where
  "admit_from_vault references run_id profile_digest app_slug app_name owner_id decided_at now
     standing =
     (let probe = probe_login_refs references
      in if \<not> vp_present probe then
           bindR (case standing of None \<Rightarrow> Inr None | Some lookup \<Rightarrow> lookup app_slug) (\<lambda>auth.
             case auth of
               Some a \<Rightarrow>
                 if sa_app_slug a = app_slug then
                   bindR (make_decision
                       \<lparr>ad_run_id = run_id, ad_profile_digest = profile_digest,
                        ad_route = Signup_Route, ad_reason_code = ''standing_signup_authorization'',
                        ad_decided_by = Standing_Authorization,
                        ad_actor_owner_id = sa_authorized_by a,
                        ad_decided_at = sa_authorized_at a, ad_credential_refs = []\<rparr>) (\<lambda>d.
                     Inr \<lparr>ao_phase = route_selected_signup,
                          ao_reason_code = ''standing_signup_authorization'', ao_probe = probe,
                          ao_decision = Some d, ao_prompts = []\<rparr>)
                 else bindR (admission_prompt app_name) (\<lambda>p.
                        Inr \<lparr>ao_phase = awaiting_admission,
                             ao_reason_code = ''signup_authorization_required'',
                             ao_probe = probe, ao_decision = None, ao_prompts = [p]\<rparr>)
             | None \<Rightarrow> bindR (admission_prompt app_name) (\<lambda>p.
                        Inr \<lparr>ao_phase = awaiting_admission,
                             ao_reason_code = ''signup_authorization_required'',
                             ao_probe = probe, ao_decision = None, ao_prompts = [p]\<rparr>))
         else
           bindR (make_decision
               \<lparr>ad_run_id = run_id, ad_profile_digest = profile_digest, ad_route = Login_Route,
                ad_reason_code = ''credentials_present'', ad_decided_by = System,
                ad_actor_owner_id = owner_id,
                ad_decided_at = (case decided_at of None \<Rightarrow> now
                                 | Some t \<Rightarrow> if t = [] then now else t),
                ad_credential_refs = vp_refs probe\<rparr>) (\<lambda>d.
             Inr \<lparr>ao_phase = route_selected_login, ao_reason_code = ''credentials_present'',
                  ao_probe = probe, ao_decision = Some d, ao_prompts = []\<rparr>))"

definition decide_from_operator ::
    "admission_input \<Rightarrow> string \<Rightarrow> string \<Rightarrow> string \<Rightarrow> string option \<Rightarrow> string \<Rightarrow>
     admission_decision result" where
  "decide_from_operator inp run_id profile_digest actor_owner_id decided_at now =
     make_decision
       \<lparr>ad_run_id = run_id, ad_profile_digest = profile_digest,
        ad_route = (if inp = Create_Account then Signup_Route else Cancelled_Route),
        ad_reason_code = (if inp = Create_Account then ''operator_approved_signup''
                          else ''operator_cancelled''),
        ad_decided_by = Operator, ad_actor_owner_id = actor_owner_id,
        ad_decided_at = (case decided_at of None \<Rightarrow> now | Some t \<Rightarrow> if t = [] then now else t),
        ad_credential_refs = []\<rparr>"

section \<open>The decision table (ops/core/storage.py)\<close>

type_synonym decision_table = "string \<Rightarrow> admission_decision option"

text \<open>Reading rebuilds the decision, so a stored row passes the construction checks
  again.\<close>

definition read_admission_decision ::
    "(string \<Rightarrow> string) \<Rightarrow> decision_table \<Rightarrow> string \<Rightarrow> admission_decision option result" where
  "read_admission_decision rd T run_id =
     (case T (rd run_id) of
        None \<Rightarrow> Inr None
      | Some row \<Rightarrow>
          if ad_reason_code row \<notin> set onboarding_reason_codes
          then Inl (RuntimeError ''stored admission reason code is not a known code'')
          else bindR (make_decision row) (\<lambda>d. Inr (Some d)))"

definition stored_refs_check :: "(string \<times> string) list \<Rightarrow> unit result" where
  "stored_refs_check refs =
     foldr (\<lambda>(f, r) k. if f = [] \<or> 64 < length f
                       then Inl (ValueError ''credential reference field is invalid'')
                       else bindR (parse_vault_reference r) (\<lambda>_. k)) refs (Inr ())"

text \<open>\<^theory_text>\<open>jlen\<close> is the length of the JSON text of the references; the row CHECK refuses a
  signup decided by the system, \<^theory_text>\<open>known\<close> is the foreign key.\<close>

definition record_admission_decision ::
    "(string \<Rightarrow> string) \<Rightarrow> (string \<Rightarrow> bool) \<Rightarrow> ((string \<times> string) list \<Rightarrow> nat) \<Rightarrow>
     decision_table \<Rightarrow> admission_decision \<Rightarrow>
     decision_table \<times> (admission_decision \<times> bool) result" where
  "record_admission_decision rd known jlen T d =
     (case stored_refs_check (ad_credential_refs d) of
        Inl e \<Rightarrow> (T, Inl e)
      | Inr _ \<Rightarrow>
        if 1000 < jlen (ad_credential_refs d)
        then (T, Inl (ValueError ''credential reference list is too large''))
        else if ad_route d = Signup_Route \<and> ad_decided_by d \<notin> signup_deciders
        then (T, Inl (IntegrityError ''CHECK constraint failed''))
        else
          (let row = d\<lparr>ad_run_id := rd (ad_run_id d),
                       ad_actor_owner_id := rd (ad_actor_owner_id d)\<rparr>;
               fresh = (T (rd (ad_run_id d)) = None);
               T' = (if fresh then T(rd (ad_run_id d) \<mapsto> row) else T)
           in if fresh \<and> \<not> known (rd (ad_run_id d))
              then (T, Inl (IntegrityError ''FOREIGN KEY constraint failed''))
              else (case read_admission_decision rd T' (ad_run_id d) of
                  Inl e \<Rightarrow> (T, Inl e)
                | Inr None \<Rightarrow>
                    (T, Inl (RuntimeError ''admission decision could not be read back''))
                | Inr (Some s) \<Rightarrow> (T', Inr (s, \<not> fresh)))))"

section \<open>Lemmas\<close>

lemma make_decision_Inr:
  "make_decision d = Inr d' \<Longrightarrow>
   d' = d \<and> (ad_route d = Signup_Route \<longrightarrow> ad_decided_by d \<in> signup_deciders) \<and>
   (ad_route d = Login_Route \<longrightarrow> ad_credential_refs d \<noteq> []) \<and>
   profile_digest_form (ad_profile_digest d) \<and> identifier_ok 200 (ad_actor_owner_id d) \<and>
   ad_decided_at d \<noteq> [] \<and> (\<exists>u. check_refs [] (ad_credential_refs d) = Inr u)"
  by (auto simp: make_decision_def result_simps guard_simps admission_identifier_def
      split: if_splits)

lemma check_refs_parse:
  "check_refs seen refs = Inr u \<Longrightarrow> (f, r) \<in> set refs \<Longrightarrow> returned (parse_vault_reference r)"
  by (induction seen refs rule: check_refs.induct) (auto simp: result_simps split: if_splits)

lemma check_refs_distinct:
  "check_refs seen refs = Inr u \<Longrightarrow> distinct (map fst refs) \<and> set seen \<inter> fst ` set refs = {}"
  by (induction seen refs rule: check_refs.induct)
     (auto simp: result_simps admission_identifier_def guard_simps split: if_splits)

lemma split_chr_three:
  "split_chr c s = [a, k, i] \<longleftrightarrow>
   s = join_chr c [a, k, i] \<and> c \<notin> set a \<and> c \<notin> set k \<and> c \<notin> set i"
proof
  assume s: "split_chr c s = [a, k, i]"
  have "s = join_chr c [a, k, i]" using join_split_chr [of c s] unfolding s by (rule sym)
  moreover have "\<forall>w \<in> set [a, k, i]. c \<notin> set w" using split_chr_sep s by metis
  ultimately show "s = join_chr c [a, k, i] \<and> c \<notin> set a \<and> c \<notin> set k \<and> c \<notin> set i" by simp
next
  assume "s = join_chr c [a, k, i] \<and> c \<notin> set a \<and> c \<notin> set k \<and> c \<notin> set i"
  then show "split_chr c s = [a, k, i]" using split_join_chr [of "[a, k, i]" c] by simp
qed

definition reference_parts_ok :: "vault_reference \<Rightarrow> bool" where
  "reference_parts_ok r =
     (vr_app r \<noteq> [] \<and> list_all slug_char (vr_app r) \<and> vr_kind r \<noteq> [] \<and>
      list_all kind_char (vr_kind r) \<and> vr_identifier r \<noteq> [] \<and>
      list_all reference_id_char (vr_identifier r))"

lemma no_slash:
  "list_all slug_char s \<Longrightarrow> CHR ''/'' \<notin> set s" "list_all kind_char s \<Longrightarrow> CHR ''/'' \<notin> set s"
  "list_all reference_id_char s \<Longrightarrow> CHR ''/'' \<notin> set s"
  by (auto simp: list_all_iff slug_char_def kind_char_def reference_id_char_def
      is_lower_alpha_def is_upper_alpha_def is_digit_def Let_def)

text \<open>Parsing and printing a reference are inverse to one another.\<close>

lemma parse_format_reference:
  "reference_parts_ok r \<Longrightarrow> parse_vault_reference (format_vault_reference r) = Inr r"
  using split_chr_three [of "CHR ''/''" "drop 8 (format_vault_reference r)" "vr_app r" "vr_kind r"
      "vr_identifier r"]
  by (simp add: parse_vault_reference_def format_vault_reference_def reference_parts_ok_def
      no_slash starts_with_def Let_def)

lemma format_parse_reference:
  assumes "parse_vault_reference s = Inr r"
  shows "format_vault_reference r = s \<and> reference_parts_ok r"
proof -
  obtain t where t: "s = ''vault://'' @ t"
    using assms by (auto simp: parse_vault_reference_def starts_with_iff Let_def split: if_splits)
  obtain a k i where p: "split_chr (CHR ''/'') t = [a, k, i]" "r = \<lparr>vr_app = a, vr_kind = k, vr_identifier = i\<rparr>"
    "reference_parts_ok r"
    using assms t
    by (auto simp: parse_vault_reference_def reference_parts_ok_def Let_def
        split: if_splits list.splits)
  then show ?thesis using t split_chr_three by (simp add: format_vault_reference_def)
qed

lemma probe_present:
  assumes "vp_present (probe_login_refs refs)"
  shows "map fst (vp_refs (probe_login_refs refs)) = required_login_fields \<and>
    (\<forall>(f, r) \<in> set (vp_refs (probe_login_refs refs)). map_of refs f = Some r \<and> r \<noteq> [])"
  using assms
  by (auto simp: probe_login_refs_def required_login_fields_def Let_def
      split: if_splits option.splits)

lemma record_admission_decision_Inr:
  "record_admission_decision rd known jlen T d = (T', Inr (s, replayed)) \<Longrightarrow>
   read_admission_decision rd T' (ad_run_id d) = Inr (Some s) \<and>
   (replayed \<longrightarrow> T' = T) \<and> (replayed \<longleftrightarrow> T (rd (ad_run_id d)) \<noteq> None)"
  by (auto simp: record_admission_decision_def Let_def split: sum.splits if_splits option.splits)

section \<open>Properties\<close>

lemma probe_present_iff:
  "vp_present (probe_login_refs refs) \<longleftrightarrow> (\<forall>f\<in>set required_login_fields. \<exists>r. map_of refs f = Some r \<and> r \<noteq> [])"
  by (auto simp: probe_login_refs_def required_login_fields_def Let_def split: option.splits if_splits)

definition covers ::
    "(string \<Rightarrow> standing_signup_authorization option result) option \<Rightarrow> string \<Rightarrow>
     standing_signup_authorization \<Rightarrow> bool" where
  "covers standing slug a =
     (case standing of None \<Rightarrow> False | Some lookup \<Rightarrow> lookup slug = Inr (Some a) \<and> sa_app_slug a = slug)"

text \<open>C38. What admission decides, when it returns. With both login references in the vault it routes to
  login, decided by the system with exactly those references and no prompt. Without them, and with a
  standing authorization covering this very app, it routes to signup, without a prompt, under a
  decision attributed to whoever gave the authorization and to the time it was given. Without
  either, and only then, it awaits admission, with no decision and one signup prompt for the app that
  offers no live view.\<close>

theorem admission_outcomes:
  "admit_from_vault refs run digest slug app owner at now standing = Inr out \<Longrightarrow>
   (if \<forall>f\<in>set required_login_fields. \<exists>r. map_of refs f = Some r \<and> r \<noteq> [] then
      ao_phase out = route_selected_login \<and> ao_reason_code out = ''credentials_present'' \<and> ao_prompts out = [] \<and>
      (\<exists>d. ao_decision out = Some d \<and> ad_run_id d = run \<and> ad_profile_digest d = digest \<and>
           ad_route d = Login_Route \<and> ad_decided_by d = System \<and> ad_actor_owner_id d = owner \<and>
           map fst (ad_credential_refs d) = required_login_fields \<and>
           (\<forall>(f, r) \<in> set (ad_credential_refs d).
              map_of refs f = Some r \<and> returned (parse_vault_reference r)))
    else if \<exists>a. covers standing slug a then
      ao_phase out = route_selected_signup \<and> ao_reason_code out = ''standing_signup_authorization'' \<and>
      ao_prompts out = [] \<and>
      (\<exists>a d. covers standing slug a \<and> ao_decision out = Some d \<and> ad_run_id d = run \<and>
         ad_profile_digest d = digest \<and> ad_route d = Signup_Route \<and> ad_decided_by d = Standing_Authorization \<and>
         ad_actor_owner_id d = sa_authorized_by a \<and> ad_decided_at d = sa_authorized_at a \<and>
         ad_credential_refs d = [])
    else
      ao_phase out = awaiting_admission \<and> ao_reason_code out = ''signup_authorization_required'' \<and>
      ao_decision out = None \<and>
      ao_prompts out = [\<lparr>hr_type = ''signup_authorization'', hr_app_name = strip app, hr_live_view = False\<rparr>])"
proof (cases "vp_present (probe_login_refs refs)")
  case True
  assume "admit_from_vault refs run digest slug app owner at now standing = Inr out"
  then obtain d0 d where 0: "d0 = \<lparr>ad_run_id = run, ad_profile_digest = digest,
        ad_route = Login_Route, ad_reason_code = ''credentials_present'', ad_decided_by = System,
        ad_actor_owner_id = owner,
        ad_decided_at = (case at of None \<Rightarrow> now | Some t \<Rightarrow> if t = [] then now else t),
        ad_credential_refs = vp_refs (probe_login_refs refs)\<rparr>"
    "make_decision d0 = Inr d" "ao_phase out = route_selected_login" "ao_prompts out = []"
    "ao_decision out = Some d" "ao_reason_code out = ''credentials_present''"
    using True by (auto simp: admit_from_vault_def result_simps Let_def)
  have "d = d0" using make_decision_Inr [OF 0(2)] by blast
  then have d: "make_decision d = Inr d" "ad_run_id d = run" "ad_profile_digest d = digest" "ad_route d = Login_Route"
    "ad_decided_by d = System" "ad_actor_owner_id d = owner" "ad_credential_refs d = vp_refs (probe_login_refs refs)"
    using 0 by simp_all
  obtain u where "check_refs [] (ad_credential_refs d) = Inr u"
    using make_decision_Inr [OF d(1)] by blast
  then have "\<forall>(f, r) \<in> set (ad_credential_refs d). map_of refs f = Some r \<and> returned (parse_vault_reference r)"
    using d(7) probe_present [OF True] check_refs_parse by fastforce
  then show ?thesis
    using True [unfolded probe_present_iff] 0(3-6) d probe_present [OF True] by simp
next
  case False
  assume o: "admit_from_vault refs run digest slug app owner at now standing = Inr out"
  then obtain auth where auth: "(case standing of None \<Rightarrow> Inr None | Some lookup \<Rightarrow> lookup slug) = Inr auth"
    using False by (auto simp: admit_from_vault_def result_simps Let_def)
  then have c: "covers standing slug a \<longleftrightarrow> auth = Some a \<and> sa_app_slug a = slug" for a
    by (auto simp: covers_def split: option.splits)
  show ?thesis
    unfolding c
    using o auth False [unfolded probe_present_iff] False
    by (auto simp: admit_from_vault_def admission_prompt_def result_simps Let_def
        split: option.splits if_splits dest!: make_decision_Inr)
qed

text \<open>C4. Account creation is never the system's own decision: whatever rows the decision
  table holds, a decision read back from it that routes to signup was made by an
  operator or under a standing authorization, and one that routes to login carries
  references, each an exact vault reference.\<close>

theorem no_autonomous_signup:
  "read_admission_decision rd T run = Inr (Some d) \<Longrightarrow>
   (ad_route d = Signup_Route \<longrightarrow> ad_decided_by d = Operator \<or> ad_decided_by d = Standing_Authorization) \<and>
   (ad_route d = Login_Route \<longrightarrow> ad_credential_refs d \<noteq> []) \<and>
   (\<forall>(f, r) \<in> set (ad_credential_refs d).
      \<exists>v. parse_vault_reference r = Inr v \<and> format_vault_reference v = r)"
proof -
  assume "read_admission_decision rd T run = Inr (Some d)"
  then have m: "make_decision d = Inr d"
    by (auto simp: read_admission_decision_def result_simps split: option.splits if_splits
        dest: make_decision_Inr)
  obtain u where "check_refs [] (ad_credential_refs d) = Inr u"
    using make_decision_Inr [OF m] by blast
  then have "\<forall>(f, r) \<in> set (ad_credential_refs d). returned (parse_vault_reference r)"
    using check_refs_parse by fast
  then show ?thesis
    using make_decision_Inr [OF m] format_parse_reference
    by (fastforce simp: signup_deciders_def result_simps)
qed

text \<open>The first decision of a run wins: once one was recorded, recording any other
  decision the table accepts for the same run changes nothing and answers with the
  first, marked as a replay.\<close>

theorem first_decision_wins:
  "record_admission_decision rd known jlen T d = (T1, Inr (s, b)) \<Longrightarrow>
   ad_run_id d' = ad_run_id d \<Longrightarrow>
   record_admission_decision rd known jlen T1 d' = (T2, Inr (s', b')) \<Longrightarrow>
   T2 = T1 \<and> s' = s \<and> b'"
proof -
  assume 1: "record_admission_decision rd known jlen T d = (T1, Inr (s, b))"
    and run: "ad_run_id d' = ad_run_id d"
    and 2: "record_admission_decision rd known jlen T1 d' = (T2, Inr (s', b'))"
  have r1: "read_admission_decision rd T1 (ad_run_id d) = Inr (Some s)"
    using record_admission_decision_Inr [OF 1] by blast
  then have held: "T1 (rd (ad_run_id d)) \<noteq> None"
    by (auto simp: read_admission_decision_def split: option.splits)
  have r2: "read_admission_decision rd T2 (ad_run_id d) = Inr (Some s')" "b'" "T2 = T1"
    using record_admission_decision_Inr [OF 2] run held by auto
  then show ?thesis using r1 by simp
qed

section \<open>Witnesses\<close>

definition sample_refs :: "(string \<times> string) list" where
  "sample_refs = [(''login_password'', ''vault://hubspot/account_login_login_password/x1''),
     (''login_email'', ''vault://hubspot/account_login_login_email/x2'')]"

definition digest0 :: string where
  "digest0 = replicate 64 (CHR ''0'')"

lemma digest0_form: "profile_digest_form digest0"
  by (simp add: profile_digest_form_def digest0_def hex_digit_def is_digit_def list_all_iff)

lemma sample_admission_identifiers:
  "admission_identifier ''r1'' = Inr ''r1''" "admission_identifier ''owner'' = Inr ''owner''"
  "admission_identifier ''login_email'' = Inr ''login_email''"
  "admission_identifier ''login_password'' = Inr ''login_password''"
  by code_simp+

lemma sample_references_parse:
  "\<exists>v. parse_vault_reference ''vault://hubspot/account_login_login_password/x1'' = Inr v"
  "\<exists>v. parse_vault_reference ''vault://hubspot/account_login_login_email/x2'' = Inr v"
  by (simp_all add: parse_vault_reference_def starts_with_def slug_char_def kind_char_def
      reference_id_char_def is_lower_alpha_def is_upper_alpha_def is_digit_def Let_def)

definition sample_login :: admission_decision where
  "sample_login = \<lparr>ad_run_id = ''r1'', ad_profile_digest = digest0, ad_route = Login_Route,
     ad_reason_code = ''credentials_present'', ad_decided_by = System,
     ad_actor_owner_id = ''owner'', ad_decided_at = ''t'',
     ad_credential_refs = vp_refs (probe_login_refs sample_refs)\<rparr>"

lemma sample_login_made: "make_decision sample_login = Inr sample_login"
  using sample_references_parse digest0_form
  by (auto simp: make_decision_def sample_login_def sample_admission_identifiers
      probe_login_refs_def required_login_fields_def sample_refs_def)

lemma sample_outcome:
  "admit_from_vault sample_refs ''r1'' digest0 ''hubspot'' ''HubSpot'' ''owner'' None ''t'' None =
   Inr \<lparr>ao_phase = route_selected_login, ao_reason_code = ''credentials_present'',
        ao_probe = probe_login_refs sample_refs, ao_decision = Some sample_login, ao_prompts = []\<rparr>"
proof -
  have "vp_present (probe_login_refs sample_refs)"
    by (simp add: probe_login_refs_def required_login_fields_def sample_refs_def)
  then show ?thesis
    using sample_login_made [unfolded sample_login_def]
    by (simp add: admit_from_vault_def sample_login_def Let_def)
qed

text \<open>The three outcomes: with the references, without them under the settings' authorization of the
  app, and with neither.\<close>

definition sample_standing :: "string \<Rightarrow> standing_signup_authorization option result" where
  "sample_standing = signup_authorization \<lparr>au_authorized = [''hubspot''], au_by = ''owner2'', au_at = ''t0''\<rparr>"

lemma no_references: "\<not> (\<forall>f\<in>set required_login_fields. \<exists>r. map_of ([] :: (string \<times> string) list) f = Some r \<and> r \<noteq> [])"
  by (auto simp: required_login_fields_def)

lemma admission_outcomes_witness:
  "map fst (ad_credential_refs sample_login) = required_login_fields \<and>
   (\<exists>out d. admit_from_vault [] ''r1'' digest0 ''hubspot'' ''HubSpot'' ''owner'' None ''t'' (Some sample_standing) = Inr out \<and>
      ao_phase out = route_selected_signup \<and> ao_decision out = Some d \<and> ad_actor_owner_id d = ''owner2'') \<and>
   (\<exists>out. admit_from_vault [] ''r1'' digest0 ''notion'' ''Notion'' ''owner'' None ''t'' (Some sample_standing) = Inr out \<and>
      ao_phase out = awaiting_admission \<and> length (ao_prompts out) = 1)"
proof (intro conjI)
  have "\<forall>f\<in>set required_login_fields. \<exists>r. map_of sample_refs f = Some r \<and> r \<noteq> []"
    by (simp add: required_login_fields_def sample_refs_def)
  then show "map fst (ad_credential_refs sample_login) = required_login_fields"
    using admission_outcomes [OF sample_outcome] by auto
next
  have "returned (admit_from_vault [] ''r1'' digest0 ''hubspot'' ''HubSpot'' ''owner'' None ''t'' (Some sample_standing))"
    by code_simp
  then obtain out where o: "admit_from_vault [] ''r1'' digest0 ''hubspot'' ''HubSpot'' ''owner'' None ''t''
      (Some sample_standing) = Inr out" by (auto simp: result_simps)
  have s: "sample_standing ''hubspot'' =
      Inr (Some \<lparr>sa_app_slug = ''hubspot'', sa_authorized_by = ''owner2'', sa_authorized_at = ''t0''\<rparr>)"
    by code_simp
  then have c: "\<exists>a. covers (Some sample_standing) ''hubspot'' a"
    "covers (Some sample_standing) ''hubspot'' a \<Longrightarrow> sa_authorized_by a = ''owner2''" for a
    by (auto simp: covers_def)
  show "\<exists>out d. admit_from_vault [] ''r1'' digest0 ''hubspot'' ''HubSpot'' ''owner'' None ''t'' (Some sample_standing) = Inr out \<and>
      ao_phase out = route_selected_signup \<and> ao_decision out = Some d \<and> ad_actor_owner_id d = ''owner2''"
    using admission_outcomes [OF o, unfolded if_not_P [OF no_references] if_P [OF c(1)]] o c(2) by metis
next
  have "returned (admit_from_vault [] ''r1'' digest0 ''notion'' ''Notion'' ''owner'' None ''t'' (Some sample_standing))"
    by code_simp
  then obtain out where o: "admit_from_vault [] ''r1'' digest0 ''notion'' ''Notion'' ''owner'' None ''t''
      (Some sample_standing) = Inr out" by (auto simp: result_simps)
  have "sample_standing ''notion'' = Inr None" by code_simp
  then have c: "\<not> (\<exists>a. covers (Some sample_standing) ''notion'' a)" by (simp add: covers_def)
  show "\<exists>out. admit_from_vault [] ''r1'' digest0 ''notion'' ''Notion'' ''owner'' None ''t'' (Some sample_standing) = Inr out \<and>
      ao_phase out = awaiting_admission \<and> length (ao_prompts out) = 1"
    using admission_outcomes [OF o, unfolded if_not_P [OF no_references] if_not_P [OF c]] o by simp
qed

definition sample_decisions :: decision_table where
  "sample_decisions = [''r1'' \<mapsto> sample_login]"

lemma sample_read: "read_admission_decision id sample_decisions ''r1'' = Inr (Some sample_login)"
  using sample_login_made
  by (simp add: read_admission_decision_def sample_decisions_def onboarding_reason_codes_def
      sample_login_def)

lemma no_autonomous_signup_witness:
  "ad_credential_refs sample_login \<noteq> [] \<and> ad_decided_by sample_login = System"
  using no_autonomous_signup [OF sample_read] by (simp add: sample_login_def)

definition operator_signup :: admission_decision where
  "operator_signup = \<lparr>ad_run_id = ''r1'', ad_profile_digest = digest0, ad_route = Signup_Route,
     ad_reason_code = ''operator_approved_signup'', ad_decided_by = Operator,
     ad_actor_owner_id = ''owner'', ad_decided_at = ''t'', ad_credential_refs = []\<rparr>"

lemma operator_signup_recorded:
  "record_admission_decision id (\<lambda>_. True) length Map.empty operator_signup =
     ([''r1'' \<mapsto> operator_signup], Inr (operator_signup, False))"
  using digest0_form
  by (simp add: record_admission_decision_def read_admission_decision_def stored_refs_check_def
      operator_signup_def signup_deciders_def onboarding_reason_codes_def make_decision_def
      sample_admission_identifiers Let_def)

lemma operator_cancel_replayed:
  "record_admission_decision id (\<lambda>_. True) length [''r1'' \<mapsto> operator_signup]
     (operator_signup\<lparr>ad_route := Cancelled_Route, ad_reason_code := ''operator_cancelled''\<rparr>) =
     ([''r1'' \<mapsto> operator_signup], Inr (operator_signup, True))"
  using digest0_form
  by (simp add: record_admission_decision_def read_admission_decision_def stored_refs_check_def
      operator_signup_def signup_deciders_def onboarding_reason_codes_def make_decision_def
      sample_admission_identifiers Let_def)

lemma first_decision_wins_witness:
  "snd (record_admission_decision id (\<lambda>_. True) length [''r1'' \<mapsto> operator_signup]
     (operator_signup\<lparr>ad_route := Cancelled_Route, ad_reason_code := ''operator_cancelled''\<rparr>))
   = Inr (operator_signup, True)"
  using first_decision_wins [OF operator_signup_recorded _ operator_cancel_replayed]
    operator_cancel_replayed
  by simp

end
