(* ===== verification/Gate_Policy.thy ===== *)
theory Gate_Policy
  imports Host_Policy Admission
begin

text \<open>
  Which human gates the agent may resolve by itself (\<^theory_text>\<open>ops/access/gate_policy.py\<close>),
  the deterministic access routing (\<^theory_text>\<open>ops/access/routing.py\<close>) and the reviewed outreach
  of gated apps (\<^theory_text>\<open>ops/access/gated_route.py\<close>).

  The enrichment probe, the mail worker and \<^theory_text>\<open>redact_text\<close> (\<^theory_text>\<open>rd\<close>) are arguments.
  Texts are ASCII, on which NFKC is the identity.
\<close>

section \<open>Gates\<close>

datatype gate_resolution =
  Human_Only | Reusable_Login | Emailed_Verification | Recipe_Declared | Profile_Declared

definition autonomous_resolution :: "(string \<times> gate_resolution) list" where
  "autonomous_resolution =
     [(''login_required'', Reusable_Login), (''email_otp'', Emailed_Verification),
      (''legal_acceptance'', Recipe_Declared), (''signup_authorization'', Profile_Declared)]"

definition human_only_gates :: "string list" where
  "human_only_gates =
     [''captcha'', ''phone_otp'', ''passkey'', ''security_key'', ''device_approval'', ''billing'',
      ''provider_verification'', ''oauth_grant'', ''account_selection'']"

definition profile_declarable_gates :: "string list" where
  "profile_declarable_gates = [''legal_acceptance'', ''signup_authorization'']"

definition profile_digest_match :: "string \<Rightarrow> bool" where
  "profile_digest_match s = profile_digest_form s"

definition autonomous_gates :: "string list" where
  "autonomous_gates = map fst autonomous_resolution"

record profile_gate_authority =
  ga_profile_digest :: string
  ga_registrable_domain :: string
  ga_gate_url :: string
  ga_admission_route :: string
  ga_admission_decided_by :: string
  ga_admission_profile_digest :: string

fun decider_text :: "admission_decider \<Rightarrow> string" where
  "decider_text System = ''system''"
| "decider_text Operator = ''operator''"
| "decider_text Standing_Authorization = ''standing_authorization''"

fun route_text :: "admission_route \<Rightarrow> string" where
  "route_text Login_Route = ''login''"
| "route_text Signup_Route = ''signup''"
| "route_text Cancelled_Route = ''cancelled''"

definition legal_acceptance_declared ::
    "(string \<Rightarrow> app_recipe option) \<Rightarrow> string \<Rightarrow> bool" where
  "legal_acceptance_declared lookup app_slug =
     (case lookup app_slug of None \<Rightarrow> False
      | Some recipe \<Rightarrow> (case rc_browser recipe of None \<Rightarrow> False
          | Some b \<Rightarrow> br_entry_submit_implies_legal_acceptance b = Some True))"

definition within_profile_domain :: "(string \<Rightarrow> bool) \<Rightarrow> string \<Rightarrow> string \<Rightarrow> bool" where
  "within_profile_domain v6 url zone =
     (if registrable_domain zone \<noteq> Some zone then False
      else (case urlsplit v6 url of
          Inl e \<Rightarrow> False
        | Inr parsed \<Rightarrow>
            if scheme parsed \<noteq> ''https'' \<or> \<not> truthy (hostname parsed) \<or>
               truthy (username parsed) \<or> truthy (password parsed)
            then False
            else registrable_domain (the (hostname parsed)) = Some zone))"

definition profile_authorizes ::
    "(string \<Rightarrow> bool) \<Rightarrow> string \<Rightarrow> profile_gate_authority option \<Rightarrow> bool" where
  "profile_authorizes v6 action_type authority =
     (case authority of
        None \<Rightarrow> False
      | Some a \<Rightarrow>
          if action_type \<notin> set profile_declarable_gates then False
          else if \<not> profile_digest_match (ga_profile_digest a) then False
          else if ga_admission_profile_digest a \<noteq> ga_profile_digest a then False
          else if ga_admission_route a \<noteq> ''signup'' then False
          else if ga_admission_decided_by a \<notin> decider_text ` signup_deciders then False
          else within_profile_domain v6 (ga_gate_url a) (ga_registrable_domain a))"

definition resolve_gate ::
    "(string \<Rightarrow> bool) \<Rightarrow> (string \<Rightarrow> app_recipe option) \<Rightarrow> string option \<Rightarrow> string \<Rightarrow>
     profile_gate_authority option \<Rightarrow> gate_resolution" where
  "resolve_gate v6 lookup action_type app_slug authority =
     (if \<not> truthy action_type then Human_Only
      else let action = the action_type
      in if action \<in> set human_only_gates then Human_Only
         else (case map_of autonomous_resolution action of
             None \<Rightarrow> Human_Only
           | Some Recipe_Declared \<Rightarrow>
               if action = ''legal_acceptance'' \<and> legal_acceptance_declared lookup app_slug
               then Recipe_Declared
               else if profile_authorizes v6 action authority then Profile_Declared else Human_Only
           | Some Profile_Declared \<Rightarrow>
               if profile_authorizes v6 action authority then Profile_Declared else Human_Only
           | Some resolution \<Rightarrow> resolution))"

text \<open>The authority the driver projects from the committed profile and the recorded
  decision (\<^theory_text>\<open>ops/onboarding/driver.py\<close>).\<close>

definition authority_of ::
    "string \<Rightarrow> string \<Rightarrow> string \<Rightarrow> admission_decision option \<Rightarrow> profile_gate_authority option" where
  "authority_of digest zone gate_url admission =
     (case admission of None \<Rightarrow> None
      | Some d \<Rightarrow> Some \<lparr>ga_profile_digest = digest, ga_registrable_domain = zone,
          ga_gate_url = gate_url, ga_admission_route = route_text (ad_route d),
          ga_admission_decided_by = decider_text (ad_decided_by d),
          ga_admission_profile_digest = ad_profile_digest d\<rparr>)"

section \<open>Access routing\<close>

datatype access_route =
  Self_Serve | Approval_Required | Partner_Gated | Hybrid | Blocked | Unknown_Route

datatype routing_reason_code =
    Api_Unavailable | Production_Approval_With_Signup | Production_Approval_Without_Signup
  | Contact_Without_Signup | Self_Serve_Portal | Verified_Evidence_Route
  | Insufficient_Evidence_Probe_Available | Insufficient_Evidence_After_Probe

record operational_research =
  or_api_available :: "bool option"
  or_production_approval_required :: "bool option"
  or_signup_url :: "string option"
  or_developer_portal_url :: "string option"
  or_contact_email :: "string option"
  or_contact_url :: "string option"
  or_access_route :: access_route

record routing_decision =
  rd_route :: access_route
  rd_reason_code :: routing_reason_code
  rd_is_final :: bool
  rd_unknown_probe_attempts :: int
  rd_unknown_probe_remaining :: int

definition max_unknown_probes :: int where
  "max_unknown_probes = 1"

definition final :: "access_route \<Rightarrow> routing_reason_code \<Rightarrow> int \<Rightarrow> routing_decision" where
  "final route reason attempts =
     \<lparr>rd_route = route, rd_reason_code = reason, rd_is_final = True,
      rd_unknown_probe_attempts = attempts, rd_unknown_probe_remaining = 0\<rparr>"

definition decide_access :: "operational_research \<Rightarrow> int \<Rightarrow> routing_decision result" where
  "decide_access evidence attempts =
     (if attempts \<noteq> 0 \<and> attempts \<noteq> max_unknown_probes
      then Inl (ValueError ''unknown_probe_attempts must be zero or one'')
      else if or_api_available evidence = Some False then Inr (final Blocked Api_Unavailable attempts)
      else if or_production_approval_required evidence = Some True then
        (if truthy (or_signup_url evidence)
         then Inr (final Hybrid Production_Approval_With_Signup attempts)
         else Inr (final Approval_Required Production_Approval_Without_Signup attempts))
      else if (truthy (or_contact_email evidence) \<or> truthy (or_contact_url evidence)) \<and>
              \<not> truthy (or_signup_url evidence)
      then Inr (final Partner_Gated Contact_Without_Signup attempts)
      else if truthy (or_signup_url evidence) \<and> truthy (or_developer_portal_url evidence)
      then Inr (final Self_Serve Self_Serve_Portal attempts)
      else if or_access_route evidence \<noteq> Unknown_Route
      then Inr (final (or_access_route evidence) Verified_Evidence_Route attempts)
      else if attempts = 0
      then Inr \<lparr>rd_route = Unknown_Route, rd_reason_code = Insufficient_Evidence_Probe_Available,
                rd_is_final = False, rd_unknown_probe_attempts = 0,
                rd_unknown_probe_remaining = max_unknown_probes\<rparr>
      else Inr \<lparr>rd_route = Unknown_Route, rd_reason_code = Insufficient_Evidence_After_Probe,
                rd_is_final = True, rd_unknown_probe_attempts = max_unknown_probes,
                rd_unknown_probe_remaining = 0\<rparr>)"

definition classify_access :: "operational_research \<Rightarrow> access_route result" where
  "classify_access evidence = bindR (decide_access evidence 0) (\<lambda>d. Inr (rd_route d))"

text \<open>The probe is counted: the second component is how often it was called.\<close>

definition resolve_access ::
    "(operational_research \<Rightarrow> operational_research result) option \<Rightarrow> operational_research \<Rightarrow>
     routing_decision result \<times> nat" where
  "resolve_access unknown_probe evidence =
     (case decide_access evidence 0 of
        Inl e \<Rightarrow> (Inl e, 0)
      | Inr initial \<Rightarrow>
          (case unknown_probe of
             None \<Rightarrow> (Inr initial, 0)
           | Some probe \<Rightarrow>
               if rd_route initial \<noteq> Unknown_Route \<or> rd_is_final initial then (Inr initial, 0)
               else (bindR (probe evidence) (\<lambda>enriched. decide_access enriched max_unknown_probes), 1)))"

section \<open>Reviewed outreach\<close>

record outreach_spec =
  os_contact_email :: "string option"
  os_approval_reason :: string
  os_template_id :: string
  os_sending_policy :: string

record outreach_recipe = app_recipe +
  rc_readiness_tier :: string
  rc_evidence_verified_at :: string
  rc_evidence_urls :: "string list"
  rc_outreach :: "outreach_spec option"

record outreach_request =
  rq_app_name :: string
  rq_legal_name :: string
  rq_website :: string
  rq_use_case :: string

record gated_target =
  gt_app_slug :: string
  gt_intended_recipient :: string
  gt_template_id :: string

record gated_route =
  gr_recipient :: string
  gr_subject :: string
  gr_body :: string
  gr_target :: gated_target

record outreach_receipt =
  oc_session_id :: string
  oc_thread_id :: string
  oc_message_id :: string
  oc_intended_recipient :: string
  oc_actual_recipient :: string

text \<open>\<^theory_text>\<open>str.split()\<close>: the runs of non-blank characters.\<close>

fun blank_words :: "string \<Rightarrow> string list" where
  "blank_words [] = []"
| "blank_words (c # s) =
     (if is_space c then blank_words s
      else (case s of
          [] \<Rightarrow> [[c]]
        | d # _ \<Rightarrow>
            if is_space d then [c] # blank_words s
            else (case blank_words s of [] \<Rightarrow> [[c]] | w # ws \<Rightarrow> (c # w) # ws)))"

definition squeeze :: "string \<Rightarrow> string" where
  "squeeze s = join_chr (CHR '' '') (blank_words s)"

definition lookup_key :: "string \<Rightarrow> string" where
  "lookup_key v = lower (squeeze v)"

definition line_breaker :: "char \<Rightarrow> bool" where
  "line_breaker c = (c = CHR 0x0D \<or> c = CHR 0x0A \<or> c = CHR 0x00)"

definition public_line :: "(string \<Rightarrow> string) \<Rightarrow> string \<Rightarrow> string" where
  "public_line rd v = squeeze (rd (map (\<lambda>c. if c = CHR 0x00 then CHR '' '' else c) v))"

definition gated_error :: "string \<Rightarrow> exn" where
  "gated_error code = ValueError (''gated outreach is unavailable: '' @ code)"

definition validate_effect_identity :: "string \<Rightarrow> string result" where
  "validate_effect_identity v =
     (if v = [] \<or> 500 < length v \<or> list_ex line_breaker v
      then Inl (gated_error ''effect_identity_invalid'') else Inr v)"

definition validate_identifier :: "string \<Rightarrow> string \<Rightarrow> string result" where
  "validate_identifier v name =
     (if v = [] \<or> 1000 < length v \<or> list_ex line_breaker v
      then Inl (gated_error (''gmail_'' @ name @ ''_invalid'')) else Inr v)"

definition validate_public_identifier ::
    "(string \<Rightarrow> string) \<Rightarrow> string \<Rightarrow> string \<Rightarrow> string result" where
  "validate_public_identifier rd v name =
     (if v = [] \<or> 1000 < length v \<or> list_ex line_breaker v \<or> rd v \<noteq> v
      then Inl (gated_error (''outreach_'' @ name @ ''_invalid'')) else Inr v)"

definition validate_email :: "string \<Rightarrow> string result" where
  "validate_email v =
     (let bad = Inl (gated_error ''outreach_email_invalid'')
      in if v = [] \<or> 320 < length v \<or> list_ex (\<lambda>c. is_space c \<or> c = CHR 0x00) v \<or>
            count_list v (CHR ''@'') \<noteq> 1
         then bad
         else (case rpartition_chr (CHR ''@'') v of (local, _, host) \<Rightarrow>
             if local = [] \<or> CHR ''.'' \<notin> set host \<or> starts_with ''.'' host \<or> ends_with ''.'' host
             then bad else Inr v))"

definition verified_outreach :: "outreach_recipe \<Rightarrow> outreach_request \<Rightarrow> outreach_spec result" where
  "verified_outreach recipe request =
     (if rc_route_kind recipe \<noteq> ''gated'' then Inl (gated_error ''route_kind_not_gated'')
      else if lookup_key (rq_app_name request) \<notin>
              {lookup_key (rc_app_name recipe), lookup_key (rc_app_slug recipe)}
      then Inl (gated_error ''request_recipe_mismatch'')
      else if rc_readiness_tier recipe \<noteq> ''outreach_ready''
      then Inl (gated_error ''outreach_contact_not_verified'')
      else if rc_evidence_verified_at recipe = [] \<or> rc_evidence_urls recipe = []
      then Inl (gated_error ''outreach_evidence_missing'')
      else (case rc_outreach recipe of
          None \<Rightarrow> Inl (gated_error ''verified_contact_email_missing'')
        | Some outreach \<Rightarrow>
            if os_contact_email outreach = None
            then Inl (gated_error ''verified_contact_email_missing'')
            else if os_sending_policy outreach \<noteq> ''controlled_sink_only''
            then Inl (gated_error ''sending_policy_not_controlled_sink_only'')
            else Inr outreach))"

definition newline :: string where
  "newline = [CHR 0x0A]"

definition deterministic_message ::
    "(string \<Rightarrow> string) \<Rightarrow> outreach_recipe \<Rightarrow> outreach_request \<Rightarrow> string \<Rightarrow> string \<times> string" where
  "deterministic_message rd recipe request approval_reason =
     (let app_name = public_line rd (rc_app_name recipe);
          app_slug = public_line rd (rc_app_slug recipe);
          company_name = public_line rd (rq_legal_name request);
          company_website = public_line rd (rq_website request);
          use_case = public_line rd (rq_use_case request);
          access_context = public_line rd approval_reason
      in (''API access request for '' @ app_name @ '' ['' @ app_slug @ '']'',
          ''Hello,'' @ newline @ newline @ company_name @ '' ('' @ company_website @
          '') is requesting reviewed developer and production API access for '' @ app_name @ ''.'' @
          newline @ newline @ ''Use case: '' @ use_case @ newline @ newline @
          ''Access context: '' @ access_context @ newline @ newline @ ''Please confirm:'' @ newline @
          ''- the application and approval steps, including the expected timeline'' @ newline @
          ''- the scopes or permissions available for this integration'' @ newline @
          ''- whether a sandbox or test environment is available'' @ newline @
          ''- the production credential issuance and rotation process'' @ newline @ newline @
          ''Thank you,'' @ newline @ company_name))"

definition make_gated_route ::
    "(string \<Rightarrow> string) \<Rightarrow> outreach_recipe \<Rightarrow> outreach_request \<Rightarrow> gated_route result" where
  "make_gated_route rd recipe request =
     bindR (verified_outreach recipe request) (\<lambda>outreach.
     bindR (validate_email (case os_contact_email outreach of None \<Rightarrow> [] | Some e \<Rightarrow> e)) (\<lambda>recipient.
     bindR (validate_public_identifier rd (os_template_id outreach) ''template_id'') (\<lambda>template.
       case deterministic_message rd recipe request (os_approval_reason outreach) of
         (subject, body) \<Rightarrow>
           Inr \<lparr>gr_recipient = recipient, gr_subject = subject, gr_body = body,
                gr_target = \<lparr>gt_app_slug = rc_app_slug recipe, gt_intended_recipient = recipient,
                             gt_template_id = template\<rparr>\<rparr>)))"

text \<open>The mail worker's \<^theory_text>\<open>send_outreach\<close> is an argument; the second component lists the
  calls made to it.\<close>

definition send_outreach ::
    "(string \<Rightarrow> string \<Rightarrow> string \<Rightarrow> string \<Rightarrow> outreach_receipt result) \<Rightarrow> gated_route \<Rightarrow> string \<Rightarrow>
     outreach_receipt result \<times> (string \<times> string \<times> string \<times> string) list" where
  "send_outreach gmail g effect_identity =
     (case validate_effect_identity effect_identity of
        Inl e \<Rightarrow> (Inl e, [])
      | Inr identity \<Rightarrow>
          (bindR (gmail (gr_recipient g) (gr_subject g) (gr_body g) identity) (\<lambda>sent.
           bindR (validate_identifier (oc_session_id sent) ''session_id'') (\<lambda>_.
           bindR (validate_identifier (oc_thread_id sent) ''thread_id'') (\<lambda>_.
           bindR (validate_identifier (oc_message_id sent) ''message_id'') (\<lambda>_.
           bindR (validate_email (oc_intended_recipient sent)) (\<lambda>_.
           bindR (validate_email (oc_actual_recipient sent)) (\<lambda>_.
             if oc_intended_recipient sent \<noteq> gr_recipient g
             then Inl (gated_error ''gmail_receipt_recipient_mismatch'') else Inr sent)))))),
           [(gr_recipient g, gr_subject g, gr_body g, identity)]))"

section \<open>Lemmas\<close>

lemma within_profile_domain_iff:
  "within_profile_domain v6 url zone \<longleftrightarrow>
   registrable_domain zone = Some zone \<and>
   (\<exists>u h. urlsplit v6 url = Inr u \<and> scheme u = ''https'' \<and> hostname u = Some h \<and> h \<noteq> [] \<and>
      \<not> truthy (username u) \<and> \<not> truthy (password u) \<and> registrable_domain h = Some zone)"
  by (auto simp: within_profile_domain_def truthy_def split: sum.splits option.splits)

lemma profile_authorizes_iff:
  "profile_authorizes v6 action (Some a) \<longleftrightarrow>
   action \<in> set profile_declarable_gates \<and> profile_digest_form (ga_profile_digest a) \<and>
   ga_admission_profile_digest a = ga_profile_digest a \<and> ga_admission_route a = ''signup'' \<and>
   ga_admission_decided_by a \<in> {''operator'', ''standing_authorization''} \<and>
   within_profile_domain v6 (ga_gate_url a) (ga_registrable_domain a)"
  by (auto simp: profile_authorizes_def profile_digest_match_def signup_deciders_def)

lemma profile_authorizes_None [simp]: "\<not> profile_authorizes v6 action None"
  by (simp add: profile_authorizes_def)

lemma route_text_signup [simp]: "route_text r = ''signup'' \<longleftrightarrow> r = Signup_Route"
  by (cases r) simp_all

text \<open>A page inside the profile's domain is inside the allow-list discovered for it.\<close>

lemma profile_domain_is_navigable:
  assumes "urlsplit v6 url = Inr u" "scheme u = ''https''" "hostname u = Some h" "h \<noteq> []"
    "\<not> truthy (username u)" "\<not> truthy (password u)" "registrable_domain h = Some zone"
    "strip h = h" "\<not> is_wildcard zone" "zone \<in> set (ah_exact_hosts allowed)"
    "zone \<in> set (ah_vendor_wildcard_domains allowed)"
  shows "\<exists>d. evaluate_navigation v6 url allowed = Inr d \<and> hd_allowed d"
proof -
  obtain d where d: "evaluate_navigation v6 url allowed = Inr d"
    using evaluate_navigation_returns [OF assms(1)] by blast
  have "fold_host h = zone \<or> (\<exists>sub. fold_host h = sub @ CHR ''.'' # zone)"
    using registrable_domain_suffix [OF assms(7)] assms(8) by simp
  moreover have "zone \<in> set (patterns allowed)" "''*.'' @ zone \<in> set (patterns allowed)"
    using assms(10,11) by (auto simp: patterns_def)
  moreover have "pattern_matches zone zone" "pattern_matches (sub @ CHR ''.'' # zone) (''*.'' @ zone)" for sub
    using assms(9) by (auto simp: pattern_matches_iff)
  ultimately have "host_matches_patterns h (patterns allowed)"
    unfolding host_matches_patterns_iff by metis
  then show ?thesis using evaluate_navigation_Inr [OF d] assms d by auto
qed

lemma final_simps [simp]:
  "rd_is_final (final r c n)" "rd_route (final r c n) = r" "rd_reason_code (final r c n) = c"
  "rd_unknown_probe_attempts (final r c n) = n" "rd_unknown_probe_remaining (final r c n) = 0"
  by (simp_all add: final_def)

lemma decide_access_Inr:
  "decide_access e n = Inr d \<Longrightarrow>
   rd_unknown_probe_attempts d = n \<and> (n = 0 \<or> n = 1) \<and>
   (rd_is_final d \<longleftrightarrow> rd_reason_code d \<noteq> Insufficient_Evidence_Probe_Available) \<and>
   (\<not> rd_is_final d \<longrightarrow> rd_route d = Unknown_Route \<and> n = 0) \<and>
   rd_unknown_probe_remaining d = (if rd_is_final d then 0 else 1)"
  by (auto simp: decide_access_def max_unknown_probes_def split: if_splits)

lemma decide_access_returns: "n = 0 \<or> n = 1 \<Longrightarrow> \<exists>d. decide_access e n = Inr d"
  by (auto simp: decide_access_def max_unknown_probes_def)

lemma validate_email_Inr: "validate_email v = Inr w \<Longrightarrow> w = v \<and> count_list v (CHR ''@'') = 1"
  by (auto simp: validate_email_def Let_def split: if_splits prod.splits)

lemma validate_effect_identity_Inr: "validate_effect_identity v = Inr w \<Longrightarrow> w = v"
  by (auto simp: validate_effect_identity_def split: if_splits)

section \<open>Properties\<close>

text \<open>The gate policy is fail-closed and its answer names the authority: only a login
  gate is resolved by reusable values, only an emailed code by verification, a
  recipe speaks only for legal acceptance it declares, and the profile only for signup
  authorization, or for legal acceptance no recipe declares, and only when the
  recorded decision authorizes it; every other gate is human-only.\<close>

theorem gate_resolution_spec:
  "(resolve_gate v6 lookup act slug au = Reusable_Login \<longleftrightarrow> act = Some ''login_required'') \<and>
   (resolve_gate v6 lookup act slug au = Emailed_Verification \<longleftrightarrow> act = Some ''email_otp'') \<and>
   (resolve_gate v6 lookup act slug au = Recipe_Declared \<longleftrightarrow>
      act = Some ''legal_acceptance'' \<and> legal_acceptance_declared lookup slug) \<and>
   (resolve_gate v6 lookup act slug au = Profile_Declared \<longleftrightarrow>
      (act = Some ''signup_authorization'' \<or>
       act = Some ''legal_acceptance'' \<and> \<not> legal_acceptance_declared lookup slug) \<and>
      profile_authorizes v6 (the act) au)"
proof (cases "truthy act")
  case False
  then show ?thesis by (auto simp: resolve_gate_def truthy_def split: option.splits)
next
  case True
  then obtain a where a: "act = Some a" "truthy (Some a)" by (cases act) (auto simp: truthy_def)
  show ?thesis
    unfolding resolve_gate_def a(1) Let_def using a(2)
    by (simp add: human_only_gates_def autonomous_resolution_def)
qed

text \<open>A signup gate opens only on a recorded human decision: when the authority is
  projected from the decision table, a profile-declared resolution means the stored
  decision routes to signup, was made by an operator or a standing authorization for
  exactly the committed profile, and the gate stands on an https page whose host the
  profile's own one-domain allow-list admits.\<close>

theorem signup_gate_needs_recorded_human:
  "read_admission_decision rd T run = Inr admission \<Longrightarrow>
   resolve_gate v6 lookup act slug (authority_of digest zone url admission) = Profile_Declared \<Longrightarrow>
   (\<exists>d. admission = Some d \<and> ad_route d = Signup_Route \<and> ad_decided_by d \<in> {Operator, Standing_Authorization} \<and>
        ad_profile_digest d = digest \<and> profile_digest_form digest) \<and>
   (\<exists>u h. urlsplit v6 url = Inr u \<and> scheme u = ''https'' \<and> hostname u = Some h \<and>
      registrable_domain h = Some zone \<and>
      (strip h = h \<and> \<not> is_wildcard zone \<longrightarrow>
       (\<exists>dec. evaluate_navigation v6 url \<lparr>ah_app_slug = slug, ah_exact_hosts = [zone],
           ah_vendor_wildcard_domains = [zone]\<rparr> = Inr dec \<and> hd_allowed dec)))"
proof -
  assume r: "read_admission_decision rd T run = Inr admission"
    and g: "resolve_gate v6 lookup act slug (authority_of digest zone url admission) = Profile_Declared"
  have auth: "profile_authorizes v6 (the act) (authority_of digest zone url admission)"
    using g gate_resolution_spec [of v6 lookup act slug "authority_of digest zone url admission"]
    by simp
  then obtain d where d: "admission = Some d" by (cases admission) (auto simp: authority_of_def)
  have a: "profile_digest_form digest" "ad_profile_digest d = digest" "ad_route d = Signup_Route"
    "within_profile_domain v6 url zone"
    using auth by (auto simp: d authority_of_def profile_authorizes_iff)
  have m: "make_decision d = Inr d"
    using r d by (auto simp: read_admission_decision_def result_simps split: option.splits if_splits
        dest: make_decision_Inr)
  obtain u h where u: "urlsplit v6 url = Inr u" "scheme u = ''https''" "hostname u = Some h"
    "h \<noteq> []" "\<not> truthy (username u)" "\<not> truthy (password u)" "registrable_domain h = Some zone"
    using a(4) unfolding within_profile_domain_iff by blast
  have "ad_decided_by d \<in> {Operator, Standing_Authorization}"
    using make_decision_Inr [OF m] a(3) by (simp add: signup_deciders_def)
  then show ?thesis using d a u profile_domain_is_navigable [OF u] by auto
qed

text \<open>Routing is bounded and final: with a probe, the probe is called at most once, only
  when the first evidence leaves the route unknown, and the result is final; an
  unavailable API always blocks and required production approval never yields
  self-service, whatever else the evidence says.\<close>

theorem routing_bounded:
  "resolve_access (Some probe) e = (Inr d, n) \<Longrightarrow>
   rd_is_final d \<and> rd_unknown_probe_remaining d = 0 \<and> n \<le> 1 \<and> rd_unknown_probe_attempts d = int n \<and>
   (n = 1 \<longleftrightarrow> (\<exists>d0. decide_access e 0 = Inr d0 \<and> \<not> rd_is_final d0)) \<and>
   (or_api_available e = Some False \<longrightarrow> rd_route d = Blocked \<and> n = 0) \<and>
   (or_api_available e \<noteq> Some False \<and> or_production_approval_required e = Some True \<longrightarrow>
      rd_route d \<in> {Hybrid, Approval_Required} \<and> n = 0)"
proof -
  assume r: "resolve_access (Some probe) e = (Inr d, n)"
  obtain d0 where d0: "decide_access e 0 = Inr d0" using decide_access_returns by blast
  have blocked: "rd_is_final d0" "rd_route d0 = Blocked" if "or_api_available e = Some False"
    using d0 that by (auto simp: decide_access_def)
  have appr: "rd_is_final d0" "rd_route d0 \<in> {Hybrid, Approval_Required}"
    if "or_api_available e \<noteq> Some False" "or_production_approval_required e = Some True"
    using d0 that by (auto simp: decide_access_def split: if_splits)
  show ?thesis
  proof (cases "rd_is_final d0")
    case True
    then have "d = d0" "n = 0" using r by (simp_all add: resolve_access_def d0)
    then show ?thesis using decide_access_Inr [OF d0] True blocked appr d0 by auto
  next
    case False
    then have "rd_route d0 = Unknown_Route" using decide_access_Inr [OF d0] by blast
    then obtain e' where e': "decide_access e' max_unknown_probes = Inr d" "n = 1"
      using r False by (auto simp: resolve_access_def d0 result_simps)
    then have "rd_is_final d \<and> rd_unknown_probe_remaining d = 0 \<and> rd_unknown_probe_attempts d = 1"
      using decide_access_Inr [OF e'(1)] by (auto simp: max_unknown_probes_def)
    then show ?thesis using e'(2) False d0 blocked(1) appr(1) by auto
  qed
qed

text \<open>An outreach reaches only the reviewed contact: once a gated route was built from a
  recipe, whatever the mail worker answers, the only call made to it carries the
  recipe's contact address and the caller's effect identity verbatim, and a returned
  receipt names that address as its intended recipient.\<close>

theorem outreach_to_reviewed_contact:
  "make_gated_route rd recipe request = Inr g \<Longrightarrow>
   send_outreach gmail g identity = (res, calls) \<Longrightarrow>
   \<exists>outreach contact. rc_outreach recipe = Some outreach \<and> os_contact_email outreach = Some contact \<and>
     rc_route_kind recipe = ''gated'' \<and> rc_readiness_tier recipe = ''outreach_ready'' \<and>
     os_sending_policy outreach = ''controlled_sink_only'' \<and> gt_intended_recipient (gr_target g) = contact \<and>
     calls = (if returned (validate_effect_identity identity)
              then [(contact, gr_subject g, gr_body g, identity)] else []) \<and>
     (\<forall>receipt. res = Inr receipt \<longrightarrow> oc_intended_recipient receipt = contact)"
proof -
  assume m: "make_gated_route rd recipe request = Inr g"
    and s: "send_outreach gmail g identity = (res, calls)"
  obtain outreach where o: "verified_outreach recipe request = Inr outreach"
    "validate_email (case os_contact_email outreach of None \<Rightarrow> [] | Some e \<Rightarrow> e) = Inr (gr_recipient g)"
    "gt_intended_recipient (gr_target g) = gr_recipient g"
    using m by (auto simp: make_gated_route_def result_simps case_prod_beta)
  obtain contact where c: "rc_outreach recipe = Some outreach" "os_contact_email outreach = Some contact"
    "rc_route_kind recipe = ''gated''" "rc_readiness_tier recipe = ''outreach_ready''"
    "os_sending_policy outreach = ''controlled_sink_only''"
    using o(1) by (auto simp: verified_outreach_def split: if_splits option.splits)
  have g: "gr_recipient g = contact" using o(2) validate_email_Inr c(2) by fastforce
  show ?thesis
  proof (cases "validate_effect_identity identity")
    case (Inl e)
    then show ?thesis using s c o(3) g by (auto simp: send_outreach_def)
  next
    case (Inr i)
    then have "i = identity" using validate_effect_identity_Inr by simp
    then show ?thesis
      using s c o(3) g Inr by (auto simp: send_outreach_def result_simps split: if_splits)
  qed
qed

section \<open>Witnesses\<close>

lemma sample_signup_read:
  "read_admission_decision id [''r1'' \<mapsto> operator_signup] ''r1'' = Inr (Some operator_signup)"
  using record_admission_decision_Inr [OF operator_cancel_replayed] by (simp add: operator_signup_def)

lemma sample_gate_within:
  "within_profile_domain no_v6 ''https://app.acme.com/login'' ''acme.com''"
  by code_simp

lemma sample_gate_open:
  "resolve_gate no_v6 Map.empty (Some ''signup_authorization'') ''acme''
     (authority_of digest0 ''acme.com'' ''https://app.acme.com/login'' (Some operator_signup)) =
   Profile_Declared"
  using digest0_form sample_gate_within
    gate_resolution_spec [of no_v6 Map.empty "Some ''signup_authorization''" "''acme''"
      "authority_of digest0 ''acme.com'' ''https://app.acme.com/login'' (Some operator_signup)"]
  by (simp add: authority_of_def profile_authorizes_iff profile_declarable_gates_def
      operator_signup_def)

lemma signup_gate_needs_recorded_human_witness:
  "ad_route operator_signup = Signup_Route \<and> profile_digest_form digest0"
  using signup_gate_needs_recorded_human [OF sample_signup_read sample_gate_open] by auto

definition sample_evidence :: operational_research where
  "sample_evidence = \<lparr>or_api_available = None, or_production_approval_required = None,
     or_signup_url = None, or_developer_portal_url = None, or_contact_email = None,
     or_contact_url = None, or_access_route = Unknown_Route\<rparr>"

lemma sample_resolved:
  "resolve_access (Some (\<lambda>e. Inr (e\<lparr>or_contact_email := Some ''api@acme.com''\<rparr>))) sample_evidence =
     (Inr (final Partner_Gated Contact_Without_Signup 1), 1)"
  by (simp add: resolve_access_def decide_access_def sample_evidence_def truthy_def
      max_unknown_probes_def)

lemma routing_bounded_witness:
  "rd_is_final (final Partner_Gated Contact_Without_Signup 1)"
  using routing_bounded [OF sample_resolved] by blast

definition sample_outreach_recipe :: outreach_recipe where
  "sample_outreach_recipe =
     \<lparr>rc_app_slug = ''acme'', rc_app_name = ''Acme'', rc_route_kind = ''gated'', rc_browser = None,
      rc_readiness_tier = ''outreach_ready'', rc_evidence_verified_at = ''2026-01-01'',
      rc_evidence_urls = [''https://acme.com''],
      rc_outreach = Some \<lparr>os_contact_email = Some ''api@acme.com'', os_approval_reason = ''scope'',
        os_template_id = ''t1'', os_sending_policy = ''controlled_sink_only''\<rparr>\<rparr>"

definition sample_outreach_request :: outreach_request where
  "sample_outreach_request = \<lparr>rq_app_name = ''ACME'', rq_legal_name = ''Co'', rq_website = ''https://co.com'',
     rq_use_case = ''sync''\<rparr>"

definition sample_route :: gated_route where
  "sample_route = (case make_gated_route id sample_outreach_recipe sample_outreach_request of
     Inr g \<Rightarrow> g | Inl _ \<Rightarrow> \<lparr>gr_recipient = [], gr_subject = [], gr_body = [],
       gr_target = \<lparr>gt_app_slug = [], gt_intended_recipient = [], gt_template_id = []\<rparr>\<rparr>)"

lemma sample_route_made:
  "returned (make_gated_route id sample_outreach_recipe sample_outreach_request)"
  by code_simp

lemma sample_route_eq: "make_gated_route id sample_outreach_recipe sample_outreach_request = Inr sample_route"
  using sample_route_made by (auto simp: sample_route_def returned_iff)

lemma outreach_to_reviewed_contact_witness:
  "snd (send_outreach (\<lambda>_ _ _ _. Inl (RuntimeError ''down'')) sample_route ''e1'') =
     [(''api@acme.com'', gr_subject sample_route, gr_body sample_route, ''e1'')]"
proof -
  obtain r c where s: "send_outreach (\<lambda>_ _ _ _. Inl (RuntimeError ''down'')) sample_route ''e1'' = (r, c)"
    by (cases "send_outreach (\<lambda>_ _ _ _. Inl (RuntimeError ''down'')) sample_route ''e1''")
  have "validate_effect_identity ''e1'' = Inr ''e1''" by code_simp
  then show ?thesis
    using outreach_to_reviewed_contact [OF sample_route_eq s] s by (auto simp: sample_outreach_recipe_def)
qed

end
