(* ===== verification/Sessions.thy ===== *)
theory Sessions
  imports Host_Policy "HOL-Library.AList"
begin

text \<open>
  The browser sessions of the isolated service: the display pool
  (\<^theory_text>\<open>browser_service/display_pool.py\<close>), the lifetime rule
  (\<^theory_text>\<open>ops/browser/session_liveness.py\<close>), the session manager with its capacity, leases,
  closing and janitor (\<^theory_text>\<open>browser_service/session_manager.py\<close>), the session creation and
  closer of \<^theory_text>\<open>browser_service/main.py\<close>, and the live-view grants
  (\<^theory_text>\<open>ops/browser/live_view.py\<close>, \<^theory_text>\<open>browser_service/novnc.py\<close>).

  Session objects outlive their registry entry, as a closing coroutine still holds
  one: \<^theory_text>\<open>sm_objects\<close> are the objects by id, \<^theory_text>\<open>sm_ids\<close> the keys of the registry in
  insertion order. A call that awaits is split at its awaits, so that other calls
  interleave there; instants are integers.
\<close>

section \<open>Displays\<close>

record display_slot =
  ds_index :: nat
  ds_display_num :: nat
  ds_vnc_port :: nat
  ds_view_vnc_port :: nat

record display_pool =
  dp_all :: "display_slot list"
  dp_free :: "nat set"

definition max_display_slots :: int where
  "max_display_slots = 10"

definition make_display_pool :: "int \<Rightarrow> nat \<Rightarrow> nat \<Rightarrow> nat \<Rightarrow> display_pool result" where
  "make_display_pool slots display_base vnc_port_base view_vnc_port_base =
     (if slots < 0 then Inl (ValueError ''display slot count cannot be negative'')
      else if max_display_slots < slots
      then Inl (ValueError ''at most 10 display slots are supported'')
      else Inr \<lparr>dp_all = map (\<lambda>i. \<lparr>ds_index = i, ds_display_num = display_base + i,
                     ds_vnc_port = vnc_port_base + i, ds_view_vnc_port = view_vnc_port_base + i\<rparr>)
                     [0..<nat slots],
                dp_free = {0..<nat slots}\<rparr>)"

definition acquire :: "display_pool \<Rightarrow> display_pool \<times> display_slot option result" where
  "acquire p =
     (if dp_all p = [] then (p, Inr None)
      else if dp_free p = {} then (p, Inl (DisplayUnavailable ''display_slot_exhausted''))
      else let index = Min (dp_free p)
           in (p\<lparr>dp_free := dp_free p - {index}\<rparr>, Inr (Some (dp_all p ! index))))"

definition release_slot :: "display_pool \<Rightarrow> display_slot option \<Rightarrow> display_pool" where
  "release_slot p slot =
     (case slot of None \<Rightarrow> p
      | Some d \<Rightarrow> if ds_index d < length (dp_all p)
                  then p\<lparr>dp_free := insert (ds_index d) (dp_free p)\<rparr> else p)"

section \<open>The lifetime rule\<close>

datatype session_expiry = Session_Max_Age_Exceeded | Session_Idle_Expired

fun expiry_text :: "session_expiry \<Rightarrow> string" where
  "expiry_text Session_Max_Age_Exceeded = ''session_max_age_exceeded''"
| "expiry_text Session_Idle_Expired = ''session_idle_expired''"

definition session_expiry ::
    "int \<Rightarrow> int \<Rightarrow> int \<Rightarrow> int \<Rightarrow> int \<Rightarrow> bool \<Rightarrow> session_expiry option" where
  "session_expiry now created_at last_active_at inactivity maximum_age hitl_attached =
     (if maximum_age \<le> now - created_at then Some Session_Max_Age_Exceeded
      else if hitl_attached then None
      else if inactivity < now - last_active_at then Some Session_Idle_Expired
      else None)"

section \<open>Session objects\<close>

datatype session_lifecycle = ACTIVE | CLOSING | CLOSED

text \<open>The worker context, and before it exists the launch that will yield it, with the
  display the launch was given.\<close>

datatype browser_state =
  No_Browser | Launching "display_slot option" | Running "display_slot option"

record managed_session =
  ms_session_id :: string
  ms_owner :: string
  ms_app_slug :: string
  ms_capability_digest :: string
  ms_browser :: browser_state
  ms_display_slot :: "display_slot option"
  ms_interactive_ready :: bool
  ms_live_view_allowed :: bool
  ms_account_ref :: "string option"
  ms_secret_scope :: string
  ms_run_id :: string
  ms_allowed_hosts :: "browser_allowed_hosts option"
  ms_lifecycle :: session_lifecycle
  ms_active_operations :: nat
  ms_capacity_released :: bool
  ms_hitl_pending :: bool
  ms_hitl_generation :: nat
  ms_final_probe_generation :: "nat option"
  ms_created_at :: int
  ms_last_active_at :: int
  ms_maximum_expires_at :: int
  ms_reason_code :: string
  ms_last_continuity_event :: string

definition touch :: "int \<Rightarrow> managed_session \<Rightarrow> managed_session" where
  "touch now s = s\<lparr>ms_last_active_at := now\<rparr>"

definition authorize_navigation ::
    "(string \<Rightarrow> bool) \<Rightarrow> managed_session \<Rightarrow> string \<Rightarrow> browser_host_decision result" where
  "authorize_navigation v6 s url =
     evaluate_navigation v6 url
       (case ms_allowed_hosts s of Some a \<Rightarrow> a
        | None \<Rightarrow> \<lparr>ah_app_slug = ms_app_slug s, ah_exact_hosts = [],
                  ah_vendor_wildcard_domains = []\<rparr>)"

definition maximum_age_window :: "managed_session \<Rightarrow> int" where
  "maximum_age_window s = ms_maximum_expires_at s - ms_created_at s"

text \<open>Crossing a human gate revokes the debt of a final probe, and entering one starts a
  new generation.\<close>

definition set_hitl_pending :: "bool \<Rightarrow> managed_session \<Rightarrow> managed_session" where
  "set_hitl_pending pending s =
     (if pending = ms_hitl_pending s then s
      else s\<lparr>ms_final_probe_generation := None,
             ms_hitl_generation := (if pending then ms_hitl_generation s + 1 else ms_hitl_generation s),
             ms_hitl_pending := pending\<rparr>)"

section \<open>The manager\<close>

record session_manager =
  sm_objects :: "string \<Rightarrow> managed_session option"
  sm_ids :: "string list"
  sm_max_sessions :: nat
  sm_available :: nat
  sm_held_slots :: "string set"
  sm_accepting :: bool
  sm_inactivity :: int
  sm_maximum_age :: int
  sm_recent_closures :: "(string \<times> string) list"

definition make_manager :: "nat \<Rightarrow> int \<Rightarrow> int \<Rightarrow> session_manager" where
  "make_manager max_sessions inactivity maximum_age =
     \<lparr>sm_objects = Map.empty, sm_ids = [], sm_max_sessions = max_sessions,
      sm_available = max_sessions, sm_held_slots = {}, sm_accepting = True,
      sm_inactivity = inactivity, sm_maximum_age = maximum_age, sm_recent_closures = []\<rparr>"

definition get_if_present :: "session_manager \<Rightarrow> string \<Rightarrow> managed_session option" where
  "get_if_present m sid = (if sid \<in> set (sm_ids m) then sm_objects m sid else None)"

definition put_object :: "string \<Rightarrow> managed_session \<Rightarrow> session_manager \<Rightarrow> session_manager" where
  "put_object sid s m = m\<lparr>sm_objects := (sm_objects m)(sid \<mapsto> s)\<rparr>"

definition begin_drain :: "session_manager \<Rightarrow> session_manager" where
  "begin_drain m = m\<lparr>sm_accepting := False\<rparr>"

definition undrain :: "session_manager \<Rightarrow> session_manager" where
  "undrain m = m\<lparr>sm_accepting := True\<rparr>"

definition acquire_capacity :: "session_manager \<Rightarrow> string \<Rightarrow> session_manager \<times> unit result" where
  "acquire_capacity m sid =
     (if \<not> sm_accepting m then (m, Inl (SessionUnavailable ''service_draining''))
      else if sm_available m = 0 then (m, Inl (SessionUnavailable ''capacity_exhausted''))
      else (m\<lparr>sm_available := sm_available m - 1, sm_held_slots := insert sid (sm_held_slots m)\<rparr>,
            Inr ()))"

text \<open>\<^theory_text>\<open>BoundedSemaphore.release\<close> refuses to pass its bound, and the refusal is
  suppressed.\<close>

definition release_capacity :: "session_manager \<Rightarrow> string \<Rightarrow> session_manager" where
  "release_capacity m sid =
     (case sm_objects m sid of
        None \<Rightarrow> m
      | Some s \<Rightarrow>
          if ms_capacity_released s then m
          else (put_object sid (s\<lparr>ms_capacity_released := True\<rparr>) m)
                 \<lparr>sm_held_slots := sm_held_slots m - {sid},
                  sm_available := (if sm_available m < sm_max_sessions m
                                   then sm_available m + 1 else sm_available m)\<rparr>)"

record session_request =
  sr_owner :: string
  sr_app_slug :: string
  sr_capability_digest :: string
  sr_secret_scope :: string
  sr_account_ref :: "string option"
  sr_run_id :: string
  sr_allowed_hosts :: "browser_allowed_hosts option"

definition new_session :: "string \<Rightarrow> int \<Rightarrow> session_request \<Rightarrow> int \<Rightarrow> managed_session" where
  "new_session sid now r maximum_age =
     \<lparr>ms_session_id = sid, ms_owner = sr_owner r, ms_app_slug = sr_app_slug r,
      ms_capability_digest = sr_capability_digest r, ms_browser = No_Browser,
      ms_display_slot = None, ms_interactive_ready = False,
      ms_live_view_allowed = True, ms_account_ref = sr_account_ref r,
      ms_secret_scope = sr_secret_scope r,
      ms_run_id = (if sr_run_id r = [] then sr_secret_scope r else sr_run_id r),
      ms_allowed_hosts = sr_allowed_hosts r, ms_lifecycle = ACTIVE,
      ms_active_operations = 0, ms_capacity_released = False,
      ms_hitl_pending = False, ms_hitl_generation = 0,
      ms_final_probe_generation = None, ms_created_at = now,
      ms_last_active_at = now, ms_maximum_expires_at = now + maximum_age,
      ms_reason_code = [], ms_last_continuity_event = []\<rparr>"

text \<open>\<^theory_text>\<open>sid\<close> is the fresh uuid.\<close>

definition create ::
    "string \<Rightarrow> int \<Rightarrow> session_request \<Rightarrow> session_manager \<Rightarrow>
     session_manager \<times> managed_session result" where
  "create sid now r m =
     (case (case sr_allowed_hosts r of None \<Rightarrow> Inr ()
            | Some a \<Rightarrow>
                if ah_app_slug a \<noteq> sr_app_slug r
                then Inl (SessionUnavailable ''browser_allow_list_app_mismatch'')
                else if patterns a = [] then Inl (SessionUnavailable ''browser_allow_list_empty'')
                else Inr ()) of
        Inl e \<Rightarrow> (m, Inl e)
      | Inr _ \<Rightarrow>
          (case acquire_capacity m sid of
             (m1, Inl e) \<Rightarrow> (m1, Inl e)
           | (m1, Inr _) \<Rightarrow>
               let s = new_session sid now r (sm_maximum_age m)
               in ((put_object sid s m1)\<lparr>sm_ids := sm_ids m1 @ [sid]\<rparr>, Inr s)))"

definition find_bound_sessions ::
    "session_manager \<Rightarrow> string \<Rightarrow> string \<Rightarrow> string \<Rightarrow> string \<Rightarrow> string \<Rightarrow> string \<Rightarrow> string list" where
  "find_bound_sessions m owner digest app_slug secret_scope account_ref run_id =
     filter (\<lambda>sid. case sm_objects m sid of None \<Rightarrow> False
        | Some s \<Rightarrow> ms_lifecycle s \<in> {ACTIVE, CLOSING} \<and> ms_owner s = owner \<and>
            ms_capability_digest s = digest \<and> ms_app_slug s = app_slug \<and>
            ms_secret_scope s = secret_scope \<and>
            ms_run_id s = (if run_id = [] then secret_scope else run_id) \<and>
            ms_account_ref s = Some account_ref) (sm_ids m)"

definition recent_closure_reason :: "session_manager \<Rightarrow> string \<Rightarrow> string option" where
  "recent_closure_reason m sid = map_of (sm_recent_closures m) sid"

section \<open>Leases and keep-alive\<close>

definition lease_enter ::
    "string \<Rightarrow> int \<Rightarrow> session_manager \<Rightarrow> session_manager \<times> managed_session result" where
  "lease_enter sid now m =
     (case get_if_present m sid of
        None \<Rightarrow> (m, Inl (SessionUnavailable ''session_not_found''))
      | Some s \<Rightarrow>
          if ms_lifecycle s \<noteq> ACTIVE then (m, Inl (SessionUnavailable ''session_closing''))
          else let s' = touch now (s\<lparr>ms_active_operations := ms_active_operations s + 1\<rparr>)
               in (put_object sid s' m, Inr s'))"

definition lease_exit :: "string \<Rightarrow> int \<Rightarrow> session_manager \<Rightarrow> session_manager" where
  "lease_exit sid now m =
     (case sm_objects m sid of None \<Rightarrow> m
      | Some s \<Rightarrow>
          put_object sid (touch now (s\<lparr>ms_active_operations := ms_active_operations s - 1\<rparr>)) m)"

definition session_continuity_events :: "string set" where
  "session_continuity_events =
     {''email_verification'', ''captcha_paused'', ''navigation_retry'', ''worker_restart'',
      ''api_restart'', ''live_view_client_disconnect''}"

definition idle_refreshing_events :: "string set" where
  "idle_refreshing_events = session_continuity_events - {''live_view_client_disconnect''}"

definition retain ::
    "string \<Rightarrow> string \<Rightarrow> int \<Rightarrow> session_manager \<Rightarrow> session_manager \<times> managed_session result" where
  "retain sid event now m =
     (if event \<notin> session_continuity_events
      then (m, Inl (SessionUnavailable ''session_continuity_event_unknown''))
      else (case get_if_present m sid of
          None \<Rightarrow> (m, Inl (SessionUnavailable ''session_not_found''))
        | Some s \<Rightarrow>
            if ms_lifecycle s \<noteq> ACTIVE then (m, Inl (SessionUnavailable ''session_closing''))
            else let s1 = s\<lparr>ms_last_continuity_event := event\<rparr>;
                     s2 = (if event \<in> idle_refreshing_events then touch now s1 else s1)
                 in (put_object sid s2 m, Inr s2)))"

section \<open>Closing\<close>

definition recent_closure_capacity :: nat where
  "recent_closure_capacity = 64"

text \<open>The newest closure is last; the oldest are dropped beyond the bound.\<close>

definition record_closure :: "string \<Rightarrow> string \<Rightarrow> session_manager \<Rightarrow> session_manager" where
  "record_closure sid reason m =
     (let ring = AList.delete sid (sm_recent_closures m) @ [(sid, reason)]
      in m\<lparr>sm_recent_closures := drop (length ring - recent_closure_capacity) ring\<rparr>)"

text \<open>The part of \<^theory_text>\<open>close\<close> before its first await: \<^theory_text>\<open>Some\<close> is an early return.\<close>

definition close_begin ::
    "string \<Rightarrow> string \<Rightarrow> session_manager \<Rightarrow> session_manager \<times> string option" where
  "close_begin sid reason m =
     (case get_if_present m sid of
        None \<Rightarrow> (m, Some ''session_not_found'')
      | Some s \<Rightarrow>
          if ms_lifecycle s = CLOSED
          then (m, Some (if ms_reason_code s = [] then ''closed'' else ms_reason_code s))
          else (put_object sid (s\<lparr>ms_lifecycle := CLOSING, ms_reason_code := reason\<rparr>) m, None))"

text \<open>The rest of \<^theory_text>\<open>close\<close>, split at its awaits. Once the drain of the operations ended, those left
  over are recorded as cancelled, and the closer of the service revokes the gate before it awaits
  the drain of the live attachments.\<close>

definition close_drained :: "string \<Rightarrow> managed_session \<Rightarrow> managed_session" where
  "close_drained reason s = set_hitl_pending False
     (if 0 < ms_active_operations s then s\<lparr>ms_reason_code := reason @ '':operations_cancelled''\<rparr> else s)"

text \<open>Where the closer is when that drain ended. \<^theory_text>\<open>drained\<close>: no live attachment survived it;
  \<^theory_text>\<open>worker\<close>: the service has a browser worker. With a worker context it awaits the worker's
  \<^theory_text>\<open>stop\<close>, which returns whether or not the browser went: it swallows a failed teardown, and
  returns at once for a browser another close is already stopping.\<close>

datatype closer_point = Closer_Raised | Closer_Stopping | Closer_Returned

definition session_closer :: "bool \<Rightarrow> bool \<Rightarrow> managed_session \<Rightarrow> closer_point" where
  "session_closer drained worker s =
     (if \<not> drained then Closer_Raised
      else (case ms_browser s of
          Running d \<Rightarrow> if \<not> worker then Closer_Raised else Closer_Stopping
        | _ \<Rightarrow> Closer_Returned))"

text \<open>The return of the closer, which gives the display back, and the end of \<^theory_text>\<open>close\<close>.\<close>

definition finish_close ::
    "string \<Rightarrow> string \<Rightarrow> managed_session \<Rightarrow> session_manager \<Rightarrow>
     session_manager \<times> display_slot option \<times> string option" where
  "finish_close sid reason s m =
     (let m1 = put_object sid (s\<lparr>ms_display_slot := None, ms_lifecycle := CLOSED\<rparr>) m;
          m2 = record_closure sid reason m1;
          m3 = m2\<lparr>sm_ids := remove1 sid (sm_ids m2)\<rparr>
      in (release_capacity m3 sid, ms_display_slot s,
          Some (if ms_reason_code s = [] then ''closed'' else ms_reason_code s)))"

text \<open>What follows the drain of the attachments: a closer that raised keeps the session in the
  registry; one that awaits \<^theory_text>\<open>stop\<close> has changed nothing and has no answer yet.\<close>

definition close_detach ::
    "string \<Rightarrow> string \<Rightarrow> bool \<Rightarrow> bool \<Rightarrow> session_manager \<Rightarrow>
     session_manager \<times> display_slot option \<times> string option" where
  "close_detach sid reason drained worker m =
     (case sm_objects m sid of
        None \<Rightarrow> (m, None, Some ''session_not_found'')
      | Some s \<Rightarrow>
          (case session_closer drained worker s of
             Closer_Raised \<Rightarrow>
               (put_object sid (s\<lparr>ms_reason_code := reason @ '':teardown_failed''\<rparr>) m, None,
                Some (reason @ '':teardown_failed''))
           | Closer_Stopping \<Rightarrow> (m, None, None)
           | Closer_Returned \<Rightarrow> finish_close sid reason s m))"

text \<open>And what follows the return of \<^theory_text>\<open>stop\<close>.\<close>

definition close_stopped ::
    "string \<Rightarrow> string \<Rightarrow> session_manager \<Rightarrow> session_manager \<times> display_slot option \<times> string option" where
  "close_stopped sid reason m =
     (case sm_objects m sid of
        None \<Rightarrow> (m, None, Some ''session_not_found'')
      | Some s \<Rightarrow> finish_close sid reason (s\<lparr>ms_browser := No_Browser\<rparr>) m)"

text \<open>All of it when nothing interleaves.\<close>

definition close_tail ::
    "string \<Rightarrow> string \<Rightarrow> bool \<Rightarrow> bool \<Rightarrow> session_manager \<Rightarrow>
     session_manager \<times> display_slot option \<times> string option" where
  "close_tail sid reason drained worker m =
     (case sm_objects m sid of
        None \<Rightarrow> (m, None, Some ''session_not_found'')
      | Some s \<Rightarrow>
          (case close_detach sid reason drained worker (put_object sid (close_drained reason s) m) of
             (m', slot, None) \<Rightarrow> close_stopped sid reason m'
           | (m', slot, Some code) \<Rightarrow> (m', slot, Some code)))"

definition run_release_reasons :: "string set" where
  "run_release_reasons = {''run_terminal_status'', ''run_cancelled'', ''run_reset''}"

definition bound_run_session_ids ::
    "session_manager \<Rightarrow> string \<Rightarrow> string option \<Rightarrow> string list" where
  "bound_run_session_ids m run_id owner =
     (if run_id = [] then []
      else filter (\<lambda>sid. case sm_objects m sid of None \<Rightarrow> False
             | Some s \<Rightarrow> ms_lifecycle s \<in> {ACTIVE, CLOSING} \<and> ms_run_id s = run_id \<and>
                 (case owner of None \<Rightarrow> True | Some ow \<Rightarrow> ms_owner s = ow)) (sm_ids m))"

section \<open>The janitor\<close>

definition teardown_failed_suffix :: string where
  "teardown_failed_suffix = '':teardown_failed''"

definition expiry_of ::
    "(string \<Rightarrow> bool) \<Rightarrow> int \<Rightarrow> session_manager \<Rightarrow> managed_session \<Rightarrow> string option" where
  "expiry_of attached now m s =
     (if 0 < ms_active_operations s then None
      else if ms_lifecycle s = CLOSING \<and> ends_with teardown_failed_suffix (ms_reason_code s)
      then Some (take (length (ms_reason_code s) - length teardown_failed_suffix) (ms_reason_code s))
      else if ms_lifecycle s \<noteq> ACTIVE then None
      else map_option expiry_text
             (session_expiry now (ms_created_at s) (ms_last_active_at s) (sm_inactivity m)
                (maximum_age_window s) (ms_hitl_pending s \<and> attached (ms_session_id s))))"

definition expired_session_ids ::
    "(string \<Rightarrow> bool) \<Rightarrow> int \<Rightarrow> session_manager \<Rightarrow> (string \<times> string) list" where
  "expired_session_ids attached now m =
     concat (map (\<lambda>sid. case sm_objects m sid of None \<Rightarrow> []
        | Some s \<Rightarrow> (case expiry_of attached now m s of None \<Rightarrow> []
            | Some r \<Rightarrow> [(ms_session_id s, r)])) (sm_ids m))"

section \<open>The service\<close>

record service =
  sv_manager :: session_manager
  sv_pool :: display_pool

text \<open>\<^theory_text>\<open>create_session\<close> up to the await of the launch, which is given the leased
  display.\<close>

definition create_session ::
    "string \<Rightarrow> int \<Rightarrow> session_request \<Rightarrow> service \<Rightarrow> service \<times> unit result" where
  "create_session sid now r v =
     (case create sid now r (sv_manager v) of
        (m1, Inl e) \<Rightarrow> (v\<lparr>sv_manager := m1\<rparr>, Inl e)
      | (m1, Inr s) \<Rightarrow>
          (case acquire (sv_pool v) of
             (p, Inl e) \<Rightarrow>
               (let m2 = fst (close_begin sid ''display_slot_exhausted'' m1);
                    m3 = fst (close_tail sid ''display_slot_exhausted'' True True m2)
                in (v\<lparr>sv_manager := m3, sv_pool := p\<rparr>, Inl e))
           | (p, Inr slot) \<Rightarrow>
               (v\<lparr>sv_manager := put_object sid
                    (s\<lparr>ms_display_slot := slot, ms_browser := Launching slot\<rparr>) m1,
                  sv_pool := p\<rparr>, Inr ())))"

definition launch_done :: "bool \<Rightarrow> string \<Rightarrow> session_manager \<Rightarrow> session_manager" where
  "launch_done interactive sid m =
     (case sm_objects m sid of None \<Rightarrow> m
      | Some s \<Rightarrow> (case ms_browser s of
            Launching d \<Rightarrow> put_object sid (s\<lparr>ms_browser := Running d,
                ms_interactive_ready := (interactive \<and> ms_display_slot s \<noteq> None),
                ms_reason_code := ''session_started''\<rparr>) m
          | _ \<Rightarrow> m))"

definition launch_failed :: "string \<Rightarrow> session_manager \<Rightarrow> session_manager" where
  "launch_failed sid m =
     (case sm_objects m sid of None \<Rightarrow> m
      | Some s \<Rightarrow> (case ms_browser s of
            Launching d \<Rightarrow> put_object sid (s\<lparr>ms_browser := No_Browser\<rparr>) m
          | _ \<Rightarrow> m))"

text \<open>A part of a close, with the display it gives back.\<close>

definition giving_back ::
    "(session_manager \<Rightarrow> session_manager \<times> display_slot option \<times> string option) \<Rightarrow> service \<Rightarrow>
     service \<times> string option" where
  "giving_back f v =
     (case f (sv_manager v) of
        (m, slot, code) \<Rightarrow> (v\<lparr>sv_manager := m, sv_pool := release_slot (sv_pool v) slot\<rparr>, code))"

text \<open>\<^theory_text>\<open>close\<close> without interleaving, and the two loops over it. \<^theory_text>\<open>outcome\<close> gives what
  the drain of the attachments answers for a session and whether there is a worker.\<close>

definition close_session ::
    "(string \<Rightarrow> bool \<times> bool) \<Rightarrow> string \<Rightarrow> string \<Rightarrow> service \<Rightarrow> service \<times> string" where
  "close_session outcome sid reason v =
     (case close_begin sid reason (sv_manager v) of
        (m, Some code) \<Rightarrow> (v\<lparr>sv_manager := m\<rparr>, code)
      | (m, None) \<Rightarrow>
          map_prod id the (giving_back (close_tail sid reason (fst (outcome sid)) (snd (outcome sid)))
            (v\<lparr>sv_manager := m\<rparr>)))"

fun close_each ::
    "(string \<Rightarrow> bool \<times> bool) \<Rightarrow> (string \<times> string) list \<Rightarrow> service \<Rightarrow> service \<times> string list" where
  "close_each outcome [] v = (v, [])"
| "close_each outcome ((sid, reason) # rest) v =
     (let v1 = fst (close_session outcome sid reason v);
          (v2, closed) = close_each outcome rest v1
      in (v2, if get_if_present (sv_manager v1) sid = None then sid # closed else closed))"

definition release_run ::
    "(string \<Rightarrow> bool \<times> bool) \<Rightarrow> string \<Rightarrow> string \<Rightarrow> string option \<Rightarrow> service \<Rightarrow>
     service \<times> string list result" where
  "release_run outcome run_id reason owner v =
     (if reason \<notin> run_release_reasons
      then (v, Inl (SessionUnavailable ''session_release_reason_not_allowed''))
      else if run_id = [] then (v, Inl (SessionUnavailable ''session_run_binding_missing''))
      else (case close_each outcome
                   (map (\<lambda>sid. (sid, reason)) (bound_run_session_ids (sv_manager v) run_id owner)) v of
              (v', closed) \<Rightarrow> (v', Inr closed)))"

definition sweep ::
    "(string \<Rightarrow> bool \<times> bool) \<Rightarrow> (string \<Rightarrow> bool) \<Rightarrow> int \<Rightarrow> service \<Rightarrow> service \<times> string list" where
  "sweep outcome attached now v =
     close_each outcome (expired_session_ids attached now (sv_manager v)) v"

definition close_all :: "(string \<Rightarrow> bool \<times> bool) \<Rightarrow> service \<Rightarrow> service" where
  "close_all outcome v =
     fst (close_each outcome (map (\<lambda>sid. (sid, ''service_shutdown'')) (sm_ids (sv_manager v))) v)"

text \<open>One step of the service between two awaits.\<close>

datatype service_call =
    Create_Session string int session_request
  | Launch_Done bool string
  | Launch_Failed string
  | Lease_Enter string int
  | Lease_Exit string int
  | Retain string string int
  | Set_Hitl string bool
  | Begin_Drain
  | Undrain
  | Close_Begin string string
  | Close_Drained string string
  | Close_Detach string string bool bool
  | Close_Stopped string string

definition on_manager :: "(session_manager \<Rightarrow> session_manager) \<Rightarrow> service \<Rightarrow> service" where
  "on_manager f v = v\<lparr>sv_manager := f (sv_manager v)\<rparr>"

definition set_object_hitl :: "string \<Rightarrow> bool \<Rightarrow> session_manager \<Rightarrow> session_manager" where
  "set_object_hitl sid b m =
     (case sm_objects m sid of None \<Rightarrow> m | Some s \<Rightarrow> put_object sid (set_hitl_pending b s) m)"

definition drain_object :: "string \<Rightarrow> string \<Rightarrow> session_manager \<Rightarrow> session_manager" where
  "drain_object sid reason m =
     (case sm_objects m sid of None \<Rightarrow> m | Some s \<Rightarrow> put_object sid (close_drained reason s) m)"

fun service_step :: "service_call \<Rightarrow> service \<Rightarrow> service" where
  "service_step (Create_Session sid now r) v = fst (create_session sid now r v)"
| "service_step (Launch_Done i sid) v = on_manager (launch_done i sid) v"
| "service_step (Launch_Failed sid) v = on_manager (launch_failed sid) v"
| "service_step (Lease_Enter sid now) v = on_manager (\<lambda>m. fst (lease_enter sid now m)) v"
| "service_step (Lease_Exit sid now) v = on_manager (lease_exit sid now) v"
| "service_step (Retain sid e now) v = on_manager (\<lambda>m. fst (retain sid e now m)) v"
| "service_step (Set_Hitl sid b) v = on_manager (set_object_hitl sid b) v"
| "service_step Begin_Drain v = on_manager begin_drain v"
| "service_step Undrain v = on_manager undrain v"
| "service_step (Close_Begin sid r) v = on_manager (\<lambda>m. fst (close_begin sid r m)) v"
| "service_step (Close_Drained sid r) v = on_manager (drain_object sid r) v"
| "service_step (Close_Detach sid r d w) v = fst (giving_back (close_detach sid r d w) v)"
| "service_step (Close_Stopped sid r) v = fst (giving_back (close_stopped sid r) v)"

text \<open>When a step can happen: ids are fresh, the parts of a close follow its begin, and a \<^theory_text>\<open>stop\<close>
  was awaited for a browser that had launched. A \<^theory_text>\<open>tidy\<close> run closes no session whose browser is
  still launching.\<close>

definition is_launching :: "managed_session \<Rightarrow> bool" where
  "is_launching s = (case ms_browser s of Launching d \<Rightarrow> True | _ \<Rightarrow> False)"

fun enabled :: "bool \<Rightarrow> service_call \<Rightarrow> service \<Rightarrow> bool" where
  "enabled tidy (Create_Session sid now r) v = (sm_objects (sv_manager v) sid = None)"
| "enabled tidy (Close_Drained sid r) v =
     (case sm_objects (sv_manager v) sid of None \<Rightarrow> False | Some s \<Rightarrow> ms_lifecycle s \<noteq> ACTIVE)"
| "enabled tidy (Close_Detach sid r d w) v =
     (case sm_objects (sv_manager v) sid of None \<Rightarrow> False
      | Some s \<Rightarrow> ms_lifecycle s \<noteq> ACTIVE \<and> (tidy \<longrightarrow> \<not> is_launching s))"
| "enabled tidy (Close_Stopped sid r) v =
     (case sm_objects (sv_manager v) sid of None \<Rightarrow> False
      | Some s \<Rightarrow> ms_lifecycle s \<noteq> ACTIVE \<and> \<not> is_launching s)"
| "enabled tidy c v = True"

fun service_run :: "bool \<Rightarrow> service_call list \<Rightarrow> service \<Rightarrow> service option" where
  "service_run tidy [] v = Some v"
| "service_run tidy (c # cs) v =
     (if enabled tidy c v then service_run tidy cs (service_step c v) else None)"

definition initial_service :: "nat \<Rightarrow> int \<Rightarrow> int \<Rightarrow> display_pool \<Rightarrow> service" where
  "initial_service n inactivity maximum_age p =
     \<lparr>sv_manager = make_manager n inactivity maximum_age, sv_pool = p\<rparr>"

section \<open>The invariant\<close>

definition browser_display :: "managed_session \<Rightarrow> display_slot option" where
  "browser_display s = (case ms_browser s of Launching d \<Rightarrow> d | Running d \<Rightarrow> d | No_Browser \<Rightarrow> None)"

definition object_ok :: "bool \<Rightarrow> string list \<Rightarrow> string \<Rightarrow> managed_session \<Rightarrow> bool" where
  "object_ok tidy ids sid s =
     (ms_session_id s = sid \<and> (ms_capacity_released s \<longleftrightarrow> ms_lifecycle s = CLOSED) \<and>
      (sid \<in> set ids \<longleftrightarrow> ms_lifecycle s \<noteq> CLOSED) \<and>
      (ms_lifecycle s = CLOSED \<longrightarrow> ms_display_slot s = None) \<and>
      (tidy \<longrightarrow> browser_display s = None \<or> browser_display s = ms_display_slot s))"

definition manager_inv :: "bool \<Rightarrow> session_manager \<Rightarrow> bool" where
  "manager_inv tidy m =
     ((\<forall>sid s. sm_objects m sid = Some s \<longrightarrow> object_ok tidy (sm_ids m) sid s) \<and>
      distinct (sm_ids m) \<and> set (sm_ids m) \<subseteq> dom (sm_objects m) \<and>
      sm_held_slots m = set (sm_ids m) \<and> sm_available m + length (sm_ids m) = sm_max_sessions m \<and>
      length (sm_recent_closures m) \<le> recent_closure_capacity)"

definition pool_ok :: "display_pool \<Rightarrow> bool" where
  "pool_ok p =
     ((\<forall>i < length (dp_all p). ds_index (dp_all p ! i) = i) \<and> dp_free p \<subseteq> {..<length (dp_all p)})"

definition display_inv :: "(string \<Rightarrow> managed_session option) \<Rightarrow> display_pool \<Rightarrow> bool" where
  "display_inv obj p =
     (pool_ok p \<and>
      (\<forall>sid s d. obj sid = Some s \<and> ms_display_slot s = Some d \<longrightarrow>
         d \<in> set (dp_all p) \<and> ds_index d \<notin> dp_free p \<and>
         (\<forall>sid' s' d'. obj sid' = Some s' \<and> ms_display_slot s' = Some d' \<and> ds_index d' = ds_index d \<longrightarrow>
            sid' = sid)))"

definition service_inv :: "bool \<Rightarrow> service \<Rightarrow> bool" where
  "service_inv tidy v =
     (manager_inv tidy (sv_manager v) \<and> display_inv (sm_objects (sv_manager v)) (sv_pool v))"

text \<open>A change of one object that keeps its id, its display and whether it is closed.\<close>

lemma manager_inv_put:
  "manager_inv tidy m \<Longrightarrow> sm_objects m sid = Some s \<Longrightarrow>
   (object_ok tidy (sm_ids m) sid s \<Longrightarrow> object_ok tidy (sm_ids m) sid s') \<Longrightarrow>
   manager_inv tidy (put_object sid s' m)"
  by (auto simp: manager_inv_def put_object_def)

lemma display_inv_put:
  "display_inv obj p \<Longrightarrow> obj sid = Some s \<Longrightarrow> ms_display_slot s' = ms_display_slot s \<Longrightarrow>
   display_inv (obj(sid \<mapsto> s')) p"
  unfolding display_inv_def by (auto split: if_splits) 

lemma service_inv_put:
  assumes "service_inv tidy v" "sm_objects (sv_manager v) sid = Some s"
    "object_ok tidy (sm_ids (sv_manager v)) sid s \<Longrightarrow> object_ok tidy (sm_ids (sv_manager v)) sid s'"
    "ms_display_slot s' = ms_display_slot s"
  shows "service_inv tidy (v\<lparr>sv_manager := put_object sid s' (sv_manager v)\<rparr>)"
  using assms manager_inv_put [of tidy "sv_manager v" sid s s']
    display_inv_put [of "sm_objects (sv_manager v)" "sv_pool v" sid s s']
  by (simp add: service_inv_def put_object_def)

lemma set_hitl_fields [simp]:
  "ms_session_id (set_hitl_pending b s) = ms_session_id s"
  "ms_display_slot (set_hitl_pending b s) = ms_display_slot s"
  "ms_browser (set_hitl_pending b s) = ms_browser s"
  "ms_lifecycle (set_hitl_pending b s) = ms_lifecycle s"
  "ms_capacity_released (set_hitl_pending b s) = ms_capacity_released s"
  "ms_active_operations (set_hitl_pending b s) = ms_active_operations s"
  "ms_hitl_pending (set_hitl_pending b s) = b"
  by (simp_all add: set_hitl_pending_def)

lemma get_if_present_Some:
  "get_if_present m sid = Some s \<longleftrightarrow> sid \<in> set (sm_ids m) \<and> sm_objects m sid = Some s"
  by (simp add: get_if_present_def)

lemma manager_update_id [simp]: "v\<lparr>sv_manager := sv_manager v\<rparr> = v"
  by simp

text \<open>The calls that change one object.\<close>

lemma object_calls_inv:
  assumes "service_inv tidy v"
  shows "service_inv tidy (on_manager (launch_done i sid) v)"
    "service_inv tidy (on_manager (launch_failed sid) v)"
    "service_inv tidy (on_manager (\<lambda>m. fst (lease_enter sid now m)) v)"
    "service_inv tidy (on_manager (lease_exit sid now) v)"
    "service_inv tidy (on_manager (\<lambda>m. fst (retain sid e now m)) v)"
    "service_inv tidy (on_manager (set_object_hitl sid b) v)"
    "service_inv tidy (on_manager (\<lambda>m. fst (close_begin sid r m)) v)"
    "service_inv tidy (on_manager (drain_object sid r) v)"
  using assms
  by (auto simp: drain_object_def close_drained_def on_manager_def launch_done_def launch_failed_def lease_enter_def lease_exit_def
      retain_def set_object_hitl_def close_begin_def touch_def Let_def get_if_present_def object_ok_def
      browser_display_def
      split: option.splits browser_state.splits intro!: service_inv_put)

lemma drain_inv:
  "service_inv tidy v \<Longrightarrow> service_inv tidy (on_manager begin_drain v)"
  "service_inv tidy v \<Longrightarrow> service_inv tidy (on_manager undrain v)"
  by (simp_all add: service_inv_def manager_inv_def on_manager_def begin_drain_def undrain_def)

lemma acquire_capacity_Inr:
  "acquire_capacity m sid = (m1, Inr u) \<Longrightarrow>
   0 < sm_available m \<and>
   m1 = m\<lparr>sm_available := sm_available m - 1, sm_held_slots := insert sid (sm_held_slots m)\<rparr>"
  by (auto simp: acquire_capacity_def split: if_splits)

lemma new_session_fields [simp]:
  "ms_session_id (new_session sid now r age) = sid"
  "ms_display_slot (new_session sid now r age) = None"
  "ms_browser (new_session sid now r age) = No_Browser"
  "ms_lifecycle (new_session sid now r age) = ACTIVE"
  "\<not> ms_capacity_released (new_session sid now r age)"
  "ms_active_operations (new_session sid now r age) = 0"
  "\<not> ms_hitl_pending (new_session sid now r age)"
  by (simp_all add: new_session_def)

lemma create_Inl: "create sid now r m = (m1, Inl e) \<Longrightarrow> m1 = m"
  by (auto simp: create_def acquire_capacity_def Let_def split: sum.splits if_splits option.splits)

lemma create_Inr:
  "create sid now r m = (m1, Inr s) \<Longrightarrow>
   0 < sm_available m \<and> ms_session_id s = sid \<and> ms_display_slot s = None \<and> ms_browser s = No_Browser \<and>
   ms_lifecycle s = ACTIVE \<and> \<not> ms_capacity_released s \<and> ms_active_operations s = 0 \<and>
   m1 = m\<lparr>sm_available := sm_available m - 1, sm_held_slots := insert sid (sm_held_slots m),
          sm_objects := (sm_objects m)(sid \<mapsto> s), sm_ids := sm_ids m @ [sid]\<rparr>"
  by (auto simp: create_def put_object_def Let_def split: sum.splits if_splits option.splits prod.splits
      dest!: acquire_capacity_Inr)

text \<open>A created session, with the display it leased.\<close>

lemma created_inv:
  assumes "manager_inv tidy m" "sm_objects m sid = None" "0 < sm_available m"
    "ms_session_id s = sid" "ms_lifecycle s = ACTIVE" "\<not> ms_capacity_released s"
    "browser_display s = None \<or> browser_display s = ms_display_slot s"
  shows "manager_inv tidy (m\<lparr>sm_available := sm_available m - 1,
     sm_held_slots := insert sid (sm_held_slots m), sm_objects := (sm_objects m)(sid \<mapsto> s),
     sm_ids := sm_ids m @ [sid]\<rparr>)"
proof -
  have "sid \<notin> set (sm_ids m)" using assms(1,2) by (auto simp: manager_inv_def)
  then show ?thesis using assms by (auto simp: manager_inv_def object_ok_def)
qed

lemma acquire_cases:
  "acquire p = (p', Inr None) \<Longrightarrow> p' = p"
  "acquire p = (p', Inl e) \<Longrightarrow> p' = p"
  "acquire p = (p', Inr (Some d)) \<Longrightarrow> pool_ok p \<Longrightarrow>
   d \<in> set (dp_all p) \<and> ds_index d \<in> dp_free p \<and> p' = p\<lparr>dp_free := dp_free p - {ds_index d}\<rparr>"
proof -
  assume a: "acquire p = (p', Inr (Some d))" and ok: "pool_ok p"
  have "finite (dp_free p)" using ok finite_subset by (auto simp: pool_ok_def)
  moreover have ne: "dp_free p \<noteq> {}" using a by (auto simp: acquire_def split: if_splits)
  ultimately have m: "Min (dp_free p) \<in> dp_free p" by simp
  have "d = dp_all p ! Min (dp_free p)" "p' = p\<lparr>dp_free := dp_free p - {Min (dp_free p)}\<rparr>"
    using a by (auto simp: acquire_def Let_def split: if_splits)
  moreover have "ds_index (dp_all p ! Min (dp_free p)) = Min (dp_free p)"
    "Min (dp_free p) < length (dp_all p)"
    using ok m by (auto simp: pool_ok_def)
  ultimately show "d \<in> set (dp_all p) \<and> ds_index d \<in> dp_free p \<and>
      p' = p\<lparr>dp_free := dp_free p - {ds_index d}\<rparr>"
    using m by simp
qed (auto simp: acquire_def Let_def split: if_splits)

lemma display_inv_acquire:
  assumes "display_inv obj p" "obj sid = None" "d \<in> set (dp_all p)" "ds_index d \<in> dp_free p"
    "ms_display_slot s = Some d"
  shows "display_inv (obj(sid \<mapsto> s)) (p\<lparr>dp_free := dp_free p - {ds_index d}\<rparr>)"
proof -
  have "ds_index d' \<noteq> ds_index d" if "obj sid' = Some s'" "ms_display_slot s' = Some d'" for sid' s' d'
    using assms(1,4) that unfolding display_inv_def by metis
  then show ?thesis
    using assms unfolding display_inv_def pool_ok_def by (auto split: if_splits)
qed

lemma display_inv_none:
  "display_inv obj p \<Longrightarrow> ms_display_slot s = None \<Longrightarrow> display_inv (obj(sid \<mapsto> s)) p"
  unfolding display_inv_def by (auto split: if_splits)

lemma display_inv_release:
  assumes "display_inv obj p" "obj sid = Some s" "ms_display_slot s = slot" "ms_display_slot s' = None"
  shows "display_inv (obj(sid \<mapsto> s')) (release_slot p slot)"
proof (cases slot)
  case None
  then show ?thesis using display_inv_none [OF assms(1,4)] by (simp add: release_slot_def)
next
  case (Some d)
  have ok: "pool_ok p" "d \<in> set (dp_all p)" using assms Some by (auto simp: display_inv_def)
  have "ds_index d < length (dp_all p)" using ok by (auto simp: in_set_conv_nth pool_ok_def)
  then show ?thesis
    using assms Some unfolding display_inv_def by (auto simp: release_slot_def pool_ok_def split: if_splits)
qed

lemma record_closure_fields [simp]:
  "sm_objects (record_closure sid r m) = sm_objects m" "sm_ids (record_closure sid r m) = sm_ids m"
  "sm_held_slots (record_closure sid r m) = sm_held_slots m"
  "sm_available (record_closure sid r m) = sm_available m"
  "sm_max_sessions (record_closure sid r m) = sm_max_sessions m"
  "length (sm_recent_closures (record_closure sid r m)) \<le> recent_closure_capacity"
  by (simp_all add: record_closure_def Let_def)

lemma put_object_fields [simp]:
  "sm_objects (put_object sid s m) = (sm_objects m)(sid \<mapsto> s)" "sm_ids (put_object sid s m) = sm_ids m"
  "sm_held_slots (put_object sid s m) = sm_held_slots m"
  "sm_available (put_object sid s m) = sm_available m"
  "sm_max_sessions (put_object sid s m) = sm_max_sessions m"
  "sm_recent_closures (put_object sid s m) = sm_recent_closures m"
  by (simp_all add: put_object_def)

text \<open>Closing an object that is not closed yet gives its slot back; closing it again
  changes no accounting.\<close>

lemma closed_inv:
  assumes "manager_inv tidy m" "sm_objects m sid = Some s0"
    "ms_session_id s = sid" "ms_display_slot s = None" "tidy \<Longrightarrow> browser_display s = None"
    "ms_capacity_released s = ms_capacity_released s0" "ms_lifecycle s = CLOSED"
  shows "manager_inv tidy (release_capacity
     ((record_closure sid r (put_object sid s m))\<lparr>sm_ids := remove1 sid (sm_ids m)\<rparr>) sid)"
proof -
  let ?m = "(record_closure sid r (put_object sid s m))\<lparr>sm_ids := remove1 sid (sm_ids m)\<rparr>"
  have ok: "object_ok tidy (sm_ids m) sid s0" "distinct (sm_ids m)"
    using assms(1,2) by (auto simp: manager_inv_def)
  show ?thesis
  proof (cases "ms_capacity_released s0")
    case True
    then have "sid \<notin> set (sm_ids m)" "remove1 sid (sm_ids m) = sm_ids m"
      using ok by (auto simp: object_ok_def remove1_idem)
    then show ?thesis
      using assms ok True by (auto simp: release_capacity_def manager_inv_def object_ok_def)
  next
    case False
    then have i: "sid \<in> set (sm_ids m)" using ok by (auto simp: object_ok_def)
    then have len: "length (remove1 sid (sm_ids m)) = length (sm_ids m) - 1" "0 < length (sm_ids m)"
      by (auto simp: length_remove1)
    have "sm_available m + length (sm_ids m) = sm_max_sessions m"
      using assms(1) by (simp add: manager_inv_def)
    then have "sm_available m < sm_max_sessions m" using len(2) by linarith
    then show ?thesis
      using assms ok False i len
      by (auto simp: release_capacity_def manager_inv_def object_ok_def browser_display_def)
  qed
qed

lemma release_capacity_objects:
  "sm_objects m sid = Some s \<Longrightarrow>
   sm_objects (release_capacity m sid) = (sm_objects m)(sid \<mapsto> s\<lparr>ms_capacity_released := True\<rparr>)"
  by (cases s) (auto simp: release_capacity_def put_object_def)

lemma close_drained_fields [simp]:
  "ms_session_id (close_drained r s) = ms_session_id s" "ms_lifecycle (close_drained r s) = ms_lifecycle s"
  "ms_display_slot (close_drained r s) = ms_display_slot s" "ms_browser (close_drained r s) = ms_browser s"
  "ms_capacity_released (close_drained r s) = ms_capacity_released s"
  by (simp_all add: close_drained_def)

lemma finish_close_inv:
  assumes "service_inv tidy v" "sm_objects (sv_manager v) sid = Some s0"
    "ms_session_id s = ms_session_id s0" "ms_capacity_released s = ms_capacity_released s0"
    "ms_display_slot s = ms_display_slot s0" "tidy \<Longrightarrow> browser_display s = None"
  shows "service_inv tidy (fst (giving_back (finish_close sid reason s) v))"
proof -
  let ?m = "sv_manager v" and ?s = "s\<lparr>ms_display_slot := None, ms_lifecycle := CLOSED\<rparr>"
  let ?m3 = "(record_closure sid reason (put_object sid ?s ?m))\<lparr>sm_ids := remove1 sid (sm_ids ?m)\<rparr>"
  have o: "object_ok tidy (sm_ids ?m) sid s0" and m: "manager_inv tidy ?m"
    and d: "display_inv (sm_objects ?m) (sv_pool v)"
    using assms(1,2) by (auto simp: service_inv_def manager_inv_def)
  have a: "manager_inv tidy (release_capacity ?m3 sid)"
    using assms(3-6) o by (intro closed_inv [OF m assms(2)]) (auto simp: object_ok_def browser_display_def)
  have "sm_objects (release_capacity ?m3 sid) = (sm_objects ?m)(sid \<mapsto> ?s\<lparr>ms_capacity_released := True\<rparr>)"
    by (subst release_capacity_objects [of _ _ ?s]) simp_all
  moreover have "display_inv ((sm_objects ?m)(sid \<mapsto> ?s\<lparr>ms_capacity_released := True\<rparr>))
      (release_slot (sv_pool v) (ms_display_slot s))"
    using assms(5) by (intro display_inv_release [OF d assms(2)]) auto
  ultimately show ?thesis
    using a by (simp add: giving_back_def finish_close_def Let_def service_inv_def)
qed

lemma close_detach_inv:
  assumes "service_inv tidy v" "sm_objects (sv_manager v) sid = Some s" "tidy \<Longrightarrow> \<not> is_launching s"
  shows "service_inv tidy (fst (giving_back (close_detach sid reason drained worker) v))"
proof (cases "session_closer drained worker s")
  case Closer_Raised
  have "service_inv tidy (v\<lparr>sv_manager := put_object sid
      (s\<lparr>ms_reason_code := reason @ '':teardown_failed''\<rparr>) (sv_manager v)\<rparr>)"
    by (intro service_inv_put [OF assms(1,2)]) (auto simp: object_ok_def browser_display_def)
  then show ?thesis
    using Closer_Raised assms(2) by (simp add: giving_back_def close_detach_def release_slot_def)
next
  case Closer_Stopping
  then show ?thesis
    using assms(1,2) by (simp add: giving_back_def close_detach_def release_slot_def)
next
  case Closer_Returned
  then have "tidy \<Longrightarrow> browser_display s = None"
    using assms(3) by (auto simp: session_closer_def browser_display_def is_launching_def split: browser_state.splits if_splits)
  then have "service_inv tidy (fst (giving_back (finish_close sid reason s) v))"
    by (intro finish_close_inv [OF assms(1,2)]) simp_all
  then show ?thesis
    using Closer_Returned assms(2) by (simp add: giving_back_def close_detach_def)
qed

lemma close_stopped_inv:
  assumes "service_inv tidy v" "sm_objects (sv_manager v) sid = Some s"
  shows "service_inv tidy (fst (giving_back (close_stopped sid reason) v))"
proof -
  have "service_inv tidy (fst (giving_back (finish_close sid reason (s\<lparr>ms_browser := No_Browser\<rparr>)) v))"
    by (intro finish_close_inv [OF assms]) (simp_all add: browser_display_def)
  then show ?thesis using assms(2) by (simp add: giving_back_def close_stopped_def)
qed

lemma create_session_inv:
  assumes inv: "service_inv tidy v" and fresh: "sm_objects (sv_manager v) sid = None"
  shows "service_inv tidy (fst (create_session sid now r v))"
proof (cases "create sid now r (sv_manager v)")
  case (Pair m1 res)
  let ?m = "sv_manager v"
  have m: "manager_inv tidy ?m" and d: "display_inv (sm_objects ?m) (sv_pool v)"
    using inv by (auto simp: service_inv_def)
  show ?thesis
  proof (cases res)
    case (Inl e)
    then have "m1 = ?m" using Pair create_Inl by blast
    then show ?thesis using inv Inl Pair by (simp add: create_session_def)
  next
    case (Inr s)
    have s: "0 < sm_available ?m" "ms_session_id s = sid" "ms_display_slot s = None"
      "ms_browser s = No_Browser" "ms_lifecycle s = ACTIVE" "\<not> ms_capacity_released s"
      and m1: "m1 = ?m\<lparr>sm_available := sm_available ?m - 1,
          sm_held_slots := insert sid (sm_held_slots ?m),
          sm_objects := (sm_objects ?m)(sid \<mapsto> s), sm_ids := sm_ids ?m @ [sid]\<rparr>"
      using create_Inr [of sid now r ?m m1 s] Pair Inr by simp_all
    have put: "put_object sid s' m1 = ?m\<lparr>sm_available := sm_available ?m - 1,
          sm_held_slots := insert sid (sm_held_slots ?m),
          sm_objects := (sm_objects ?m)(sid \<mapsto> s'), sm_ids := sm_ids ?m @ [sid]\<rparr>" for s'
      by (simp add: m1 put_object_def)
    have c: "service_inv tidy (v\<lparr>sv_manager := m1\<rparr>)"
      using created_inv [OF m fresh s(1,2,5,6)] display_inv_none [OF d s(3)] s
      by (simp add: service_inv_def m1 browser_display_def)
    show ?thesis
    proof (cases "acquire (sv_pool v)")
      case acq: (Pair p ares)
      show ?thesis
      proof (cases ares)
        case (Inl e)
        let ?r = "''display_slot_exhausted''"
        have p: "p = sv_pool v" using acq Inl acquire_cases(2) by blast
        define v2 where "v2 = on_manager (\<lambda>m. fst (close_begin sid ?r m)) (v\<lparr>sv_manager := m1\<rparr>)"
        have o2: "sm_objects (sv_manager v2) sid = Some (s\<lparr>ms_lifecycle := CLOSING, ms_reason_code := ?r\<rparr>)"
          using s by (simp add: v2_def on_manager_def close_begin_def get_if_present_def m1)
        define v3 where "v3 = on_manager (drain_object sid ?r) v2"
        have o3: "sm_objects (sv_manager v3) sid = Some (close_drained ?r (s\<lparr>ms_lifecycle := CLOSING, ms_reason_code := ?r\<rparr>))"
          using o2 by (simp add: v3_def on_manager_def drain_object_def)
        have "service_inv tidy v2" unfolding v2_def using c by (rule object_calls_inv)
        then have "service_inv tidy v3" unfolding v3_def by (rule object_calls_inv)
        then have "service_inv tidy (fst (giving_back (close_detach sid ?r True True) v3))"
          using o3 by (rule close_detach_inv) (simp add: is_launching_def s(4))
        moreover have "fst (giving_back (close_detach sid ?r True True) v3) = fst (create_session sid now r v)"
          using o2 o3 s
          by (simp add: create_session_def Pair \<open>res = Inr s\<close> acq Inl p giving_back_def close_tail_def close_detach_def
              session_closer_def finish_close_def v3_def v2_def on_manager_def drain_object_def Let_def release_slot_def)
        ultimately show ?thesis by simp
      next
        case (Inr slot)
        let ?s = "s\<lparr>ms_display_slot := slot, ms_browser := Launching slot\<rparr>"
        have a: "manager_inv tidy (put_object sid ?s m1)"
          unfolding put using s by (intro created_inv [OF m fresh s(1)]) (auto simp: browser_display_def)
        have "display_inv ((sm_objects ?m)(sid \<mapsto> ?s)) p"
        proof (cases slot)
          case None
          then have "p = sv_pool v" using acq Inr acquire_cases(1) by blast
          then show ?thesis using display_inv_none [OF d, of ?s] None by simp
        next
          case (Some dd)
          have "pool_ok (sv_pool v)" using d by (simp add: display_inv_def)
          then show ?thesis
            using acquire_cases(3) [of "sv_pool v" p dd] acq Inr Some
              display_inv_acquire [OF d fresh, of dd ?s] by auto
        qed
        then show ?thesis
          using a by (simp add: create_session_def Pair \<open>res = Inr s\<close> acq Inr service_inv_def m1)
      qed
    qed
  qed
qed

lemma service_step_inv:
  assumes "service_inv tidy v" "enabled tidy c v"
  shows "service_inv tidy (service_step c v)"
proof (cases c)
  case (Create_Session sid now r)
  then show ?thesis using assms create_session_inv by simp
next
  case (Close_Detach sid r d w)
  then show ?thesis using assms close_detach_inv by (auto split: option.splits)
next
  case (Close_Stopped sid r)
  then show ?thesis using assms close_stopped_inv by (auto split: option.splits)
qed (use assms object_calls_inv drain_inv in auto)

lemma service_run_inv:
  "service_run tidy cs v = Some v' \<Longrightarrow> service_inv tidy v \<Longrightarrow> service_inv tidy v'"
  by (induction cs arbitrary: v) (auto intro: service_step_inv split: if_splits)

lemma initial_service_inv:
  "make_display_pool slots b1 b2 b3 = Inr p \<Longrightarrow> service_inv tidy (initial_service n i a p)"
  by (auto simp: make_display_pool_def initial_service_def make_manager_def service_inv_def manager_inv_def
      display_inv_def pool_ok_def split: if_splits)

section \<open>Live-view grants\<close>

text \<open>A grant token as its decoded body and signature; \<^theory_text>\<open>mac\<close> is the HMAC of a body
  under a secret.\<close>

datatype live_view_access = View | Control

record live_view_body =
  lb_session_id :: string
  lb_owner :: string
  lb_access :: live_view_access
  lb_generation :: nat
  lb_expires_at :: int

record live_view_token = live_view_body +
  lt_signature :: string

definition issue_live_view_token ::
    "(string \<Rightarrow> live_view_body \<Rightarrow> string) \<Rightarrow> string \<Rightarrow> string \<Rightarrow> string \<Rightarrow> live_view_access \<Rightarrow> nat \<Rightarrow>
     int \<Rightarrow> int \<Rightarrow> live_view_token result" where
  "issue_live_view_token mac session_id owner secret access generation ttl now =
     (if session_id = [] \<or> owner = [] then Inl (LiveViewDenied ''session_and_owner_required'')
      else if secret = [] then Inl (LiveViewDenied ''live_view_secret_missing'')
      else let body = \<lparr>lb_session_id = session_id, lb_owner = owner, lb_access = access,
                   lb_generation = generation, lb_expires_at = now + max 30 (min ttl 3600)\<rparr>
           in Inr (live_view_body.extend body \<lparr>lt_signature = mac secret body\<rparr>))"

definition verify_live_view_token ::
    "(string \<Rightarrow> live_view_body \<Rightarrow> string) \<Rightarrow> live_view_token \<Rightarrow> string \<Rightarrow> string \<Rightarrow> string \<Rightarrow> nat \<Rightarrow>
     int \<Rightarrow> live_view_body result" where
  "verify_live_view_token mac token secret session_id owner generation now =
     (let body = live_view_body.truncate token
      in if secret = [] then Inl (LiveViewDenied ''live_view_secret_missing'')
         else if lt_signature token \<noteq> mac secret body then Inl (LiveViewDenied ''invalid_signature'')
         else if lb_session_id token \<noteq> session_id then Inl (LiveViewDenied ''session_mismatch'')
         else if lb_owner token \<noteq> owner then Inl (LiveViewDenied ''owner_mismatch'')
         else if lb_generation token \<noteq> generation
         then Inl (LiveViewDenied ''hitl_generation_mismatch'')
         else if lb_expires_at token \<le> now then Inl (LiveViewDenied ''token_expired'')
         else Inr body)"

text \<open>\<^theory_text>\<open>authorize_live_view\<close> as the relay route calls it for a session it looked up.\<close>

definition authorize_live_view ::
    "(string \<Rightarrow> live_view_body \<Rightarrow> string) \<Rightarrow> bool \<Rightarrow> string \<Rightarrow> int \<Rightarrow> live_view_token \<Rightarrow> string \<Rightarrow> string \<Rightarrow>
     managed_session option \<Rightarrow> live_view_access result" where
  "authorize_live_view mac interactive secret now token session_id caller sess =
     (let generation = (case sess of None \<Rightarrow> 0 | Some s \<Rightarrow> ms_hitl_generation s)
      in if \<not> interactive then Inl (LiveViewDenied ''interactive_hitl_disabled'')
         else if secret = [] then Inl (LiveViewDenied ''live_view_secret_missing'')
         else bindR (verify_live_view_token mac token secret session_id caller generation now) (\<lambda>g.
           case sess of
             None \<Rightarrow> Inl (LiveViewDenied ''session_not_found'')
           | Some s \<Rightarrow>
               if ms_owner s \<noteq> caller then Inl (LiveViewDenied ''session_not_found'')
               else if ms_lifecycle s \<noteq> ACTIVE then Inl (LiveViewDenied ''session_closing'')
               else if \<not> (ms_interactive_ready s \<and> ms_live_view_allowed s)
               then Inl (LiveViewDenied ''live_view_not_available'')
               else if lb_access g = Control \<and> \<not> ms_hitl_pending s
               then Inl (LiveViewDenied ''control_not_allowed'')
               else Inr (lb_access g)))"

text \<open>The open relays of a session. Taking exclusive control revokes the gate first, then
  drains the control relays; \<^theory_text>\<open>stuck\<close> are those whose socket would not close.\<close>

definition take_exclusive_control ::
    "(nat \<times> live_view_access) list \<Rightarrow> nat set \<Rightarrow> managed_session \<Rightarrow>
     managed_session \<times> (nat \<times> live_view_access) list \<times> unit result" where
  "take_exclusive_control relays stuck s =
     (let was_pending = ms_hitl_pending s;
          s1 = set_hitl_pending False s;
          left = filter (\<lambda>(task, access). access = Control \<longrightarrow> task \<in> stuck) relays
      in if \<not> list_ex (\<lambda>(task, access). access = Control) left then (s1, left, Inr ())
         else (if was_pending then set_hitl_pending True s1 else s1, left,
               Inl (LiveViewDenied ''live_attachment_drain_failed'')))"

lemma authorize_Inr:
  "authorize_live_view mac i secret now token sid caller sess = Inr acc \<Longrightarrow>
   \<exists>s. sess = Some s \<and> lb_generation token = ms_hitl_generation s \<and> ms_owner s = caller \<and>
     ms_lifecycle s = ACTIVE \<and> ms_live_view_allowed s \<and> acc = lb_access token \<and>
     lb_session_id token = sid \<and> lb_owner token = caller \<and> now < lb_expires_at token \<and>
     (acc = Control \<longrightarrow> ms_hitl_pending s)"
  by (auto simp: authorize_live_view_def verify_live_view_token_def result_simps Let_def
      live_view_body.truncate_def split: option.splits if_splits)

lemma hitl_generation_mono:
  "(ms_hitl_generation s < ms_hitl_generation s' \<or>
    ms_hitl_generation s' = ms_hitl_generation s \<and> \<not> ms_hitl_pending s') \<Longrightarrow>
   ms_hitl_generation s < ms_hitl_generation (set_hitl_pending b s') \<or>
   ms_hitl_generation (set_hitl_pending b s') = ms_hitl_generation s \<and>
   \<not> ms_hitl_pending (set_hitl_pending b s')"
  by (auto simp: set_hitl_pending_def)

lemma fold_hitl_revoked:
  "(ms_hitl_generation s < ms_hitl_generation s' \<or>
    ms_hitl_generation s' = ms_hitl_generation s \<and> \<not> ms_hitl_pending s') \<Longrightarrow>
   ms_hitl_generation s < ms_hitl_generation (fold set_hitl_pending bs s') \<or>
   ms_hitl_generation (fold set_hitl_pending bs s') = ms_hitl_generation s \<and>
   \<not> ms_hitl_pending (fold set_hitl_pending bs s')"
proof (induction bs arbitrary: s')
  case (Cons b bs)
  then show ?case using hitl_generation_mono [OF Cons.prems, of b] by simp
qed simp

lemma hitl_left_gate:
  "ms_hitl_pending s \<Longrightarrow> \<not> ms_hitl_pending (set_hitl_pending False s) \<and>
   ms_hitl_generation (set_hitl_pending False s) = ms_hitl_generation s"
  by (simp add: set_hitl_pending_def)

section \<open>Properties\<close>

text \<open>C17. Capacity is accounted exactly: over any interleaving of creations, launches,
  leases and closes, including several closes of one session, the free slots and the
  registered sessions add up to the maximum, exactly the registered sessions hold a
  slot, a slot is released exactly when its session is closed, and the closure ring
  keeps its bound.\<close>

theorem capacity_accounted:
  "make_display_pool slots b1 b2 b3 = Inr p \<Longrightarrow>
   service_run False cs (initial_service n i a p) = Some v \<Longrightarrow>
   sm_available (sv_manager v) + card (sm_held_slots (sv_manager v)) = sm_max_sessions (sv_manager v) \<and>
   sm_held_slots (sv_manager v) = set (sm_ids (sv_manager v)) \<and>
   (\<forall>sid s. sm_objects (sv_manager v) sid = Some s \<longrightarrow>
      (ms_capacity_released s \<longleftrightarrow> ms_lifecycle s = CLOSED) \<and>
      (sid \<in> sm_held_slots (sv_manager v) \<longleftrightarrow> ms_lifecycle s \<noteq> CLOSED)) \<and>
   length (sm_recent_closures (sv_manager v)) \<le> recent_closure_capacity"
proof -
  assume p: "make_display_pool slots b1 b2 b3 = Inr p"
    and r: "service_run False cs (initial_service n i a p) = Some v"
  have inv: "service_inv False v" by (rule service_run_inv [OF r initial_service_inv [OF p]])
  then have m: "manager_inv False (sv_manager v)" by (simp add: service_inv_def)
  then have "card (sm_held_slots (sv_manager v)) = length (sm_ids (sv_manager v))"
    by (simp add: manager_inv_def distinct_card)
  then show ?thesis using m by (auto simp: manager_inv_def object_ok_def)
qed

text \<open>C31. A display is leased once. Over any interleaving of creations, launches and closes, several
  closes of one session included, a display a session holds is one of the pool's and not free, the session
  is registered and not closed, and no other session holds it. In a run that closes no session
  whose browser is still launching, the display a session's browser was launched on is the one it
  holds. (Whether a browser the worker was told to stop is gone, the service does not know, and the
  statement does not say.)\<close>

theorem displays_leased_once:
  "make_display_pool slots b1 b2 b3 = Inr p \<Longrightarrow>
   service_run tidy cs (initial_service n i a p) = Some v \<Longrightarrow>
   sm_objects (sv_manager v) sid = Some s \<Longrightarrow>
   ms_display_slot s = Some d \<or> tidy \<and> browser_display s = Some d \<Longrightarrow>
   ms_display_slot s = Some d \<and> d \<in> set (dp_all (sv_pool v)) \<and> ds_index d \<notin> dp_free (sv_pool v) \<and>
   sid \<in> set (sm_ids (sv_manager v)) \<and> ms_lifecycle s \<noteq> CLOSED \<and>
   (\<forall>sid' s' d'. sm_objects (sv_manager v) sid' = Some s' \<and> ms_display_slot s' = Some d' \<and>
      ds_index d' = ds_index d \<longrightarrow> sid' = sid)"
proof -
  assume p: "make_display_pool slots b1 b2 b3 = Inr p"
    and r: "service_run tidy cs (initial_service n i a p) = Some v"
    and o: "sm_objects (sv_manager v) sid = Some s" "ms_display_slot s = Some d \<or> tidy \<and> browser_display s = Some d"
  have inv: "service_inv tidy v" by (rule service_run_inv [OF r initial_service_inv [OF p]])
  then have ok: "object_ok tidy (sm_ids (sv_manager v)) sid s"
    using o(1) by (simp add: service_inv_def manager_inv_def)
  then have slot: "ms_display_slot s = Some d" using o(2) by (auto simp: object_ok_def)
  have "display_inv (sm_objects (sv_manager v)) (sv_pool v)" using inv by (simp add: service_inv_def)
  then have "d \<in> set (dp_all (sv_pool v)) \<and> ds_index d \<notin> dp_free (sv_pool v) \<and>
      (\<forall>sid' s' d'. sm_objects (sv_manager v) sid' = Some s' \<and> ms_display_slot s' = Some d' \<and>
        ds_index d' = ds_index d \<longrightarrow> sid' = sid)"
    using o(1) slot unfolding display_inv_def by meson
  then show ?thesis using ok slot by (auto simp: object_ok_def)
qed

text \<open>What the janitor may close: a session is reported exactly when no operation is
  in flight and either a failed teardown is owed a retry, or it is active and past its
  absolute age, or idle beyond the window with no human attached to its pending gate.\<close>

theorem janitor_expires:
  "expiry_of attached now m s \<noteq> None \<longleftrightarrow>
   ms_active_operations s = 0 \<and>
   (ms_lifecycle s = CLOSING \<and> ends_with teardown_failed_suffix (ms_reason_code s) \<or>
    ms_lifecycle s = ACTIVE \<and>
    (ms_maximum_expires_at s \<le> now \<or>
     sm_inactivity m < now - ms_last_active_at s \<and>
     \<not> (ms_hitl_pending s \<and> attached (ms_session_id s))))"
  by (auto simp: expiry_of_def session_expiry_def maximum_age_window_def)

text \<open>C32. A control grant dies with its pause: once a session left the human gate it was
  granted at, no grant of that generation authorizes control again, whatever gates
  the session enters later; and a control relay is only ever authorized while the
  session is at a gate.\<close>

theorem control_grant_bound_to_pause:
  "ms_hitl_pending s \<Longrightarrow> lb_generation token = ms_hitl_generation s \<Longrightarrow>
   authorize_live_view mac i secret now token sid caller
     (Some (fold set_hitl_pending bs (set_hitl_pending False s))) \<noteq> Inr Control"
proof
  assume pend: "ms_hitl_pending s" and gen: "lb_generation token = ms_hitl_generation s"
    and auth: "authorize_live_view mac i secret now token sid caller
      (Some (fold set_hitl_pending bs (set_hitl_pending False s))) = Inr Control"
  let ?s = "fold set_hitl_pending bs (set_hitl_pending False s)"
  have "ms_hitl_generation s < ms_hitl_generation ?s \<or>
      ms_hitl_generation ?s = ms_hitl_generation s \<and> \<not> ms_hitl_pending ?s"
    using hitl_left_gate [OF pend] by (intro fold_hitl_revoked) simp
  then show False using authorize_Inr [OF auth] gen by auto
qed

text \<open>C33. Exclusive control: when the agent takes the wheel no control relay remains open
  and no token whatsoever authorizes control of the session; when a relay would not
  close, a session that was at a gate is back at one, under a new generation.\<close>

theorem exclusive_control:
  "take_exclusive_control relays stuck s = (s', left, res) \<Longrightarrow>
   set left \<subseteq> set relays \<and> {r \<in> set relays. snd r = View} \<subseteq> set left \<and>
   (returned res \<longrightarrow> (\<forall>r\<in>set left. snd r = View) \<and>
      authorize_live_view mac i secret now token sid caller (Some s') \<noteq> Inr Control) \<and>
   (\<not> returned res \<longrightarrow> ms_hitl_pending s' = ms_hitl_pending s \<and>
      (ms_hitl_pending s \<longrightarrow> ms_hitl_generation s' = ms_hitl_generation s + 1))"
proof -
  assume t: "take_exclusive_control relays stuck s = (s', left, res)"
  have r: "returned res \<Longrightarrow> \<not> ms_hitl_pending s' \<and> (\<forall>r\<in>set left. snd r = View)"
    using t by (auto simp: take_exclusive_control_def Let_def list_ex_iff split: if_splits)
       (metis live_view_access.exhaust)+
  have "\<not> returned res \<Longrightarrow> ms_hitl_pending s' = ms_hitl_pending s \<and>
      (ms_hitl_pending s \<longrightarrow> ms_hitl_generation s' = ms_hitl_generation s + 1)"
    using t by (auto simp: take_exclusive_control_def Let_def set_hitl_pending_def split: if_splits)
  moreover have "set left \<subseteq> set relays \<and> {r \<in> set relays. snd r = View} \<subseteq> set left"
    using t by (auto simp: take_exclusive_control_def Let_def split: if_splits)
  moreover have "returned res \<Longrightarrow> authorize_live_view mac i secret now token sid caller (Some s') \<noteq> Inr Control"
    using r authorize_Inr [of mac i secret now token sid caller "Some s'" Control] by auto
  ultimately show ?thesis using r by blast
qed

section \<open>Witnesses\<close>

definition sample_pool :: display_pool where
  "sample_pool = \<lparr>dp_all =
     [\<lparr>ds_index = 0, ds_display_num = 99, ds_vnc_port = 5900, ds_view_vnc_port = 5910\<rparr>,
      \<lparr>ds_index = 1, ds_display_num = 100, ds_vnc_port = 5901, ds_view_vnc_port = 5911\<rparr>],
     dp_free = {0..<2}\<rparr>"

lemma sample_pool_made: "make_display_pool 2 99 5900 5910 = Inr sample_pool"
  by (simp add: make_display_pool_def max_display_slots_def sample_pool_def upt_rec)

definition sample_request :: session_request where
  "sample_request = \<lparr>sr_owner = ''o'', sr_app_slug = ''acme'', sr_capability_digest = ''d'',
     sr_secret_scope = ''r1'', sr_account_ref = None, sr_run_id = ''r1'', sr_allowed_hosts = None\<rparr>"

definition sample_start :: service where
  "sample_start = initial_service 2 600 3600 sample_pool"

definition sample_calls :: "service_call list" where
  "sample_calls = [Create_Session ''a'' 0 sample_request, Launch_Done True ''a'',
     Create_Session ''b'' 1 sample_request, Close_Begin ''a'' ''run_reset'',
     Close_Drained ''a'' ''run_reset'', Close_Detach ''a'' ''run_reset'' True True,
     Close_Stopped ''a'' ''run_reset'']"

lemmas service_eval = create_session_def create_def acquire_capacity_def acquire_def put_object_def
  launch_done_def launch_failed_def lease_enter_def lease_exit_def retain_def set_object_hitl_def
  close_begin_def giving_back_def close_drained_def drain_object_def close_detach_def close_stopped_def
  finish_close_def close_tail_def session_closer_def set_hitl_pending_def
  release_capacity_def record_closure_def release_slot_def on_manager_def get_if_present_def
  touch_def initial_service_def make_manager_def is_launching_def browser_display_def Let_def
  sample_pool_def sample_request_def sample_start_def recent_closure_capacity_def

text \<open>The pool of the sample has two displays.\<close>

lemma sample_min: "Min {0..<2 :: nat} = 0" "Min ({0..<2} - {0 :: nat}) = 1"
  "{0..<2 :: nat} \<noteq> {}" "{0..<2} - {0 :: nat} \<noteq> {}" "\<not> {0..<2} \<subseteq> {0 :: nat}"
  by (simp_all add: numeral_2_eq_2 atLeastLessThanSuc insert_Diff_if)

lemma sample_calls_run: "service_run tidy sample_calls sample_start \<noteq> None"
  by (simp add: service_eval sample_calls_def sample_min)

definition sample_service :: service where
  "sample_service = the (service_run True sample_calls sample_start)"

lemma sample_service_run: "service_run True sample_calls sample_start = Some sample_service"
  using sample_calls_run by (simp add: sample_service_def)

lemma sample_service_b:
  "\<exists>s. sm_objects (sv_manager sample_service) ''b'' = Some s \<and>
     browser_display s = Some (dp_all sample_pool ! 1)"
proof -
  have "map_option browser_display (sm_objects (sv_manager sample_service) ''b'') =
      Some (Some (dp_all sample_pool ! 1))"
    by (simp add: sample_service_def service_eval sample_calls_def sample_min)
  then show ?thesis by auto
qed

lemma displays_leased_once_witness:
  "ds_index (dp_all sample_pool ! 1) \<notin> dp_free (sv_pool sample_service)"
proof -
  obtain s where "sm_objects (sv_manager sample_service) ''b'' = Some s"
    "browser_display s = Some (dp_all sample_pool ! 1)"
    using sample_service_b by blast
  then show ?thesis
    using displays_leased_once [OF sample_pool_made sample_service_run [unfolded sample_start_def]] by blast
qed

definition sample_service_any :: service where
  "sample_service_any = the (service_run False sample_calls sample_start)"

lemma sample_service_any_run:
  "service_run False sample_calls sample_start = Some sample_service_any"
  using sample_calls_run by (simp add: sample_service_any_def)

lemma capacity_accounted_witness:
  "sm_held_slots (sv_manager sample_service_any) = set (sm_ids (sv_manager sample_service_any))"
  using capacity_accounted [OF sample_pool_made sample_service_any_run [unfolded sample_start_def]]
  by blast

definition sample_session :: managed_session where
  "sample_session = the (sm_objects (sv_manager sample_service) ''b'')"

definition paused_session :: managed_session where
  "paused_session = set_hitl_pending True (sample_session\<lparr>ms_hitl_pending := False\<rparr>)"

definition paused_token :: live_view_token where
  "paused_token = \<lparr>lb_session_id = ''b'', lb_owner = ''o'', lb_access = Control,
     lb_generation = ms_hitl_generation paused_session, lb_expires_at = 300, lt_signature = ''m''\<rparr>"

lemma paused_session_token:
  "ms_hitl_pending paused_session" "lb_generation paused_token = ms_hitl_generation paused_session"
  by (simp_all add: paused_session_def paused_token_def)

lemma control_grant_bound_to_pause_witness:
  "authorize_live_view (\<lambda>_ _. ''m'') True ''k'' 0 paused_token ''b'' ''o''
     (Some (fold set_hitl_pending [True, False, True] (set_hitl_pending False paused_session)))
   \<noteq> Inr Control"
  by (rule control_grant_bound_to_pause [OF paused_session_token])

lemma exclusive_control_witness:
  "snd (snd (take_exclusive_control [(1, View), (2, Control)] {} paused_session)) = Inr () \<and>
   authorize_live_view (\<lambda>_ _. ''m'') True ''k'' 0 paused_token ''b'' ''o''
     (Some (fst (take_exclusive_control [(1, View), (2, Control)] {} paused_session))) \<noteq> Inr Control"
proof -
  obtain s' left res where t: "take_exclusive_control [(1, View), (2, Control)] {} paused_session = (s', left, res)"
    by (cases "take_exclusive_control [(1, View), (2, Control)] {} paused_session")
  moreover have "res = Inr ()"
    using t by (simp add: take_exclusive_control_def Let_def split: if_splits)
  ultimately show ?thesis using exclusive_control [OF t] by simp
qed

text \<open>Without that condition a browser runs on a display its session does not hold: a session closed
  while its browser launches gives its display back, the next session leases it, and the
  launch then completes on it. The first session is closed and no longer registered, so
  nothing closes its browser.\<close>

lemma launch_close_race:
  "map_option (\<lambda>v. (map_option browser_display (sm_objects (sv_manager v) ''a''),
        map_option browser_display (sm_objects (sv_manager v) ''b''), sm_ids (sv_manager v),
        map_option ms_lifecycle (sm_objects (sv_manager v) ''a'')))
     (service_run False [Create_Session ''a'' 0 sample_request,
        Close_Begin ''a'' ''run_cancelled'', Close_Drained ''a'' ''run_cancelled'',
        Close_Detach ''a'' ''run_cancelled'' True True,
        Create_Session ''b'' 1 sample_request, Launch_Done True ''b'', Launch_Done True ''a'']
        sample_start) =
   Some (Some (Some (dp_all sample_pool ! 0)), Some (Some (dp_all sample_pool ! 0)), [''b''],
         Some CLOSED)"
  by (simp add: service_eval sample_min insert_absorb)

text \<open>Two closes of one session: the second's \<^theory_text>\<open>stop\<close> returns at once, as the first took the browser
  from the worker, and its end gives the display to the next session while the first still awaits the
  browser's teardown.\<close>

lemma second_close_frees_display:
  "map_option (\<lambda>v. (map_option ms_display_slot (sm_objects (sv_manager v) ''b''),
        map_option ms_lifecycle (sm_objects (sv_manager v) ''a'')))
     (service_run True [Create_Session ''a'' 0 sample_request, Launch_Done True ''a'',
        Close_Begin ''a'' ''idle'', Close_Drained ''a'' ''idle'', Close_Detach ''a'' ''idle'' True True,
        Close_Begin ''a'' ''run_cancelled'', Close_Drained ''a'' ''run_cancelled'',
        Close_Detach ''a'' ''run_cancelled'' True True, Close_Stopped ''a'' ''run_cancelled'',
        Create_Session ''b'' 1 sample_request]
        sample_start) =
   Some (Some (Some (dp_all sample_pool ! 0)), Some CLOSED)"
  by (simp add: service_eval sample_min insert_absorb)

end
