(* ===== verification/Takeover.thy ===== *)
theory Takeover
  imports Sessions Phases
begin

text \<open>
  Continuing a run whose human gate is gone: the service's read-only observation
  (\<^theory_text>\<open>browser_service/clearance.py\<close>), its wire form (\<^theory_text>\<open>ops/browser/service_client.py\<close>), the
  decision (\<^theory_text>\<open>ops/browser/takeover.py\<close>) and the sweep that acts on it
  (\<^theory_text>\<open>ops/runs/takeover.py\<close>).

  The page read is the worker's and its answer an argument, as are the answers of the
  resume authorities. The session as it stands before and after the read are two
  arguments, since other calls run while it is awaited.
\<close>

section \<open>Gates\<close>

definition takeover_eligible_gates :: "string list" where
  "takeover_eligible_gates =
     [''captcha'', ''email_otp'', ''device_approval'', ''passkey'', ''security_key'', ''oauth_grant'',
      ''legal_acceptance'', ''account_selection'', ''billing'', ''login_required'']"

definition unobservable_gates :: "string list" where
  "unobservable_gates = [''phone_otp'', ''provider_verification'', ''signup_authorization'']"

definition human_action_types :: "string list" where
  "human_action_types =
     [''login_required'', ''captcha'', ''email_otp'', ''phone_otp'', ''passkey'', ''security_key'',
      ''device_approval'', ''provider_verification'', ''legal_acceptance'', ''oauth_grant'', ''billing'',
      ''account_selection'', ''signup_authorization'']"

text \<open>The two assertions of the module.\<close>

lemma gates_partitioned:
  "set takeover_eligible_gates \<union> set unobservable_gates = set human_action_types"
  "set takeover_eligible_gates \<inter> set unobservable_gates = {}"
  by (auto simp: takeover_eligible_gates_def unobservable_gates_def human_action_types_def)

section \<open>The observation of the service\<close>

datatype probe_reason =
  Observed | Operation_In_Flight | Probe_Failed | Max_Age_Exceeded | Session_Not_Found

record gate_probe =
  gp_gate :: "string option"
  gp_reason :: string
  gp_observed :: bool

definition probe_reason_code :: "string \<Rightarrow> probe_reason" where
  "probe_reason_code reason =
     (if reason = ''observed'' then Observed
      else if reason = ''operation_in_flight'' then Operation_In_Flight else Probe_Failed)"

record gate_clearance_report =
  cr_session_id :: string
  cr_lifecycle :: session_lifecycle
  cr_hitl_pending :: bool
  cr_attached :: bool
  cr_final_probe_owed :: bool
  cr_gate :: "string option"
  cr_cleared :: bool
  cr_reason :: probe_reason
  cr_hitl_generation :: nat

text \<open>\<^theory_text>\<open>s0\<close> is the session when the observation starts, \<^theory_text>\<open>s1\<close> when the probe
  returned; the session after it is returned with the report.\<close>

definition observe_gate_clearance ::
    "bool \<Rightarrow> gate_probe \<Rightarrow> managed_session \<Rightarrow> managed_session \<Rightarrow>
     gate_clearance_report \<times> managed_session" where
  "observe_gate_clearance attached probe s0 s1 =
     (let gen0 = ms_hitl_generation s0;
          owed0 = (ms_final_probe_generation s0 = Some gen0);
          reading = (ms_lifecycle s0 = ACTIVE \<and> ms_hitl_pending s0);
          gate0 = (if reading then gp_gate probe else None);
          reason0 = (if reading then probe_reason_code (gp_reason probe) else Probe_Failed);
          observed0 = (reading \<and> gp_observed probe);
          owed1 = (owed0 \<and> ms_hitl_pending s1 \<and> ms_final_probe_generation s1 = Some gen0);
          crossed = (ms_hitl_generation s1 \<noteq> gen0);
          gate = (if crossed then None else gate0);
          reason = (if crossed then Operation_In_Flight else reason0);
          observed = (\<not> crossed \<and> observed0);
          owed = (\<not> crossed \<and> owed1);
          gen = ms_hitl_generation s1;
          s2 = (if \<not> attached \<and> observed \<and> reason = Observed \<and>
                   ms_final_probe_generation s1 = Some gen
                then s1\<lparr>ms_final_probe_generation := None\<rparr> else s1)
      in (\<lparr>cr_session_id = ms_session_id s2, cr_lifecycle = ms_lifecycle s2,
           cr_hitl_pending = ms_hitl_pending s2, cr_attached = attached,
           cr_final_probe_owed = owed, cr_gate = gate, cr_cleared = (observed \<and> gate = None),
           cr_reason = reason, cr_hitl_generation = gen\<rparr>, s2))"

section \<open>The wire\<close>

record clearance_observation =
  co_session_present :: bool
  co_active :: bool
  co_hitl_pending :: bool
  co_attached :: bool
  co_final_probe_owed :: bool
  co_gate :: "string option"
  co_reason :: probe_reason
  co_hitl_generation :: nat

definition unread_clearance :: clearance_observation where
  "unread_clearance = \<lparr>co_session_present = True, co_active = True, co_hitl_pending = True,
     co_attached = False, co_final_probe_owed = False, co_gate = None, co_reason = Probe_Failed,
     co_hitl_generation = 0\<rparr>"

definition absent_clearance :: "probe_reason \<Rightarrow> clearance_observation" where
  "absent_clearance reason = \<lparr>co_session_present = False, co_active = False,
     co_hitl_pending = False, co_attached = False, co_final_probe_owed = False, co_gate = None,
     co_reason = reason, co_hitl_generation = 0\<rparr>"

text \<open>The typed part of a report; \<^theory_text>\<open>co_active\<close> is the comparison with \<^theory_text>\<open>ACTIVE\<close>, the
  only use made of the lifecycle.\<close>

definition clearance_observation ::
    "gate_clearance_report \<Rightarrow> clearance_observation option" where
  "clearance_observation r =
     (if cr_reason r \<notin> {Observed, Operation_In_Flight, Probe_Failed, Max_Age_Exceeded} then None
      else if cr_gate r \<noteq> None \<and> the (cr_gate r) \<notin> set human_action_types then None
      else if cr_cleared r \<noteq> (cr_reason r = Observed \<and> cr_gate r = None) then None
      else Some \<lparr>co_session_present = True, co_active = (cr_lifecycle r = ACTIVE),
             co_hitl_pending = cr_hitl_pending r, co_attached = cr_attached r,
             co_final_probe_owed = cr_final_probe_owed r, co_gate = cr_gate r,
             co_reason = cr_reason r, co_hitl_generation = cr_hitl_generation r\<rparr>)"

text \<open>What came back over HTTP: no response, a status with its reason, or a body.\<close>

datatype clearance_response =
    Transport_Failed
  | Refused_Status nat string
  | Report_Body "gate_clearance_report option"

definition probe_gate_clearance :: "clearance_response \<Rightarrow> clearance_observation" where
  "probe_gate_clearance response =
     (case response of
        Transport_Failed \<Rightarrow> unread_clearance
      | Refused_Status code reason \<Rightarrow>
          if code = 404 then
            (if reason = ''session_not_found'' then absent_clearance Session_Not_Found
             else unread_clearance)
          else if code = 410 then absent_clearance Max_Age_Exceeded else unread_clearance
      | Report_Body body \<Rightarrow>
          (case body of None \<Rightarrow> unread_clearance
           | Some r \<Rightarrow> (case clearance_observation r of None \<Rightarrow> unread_clearance | Some ob \<Rightarrow> ob)))"

section \<open>The decision\<close>

datatype takeover_action = Continue | Keep_Waiting | Pause | Stop_Polling

record takeover_decision =
  td_action :: takeover_action
  td_reason_code :: string
  td_poll_again :: bool

definition waiting :: "clearance_observation \<Rightarrow> takeover_decision" where
  "waiting ob =
     (if co_attached ob \<or> co_final_probe_owed ob
      then \<lparr>td_action = Keep_Waiting, td_reason_code = ''captcha_detected'', td_poll_again = True\<rparr>
      else \<lparr>td_action = Stop_Polling, td_reason_code = ''captcha_detected'', td_poll_again = False\<rparr>)"

definition decide_takeover :: "string \<Rightarrow> clearance_observation \<Rightarrow> takeover_decision" where
  "decide_takeover paused_gate ob =
     (if co_reason ob = Max_Age_Exceeded
      then \<lparr>td_action = Pause, td_reason_code = ''session_lifetime_exceeded'', td_poll_again = False\<rparr>
      else if \<not> co_session_present ob
      then \<lparr>td_action = Pause, td_reason_code = ''session_unreattachable'', td_poll_again = False\<rparr>
      else if \<not> co_active ob
      then \<lparr>td_action = Pause, td_reason_code = ''session_unreattachable'', td_poll_again = False\<rparr>
      else if \<not> co_hitl_pending ob
      then \<lparr>td_action = Stop_Polling, td_reason_code = ''captcha_resolved'', td_poll_again = False\<rparr>
      else if co_reason ob \<in> {Operation_In_Flight, Probe_Failed} then waiting ob
      else if co_gate ob = Some paused_gate then
        (if \<not> co_attached ob \<and> co_final_probe_owed ob
         then \<lparr>td_action = Stop_Polling, td_reason_code = ''captcha_detected'', td_poll_again = False\<rparr>
         else waiting ob)
      else if \<not> (co_attached ob \<or> co_final_probe_owed ob)
      then \<lparr>td_action = Stop_Polling, td_reason_code = ''captcha_detected'', td_poll_again = False\<rparr>
      else \<lparr>td_action = Continue, td_reason_code = ''captcha_resolved'', td_poll_again = False\<rparr>)"

section \<open>The sweep\<close>

record paused_record =
  pr_run_id :: string
  pr_state_revision :: int
  pr_browser_session_id :: string
  pr_canonical_engine :: bool
  pr_status :: string
  pr_phase :: string
  pr_hitl_type :: "string option"
  pr_hitl_generation :: nat

type_synonym watch_key = "int \<times> string \<times> string \<times> nat"

definition paused_gate :: "paused_record \<Rightarrow> string" where
  "paused_gate r =
     (case pr_hitl_type r of Some g \<Rightarrow> if g \<in> set human_action_types then g else ''captcha''
      | None \<Rightarrow> ''captcha'')"

definition takeover_watch_key :: "paused_record \<Rightarrow> watch_key" where
  "takeover_watch_key r =
     (pr_state_revision r, pr_browser_session_id r, paused_gate r, pr_hitl_generation r)"

definition is_canonical_gate_wait :: "paused_record \<Rightarrow> bool" where
  "is_canonical_gate_wait r =
     (pr_canonical_engine r \<and> pr_status r = ''waiting_for_hitl'' \<and>
      pr_phase r = ''challenge_pending'' \<and>
      (case pr_hitl_type r of None \<Rightarrow> False | Some g \<Rightarrow> g \<in> set takeover_eligible_gates) \<and>
      0 < pr_hitl_generation r)"

datatype resume_answer = Resume_Raised | Resume_Refused | Resume_Replayed | Resume_Committed string

datatype takeover_effect =
    Request_Pause string string
  | Audit_Continued string string string string
  | Enqueue_Run string

text \<open>\<^theory_text>\<open>_continue_run\<close>: whether it counts as continued, and its effects.\<close>

definition continue_run ::
    "bool \<Rightarrow> bool \<Rightarrow> bool \<Rightarrow> resume_answer \<Rightarrow> string \<Rightarrow> string \<Rightarrow> string \<Rightarrow>
     bool \<times> takeover_effect list" where
  "continue_run canonical wired queued answer run_id gate reason =
     (if canonical then
        (if \<not> wired then (False, [])
         else (case answer of
             Resume_Committed ph \<Rightarrow> (True, [Audit_Continued run_id gate ph reason])
           | _ \<Rightarrow> (False, [])))
      else (case answer of
          Resume_Raised \<Rightarrow> (False, [])
        | Resume_Refused \<Rightarrow> (False, [Request_Pause run_id ''takeover_step_unavailable''])
        | Resume_Replayed \<Rightarrow> (False, [])
        | Resume_Committed ph \<Rightarrow>
            (True, Audit_Continued run_id gate ph reason # (if queued then [Enqueue_Run run_id] else []))))"

text \<open>\<^theory_text>\<open>_apply\<close> on a record. \<^theory_text>\<open>stopped\<close> is the map of suppressed observations; a
  probe that raised is \<^theory_text>\<open>None\<close>.\<close>

definition apply_takeover ::
    "bool \<Rightarrow> bool \<Rightarrow> bool \<Rightarrow> clearance_observation option \<Rightarrow> resume_answer \<Rightarrow> paused_record \<Rightarrow>
     (string \<Rightarrow> watch_key option) \<Rightarrow>
     (string \<Rightarrow> watch_key option) \<times> bool \<times> takeover_effect list" where
  "apply_takeover canonical wired queued ob answer r stopped =
     (let run_id = pr_run_id r; key = takeover_watch_key r; gate = paused_gate r
      in if pr_browser_session_id r = []
         then (stopped, False,
               if canonical \<and> \<not> wired then [] else [Request_Pause run_id ''session_unreattachable''])
         else (case ob of
             None \<Rightarrow> (stopped, False, [])
           | Some ob \<Rightarrow>
               let d = decide_takeover gate ob
               in if canonical \<and> co_reason ob = Observed \<and>
                     co_hitl_generation ob \<noteq> pr_hitl_generation r
                  then (stopped(run_id \<mapsto> key), False, [])
                  else if td_action d = Stop_Polling \<and> \<not> td_poll_again d
                  then (stopped(run_id \<mapsto> key), False, [])
                  else if td_action d = Pause
                  then (stopped, False, if canonical \<and> \<not> wired then []
                        else [Request_Pause run_id (td_reason_code d)])
                  else if td_action d \<noteq> Continue then (stopped, False, [])
                  else (stopped, continue_run canonical wired queued answer run_id gate (td_reason_code d))))"

text \<open>Whether a record is a candidate of the sweep; \<^theory_text>\<open>standing\<close> is the committed phase
  history's answer.\<close>

definition takeover_candidate :: "(string \<Rightarrow> bool) \<Rightarrow> paused_record \<Rightarrow> bool" where
  "takeover_candidate standing r =
     (pr_run_id r \<noteq> [] \<and>
      (is_canonical_gate_wait r \<or>
       pr_phase r = ''captcha_paused'' \<and> paused_gate r \<in> set takeover_eligible_gates \<and>
       standing (pr_run_id r)))"

text \<open>One record of the sweep, then the whole: the suppressions of runs that are no
  candidates any more are dropped at its end.\<close>

definition sweep_record ::
    "(string \<Rightarrow> bool) \<Rightarrow> bool \<Rightarrow> bool \<Rightarrow> (paused_record \<Rightarrow> clearance_observation option) \<Rightarrow>
     (paused_record \<Rightarrow> resume_answer) \<Rightarrow> paused_record \<Rightarrow> (string \<Rightarrow> watch_key option) \<Rightarrow>
     (string \<Rightarrow> watch_key option) \<times> bool \<times> takeover_effect list" where
  "sweep_record standing wired queued probe answer r stopped =
     (if \<not> takeover_candidate standing r then (stopped, False, [])
      else if stopped (pr_run_id r) = Some (takeover_watch_key r) then (stopped, False, [])
      else apply_takeover (is_canonical_gate_wait r) wired queued (probe r) (answer r) r
             (stopped(pr_run_id r := None)))"

fun takeover_sweep ::
    "(string \<Rightarrow> bool) \<Rightarrow> bool \<Rightarrow> bool \<Rightarrow> (paused_record \<Rightarrow> clearance_observation option) \<Rightarrow>
     (paused_record \<Rightarrow> resume_answer) \<Rightarrow> paused_record list \<Rightarrow> (string \<Rightarrow> watch_key option) \<Rightarrow>
     (string \<Rightarrow> watch_key option) \<times> nat \<times> takeover_effect list" where
  "takeover_sweep standing wired queued probe answer [] stopped = (stopped, 0, [])"
| "takeover_sweep standing wired queued probe answer (r # rs) stopped =
     (case sweep_record standing wired queued probe answer r stopped of
        (stopped1, continued, fx) \<Rightarrow>
          (case takeover_sweep standing wired queued probe answer rs stopped1 of
             (stopped2, n, gs) \<Rightarrow> (stopped2, (if continued then 1 else 0) + n, fx @ gs)))"

definition sweep_runs ::
    "(string \<Rightarrow> bool) \<Rightarrow> bool \<Rightarrow> bool \<Rightarrow> (paused_record \<Rightarrow> clearance_observation option) \<Rightarrow>
     (paused_record \<Rightarrow> resume_answer) \<Rightarrow> paused_record list \<Rightarrow> (string \<Rightarrow> watch_key option) \<Rightarrow>
     (string \<Rightarrow> watch_key option) \<times> nat \<times> takeover_effect list" where
  "sweep_runs standing wired queued probe answer rs stopped =
     (case takeover_sweep standing wired queued probe answer rs stopped of
        (stopped', n, fx) \<Rightarrow>
          (stopped' |` (pr_run_id ` {r \<in> set rs. takeover_candidate standing r}), n, fx))"

section \<open>Lemmas\<close>

lemma decide_continue_iff:
  "td_action (decide_takeover g ob) = Continue \<longleftrightarrow>
   co_session_present ob \<and> co_active ob \<and> co_hitl_pending ob \<and>
   co_reason ob \<in> {Observed, Session_Not_Found} \<and> co_gate ob \<noteq> Some g \<and>
   (co_attached ob \<or> co_final_probe_owed ob)"
  by (cases "co_reason ob") (auto simp: decide_takeover_def waiting_def)

lemma decide_reason_known:
  "td_reason_code (decide_takeover g ob) \<in> set onboarding_reason_codes"
  by (auto simp: decide_takeover_def waiting_def onboarding_reason_codes_def)

lemma clearance_observation_Some:
  "clearance_observation r = Some ob \<Longrightarrow>
   co_session_present ob \<and> co_active ob = (cr_lifecycle r = ACTIVE) \<and>
   co_hitl_pending ob = cr_hitl_pending r \<and> co_attached ob = cr_attached r \<and>
   co_final_probe_owed ob = cr_final_probe_owed r \<and> co_gate ob = cr_gate r \<and>
   co_reason ob = cr_reason r \<and> co_hitl_generation ob = cr_hitl_generation r \<and>
   cr_reason r \<noteq> Session_Not_Found"
  by (auto simp: clearance_observation_def split: if_splits)

lemma probe_reason_code_observed: "probe_reason_code r = Observed \<longleftrightarrow> r = ''observed''"
  by (simp add: probe_reason_code_def)

lemma probe_continue:
  assumes "td_action (decide_takeover g (probe_gate_clearance response)) = Continue"
  shows "\<exists>r ob. response = Report_Body (Some r) \<and> clearance_observation r = Some ob \<and>
    probe_gate_clearance response = ob"
  using assms
  by (auto simp: probe_gate_clearance_def unread_clearance_def absent_clearance_def decide_continue_iff
      split: clearance_response.splits option.splits if_splits)

lemma observed_clearance:
  "observe_gate_clearance attached probe s0 s1 = (report, s2) \<Longrightarrow>
   td_action (decide_takeover g (probe_gate_clearance (Report_Body (Some report)))) = Continue \<Longrightarrow>
   gp_reason probe = ''observed'' \<and> gp_gate probe \<noteq> Some g \<and>
   ms_lifecycle s0 = ACTIVE \<and> ms_hitl_pending s0 \<and> ms_lifecycle s1 = ACTIVE \<and> ms_hitl_pending s1 \<and>
   ms_hitl_generation s1 = ms_hitl_generation s0 \<and>
   cr_hitl_generation report = ms_hitl_generation s1 \<and>
   (attached \<or> ms_final_probe_generation s0 = Some (ms_hitl_generation s0)) \<and>
   (gp_gate probe = None \<longrightarrow> gp_observed probe) \<and>
   (\<not> attached \<and> gp_observed probe \<longrightarrow> ms_final_probe_generation s2 = None)"
proof -
  assume o: "observe_gate_clearance attached probe s0 s1 = (report, s2)"
    and c: "td_action (decide_takeover g (probe_gate_clearance (Report_Body (Some report)))) = Continue"
  obtain ob where ob: "clearance_observation report = Some ob"
    "probe_gate_clearance (Report_Body (Some report)) = ob"
    using probe_continue [OF c] by blast
  have d: "co_active ob" "co_hitl_pending ob" "co_reason ob = Observed" "co_gate ob \<noteq> Some g"
    "co_attached ob \<or> co_final_probe_owed ob"
    using c clearance_observation_Some [OF ob(1)] unfolding ob(2) decide_continue_iff by auto
  have r: "cr_lifecycle report = ACTIVE" "cr_hitl_pending report" "cr_reason report = Observed"
    "cr_gate report \<noteq> Some g" "cr_attached report \<or> cr_final_probe_owed report"
    "cr_cleared report = (cr_gate report = None)"
    using d clearance_observation_Some [OF ob(1)] ob(1)
    by (auto simp: clearance_observation_def split: if_splits)
  show ?thesis
    using o r
    by (auto simp: observe_gate_clearance_def probe_reason_code_observed Let_def split: if_splits)
qed

lemma apply_takeover_continued:
  "apply_takeover canonical wired queued ob answer r stopped = (stopped', cont, fx) \<Longrightarrow>
   Audit_Continued run g ph code \<in> set fx \<Longrightarrow>
   \<exists>o1. ob = Some o1 \<and> run = pr_run_id r \<and> g = paused_gate r \<and> cont \<and>
     td_action (decide_takeover (paused_gate r) o1) = Continue \<and>
     (canonical \<longrightarrow> co_reason o1 = Observed \<longrightarrow> co_hitl_generation o1 = pr_hitl_generation r)"
  by (auto simp: apply_takeover_def continue_run_def Let_def
      split: if_splits option.splits resume_answer.splits)

lemma canonical_gate_eligible: "is_canonical_gate_wait r \<Longrightarrow> paused_gate r \<in> set takeover_eligible_gates"
  using gates_partitioned by (auto simp: is_canonical_gate_wait_def paused_gate_def split: option.splits)

section \<open>Properties\<close>

text \<open>C18. No run is continued on less than an observed clearance: a decision to continue,
  taken on what the wire delivered of a service report, means the page was read for
  this very gate generation, the gate the run parked on was not on it, the session
  was active and still at its gate when the read returned, and a human was attached
  or exactly the one read owed after the last detach was being answered, which is
  then paid.\<close>

theorem continue_needs_clearance:
  "observe_gate_clearance attached probe s0 s1 = (report, s2) \<Longrightarrow>
   td_action (decide_takeover g (probe_gate_clearance (Report_Body (Some report)))) = Continue \<Longrightarrow>
   gp_reason probe = ''observed'' \<and> gp_gate probe \<noteq> Some g \<and>
   ms_lifecycle s0 = ACTIVE \<and> ms_hitl_pending s0 \<and> ms_lifecycle s1 = ACTIVE \<and> ms_hitl_pending s1 \<and>
   ms_hitl_generation s1 = ms_hitl_generation s0 \<and>
   cr_hitl_generation report = ms_hitl_generation s1 \<and>
   (attached \<or> ms_final_probe_generation s0 = Some (ms_hitl_generation s0)) \<and>
   (gp_gate probe = None \<longrightarrow> gp_observed probe) \<and>
   (\<not> attached \<and> gp_observed probe \<longrightarrow> ms_final_probe_generation s2 = None)"
  by (rule observed_clearance)

text \<open>An unattended session is read once: after a read with nobody attached, no later
  unattended observation of the same session leads to a continuation, whatever the
  page then shows, until a detach owes a new one.\<close>

theorem unattended_read_is_final:
  "observe_gate_clearance False probe s0 s1 = (report, s2) \<Longrightarrow>
   gp_observed probe \<Longrightarrow> cr_reason report = Observed \<Longrightarrow>
   observe_gate_clearance False probe' s2 s3 = (report', s4) \<Longrightarrow>
   td_action (decide_takeover g (probe_gate_clearance (Report_Body (Some report')))) \<noteq> Continue"
proof
  assume o: "observe_gate_clearance False probe s0 s1 = (report, s2)" and p: "gp_observed probe"
    and r: "cr_reason report = Observed"
    and o': "observe_gate_clearance False probe' s2 s3 = (report', s4)"
    and c: "td_action (decide_takeover g (probe_gate_clearance (Report_Body (Some report')))) = Continue"
  have "ms_final_probe_generation s2 \<noteq> Some (ms_hitl_generation s2)"
    using o p r by (auto simp: observe_gate_clearance_def Let_def split: if_splits)
  then show False using observed_clearance [OF o' c] by simp
qed

text \<open>A sweep continues only what was seen cleared: every continuation it audits is of
  a candidate whose gate's clearance is observable and whose observation decided to
  continue, for a canonical pause an observation of its own gate generation.\<close>

theorem sweep_continues_only_cleared:
  "sweep_runs standing wired queued probe answer rs stopped = (stopped', n, fx) \<Longrightarrow>
   Audit_Continued run g ph code \<in> set fx \<Longrightarrow>
   \<exists>r\<in>set rs. \<exists>ob. takeover_candidate standing r \<and> run = pr_run_id r \<and> g = paused_gate r \<and>
     g \<in> set takeover_eligible_gates \<and> probe r = Some ob \<and>
     td_action (decide_takeover g ob) = Continue \<and>
     (is_canonical_gate_wait r \<longrightarrow> co_reason ob = Observed \<longrightarrow>
        co_hitl_generation ob = pr_hitl_generation r)"
proof -
  assume sw: "sweep_runs standing wired queued probe answer rs stopped = (stopped', n, fx)"
    and au: "Audit_Continued run g ph code \<in> set fx"
  have rec: "takeover_candidate standing r \<and> run = pr_run_id r \<and> g = paused_gate r \<and>
      (\<exists>ob. probe r = Some ob \<and> td_action (decide_takeover g ob) = Continue \<and>
        (is_canonical_gate_wait r \<longrightarrow> co_reason ob = Observed \<longrightarrow>
           co_hitl_generation ob = pr_hitl_generation r))"
    if "sweep_record standing wired queued probe answer r st = (st', c, gs)"
      "Audit_Continued run g ph code \<in> set gs" for r st st' c gs
    using that by (auto simp: sweep_record_def split: if_splits dest!: apply_takeover_continued)
  have all: "\<exists>r\<in>set rs. takeover_candidate standing r \<and> run = pr_run_id r \<and> g = paused_gate r \<and>
      (\<exists>ob. probe r = Some ob \<and> td_action (decide_takeover g ob) = Continue \<and>
        (is_canonical_gate_wait r \<longrightarrow> co_reason ob = Observed \<longrightarrow>
           co_hitl_generation ob = pr_hitl_generation r))"
    if "takeover_sweep standing wired queued probe answer rs st = (st', m, gs)"
      "Audit_Continued run g ph code \<in> set gs" for rs st st' m gs
    using that
  proof (induction rs arbitrary: st m gs)
    case (Cons r rs)
    obtain st1 c fs where r: "sweep_record standing wired queued probe answer r st = (st1, c, fs)"
      by (cases "sweep_record standing wired queued probe answer r st")
    obtain st2 k hs where t: "takeover_sweep standing wired queued probe answer rs st1 = (st2, k, hs)"
      by (cases "takeover_sweep standing wired queued probe answer rs st1")
    have "st2 = st'" "Audit_Continued run g ph code \<in> set fs \<or> Audit_Continued run g ph code \<in> set hs"
      using Cons.prems r t by auto
    then show ?case using rec [OF r] Cons.IH [of st1 k hs] t by auto
  qed simp
  obtain m gs where "takeover_sweep standing wired queued probe answer rs stopped = (m, n, fx)"
    using sw by (auto simp: sweep_runs_def split: prod.splits)
  then obtain r where r: "r \<in> set rs" "takeover_candidate standing r" "run = pr_run_id r"
    "g = paused_gate r" "\<exists>ob. probe r = Some ob \<and> td_action (decide_takeover g ob) = Continue \<and>
        (is_canonical_gate_wait r \<longrightarrow> co_reason ob = Observed \<longrightarrow>
           co_hitl_generation ob = pr_hitl_generation r)"
    using all au by blast
  moreover have "g \<in> set takeover_eligible_gates"
    using r(2,4) canonical_gate_eligible by (auto simp: takeover_candidate_def)
  ultimately show ?thesis by blast
qed

text \<open>One failed probe request ends the watch: when the clearance request of a paused
  run does not reach the service, its pause is suppressed like an answered one, and no
  later sweep reads it or acts on it until its durable pause changes.\<close>

theorem failed_request_stops_watching:
  "takeover_candidate standing r \<Longrightarrow> pr_browser_session_id r \<noteq> [] \<Longrightarrow>
   probe r = Some (probe_gate_clearance Transport_Failed) \<Longrightarrow>
   sweep_record standing wired queued probe answer r stopped = (stopped', cont, fx) \<Longrightarrow>
   fx = [] \<and> \<not> cont \<and> stopped' (pr_run_id r) = Some (takeover_watch_key r) \<and>
   sweep_record standing wired queued probe' answer' r stopped' = (stopped', False, [])"
  by (auto simp: sweep_record_def apply_takeover_def probe_gate_clearance_def unread_clearance_def
      decide_takeover_def waiting_def Let_def split: if_splits)

section \<open>Witnesses\<close>

definition solved_probe :: gate_probe where
  "solved_probe = \<lparr>gp_gate = None, gp_reason = ''observed'', gp_observed = True\<rparr>"

definition detached_session :: managed_session where
  "detached_session = paused_session\<lparr>ms_lifecycle := ACTIVE,
     ms_final_probe_generation := Some (ms_hitl_generation paused_session)\<rparr>"

lemma detached_observed:
  "observe_gate_clearance False solved_probe detached_session detached_session =
     (\<lparr>cr_session_id = ms_session_id detached_session, cr_lifecycle = ACTIVE, cr_hitl_pending = True,
       cr_attached = False, cr_final_probe_owed = True, cr_gate = None, cr_cleared = True,
       cr_reason = Observed, cr_hitl_generation = ms_hitl_generation detached_session\<rparr>,
      detached_session\<lparr>ms_final_probe_generation := None\<rparr>)"
  by (simp add: observe_gate_clearance_def solved_probe_def detached_session_def paused_session_def
      probe_reason_code_def Let_def)

definition detached_report :: gate_clearance_report where
  "detached_report = fst (observe_gate_clearance False solved_probe detached_session detached_session)"

definition read_session :: managed_session where
  "read_session = snd (observe_gate_clearance False solved_probe detached_session detached_session)"

lemma detached_read:
  "observe_gate_clearance False solved_probe detached_session detached_session =
     (detached_report, read_session)"
  by (simp add: detached_report_def read_session_def)

lemma detached_continues:
  "td_action (decide_takeover ''captcha''
     (probe_gate_clearance (Report_Body (Some detached_report)))) = Continue"
  unfolding decide_continue_iff
  by (simp add: detached_report_def detached_observed probe_gate_clearance_def clearance_observation_def)

lemma continue_needs_clearance_witness:
  "ms_hitl_pending detached_session \<and> gp_gate solved_probe \<noteq> Some ''captcha''"
  using continue_needs_clearance [OF detached_read detached_continues] by blast

lemma unattended_read_is_final_witness:
  "td_action (decide_takeover ''captcha'' (probe_gate_clearance (Report_Body (Some
     (fst (observe_gate_clearance False solved_probe read_session read_session)))))) \<noteq> Continue"
proof -
  have "gp_observed solved_probe" "cr_reason detached_report = Observed"
    by (simp add: solved_probe_def) (simp add: detached_report_def detached_observed)
  then show ?thesis using unattended_read_is_final [OF detached_read] by (metis prod.collapse)
qed

definition sample_record :: paused_record where
  "sample_record = \<lparr>pr_run_id = ''r1'', pr_state_revision = 4, pr_browser_session_id = ''b'',
     pr_canonical_engine = False, pr_status = ''waiting_for_hitl'', pr_phase = ''captcha_paused'',
     pr_hitl_type = Some ''captcha'', pr_hitl_generation = 1\<rparr>"

lemma sample_swept:
  "sweep_runs (\<lambda>_. True) True True
     (\<lambda>_. Some (probe_gate_clearance (Report_Body (Some detached_report))))
     (\<lambda>_. Resume_Committed ''captcha_paused'') [sample_record] Map.empty =
   (Map.empty, 1, [Audit_Continued ''r1'' ''captcha'' ''captcha_paused'' ''captcha_resolved'',
                   Enqueue_Run ''r1''])"
  by (simp add: sweep_runs_def sweep_record_def takeover_candidate_def is_canonical_gate_wait_def
      sample_record_def paused_gate_def takeover_eligible_gates_def human_action_types_def
      apply_takeover_def continue_run_def decide_takeover_def probe_gate_clearance_def
      clearance_observation_def detached_report_def detached_observed Let_def)

lemma sweep_continues_only_cleared_witness:
  "takeover_candidate (\<lambda>_. True) sample_record"
  using sweep_continues_only_cleared [OF sample_swept, of "''r1''" "''captcha''" "''captcha_paused''"
      "''captcha_resolved''"] by auto

end
