(* ===== verification/Planner.thy ===== *)
theory Planner
  imports Effects Host_Policy Phases
begin

text \<open>
  The route a run may drive: planned surfaces (\<^theory_text>\<open>ops/planner/plan.py\<close>), their validation
  against the reviewed recipe (\<^theory_text>\<open>ops/planner/validator.py\<close>), the plan revisions of the
  ledger (\<^theory_text>\<open>ops/core/storage.py\<close>, \<^theory_text>\<open>ops/planner/store.py\<close>), adherence and its single
  re-plan (\<^theory_text>\<open>ops/planner/adherence.py\<close>), and the planning step of admission
  (\<^theory_text>\<open>ops/onboarding/driver.py\<close>).

  \<^theory_text>\<open>sanitize\<close> stands for \<^theory_text>\<open>sanitize_url\<close>, \<^theory_text>\<open>rd\<close> for \<^theory_text>\<open>redact_text\<close>; the planner
  itself is an argument. The JSON column of the surfaces is the list it encodes, and
  \<^theory_text>\<open>jlen\<close> the length of its text.
\<close>

section \<open>Surfaces and plans\<close>

datatype surface_purpose =
  Entry | Login | Signup | Verification | Developer_App | Credential

datatype plan_source = From_Planner | From_Recipe

record planned_surface =
  su_host :: string
  su_path :: string
  su_purpose :: surface_purpose

definition max_plan_surfaces :: nat where
  "max_plan_surfaces = 12"

definition max_surface_host_length :: nat where
  "max_surface_host_length = 253"

definition max_surface_path_length :: nat where
  "max_surface_path_length = 300"

definition is_ascii :: "string \<Rightarrow> bool" where
  "is_ascii s = list_all (\<lambda>c. (of_char c :: nat) < 128) s"

definition forbidden_host_character :: "char \<Rightarrow> bool" where
  "forbidden_host_character c = (c \<in> set ''/?#:@ '')"

definition forbidden_path_character :: "char \<Rightarrow> bool" where
  "forbidden_path_character c = (c \<in> set ''?# '')"

definition make_surface :: "string \<Rightarrow> string \<Rightarrow> surface_purpose \<Rightarrow> planned_surface result" where
  "make_surface host pth purpose =
     (if host = [] \<or> max_surface_host_length < length host \<or> host \<noteq> lower host \<or>
         \<not> is_ascii host \<or> list_ex forbidden_host_character host
      then Inl (ValueError ''a planned surface host must be a bounded lower-case ascii host'')
      else if \<not> starts_with ''/'' pth \<or> max_surface_path_length < length pth \<or> \<not> is_ascii pth \<or>
         list_ex forbidden_path_character pth
      then Inl (ValueError ''a planned surface path must be a bounded absolute ascii path'')
      else Inr \<lparr>su_host = host, su_path = pth, su_purpose = purpose\<rparr>)"

record run_plan =
  rp_app_slug :: string
  rp_catalog_id :: string
  rp_recipe_version :: string
  rp_revision :: int
  rp_source :: plan_source
  rp_surfaces :: "planned_surface list"
  rp_credential_surface :: "planned_surface option"
  rp_success_digest :: string

definition make_run_plan :: "run_plan \<Rightarrow> run_plan result" where
  "make_run_plan p =
     (if \<not> (1 \<le> length (rp_surfaces p) \<and> length (rp_surfaces p) \<le> max_plan_surfaces)
      then Inl (ValueError ''a run plan names 1..12 surfaces'')
      else if rp_revision p < 1 then Inl (ValueError ''a run plan revision is 1-based'')
      else Inr p)"

definition surface_for_step :: "run_plan \<Rightarrow> int \<Rightarrow> planned_surface option" where
  "surface_for_step p i =
     (if 0 \<le> i \<and> i < int (length (rp_surfaces p)) then Some (rp_surfaces p ! nat i) else None)"

definition canonical_surface ::
    "(string \<Rightarrow> bool) \<Rightarrow> string \<Rightarrow> surface_purpose \<Rightarrow> planned_surface result" where
  "canonical_surface v6 url purpose =
     bindR (canonical v6 url) (\<lambda>c.
     bindR (urlsplit v6 c) (\<lambda>folded.
       if scheme folded \<noteq> ''https''
       then Inl (ValueError ''a planned surface must be an https URL'')
       else make_surface (case hostname folded of None \<Rightarrow> [] | Some h \<Rightarrow> h)
              (if path folded = [] then ''/'' else path folded) purpose))"

section \<open>The validator\<close>

record success_predicate =
  sp_url_path_contains :: "string list"
  sp_title_contains :: "string list"
  sp_visible_text_contains :: "string list"
  sp_required_accessible_names :: "string list"

definition proves_credential_surface :: "success_predicate \<Rightarrow> bool" where
  "proves_credential_surface s =
     (sp_url_path_contains s \<noteq> [] \<and>
      (sp_title_contains s \<noteq> [] \<or> sp_visible_text_contains s \<noteq> [] \<or>
       sp_required_accessible_names s \<noteq> []))"

record plan_recipe = app_recipe +
  pl_login_url :: "string option"
  pl_signup_url :: "string option"
  pl_developer_portal_url :: "string option"
  pl_credential_management_url :: "string option"
  pl_steps :: "(string option \<times> string list) list"
  pl_success :: success_predicate
  pl_scope :: string
  pl_entry_path_prefixes :: "string list option"

datatype plan_refusal_detail =
    Recipe_Route_Not_Browser | App_Slug_Mismatch | Surface_Count_Exceeds_Recipe
  | Host_Not_In_Recipe | Navigation_Denied | Path_Not_Declared | Credential_Surface_Unprovable
  | Credential_Surface_Not_Declared

record plan_refusal =
  pf_reason_code :: string
  pf_detail :: plan_refusal_detail
  pf_ordinal :: nat

record declared_path_set =
  dp_exact :: "string list"
  dp_prefixes :: "string list"
  dp_contains :: "string list"

definition contains_text :: "string \<Rightarrow> string \<Rightarrow> bool" where
  "contains_text needle s = list_ex (\<lambda>i. starts_with needle (drop i s)) [0..<length s + 1]"

definition prefix_admits :: "string \<Rightarrow> string \<Rightarrow> bool" where
  "prefix_admits pth raw =
     (let stripped = rstrip_chr (CHR ''/'') raw; prefix = (if stripped = [] then ''/'' else stripped)
      in pth = prefix \<or> (prefix \<noteq> ''/'' \<and> starts_with (prefix @ ''/'') pth))"

definition admits :: "declared_path_set \<Rightarrow> string \<Rightarrow> bool" where
  "admits d pth =
     (pth \<in> set (dp_exact d) \<or> list_ex (prefix_admits pth) (dp_prefixes d) \<or>
      list_ex (\<lambda>f. contains_text f pth) (dp_contains d))"

definition path_of :: "(string \<Rightarrow> bool) \<Rightarrow> string option \<Rightarrow> string option" where
  "path_of v6 url =
     (case url of None \<Rightarrow> None
      | Some u \<Rightarrow> (case canonical_surface v6 u Entry of Inl e \<Rightarrow> None | Inr s \<Rightarrow> Some (su_path s)))"

definition declared_paths :: "(string \<Rightarrow> bool) \<Rightarrow> plan_recipe \<Rightarrow> declared_path_set" where
  "declared_paths v6 r =
     (if rc_browser r = None then \<lparr>dp_exact = [], dp_prefixes = [], dp_contains = []\<rparr>
      else \<lparr>dp_exact = List.map_filter (path_of v6)
              ([pl_login_url r, pl_signup_url r, pl_developer_portal_url r,
                pl_credential_management_url r] @ map fst (pl_steps r)),
            dp_prefixes = (case pl_entry_path_prefixes r of None \<Rightarrow> [] | Some ps \<Rightarrow> ps),
            dp_contains = first_occurrences
              (sp_url_path_contains (pl_success r) @ concat (map snd (pl_steps r)))\<rparr>)"

definition declared_surface_paths :: "(string \<Rightarrow> bool) \<Rightarrow> plan_recipe \<Rightarrow> string list" where
  "declared_surface_paths v6 r =
     (if rc_browser r = None then []
      else first_occurrences (List.map_filter (path_of v6)
             ([pl_login_url r, pl_signup_url r] @ map fst (pl_steps r) @
              [pl_developer_portal_url r, pl_credential_management_url r])))"

definition refuse :: "plan_refusal_detail \<Rightarrow> nat \<Rightarrow> plan_refusal" where
  "refuse detail ordinal = \<lparr>pf_reason_code = ''plan_surface_not_in_catalog'', pf_detail = detail,
     pf_ordinal = ordinal\<rparr>"

definition check_surface ::
    "(string \<Rightarrow> bool) \<Rightarrow> plan_recipe \<Rightarrow> browser_allowed_hosts \<Rightarrow> declared_path_set \<Rightarrow>
     planned_surface \<Rightarrow> nat \<Rightarrow> plan_refusal option result" where
  "check_surface v6 r allowed paths s ordinal =
     (if rc_browser r = None \<or> su_host s \<notin> set (br_exact_hosts (the (rc_browser r)))
      then Inr (Some (refuse Host_Not_In_Recipe ordinal))
      else bindR (evaluate_navigation v6 (''https://'' @ su_host s @ su_path s) allowed) (\<lambda>d.
        if \<not> hd_allowed d then Inr (Some (refuse Navigation_Denied ordinal))
        else if \<not> admits paths (su_path s) then Inr (Some (refuse Path_Not_Declared ordinal))
        else Inr None))"

fun check_surfaces ::
    "(string \<Rightarrow> bool) \<Rightarrow> plan_recipe \<Rightarrow> browser_allowed_hosts \<Rightarrow> declared_path_set \<Rightarrow> nat \<Rightarrow>
     planned_surface list \<Rightarrow> plan_refusal option result" where
  "check_surfaces v6 r allowed paths ordinal [] = Inr None"
| "check_surfaces v6 r allowed paths ordinal (s # ss) =
     bindR (check_surface v6 r allowed paths s ordinal) (\<lambda>refusal.
       if refusal \<noteq> None then Inr refusal
       else check_surfaces v6 r allowed paths (ordinal + 1) ss)"

definition planner_allow_list :: "plan_recipe \<Rightarrow> browser_recipe \<Rightarrow> browser_allowed_hosts" where
  "planner_allow_list r b = \<lparr>ah_app_slug = rc_app_slug r, ah_exact_hosts = br_exact_hosts b,
     ah_vendor_wildcard_domains = []\<rparr>"

definition validate_plan ::
    "(string \<Rightarrow> bool) \<Rightarrow> run_plan \<Rightarrow> plan_recipe \<Rightarrow> plan_refusal option result" where
  "validate_plan v6 p r =
     (if rc_route_kind r \<noteq> ''playwright'' \<or> rc_browser r = None
      then Inr (Some (refuse Recipe_Route_Not_Browser 0))
      else if rp_app_slug p \<noteq> rc_app_slug r then Inr (Some (refuse App_Slug_Mismatch 0))
      else if length (pl_steps r) < length (rp_surfaces p)
      then Inr (Some (refuse Surface_Count_Exceeds_Recipe (length (pl_steps r) + 1)))
      else
        let allowed = planner_allow_list r (the (rc_browser r))
        in bindR (check_surfaces v6 r allowed (declared_paths v6 r) 1 (rp_surfaces p)) (\<lambda>refusal.
          if refusal \<noteq> None then Inr refusal
          else if pl_scope r = ''entry_only'' then
            (if rp_credential_surface p \<noteq> None
             then Inr (Some (refuse Credential_Surface_Not_Declared 0)) else Inr None)
          else (case rp_credential_surface p of
              None \<Rightarrow> Inr (Some (refuse Credential_Surface_Unprovable 0))
            | Some c \<Rightarrow>
                if \<not> proves_credential_surface (pl_success r)
                then Inr (Some (refuse Credential_Surface_Unprovable 0))
                else check_surface v6 r allowed
                       \<lparr>dp_exact = [], dp_prefixes = [],
                        dp_contains = sp_url_path_contains (pl_success r)\<rparr> c 0)))"

section \<open>The plan table\<close>

record plan_row =
  pt_run_id :: string
  pt_revision :: nat
  pt_active :: bool
  pt_plan :: run_plan
  pt_reason_code :: string

type_synonym plan_table = "plan_row list"

definition plan_identifier :: "string \<Rightarrow> bool" where
  "plan_identifier s =
     (s \<noteq> [] \<and> length s \<le> 200 \<and> (is_alpha (hd s) \<or> is_digit (hd s)) \<and>
      list_all (\<lambda>c. is_alpha c \<or> is_digit c \<or> c \<in> set ''._@-'') s)"

definition row_surface_ok :: "planned_surface \<Rightarrow> bool" where
  "row_surface_ok s = returned (make_surface (su_host s) (su_path s) (su_purpose s))"

text \<open>The storage writer's own checks; the revision it assigns replaces the caller's.\<close>

definition plan_columns_ok :: "(planned_surface list \<Rightarrow> nat) \<Rightarrow> run_plan \<Rightarrow> string \<Rightarrow> bool" where
  "plan_columns_ok jlen p reason =
     (plan_identifier (rp_app_slug p) \<and> plan_identifier (rp_catalog_id p) \<and>
      plan_identifier (rp_recipe_version p) \<and> 1 \<le> length (rp_surfaces p) \<and>
      length (rp_surfaces p) \<le> max_plan_surfaces \<and> list_all row_surface_ok (rp_surfaces p) \<and>
      jlen (rp_surfaces p) \<le> 4000 \<and>
      (case rp_credential_surface p of None \<Rightarrow> True | Some c \<Rightarrow> row_surface_ok c) \<and>
      length (rp_success_digest p) = 64 \<and>
      list_all (\<lambda>c. is_digit c \<or> c \<in> set ''abcdef'') (rp_success_digest p) \<and>
      reason \<in> set onboarding_reason_codes)"

definition rows_of :: "plan_table \<Rightarrow> string \<Rightarrow> plan_row list" where
  "rows_of T run = filter (\<lambda>r. pt_run_id r = run) T"

definition highest_revision :: "plan_table \<Rightarrow> string \<Rightarrow> nat" where
  "highest_revision T run = foldr (\<lambda>r n. max (pt_revision r) n) (rows_of T run) 0"

text \<open>\<^theory_text>\<open>known\<close> is the foreign key of the runs table.\<close>

definition record_run_plan ::
    "(string \<Rightarrow> string) \<Rightarrow> (string \<Rightarrow> bool) \<Rightarrow> (planned_surface list \<Rightarrow> nat) \<Rightarrow> plan_table \<Rightarrow>
     string \<Rightarrow> run_plan \<Rightarrow> string \<Rightarrow> plan_table \<times> plan_row result" where
  "record_run_plan rd known jlen T run_id p reason =
     (let run = rd run_id
      in if \<not> plan_columns_ok jlen p reason
         then (T, Inl (ValueError ''a run plan column is out of its contract''))
         else if \<not> known run then (T, Inl (IntegrityError ''FOREIGN KEY constraint failed''))
         else
           let revision = highest_revision T run + 1;
               row = \<lparr>pt_run_id = run, pt_revision = revision, pt_active = True,
                      pt_plan = p\<lparr>rp_revision := int revision\<rparr>, pt_reason_code = reason\<rparr>
           in (map (\<lambda>r. if pt_run_id r = run then r\<lparr>pt_active := False\<rparr> else r) T @ [row], Inr row))"

definition read_active_row :: "(string \<Rightarrow> string) \<Rightarrow> plan_table \<Rightarrow> string \<Rightarrow> plan_row option" where
  "read_active_row rd T run_id = List.find (\<lambda>r. pt_run_id r = rd run_id \<and> pt_active r) T"

definition count_run_plans :: "(string \<Rightarrow> string) \<Rightarrow> plan_table \<Rightarrow> string \<Rightarrow> nat" where
  "count_run_plans rd T run_id = length (rows_of T (rd run_id))"

text \<open>Reading a row builds the surfaces and the plan again, through their checks.\<close>

fun check_each :: "planned_surface list \<Rightarrow> unit result" where
  "check_each [] = Inr ()"
| "check_each (s # ss) =
     bindR (make_surface (su_host s) (su_path s) (su_purpose s)) (\<lambda>_. check_each ss)"

definition plan_from_row :: "plan_row \<Rightarrow> run_plan result" where
  "plan_from_row row =
     (let p = pt_plan row
      in bindR (check_each (rp_surfaces p)) (\<lambda>_.
         bindR (case rp_credential_surface p of None \<Rightarrow> Inr None
                | Some c \<Rightarrow> bindR (make_surface (su_host c) (su_path c) Credential) (\<lambda>s. Inr (Some s)))
           (\<lambda>cred. make_run_plan (p\<lparr>rp_credential_surface := cred\<rparr>))))"

definition read_active_plan ::
    "(string \<Rightarrow> string) \<Rightarrow> plan_table \<Rightarrow> string \<Rightarrow> run_plan option result" where
  "read_active_plan rd T run_id =
     (case read_active_row rd T run_id of None \<Rightarrow> Inr None
      | Some row \<Rightarrow> bindR (plan_from_row row) (\<lambda>p. Inr (Some p)))"

definition record_plan ::
    "(string \<Rightarrow> string) \<Rightarrow> (string \<Rightarrow> bool) \<Rightarrow> (planned_surface list \<Rightarrow> nat) \<Rightarrow> plan_table \<Rightarrow>
     string \<Rightarrow> run_plan \<Rightarrow> string \<Rightarrow> plan_table \<times> run_plan result" where
  "record_plan rd known jlen T run_id p reason =
     (case record_run_plan rd known jlen T run_id p reason of
        (T', row) \<Rightarrow> (T', bindR row plan_from_row))"

definition record_initial_plan ::
    "(string \<Rightarrow> string) \<Rightarrow> (string \<Rightarrow> bool) \<Rightarrow> (planned_surface list \<Rightarrow> nat) \<Rightarrow> plan_table \<Rightarrow>
     string \<Rightarrow> run_plan \<Rightarrow> string \<Rightarrow> plan_table \<times> run_plan result" where
  "record_initial_plan rd known jlen T run_id p reason =
     (if rp_revision p \<noteq> 1 then (T, Inl (ValueError ''an initial run plan must be revision 1''))
      else if count_run_plans rd T run_id \<noteq> 0 then
        (case read_active_row rd T run_id of
           None \<Rightarrow> (T, Inl (RuntimeError ''a run with plan history must have an active plan''))
         | Some row \<Rightarrow> (T, plan_from_row row))
      else record_plan rd known jlen T run_id p reason)"

section \<open>Adherence\<close>

definition elided :: string where
  "elided = ''[REDACTED]''"

record divergence =
  dv_expected_host :: string
  dv_expected_path :: string
  dv_observed_host :: string
  dv_observed_path :: string
  dv_step_index :: int
  dv_unresolved :: bool

datatype adherence_action = Proceed | Replan | Pause_Run

record adherence_outcome =
  ac_action :: adherence_action
  ac_reason_code :: "string option"
  ac_divergence :: "divergence option"
  ac_evidence :: string

definition https_url :: "string \<Rightarrow> string \<Rightarrow> string" where
  "https_url host p = ''https://'' @ host @ p"

definition observed ::
    "(string \<Rightarrow> bool) \<Rightarrow> (string \<Rightarrow> string) \<Rightarrow> string \<Rightarrow> string \<times> string \<times> bool \<times> string" where
  "observed v6 sanitize url =
     (case canonical_surface v6 url Entry of
        Inl e \<Rightarrow> (elided, elided, True, elided)
      | Inr s \<Rightarrow>
          if sanitize (https_url (su_host s) (su_path s)) \<noteq> https_url (su_host s) (su_path s)
          then (su_host s, elided, True, su_path s)
          else (su_host s, su_path s, False, su_path s))"

definition observe_surface ::
    "(string \<Rightarrow> bool) \<Rightarrow> (string \<Rightarrow> string) \<Rightarrow> run_plan \<Rightarrow> int \<Rightarrow> string \<Rightarrow> divergence option" where
  "observe_surface v6 sanitize p i url =
     (case surface_for_step p i of
        None \<Rightarrow> None
      | Some expected \<Rightarrow>
          (case observed v6 sanitize url of (host, reported, unresolved, true_path) \<Rightarrow>
             if host \<noteq> elided \<and> host = su_host expected \<and> true_path = su_path expected then None
             else Some \<lparr>dv_expected_host = su_host expected, dv_expected_path = su_path expected,
                        dv_observed_host = host, dv_observed_path = reported, dv_step_index = i,
                        dv_unresolved = unresolved\<rparr>))"

definition model_safe_url :: "(string \<Rightarrow> string) \<Rightarrow> string \<Rightarrow> string \<Rightarrow> string option" where
  "model_safe_url sanitize host p =
     (if host = [] \<or> p = [] \<or> host = elided \<or> p = elided then None
      else if sanitize (https_url host p) = https_url host p then Some (https_url host p) else None)"

fun numbered :: "(string \<Rightarrow> string) \<Rightarrow> nat \<Rightarrow> planned_surface list \<Rightarrow> string list" where
  "numbered sanitize n [] = []"
| "numbered sanitize n (s # ss) =
     (case model_safe_url sanitize (su_host s) (su_path s) of
        None \<Rightarrow> numbered sanitize (n + 1) ss
      | Some u \<Rightarrow> (nat_digits n @ ''. '' @ u) # numbered sanitize (n + 1) ss)"

fun join_str :: "string \<Rightarrow> string list \<Rightarrow> string" where
  "join_str sep [] = []"
| "join_str sep [w] = w"
| "join_str sep (w # ws) = w @ sep @ join_str sep ws"

definition replan_evidence ::
    "(string \<Rightarrow> string) \<Rightarrow> divergence \<Rightarrow> run_plan option \<Rightarrow> string" where
  "replan_evidence sanitize d plan =
     (let expected = model_safe_url sanitize (dv_expected_host d) (dv_expected_path d);
          seen = model_safe_url sanitize (dv_observed_host d) (dv_observed_path d);
          place = (case expected of Some u \<Rightarrow> u | None \<Rightarrow> ''the surface it named'');
          landed = (case seen of Some u \<Rightarrow> ''landed on '' @ u
                    | None \<Rightarrow> ''landed somewhere that cannot be shown here'')
      in if expected = None \<and> seen = None then []
         else join_str '' ''
           ([''The previous plan for this run did not hold. At surface '' @
             nat_digits (nat (dv_step_index d + 1)) @ '' it expected '' @ place @
             '', but the browser '' @ landed @
             '' -- a different host, so the run cannot simply continue where it is.'',
             ''Re-planning the same route would land in the same place.''] @
            (case plan of
               None \<Rightarrow> []
             | Some p \<Rightarrow>
                 (let ordered = numbered sanitize 1 (rp_surfaces p)
                  in if ordered = [] then []
                     else [''The superseded revision '' @ nat_digits (nat (rp_revision p)) @
                           '' ordered: '' @ join_str ''; '' ordered @ ''.'']) @
                 (case rp_credential_surface p of
                    None \<Rightarrow> []
                  | Some c \<Rightarrow> (case model_safe_url sanitize (su_host c) (su_path c) of
                        None \<Rightarrow> []
                      | Some u \<Rightarrow> [''It named '' @ u @ '' as the credential surface.''])))))"

definition decide_adherence ::
    "(string \<Rightarrow> string) \<Rightarrow> divergence option \<Rightarrow> nat \<Rightarrow> run_plan option \<Rightarrow> adherence_outcome" where
  "decide_adherence sanitize dv plans_recorded plan =
     (case dv of
        None \<Rightarrow> \<lparr>ac_action = Proceed, ac_reason_code = None, ac_divergence = None,
                 ac_evidence = []\<rparr>
      | Some d \<Rightarrow>
          if dv_unresolved d
          then \<lparr>ac_action = Pause_Run, ac_reason_code = Some ''route_divergence_unresolved'',
                ac_divergence = Some d, ac_evidence = []\<rparr>
          else if dv_observed_host d = dv_expected_host d
          then \<lparr>ac_action = Proceed, ac_reason_code = Some ''route_divergence_same_host'',
                ac_divergence = Some d, ac_evidence = []\<rparr>
          else if 1 < plans_recorded
          then \<lparr>ac_action = Pause_Run, ac_reason_code = Some ''route_divergence_unresolved'',
                ac_divergence = Some d, ac_evidence = []\<rparr>
          else \<lparr>ac_action = Replan, ac_reason_code = Some ''route_replanned'',
                ac_divergence = Some d, ac_evidence = replan_evidence sanitize d plan\<rparr>)"

text \<open>\<^theory_text>\<open>RouteAdherenceMonitor.observe\<close>, with the divergence it records in the audit.\<close>

definition monitor_observe ::
    "(string \<Rightarrow> bool) \<Rightarrow> (string \<Rightarrow> string) \<Rightarrow> (string \<Rightarrow> string) \<Rightarrow> plan_table \<Rightarrow> string \<Rightarrow> int \<Rightarrow>
     string \<Rightarrow> (adherence_outcome \<times> (divergence \<times> string) option) result" where
  "monitor_observe v6 sanitize rd T run_id i url =
     bindR (read_active_plan rd T run_id) (\<lambda>plan.
       case plan of
         None \<Rightarrow> Inr (\<lparr>ac_action = Proceed, ac_reason_code = None, ac_divergence = None,
                      ac_evidence = []\<rparr>, None)
       | Some p \<Rightarrow>
           let out = decide_adherence sanitize (observe_surface v6 sanitize p i url)
                       (count_run_plans rd T run_id) (Some p)
           in Inr (out, (case (ac_divergence out, ac_reason_code out) of
                          (Some d, Some c) \<Rightarrow> Some (d, c) | _ \<Rightarrow> None)))"

section \<open>Planning before the first session\<close>

text \<open>\<^theory_text>\<open>wired\<close>: a plan store exists. The planner, where one is wired, answers a refusal or a
  plan with its reason code; \<^theory_text>\<open>recipe\<close> is the selected catalog entry.\<close>

definition plan_admission ::
    "(string \<Rightarrow> bool) \<Rightarrow> (string \<Rightarrow> string) \<Rightarrow> (string \<Rightarrow> bool) \<Rightarrow> (planned_surface list \<Rightarrow> nat) \<Rightarrow> bool \<Rightarrow>
     (plan_recipe \<Rightarrow> plan_refusal + run_plan \<times> string) option \<Rightarrow> plan_table \<Rightarrow> string \<Rightarrow>
     plan_recipe option \<Rightarrow> plan_table \<times> plan_refusal option result" where
  "plan_admission v6 rd known jlen wired planner T run_id recipe =
     (if \<not> wired then (T, Inr None)
      else (case recipe of
          None \<Rightarrow> (T, Inr (Some (refuse Recipe_Route_Not_Browser 0)))
        | Some r \<Rightarrow>
            (case read_active_plan rd T run_id of
               Inl e \<Rightarrow> (T, Inl e)
             | Inr (Some existing) \<Rightarrow> (T, validate_plan v6 existing r)
             | Inr None \<Rightarrow>
                 (case planner of
                    None \<Rightarrow> (T, Inr None)
                  | Some plan_for \<Rightarrow>
                      (case plan_for r of
                         Inl refusal \<Rightarrow> (T, Inr (Some refusal))
                       | Inr (p, reason) \<Rightarrow>
                           (case validate_plan v6 p r of
                              Inl e \<Rightarrow> (T, Inl e)
                            | Inr (Some refusal) \<Rightarrow> (T, Inr (Some refusal))
                            | Inr None \<Rightarrow>
                                (case record_initial_plan rd known jlen T run_id p reason of
                                   (T', Inl e) \<Rightarrow> (T', Inl e)
                                 | (T', Inr recorded) \<Rightarrow> (T', validate_plan v6 recorded r)))))))) "

section \<open>Lemmas\<close>

lemma make_surface_Inr:
  "make_surface h p u = Inr s \<Longrightarrow> s = \<lparr>su_host = h, su_path = p, su_purpose = u\<rparr>"
  by (auto simp: make_surface_def split: if_splits)

lemma check_surface_None:
  "check_surface v6 r allowed paths s n = Inr None \<Longrightarrow>
   (\<exists>b. rc_browser r = Some b \<and> su_host s \<in> set (br_exact_hosts b)) \<and> admits paths (su_path s) \<and>
   (\<exists>d. evaluate_navigation v6 (https_url (su_host s) (su_path s)) allowed = Inr d \<and> hd_allowed d)"
  by (auto simp: check_surface_def https_url_def result_simps split: if_splits)

lemma check_surfaces_None:
  "check_surfaces v6 r allowed paths n ss = Inr None \<Longrightarrow> s \<in> set ss \<Longrightarrow>
   \<exists>m. check_surface v6 r allowed paths s m = Inr None"
  by (induction ss arbitrary: n) (auto simp: result_simps split: if_splits)

lemma validate_plan_None:
  "validate_plan v6 p r = Inr None \<Longrightarrow>
   \<exists>b. rc_browser r = Some b \<and> rc_route_kind r = ''playwright'' \<and> rp_app_slug p = rc_app_slug r \<and>
     length (rp_surfaces p) \<le> length (pl_steps r) \<and>
     (\<forall>s\<in>set (rp_surfaces p). \<exists>m.
        check_surface v6 r (planner_allow_list r b) (declared_paths v6 r) s m = Inr None) \<and>
     (rp_credential_surface p = None \<longleftrightarrow> pl_scope r = ''entry_only'') \<and>
     (\<forall>c. rp_credential_surface p = Some c \<longrightarrow> proves_credential_surface (pl_success r) \<and>
        check_surface v6 r (planner_allow_list r b)
          \<lparr>dp_exact = [], dp_prefixes = [], dp_contains = sp_url_path_contains (pl_success r)\<rparr> c 0 =
        Inr None)"
  by (auto simp: validate_plan_def result_simps Let_def dest: check_surfaces_None
      split: if_splits option.splits)

text \<open>An allow-list that holds at least the same patterns admits at least the same
  addresses.\<close>

lemma evaluate_navigation_mono:
  assumes "evaluate_navigation v6 url a = Inr d" "hd_allowed d" "set (patterns a) \<subseteq> set (patterns a')"
  shows "\<exists>d'. evaluate_navigation v6 url a' = Inr d' \<and> hd_allowed d'"
proof -
  obtain u h where u: "urlsplit v6 url = Inr u" "scheme u = ''https''" "hostname u = Some h" "h \<noteq> []"
    "\<not> truthy (username u)" "\<not> truthy (password u)" "host_matches_patterns h (patterns a)"
    using evaluate_navigation_Inr [OF assms(1)] assms(2) by blast
  obtain d' where d': "evaluate_navigation v6 url a' = Inr d'"
    using evaluate_navigation_returns [OF u(1)] by blast
  have "host_matches_patterns h (patterns a')"
    using u(7) assms(3) by (auto simp: host_matches_patterns_iff)
  then show ?thesis using evaluate_navigation_Inr [OF d'] u d' by auto
qed

text \<open>The table: what a run's rows look like.\<close>

definition revisions_upto :: "nat \<Rightarrow> nat list" where
  "revisions_upto n = [1..<Suc n]"

lemma revisions_upto_0 [simp]: "revisions_upto 0 = []"
  by (simp add: revisions_upto_def)

lemma revisions_upto_Suc: "revisions_upto (Suc n) = revisions_upto n @ [Suc n]"
  by (simp add: revisions_upto_def)

lemma set_revisions_upto [simp]: "set (revisions_upto n) = {1..n}"
  by (auto simp: revisions_upto_def)

lemma nth_revisions_upto [simp]: "i < n \<Longrightarrow> revisions_upto n ! i = Suc i"
  unfolding revisions_upto_def by (subst nth_upt) auto

lemma max_revisions_upto: "foldr max (revisions_upto n) m = max n m"
proof (induction n arbitrary: m)
  case (Suc n)
  have "foldr max (revisions_upto (Suc n)) m = max n (max (Suc n) m)"
    unfolding revisions_upto_Suc foldr_append Suc by simp
  also have "\<dots> = max (Suc n) m" by linarith
  finally show ?case .
qed simp

definition plan_table_ok :: "plan_table \<Rightarrow> bool" where
  "plan_table_ok T =
     (\<forall>run. map pt_revision (rows_of T run) = revisions_upto (length (rows_of T run)) \<and>
        (\<forall>r\<in>set (rows_of T run). pt_active r \<longleftrightarrow> pt_revision r = length (rows_of T run)) \<and>
        (\<forall>r\<in>set (rows_of T run). rp_revision (pt_plan r) = int (pt_revision r)))"

lemma highest_revision_ok:
  assumes "plan_table_ok T" shows "highest_revision T run = length (rows_of T run)"
proof -
  have f: "foldr (\<lambda>r n. max (pt_revision r) n) rs 0 = foldr max (map pt_revision rs) 0" for rs
    by (induction rs) auto
  show ?thesis using assms by (simp add: highest_revision_def f max_revisions_upto plan_table_ok_def)
qed

lemma rows_of_superseded:
  "rows_of (map (\<lambda>r. if pt_run_id r = run then r\<lparr>pt_active := False\<rparr> else r) T) q =
   (if q = run then map (\<lambda>r. r\<lparr>pt_active := False\<rparr>) (rows_of T run) else rows_of T q)"
  by (induction T) (auto simp: rows_of_def)

lemma record_run_plan_Inr:
  "record_run_plan rd known jlen T run p reason = (T', Inr row) \<Longrightarrow>
   T' = map (\<lambda>r. if pt_run_id r = rd run then r\<lparr>pt_active := False\<rparr> else r) T @ [row] \<and>
   row = \<lparr>pt_run_id = rd run, pt_revision = highest_revision T (rd run) + 1, pt_active = True,
     pt_plan = p\<lparr>rp_revision := int (highest_revision T (rd run) + 1)\<rparr>, pt_reason_code = reason\<rparr> \<and>
   plan_columns_ok jlen p reason"
  by (auto simp: record_run_plan_def Let_def split: if_splits)

lemma record_run_plan_Inl: "record_run_plan rd known jlen T run p reason = (T', Inl e) \<Longrightarrow> T' = T"
  by (auto simp: record_run_plan_def Let_def split: if_splits)

lemma record_run_plan_rows:
  assumes "record_run_plan rd known jlen T run p reason = (T', Inr row)"
  shows "rows_of T' q = (if q = rd run then map (\<lambda>r. r\<lparr>pt_active := False\<rparr>) (rows_of T q) @ [row]
    else rows_of T q)"
  using record_run_plan_Inr [OF assms] rows_of_superseded [of "rd run" T q]
  by (auto simp: rows_of_def)

lemma record_run_plan_ok:
  assumes "plan_table_ok T" "record_run_plan rd known jlen T run p reason = (T', res)"
  shows "plan_table_ok T'"
proof (cases res)
  case (Inl e)
  then have "T' = T" using assms(2) record_run_plan_Inl by blast
  then show ?thesis using assms(1) by simp
next
  case (Inr row)
  have row: "row = \<lparr>pt_run_id = rd run, pt_revision = highest_revision T (rd run) + 1,
      pt_active = True, pt_plan = p\<lparr>rp_revision := int (highest_revision T (rd run) + 1)\<rparr>,
      pt_reason_code = reason\<rparr>"
    using record_run_plan_Inr assms(2) Inr by blast
  have "map pt_revision (rows_of T' q) = revisions_upto (length (rows_of T' q)) \<and>
        (\<forall>r\<in>set (rows_of T' q). pt_active r \<longleftrightarrow> pt_revision r = length (rows_of T' q)) \<and>
        (\<forall>r\<in>set (rows_of T' q). rp_revision (pt_plan r) = int (pt_revision r))" for q
  proof (cases "q = rd run")
    case False
    then show ?thesis
      using record_run_plan_rows [of rd known jlen T run p reason T' row q] assms Inr
      by (simp add: plan_table_ok_def)
  next
    case True
    let ?n = "length (rows_of T q)"
    have rows: "rows_of T' q = map (\<lambda>r. r\<lparr>pt_active := False\<rparr>) (rows_of T q) @ [row]"
      using record_run_plan_rows [of rd known jlen T run p reason T' row q] assms(2) Inr True by simp
    have rev: "pt_revision row = ?n + 1" "rp_revision (pt_plan row) = int (?n + 1)" "pt_active row"
      using row highest_revision_ok [OF assms(1)] True by simp_all
    have old: "map pt_revision (rows_of T q) = revisions_upto ?n"
      "\<forall>r\<in>set (rows_of T q). rp_revision (pt_plan r) = int (pt_revision r)"
      using assms(1) by (auto simp: plan_table_ok_def)
    have "pt_revision r \<le> ?n" if "r \<in> set (rows_of T q)" for r
      using arg_cong [OF old(1), of set] that by auto
    then show ?thesis
      unfolding rows using rev old by (fastforce simp: comp_def revisions_upto_Suc)
  qed
  then show ?thesis by (simp add: plan_table_ok_def)
qed

lemma find_append_last:
  "\<forall>x\<in>set xs. \<not> P x \<Longrightarrow> P y \<Longrightarrow> List.find P (xs @ [y]) = Some y"
  by (induction xs) auto

text \<open>In a table of that form a run with rows has its newest row active.\<close>

lemma read_active_newest:
  assumes "plan_table_ok T" "rows_of T (rd run) \<noteq> []"
  shows "read_active_row rd T run = Some (last (rows_of T (rd run)))"
proof -
  let ?rs = "rows_of T (rd run)"
  let ?n = "length ?rs"
  have find: "read_active_row rd T run = List.find pt_active ?rs"
    unfolding read_active_row_def rows_of_def by (induction T) auto
  have ok: "map pt_revision ?rs = revisions_upto ?n" "\<forall>r\<in>set ?rs. pt_active r \<longleftrightarrow> pt_revision r = ?n"
    using assms(1) by (auto simp: plan_table_ok_def)
  have rev: "pt_revision (?rs ! i) = i + 1" if "i < ?n" for i
    using arg_cong [OF ok(1), of "\<lambda>xs. xs ! i"] that by (simp del: upt_Suc)
  have "?rs = butlast ?rs @ [last ?rs]" using assms(2) by simp
  moreover have "\<not> pt_active r" if b: "r \<in> set (butlast ?rs)" for r
  proof -
    obtain i where i: "i < ?n - 1" "butlast ?rs ! i = r"
      using b by (auto simp: in_set_conv_nth)
    then have "r = ?rs ! i" by (simp add: nth_butlast)
    then have "pt_revision r = i + 1" "r \<in> set ?rs" using rev [of i] i by auto
    then show ?thesis using ok(2) i(1) by auto
  qed
  moreover have "pt_active (last ?rs)"
    using ok(2) rev [of "?n - 1"] assms(2) by (auto simp: last_conv_nth)
  ultimately show ?thesis
    unfolding find by (metis find_append_last)
qed

text \<open>A recorded plan reads back as itself, up to the purpose of its credential surface.\<close>

definition credential_purposed :: "run_plan \<Rightarrow> bool" where
  "credential_purposed p =
     (case rp_credential_surface p of None \<Rightarrow> True | Some c \<Rightarrow> su_purpose c = Credential)"

lemma check_each_ok: "list_all row_surface_ok ss \<Longrightarrow> check_each ss = Inr ()"
  by (induction ss) (auto simp: row_surface_ok_def returned_iff)

lemma make_surface_self: "row_surface_ok s \<Longrightarrow> make_surface (su_host s) (su_path s) (su_purpose s) = Inr s"
proof (cases s)
  case (fields h p u)
  assume "row_surface_ok s"
  then obtain t where t: "make_surface (su_host s) (su_path s) (su_purpose s) = Inr t"
    by (auto simp: row_surface_ok_def returned_iff)
  moreover have "t = s" using make_surface_Inr [OF t] fields by simp
  ultimately show ?thesis by simp
qed

lemma plan_from_row_ok:
  assumes "plan_columns_ok jlen p reason" "credential_purposed p" "1 \<le> rv"
    "pt_plan row = p\<lparr>rp_revision := rv\<rparr>"
  shows "plan_from_row row = Inr (p\<lparr>rp_revision := rv\<rparr>)"
proof -
  have c: "check_each (rp_surfaces p) = Inr ()" and l: "1 \<le> length (rp_surfaces p)"
    "length (rp_surfaces p) \<le> max_plan_surfaces"
    using assms(1) by (simp_all add: plan_columns_ok_def check_each_ok)
  have m: "make_run_plan (p\<lparr>rp_revision := rv\<rparr>) = Inr (p\<lparr>rp_revision := rv\<rparr>)"
    using l assms(3) by (simp add: make_run_plan_def)
  show ?thesis
  proof (cases "rp_credential_surface p")
    case None
    then have "p\<lparr>rp_revision := rv, rp_credential_surface := None\<rparr> = p\<lparr>rp_revision := rv\<rparr>" by (cases p) simp
    then have "make_run_plan (p\<lparr>rp_revision := rv, rp_credential_surface := None\<rparr>) =
        Inr (p\<lparr>rp_revision := rv\<rparr>)" using m by (simp only:)
    then show ?thesis using None c by (simp add: plan_from_row_def assms(4) Let_def)
  next
    case (Some s)
    then have "p\<lparr>rp_revision := rv, rp_credential_surface := Some s\<rparr> = p\<lparr>rp_revision := rv\<rparr>" by (cases p) simp
    moreover have "make_surface (su_host s) (su_path s) Credential = Inr s"
      using assms(1,2) Some make_surface_self [of s]
      by (simp add: plan_columns_ok_def credential_purposed_def)
    moreover have "make_run_plan (p\<lparr>rp_revision := rv, rp_credential_surface := Some s\<rparr>) =
        Inr (p\<lparr>rp_revision := rv\<rparr>)" using calculation(1) m by (simp only:)
    ultimately show ?thesis using Some c by (simp add: plan_from_row_def assms(4) Let_def)
  qed
qed

lemma record_active:
  assumes "plan_table_ok T" "record_run_plan rd known jlen T run p reason = (T', Inr row)"
  shows "read_active_row rd T' run = Some row \<and> count_run_plans rd T' run = count_run_plans rd T run + 1"
  using record_run_plan_rows [OF assms(2), of "rd run"]
    read_active_newest [OF record_run_plan_ok [OF assms], of rd run]
  by (simp add: count_run_plans_def)

lemma count_mono:
  "record_run_plan rd known jlen T run p reason = (T', res) \<Longrightarrow>
   count_run_plans rd T q \<le> count_run_plans rd T' q"
  using record_run_plan_Inl [of rd known jlen T run p reason T']
    record_run_plan_rows [of rd known jlen T run p reason T' _ "rd q"]
  by (cases res) (fastforce simp: count_run_plans_def)+

text \<open>Any sequence of recorded plans, for any runs.\<close>

definition record_all ::
    "(string \<Rightarrow> string) \<Rightarrow> (string \<Rightarrow> bool) \<Rightarrow> (planned_surface list \<Rightarrow> nat) \<Rightarrow>
     (string \<times> run_plan \<times> string) list \<Rightarrow> plan_table \<Rightarrow> plan_table" where
  "record_all rd known jlen calls T =
     fold (\<lambda>(run, p, reason) T. fst (record_run_plan rd known jlen T run p reason)) calls T"

lemma record_all_ok: "plan_table_ok T \<Longrightarrow> plan_table_ok (record_all rd known jlen calls T)"
  unfolding record_all_def
  by (induction calls arbitrary: T) (auto intro: record_run_plan_ok prod.collapse [symmetric])

lemma record_all_count:
  "count_run_plans rd T run \<le> count_run_plans rd (record_all rd known jlen calls T) run"
  unfolding record_all_def
  by (induction calls arbitrary: T) (auto intro: order_trans [OF count_mono [OF prod.collapse [symmetric]]])

lemma plan_admission_recorded:
  assumes "record_initial_plan rd known jlen T run p reason = (T', Inr q)" "plan_table_ok T"
  shows "read_active_plan rd T' run = Inr (Some q)"
proof (cases "count_run_plans rd T run = 0")
  case True
  then obtain row where r: "record_run_plan rd known jlen T run p reason = (T', Inr row)"
    "plan_from_row row = Inr q"
    using assms(1)
    by (auto simp: record_initial_plan_def record_plan_def result_simps split: if_splits prod.splits)
  then show ?thesis using record_active [OF assms(2) r(1)] by (simp add: read_active_plan_def)
next
  case False
  then show ?thesis
    using assms(1)
    by (auto simp: record_initial_plan_def read_active_plan_def split: if_splits option.splits)
qed

lemma decide_replan:
  "ac_action (decide_adherence sanitize dv n plan) = Replan \<Longrightarrow>
   \<exists>d. dv = Some d \<and> \<not> dv_unresolved d \<and> dv_observed_host d \<noteq> dv_expected_host d \<and> n \<le> 1 \<and>
     ac_divergence (decide_adherence sanitize dv n plan) = Some d \<and>
     ac_reason_code (decide_adherence sanitize dv n plan) = Some ''route_replanned''"
  by (auto simp: decide_adherence_def split: option.splits if_splits)

lemma observe_surface_Some:
  "observe_surface v6 sanitize p i url = Some d \<Longrightarrow>
   \<exists>s. surface_for_step p i = Some s \<and> dv_expected_host d = su_host s"
  by (auto simp: observe_surface_def split: option.splits prod.splits if_splits)

lemma monitor_observe_replans:
  assumes "monitor_observe v6 sanitize rd T run i url = Inr (out, rec)" "ac_action out = Replan"
  shows "count_run_plans rd T run \<le> 1 \<and>
    (\<exists>p s d. read_active_plan rd T run = Inr (Some p) \<and> surface_for_step p i = Some s \<and>
       ac_divergence out = Some d \<and> \<not> dv_unresolved d \<and> dv_observed_host d \<noteq> su_host s \<and>
       rec = Some (d, ''route_replanned''))"
proof -
  have "\<exists>p. read_active_plan rd T run = Inr (Some p) \<and>
      out = decide_adherence sanitize (observe_surface v6 sanitize p i url)
        (count_run_plans rd T run) (Some p) \<and>
      rec = (case (ac_divergence out, ac_reason_code out) of (Some d, Some c) \<Rightarrow> Some (d, c) | _ \<Rightarrow> None)"
  proof (cases "read_active_plan rd T run")
    case (Inl e)
    then show ?thesis using assms(1) by (simp add: monitor_observe_def)
  next
    case (Inr plan)
    then show ?thesis
      using assms by (cases plan) (auto simp: monitor_observe_def Let_def)
  qed
  then obtain p where p: "read_active_plan rd T run = Inr (Some p)"
    "out = decide_adherence sanitize (observe_surface v6 sanitize p i url)
       (count_run_plans rd T run) (Some p)"
    "rec = (case (ac_divergence out, ac_reason_code out) of (Some d, Some c) \<Rightarrow> Some (d, c) | _ \<Rightarrow> None)"
    by blast
  obtain d where d: "observe_surface v6 sanitize p i url = Some d" "\<not> dv_unresolved d"
    "dv_observed_host d \<noteq> dv_expected_host d" "count_run_plans rd T run \<le> 1"
    "ac_divergence out = Some d" "ac_reason_code out = Some ''route_replanned''"
    using decide_replan assms(2) p(2) by blast
  show ?thesis using observe_surface_Some [OF d(1)] d p(1,3) by auto
qed

section \<open>Properties\<close>

text \<open>C37. A validated plan is drivable and reviewed: every surface of a plan the validator
  accepts, the credential surface included, names one of the recipe's exact hosts and a
  path the recipe declares, and its address is admitted by the navigation allow-list the
  same recipe gives the run, whatever route, research or discovery setting goes with it;
  a credential surface is named exactly when the recipe's scope is not entry-only.\<close>

theorem validated_plan_navigable:
  "validate_plan v6 p r = Inr None \<Longrightarrow>
   s \<in> set (rp_surfaces p) \<or> rp_credential_surface p = Some s \<Longrightarrow>
   build_browser_allowed_hosts v6 lookup slug urls route (Some (app_recipe.truncate r)) discovery =
     Inr a \<Longrightarrow>
   (\<exists>b. rc_browser r = Some b \<and> su_host s \<in> set (br_exact_hosts b)) \<and>
   (admits (declared_paths v6 r) (su_path s) \<or>
    list_ex (\<lambda>f. contains_text f (su_path s)) (sp_url_path_contains (pl_success r))) \<and>
   (\<exists>d. evaluate_navigation v6 (https_url (su_host s) (su_path s)) a = Inr d \<and> hd_allowed d) \<and>
   (rp_credential_surface p = None \<longleftrightarrow> pl_scope r = ''entry_only'')"
proof -
  assume v: "validate_plan v6 p r = Inr None"
    and s: "s \<in> set (rp_surfaces p) \<or> rp_credential_surface p = Some s"
    and a: "build_browser_allowed_hosts v6 lookup slug urls route (Some (app_recipe.truncate r))
      discovery = Inr a"
  from validate_plan_None [OF v] obtain b where
    b: "rc_browser r = Some b" "rc_route_kind r = ''playwright''"
    "\<forall>s\<in>set (rp_surfaces p). \<exists>m.
        check_surface v6 r (planner_allow_list r b) (declared_paths v6 r) s m = Inr None"
    "rp_credential_surface p = None \<longleftrightarrow> pl_scope r = ''entry_only''"
    "\<forall>c. rp_credential_surface p = Some c \<longrightarrow>
        check_surface v6 r (planner_allow_list r b)
          \<lparr>dp_exact = [], dp_prefixes = [], dp_contains = sp_url_path_contains (pl_success r)\<rparr> c 0 =
        Inr None"
    by metis
  obtain paths m where c: "check_surface v6 r (planner_allow_list r b) paths s m = Inr None"
    "paths = declared_paths v6 r \<or>
     paths = \<lparr>dp_exact = [], dp_prefixes = [], dp_contains = sp_url_path_contains (pl_success r)\<rparr>"
    using s b(3,5) by blast
  obtain d where d: "evaluate_navigation v6 (https_url (su_host s) (su_path s)) (planner_allow_list r b) = Inr d"
    "hd_allowed d" "su_host s \<in> set (br_exact_hosts b)" "admits paths (su_path s)"
    using check_surface_None [OF c(1)] b(1) by auto
  have "set (patterns a) = set (br_exact_hosts b) \<union> set (br_identity_provider_hosts b) \<union>
      set (br_post_auth_hosts b)"
    using build_from_recipe [OF a] b(1,2) by (simp add: app_recipe.truncate_def browser_route_kinds_def)
  then have "\<exists>d'. evaluate_navigation v6 (https_url (su_host s) (su_path s)) a = Inr d' \<and> hd_allowed d'"
    by (intro evaluate_navigation_mono [OF d(1,2)]) (auto simp: planner_allow_list_def patterns_def)
  then show ?thesis using b(1,4) c(2) d(3,4) by (auto simp: admits_def)
qed

text \<open>The plan table's revisions: whatever plans are recorded for whatever runs, in any
  order, a run's rows carry the revisions 1, 2, 3, ... in order, exactly the newest of
  them is active, and each row's plan carries its row's revision.\<close>

theorem plan_revisions_invariant:
  "T = record_all rd known jlen calls [] \<Longrightarrow>
   map pt_revision (rows_of T run) = [1..<length (rows_of T run) + 1] \<and>
   (\<forall>r\<in>set (rows_of T run). (pt_active r \<longleftrightarrow> pt_revision r = length (rows_of T run)) \<and>
      rp_revision (pt_plan r) = int (pt_revision r))"
  using record_all_ok [of "[]" rd known jlen calls]
  by (auto simp: plan_table_ok_def revisions_upto_def rows_of_def)

text \<open>Concurrent admissions converge: once an initial plan was recorded for a run, any
  other initial plan recorded for it changes nothing and answers with the first, which
  is the run's active plan.\<close>

theorem initial_plan_converges:
  "plan_table_ok T \<Longrightarrow>
   record_initial_plan rd known jlen T run p reason = (T1, Inr q) \<Longrightarrow> rp_revision p' = 1 \<Longrightarrow>
   record_initial_plan rd known jlen T1 run p' reason' = (T1, Inr q) \<and>
   read_active_plan rd T1 run = Inr (Some q)"
proof -
  assume ok: "plan_table_ok T" and r: "record_initial_plan rd known jlen T run p reason = (T1, Inr q)"
    and one: "rp_revision p' = 1"
  have q: "read_active_plan rd T1 run = Inr (Some q)" by (rule plan_admission_recorded [OF r ok])
  then obtain row where row: "read_active_row rd T1 run = Some row" "plan_from_row row = Inr q"
    by (auto simp: read_active_plan_def result_simps split: option.splits)
  have "row \<in> set T1 \<and> pt_run_id row = rd run"
    using row(1) find_Some_in unfolding read_active_row_def by fast
  then have "count_run_plans rd T1 run \<noteq> 0"
    by (auto simp: count_run_plans_def rows_of_def filter_empty_conv)
  then show ?thesis using q row one by (simp add: record_initial_plan_def)
qed

text \<open>One re-plan at most: adherence re-plans only away from the planned host, on an
  observation it could read, and only for a run with a single recorded plan; once a
  second plan was recorded no observation of that run ever re-plans again, whatever
  else is recorded, for this run or another.\<close>

theorem replan_at_most_once:
  "monitor_observe v6 sanitize rd T run i url = Inr (out, rec) \<Longrightarrow>
   (ac_action out = Replan \<longrightarrow>
      count_run_plans rd T run \<le> 1 \<and>
      (\<exists>p s d. read_active_plan rd T run = Inr (Some p) \<and> surface_for_step p i = Some s \<and>
         ac_divergence out = Some d \<and> \<not> dv_unresolved d \<and> dv_observed_host d \<noteq> su_host s \<and>
         rec = Some (d, ''route_replanned''))) \<and>
   (\<forall>calls i' url' out' rec'. 2 \<le> count_run_plans rd T run \<longrightarrow>
      monitor_observe v6 sanitize rd (record_all rd known jlen calls T) run i' url' = Inr (out', rec') \<longrightarrow>
      ac_action out' \<noteq> Replan)"
proof -
  assume m: "monitor_observe v6 sanitize rd T run i url = Inr (out, rec)"
  have "ac_action out' \<noteq> Replan"
    if "2 \<le> count_run_plans rd T run"
      "monitor_observe v6 sanitize rd (record_all rd known jlen calls T) run i' url' = Inr (out', rec')"
    for calls i' url' out' rec'
    using monitor_observe_replans [OF that(2)] record_all_count [of rd T run known jlen calls] that(1)
    by auto
  then show ?thesis using monitor_observe_replans [OF m] by blast
qed

text \<open>Admission's planning is fail-closed: when a plan store and a planner are wired and
  the planning step lets the run through, a catalog recipe was selected and the run has
  an active plan the validator accepts against that recipe.\<close>

theorem plan_admission_validated:
  "plan_table_ok T \<Longrightarrow>
   plan_admission v6 rd known jlen True (Some plan_for) T run recipe = (T', Inr None) \<Longrightarrow>
   \<exists>r q. recipe = Some r \<and> read_active_plan rd T' run = Inr (Some q) \<and> validate_plan v6 q r = Inr None"
  by (auto simp: plan_admission_def dest: plan_admission_recorded
      split: option.splits sum.splits prod.splits)

section \<open>Witnesses\<close>

definition acme_catalog :: plan_recipe where
  "acme_catalog = \<lparr>rc_app_slug = ''acme'', rc_app_name = ''Acme'', rc_route_kind = ''playwright'',
     rc_browser = Some \<lparr>br_exact_hosts = [''app.acme.io''], br_identity_provider_hosts = [],
       br_post_auth_hosts = [], br_entry_submit_implies_legal_acceptance = None\<rparr>,
     pl_login_url = None, pl_signup_url = None, pl_developer_portal_url = None,
     pl_credential_management_url = None, pl_steps = [(Some ''https://app.acme.io/keys'', [])],
     pl_success = \<lparr>sp_url_path_contains = [], sp_title_contains = [],
       sp_visible_text_contains = [], sp_required_accessible_names = []\<rparr>,
     pl_scope = ''entry_only'', pl_entry_path_prefixes = None\<rparr>"

definition acme_surface :: planned_surface where
  "acme_surface = \<lparr>su_host = ''app.acme.io'', su_path = ''/keys'', su_purpose = Entry\<rparr>"

definition acme_plan :: run_plan where
  "acme_plan = \<lparr>rp_app_slug = ''acme'', rp_catalog_id = ''acme'', rp_recipe_version = ''1'',
     rp_revision = 1, rp_source = From_Recipe, rp_surfaces = [acme_surface],
     rp_credential_surface = None, rp_success_digest = replicate 64 CHR ''a''\<rparr>"

definition acme_row :: "nat \<Rightarrow> bool \<Rightarrow> plan_row" where
  "acme_row n active = \<lparr>pt_run_id = ''r1'', pt_revision = n, pt_active = active,
     pt_plan = acme_plan\<lparr>rp_revision := int n\<rparr>, pt_reason_code = ''host_in_app_policy''\<rparr>"

lemma acme_validated: "validate_plan (\<lambda>_. True) acme_plan acme_catalog = Inr None"
  by code_simp

lemma acme_surfaces: "rp_surfaces acme_plan = [acme_surface]" "rp_credential_surface acme_plan = None"
  by (simp_all add: acme_plan_def)

lemma acme_allow_list:
  "build_browser_allowed_hosts (\<lambda>_. True) (\<lambda>_. None) ''acme'' acme_research None
     (Some (app_recipe.truncate acme_catalog)) False =
   Inr \<lparr>ah_app_slug = ''acme'', ah_exact_hosts = [''app.acme.io''], ah_vendor_wildcard_domains = []\<rparr>"
  by code_simp

lemma validated_plan_navigable_witness:
  "\<exists>d. evaluate_navigation (\<lambda>_. True) (https_url ''app.acme.io'' ''/keys'')
     \<lparr>ah_app_slug = ''acme'', ah_exact_hosts = [''app.acme.io''], ah_vendor_wildcard_domains = []\<rparr> = Inr d \<and>
     hd_allowed d"
  using validated_plan_navigable [OF acme_validated _ acme_allow_list, of acme_surface]
  by (auto simp: acme_surfaces acme_surface_def)

end
