(* ===== verification/Driver_Steps.thy ===== *)
theory Driver_Steps
  imports Phase_Store
begin

text \<open>
  What the phase driver of \<^theory_text>\<open>ops/onboarding/driver.py\<close> decides about one phase: the
  steps a handler or the action loop hands back (\<^theory_text>\<open>PhaseStep\<close>), the transition a loop
  outcome asks for, where a worker resumes (\<^theory_text>\<open>resumption_phase\<close>), the captcha pause
  with its budget and its resume, and the autonomy verdict with its durable outcome.

  \<^theory_text>\<open>sha\<close> is \<^theory_text>\<open>sha256(...).hexdigest()\<close>. Instants are integers, in microseconds; the text
  of an instant is the instant.
\<close>

section \<open>Steps\<close>

datatype step_kind = Advance | Yield | Pause_Step

record phase_step =
  st_kind :: step_kind
  st_reason :: string
  st_next :: "phase option"
  st_not_before :: "int option"
  st_digest :: "string option"

definition make_step :: "phase_step \<Rightarrow> phase_step result" where
  "make_step s =
     (if st_reason s \<notin> set onboarding_reason_codes
      then Inl (ValueError ''a phase step carries an onboarding reason code'')
      else (case st_kind s of
          Advance \<Rightarrow>
            if st_next s = None
            then Inl (ValueError ''an advancing step names the phase it advances into'')
            else if st_not_before s \<noteq> None
            then Inl (ValueError ''an advancing step does not carry a deferral time'')
            else Inr s
        | Yield \<Rightarrow>
            if st_not_before s = None
            then Inl (ValueError ''a yielding step names the time it becomes ready again'')
            else if st_next s \<noteq> None
            then Inl (ValueError ''a yielding step commits no transition'')
            else Inr s
        | Pause_Step \<Rightarrow>
            if st_next s \<noteq> None \<or> st_not_before s \<noteq> None
            then Inl (ValueError ''a pausing step names neither a target phase nor a deferral time'')
            else Inr s))"

definition advance_to :: "phase \<Rightarrow> string \<Rightarrow> string option \<Rightarrow> phase_step result" where
  "advance_to p reason digest = make_step \<lparr>st_kind = Advance, st_reason = reason,
     st_next = Some p, st_not_before = None, st_digest = digest\<rparr>"

definition defer_until :: "int \<Rightarrow> string \<Rightarrow> phase_step result" where
  "defer_until nb reason = make_step \<lparr>st_kind = Yield, st_reason = reason, st_next = None,
     st_not_before = Some nb, st_digest = None\<rparr>"

definition pause_on :: "string \<Rightarrow> phase_step result" where
  "pause_on reason = make_step \<lparr>st_kind = Pause_Step, st_reason = reason, st_next = None,
     st_not_before = None, st_digest = None\<rparr>"

fun phase_successors :: "phase \<Rightarrow> phase option" where
  "phase_successors route_selected_login = Some authenticated"
| "phase_successors signup = Some email_verification"
| "phase_successors email_verification = Some authenticated"
| "phase_successors authenticated = Some developer_app"
| "phase_successors developer_app = Some credential_generation"
| "phase_successors credential_generation = Some vault_storage"
| "phase_successors _ = None"

definition waiting_phases :: "phase set" where
  "waiting_phases = {paused, captcha_paused}"

fun effect_bearing_phases :: "phase \<Rightarrow> onboarding_effect option" where
  "effect_bearing_phases signup = Some signup_submit"
| "effect_bearing_phases developer_app = Some create_dev_app"
| "effect_bearing_phases credential_generation = Some generate_credential"
| "effect_bearing_phases _ = None"

datatype loop_outcome = Loop_Done | Loop_Gate | Loop_Exhausted | Loop_Denied_Fatal

record loop_result =
  lr_outcome :: loop_outcome
  lr_reason :: string
  lr_human_action :: "string option"
  lr_model_calls :: nat
  lr_actions_executed :: nat
  lr_navigation_denials :: nat

text \<open>\<^theory_text>\<open>_DECISION_PAUSE_REASONS\<close> with the default of its reader.\<close>

definition decision_pause_reasons :: "string \<Rightarrow> string" where
  "decision_pause_reasons code =
     (if code \<in> {''invalid_json'', ''schema_invalid''} then ''decision_unusable''
      else ''decision_provider_failed'')"

definition step_for_decision_failure :: "string \<Rightarrow> phase_step result" where
  "step_for_decision_failure code = pause_on (decision_pause_reasons code)"

definition step_for_loop_result :: "phase \<Rightarrow> loop_result \<Rightarrow> phase_step result" where
  "step_for_loop_result p r =
     (if lr_outcome r = Loop_Done then
        (case phase_successors p of
           None \<Rightarrow> Inl (PhaseNotDrivable ''no successor is declared for a completed loop phase'')
         | Some q \<Rightarrow> advance_to q (lr_reason r) None)
      else if lr_outcome r = Loop_Gate \<and> lr_human_action r = Some ''captcha''
      then advance_to captcha_paused (lr_reason r) None
      else pause_on (lr_reason r))"

section \<open>Where the walk stands\<close>

definition is_duplicate_account_reroute :: "phase_boundary option \<Rightarrow> bool" where
  "is_duplicate_account_reroute b =
     (case b of None \<Rightarrow> False
      | Some b \<Rightarrow> pb_from b = Some signup \<and> pb_to b = route_selected_login \<and>
          pb_reason b = ''signup_rejected_duplicate_account'')"

definition resumption_phase :: "phase_boundary list \<Rightarrow> phase \<times> int" where
  "resumption_phase h =
     (if h = [] then (initial_phase, 0)
      else if pb_to (last h) \<in> terminal_phases \<or> pb_to (last h) \<in> resumable_phases
      then (pb_to (last h), pb_attempt (last h))
      else (case List.find (\<lambda>b. pb_to b \<in> resumable_phases) (rev (butlast h)) of
              Some b \<Rightarrow> (pb_to b, pb_attempt b)
            | None \<Rightarrow> (initial_phase, 0)))"

definition has_entered_a_session :: "phase_boundary list \<Rightarrow> bool" where
  "has_entered_a_session h = list_ex (\<lambda>b. pb_to b \<in> session_bearing_phases) h"

fun phase_text :: "phase \<Rightarrow> string" where
  "phase_text research = ''research''"
| "phase_text vault_check = ''vault_check''"
| "phase_text awaiting_admission = ''awaiting_admission''"
| "phase_text route_selected_login = ''route_selected_login''"
| "phase_text route_selected_signup = ''route_selected_signup''"
| "phase_text signup = ''signup''"
| "phase_text email_verification = ''email_verification''"
| "phase_text authenticated = ''authenticated''"
| "phase_text developer_app = ''developer_app''"
| "phase_text credential_generation = ''credential_generation''"
| "phase_text vault_storage = ''vault_storage''"
| "phase_text credential_validation = ''credential_validation''"
| "phase_text captcha_paused = ''captcha_paused''"
| "phase_text paused = ''paused''"
| "phase_text completed = ''completed''"
| "phase_text blocked = ''blocked''"
| "phase_text cancelled = ''cancelled''"

definition phase_correlation_id ::
    "(string \<Rightarrow> string) \<Rightarrow> string \<Rightarrow> phase \<Rightarrow> int \<Rightarrow> string result" where
  "phase_correlation_id sha run p n =
     bindR (attempt_check n) (\<lambda>n.
       Inr (take 32 (sha (run @ ''|'' @ phase_text p @ ''|'' @ nat_digits (nat n)))))"

section \<open>The captcha pause\<close>

definition midflight_operator_prompts :: "string set" where
  "midflight_operator_prompts = {''captcha''}"

definition max_captcha_pauses :: nat where
  "max_captcha_pauses = 3"

definition captcha_interruptible_phases :: "phase set" where
  "captcha_interruptible_phases = session_bearing_phases - {captcha_paused}"

text \<open>\<^theory_text>\<open>budget\<close> is \<^theory_text>\<open>CaptchaBudget.max_pauses\<close>, whose constructor refuses a negative one.\<close>

definition captcha_budget :: "int \<Rightarrow> nat result" where
  "captcha_budget n =
     (if n < 0 then Inl (ValueError ''a captcha pause budget cannot be negative'')
      else Inr (nat n))"

definition midflight_prompt_count :: "string option \<Rightarrow> nat" where
  "midflight_prompt_count action = (if action \<in> Some ` midflight_operator_prompts then 1 else 0)"

definition pause_for_captcha ::
    "phase_db \<Rightarrow> string \<Rightarrow> phase \<Rightarrow> string \<Rightarrow> nat \<Rightarrow> phase_db \<times> phase_step result" where
  "pause_for_captcha D run p session_id budget =
     (if p \<notin> captcha_interruptible_phases
      then (D, Inl (ValueError ''a captcha pause is taken from a session-bearing phase''))
      else (case store_identifier 200 ''browser session id is invalid'' session_id of
          Inl e \<Rightarrow> (D, Inl e)
        | Inr _ \<Rightarrow>
          (case captcha_pause D run of
             Inl e \<Rightarrow> (D, Inl e)
           | Inr taken \<Rightarrow>
               if budget \<le> cp_prompts taken
               then (D, pause_on ''captcha_attempt_budget_exhausted'')
               else (case record_captcha_pause D run p of
                   (D', Inl e) \<Rightarrow> (D', Inl e)
                 | (D', Inr _) \<Rightarrow> (D', advance_to captcha_paused ''captcha_detected'' None)))))"

text \<open>\<^theory_text>\<open>pauses\<close>: a pause store is wired.\<close>

definition step_for_loop_outcome ::
    "bool \<Rightarrow> nat \<Rightarrow> phase_db \<Rightarrow> string \<Rightarrow> phase \<Rightarrow> string \<Rightarrow> loop_result \<Rightarrow>
     phase_db \<times> phase_step result" where
  "step_for_loop_outcome pauses budget D run p session_id r =
     (if lr_outcome r = Loop_Gate \<and> lr_human_action r \<in> Some ` midflight_operator_prompts \<and> pauses
      then pause_for_captcha D run p session_id budget
      else (D, step_for_loop_result p r))"

datatype captcha_resume_signal = Signal_Completed | Signal_Cancelled

definition commit_captcha_resume ::
    "(string \<Rightarrow> string) \<Rightarrow> (string \<Rightarrow> bool) \<Rightarrow> phase_db \<Rightarrow> string \<Rightarrow> phase \<Rightarrow> string \<Rightarrow> string \<Rightarrow> int \<Rightarrow>
     phase_db \<times> phase_step result" where
  "commit_captcha_resume sha known D run target reason digest attempt =
     (case phase_correlation_id sha run captcha_paused attempt of
        Inl e \<Rightarrow> (D, Inl e)
      | Inr corr \<Rightarrow>
        (case commit_phase known D run \<lparr>pc_from = Some captcha_paused, pc_to = target,
                pc_reason = reason, pc_digest = digest, pc_attempt = attempt,
                pc_correlation = corr\<rparr> of
           (D', Inl e) \<Rightarrow> (D', Inl e)
         | (D', Inr _) \<Rightarrow> (D', advance_to target reason None)))"

text \<open>\<^theory_text>\<open>released\<close> is what the release of the reattached session answers, \<^theory_text>\<open>None\<close> where no
  session is held; the last component tells whether the session was asked to release.\<close>

definition resume_from_captcha ::
    "(string \<Rightarrow> string) \<Rightarrow> (string \<Rightarrow> bool) \<Rightarrow> phase_db \<Rightarrow> string \<Rightarrow> captcha_resume_signal \<Rightarrow>
     unit result option \<Rightarrow> phase_db \<times> phase_step result \<times> bool" where
  "resume_from_captcha sha known D run signal released =
     (case history D run of
        Inl e \<Rightarrow> (D, Inl e, False)
      | Inr h \<Rightarrow>
        if h = [] \<or> pb_to (last h) \<noteq> captcha_paused
        then (D, Inl (PhaseNotDrivable ''the run's last committed phase is not a captcha pause''), False)
        else
          let paused_at = last h
          in (case signal of
              Signal_Cancelled \<Rightarrow>
                (case commit_captcha_resume sha known D run cancelled ''operator_cancelled''
                        (pb_digest paused_at) (pb_attempt paused_at) of
                   (D', Inl e) \<Rightarrow> (D', Inl e, False)
                 | (D', Inr step) \<Rightarrow>
                     (case released of
                        None \<Rightarrow> (D', Inr step, False)
                      | Some (Inl e) \<Rightarrow> (D', Inl e, True)
                      | Some (Inr _) \<Rightarrow> (D', Inr step, True)))
            | Signal_Completed \<Rightarrow>
                (case captcha_pause D run of
                   Inl e \<Rightarrow> (D, Inl e, False)
                 | Inr row \<Rightarrow>
                     (case cp_phase_at_pause row of
                        None \<Rightarrow>
                          (D, Inl (PhaseNotDrivable ''the captcha pause recorded no phase to resume into''),
                           False)
                      | Some target \<Rightarrow>
                          (case commit_captcha_resume sha known D run target ''captcha_resolved''
                                  (pb_digest paused_at) (pb_attempt paused_at + 1) of
                             (D', v) \<Rightarrow> (D', v, False))))))"

section \<open>Verdict and outcome\<close>

datatype verdict = Fully_Autonomous | Operator_Assisted | Verdict_Blocked | Verdict_Cancelled

definition autonomy_verdict :: "phase \<Rightarrow> nat \<Rightarrow> verdict" where
  "autonomy_verdict p captcha_prompts =
     (if p = cancelled then Verdict_Cancelled
      else if p = blocked then Verdict_Blocked
      else if p = completed
      then (if captcha_prompts = 0 then Fully_Autonomous else Operator_Assisted)
      else Operator_Assisted)"

record autonomy_outcome =
  ao_run_id :: string
  ao_profile_digest :: string
  ao_verdict :: verdict
  ao_terminal_phase :: phase
  ao_reason :: string
  ao_started_at :: int
  ao_ended_at :: int
  ao_duration_seconds :: int
  ao_admission_prompts :: int
  ao_captcha_prompts :: int
  ao_other_operator_prompts :: int
  ao_model_calls :: int
  ao_actions_executed :: int
  ao_navigation_denials :: int
  ao_phases_replayed :: int
  ao_effects_skipped :: int
  ao_outcome_unknown :: int
  ao_verification_attempts :: int
  ao_validation_attempts :: int

definition make_outcome :: "autonomy_outcome \<Rightarrow> autonomy_outcome result" where
  "make_outcome o1 =
     bindR (run_identifier (ao_run_id o1)) (\<lambda>_.
     bindR (if ao_profile_digest o1 = [] then Inr [] else profile_digest_check (ao_profile_digest o1)) (\<lambda>_.
     bindR (reason_code_check (ao_reason o1)) (\<lambda>_.
       if ao_other_operator_prompts o1 \<noteq> 0
       then Inl (ValueError ''an onboarding run emits no operator prompt beyond admission and captcha'')
       else if ao_admission_prompts o1 \<notin> {0, 1}
       then Inl (ValueError ''the admission prompt is emitted at most once per run'')
       else if list_ex (\<lambda>n. n < 0) [ao_duration_seconds o1, ao_captcha_prompts o1, ao_model_calls o1,
            ao_actions_executed o1, ao_navigation_denials o1, ao_phases_replayed o1,
            ao_effects_skipped o1, ao_outcome_unknown o1, ao_verification_attempts o1,
            ao_validation_attempts o1]
       then Inl (ValueError ''autonomy outcome counters cannot be negative'')
       else Inr o1)))"

definition is_fully_autonomous :: "autonomy_outcome \<Rightarrow> bool" where
  "is_fully_autonomous o1 = (ao_captcha_prompts o1 = 0 \<and> ao_other_operator_prompts o1 = 0)"

type_synonym outcome_table = "string \<rightharpoonup> autonomy_outcome"

text \<open>The durable row: what \<^theory_text>\<open>_autonomy_outcome_row\<close> refuses, and the insert that keeps the
  first one.\<close>

definition outcome_counts :: "autonomy_outcome \<Rightarrow> int list" where
  "outcome_counts o1 =
     [ao_duration_seconds o1, ao_admission_prompts o1, ao_captcha_prompts o1,
      ao_other_operator_prompts o1, ao_model_calls o1, ao_actions_executed o1,
      ao_navigation_denials o1, ao_phases_replayed o1, ao_effects_skipped o1,
      ao_outcome_unknown o1, ao_verification_attempts o1, ao_validation_attempts o1]"

definition hex_digest64 :: "string \<Rightarrow> bool" where
  "hex_digest64 d = (length d = 64 \<and> list_all (\<lambda>c. is_digit c \<or> c \<in> set ''abcdef'') d)"

definition audit_identifier :: "(string \<Rightarrow> string) \<Rightarrow> string \<Rightarrow> string result" where
  "audit_identifier rd v =
     (let t = strip v
      in if t = [] \<or> 200 < length t
         then Inl (ValueError ''an onboarding audit identifier must be a bounded, non-empty identifier'')
         else if rd t \<noteq> t
         then Inl (ValueError ''an onboarding audit identifier cannot carry secret-shaped material'')
         else Inr t)"

definition outcome_row :: "(string \<Rightarrow> string) \<Rightarrow> autonomy_outcome \<Rightarrow> autonomy_outcome result" where
  "outcome_row rd o1 =
     (if ao_profile_digest o1 \<noteq> [] \<and> \<not> hex_digest64 (ao_profile_digest o1)
      then Inl (ValueError ''an autonomy outcome profile digest must be a sha256 hex digest or empty'')
      else if list_ex (\<lambda>n. n < 0) (outcome_counts o1)
      then Inl (ValueError ''an autonomy outcome count must be a non-negative count'')
      else if 1 < ao_admission_prompts o1
      then Inl (ValueError ''the admission prompt is emitted at most once per run'')
      else if ao_other_operator_prompts o1 \<noteq> 0
      then Inl (ValueError ''an onboarding run emits no operator prompt beyond admission and captcha'')
      else if ao_verdict o1 = Fully_Autonomous \<and> ao_captcha_prompts o1 \<noteq> 0
      then Inl (ValueError ''a fully autonomous run emitted no captcha prompt'')
      else bindR (audit_identifier rd (ao_run_id o1)) (\<lambda>run.
           bindR (reason_code_check (ao_reason o1)) (\<lambda>_. Inr (o1\<lparr>ao_run_id := run\<rparr>))))"

definition record_autonomy_outcome ::
    "(string \<Rightarrow> string) \<Rightarrow> (string \<Rightarrow> bool) \<Rightarrow> outcome_table \<Rightarrow> autonomy_outcome \<Rightarrow>
     outcome_table \<times> bool result" where
  "record_autonomy_outcome rd known T o1 =
     (case outcome_row rd o1 of
        Inl e \<Rightarrow> (T, Inl e)
      | Inr row \<Rightarrow>
          if T (ao_run_id row) \<noteq> None then (T, Inr False)
          else if \<not> known (ao_run_id row)
          then (T, Inl (IntegrityError ''FOREIGN KEY constraint failed''))
          else (T(ao_run_id row \<mapsto> row), Inr True))"

definition read_autonomy_outcome ::
    "(string \<Rightarrow> string) \<Rightarrow> outcome_table \<Rightarrow> string \<Rightarrow> autonomy_outcome option result" where
  "read_autonomy_outcome rd T run =
     bindR (run_identifier run) (\<lambda>run.
       (case T (rd run) of
          None \<Rightarrow> Inr None
        | Some row \<Rightarrow> bindR (make_outcome row) (\<lambda>o1. Inr (Some o1))))"

section \<open>Lemmas\<close>

named_theorems step_simps

lemmas [step_simps] = advance_to_def defer_until_def pause_on_def make_step_def

lemma make_step_Inr:
  "make_step s = Inr t \<longleftrightarrow>
   t = s \<and> st_reason s \<in> set onboarding_reason_codes \<and>
   (case st_kind s of
      Advance \<Rightarrow> st_next s \<noteq> None \<and> st_not_before s = None
    | Yield \<Rightarrow> st_not_before s \<noteq> None \<and> st_next s = None
    | Pause_Step \<Rightarrow> st_next s = None \<and> st_not_before s = None)"
  by (auto simp: make_step_def split: step_kind.splits if_splits)

lemma printable_not_space: "printable_nonspace c \<Longrightarrow> \<not> is_space c"
  by (auto simp: printable_nonspace_def is_space_def Let_def)

lemma strip_identifier: "identifier_ok n s \<Longrightarrow> strip s = s"
  by (intro strip_idem_of_ends) (auto simp: identifier_ok_def list_all_iff printable_not_space)

lemma history_eq:
  assumes "db_ok D" "run_identifier run = Inr r"
  shows "history D run = Inr (db_history D run)"
proof -
  have "run_ok (db_history D run) (db_states D run)" using assms(1) by (simp add: db_ok_def)
  then have "sort_key pb_sequence (db_history D run) = db_history D run"
    unfolding run_ok_def by (intro sort_key_upt) blast
  then show ?thesis using assms(2) by (simp add: history_def)
qed

lemma history_Inr: "history D run = Inr h \<Longrightarrow> db_ok D \<Longrightarrow> h = db_history D run"
proof -
  assume h: "history D run = Inr h" and ok: "db_ok D"
  obtain r where "run_identifier run = Inr r" using h by (auto simp: history_def result_simps)
  then show ?thesis using history_eq [OF ok] h by simp
qed

lemma commit_phase_cases:
  assumes "commit_phase known D run c = (D', v)"
  obtains (refused) e where "v = Inl e" "D' = D"
  | (replay) "v = Inr False" "D' = D" "violates_unique D run c" "commit_ok c"
  | (commit) "v = Inr True" "\<not> violates_unique D run c" "known run" "commit_ok c"
      "D' = D\<lparr>db_history := (db_history D)
              (run := db_history D run @ [boundary_of (next_sequence D run) c]),
           db_states := (db_states D)(run \<mapsto> upsert_state (db_states D run) c)\<rparr>"
proof (cases "commit_check run c")
  case (Inl e)
  then have "v = Inl e" "D' = D" using assms by (auto simp: commit_phase_def)
  then show ?thesis by (rule refused)
next
  case (Inr u)
  have b: "commit_boundary known D run c = (D', v)" using assms Inr by (simp add: commit_phase_def)
  show ?thesis
    by (cases rule: commit_boundary_cases [OF b])
       (use refused replay commit commit_check_ok [OF Inr] in blast)+
qed

text \<open>A boundary the history already holds answers False, any other one that passes the
  checks is appended.\<close>

lemma commit_phase_fresh:
  assumes "db_ok D" "commit_check run c = Inr u" "known run"
    "(pc_from c, pc_to c, pc_attempt c, pc_correlation c) \<notin> boundary_key ` set (db_history D run)"
  shows "commit_phase known D run c =
    (D\<lparr>db_history := (db_history D)
          (run := db_history D run @ [boundary_of (next_sequence D run) c]),
       db_states := (db_states D)(run \<mapsto> upsert_state (db_states D run) c)\<rparr>, Inr True)"
  using assms violates_unique_iff [of D run "db_states D run" c]
  by (simp add: commit_phase_def commit_boundary_def db_ok_def)

lemma every_phase_resumable: "p \<in> terminal_phases \<or> p \<in> resumable_phases"
  by (cases p) (auto simp: phase_sets)

lemma resumption_phase_last:
  "resumption_phase h = (if h = [] then (initial_phase, 0) else (pb_to (last h), pb_attempt (last h)))"
  using every_phase_resumable by (simp add: resumption_phase_def)

lemma pause_for_captcha_Inr:
  "pause_for_captcha D run p sid budget = (D', Inr step) \<Longrightarrow>
   p \<in> captcha_interruptible_phases \<and>
   (\<exists>s. db_states D run = Some s \<and>
      (if rs_captcha_prompts s < budget
       then st_next step = Some captcha_paused \<and> st_kind step = Advance \<and>
         D' = D\<lparr>db_states := (db_states D)(run \<mapsto> s\<lparr>rs_phase_at_pause := Some p,
                  rs_captcha_prompts := rs_captcha_prompts s + 1\<rparr>)\<rparr>
       else st_kind step = Pause_Step \<and> st_next step = None \<and> D' = D))"
  by (auto simp: pause_for_captcha_def captcha_pause_def record_captcha_pause_def result_simps
      step_simps Let_def split: if_splits sum.splits option.splits prod.splits)

lemma pause_for_captcha_Inl: "pause_for_captcha D run p sid budget = (D', Inl e) \<Longrightarrow> D' = D"
  by (auto simp: pause_for_captcha_def captcha_pause_def record_captcha_pause_def result_simps
      step_simps Let_def onboarding_reason_codes_def split: if_splits sum.splits option.splits prod.splits)

text \<open>The captcha account of a run: its prompts, under any calls of the pause, the resume
  and the driver's commits.\<close>

datatype captcha_call =
    Captcha_Pause phase string
  | Captcha_Resume captcha_resume_signal "unit result option"
  | Captcha_Commit phase_commit

definition prompts_of :: "phase_db \<Rightarrow> string \<Rightarrow> nat" where
  "prompts_of D run = (case db_states D run of None \<Rightarrow> 0 | Some s \<Rightarrow> rs_captcha_prompts s)"

fun captcha_step ::
    "(string \<Rightarrow> string) \<Rightarrow> (string \<Rightarrow> bool) \<Rightarrow> nat \<Rightarrow> string \<Rightarrow> captcha_call \<Rightarrow> phase_db \<Rightarrow>
     phase_db \<times> phase_step result option" where
  "captcha_step sha known budget run (Captcha_Pause p sid) D =
     (case pause_for_captcha D run p sid budget of (D', v) \<Rightarrow> (D', Some v))"
| "captcha_step sha known budget run (Captcha_Resume sig rel) D =
     (fst (resume_from_captcha sha known D run sig rel), None)"
| "captcha_step sha known budget run (Captcha_Commit c) D = (fst (commit_phase known D run c), None)"

fun captcha_calls ::
    "(string \<Rightarrow> string) \<Rightarrow> (string \<Rightarrow> bool) \<Rightarrow> nat \<Rightarrow> string \<Rightarrow> captcha_call list \<Rightarrow> phase_db \<Rightarrow>
     phase_db \<times> phase_step result list" where
  "captcha_calls sha known budget run [] D = (D, [])"
| "captcha_calls sha known budget run (c # cs) D =
     (let (D1, v) = captcha_step sha known budget run c D;
          (D2, vs) = captcha_calls sha known budget run cs D1
      in (D2, (case v of None \<Rightarrow> vs | Some x \<Rightarrow> x # vs)))"

definition prompts_operator :: "phase_step result \<Rightarrow> bool" where
  "prompts_operator v = (case v of Inl e \<Rightarrow> False | Inr s \<Rightarrow> st_next s = Some captcha_paused)"

lemma commit_phase_prompts: "prompts_of (fst (commit_phase known D run c)) run = prompts_of D run"
  by (cases "commit_phase known D run c", cases rule: commit_phase_cases [of known D run c])
     (auto simp: prompts_of_def upsert_state_def split: option.splits)

lemma commit_resume_prompts:
  "prompts_of (fst (commit_captcha_resume sha known D run t rc dg n)) run = prompts_of D run"
  using commit_phase_prompts [of known D run]
  by (auto simp: commit_captcha_resume_def split: sum.splits prod.splits) (metis fst_conv)+

lemma resume_prompts: "prompts_of (fst (resume_from_captcha sha known D run sig rel)) run = prompts_of D run"
  using commit_resume_prompts [of sha known D run]
  by (auto simp: resume_from_captcha_def Let_def
      split: sum.splits prod.splits option.splits captcha_resume_signal.splits) (metis fst_conv)+

lemma pause_prompts:
  "pause_for_captcha D run p sid budget = (D', v) \<Longrightarrow>
   prompts_of D' run = prompts_of D run + (if prompts_operator v then 1 else 0) \<and>
   (prompts_operator v \<longrightarrow> prompts_of D' run \<le> budget)"
proof (cases v)
  case (Inl e)
  assume "pause_for_captcha D run p sid budget = (D', v)"
  then show ?thesis using Inl pause_for_captcha_Inl by (fastforce simp: prompts_operator_def)
next
  case (Inr step)
  assume "pause_for_captcha D run p sid budget = (D', v)"
  then show ?thesis
    using Inr pause_for_captcha_Inr [of D run p sid budget D' step]
    by (auto simp: prompts_operator_def prompts_of_def split: if_splits)
qed

lemma captcha_calls_prompts:
  "captcha_calls sha known budget run cs D = (D', vs) \<Longrightarrow>
   prompts_of D' run = prompts_of D run + length (filter prompts_operator vs) \<and>
   (filter prompts_operator vs \<noteq> [] \<longrightarrow> prompts_of D' run \<le> budget)"
proof (induction cs arbitrary: D vs)
  case (Cons c cs)
  obtain D1 v where 1: "captcha_step sha known budget run c D = (D1, v)"
    by (cases "captcha_step sha known budget run c D")
  obtain D2 ws where 2: "captcha_calls sha known budget run cs D1 = (D2, ws)"
    by (cases "captcha_calls sha known budget run cs D1")
  have eq: "D' = D2" "vs = (case v of None \<Rightarrow> ws | Some x \<Rightarrow> x # ws)"
    using Cons.prems 1 2 by simp_all
  have step: "prompts_of D1 run = prompts_of D run +
      (case v of None \<Rightarrow> 0 | Some x \<Rightarrow> if prompts_operator x then 1 else 0) \<and>
      (\<forall>x. v = Some x \<and> prompts_operator x \<longrightarrow> prompts_of D1 run \<le> budget)"
    using 1 by (cases c)
      (auto simp: resume_prompts commit_phase_prompts dest: pause_prompts split: prod.splits)
  show ?case
    using Cons.IH [of D1 ws] 2 step eq by (auto split: option.splits if_splits)
qed simp

text \<open>\<^theory_text>\<open>sha256(...).hexdigest()\<close>: 64 printable characters.\<close>

definition hex_sha :: "(string \<Rightarrow> string) \<Rightarrow> bool" where
  "hex_sha sha = (\<forall>x. length (sha x) = 64 \<and> list_all printable_nonspace (sha x))"

lemma correlation_identifier:
  assumes "hex_sha sha" "0 \<le> n"
  shows "\<exists>c. phase_correlation_id sha run p n = Inr c \<and>
    store_identifier 64 ''correlation id is invalid'' c = Inr c"
proof -
  let ?x = "run @ ''|'' @ phase_text p @ ''|'' @ nat_digits (nat n)"
  have "length (take 32 (sha ?x)) = 32" "list_all printable_nonspace (take 32 (sha ?x))"
    using assms(1) by (auto simp: hex_sha_def list_all_iff dest: in_set_takeD)
  moreover from this(1) have "take 32 (sha ?x) \<noteq> []" by (metis length_0_conv zero_neq_numeral)
  ultimately show ?thesis
    using assms(2) by (simp add: phase_correlation_id_def attempt_check_def store_identifier_def)
qed

lemma captcha_interruptible:
  "p \<in> captcha_interruptible_phases \<Longrightarrow>
   is_legal_phase_transition (Some p) captcha_paused \<and> is_legal_phase_transition (Some p) paused \<and>
   is_legal_phase_transition (Some captcha_paused) p"
  by (cases p) (auto simp: captcha_interruptible_phases_def phase_sets)

lemma current_phase_last:
  assumes "db_ok D" "run_identifier run = Inr r" "db_history D run \<noteq> []"
  shows "current_phase D run =
    Inr (Some (pb_to (last (db_history D run)), pb_attempt (last (db_history D run))))"
proof -
  have "run_ok (db_history D run) (db_states D run)" using assms(1) by (simp add: db_ok_def)
  then have "sort_key pb_sequence (db_history D run) = db_history D run"
    unfolding run_ok_def by (intro sort_key_upt) blast
  then show ?thesis
    using assms(2,3) by (cases "db_history D run") (simp_all add: current_phase_def Let_def)
qed

text \<open>A commit whose attempt lies above every attempt of the history is never taken for a
  replay.\<close>

lemma commit_new_attempt:
  assumes "db_ok D" "commit_check run c = Inr u" "known run"
    "\<forall>b\<in>set (db_history D run). pb_attempt b < pc_attempt c"
  shows "commit_phase known D run c =
    (D\<lparr>db_history := (db_history D)
          (run := db_history D run @ [boundary_of (next_sequence D run) c]),
       db_states := (db_states D)(run \<mapsto> upsert_state (db_states D run) c)\<rparr>, Inr True)"
  using assms by (intro commit_phase_fresh) (auto simp: boundary_key_def)

text \<open>A validated outcome that the store accepts is recorded unless one stands.\<close>

lemma outcome_row_same:
  assumes "make_outcome o1 = Inr o1" "outcome_row rd o1 = Inr row"
  shows "row = o1"
proof -
  have "identifier_ok 200 (ao_run_id o1)"
    using assms(1) by (auto simp: make_outcome_def result_simps run_identifier_def guard_simps)
  then have "strip (ao_run_id o1) = ao_run_id o1" by (rule strip_identifier)
  then show ?thesis
    using assms(2)
    by (auto simp: outcome_row_def audit_identifier_def result_simps Let_def split: if_splits)
qed

lemma record_outcome_table:
  "make_outcome o1 = Inr o1 \<Longrightarrow> record_autonomy_outcome rd known T o1 = (T1, Inr fresh) \<Longrightarrow>
   T1 = (if T (ao_run_id o1) = None then T(ao_run_id o1 \<mapsto> o1) else T) \<and>
   fresh = (T (ao_run_id o1) = None)"
  using outcome_row_same [of o1 rd]
  by (auto simp: record_autonomy_outcome_def split: sum.splits if_splits)

section \<open>Properties\<close>

text \<open>C39. The captcha budget holds for the life of a run: over any calls of the captcha
  pause in any phases, interleaved with resumes and committed boundaries, an operator
  is prompted at most as often as the budget still allows, every prompt is counted
  durably, and nothing but a prompt is.\<close>

theorem captcha_prompts_bounded:
  "captcha_calls sha known budget run cs D = (D', vs) \<Longrightarrow>
   length (filter prompts_operator vs) \<le> budget - prompts_of D run \<and>
   prompts_of D' run = prompts_of D run + length (filter prompts_operator vs)"
  using captcha_calls_prompts [of sha known budget run cs D D' vs]
  by (cases "filter prompts_operator vs = []") auto

text \<open>A captcha pause is undone exactly: once a pause taken in a phase was committed, and
  no boundary of the run has a later attempt, the operator's completion returns the run
  to that phase under the next attempt, without touching the session; any further resume
  signal is refused and changes nothing.\<close>

theorem captcha_pause_roundtrip:
  "db_ok D \<Longrightarrow> known run \<Longrightarrow> hex_sha sha \<Longrightarrow>
   pause_for_captcha D run p sid budget = (D1, Inr step) \<Longrightarrow> st_next step = Some captcha_paused \<Longrightarrow>
   commit_phase known D1 run \<lparr>pc_from = Some p, pc_to = captcha_paused, pc_reason = st_reason step,
     pc_digest = dg, pc_attempt = n, pc_correlation = corr\<rparr> = (D2, Inr True) \<Longrightarrow>
   \<forall>b\<in>set (db_history D2 run). pb_attempt b \<le> n \<Longrightarrow>
   \<exists>D3 s. resume_from_captcha sha known D2 run Signal_Completed None = (D3, Inr s, False) \<and>
     st_next s = Some p \<and> current_phase D3 run = Inr (Some (p, n + 1)) \<and>
     (\<forall>sig rel. resume_from_captcha sha known D3 run sig rel =
        (D3, Inl (PhaseNotDrivable ''the run's last committed phase is not a captcha pause''), False))"
proof -
  assume ok: "db_ok D" and kn: "known run" and sha: "hex_sha sha"
    and pause: "pause_for_captcha D run p sid budget = (D1, Inr step)"
    and nx: "st_next step = Some captcha_paused"
    and cm: "commit_phase known D1 run \<lparr>pc_from = Some p, pc_to = captcha_paused,
      pc_reason = st_reason step, pc_digest = dg, pc_attempt = n, pc_correlation = corr\<rparr> = (D2, Inr True)"
    and low: "\<forall>b\<in>set (db_history D2 run). pb_attempt b \<le> n"
  obtain s0 where p: "p \<in> captcha_interruptible_phases" and st: "db_states D run = Some s0"
    and D1: "D1 = D\<lparr>db_states := (db_states D)(run \<mapsto> s0\<lparr>rs_phase_at_pause := Some p,
                  rs_captcha_prompts := rs_captcha_prompts s0 + 1\<rparr>)\<rparr>"
    using pause_for_captcha_Inr [OF pause] nx by (auto split: if_splits)
  have ok1: "db_ok D1"
    using ok st unfolding D1 by (intro state_write_ok) auto
  have ok2: "db_ok D2" by (rule commit_phase_ok [OF ok1 cm])
  obtain chk: "commit_check run \<lparr>pc_from = Some p, pc_to = captcha_paused,
      pc_reason = st_reason step, pc_digest = dg, pc_attempt = n, pc_correlation = corr\<rparr> = Inr ()"
    and h2: "db_history D2 run = db_history D1 run @ [boundary_of (next_sequence D1 run)
      \<lparr>pc_from = Some p, pc_to = captcha_paused, pc_reason = st_reason step, pc_digest = dg,
       pc_attempt = n, pc_correlation = corr\<rparr>]"
    and s2: "\<exists>s. db_states D2 run = Some s \<and> rs_phase_at_pause s = Some p"
    using cm by (auto simp: commit_phase_def commit_boundary_def upsert_state_def D1
        split: sum.splits if_splits)
  have id: "run_identifier run = Inr run" and n: "0 \<le> n" and dg: "profile_digest_check dg = Inr dg"
    using chk by (auto simp: commit_check_def result_simps run_identifier_def guard_simps
        attempt_check_def profile_digest_check_def split: if_splits)
  obtain c where c: "phase_correlation_id sha run captcha_paused (n + 1) = Inr c"
    "store_identifier 64 ''correlation id is invalid'' c = Inr c"
    using correlation_identifier [OF sha, of "n + 1" run captcha_paused] n by auto
  let ?c = "\<lparr>pc_from = Some captcha_paused, pc_to = p, pc_reason = ''captcha_resolved'',
      pc_digest = dg, pc_attempt = n + 1, pc_correlation = c\<rparr>"
  have tr: "transition_check (Some captcha_paused) p ''captcha_resolved'' = Inr p"
    using captcha_interruptible [OF p] transition_check_Inr by blast
  have chk2: "commit_check run ?c = Inr ()"
    using id n dg c(2) tr
    by (simp add: commit_check_def reason_code_check_def attempt_check_def onboarding_reason_codes_def)
  define D3 where "D3 = fst (commit_phase known D2 run ?c)"
  have cm3: "commit_phase known D2 run ?c = (D3, Inr True)"
    and h3: "db_history D3 run = db_history D2 run @ [boundary_of (next_sequence D2 run) ?c]"
    unfolding D3_def using commit_new_attempt [where known = known, OF ok2 chk2 kn] low by auto
  have ok3: "db_ok D3" by (rule commit_phase_ok [OF ok2 cm3])
  have hist: "history D2 run = Inr (db_history D2 run)" "history D3 run = Inr (db_history D3 run)"
    using history_eq [OF ok2 id] history_eq [OF ok3 id] .
  obtain s where "advance_to p ''captcha_resolved'' None = Inr s" "st_next s = Some p"
    by (simp add: step_simps onboarding_reason_codes_def)
  then have "resume_from_captcha sha known D2 run Signal_Completed None = (D3, Inr s, False)"
    using s2 h2 hist(1) id cm3 c(1)
    by (auto simp: resume_from_captcha_def commit_captcha_resume_def captcha_pause_def boundary_of_def)
  moreover have "p \<noteq> captcha_paused" using p by (auto simp: captcha_interruptible_phases_def)
  then have "resume_from_captcha sha known D3 run sig rel =
      (D3, Inl (PhaseNotDrivable ''the run's last committed phase is not a captcha pause''), False)" for sig rel
    using hist(2) h3 by (simp add: resume_from_captcha_def boundary_of_def)
  moreover have "current_phase D3 run = Inr (Some (p, n + 1))"
    using current_phase_last [OF ok3 id] h3 by (simp add: boundary_of_def)
  ultimately show ?thesis using \<open>st_next s = Some p\<close> by blast
qed

text \<open>A run has one autonomy outcome: the first recorded one reads back unchanged, no
  later record of the run replaces it, and a fully autonomous one counts no captcha.\<close>

theorem autonomy_outcome_written_once:
  "make_outcome o1 = Inr o1 \<Longrightarrow> record_autonomy_outcome rd known T o1 = (T1, Inr fresh) \<Longrightarrow>
   (fresh \<longrightarrow> T (ao_run_id o1) = None \<and> T1 = T(ao_run_id o1 \<mapsto> o1) \<and>
      read_autonomy_outcome rd T1 (ao_run_id o1) = Inr (Some o1)) \<and>
   (\<not> fresh \<longrightarrow> T1 = T \<and> T (ao_run_id o1) \<noteq> None) \<and>
   (\<forall>o2. ao_run_id o2 = ao_run_id o1 \<longrightarrow> fst (record_autonomy_outcome rd known T1 o2) = T1) \<and>
   (ao_verdict o1 = Fully_Autonomous \<longrightarrow> ao_captcha_prompts o1 = 0)"
proof -
  assume m: "make_outcome o1 = Inr o1" and r: "record_autonomy_outcome rd known T o1 = (T1, Inr fresh)"
  have id: "identifier_ok 200 (ao_run_id o1)"
    using m by (auto simp: make_outcome_def result_simps run_identifier_def guard_simps)
  then have st: "strip (ao_run_id o1) = ao_run_id o1"
    by (rule strip_identifier)
  obtain row where row: "outcome_row rd o1 = Inr row"
    using r by (auto simp: record_autonomy_outcome_def split: sum.splits)
  then have row_eq: "row = o1" and rd: "rd (ao_run_id o1) = ao_run_id o1"
    and aut: "ao_verdict o1 = Fully_Autonomous \<longrightarrow> ao_captcha_prompts o1 = 0"
    by (auto simp: outcome_row_def audit_identifier_def st result_simps Let_def split: if_splits)
  have later: "outcome_row rd o2 = Inr row2 \<Longrightarrow> ao_run_id o2 = ao_run_id o1 \<Longrightarrow> ao_run_id row2 = ao_run_id o1"
    for o2 row2
    by (auto simp: outcome_row_def audit_identifier_def st result_simps Let_def split: if_splits)
  have kept: "fst (record_autonomy_outcome rd known T1 o2) = T1"
    if "ao_run_id o2 = ao_run_id o1" "T1 (ao_run_id o1) \<noteq> None" for o2
  proof (cases "outcome_row rd o2")
    case (Inl e)
    then show ?thesis by (simp add: record_autonomy_outcome_def)
  next
    case (Inr row2)
    then have "ao_run_id row2 = ao_run_id o1" using later that(1) by blast
    then show ?thesis using Inr that(2) by (simp add: record_autonomy_outcome_def)
  qed
  have rid: "run_identifier (ao_run_id o1) = Inr (ao_run_id o1)"
    using id by (simp add: run_identifier_def guard_simps)
  have "(fresh \<and> T (ao_run_id o1) = None \<and> T1 = T(ao_run_id o1 \<mapsto> o1)) \<or>
      (\<not> fresh \<and> T1 = T \<and> T (ao_run_id o1) \<noteq> None)"
    using r row row_eq by (auto simp: record_autonomy_outcome_def split: if_splits)
  then show ?thesis
    using aut kept m rd rid by (auto simp: read_autonomy_outcome_def)
qed

section \<open>Witnesses\<close>

definition signup_boundary :: phase_boundary where
  "signup_boundary = \<lparr>pb_sequence = 1, pb_from = Some route_selected_signup, pb_to = signup,
     pb_reason = ''captcha_detected'', pb_digest = digest64, pb_attempt = 0, pb_correlation = ''c''\<rparr>"

definition signup_state :: run_state where
  "signup_state = \<lparr>rs_phase = signup, rs_phase_at_pause = None, rs_digest = digest64,
     rs_account_ref = [], rs_generation = 0, rs_verification = 0, rs_validation = 0,
     rs_captcha_prompts = 0, rs_admission_prompts = 0\<rparr>"

definition signup_db :: phase_db where
  "signup_db = empty_db\<lparr>db_history := (\<lambda>_. [])(''r1'' := [signup_boundary]),
     db_states := [''r1'' \<mapsto> signup_state]\<rparr>"

definition sample_sha :: "string \<Rightarrow> string" where
  "sample_sha x = replicate 64 CHR ''a''"

lemma hex_sample_sha: "hex_sha sample_sha"
  by (simp add: hex_sha_def sample_sha_def list_all_iff printable_nonspace_def is_space_def)

lemma signup_db_ok: "db_ok signup_db"
  by (simp add: db_ok_def run_ok_def signup_db_def empty_db_def signup_boundary_def boundary_ok_def
      signup_state_def digest64_def onboarding_reason_codes_def upt_rec)

definition paused_db :: phase_db where
  "paused_db = signup_db\<lparr>db_states := [''r1'' \<mapsto>
     signup_state\<lparr>rs_phase_at_pause := Some signup, rs_captcha_prompts := 1\<rparr>]\<rparr>"

definition captcha_commit :: phase_commit where
  "captcha_commit = \<lparr>pc_from = Some signup, pc_to = captcha_paused, pc_reason = ''captcha_detected'',
     pc_digest = digest64, pc_attempt = 0, pc_correlation = ''c''\<rparr>"

lemma sample_pause:
  "\<exists>step. pause_for_captcha signup_db ''r1'' signup ''s1'' 3 = (paused_db, Inr step) \<and>
     st_next step = Some captcha_paused \<and> st_reason step = ''captcha_detected''"
proof -
  have "store_identifier 200 ''browser session id is invalid'' ''s1'' = Inr ''s1''" by code_simp
  then show ?thesis
    using sample_identifiers
    by (simp add: pause_for_captcha_def captcha_pause_def record_captcha_pause_def signup_db_def
        paused_db_def captcha_interruptible_phases_def phase_sets signup_state_def step_simps
        onboarding_reason_codes_def)
qed

lemma captcha_prompts_bounded_witness:
  "length (filter prompts_operator (snd (captcha_calls sample_sha all_runs 3 ''r1''
     (replicate 5 (Captcha_Pause signup ''s1'')) signup_db))) \<le> 3"
proof -
  obtain D vs where "captcha_calls sample_sha all_runs 3 ''r1''
      (replicate 5 (Captcha_Pause signup ''s1'')) signup_db = (D, vs)"
    by (cases "captcha_calls sample_sha all_runs 3 ''r1''
      (replicate 5 (Captcha_Pause signup ''s1'')) signup_db")
  then show ?thesis using captcha_prompts_bounded by fastforce
qed

lemma captcha_commit_commits:
  "\<exists>D2. commit_phase all_runs paused_db ''r1'' captcha_commit = (D2, Inr True) \<and>
     db_history D2 ''r1'' = [signup_boundary, boundary_of 2 captcha_commit]"
proof -
  have "store_identifier 64 ''correlation id is invalid'' ''c'' = Inr ''c''" by code_simp
  then have "commit_check ''r1'' captcha_commit = Inr ()"
    using sample_identifiers(1)
    by (simp add: commit_check_def captcha_commit_def reason_code_check_def profile_digest_check_def
        attempt_check_def transition_check_def validate_phase_transition_def digest64_def
        onboarding_reason_codes_def)
  then show ?thesis
    by (simp add: commit_phase_def commit_boundary_def violates_unique_def next_sequence_def all_runs_def
        paused_db_def signup_db_def signup_boundary_def same_boundary_def captcha_commit_def
        numeral_2_eq_2)
qed

lemma captcha_pause_roundtrip_witness:
  "\<exists>D2 D3 s. resume_from_captcha sample_sha all_runs D2 ''r1'' Signal_Completed None = (D3, Inr s, False) \<and>
     current_phase D3 ''r1'' = Inr (Some (signup, 1))"
proof -
  obtain D2 where D2: "commit_phase all_runs paused_db ''r1'' captcha_commit = (D2, Inr True)"
    "db_history D2 ''r1'' = [signup_boundary, boundary_of 2 captcha_commit]"
    using captcha_commit_commits by blast
  obtain step where p: "pause_for_captcha signup_db ''r1'' signup ''s1'' 3 = (paused_db, Inr step)"
    "st_next step = Some captcha_paused" "st_reason step = ''captcha_detected''"
    using sample_pause by blast
  have "\<forall>b\<in>set (db_history D2 ''r1''). pb_attempt b \<le> 0"
    by (simp add: D2(2) boundary_of_def captcha_commit_def signup_boundary_def)
  moreover have "all_runs ''r1''" by (simp add: all_runs_def)
  moreover have "commit_phase all_runs paused_db ''r1'' \<lparr>pc_from = Some signup, pc_to = captcha_paused,
      pc_reason = st_reason step, pc_digest = digest64, pc_attempt = 0, pc_correlation = ''c''\<rparr> = (D2, Inr True)"
    using D2(1) p(3) by (simp add: captcha_commit_def)
  ultimately obtain D3 s where
    "resume_from_captcha sample_sha all_runs D2 ''r1'' Signal_Completed None = (D3, Inr s, False)"
    "current_phase D3 ''r1'' = Inr (Some (signup, 0 + 1))"
    using captcha_pause_roundtrip [OF signup_db_ok _ hex_sample_sha p(1,2)] by blast
  then show ?thesis by auto
qed

definition sample_outcome_row :: autonomy_outcome where
  "sample_outcome_row = \<lparr>ao_run_id = ''r1'', ao_profile_digest = digest64, ao_verdict = Fully_Autonomous,
     ao_terminal_phase = completed, ao_reason = ''captcha_detected'', ao_started_at = 0, ao_ended_at = 1,
     ao_duration_seconds = 0, ao_admission_prompts = 0, ao_captcha_prompts = 0,
     ao_other_operator_prompts = 0, ao_model_calls = 0, ao_actions_executed = 0,
     ao_navigation_denials = 0, ao_phases_replayed = 0, ao_effects_skipped = 0, ao_outcome_unknown = 0,
     ao_verification_attempts = 0, ao_validation_attempts = 0\<rparr>"

lemma sample_outcome_recorded:
  "make_outcome sample_outcome_row = Inr sample_outcome_row"
  "record_autonomy_outcome id all_runs Map.empty sample_outcome_row =
     ([''r1'' \<mapsto> sample_outcome_row], Inr True)"
proof -
  show "make_outcome sample_outcome_row = Inr sample_outcome_row"
    using sample_identifiers(1)
    by (simp add: make_outcome_def sample_outcome_row_def profile_digest_check_def digest64_def
        reason_code_check_def onboarding_reason_codes_def)
  have "audit_identifier id ''r1'' = Inr ''r1''" "hex_digest64 digest64" by code_simp+
  then show "record_autonomy_outcome id all_runs Map.empty sample_outcome_row =
     ([''r1'' \<mapsto> sample_outcome_row], Inr True)"
    by (simp add: record_autonomy_outcome_def outcome_row_def outcome_counts_def sample_outcome_row_def
        reason_code_check_def onboarding_reason_codes_def all_runs_def)
qed

lemma autonomy_outcome_written_once_witness:
  "read_autonomy_outcome id [''r1'' \<mapsto> sample_outcome_row] (ao_run_id sample_outcome_row) =
     Inr (Some sample_outcome_row)"
  using autonomy_outcome_written_once [OF sample_outcome_recorded] by blast

end
