(* ===== verification/Driver.thy ===== *)
theory Driver
  imports Driver_Steps Lease_Guard Planner
begin

text \<open>
  \<^theory_text>\<open>drive_run\<close> of \<^theory_text>\<open>ops/onboarding/driver.py\<close>: one worker advances one run under a
  lease until it blocks, pauses or terminates. The handlers, the mailbox service and the
  action loop are answers of the environment; so are the clocks and what other processes
  write between two of the worker's own calls. A run of the driver is given one
  \<^theory_text>\<open>turn\<close> of the environment per iteration; when the turns end while the loop would go
  on, the worker is still driving, or has crashed there.

  The lease guard is the one of \<^theory_text>\<open>Lease_Guard\<close> over the lease table of \<^theory_text>\<open>Run_Lease\<close>,
  the boundaries go to the phase history of \<^theory_text>\<open>Phase_Store\<close>, and the plan a run needs
  before its first session is the one of \<^theory_text>\<open>Planner\<close>.
\<close>

section \<open>The wiring and the world\<close>

record provider_profile =
  pp_digest :: string
  pp_app_slug :: string

text \<open>What the driver reads of the host: the digest function, the runs that exist, the
  redaction of an identifier, the IPv6 test of the address parser and the length of the
  stored surfaces.\<close>

record host_env =
  he_sha :: "string \<Rightarrow> string"
  he_known :: "string \<Rightarrow> bool"
  he_rd :: "string \<Rightarrow> string"
  he_v6 :: "string \<Rightarrow> bool"
  he_jlen :: "planned_surface list \<Rightarrow> nat"

text \<open>\<^theory_text>\<open>OnboardingDeps\<close>: which optional ports are wired, and the budgets.\<close>

record onboarding_deps =
  od_handler :: "phase \<Rightarrow> bool"
  od_verification :: bool
  od_pauses :: bool
  od_captcha_budget :: nat
  od_effects :: bool
  od_logins :: bool
  od_outcomes :: bool
  od_plans :: bool
  od_planner :: "(plan_recipe \<Rightarrow> plan_refusal + run_plan \<times> string) option"
  od_catalog :: "string \<Rightarrow> plan_recipe option"
  od_timings :: lease_timings

record drive_world =
  dw_db :: phase_db
  dw_leases :: lease_table
  dw_plans :: plan_table
  dw_queue :: run_queue
  dw_outcomes :: outcome_table

record tally =
  tl_model_calls :: nat
  tl_actions_executed :: nat
  tl_navigation_denials :: nat
  tl_phases_replayed :: nat
  tl_captcha_prompts :: nat
  tl_admission_prompts :: nat
  tl_verification_attempts :: nat
  tl_validation_attempts :: nat
  tl_effects_skipped :: nat
  tl_outcome_unknown :: nat

definition empty_tally :: tally where
  "empty_tally = \<lparr>tl_model_calls = 0, tl_actions_executed = 0, tl_navigation_denials = 0,
     tl_phases_replayed = 0, tl_captcha_prompts = 0, tl_admission_prompts = 0,
     tl_verification_attempts = 0, tl_validation_attempts = 0, tl_effects_skipped = 0,
     tl_outcome_unknown = 0\<rparr>"

definition tally_record :: "loop_result \<Rightarrow> tally \<Rightarrow> tally" where
  "tally_record r t = t\<lparr>tl_model_calls := tl_model_calls t + lr_model_calls r,
     tl_actions_executed := tl_actions_executed t + lr_actions_executed r,
     tl_navigation_denials := tl_navigation_denials t + lr_navigation_denials r\<rparr>"

record walk =
  wk_guard :: lease_guard
  wk_phase :: phase
  wk_attempt :: int
  wk_durable :: bool
  wk_profile :: "provider_profile option"
  wk_reason :: string
  wk_reroute :: bool
  wk_settled :: bool
  wk_tally :: tally

datatype loop_answer = Loop_Raised exn | Loop_Undecided string | Loop_Answer loop_result

text \<open>One iteration's answers. \<^theory_text>\<open>tn_before\<close> is what others wrote since the last one,
  \<^theory_text>\<open>tn_during\<close> what the handler and others write while the phase is driven.\<close>

record turn =
  tn_before :: "drive_world \<Rightarrow> drive_world"
  tn_now :: int
  tn_snow :: int
  tn_reachable :: bool
  tn_during :: "drive_world \<Rightarrow> drive_world"
  tn_handler :: "phase_step result"
  tn_verification :: "nat \<Rightarrow> phase_step result"
  tn_session_id :: string
  tn_loop :: loop_answer
  tn_references :: "(string \<times> string) list result"
  tn_profiles :: "string \<Rightarrow> provider_profile option"
  tn_queue_now :: int

datatype drive_event = Drove phase phase_db | Crossed phase phase bool

datatype iteration_end = Go_On | Break_Out | Raise_Out exn

section \<open>One iteration\<close>

definition standing_reservations ::
    "host_env \<Rightarrow> onboarding_deps \<Rightarrow> phase_db \<Rightarrow> string \<Rightarrow> phase option \<Rightarrow> effect_record list" where
  "standing_reservations E d D run p =
     (if \<not> od_effects d then []
      else (case reservations (he_rd E) D run of
          Inl e \<Rightarrow> []
        | Inr rs \<Rightarrow> filter (\<lambda>r. case p of None \<Rightarrow> True | Some q \<Rightarrow> er_phase r = q) (map snd rs)))"

definition adopt_signup_references ::
    "onboarding_deps \<Rightarrow> (string \<times> string) list result \<Rightarrow> string \<Rightarrow> (string \<times> string) list result" where
  "adopt_signup_references d answer digest =
     (if \<not> od_logins d
      then Inl (PhaseNotDrivable ''the duplicate-account re-route has no login reference binder wired'')
      else bindR (profile_digest_check digest) (\<lambda>_. bindR answer (\<lambda>refs.
        if refs = []
        then Inl (PhaseNotDrivable ''the duplicate-account re-route found no stored signup references'')
        else Inr refs)))"

text \<open>Before the phase is driven: the pending re-route binds its login references.\<close>

definition settle_reroute :: "onboarding_deps \<Rightarrow> turn \<Rightarrow> walk \<Rightarrow> walk result" where
  "settle_reroute d tn k =
     (if wk_reroute k \<and> wk_phase k = route_selected_login
      then (case wk_profile k of
          None \<Rightarrow> Inl (PhaseNotDrivable ''the run has no committed provider profile'')
        | Some pr \<Rightarrow>
            bindR (adopt_signup_references d (tn_references tn) (pp_digest pr)) (\<lambda>_.
              Inr (k\<lparr>wk_reroute := False\<rparr>)))
      else Inr k)"

definition selected_recipe :: "onboarding_deps \<Rightarrow> provider_profile option \<Rightarrow> plan_recipe option" where
  "selected_recipe d pr = (case pr of None \<Rightarrow> None | Some p \<Rightarrow> od_catalog d (pp_app_slug p))"

text \<open>Before the first session: the plan.\<close>

definition settle_plan ::
    "host_env \<Rightarrow> onboarding_deps \<Rightarrow> string \<Rightarrow> drive_world \<Rightarrow> walk \<Rightarrow>
     drive_world \<times> walk \<times> plan_refusal option result" where
  "settle_plan E d run W k =
     (if wk_phase k \<in> session_bearing_phases \<and> \<not> wk_settled k
      then (case plan_admission (he_v6 E) (he_rd E) (he_known E) (he_jlen E) (od_plans d)
                   (od_planner d) (dw_plans W) run (selected_recipe d (wk_profile k)) of
              (P, Inl e) \<Rightarrow> (W\<lparr>dw_plans := P\<rparr>, k, Inl e)
            | (P, Inr refusal) \<Rightarrow> (W\<lparr>dw_plans := P\<rparr>, k\<lparr>wk_settled := True\<rparr>, Inr refusal))
      else (W, k, Inr None))"

definition no_profile :: exn where
  "no_profile = PhaseNotDrivable ''the run has no committed provider profile''"

definition drive_verification ::
    "string \<Rightarrow> turn \<Rightarrow> drive_world \<Rightarrow> tally \<Rightarrow> drive_world \<times> tally \<times> phase_step result" where
  "drive_verification run tn W t =
     (case history (dw_db W) run of
        Inl e \<Rightarrow> (W, t, Inl e)
      | Inr h \<Rightarrow>
        if \<not> list_ex (\<lambda>b. pb_to b = email_verification) h
        then (W, t, Inl (PhaseNotDrivable
                ''no committed boundary issued this run's verification challenge''))
        else (case next_verification_attempt (dw_db W) run of
            (D, Inl e) \<Rightarrow> (W\<lparr>dw_db := D\<rparr>, t, Inl e)
          | (D, Inr n) \<Rightarrow>
              (tn_during tn (W\<lparr>dw_db := D\<rparr>), t\<lparr>tl_verification_attempts := n - 1 + 1\<rparr>,
               tn_verification tn (n - 1))))"

definition drive_phase ::
    "onboarding_deps \<Rightarrow> string \<Rightarrow> turn \<Rightarrow> drive_world \<Rightarrow> walk \<Rightarrow>
     drive_world \<times> tally \<times> phase_step result" where
  "drive_phase d run tn W k =
     (let p = wk_phase k; t = wk_tally k
      in if od_handler d p then (tn_during tn W, t, bindR (tn_handler tn) make_step)
         else if p = email_verification \<and> od_verification d
         then (if wk_profile k = None then (W, t, Inl no_profile)
               else drive_verification run tn W t)
         else if phase_successors p = None
         then (W, t, Inl (PhaseNotDrivable ''no handler is registered and no loop goal is declared''))
         else if wk_profile k = None then (W, t, Inl no_profile)
         else
           let W1 = tn_during tn W
           in (case tn_loop tn of
                 Loop_Raised e \<Rightarrow> (W1, t, Inl e)
               | Loop_Undecided code \<Rightarrow> (W1, t, step_for_decision_failure code)
               | Loop_Answer r \<Rightarrow>
                   (case step_for_loop_outcome (od_pauses d) (od_captcha_budget d) (dw_db W1) run p
                           (tn_session_id tn) r of
                      (D, v) \<Rightarrow> (W1\<lparr>dw_db := D\<rparr>, tally_record r t, v))))"

text \<open>What the driver does with the step: a deferral re-queues the run, anything else commits
  one boundary, the only place one becomes durable.\<close>

definition step_target :: "phase_step \<Rightarrow> phase" where
  "step_target step = (case st_next step of None \<Rightarrow> paused | Some q \<Rightarrow> q)"

definition boundary_digest :: "phase_step \<Rightarrow> provider_profile option \<Rightarrow> string option" where
  "boundary_digest step pr =
     (case st_digest step of
        None \<Rightarrow> map_option pp_digest pr
      | Some dg \<Rightarrow> if dg = [] then map_option pp_digest pr else Some dg)"

definition boundary_commit :: "phase \<Rightarrow> int \<Rightarrow> phase_step \<Rightarrow> string \<Rightarrow> string \<Rightarrow> phase_commit" where
  "boundary_commit p attempt step digest corr =
     \<lparr>pc_from = Some p, pc_to = step_target step, pc_reason = st_reason step,
      pc_digest = digest, pc_attempt = attempt, pc_correlation = corr\<rparr>"

definition tally_boundary :: "bool \<Rightarrow> phase \<Rightarrow> tally \<Rightarrow> tally" where
  "tally_boundary fresh target t =
     (if \<not> fresh then t\<lparr>tl_phases_replayed := tl_phases_replayed t + 1\<rparr>
      else if target = captcha_paused then t\<lparr>tl_captcha_prompts := tl_captcha_prompts t + 1\<rparr>
      else if target = awaiting_admission
      then t\<lparr>tl_admission_prompts := admission_prompt_limit\<rparr> else t)"

definition after_boundary :: "turn \<Rightarrow> phase_step \<Rightarrow> string \<Rightarrow> bool \<Rightarrow> walk \<Rightarrow> walk" where
  "after_boundary tn step digest fresh k =
     k\<lparr>wk_tally := tally_boundary fresh (step_target step) (wk_tally k),
       wk_reroute := (wk_reroute k \<or>
         wk_phase k = signup \<and> step_target step = route_selected_login \<and>
         st_reason step = ''signup_rejected_duplicate_account''),
       wk_phase := step_target step,
       wk_durable := True,
       wk_profile :=
         (if map_option pp_digest (wk_profile k) \<noteq> Some digest
          then (case tn_profiles tn digest of Some q \<Rightarrow> Some q | None \<Rightarrow> wk_profile k)
          else wk_profile k)\<rparr>"

definition cross_boundary ::
    "host_env \<Rightarrow> string \<Rightarrow> turn \<Rightarrow> drive_world \<Rightarrow> walk \<Rightarrow> phase_step \<Rightarrow>
     drive_world \<times> walk \<times> drive_event list \<times> iteration_end" where
  "cross_boundary E run tn W k0 step =
     (let k = k0\<lparr>wk_reason := st_reason step\<rparr>
      in if st_kind step = Yield
         then (case st_not_before step of
             None \<Rightarrow> (W, k, [], Raise_Out (AssertionError ''not_before''))
           | Some nb \<Rightarrow>
               (case defer_run (he_known E) (dw_queue W) (tn_queue_now tn) run nb of
                  (Q, Inl e) \<Rightarrow> (W\<lparr>dw_queue := Q\<rparr>, k, [], Raise_Out e)
                | (Q, Inr _) \<Rightarrow> (W\<lparr>dw_queue := Q\<rparr>, k, [], Break_Out)))
         else
           (case boundary_digest step (wk_profile k) of
              None \<Rightarrow> (W, k, [], Raise_Out (PhaseNotDrivable ''a phase transition requires a profile digest''))
            | Some digest \<Rightarrow>
              (case phase_correlation_id (he_sha E) run (wk_phase k) (wk_attempt k) of
                 Inl e \<Rightarrow> (W, k, [], Raise_Out e)
               | Inr corr \<Rightarrow>
                 (case commit_phase (he_known E) (dw_db W) run
                         (boundary_commit (wk_phase k) (wk_attempt k) step digest corr) of
                    (D, Inl e) \<Rightarrow> (W\<lparr>dw_db := D\<rparr>, k, [], Raise_Out e)
                  | (D, Inr fresh) \<Rightarrow>
                      (W\<lparr>dw_db := D\<rparr>, after_boundary tn step digest fresh k,
                       [Crossed (wk_phase k) (step_target step) fresh], Go_On)))))"

definition count_skips :: "host_env \<Rightarrow> onboarding_deps \<Rightarrow> string \<Rightarrow> drive_world \<Rightarrow> walk \<Rightarrow> walk" where
  "count_skips E d run W k =
     (if effect_bearing_phases (wk_phase k) \<noteq> None \<and> wk_durable k
      then k\<lparr>wk_tally := (wk_tally k)\<lparr>tl_effects_skipped := tl_effects_skipped (wk_tally k) +
             length (filter (\<lambda>r. er_disposition r = Skip)
               (standing_reservations E d (dw_db W) run (Some (wk_phase k))))\<rparr>\<rparr>
      else k)"

text \<open>The body of the loop after the ownership check.\<close>

definition drive_step ::
    "host_env \<Rightarrow> onboarding_deps \<Rightarrow> string \<Rightarrow> turn \<Rightarrow> drive_world \<Rightarrow> walk \<Rightarrow>
     drive_world \<times> walk \<times> drive_event list \<times> iteration_end" where
  "drive_step E d run tn W k0 =
     (let k1 = count_skips E d run W k0
      in if effect_bearing_phases (wk_phase k1) \<noteq> None \<and> \<not> wk_durable k1
         then (W, k1, [], Raise_Out (PhaseNotDrivable
                 ''its effect may not be reserved before its boundary is committed''))
         else (case settle_reroute d tn k1 of
             Inl e \<Rightarrow> (W, k1, [], Raise_Out e)
           | Inr k2 \<Rightarrow>
             (case settle_plan E d run W k2 of
                (W1, k3, Inl e) \<Rightarrow> (W1, k3, [], Raise_Out e)
              | (W1, k3, Inr (Some refusal)) \<Rightarrow>
                  (case pause_on (pf_reason_code refusal) of
                     Inl e \<Rightarrow> (W1, k3, [], Raise_Out e)
                   | Inr step \<Rightarrow> cross_boundary E run tn W1 k3 step)
              | (W1, k3, Inr None) \<Rightarrow>
                  (case drive_phase d run tn W1 k3 of
                     (W2, t, Inl e) \<Rightarrow>
                       (W2, k3\<lparr>wk_tally := t\<rparr>, [Drove (wk_phase k3) (dw_db W1)], Raise_Out e)
                   | (W2, t, Inr step) \<Rightarrow>
                       (case cross_boundary E run tn W2 (k3\<lparr>wk_tally := t\<rparr>) step of
                          (W3, k4, ev, how) \<Rightarrow> (W3, k4, Drove (wk_phase k3) (dw_db W1) # ev, how))))))"

definition drive_iteration ::
    "host_env \<Rightarrow> onboarding_deps \<Rightarrow> string \<Rightarrow> turn \<Rightarrow> drive_world \<Rightarrow> walk \<Rightarrow>
     drive_world \<times> walk \<times> drive_event list \<times> iteration_end" where
  "drive_iteration E d run tn W0 k =
     (let W = tn_before tn W0
      in (case before_step renew (dw_leases W) (wk_guard k) (tn_now tn) (tn_snow tn) (tn_reachable tn) of
            (T, G, c) \<Rightarrow>
              if \<not> may_drive c then (W\<lparr>dw_leases := T\<rparr>, k\<lparr>wk_guard := G\<rparr>, [], Break_Out)
              else drive_step E d run tn (W\<lparr>dw_leases := T\<rparr>) (k\<lparr>wk_guard := G\<rparr>)))"

section \<open>The loop\<close>

datatype loop_end = Stopped | Loop_Raises exn | Driving

definition at_rest :: "phase \<Rightarrow> bool" where
  "at_rest p = (p \<in> terminal_phases \<or> p \<in> waiting_phases)"

fun drive_loop ::
    "host_env \<Rightarrow> onboarding_deps \<Rightarrow> string \<Rightarrow> turn list \<Rightarrow> drive_world \<Rightarrow> walk \<Rightarrow>
     drive_world \<times> walk \<times> drive_event list \<times> loop_end" where
  "drive_loop E d run [] W k = (W, k, [], if at_rest (wk_phase k) then Stopped else Driving)"
| "drive_loop E d run (tn # tns) W k =
     (if at_rest (wk_phase k) then (W, k, [], Stopped)
      else (case drive_iteration E d run tn W k of
          (W1, k1, ev, Break_Out) \<Rightarrow> (W1, k1, ev, Stopped)
        | (W1, k1, ev, Raise_Out e) \<Rightarrow> (W1, k1, ev, Loop_Raises e)
        | (W1, k1, ev, Go_On) \<Rightarrow>
            (case drive_loop E d run tns W1 k1 of (W2, k2, ev2, how) \<Rightarrow> (W2, k2, ev @ ev2, how))))"

section \<open>The drive\<close>

text \<open>What the environment answers around the loop: the clocks at the start and at the end,
  whether the stores can be read and the lease released.\<close>

record drive_frame =
  fr_claimed_at :: int
  fr_started :: int
  fr_guard_now :: int
  fr_readable :: bool
  fr_profiles :: "string \<Rightarrow> provider_profile option"
  fr_profile_for_run :: "provider_profile option"
  fr_released_at :: int
  fr_releasable :: bool
  fr_ended :: int

datatype drive_result =
    Not_Claimable
  | Drive_Raised exn
  | Still_Driving
  | Drive_Returned autonomy_outcome

definition load_profile ::
    "(string \<Rightarrow> provider_profile option) \<Rightarrow> provider_profile option \<Rightarrow> phase_boundary list \<Rightarrow>
     provider_profile option" where
  "load_profile profiles for_run h =
     (if h \<noteq> [] \<and> profiles (pb_digest (last h)) \<noteq> None
      then profiles (pb_digest (last h)) else for_run)"

definition first_walk ::
    "onboarding_deps \<Rightarrow> drive_frame \<Rightarrow> lease \<Rightarrow> phase_boundary list \<Rightarrow> walk" where
  "first_walk d f l h =
     \<lparr>wk_guard = make_guard l (od_timings d) (fr_guard_now f),
      wk_phase = fst (resumption_phase h), wk_attempt = snd (resumption_phase h),
      wk_durable = (h \<noteq> []), wk_profile = load_profile (fr_profiles f) (fr_profile_for_run f) h, wk_reason = ''lease_claimed'',
      wk_reroute = is_duplicate_account_reroute (if h = [] then None else Some (last h)),
      wk_settled = has_entered_a_session h, wk_tally = empty_tally\<rparr>"

definition adopt_durable_counters ::
    "host_env \<Rightarrow> onboarding_deps \<Rightarrow> phase_db \<Rightarrow> string \<Rightarrow> tally \<Rightarrow> tally" where
  "adopt_durable_counters E d D run t =
     (let t1 = (case counter_value D run counter.Verification of
                  Inl e \<Rightarrow> t
                | Inr v \<Rightarrow> (let t0 = t\<lparr>tl_verification_attempts := v\<rparr>
                            in (case counter_value D run counter.Validation of
                                  Inl e \<Rightarrow> t0 | Inr w \<Rightarrow> t0\<lparr>tl_validation_attempts := w\<rparr>)))
      in t1\<lparr>tl_outcome_unknown := length (filter (\<lambda>r. er_disposition r = Pause_Outcome_Unknown)
              (standing_reservations E d D run None))\<rparr>)"

definition outcome_of :: "drive_frame \<Rightarrow> string \<Rightarrow> walk \<Rightarrow> autonomy_outcome" where
  "outcome_of f run k =
     (let t = wk_tally k
      in \<lparr>ao_run_id = run,
          ao_profile_digest = (case wk_profile k of None \<Rightarrow> [] | Some p \<Rightarrow> pp_digest p),
          ao_verdict = autonomy_verdict (wk_phase k) (tl_captcha_prompts t),
          ao_terminal_phase = wk_phase k, ao_reason = wk_reason k,
          ao_started_at = fr_started f, ao_ended_at = fr_ended f,
          ao_duration_seconds = max ((fr_ended f - fr_started f) div 1000000) 0,
          ao_admission_prompts = int (tl_admission_prompts t),
          ao_captcha_prompts = int (tl_captcha_prompts t), ao_other_operator_prompts = 0,
          ao_model_calls = int (tl_model_calls t), ao_actions_executed = int (tl_actions_executed t),
          ao_navigation_denials = int (tl_navigation_denials t),
          ao_phases_replayed = int (tl_phases_replayed t),
          ao_effects_skipped = int (tl_effects_skipped t),
          ao_outcome_unknown = int (tl_outcome_unknown t),
          ao_verification_attempts = int (tl_verification_attempts t),
          ao_validation_attempts = int (tl_validation_attempts t)\<rparr>)"

definition record_outcome ::
    "host_env \<Rightarrow> onboarding_deps \<Rightarrow> drive_world \<Rightarrow> autonomy_outcome \<Rightarrow> drive_world \<times> bool result" where
  "record_outcome E d W o1 =
     (if \<not> od_outcomes d then (W, Inr False)
      else (case record_autonomy_outcome (he_rd E) (he_known E) (dw_outcomes W) o1 of
          (T, v) \<Rightarrow> (W\<lparr>dw_outcomes := T\<rparr>, v)))"

text \<open>After the loop: the release of the guard's exit, then the outcome, recorded at a
  terminal phase only. The third component counts the releases asked of the store.\<close>

definition finish_drive ::
    "host_env \<Rightarrow> onboarding_deps \<Rightarrow> drive_frame \<Rightarrow> string \<Rightarrow> drive_world \<Rightarrow> walk \<Rightarrow> loop_end \<Rightarrow>
     drive_world \<times> drive_result \<times> nat" where
  "finish_drive E d f run W k how =
     (case how of
        Driving \<Rightarrow> (W, Still_Driving, 0)
      | Loop_Raises e \<Rightarrow>
          (case guard_release release (dw_leases W) (wk_guard k) (fr_released_at f) (fr_releasable f) of
             (T, G, v, asked) \<Rightarrow>
               (W\<lparr>dw_leases := T\<rparr>, Drive_Raised (case v of Inl e' \<Rightarrow> e' | Inr _ \<Rightarrow> e),
                if asked then 1 else 0))
      | Stopped \<Rightarrow>
          (case guard_release release (dw_leases W) (wk_guard k) (fr_released_at f) (fr_releasable f) of
             (T, G, Inl e, asked) \<Rightarrow>
               (W\<lparr>dw_leases := T\<rparr>, Drive_Raised e, if asked then 1 else 0)
           | (T, G, Inr _, asked) \<Rightarrow>
               let W1 = W\<lparr>dw_leases := T\<rparr>;
                   k1 = k\<lparr>wk_tally := adopt_durable_counters E d (dw_db W1) run (wk_tally k)\<rparr>;
                   n = (if asked then 1 else 0)
               in (case make_outcome (outcome_of f run k1) of
                     Inl e \<Rightarrow> (W1, Drive_Raised e, n)
                   | Inr o1 \<Rightarrow>
                       if wk_phase k1 \<in> terminal_phases
                       then (case record_outcome E d W1 o1 of
                               (W2, Inl e) \<Rightarrow> (W2, Drive_Raised e, n)
                             | (W2, Inr _) \<Rightarrow> (W2, Drive_Returned o1, n))
                       else (W1, Drive_Returned o1, n))))"

definition obtain_lease ::
    "host_env \<Rightarrow> onboarding_deps \<Rightarrow> drive_frame \<Rightarrow> string \<Rightarrow> string \<Rightarrow> lease option \<Rightarrow> lease_table \<Rightarrow>
     lease_table \<times> lease option result" where
  "obtain_lease E d f run worker given T =
     (case given of
        None \<Rightarrow> claim (he_known E) T (fr_claimed_at f) run worker (ttl_seconds (od_timings d))
      | Some l \<Rightarrow>
          (T, if lease_run l \<noteq> run \<or> lease_worker l \<noteq> worker
              then Inl (ValueError ''the supplied lease does not belong to this run and worker'')
              else Inr (Some l)))"

definition drive_run ::
    "host_env \<Rightarrow> onboarding_deps \<Rightarrow> drive_frame \<Rightarrow> string \<Rightarrow> string \<Rightarrow> lease option \<Rightarrow> turn list \<Rightarrow>
     drive_world \<Rightarrow> drive_world \<times> drive_result \<times> drive_event list \<times> nat" where
  "drive_run E d f run worker given turns W =
     (case obtain_lease E d f run worker given (dw_leases W) of
        (T, Inl e) \<Rightarrow> (W\<lparr>dw_leases := T\<rparr>, Drive_Raised e, [], 0)
      | (T, Inr None) \<Rightarrow> (W\<lparr>dw_leases := T\<rparr>, Not_Claimable, [], 0)
      | (T, Inr (Some l)) \<Rightarrow>
          let W1 = W\<lparr>dw_leases := T\<rparr>
          in (case (if fr_readable f then history (dw_db W1) run
                    else Inl (RuntimeError ''store unreachable'')) of
                Inl e \<Rightarrow> (W1, Drive_Raised e, [], 0)
              | Inr h \<Rightarrow>
                  (case drive_loop E d run turns W1 (first_walk d f l h) of
                     (W2, k, ev, how) \<Rightarrow>
                       (case finish_drive E d f run W2 k how of
                          (W3, res, n) \<Rightarrow> (W3, res, ev, n)))))"

section \<open>What one iteration does to the history\<close>

text \<open>The phase store only ever appends: of what others do between two calls of the worker
  the proofs use no more.\<close>

definition grows :: "string \<Rightarrow> phase_db \<Rightarrow> phase_db \<Rightarrow> bool" where
  "grows run D D' =
     ((db_ok D \<longrightarrow> db_ok D') \<and> set (db_history D run) \<subseteq> set (db_history D' run))"

definition append_only :: "string \<Rightarrow> turn \<Rightarrow> bool" where
  "append_only run tn =
     (\<forall>W. grows run (dw_db W) (dw_db (tn_before tn W)) \<and>
          grows run (dw_db W) (dw_db (tn_during tn W)))"

lemma grows_refl [simp]: "grows run D D"
  by (simp add: grows_def)

lemma grows_trans: "grows run D D' \<Longrightarrow> grows run D' D'' \<Longrightarrow> grows run D D''"
  unfolding grows_def by blast

lemma counter_grows:
  "next_verification_attempt D run = (D', v) \<Longrightarrow> grows run D D'"
  unfolding grows_def
  by (auto simp: next_verification_attempt_def split: sum.splits dest: advance_counter_ok)
    (auto simp: advance_counter_def Let_def split: option.splits)

lemma captcha_row_grows: "record_captcha_pause D run p = (D', v) \<Longrightarrow> grows run D D'"
  unfolding grows_def
  by (auto dest: captcha_pause_ok)
    (auto simp: record_captcha_pause_def Let_def split: sum.splits option.splits if_splits)

lemma loop_outcome_grows:
  "step_for_loop_outcome pauses budget D run p sid r = (D', v) \<Longrightarrow> grows run D D'"
  by (auto simp: step_for_loop_outcome_def pause_for_captcha_def dest: captcha_row_grows
      split: if_splits sum.splits prod.splits)

lemma drive_verification_grows:
  "drive_verification run tn W t = (W', t', v) \<Longrightarrow> append_only run tn \<Longrightarrow>
   grows run (dw_db W) (dw_db W')"
proof -
  assume d: "drive_verification run tn W t = (W', t', v)" and a: "append_only run tn"
  have during: "grows run (dw_db V) (dw_db (tn_during tn V))" for V
    using a by (simp add: append_only_def)
  show ?thesis
    using d by (auto simp: drive_verification_def dest!: counter_grows split: if_splits sum.splits prod.splits)
      (metis during drive_world.select_convs(1) drive_world.surjective drive_world.update_convs(1) grows_trans)
qed

lemma drive_phase_grows:
  assumes "drive_phase d run tn W k = (W', t, v)" "append_only run tn"
  shows "grows run (dw_db W) (dw_db W')"
proof -
  have during: "grows run (dw_db W) (dw_db (tn_during tn W))"
    using assms(2) by (simp add: append_only_def)
  show ?thesis
    using assms during
    by (auto simp: drive_phase_def Let_def dest: drive_verification_grows
        split: if_splits loop_answer.splits prod.splits dest!: loop_outcome_grows
        intro: grows_trans)
qed

text \<open>A boundary the driver crosses is in the history afterwards, whether it was fresh or
  already there, and it is an edge of the phase table.\<close>

lemma commit_phase_stands:
  assumes "commit_phase known D run c = (D', Inr fresh)"
  shows "is_legal_phase_transition (pc_from c) (pc_to c) \<and> grows run D D' \<and>
    (db_ok D \<longrightarrow> pc_to c \<in> pb_to ` set (db_history D' run))"
proof (cases rule: commit_phase_cases [OF assms])
  case 2
  then show ?thesis
    using violates_unique_iff [of D run "db_states D run" c]
    by (auto simp: commit_ok_def db_ok_def boundary_key_def image_iff)
next
  case 3
  then show ?thesis
    using commit_phase_ok [OF _ assms] by (auto simp: grows_def commit_ok_def boundary_of_def)
qed auto

lemma defer_run_row:
  "defer_run known Q now run nb = (Q', Inr u) \<Longrightarrow>
   map_option not_before (map_of Q' run) = Some nb"
  by (auto simp: defer_run_def run_id_check_def store_identifier_def upsert_ready_def update_conv'
      split: if_splits sum.splits option.splits)

text \<open>A step that does not cross leaves the walk where it is.\<close>

definition stays :: "drive_world \<Rightarrow> walk \<Rightarrow> drive_world \<Rightarrow> walk \<Rightarrow> bool" where
  "stays W k W' k' = (wk_phase k' = wk_phase k \<and>
     tl_captcha_prompts (wk_tally k') = tl_captcha_prompts (wk_tally k) \<and>
     wk_durable k' = wk_durable k \<and> wk_guard k' = wk_guard k \<and> dw_leases W' = dw_leases W)"

definition crosses ::
    "string \<Rightarrow> phase_db \<Rightarrow> walk \<Rightarrow> drive_world \<Rightarrow> walk \<Rightarrow> drive_event list \<Rightarrow> bool" where
  "crosses run D k W' k' ev =
     ((\<exists>fresh. ev = [Crossed (wk_phase k) (wk_phase k') fresh]) \<and> wk_durable k' \<and>
      wk_guard k' = wk_guard k \<and> wk_settled k' = wk_settled k \<and>
      is_legal_phase_transition (Some (wk_phase k)) (wk_phase k') \<and> grows run D (dw_db W') \<and>
      (db_ok D \<longrightarrow> wk_phase k' \<in> pb_to ` set (db_history (dw_db W') run)) \<and>
      (tl_captcha_prompts (wk_tally k') = tl_captcha_prompts (wk_tally k) \<or>
       wk_phase k' = captcha_paused))"

lemma cross_boundary_defers:
  assumes "cross_boundary E run tn W k step = (W', k', ev, how)" "st_kind step = Yield"
  shows "dw_leases W' = dw_leases W \<and> stays W k W' k' \<and> ev = [] \<and> how \<noteq> Go_On \<and>
    (how = Break_Out \<longrightarrow> st_not_before step \<noteq> None \<and>
       map_option not_before (map_of (dw_queue W') run) = st_not_before step)"
proof (cases "st_not_before step")
  case None
  then show ?thesis using assms by (auto simp: cross_boundary_def Let_def stays_def)
next
  case (Some nb)
  obtain Q v where "defer_run (he_known E) (dw_queue W) (tn_queue_now tn) run nb = (Q, v)" by force
  then show ?thesis
    using assms Some by (cases v) (auto simp: cross_boundary_def Let_def stays_def dest: defer_run_row)
qed

lemma after_boundary_fields [simp]:
  "wk_phase (after_boundary tn step digest fresh k) = step_target step"
  "wk_durable (after_boundary tn step digest fresh k)"
  "wk_guard (after_boundary tn step digest fresh k) = wk_guard k"
  "wk_settled (after_boundary tn step digest fresh k) = wk_settled k"
  "wk_tally (after_boundary tn step digest fresh k) =
     tally_boundary fresh (step_target step) (wk_tally k)"
  by (simp_all add: after_boundary_def)

lemma boundary_commit_fields [simp]:
  "pc_from (boundary_commit p a step digest corr) = Some p"
  "pc_to (boundary_commit p a step digest corr) = step_target step"
  by (simp_all add: boundary_commit_def)

lemma tally_boundary_prompts:
  "tl_captcha_prompts (tally_boundary fresh p t) = tl_captcha_prompts t \<or> p = captcha_paused"
  by (simp add: tally_boundary_def)

lemma cross_boundary_commits:
  assumes "cross_boundary E run tn W k step = (W', k', ev, how)" "st_kind step \<noteq> Yield"
  shows "dw_leases W' = dw_leases W \<and>
    (if how = Go_On then crosses run (dw_db W) k W' k' ev
     else stays W k W' k' \<and> ev = [] \<and> how \<noteq> Break_Out)"
proof (cases "boundary_digest step (wk_profile k)")
  case None
  then show ?thesis using assms by (auto simp: cross_boundary_def stays_def)
next
  case digest: (Some digest)
  show ?thesis
  proof (cases "phase_correlation_id (he_sha E) run (wk_phase k) (wk_attempt k)")
    case (Inl e)
    then show ?thesis using assms digest by (auto simp: cross_boundary_def stays_def)
  next
    case corr: (Inr corr)
    obtain D v where com: "commit_phase (he_known E) (dw_db W) run
        (boundary_commit (wk_phase k) (wk_attempt k) step digest corr) = (D, v)" by force
    show ?thesis
    proof (cases v)
      case (Inl e)
      then show ?thesis using assms digest corr com by (auto simp: cross_boundary_def stays_def)
    next
      case (Inr fresh)
      have res: "W' = W\<lparr>dw_db := D\<rparr>" "how = Go_On" "ev = [Crossed (wk_phase k) (step_target step) fresh]"
        "k' = after_boundary tn step digest fresh (k\<lparr>wk_reason := st_reason step\<rparr>)"
        using assms digest corr com Inr by (auto simp: cross_boundary_def Let_def)
      show ?thesis
        using commit_phase_stands [OF com [unfolded Inr]] tally_boundary_prompts
        by (simp add: res crosses_def del: is_legal_phase_transition.simps)
    qed
  qed
qed

lemma cross_boundary_outcome:
  assumes "cross_boundary E run tn W k step = (W', k', ev, how)"
  shows "if how = Go_On then crosses run (dw_db W) k W' k' ev
     else stays W k W' k' \<and> ev = [] \<and>
       (how = Break_Out \<longrightarrow> map_option not_before (map_of (dw_queue W') run) \<noteq> None)"
  using cross_boundary_defers [OF assms] cross_boundary_commits [OF assms]
  by (cases "st_kind step = Yield") auto

lemma drive_phase_tally:
  "drive_phase d run tn W k = (W', t, v) \<Longrightarrow> tl_captcha_prompts t = tl_captcha_prompts (wk_tally k)"
  by (auto simp: drive_phase_def Let_def drive_verification_def tally_record_def
      split: if_splits loop_answer.splits prod.splits sum.splits)

text \<open>What settles before a phase is driven changes neither where the walk stands nor the
  phase store.\<close>

definition same_place :: "walk \<Rightarrow> walk \<Rightarrow> bool" where
  "same_place k k' = (wk_phase k' = wk_phase k \<and> wk_durable k' = wk_durable k \<and>
     wk_guard k' = wk_guard k \<and>
     tl_captcha_prompts (wk_tally k') = tl_captcha_prompts (wk_tally k))"

lemma count_skips_place: "same_place k (count_skips E d run W k)"
  by (simp add: same_place_def count_skips_def)

lemma settle_reroute_place: "settle_reroute d tn k = Inr k' \<Longrightarrow> same_place k k'"
  by (auto simp: same_place_def settle_reroute_def result_simps split: if_splits option.splits sum.splits)

lemma settle_plan_place:
  "settle_plan E d run W k = (W', k', v) \<Longrightarrow> same_place k k' \<and> dw_db W' = dw_db W"
  by (auto simp: same_place_def settle_plan_def split: if_splits prod.splits sum.splits)

text \<open>Where a list of events leads: every crossing is an edge of the phase table from where
  the walk stands, and only the phase the walk stands in is driven.\<close>

fun drive_path :: "phase \<Rightarrow> drive_event list \<Rightarrow> phase \<Rightarrow> bool" where
  "drive_path p [] q = (p = q)"
| "drive_path p (Drove r D # es) q = (r = p \<and> drive_path p es q)"
| "drive_path p (Crossed a b fresh # es) q =
     (a = p \<and> is_legal_phase_transition (Some a) b \<and> drive_path b es q)"

lemma drive_path_append:
  "drive_path p xs q \<Longrightarrow> drive_path q ys r \<Longrightarrow> drive_path p (xs @ ys) r"
  by (induction p xs q rule: drive_path.induct) auto

text \<open>No phase with an effect is driven before a boundary into it is committed.\<close>

definition entries_owned :: "string \<Rightarrow> drive_event list \<Rightarrow> bool" where
  "entries_owned run ev =
     (\<forall>p D. Drove p D \<in> set ev \<and> effect_bearing_phases p \<noteq> None \<longrightarrow>
        p \<in> pb_to ` set (db_history D run))"

definition owned_phase :: "string \<Rightarrow> phase_db \<Rightarrow> walk \<Rightarrow> bool" where
  "owned_phase run D k =
     (db_ok D \<and> (wk_durable k \<longrightarrow> wk_phase k \<in> pb_to ` set (db_history D run)))"

lemma owned_phase_grows:
  "owned_phase run D k \<Longrightarrow> grows run D D' \<Longrightarrow> same_place k k' \<Longrightarrow> owned_phase run D' k'"
  by (auto simp: owned_phase_def grows_def same_place_def)

lemma crosses_owned: "crosses run D k W' k' ev \<Longrightarrow> db_ok D \<Longrightarrow> owned_phase run (dw_db W') k'"
  by (auto simp: crosses_def owned_phase_def grows_def)

lemma drive_step_cases:
  assumes "drive_step E d run tn W k = (W', k', ev, how)"
  obtains (refused) e where "ev = []" "how = Raise_Out e" "same_place k k'"
  | (unplanned) W1 k1 step where "same_place k k1" "dw_db W1 = dw_db W"
      "cross_boundary E run tn W1 k1 step = (W', k', ev, how)"
  | (failed) e where "how = Raise_Out e" "ev = [Drove (wk_phase k) (dw_db W)]" "same_place k k'"
      "wk_durable k \<or> effect_bearing_phases (wk_phase k) = None"
  | (driven) W1 k1 W2 t step ev' where "same_place k (k1\<lparr>wk_tally := t\<rparr>)" "dw_db W1 = dw_db W"
      "drive_phase d run tn W1 k1 = (W2, t, Inr step)"
      "wk_durable k \<or> effect_bearing_phases (wk_phase k) = None"
      "cross_boundary E run tn W2 (k1\<lparr>wk_tally := t\<rparr>) step = (W', k', ev', how)"
      "ev = Drove (wk_phase k) (dw_db W) # ev'"
proof -
  define k1 where "k1 = count_skips E d run W k"
  have k1: "same_place k k1" unfolding k1_def by (rule count_skips_place)
  have may: "wk_durable k \<or> effect_bearing_phases (wk_phase k) = None" if "\<not> (effect_bearing_phases (wk_phase k1) \<noteq> None \<and> \<not> wk_durable k1)"
    using that k1 by (auto simp: same_place_def)
  note step = assms [unfolded drive_step_def Let_def, folded k1_def]
  show ?thesis
  proof (cases "effect_bearing_phases (wk_phase k1) \<noteq> None \<and> \<not> wk_durable k1")
    case True
    then show ?thesis using step k1 refused by auto
  next
    case False
    note may = may [OF False]
    note step = step [unfolded if_not_P [OF False]]
    show ?thesis
    proof (cases "settle_reroute d tn k1")
      case (Inl e)
      then show ?thesis using step k1 refused by auto
    next
      case (Inr k2)
      have k2: "same_place k k2"
        using settle_reroute_place [OF Inr] k1 by (simp add: same_place_def)
      obtain W1 k3 v where plan: "settle_plan E d run W k2 = (W1, k3, v)" by (cases "settle_plan E d run W k2")
      have k3: "same_place k k3" "dw_db W1 = dw_db W" "wk_phase k3 = wk_phase k"
        using settle_plan_place [OF plan] k2 by (auto simp: same_place_def)
      consider (error) e where "v = Inl e" | (refusal) r where "v = Inr (Some r)" | (go) "v = Inr None"
        by (cases v) auto
      then show ?thesis
      proof cases
        case error
        then show ?thesis using step Inr plan k3 refused by auto
      next
        case refusal
        then show ?thesis
          using step Inr plan k3 refused unplanned
          by (cases "pause_on (pf_reason_code r)") auto
      next
        case go
        obtain W2 t u where drive: "drive_phase d run tn W1 k3 = (W2, t, u)"
          by (cases "drive_phase d run tn W1 k3")
        have place: "same_place k (k3\<lparr>wk_tally := t\<rparr>)"
          using drive_phase_tally [OF drive] k3(1) by (simp add: same_place_def)
        show ?thesis
        proof (cases u)
          case (Inl e)
          then show ?thesis using step Inr plan go drive place may failed k3 by auto
        next
          case step': (Inr s)
          obtain W3 k4 ev' how' where
            "cross_boundary E run tn W2 (k3\<lparr>wk_tally := t\<rparr>) s = (W3, k4, ev', how')"
            by (metis prod_cases4)
          then show ?thesis
            using step Inr plan go drive step' k3
              driven [OF place k3(2) drive [unfolded step'] may] by auto
        qed
      qed
    qed
  qed
qed

text \<open>What one iteration does, whatever it answers.\<close>

definition fine_iteration ::
    "string \<Rightarrow> walk \<Rightarrow> drive_world \<Rightarrow> walk \<Rightarrow> drive_event list \<Rightarrow> iteration_end \<Rightarrow> bool" where
  "fine_iteration run k W' k' ev how =
     (drive_path (wk_phase k) ev (wk_phase k') \<and>
      (tl_captcha_prompts (wk_tally k') = tl_captcha_prompts (wk_tally k) \<or>
       how = Go_On \<and> wk_phase k' = captcha_paused))"

lemma cross_boundary_fine:
  assumes "cross_boundary E run tn W k1 step = (W', k', ev, how)" "same_place k k1"
  shows "fine_iteration run k W' k' ev how"
  using cross_boundary_outcome [OF assms(1)] assms(2)
  by (auto simp: fine_iteration_def stays_def crosses_def same_place_def
      simp del: is_legal_phase_transition.simps split: if_splits)

lemma drive_step_fine:
  assumes "drive_step E d run tn W k = (W', k', ev, how)"
  shows "fine_iteration run k W' k' ev how"
  using assms
proof (cases rule: drive_step_cases)
  case (unplanned W1 k1 step)
  then show ?thesis by (auto intro: cross_boundary_fine)
next
  case (driven W1 k1 W2 t step ev')
  then show ?thesis using cross_boundary_fine [OF driven(5,1)] by (simp add: fine_iteration_def)
qed (auto simp: fine_iteration_def same_place_def)

lemma cross_boundary_owned:
  assumes "cross_boundary E run tn W k step = (W', k', ev, how)" "db_ok (dw_db W)"
  shows "(\<forall>p D. Drove p D \<notin> set ev) \<and> (how = Go_On \<longrightarrow> owned_phase run (dw_db W') k')"
proof (cases "how = Go_On")
  case True
  then have c: "crosses run (dw_db W) k W' k' ev" using cross_boundary_outcome [OF assms(1)] by simp
  then have "\<forall>p D. Drove p D \<notin> set ev" unfolding crosses_def by auto
  then show ?thesis using crosses_owned [OF c assms(2)] by simp
next
  case False
  then show ?thesis using cross_boundary_outcome [OF assms(1)] by simp
qed

lemma drive_step_owned:
  assumes "drive_step E d run tn W k = (W', k', ev, how)" "append_only run tn"
    "owned_phase run (dw_db W) k"
  shows "entries_owned run ev \<and> (how = Go_On \<longrightarrow> owned_phase run (dw_db W') k')"
  using assms(1)
proof (cases rule: drive_step_cases)
  case (unplanned W1 k1 step)
  have "db_ok (dw_db W1)" using assms(3) unplanned by (simp add: owned_phase_def)
  then show ?thesis
    using cross_boundary_owned [OF unplanned(3)] by (simp add: entries_owned_def)
next
  case failed
  then show ?thesis using assms(3) by (auto simp: entries_owned_def owned_phase_def)
next
  case (driven W1 k1 W2 t step ev')
  have "db_ok (dw_db W2)"
    using drive_phase_grows [OF driven(3) assms(2)] assms(3) driven(2)
    by (auto simp: grows_def owned_phase_def)
  then show ?thesis
    using cross_boundary_owned [OF driven(5)] driven(4,6) assms(3)
    by (auto simp: entries_owned_def owned_phase_def)
qed (auto simp: entries_owned_def)

section \<open>What a drive does to the history\<close>

lemma drive_iteration_step:
  assumes "drive_iteration E d run tn W k = (W', k', ev, how)"
  obtains (fenced) "how = Break_Out" "ev = []" "same_place k (k'\<lparr>wk_guard := wk_guard k\<rparr>)"
      "g_status (wk_guard k') \<noteq> Guard_Ok"
  | (step) T G where
      "drive_step E d run tn ((tn_before tn W)\<lparr>dw_leases := T\<rparr>) (k\<lparr>wk_guard := G\<rparr>) = (W', k', ev, how)"
proof -
  obtain T G c where check: "before_step renew (dw_leases (tn_before tn W)) (wk_guard k) (tn_now tn)
      (tn_snow tn) (tn_reachable tn) = (T, G, c)" by (metis prod_cases3)
  show ?thesis
  proof (cases "may_drive c")
    case True
    then show ?thesis using assms check step by (auto simp: drive_iteration_def Let_def)
  next
    case False
    have "g_status G \<noteq> Guard_Ok"
      using check False by (auto simp: before_step_def may_drive_def unconfirmed_def Let_def
          split: if_splits prod.splits sum.splits option.splits)
    then show ?thesis using assms check False fenced
      by (auto simp: drive_iteration_def Let_def same_place_def)
  qed
qed

lemma drive_iteration_fine:
  assumes "drive_iteration E d run tn W k = (W', k', ev, how)"
  shows "fine_iteration run k W' k' ev how"
  using assms
proof (cases rule: drive_iteration_step)
  case (step T G)
  then show ?thesis using drive_step_fine by (fastforce simp: fine_iteration_def)
qed (auto simp: fine_iteration_def same_place_def)

lemma drive_iteration_owned:
  assumes "drive_iteration E d run tn W k = (W', k', ev, how)" "append_only run tn"
    "owned_phase run (dw_db W) k"
  shows "entries_owned run ev \<and> (how = Go_On \<longrightarrow> owned_phase run (dw_db W') k')"
  using assms(1)
proof (cases rule: drive_iteration_step)
  case (step T G)
  have "owned_phase run (dw_db ((tn_before tn W)\<lparr>dw_leases := T\<rparr>)) (k\<lparr>wk_guard := G\<rparr>)"
    using assms(2,3) by (auto simp: append_only_def grows_def owned_phase_def)
  then show ?thesis using drive_step_owned [OF step assms(2)] by simp
qed (simp add: entries_owned_def)

lemma drive_iteration_break:
  assumes "drive_iteration E d run tn W k = (W', k', ev, Break_Out)"
  shows "g_status (wk_guard k') \<noteq> Guard_Ok \<or> map_of (dw_queue W') run \<noteq> None"
  using assms
proof (cases rule: drive_iteration_step)
  case (step T G)
  from step show ?thesis
    by (cases rule: drive_step_cases) (auto dest: cross_boundary_outcome)
qed simp

lemma drive_loop_rest:
  "at_rest (wk_phase k) \<Longrightarrow> drive_loop E d run tns W k = (W', k', ev, how) \<Longrightarrow>
   W' = W \<and> k' = k \<and> ev = [] \<and> how = Stopped"
  by (cases tns) auto

lemma drive_loop_fine:
  "drive_loop E d run tns W k = (W', k', ev, how) \<Longrightarrow>
   drive_path (wk_phase k) ev (wk_phase k') \<and>
   (tl_captcha_prompts (wk_tally k') = tl_captcha_prompts (wk_tally k) \<or>
    wk_phase k' = captcha_paused) \<and>
   (how = Stopped \<longrightarrow> at_rest (wk_phase k') \<or> g_status (wk_guard k') \<noteq> Guard_Ok \<or>
      map_of (dw_queue W') run \<noteq> None)"
proof (induction tns arbitrary: W k ev W' k' how)
  case (Cons tn tns)
  show ?case
  proof (cases "at_rest (wk_phase k)")
    case True
    then show ?thesis using Cons.prems by simp
  next
    case False
    obtain W1 k1 ev1 e where it: "drive_iteration E d run tn W k = (W1, k1, ev1, e)"
      by (metis prod_cases4)
    note fine = drive_iteration_fine [OF it, unfolded fine_iteration_def]
    show ?thesis
    proof (cases e)
      case Go_On
      obtain W2 k2 ev2 how2 where rest: "drive_loop E d run tns W1 k1 = (W2, k2, ev2, how2)"
        by (metis prod_cases4)
      have eq: "W' = W2" "k' = k2" "ev = ev1 @ ev2" "how = how2"
        using Cons.prems False it Go_On rest by auto
      show ?thesis
        using Cons.IH [OF rest] fine drive_path_append drive_loop_rest [OF _ rest] unfolding eq
        by (cases "wk_phase k1 = captcha_paused") (auto simp: at_rest_def waiting_phases_def)
    next
      case Break_Out
      then show ?thesis using Cons.prems False it fine drive_iteration_break [of E d run tn W k W1 k1 ev1] by auto
    next
      case (Raise_Out x)
      then show ?thesis using Cons.prems False it fine by auto
    qed
  qed
qed auto

lemma drive_loop_owned:
  "drive_loop E d run tns W k = (W', k', ev, how) \<Longrightarrow> \<forall>tn\<in>set tns. append_only run tn \<Longrightarrow>
   owned_phase run (dw_db W) k \<Longrightarrow> entries_owned run ev"
proof (induction tns arbitrary: W k ev W' k' how)
  case (Cons tn tns)
  obtain W1 k1 ev1 e where it: "drive_iteration E d run tn W k = (W1, k1, ev1, e)"
    by (metis prod_cases4)
  have own: "entries_owned run ev1 \<and> (e = Go_On \<longrightarrow> owned_phase run (dw_db W1) k1)"
    using drive_iteration_owned [OF it] Cons.prems by simp
  obtain W2 k2 ev2 how2 where rest: "drive_loop E d run tns W1 k1 = (W2, k2, ev2, how2)"
    by (metis prod_cases4)
  show ?case
    using Cons.prems Cons.IH [OF rest] it own rest
    by (cases e) (auto simp: entries_owned_def split: if_splits)
qed (simp add: entries_owned_def)

text \<open>The guard of a walk stays the guard of the lease the drive began with.\<close>

definition guards :: "lease \<Rightarrow> lease_guard \<Rightarrow> bool" where
  "guards l G = (lease_run (g_lease G) = lease_run l \<and> lease_worker (g_lease G) = lease_worker l \<and>
     fencing_token (g_lease G) = fencing_token l \<and> \<not> g_released G)"

lemma before_step_guards:
  "before_step renew T G now snow ok = (T', G', c) \<Longrightarrow> guards l G \<Longrightarrow> guards l G'"
  by (auto simp: before_step_def unconfirmed_def renew_def guards_def Let_def
      split: if_splits prod.splits sum.splits option.splits)

lemma drive_step_guard:
  assumes "drive_step E d run tn W k = (W', k', ev, how)"
  shows "wk_guard k' = wk_guard k"
  using assms
proof (cases rule: drive_step_cases)
  case (unplanned W1 k1 step)
  then show ?thesis using cross_boundary_outcome [OF unplanned(3)]
    by (auto simp: same_place_def stays_def crosses_def split: if_splits)
next
  case (driven W1 k1 W2 t step ev')
  then show ?thesis using cross_boundary_outcome [OF driven(5)]
    by (auto simp: same_place_def stays_def crosses_def split: if_splits)
qed (auto simp: same_place_def)

lemma drive_iteration_guards:
  assumes "drive_iteration E d run tn W k = (W', k', ev, how)" "guards l (wk_guard k)"
  shows "guards l (wk_guard k')"
proof -
  obtain T G c where check: "before_step renew (dw_leases (tn_before tn W)) (wk_guard k) (tn_now tn)
      (tn_snow tn) (tn_reachable tn) = (T, G, c)" by (metis prod_cases3)
  show ?thesis
    using assms check before_step_guards [OF check assms(2)]
    by (auto simp: drive_iteration_def Let_def dest: drive_step_guard split: if_splits)
qed

lemma drive_loop_guards:
  "drive_loop E d run tns W k = (W', k', ev, how) \<Longrightarrow> guards l (wk_guard k) \<Longrightarrow> guards l (wk_guard k')"
proof (induction tns arbitrary: W k ev W' k' how)
  case (Cons tn tns)
  obtain W1 k1 ev1 e where it: "drive_iteration E d run tn W k = (W1, k1, ev1, e)"
    by (metis prod_cases4)
  obtain W2 k2 ev2 how2 where rest: "drive_loop E d run tns W1 k1 = (W2, k2, ev2, how2)"
    by (metis prod_cases4)
  show ?case
    using Cons.prems it rest drive_iteration_guards [OF it] Cons.IH [OF rest]
    by (cases e) (auto split: if_splits)
qed simp

lemma make_guard_guards [simp]: "guards l (make_guard l tm now)"
  by (simp add: guards_def make_guard_def)

lemma guard_release_done:
  assumes "guard_release release T G now ok = (T', G', v, asked)" "guards l G"
  shows "asked \<and> (ok \<longrightarrow> (\<forall>r. map_of T' (lease_run l) = Some r \<longrightarrow> \<not> owns_row l r))"
proof (cases "map_of T (lease_run l)")
  case None
  then show ?thesis
    using assms by (auto simp: guard_release_def guards_def release_def Let_def split: if_splits)
next
  case (Some r)
  then show ?thesis
    using assms by (auto simp: guard_release_def guards_def release_def owns_row_def Let_def
        update_conv' split: if_splits)
qed

lemma record_outcome_keeps:
  "record_outcome E d W o1 = (W', v) \<Longrightarrow> dw_leases W' = dw_leases W \<and> dw_db W' = dw_db W"
  by (auto simp: record_outcome_def split: if_splits prod.splits)

lemma finish_drive_releases:
  assumes "finish_drive E d f run W k how = (W', res, n)" "guards l (wk_guard k)"
  shows "(if how = Driving then res = Still_Driving \<and> n = 0
    else res \<noteq> Still_Driving \<and> n = 1 \<and>
      (fr_releasable f \<longrightarrow> (\<forall>r. map_of (dw_leases W') (lease_run l) = Some r \<longrightarrow> \<not> owns_row l r)))"
proof -
  obtain T G v asked where g: "guard_release release (dw_leases W) (wk_guard k) (fr_released_at f)
      (fr_releasable f) = (T, G, v, asked)" by (metis prod_cases4)
  note released = guard_release_done [OF g assms(2)]
  show ?thesis
    using assms(1) g released
    by (cases how; cases v)
      (auto simp: finish_drive_def Let_def dest!: record_outcome_keeps
        split: sum.splits if_splits prod.splits)
qed

lemma obtain_lease_names:
  "obtain_lease E d f run worker given T = (T', Inr (Some l)) \<Longrightarrow> lease_run l = run"
  by (auto simp: obtain_lease_def claim_row_def Let_def dest!: claim_Inr
      split: option.splits if_splits)

text \<open>How a drive that got its lease goes on.\<close>

lemma drive_run_unfold:
  assumes "drive_run E d f run worker given turns W = (W', res, ev, n)"
  obtains (none) "ev = []" "n = 0" "\<forall>o1. res \<noteq> Drive_Returned o1" "res \<noteq> Still_Driving"
      "\<forall>T l. obtain_lease E d f run worker given (dw_leases W) \<noteq> (T, Inr (Some l))"
  | (unread) T l e where "obtain_lease E d f run worker given (dw_leases W) = (T, Inr (Some l))"
      "ev = []" "n = 0" "res = Drive_Raised e" "W' = W\<lparr>dw_leases := T\<rparr>"
      "\<not> fr_readable f \<or> (\<exists>e. history (dw_db W) run = Inl e)"
  | (driven) T l h W2 k how where
      "obtain_lease E d f run worker given (dw_leases W) = (T, Inr (Some l))"
      "fr_readable f" "history (dw_db W) run = Inr h"
      "drive_loop E d run turns (W\<lparr>dw_leases := T\<rparr>) (first_walk d f l h) = (W2, k, ev, how)"
      "finish_drive E d f run W2 k how = (W', res, n)"
proof -
  obtain T v where v: "obtain_lease E d f run worker given (dw_leases W) = (T, v)" by force
  consider (e) e where "v = Inl e" | (no) "v = Inr None" | (l) l where "v = Inr (Some l)"
    by (cases v) auto
  then show ?thesis
  proof cases
    case e
    then show ?thesis using assms v none by (auto simp: drive_run_def)
  next
    case no
    then show ?thesis using assms v none by (auto simp: drive_run_def)
  next
    case l
    show ?thesis
    proof (cases "fr_readable f \<and> (\<exists>h. history (dw_db W) run = Inr h)")
      case False
      then show ?thesis
        using assms v l unread by (cases "history (dw_db W) run"; cases "fr_readable f") (auto simp: drive_run_def Let_def)
    next
      case True
      then obtain h where h: "history (dw_db W) run = Inr h" by blast
      obtain W2 k ev2 how where loop:
        "drive_loop E d run turns (W\<lparr>dw_leases := T\<rparr>) (first_walk d f l h) = (W2, k, ev2, how)"
        by (metis prod_cases4)
      obtain W3 r m where "finish_drive E d f run W2 k how = (W3, r, m)" by (metis prod_cases3)
      then show ?thesis
        using assms v l True h loop driven by (auto simp: drive_run_def Let_def)
    qed
  qed
qed

lemma first_walk_fields [simp]:
  "wk_phase (first_walk d f l h) = fst (resumption_phase h)"
  "wk_guard (first_walk d f l h) = make_guard l (od_timings d) (fr_guard_now f)"
  "tl_captcha_prompts (wk_tally (first_walk d f l h)) = 0"
  "wk_durable (first_walk d f l h) = (h \<noteq> [])"
  by (simp_all add: first_walk_def empty_tally_def)

lemma first_walk_owned:
  "db_ok D \<Longrightarrow> owned_phase run D (first_walk d f l (db_history D run))"
  by (auto simp: owned_phase_def resumption_phase_last)

lemma adopt_counters_prompts [simp]:
  "tl_captcha_prompts (adopt_durable_counters E d D run t) = tl_captcha_prompts t"
  by (auto simp: adopt_durable_counters_def Let_def split: sum.splits)

lemma finish_drive_returns:
  assumes "finish_drive E d f run W k how = (W', Drive_Returned o1, n)"
  shows "how = Stopped \<and> ao_run_id o1 = run \<and> ao_terminal_phase o1 = wk_phase k \<and>
    ao_captcha_prompts o1 = int (tl_captcha_prompts (wk_tally k)) \<and>
    ao_verdict o1 = autonomy_verdict (wk_phase k) (tl_captcha_prompts (wk_tally k)) \<and>
    make_outcome o1 = Inr o1 \<and>
    (if wk_phase k \<in> terminal_phases
     then \<exists>W1 fresh. dw_outcomes W1 = dw_outcomes W \<and> record_outcome E d W1 o1 = (W', Inr fresh)
     else dw_outcomes W' = dw_outcomes W)"
proof (cases how)
  case Stopped
  obtain T G v asked where g: "guard_release release (dw_leases W) (wk_guard k) (fr_released_at f)
      (fr_releasable f) = (T, G, v, asked)" by (metis prod_cases4)
  define k1 where "k1 = k\<lparr>wk_tally := adopt_durable_counters E d (dw_db W) run (wk_tally k)\<rparr>"
  define o2 where "o2 = outcome_of f run k1"
  have same: "make_outcome x = Inr y \<Longrightarrow> x = y" for x y
    by (auto simp: make_outcome_def result_simps Let_def split: if_splits)
  have "v \<noteq> Inl e" for e using assms g Stopped by (auto simp: finish_drive_def)
  then obtain b where b: "v = Inr b" by (cases v) auto
  have fields: "ao_run_id o2 = run" "ao_terminal_phase o2 = wk_phase k"
    "ao_captcha_prompts o2 = int (tl_captcha_prompts (wk_tally k))"
    "ao_verdict o2 = autonomy_verdict (wk_phase k) (tl_captcha_prompts (wk_tally k))"
    by (simp_all add: o2_def k1_def outcome_of_def Let_def)
  have res: "make_outcome o2 = Inr o2" "o1 = o2"
    "if wk_phase k \<in> terminal_phases
     then \<exists>fresh. record_outcome E d (W\<lparr>dw_leases := T\<rparr>) o1 = (W', Inr fresh)
     else W' = W\<lparr>dw_leases := T\<rparr>"
    using assms g b Stopped same
    by (auto simp: finish_drive_def Let_def o2_def k1_def split: sum.splits if_splits prod.splits)
  then show ?thesis
    using Stopped fields by (auto intro!: exI [of _ "W\<lparr>dw_leases := T\<rparr>"])
qed (use assms in \<open>auto simp: finish_drive_def split: prod.splits\<close>)

text \<open>The loop itself records no outcome.\<close>

definition quiet :: "turn \<Rightarrow> bool" where
  "quiet tn = (\<forall>V. dw_outcomes (tn_before tn V) = dw_outcomes V \<and>
     dw_outcomes (tn_during tn V) = dw_outcomes V)"

lemma cross_boundary_quiet:
  "cross_boundary E run tn W k step = (W', k', ev, how) \<Longrightarrow> dw_outcomes W' = dw_outcomes W"
  by (auto simp: cross_boundary_def Let_def split: if_splits option.splits sum.splits prod.splits)

lemma drive_phase_quiet:
  "drive_phase d run tn W k = (W', t, v) \<Longrightarrow> quiet tn \<Longrightarrow> dw_outcomes W' = dw_outcomes W"
  by (auto simp: quiet_def drive_phase_def drive_verification_def Let_def
      split: if_splits loop_answer.splits sum.splits prod.splits)

lemma settle_plan_quiet:
  "settle_plan E d run W k = (W', k', v) \<Longrightarrow> dw_outcomes W' = dw_outcomes W"
  by (auto simp: settle_plan_def split: if_splits prod.splits sum.splits)

lemma drive_step_quiet:
  "drive_step E d run tn W k = (W', k', ev, how) \<Longrightarrow> quiet tn \<Longrightarrow> dw_outcomes W' = dw_outcomes W"
  by (auto simp: drive_step_def Let_def split: if_splits sum.splits option.splits prod.splits
      dest!: settle_plan_quiet drive_phase_quiet cross_boundary_quiet)

lemma drive_iteration_quiet:
  "drive_iteration E d run tn W k = (W', k', ev, how) \<Longrightarrow> quiet tn \<Longrightarrow> dw_outcomes W' = dw_outcomes W"
  by (auto simp: drive_iteration_def Let_def quiet_def split: if_splits prod.splits
      dest!: drive_step_quiet)

lemma drive_loop_quiet:
  "drive_loop E d run tns W k = (W', k', ev, how) \<Longrightarrow> \<forall>tn\<in>set tns. quiet tn \<Longrightarrow>
   dw_outcomes W' = dw_outcomes W"
proof (induction tns arbitrary: W k ev W' k' how)
  case (Cons tn tns)
  obtain W1 k1 ev1 e where it: "drive_iteration E d run tn W k = (W1, k1, ev1, e)"
    by (metis prod_cases4)
  obtain W2 k2 ev2 how2 where rest: "drive_loop E d run tns W1 k1 = (W2, k2, ev2, how2)"
    by (metis prod_cases4)
  show ?case
    using Cons.prems it rest drive_iteration_quiet [OF it] Cons.IH [OF rest]
    by (cases e) (auto split: if_splits)
qed simp

section \<open>Properties\<close>

definition standing_phase :: "phase_db \<Rightarrow> string \<Rightarrow> phase" where
  "standing_phase D run = (if db_history D run = [] then research else pb_to (last (db_history D run)))"

lemma first_walk_stands:
  "history D run = Inr h \<Longrightarrow> db_ok D \<Longrightarrow> wk_phase (first_walk d f l h) = standing_phase D run"
  using history_Inr [of D run h] by (simp add: standing_phase_def resumption_phase_last initial_phase_def)

text \<open>C16. A drive walks the phase table from where the run stands: it resumes at the phase
  of the last committed boundary, drives only the phase it stands in, every boundary it
  crosses is an edge of the table, and the phase an outcome reports is where this walk
  ends.\<close>

theorem drive_walks_phase_table:
  "drive_run E d f run worker given turns W = (W', res, ev, n) \<Longrightarrow> db_ok (dw_db W) \<Longrightarrow>
   \<exists>q. drive_path (standing_phase (dw_db W) run) ev q \<and>
      (\<forall>o1. res = Drive_Returned o1 \<longrightarrow> ao_run_id o1 = run \<and> ao_terminal_phase o1 = q)"
proof -
  assume d: "drive_run E d f run worker given turns W = (W', res, ev, n)" and ok: "db_ok (dw_db W)"
  from d show ?thesis
  proof (cases rule: drive_run_unfold)
    case (driven T l h W2 k how)
    then show ?thesis
      using drive_loop_fine [OF driven(4)] first_walk_stands [OF driven(3) ok] finish_drive_returns
      by (auto intro!: exI [of _ "wk_phase k"])
  qed (auto intro!: exI [of _ "standing_phase (dw_db W) run"])
qed

text \<open>C2. No effect before its boundary: when every other writer only appends to the phase
  history, a phase that may reserve a provider-visible effect is driven only at a time
  when the history already holds a committed boundary into it.\<close>

theorem drive_effects_owned:
  "drive_run E d f run worker given turns W = (W', res, ev, n) \<Longrightarrow> db_ok (dw_db W) \<Longrightarrow>
   \<forall>tn\<in>set turns. append_only run tn \<Longrightarrow> Drove p D \<in> set ev \<Longrightarrow>
   effect_bearing_phases p \<noteq> None \<Longrightarrow> \<exists>b\<in>set (db_history D run). pb_to b = p"
proof -
  assume d: "drive_run E d f run worker given turns W = (W', res, ev, n)" and ok: "db_ok (dw_db W)"
    and app: "\<forall>tn\<in>set turns. append_only run tn" and e: "Drove p D \<in> set ev"
    and eff: "effect_bearing_phases p \<noteq> None"
  from d have "entries_owned run ev"
  proof (cases rule: drive_run_unfold)
    case (driven T l h W2 k how)
    have "owned_phase run (dw_db (W\<lparr>dw_leases := T\<rparr>)) (first_walk d f l h)"
      using first_walk_owned [OF ok] history_Inr [OF driven(3) ok] ok by simp
    then show ?thesis using drive_loop_owned [OF driven(4) app] by blast
  qed (simp_all add: entries_owned_def)
  then show ?thesis using e eff unfolding entries_owned_def by blast
qed

text \<open>The lease of a drive: once the history is read the guard releases it exactly once
  whatever the loop does, and a reachable store then holds no row this lease owns; but
  when the history cannot be read, the lease taken just before is kept and never
  released.\<close>

theorem drive_releases_lease_once:
  "obtain_lease E d f run worker given (dw_leases W) = (T, Inr (Some l)) \<Longrightarrow>
   drive_run E d f run worker given turns W = (W', res, ev, n) \<Longrightarrow>
   (if fr_readable f \<and> (\<exists>h. history (dw_db W) run = Inr h)
    then res = Still_Driving \<and> n = 0 \<or> n = 1 \<and> res \<noteq> Still_Driving \<and>
      (fr_releasable f \<longrightarrow> (\<forall>r. map_of (dw_leases W') run = Some r \<longrightarrow> \<not> owns_row l r))
    else n = 0 \<and> dw_leases W' = T \<and> (\<exists>e. res = Drive_Raised e))"
proof -
  assume lease: "obtain_lease E d f run worker given (dw_leases W) = (T, Inr (Some l))"
    and d: "drive_run E d f run worker given turns W = (W', res, ev, n)"
  from d show ?thesis
  proof (cases rule: drive_run_unfold)
    case (driven T' l' h W2 k how)
    have same: "l' = l" using lease driven(1) by simp
    have g: "guards l (wk_guard k)" using drive_loop_guards [OF driven(4), of l] same by simp
    show ?thesis
      using finish_drive_releases [OF driven(5) g] driven(2,3) obtain_lease_names [OF lease]
      by (auto split: if_splits)
  qed (use lease in auto)
qed

text \<open>What a drive counts as captcha prompts are the ones of its own walk, and a walk ends
  at its first captcha pause. So an outcome of a completed run always counts none and is
  always fully autonomous, however many prompts the run has emitted before.\<close>

theorem completed_drive_is_fully_autonomous:
  "drive_run E d f run worker given turns W = (W', Drive_Returned o1, ev, n) \<Longrightarrow>
   ao_terminal_phase o1 \<noteq> captcha_paused \<Longrightarrow>
   ao_captcha_prompts o1 = 0 \<and>
   (ao_terminal_phase o1 = completed \<longrightarrow> ao_verdict o1 = Fully_Autonomous \<and> is_fully_autonomous o1)"
proof -
  assume d: "drive_run E d f run worker given turns W = (W', Drive_Returned o1, ev, n)"
    and p: "ao_terminal_phase o1 \<noteq> captcha_paused"
  have other: "make_outcome o1 = Inr o1 \<Longrightarrow> ao_other_operator_prompts o1 = 0"
    by (auto simp: make_outcome_def result_simps Let_def split: if_splits)
  from d show ?thesis
  proof (cases rule: drive_run_unfold)
    case (driven T l h W2 k how)
    note ret = finish_drive_returns [OF driven(5)]
    have "tl_captcha_prompts (wk_tally k) = 0"
      using drive_loop_fine [OF driven(4)] ret p by simp
    then show ?thesis using ret other by (simp add: autonomy_verdict_def is_fully_autonomous_def)
  qed auto
qed

text \<open>An outcome is recorded at a terminal phase and nowhere else: a drive that answers an
  outcome at a terminal phase leaves one recorded under the run, its own unless an
  earlier one stands, and a run that paused, was deferred or was fenced out has none
  recorded by the drive's end.\<close>

theorem drive_records_terminal_outcome_only:
  "drive_run E d f run worker given turns W = (W', Drive_Returned o1, ev, n) \<Longrightarrow>
   \<forall>tn\<in>set turns. quiet tn \<Longrightarrow>
   dw_outcomes W' =
     (if ao_terminal_phase o1 \<in> terminal_phases \<and> od_outcomes d \<and> dw_outcomes W run = None
      then (dw_outcomes W)(run \<mapsto> o1) else dw_outcomes W)"
proof -
  assume d: "drive_run E d f run worker given turns W = (W', Drive_Returned o1, ev, n)"
    and q: "\<forall>tn\<in>set turns. quiet tn"
  from d show ?thesis
  proof (cases rule: drive_run_unfold)
    case (driven T l h W2 k how)
    note ret = finish_drive_returns [OF driven(5)]
    have W2: "dw_outcomes W2 = dw_outcomes W" using drive_loop_quiet [OF driven(4) q] by simp
    have rec: "dw_outcomes W' = (if od_outcomes d \<and> dw_outcomes V run = None
        then (dw_outcomes V)(run \<mapsto> o1) else dw_outcomes V)"
      if "record_outcome E d V o1 = (W', Inr fresh)" for V fresh
      using that ret record_outcome_table [of o1 "he_rd E" "he_known E" "dw_outcomes V"]
      by (fastforce simp: record_outcome_def split: if_splits prod.splits)
    show ?thesis
    proof (cases "wk_phase k \<in> terminal_phases")
      case True
      then obtain V fresh where "dw_outcomes V = dw_outcomes W2" "record_outcome E d V o1 = (W', Inr fresh)"
        using ret by auto
      then show ?thesis using rec W2 ret True by simp
    next
      case False
      then show ?thesis using ret W2 by simp
    qed
  qed auto
qed

section \<open>Witnesses\<close>

definition sample_env :: host_env where
  "sample_env = \<lparr>he_sha = sample_sha, he_known = all_runs, he_rd = id, he_v6 = (\<lambda>_. False),
     he_jlen = length\<rparr>"

definition sample_deps :: onboarding_deps where
  "sample_deps = \<lparr>od_handler = (\<lambda>_. True), od_verification = False, od_pauses = True,
     od_captcha_budget = 3, od_effects = False, od_logins = False, od_outcomes = True,
     od_plans = False, od_planner = None, od_catalog = (\<lambda>_. None), od_timings = default_timings\<rparr>"

definition sample_frame :: drive_frame where
  "sample_frame = \<lparr>fr_claimed_at = 0, fr_started = 0, fr_guard_now = 0, fr_readable = True,
     fr_profiles = (\<lambda>_. None), fr_profile_for_run = Some \<lparr>pp_digest = digest64, pp_app_slug = ''app''\<rparr>,
     fr_released_at = 1000000, fr_releasable = True, fr_ended = 1000000\<rparr>"

text \<open>A turn whose handler answers a given step.\<close>

definition sample_turn :: "phase_step \<Rightarrow> turn" where
  "sample_turn step = \<lparr>tn_before = id, tn_now = 0, tn_snow = 0, tn_reachable = True, tn_during = id,
     tn_handler = Inr step, tn_verification = (\<lambda>_. Inr step), tn_session_id = ''s1'',
     tn_loop = Loop_Undecided ''none'', tn_references = Inr [], tn_profiles = (\<lambda>_. None),
     tn_queue_now = 0\<rparr>"

definition cancel_step :: phase_step where
  "cancel_step = \<lparr>st_kind = Advance, st_reason = ''operator_cancelled'', st_next = Some cancelled,
     st_not_before = None, st_digest = None\<rparr>"

definition world_with :: "phase_db \<Rightarrow> drive_world" where
  "world_with D = \<lparr>dw_db = D, dw_leases = [], dw_plans = [], dw_queue = [], dw_outcomes = Map.empty\<rparr>"

lemma sample_turn_facts: "append_only run (sample_turn step)" "quiet (sample_turn step)"
  by (simp_all add: append_only_def quiet_def sample_turn_def)

lemma sample_drive:
  "case drive_run sample_env sample_deps sample_frame ''r1'' ''w1'' None [sample_turn cancel_step]
      (world_with signup_db) of (W', res, ev, n) \<Rightarrow>
     n = 1 \<and> (case res of Drive_Returned o1 \<Rightarrow> ao_terminal_phase o1 = cancelled | _ \<Rightarrow> False) \<and>
     length ev = Suc (Suc 0) \<and> (case hd ev of Drove p D \<Rightarrow> p = signup | _ \<Rightarrow> False) \<and>
     (case last ev of Crossed a b fresh \<Rightarrow> a = signup \<and> b = cancelled \<and> fresh | _ \<Rightarrow> False)"
  by code_simp

abbreviation (input) sample_run :: "phase_db \<Rightarrow> drive_world \<times> drive_result \<times> drive_event list \<times> nat" where
  "sample_run D \<equiv> drive_run sample_env sample_deps sample_frame ''r1'' ''w1'' None
     [sample_turn cancel_step] (world_with D)"

lemma sample_drive_obtain:
  obtains W' o1 D where
    "sample_run signup_db = (W', Drive_Returned o1, [Drove signup D, Crossed signup cancelled True], 1)"
    "ao_terminal_phase o1 = cancelled"
  using sample_drive
  by (auto simp: length_Suc_conv split: prod.splits drive_result.splits drive_event.splits)

lemma drive_walks_phase_table_witness:
  "\<exists>W' o1 ev. sample_run signup_db = (W', Drive_Returned o1, ev, 1) \<and> length ev = 2 \<and>
     drive_path (standing_phase signup_db ''r1'') ev (ao_terminal_phase o1)"
proof -
  obtain W' o1 D where r: "sample_run signup_db =
      (W', Drive_Returned o1, [Drove signup D, Crossed signup cancelled True], 1)"
    by (rule sample_drive_obtain)
  have "db_ok (dw_db (world_with signup_db))" by (simp add: world_with_def signup_db_ok)
  then show ?thesis using drive_walks_phase_table [OF r] r by (auto simp: world_with_def)
qed

lemma drive_effects_owned_witness:
  "\<exists>W' res D ev n. sample_run signup_db = (W', res, Drove signup D # ev, n) \<and>
     (\<exists>b\<in>set (db_history D ''r1''). pb_to b = signup)"
proof -
  obtain W' o1 D where r: "sample_run signup_db =
      (W', Drive_Returned o1, [Drove signup D, Crossed signup cancelled True], 1)"
    by (rule sample_drive_obtain)
  have "db_ok (dw_db (world_with signup_db))" by (simp add: world_with_def signup_db_ok)
  then have "\<exists>b\<in>set (db_history D ''r1''). pb_to b = signup"
    using drive_effects_owned [OF r, of signup D] by (simp add: sample_turn_facts)
  then show ?thesis using r by blast
qed

lemma drive_releases_lease_once_witness:
  "\<exists>T l W' res ev. obtain_lease sample_env sample_deps sample_frame ''r1'' ''w1'' None [] =
       (T, Inr (Some l)) \<and>
     sample_run signup_db = (W', res, ev, 1) \<and>
     \<not> (\<exists>r. map_of (dw_leases W') ''r1'' = Some r \<and> owns_row l r)"
proof -
  obtain W' o1 D where r: "sample_run signup_db =
      (W', Drive_Returned o1, [Drove signup D, Crossed signup cancelled True], 1)"
    by (rule sample_drive_obtain)
  have "case obtain_lease sample_env sample_deps sample_frame ''r1'' ''w1'' None [] of
      (T, Inr (Some l)) \<Rightarrow> True | _ \<Rightarrow> False" by code_simp
  then obtain T l where l: "obtain_lease sample_env sample_deps sample_frame ''r1'' ''w1'' None
      (dw_leases (world_with signup_db)) = (T, Inr (Some l))"
    by (auto simp: world_with_def split: prod.splits sum.splits option.splits)
  show ?thesis
    using drive_releases_lease_once [OF l r] r l
    by (auto simp: world_with_def sample_frame_def split: if_splits)
qed

text \<open>A run that was prompted for a captcha and has completed since.\<close>

definition prompted_db :: phase_db where
  "prompted_db = empty_db\<lparr>db_history := (\<lambda>_. [])(''r1'' := [signup_boundary\<lparr>pb_to := completed\<rparr>]),
     db_states := [''r1'' \<mapsto> signup_state\<lparr>rs_phase := completed, rs_captcha_prompts := 1\<rparr>]\<rparr>"

lemma completed_drive_is_fully_autonomous_witness:
  "counter_value prompted_db ''r1'' counter.Captcha_Prompts = Inr 1 \<and>
   (\<exists>W' o1 ev n. sample_run prompted_db = (W', Drive_Returned o1, ev, n) \<and>
      ao_terminal_phase o1 = completed \<and> ao_verdict o1 = Fully_Autonomous)"
proof -
  have "case sample_run prompted_db of (W', res, ev, n) \<Rightarrow>
      (case res of Drive_Returned o1 \<Rightarrow> ao_terminal_phase o1 = completed | _ \<Rightarrow> False)" by code_simp
  then obtain W' o1 ev n where r: "sample_run prompted_db = (W', Drive_Returned o1, ev, n)"
    "ao_terminal_phase o1 = completed"
    by (auto split: prod.splits drive_result.splits)
  have "counter_value prompted_db ''r1'' counter.Captcha_Prompts = Inr 1" by code_simp
  then show ?thesis using completed_drive_is_fully_autonomous [OF r(1)] r by auto
qed

lemma drive_records_terminal_outcome_only_witness:
  "\<exists>W' o1 ev n. sample_run signup_db = (W', Drive_Returned o1, ev, n) \<and>
     dw_outcomes W' = [''r1'' \<mapsto> o1]"
proof -
  obtain W' o1 D where r: "sample_run signup_db =
      (W', Drive_Returned o1, [Drove signup D, Crossed signup cancelled True], 1)"
    "ao_terminal_phase o1 = cancelled"
    by (rule sample_drive_obtain)
  have "dw_outcomes W' = [''r1'' \<mapsto> o1]"
    using drive_records_terminal_outcome_only [OF r(1)] r(2) sample_turn_facts
    by (simp add: world_with_def terminal_phases_def sample_deps_def)
  then show ?thesis using r by blast
qed

end
