(* ===== verification/Run_Control.thy ===== *)
theory Run_Control
  imports Driver_Steps State_Projection
begin

text \<open>
  The operator's controls of an onboarding run (\<^theory_text>\<open>OnboardingRunControlService\<close> of
  \<^theory_text>\<open>ops/runs/resume.py\<close>): pause, resume and cancel, each of which settles what the
  effect ledger has in flight, commits one boundary through the phase history of
  \<^theory_text>\<open>Phase_Store\<close>, projects the coarse status through \<^theory_text>\<open>project_phase\<close> of
  \<^theory_text>\<open>State_Projection\<close> and writes the audit row.

  The boundary and the projection are two transactions: when the second raises, the first
  stands. A probe of the provider and the release of the browser session are answers of the
  environment; whether the release was asked for is part of what a cancel answers.
\<close>

section \<open>The stores of a control\<close>

text \<open>What the operations are given of the host: the redaction of an identifier and of a
  receipt, the length of a receipt as JSON, the runs that exist, the digest, and how a
  structured value and a status are stored.\<close>

record control_env =
  ce_rd :: "string \<Rightarrow> string"
  ce_known :: "string \<Rightarrow> bool"
  ce_rdr :: "receipt \<Rightarrow> receipt"
  ce_jlen :: "receipt \<Rightarrow> nat"
  ce_sha :: "string \<Rightarrow> string"
  ce_sj :: "string \<Rightarrow> string"
  ce_st :: "run_status \<Rightarrow> cell"

record control_world =
  cw_db :: phase_db
  cw_ledger :: run_ledger

definition pause_reason_code :: string where
  "pause_reason_code = ''run_paused_by_operator''"

definition in_flight_dispositions :: "effect_disposition set" where
  "in_flight_dispositions = {Execute, Reconcile}"

definition pause_requested_event :: string where
  "pause_requested_event = ''onboarding_pause_requested''"

definition pause_lifecycle_events :: "string set" where
  "pause_lifecycle_events = {pause_requested_event, ''onboarding_resumed'',
     ''onboarding_captcha_resolved'', ''onboarding_cancelled''}"

definition last_boundary :: "phase_db \<Rightarrow> string \<Rightarrow> phase_boundary option result" where
  "last_boundary D run =
     bindR (history D run) (\<lambda>h. Inr (if h = [] then None else Some (last h)))"

definition pause_count :: "phase_db \<Rightarrow> string \<Rightarrow> nat result" where
  "pause_count D run =
     bindR (history D run) (\<lambda>h. Inr (length (filter (\<lambda>b. pb_to b = paused) h)))"

text \<open>The source of the last boundary into a waiting phase, unless it is one no worker may
  stand in.\<close>

definition phase_at_pause :: "phase_db \<Rightarrow> string \<Rightarrow> phase option result" where
  "phase_at_pause D run =
     bindR (history D run) (\<lambda>h. Inr
       (case List.find (\<lambda>b. pb_to b \<in> waiting_phases) (rev h) of
          None \<Rightarrow> None
        | Some b \<Rightarrow> (case pb_from b of
              None \<Rightarrow> None
            | Some p \<Rightarrow> if p \<in> resumable_phases then Some p else None)))"

section \<open>Settling what is in flight\<close>

fun disposition_text :: "effect_disposition \<Rightarrow> string" where
  "disposition_text Execute = ''execute''"
| "disposition_text Skip = ''skip''"
| "disposition_text Reconcile = ''reconcile''"
| "disposition_text Pause_Outcome_Unknown = ''pause_outcome_unknown''"

record effect_settlement =
  se_key :: string
  se_effect :: onboarding_effect
  se_disposition :: effect_disposition
  se_reason :: string

text \<open>One reservation: a probe that saw the outcome completes it, anything else marks its
  outcome unknown.\<close>

definition settle_reservation ::
    "control_env \<Rightarrow> (string \<Rightarrow> effect_record \<Rightarrow> receipt option result) option \<Rightarrow> phase_db \<Rightarrow> string \<Rightarrow>
     string \<Rightarrow> effect_record \<Rightarrow> phase_db \<times> effect_record result" where
  "settle_reservation E probe D run key e =
     (case (case probe of None \<Rightarrow> Inr None | Some look \<Rightarrow> look key e) of
        Inl x \<Rightarrow> (D, Inl x)
      | Inr seen \<Rightarrow>
          (case seen of
             Some rc \<Rightarrow>
               if rc \<noteq> []
               then complete_effect_reservation (ce_rd E) (ce_known E) (ce_rdr E) (ce_jlen E) D run key rc
               else mark_reservation_unknown (ce_rd E) (ce_known E) (ce_rdr E) (ce_jlen E) D run key
           | None \<Rightarrow> mark_reservation_unknown (ce_rd E) (ce_known E) (ce_rdr E) (ce_jlen E) D run key))"

fun settle_each ::
    "control_env \<Rightarrow> (string \<Rightarrow> effect_record \<Rightarrow> receipt option result) option \<Rightarrow> string \<Rightarrow>
     (string \<times> effect_record) list \<Rightarrow> control_world \<Rightarrow>
     control_world \<times> effect_settlement list result" where
  "settle_each E probe run [] W = (W, Inr [])"
| "settle_each E probe run ((key, e) # rs) W =
     (if er_disposition e \<notin> in_flight_dispositions then settle_each E probe run rs W
      else (case settle_reservation E probe (cw_db W) run key e of
          (D, Inl x) \<Rightarrow> (W\<lparr>cw_db := D\<rparr>, Inl x)
        | (D, Inr r) \<Rightarrow>
            (let L = append_audit_event (ce_rd E) (cw_ledger W) run ''onboarding_effect_settled''
                   [(''effect'', CText (effect_action (er_effect r))),
                    (''disposition'', CText (disposition_text (er_disposition r))),
                    (''reason_code'', CText (er_reason r)), (''external_actions'', CInt 1)]
             in case settle_each E probe run rs \<lparr>cw_db = D, cw_ledger = L\<rparr> of
                  (W', v) \<Rightarrow> (W', bindR v (\<lambda>ss. Inr
                    (\<lparr>se_key = ce_rd E key, se_effect = er_effect r, se_disposition = er_disposition r,
                      se_reason = er_reason r\<rparr> # ss))))))"

definition settle_reserved_effects ::
    "control_env \<Rightarrow> (string \<Rightarrow> effect_record \<Rightarrow> receipt option result) option \<Rightarrow> control_world \<Rightarrow>
     string \<Rightarrow> control_world \<times> effect_settlement list result" where
  "settle_reserved_effects E probe W run =
     (case reservations (ce_rd E) (cw_db W) run of
        Inl e \<Rightarrow> (W, Inl e)
      | Inr rs \<Rightarrow> settle_each E probe run rs W)"

section \<open>One control boundary\<close>

definition commit_control ::
    "control_env \<Rightarrow> control_world \<Rightarrow> string \<Rightarrow> phase_boundary \<Rightarrow> phase \<Rightarrow> string \<Rightarrow> int \<Rightarrow> string \<Rightarrow> bool \<Rightarrow>
     control_world \<times> bool result" where
  "commit_control E W run b to reason attempt event released =
     (case phase_correlation_id (ce_sha E) run to attempt of
        Inl e \<Rightarrow> (W, Inl e)
      | Inr corr \<Rightarrow>
        (case commit_phase (ce_known E) (cw_db W) run
                \<lparr>pc_from = Some (pb_to b), pc_to = to, pc_reason = reason, pc_digest = pb_digest b,
                 pc_attempt = attempt, pc_correlation = corr\<rparr> of
           (D, Inl e) \<Rightarrow> (W\<lparr>cw_db := D\<rparr>, Inl e)
         | (D, Inr False) \<Rightarrow> (W\<lparr>cw_db := D\<rparr>, Inr False)
         | (D, Inr True) \<Rightarrow>
             (case project_phase (ce_rd E) (ce_sj E) (ce_st E) phase_text (cw_ledger W) run to reason
                     event released of
                Inl e \<Rightarrow> (W\<lparr>cw_db := D\<rparr>, Inl e)
              | Inr L \<Rightarrow> (\<lparr>cw_db = D, cw_ledger = L\<rparr>, Inr True))))"

section \<open>Pause\<close>

record pause_outcome =
  po_accepted :: bool
  po_after :: phase
  po_reason :: string
  po_committed :: bool
  po_settlements :: "effect_settlement list"

definition record_pause_request ::
    "control_env \<Rightarrow> control_world \<Rightarrow> string \<Rightarrow> phase \<Rightarrow> string \<Rightarrow> nat \<Rightarrow> control_world" where
  "record_pause_request E W run p reason_code settled =
     W\<lparr>cw_ledger := append_audit_event (ce_rd E) (cw_ledger W) run pause_requested_event
       [(''pausing_after_phase'', CText (phase_text p)), (''reason_code'', CText reason_code),
        (''settled_effects'', CInt (int settled)), (''external_actions'', CInt 0)]\<rparr>"

definition request_pause ::
    "control_env \<Rightarrow> (string \<Rightarrow> effect_record \<Rightarrow> receipt option result) option \<Rightarrow> control_world \<Rightarrow>
     string \<Rightarrow> string \<Rightarrow> control_world \<times> pause_outcome result" where
  "request_pause E probe W run reason_code =
     (case last_boundary (cw_db W) run of
        Inl e \<Rightarrow> (W, Inl e)
      | Inr None \<Rightarrow>
          (W, Inr \<lparr>po_accepted = False, po_after = paused, po_reason = ''phase_replay_noop'',
                  po_committed = False, po_settlements = []\<rparr>)
      | Inr (Some b) \<Rightarrow>
          if pb_to b \<in> terminal_phases
          then (W, Inr \<lparr>po_accepted = False, po_after = pb_to b, po_reason = ''phase_replay_noop'',
                       po_committed = False, po_settlements = []\<rparr>)
          else if pb_to b = paused
          then (W, Inr \<lparr>po_accepted = True, po_after = paused, po_reason = reason_code,
                       po_committed = False, po_settlements = []\<rparr>)
          else (case settle_reserved_effects E probe W run of
              (W1, Inl e) \<Rightarrow> (W1, Inl e)
            | (W1, Inr ss) \<Rightarrow>
                let W2 = record_pause_request E W1 run (pb_to b) reason_code (length ss);
                    done_with = (\<lambda>c. \<lparr>po_accepted = True, po_after = pb_to b, po_reason = reason_code,
                      po_committed = c, po_settlements = ss\<rparr>)
                in if \<not> is_legal_phase_transition (Some (pb_to b)) paused
                   then (W2, Inr (done_with False))
                   else (case pause_count (cw_db W2) run of
                       Inl e \<Rightarrow> (W2, Inl e)
                     | Inr n \<Rightarrow>
                         (case commit_control E W2 run b paused reason_code (pb_attempt b + int n)
                                 ''onboarding_paused'' False of
                            (W3, Inl e) \<Rightarrow> (W3, Inl e)
                          | (W3, Inr c) \<Rightarrow> (W3, Inr (done_with c))))))"

text \<open>Whether a pause is outstanding: the last event of a pause's life in the audit trail.\<close>

definition pause_requested :: "control_env \<Rightarrow> control_world \<Rightarrow> string \<Rightarrow> bool" where
  "pause_requested E W run =
     fold (\<lambda>e out. if ev_type e \<in> pause_lifecycle_events
                   then ev_type e = pause_requested_event else out)
       (list_audit_events (ce_rd E) (cw_ledger W) run) False"

section \<open>Resume\<close>

record resume_outcome =
  ro_accepted :: bool
  ro_at_pause :: "phase option"
  ro_resumed :: "phase option"
  ro_reason :: string
  ro_committed :: bool

definition resume_from_pause ::
    "control_env \<Rightarrow> control_world \<Rightarrow> string \<Rightarrow> control_world \<times> resume_outcome result" where
  "resume_from_pause E W run =
     (case last_boundary (cw_db W) run of
        Inl e \<Rightarrow> (W, Inl e)
      | Inr b0 \<Rightarrow>
        (case (case b0 of Some b \<Rightarrow> if pb_to b \<in> waiting_phases then Some b else None | None \<Rightarrow> None) of
           None \<Rightarrow>
             (W, Inr \<lparr>ro_accepted = False, ro_at_pause = None, ro_resumed = None,
                     ro_reason = ''phase_replay_noop'', ro_committed = False\<rparr>)
         | Some b \<Rightarrow>
             (case phase_at_pause (cw_db W) run of
                Inl e \<Rightarrow> (W, Inl e)
              | Inr at \<Rightarrow>
                  let captcha = (pb_to b = captcha_paused);
                      reason = (if captcha then ''captcha_resolved'' else ''step_retried'');
                      event = (if captcha then ''onboarding_captcha_resolved'' else ''onboarding_resumed'')
                  in (case at of
                        None \<Rightarrow>
                          (W, Inr \<lparr>ro_accepted = False, ro_at_pause = None, ro_resumed = None,
                                  ro_reason = ''phase_replay_noop'', ro_committed = False\<rparr>)
                      | Some p \<Rightarrow>
                          if \<not> is_legal_phase_transition (Some (pb_to b)) p
                          then (W, Inr \<lparr>ro_accepted = False, ro_at_pause = Some p, ro_resumed = None,
                                       ro_reason = ''phase_replay_noop'', ro_committed = False\<rparr>)
                          else (case commit_control E W run b p reason (pb_attempt b + 1) event False of
                              (W', Inl e) \<Rightarrow> (W', Inl e)
                            | (W', Inr c) \<Rightarrow>
                                (W', Inr \<lparr>ro_accepted = True, ro_at_pause = Some p,
                                         ro_resumed = (if c then Some p else None),
                                         ro_reason = reason, ro_committed = c\<rparr>))))))"

section \<open>Cancel\<close>

record cancel_outcome =
  co_accepted :: bool
  co_phase :: phase
  co_reason :: string
  co_committed :: bool
  co_released :: bool

text \<open>\<^theory_text>\<open>release\<close> is the release port, if one is wired; the last component says whether it
  was called.\<close>

definition cancel_run ::
    "control_env \<Rightarrow> bool result option \<Rightarrow> control_world \<Rightarrow> string \<Rightarrow>
     control_world \<times> cancel_outcome result \<times> bool" where
  "cancel_run E release_answer W run =
     (case last_boundary (cw_db W) run of
        Inl e \<Rightarrow> (W, Inl e, False)
      | Inr None \<Rightarrow>
          (W, Inr \<lparr>co_accepted = False, co_phase = cancelled, co_reason = ''phase_replay_noop'',
                  co_committed = False, co_released = False\<rparr>, False)
      | Inr (Some b) \<Rightarrow>
          if pb_to b \<in> terminal_phases \<or> \<not> is_legal_phase_transition (Some (pb_to b)) cancelled
          then (W, Inr \<lparr>co_accepted = False, co_phase = pb_to b, co_reason = ''phase_replay_noop'',
                       co_committed = False, co_released = False\<rparr>, False)
          else (case (case release_answer of None \<Rightarrow> Inr False | Some v \<Rightarrow> v) of
              Inl e \<Rightarrow> (W, Inl e, True)
            | Inr released \<Rightarrow>
                (case commit_control E W run b cancelled ''operator_cancelled'' (pb_attempt b)
                        ''onboarding_cancelled'' released of
                   (W', Inl e) \<Rightarrow> (W', Inl e, release_answer \<noteq> None)
                 | (W', Inr c) \<Rightarrow>
                     (W', Inr \<lparr>co_accepted = True,
                              co_phase = (if c then cancelled else pb_to b),
                              co_reason = ''operator_cancelled'', co_committed = c,
                              co_released = released\<rparr>, release_answer \<noteq> None))))"

section \<open>Lemmas\<close>

declare is_legal_phase_transition.simps [simp del]

definition control_commit :: "phase_boundary \<Rightarrow> phase \<Rightarrow> string \<Rightarrow> int \<Rightarrow> string \<Rightarrow> phase_commit" where
  "control_commit b to reason attempt corr =
     \<lparr>pc_from = Some (pb_to b), pc_to = to, pc_reason = reason, pc_digest = pb_digest b,
      pc_attempt = attempt, pc_correlation = corr\<rparr>"

lemma commit_control_cases:
  assumes "commit_control E W run b to reason attempt event released = (W', v)"
  obtains (stands) "v \<noteq> Inr True" "W' = W"
      "\<And>c. v = Inr c \<Longrightarrow> \<exists>corr. violates_unique (cw_db W) run (control_commit b to reason attempt corr)"
  | (committed) corr D where "phase_correlation_id (ce_sha E) run to attempt = Inr corr"
      "commit_phase (ce_known E) (cw_db W) run (control_commit b to reason attempt corr) = (D, Inr True)"
      "cw_db W' = D"
      "case project_phase (ce_rd E) (ce_sj E) (ce_st E) phase_text (cw_ledger W) run to reason event released of
         Inl e \<Rightarrow> v = Inl e \<and> cw_ledger W' = cw_ledger W
       | Inr L \<Rightarrow> v = Inr True \<and> cw_ledger W' = L"
proof (cases "phase_correlation_id (ce_sha E) run to attempt")
  case (Inl e)
  have "W' = W" "v = Inl e" using assms Inl by (auto simp: commit_control_def)
  then show ?thesis using stands by simp
next
  case (Inr corr)
  obtain D u where com: "commit_phase (ce_known E) (cw_db W) run (control_commit b to reason attempt corr) = (D, u)"
    by force
  have here: "(case u of
      Inl e \<Rightarrow> (W\<lparr>cw_db := D\<rparr>, Inl e)
    | Inr fresh \<Rightarrow> if \<not> fresh then (W\<lparr>cw_db := D\<rparr>, Inr False)
        else (case project_phase (ce_rd E) (ce_sj E) (ce_st E) phase_text (cw_ledger W) run to reason event released of
            Inl e \<Rightarrow> (W\<lparr>cw_db := D\<rparr>, Inl e) | Inr L \<Rightarrow> (\<lparr>cw_db = D, cw_ledger = L\<rparr>, Inr True))) = (W', v)"
    using assms Inr com
    by (cases u) (auto simp: commit_control_def control_commit_def split: bool.splits)
  show ?thesis
  proof (cases "u = Inr True")
    case False
    have D: "D = cw_db W" and viol: "\<And>c. u = Inr c \<Longrightarrow>
        violates_unique (cw_db W) run (control_commit b to reason attempt corr)"
      by (cases rule: commit_phase_cases [OF com]; use False in auto)+
    have "W' = W" "v \<noteq> Inr True" "v = u" using here False D by (cases u; auto)+
    then show ?thesis using stands viol by blast
  next
    case True
    show ?thesis
      by (rule committed [OF Inr com [unfolded True]])
        (use here True in \<open>auto split: sum.splits\<close>)
  qed
qed

lemma last_boundary_Inr:
  assumes "db_ok D" "last_boundary D run = Inr b"
  shows "b = (if db_history D run = [] then None else Some (last (db_history D run))) \<and>
    (\<exists>r. run_identifier run = Inr r)"
proof -
  obtain h where h: "history D run = Inr h" using assms(2) by (auto simp: last_boundary_def result_simps)
  then have "\<exists>r. run_identifier run = Inr r" by (auto simp: history_def result_simps)
  then show ?thesis using assms history_Inr [OF h assms(1)] h by (auto simp: last_boundary_def)
qed

lemma find_rev_last: "h \<noteq> [] \<Longrightarrow> P (last h) \<Longrightarrow> List.find P (rev h) = Some (last h)"
  by (cases h rule: rev_cases) auto

lemma phase_at_pause_last:
  assumes "db_ok D" "run_identifier run = Inr r" "db_history D run \<noteq> []"
    "pb_to (last (db_history D run)) \<in> waiting_phases"
  shows "phase_at_pause D run = Inr (case pb_from (last (db_history D run)) of
     None \<Rightarrow> None | Some p \<Rightarrow> if p \<in> resumable_phases then Some p else None)"
  using history_eq [OF assms(1,2)] find_rev_last [OF assms(3), of "\<lambda>b. pb_to b \<in> waiting_phases"] assms(4)
  by (simp add: phase_at_pause_def)

lemma last_boundary_legal:
  "db_ok D \<Longrightarrow> db_history D run \<noteq> [] \<Longrightarrow>
   is_legal_phase_transition (pb_from (last (db_history D run))) (pb_to (last (db_history D run)))"
proof -
  assume ok: "db_ok D" and ne: "db_history D run \<noteq> []"
  have "list_all boundary_ok (db_history D run)" using ok by (simp add: db_ok_def run_ok_def)
  then have "boundary_ok (last (db_history D run))" using ne by (simp add: list_all_iff)
  then show ?thesis by (simp only: boundary_ok_def)
qed

text \<open>The coarse projection of a control always succeeds on an existing row.\<close>

lemma project_phase_control:
  assumes "get_run rd L run = Some r"
  shows "\<exists>L' p'. project_phase rd sj st pn L run q rc ev rel = Inr L' \<and>
     audit L' = audit L @ [\<lparr>ev_run = rd run, ev_type = rd ev, ev_payload = p'\<rparr>] \<and>
     (\<forall>k. k \<noteq> rd run \<longrightarrow> runs L' k = runs L k)"
  using assms
  by (auto simp: project_phase_def get_run_def update_run_def Let_def append_audit_event_def
      mutable_columns_def)

text \<open>One settlement writes one reservation row, out of flight, and nothing of the phases.\<close>

lemma record_reservation_row:
  "record_reservation rd known rdr jlen D run key e = (D', Inr r) \<Longrightarrow>
   er_disposition r = er_disposition e \<and>
   db_reservations D' = (db_reservations D)
     (rd run := AList.update (rd key) r (db_reservations D (rd run)))"
  by (auto simp: record_reservation_def Let_def split: if_splits sum.splits option.splits)

lemma update_side_effect_rows:
  "update_side_effect rd D run key st = (D', v) \<Longrightarrow> db_reservations D' = db_reservations D"
  by (auto simp: update_side_effect_def split: option.splits)

lemma complete_row:
  assumes "complete_effect_reservation rd known rdr jlen D run key rc = (D', Inr r)"
  shows "er_disposition r = Skip \<and> db_reservations D' = (db_reservations D)
     (rd run := AList.update (rd key) r (db_reservations D (rd run)))"
proof -
  obtain old D1 u p where
    "update_side_effect rd D run key Completed = (D1, Inr u)"
    "plan_for_row_status key (er_effect old) (Some Completed) (Some rc) = Inr p"
    "record_reservation rd known rdr jlen D1 run key
      (old\<lparr>er_disposition := plan_disposition p, er_reason := plan_reason p, er_receipt := Some rc\<rparr>) = (D', Inr r)"
    using assms by (auto simp: complete_effect_reservation_def split: sum.splits option.splits prod.splits)
  then show ?thesis
    using record_reservation_row [of rd known rdr jlen D1 run key _ D' r] update_side_effect_rows
    by (fastforce simp: plan_for_row_status_def make_plan_def Let_def split: if_splits)
qed

lemma unknown_row:
  assumes "mark_reservation_unknown rd known rdr jlen D run key = (D', Inr r)"
  shows "er_disposition r = Pause_Outcome_Unknown \<and> db_reservations D' = (db_reservations D)
     (rd run := AList.update (rd key) r (db_reservations D (rd run)))"
proof -
  obtain old D1 u where
    "update_side_effect rd D run key Outcome_Unknown = (D1, Inr u)"
    "record_reservation rd known rdr jlen D1 run key
      (old\<lparr>er_disposition := Pause_Outcome_Unknown, er_reason := reconcile_reason_code, er_receipt := None\<rparr>) = (D', Inr r)"
    using assms by (auto simp: mark_reservation_unknown_def split: sum.splits option.splits prod.splits)
  then show ?thesis
    using record_reservation_row [of rd known rdr jlen D1 run key _ D' r] update_side_effect_rows
    by fastforce
qed

lemma settle_reservation_row:
  assumes "settle_reservation E probe D run key e = (D', Inr r)"
  shows "er_disposition r \<notin> in_flight_dispositions \<and> db_reservations D' = (db_reservations D)
     (ce_rd E run := AList.update (ce_rd E key) r (db_reservations D (ce_rd E run)))"
proof -
  consider rc where "complete_effect_reservation (ce_rd E) (ce_known E) (ce_rdr E) (ce_jlen E) D run key rc = (D', Inr r)"
    | "mark_reservation_unknown (ce_rd E) (ce_known E) (ce_rdr E) (ce_jlen E) D run key = (D', Inr r)"
    using assms by (auto simp: settle_reservation_def split: sum.splits option.splits if_splits)
  then show ?thesis
    by cases (auto dest!: complete_row unknown_row simp: in_flight_dispositions_def)
qed

lemma same_phases_refl: "same_phases D D"
  by (simp add: same_phases_def)

lemma settle_reservation_frame:
  "settle_reservation E probe D run key e = (D', v) \<Longrightarrow> same_phases D D'"
  using same_phases_refl
  by (auto simp: settle_reservation_def dest: complete_frame mark_unknown_frame
      split: sum.splits option.splits if_splits)

text \<open>What settling makes of a reservation: skip when the probe saw its outcome, else unknown.\<close>

definition settled_disposition ::
    "(string \<Rightarrow> effect_record \<Rightarrow> receipt option result) option \<Rightarrow> string \<Rightarrow> effect_record \<Rightarrow> effect_disposition" where
  "settled_disposition probe key e =
     (case probe of None \<Rightarrow> Pause_Outcome_Unknown
      | Some look \<Rightarrow> (case look key e of
            Inr (Some rc) \<Rightarrow> if rc \<noteq> [] then Skip else Pause_Outcome_Unknown
          | _ \<Rightarrow> Pause_Outcome_Unknown))"

lemma settle_reservation_disposition:
  assumes "settle_reservation E probe D run key e = (D', Inr r)"
  shows "er_disposition r = settled_disposition probe key e"
  using assms
  by (auto simp: settle_reservation_def settled_disposition_def dest!: complete_row unknown_row
      split: sum.splits option.splits if_splits)

lemma settle_reservation_intents:
  assumes "settle_reservation E probe D run key e = (D', v)" "x \<noteq> intent_key (ce_rd E) run key"
  shows "db_intents D' x = db_intents D x"
  using assms
  by (auto simp: settle_reservation_def dest!: complete_intents mark_unknown_intents
      split: sum.splits option.splits if_splits)

lemma settle_each_rows:
  "settle_each E probe run rs W = (W', Inr ss) \<Longrightarrow> distinct (map fst rs) \<Longrightarrow>
   \<forall>k\<in>fst ` set rs. ce_rd E k = k \<Longrightarrow>
   case map_of rs k of
     Some e \<Rightarrow>
       if er_disposition e \<in> in_flight_dispositions
       then \<exists>r. map_of (db_reservations (cw_db W') (ce_rd E run)) k = Some r \<and>
         er_disposition r = settled_disposition probe k e
       else map_of (db_reservations (cw_db W') (ce_rd E run)) k = map_of (db_reservations (cw_db W) (ce_rd E run)) k
   | None \<Rightarrow> map_of (db_reservations (cw_db W') (ce_rd E run)) k = map_of (db_reservations (cw_db W) (ce_rd E run)) k"
proof (induction rs arbitrary: W W' ss)
  case (Cons x rs)
  obtain key e where x: "x = (key, e)" by force
  have keys: "\<forall>k\<in>fst ` set rs. ce_rd E k = k" "ce_rd E key = key" "distinct (map fst rs)" "map_of rs key = None"
    using Cons.prems(2,3) x by (auto simp: map_of_eq_None_iff)
  show ?case
  proof (cases "er_disposition e \<in> in_flight_dispositions")
    case False
    then have "settle_each E probe run rs W = (W', Inr ss)" using Cons.prems(1) x by simp
    from Cons.IH [OF this keys(3,1)] show ?thesis using False x keys(4) by (auto split: option.splits)
  next
    case True
    obtain D r L ss2 where r: "settle_reservation E probe (cw_db W) run key e = (D, Inr r)"
      "settle_each E probe run rs \<lparr>cw_db = D, cw_ledger = L\<rparr> = (W', Inr ss2)"
      using Cons.prems(1) x True
      by (auto simp: result_simps Let_def split: sum.splits prod.splits)
    have "map_of (db_reservations D (ce_rd E run)) k =
        (if k = key then Some r else map_of (db_reservations (cw_db W) (ce_rd E run)) k)"
      using settle_reservation_row [OF r(1)] keys(2) by (simp add: update_conv')
    then show ?thesis
      using Cons.IH [OF r(2) keys(3,1)] x True keys(4) settle_reservation_disposition [OF r(1)]
      by (auto split: if_splits option.splits)
  qed
qed simp

lemma settle_each_frame:
  "settle_each E probe run rs W = (W', Inr ss) \<Longrightarrow>
   (\<forall>run'. run' \<noteq> ce_rd E run \<longrightarrow> db_reservations (cw_db W') run' = db_reservations (cw_db W) run') \<and>
   (\<forall>x. (\<forall>(k, e)\<in>set rs. er_disposition e \<in> in_flight_dispositions \<longrightarrow> x \<noteq> intent_key (ce_rd E) run k) \<longrightarrow>
      db_intents (cw_db W') x = db_intents (cw_db W) x)"
proof (induction rs arbitrary: W W' ss)
  case (Cons x rs)
  obtain key e where x: "x = (key, e)" by force
  show ?case
  proof (cases "er_disposition e \<in> in_flight_dispositions")
    case False
    then have "settle_each E probe run rs W = (W', Inr ss)" using Cons.prems(1) x by simp
    from Cons.IH [OF this] show ?thesis using False x by simp
  next
    case True
    obtain D r L ss2 where r: "settle_reservation E probe (cw_db W) run key e = (D, Inr r)"
      "settle_each E probe run rs \<lparr>cw_db = D, cw_ledger = L\<rparr> = (W', Inr ss2)"
      using Cons.prems(1) x True
      by (auto simp: result_simps Let_def split: sum.splits prod.splits)
    show ?thesis
      using Cons.IH [OF r(2)] settle_reservation_row [OF r(1)] settle_reservation_intents [OF r(1)] x True by simp
  qed
qed simp

lemma settle_each_phases:
  "settle_each E probe run rs W = (W', v) \<Longrightarrow> same_phases (cw_db W) (cw_db W')"
proof (induction rs arbitrary: W W' v)
  case (Cons x rs)
  obtain key e where x: "x = (key, e)" by force
  obtain D u where s: "settle_reservation E probe (cw_db W) run key e = (D, u)" by force
  note fr = settle_reservation_frame [OF s]
  show ?case
    using Cons.prems x s fr Cons.IH
    by (cases u) (fastforce simp: same_phases_def Let_def split: if_splits prod.splits)+
qed (simp add: same_phases_def)

lemma project_phase_audit:
  assumes "project_phase rd sj st pn L run q rc ev rel = Inr L'"
  shows "\<exists>p. audit L' = audit L @ [\<lparr>ev_run = rd run, ev_type = rd ev, ev_payload = p\<rparr>]"
proof -
  obtain r where "get_run rd L run = Some r" using assms by (auto simp: project_phase_def split: option.splits)
  then show ?thesis using project_phase_control [of rd L run r sj st pn q rc ev rel] assms by auto
qed

lemma control_commit_fields [simp]:
  "pc_from (control_commit b to reason a corr) = Some (pb_to b)"
  "pc_to (control_commit b to reason a corr) = to"
  "pc_attempt (control_commit b to reason a corr) = a"
  "pc_correlation (control_commit b to reason a corr) = corr"
  by (simp_all add: control_commit_def)

lemma control_commit_repeats:
  "violates_unique D run (control_commit b to reason a corr) \<Longrightarrow> db_ok D \<Longrightarrow>
   \<exists>c\<in>set (db_history D run). pb_from c = Some (pb_to b) \<and> pb_to c = to \<and> pb_attempt c = a"
  using violates_unique_iff [of D run "db_states D run"]
  by (fastforce simp: db_ok_def boundary_key_def)

text \<open>A committed control boundary is where the run stands afterwards.\<close>

lemma committed_stands:
  assumes "commit_phase known D run c = (D', Inr True)" "db_ok D"
  shows "current_phase D' run = Inr (Some (pc_to c, pc_attempt c)) \<and> db_reservations D' = db_reservations D \<and>
    db_history D' run = db_history D run @ [boundary_of (next_sequence D run) c]"
proof (cases rule: commit_phase_cases [OF assms(1)])
  case 3
  have ok: "db_ok D'" by (rule commit_phase_ok [OF assms(2,1)])
  have "\<exists>r. run_identifier run = Inr r"
    using assms(1) by (auto simp: commit_phase_def commit_check_def result_simps split: sum.splits)
  then obtain r where r: "run_identifier run = Inr r" by blast
  have ne: "db_history D' run \<noteq> []" using 3 by simp
  show ?thesis using current_phase_last [OF ok r ne] 3 by (simp add: boundary_of_def)
qed auto

lemma pause_requested_append:
  "audit (cw_ledger W') = audit (cw_ledger W) @ [\<lparr>ev_run = ce_rd E run, ev_type = t, ev_payload = p\<rparr>] \<Longrightarrow>
   pause_requested E W' run =
     (if t \<in> pause_lifecycle_events then t = pause_requested_event else pause_requested E W run)"
  by (simp add: pause_requested_def list_audit_events_def)

text \<open>What an accepted pause did, step by step.\<close>

lemma pause_steps:
  assumes "request_pause E probe W run rc = (W', Inr out)" "po_accepted out" "po_after out \<noteq> paused"
  obtains b W1 W2 ss where "last_boundary (cw_db W) run = Inr (Some b)" "po_after out = pb_to b"
    "settle_reserved_effects E probe W run = (W1, Inr ss)"
    "W2 = record_pause_request E W1 run (pb_to b) rc (length ss)"
    "if is_legal_phase_transition (Some (pb_to b)) paused
     then \<exists>n. commit_control E W2 run b paused rc (pb_attempt b + int n) ''onboarding_paused'' False =
       (W', Inr (po_committed out))
     else W' = W2 \<and> \<not> po_committed out"
proof -
  obtain b where b: "last_boundary (cw_db W) run = Inr (Some b)"
    "pb_to b \<notin> terminal_phases" "pb_to b \<noteq> paused"
    using assms by (auto simp: request_pause_def split: sum.splits option.splits if_splits)
  obtain W1 u where W1: "settle_reserved_effects E probe W run = (W1, u)" by force
  then obtain ss where ss: "u = Inr ss" using assms(1) b by (cases u) (auto simp: request_pause_def)
  define W2 where "W2 = record_pause_request E W1 run (pb_to b) rc (length ss)"
  define out_with where "out_with = (\<lambda>c. \<lparr>po_accepted = True, po_after = pb_to b, po_reason = rc,
      po_committed = c, po_settlements = ss\<rparr>)"
  have eq: "(if \<not> is_legal_phase_transition (Some (pb_to b)) paused then (W2, Inr (out_with False))
      else (case pause_count (cw_db W2) run of Inl e \<Rightarrow> (W2, Inl e)
        | Inr n \<Rightarrow> (case commit_control E W2 run b paused rc (pb_attempt b + int n) ''onboarding_paused'' False of
             (W3, Inl e) \<Rightarrow> (W3, Inl e) | (W3, Inr c) \<Rightarrow> (W3, Inr (out_with c))))) = (W', Inr out)"
    unfolding W2_def out_with_def using assms(1) b W1 ss by (simp add: request_pause_def Let_def)
  show ?thesis
  proof (cases "is_legal_phase_transition (Some (pb_to b)) paused")
    case False
    then have "W' = W2" "out = out_with False" using eq by (auto simp del: is_legal_phase_transition.simps)
    then show ?thesis using that [OF b(1) _ W1 [unfolded ss] W2_def] False by (simp add: out_with_def)
  next
    case True
    then have "\<not> \<not> is_legal_phase_transition (Some (pb_to b)) paused" by blast
    note eq = eq [unfolded if_not_P [OF this]]
    obtain n where n: "pause_count (cw_db W2) run = Inr n" using eq by (auto split: sum.splits)
    obtain W3 v where c: "commit_control E W2 run b paused rc (pb_attempt b + int n) ''onboarding_paused'' False
        = (W3, v)" by force
    then obtain c0 where "v = Inr c0" "W' = W3" "out = out_with c0"
      using eq n by (cases v) auto
    then show ?thesis using that [OF b(1) _ W1 [unfolded ss] W2_def] True c by (auto simp: out_with_def)
  qed
qed

lemma pause_when_paused:
  "request_pause E probe W run rc = (W', Inr out) \<Longrightarrow> po_accepted out \<Longrightarrow> po_after out = paused \<Longrightarrow> W' = W"
  by (auto simp: request_pause_def Let_def split: sum.splits option.splits if_splits prod.splits)

lemma commit_control_frame:
  assumes "commit_control E W run b to reason attempt event released = (W', v)"
  shows "db_reservations (cw_db W') = db_reservations (cw_db W)"
proof (cases rule: commit_control_cases [OF assms])
  case (2 corr D)
  then show ?thesis by (cases rule: commit_phase_cases [OF 2(2)]) auto
qed simp

section \<open>Properties\<close>

lemma commit_control_others:
  assumes "commit_control E W run b to reason attempt event released = (W', v)" "run' \<noteq> run"
  shows "db_history (cw_db W') run' = db_history (cw_db W) run' \<and> db_states (cw_db W') run' = db_states (cw_db W) run'"
proof (cases rule: commit_control_cases [OF assms(1)])
  case (2 corr D)
  then show ?thesis using assms(2) by (cases rule: commit_phase_cases [OF 2(2)]) auto
qed simp

lemma commit_control_intents:
  assumes "commit_control E W run b to reason attempt event released = (W', v)"
  shows "db_intents (cw_db W') = db_intents (cw_db W)"
proof (cases rule: commit_control_cases [OF assms])
  case (2 corr D)
  then show ?thesis by (cases rule: commit_phase_cases [OF 2(2)]) auto
qed simp

text \<open>C34. What an accepted pause does to effects. On a run that is paused already it changes nothing. On
  any other it settles each reservation of the run that was in flight: skip when the probe saw its
  outcome, else outcome unknown, so none is in flight afterwards. It leaves every other reservation of
  the run as it was, every intent but those of the settled keys, and the reservations, the history and the
  phase of every other run.\<close>

theorem pause_leaves_nothing_in_flight:
  assumes "request_pause E probe W run rc = (W', Inr out)" "po_accepted out"
    and "distinct (map fst (db_reservations (cw_db W) (ce_rd E run)))"
    and "\<forall>k\<in>fst ` set (db_reservations (cw_db W) (ce_rd E run)). ce_rd E k = k"
  shows "if po_after out = paused then W' = W
    else (\<forall>k. case map_of (db_reservations (cw_db W) (ce_rd E run)) k of
        Some e \<Rightarrow>
          if er_disposition e \<in> in_flight_dispositions
          then \<exists>r. map_of (db_reservations (cw_db W') (ce_rd E run)) k = Some r \<and>
            er_disposition r = settled_disposition probe k e
          else map_of (db_reservations (cw_db W') (ce_rd E run)) k = Some e
      | None \<Rightarrow> map_of (db_reservations (cw_db W') (ce_rd E run)) k = None) \<and>
     (\<forall>k e. map_of (db_reservations (cw_db W') (ce_rd E run)) k = Some e \<longrightarrow>
        er_disposition e \<in> {Skip, Pause_Outcome_Unknown}) \<and>
     (\<forall>x. (\<forall>(k, e)\<in>set (db_reservations (cw_db W) (ce_rd E run)).
          er_disposition e \<in> in_flight_dispositions \<longrightarrow> x \<noteq> intent_key (ce_rd E) run k) \<longrightarrow>
        db_intents (cw_db W') x = db_intents (cw_db W) x) \<and>
     (\<forall>run'. run' \<noteq> ce_rd E run \<longrightarrow> db_reservations (cw_db W') run' = db_reservations (cw_db W) run') \<and>
     (\<forall>run'. run' \<noteq> run \<longrightarrow> db_history (cw_db W') run' = db_history (cw_db W) run' \<and>
        db_states (cw_db W') run' = db_states (cw_db W) run')"
proof (cases "po_after out = paused")
  case True
  then have "W' = W" using assms(1,2) pause_when_paused by blast
  then show ?thesis using True by simp
next
  case False
  let ?rs = "db_reservations (cw_db W) (ce_rd E run)" and ?R = "ce_rd E run"
  obtain b W1 W2 ss where st: "settle_reserved_effects E probe W run = (W1, Inr ss)"
    "W2 = record_pause_request E W1 run (pb_to b) rc (length ss)"
    "if is_legal_phase_transition (Some (pb_to b)) paused
     then \<exists>n. commit_control E W2 run b paused rc (pb_attempt b + int n) ''onboarding_paused'' False =
       (W', Inr (po_committed out))
     else W' = W2 \<and> \<not> po_committed out"
    by (rule pause_steps [OF assms(1,2) False])
  have db2: "cw_db W2 = cw_db W1" using st(2) by (simp add: record_pause_request_def)
  have same: "db_reservations (cw_db W') = db_reservations (cw_db W1)" "db_intents (cw_db W') = db_intents (cw_db W1)"
    using st(3) commit_control_frame commit_control_intents by (auto simp: db2 split: if_splits)
  have settled: "settle_each E probe run ?rs W = (W1, Inr ss)"
    using st(1) by (auto simp: settle_reserved_effects_def reservations_def list_reservations_def
        result_simps split: sum.splits)
  have phases: "db_history (cw_db W') run' = db_history (cw_db W) run' \<and> db_states (cw_db W') run' = db_states (cw_db W) run'"
    if "run' \<noteq> run" for run'
    using st(3) commit_control_others [OF _ that] settle_each_phases [OF settled]
    by (auto simp: db2 same_phases_def split: if_splits)
  have rows: "case map_of ?rs k of
      Some e \<Rightarrow> if er_disposition e \<in> in_flight_dispositions
        then \<exists>r. map_of (db_reservations (cw_db W') ?R) k = Some r \<and> er_disposition r = settled_disposition probe k e
        else map_of (db_reservations (cw_db W') ?R) k = Some e
    | None \<Rightarrow> map_of (db_reservations (cw_db W') ?R) k = None" for k
    using settle_each_rows [OF settled assms(3,4), of k] by (simp add: same split: option.splits)
  have "er_disposition e \<in> {Skip, Pause_Outcome_Unknown}" if "map_of (db_reservations (cw_db W') ?R) k = Some e" for k e
    using rows [of k] that
    by (auto simp: settled_disposition_def in_flight_dispositions_def split: option.splits if_splits sum.splits;
        cases "er_disposition e"; auto)
  then show ?thesis
    using False rows phases settle_each_frame [OF settled] by (simp add: same)
qed

text \<open>A run the operator paused cannot be resumed: out of the phase \<^theory_text>\<open>paused\<close>, entered
  from any other phase, the resume control is refused and changes nothing, in every
  database the store can reach.\<close>

theorem operator_pause_is_not_resumable:
  "db_ok (cw_db W) \<Longrightarrow> db_history (cw_db W) run \<noteq> [] \<Longrightarrow>
   last (db_history (cw_db W) run) = b \<Longrightarrow> pb_to b = paused \<Longrightarrow> pb_from b \<noteq> Some paused \<Longrightarrow>
   resume_from_pause E W run = (W', Inr out) \<Longrightarrow>
   W' = W \<and> \<not> ro_accepted out \<and> ro_resumed out = None \<and> \<not> ro_committed out"
proof -
  assume ok: "db_ok (cw_db W)" and ne: "db_history (cw_db W) run \<noteq> []"
    and b: "last (db_history (cw_db W) run) = b" "pb_to b = paused" "pb_from b \<noteq> Some paused"
    and r: "resume_from_pause E W run = (W', Inr out)"
  obtain b0 where lb: "last_boundary (cw_db W) run = Inr b0"
    using r by (auto simp: resume_from_pause_def split: sum.splits)
  then obtain i where i: "b0 = Some b" "run_identifier run = Inr i"
    using last_boundary_Inr [OF ok lb] ne b by auto
  have at: "phase_at_pause (cw_db W) run = Inr (case pb_from b of
      None \<Rightarrow> None | Some p \<Rightarrow> if p \<in> resumable_phases then Some p else None)"
    using phase_at_pause_last [OF ok i(2) ne] b by (simp add: waiting_phases_def)
  have "is_legal_phase_transition (pb_from b) paused"
    using last_boundary_legal [OF ok ne] b by simp
  then have "\<not> is_legal_phase_transition (Some paused) p" if "pb_from b = Some p" for p
    using b(3) that by (cases p) (simp_all add: is_legal_phase_transition.simps)
  then show ?thesis
    using r lb i at b by (cases "pb_from b") (auto simp: resume_from_pause_def waiting_phases_def split: if_splits)
qed

text \<open>Resuming a captcha pause by the operator's control: when no later attempt is in the
  history, the run is back in the phase the pause interrupted, under the next attempt, and
  no pause request is outstanding any more.\<close>

theorem captcha_resume_reenters_phase:
  "db_ok (cw_db W) \<Longrightarrow> db_history (cw_db W) run \<noteq> [] \<Longrightarrow>
   last (db_history (cw_db W) run) = b \<Longrightarrow> pb_to b = captcha_paused \<Longrightarrow>
   pb_from b = Some p \<Longrightarrow> p \<in> captcha_interruptible_phases \<Longrightarrow>
   \<forall>c\<in>set (db_history (cw_db W) run). pb_attempt c \<le> pb_attempt b \<Longrightarrow>
   \<forall>x\<in>pause_lifecycle_events. ce_rd E x = x \<Longrightarrow>
   resume_from_pause E W run = (W', Inr out) \<Longrightarrow>
   ro_committed out \<and> ro_resumed out = Some p \<and>
   current_phase (cw_db W') run = Inr (Some (p, pb_attempt b + 1)) \<and> \<not> pause_requested E W' run"
proof -
  assume ok: "db_ok (cw_db W)" and ne: "db_history (cw_db W) run \<noteq> []"
    and b: "last (db_history (cw_db W) run) = b" "pb_to b = captcha_paused" "pb_from b = Some p"
    and p: "p \<in> captcha_interruptible_phases"
    and low: "\<forall>c\<in>set (db_history (cw_db W) run). pb_attempt c \<le> pb_attempt b"
    and rd: "\<forall>x\<in>pause_lifecycle_events. ce_rd E x = x"
    and r: "resume_from_pause E W run = (W', Inr out)"
  obtain b0 where lb: "last_boundary (cw_db W) run = Inr b0"
    using r by (auto simp: resume_from_pause_def split: sum.splits)
  then obtain i where i: "b0 = Some b" "run_identifier run = Inr i"
    using last_boundary_Inr [OF ok lb] ne b by auto
  have "p \<in> resumable_phases" using p every_phase_resumable [of p]
    by (auto simp: captcha_interruptible_phases_def phase_sets)
  then have at: "phase_at_pause (cw_db W) run = Inr (Some p)"
    using phase_at_pause_last [OF ok i(2) ne] b by (simp add: waiting_phases_def)
  have legal: "is_legal_phase_transition (Some captcha_paused) p"
    using captcha_interruptible [OF p] by blast
  obtain W1 v where com: "commit_control E W run b p ''captcha_resolved'' (pb_attempt b + 1)
      ''onboarding_captcha_resolved'' False = (W1, v)" by force
  have res: "v \<noteq> Inl e \<and> W' = W1 \<and> (\<forall>c. v = Inr c \<longrightarrow>
      ro_committed out = c \<and> ro_resumed out = (if c then Some p else None))" for e
    using r lb i at b legal com by (cases v) (auto simp: resume_from_pause_def waiting_phases_def)
  show ?thesis
  proof (cases rule: commit_control_cases [OF com])
    case 1
    then obtain corr where "v = Inr False"
      "violates_unique (cw_db W) run (control_commit b p ''captcha_resolved'' (pb_attempt b + 1) corr)"
      using res by (cases v) auto
    then show ?thesis using control_commit_repeats [OF _ ok] low by fastforce
  next
    case (2 corr D)
    note st = committed_stands [OF 2(2) ok, simplified]
    obtain L where L: "project_phase (ce_rd E) (ce_sj E) (ce_st E) phase_text (cw_ledger W) run p
        ''captcha_resolved'' ''onboarding_captcha_resolved'' False = Inr L" "v = Inr True" "cw_ledger W1 = L"
      using 2(4) res by (auto split: sum.splits)
    obtain q where q: "audit (cw_ledger W1) = audit (cw_ledger W) @
        [\<lparr>ev_run = ce_rd E run, ev_type = ''onboarding_captcha_resolved'', ev_payload = q\<rparr>]"
      using project_phase_audit [OF L(1)] rd L(3) by (auto simp: pause_lifecycle_events_def)
    have "\<not> pause_requested E W1 run"
      using pause_requested_append [OF q]
      by (simp add: pause_lifecycle_events_def pause_requested_event_def)
    then show ?thesis using st 2(3) res L(2) by auto
  qed
qed

text \<open>A cancellation is durable before it is answered, or nothing happened: a refused
  cancel changes nothing and calls no release; an accepted one that commits leaves the run
  in \<^theory_text>\<open>cancelled\<close>, and it always commits unless the history already holds a boundary into
  \<^theory_text>\<open>cancelled\<close>.\<close>

theorem cancel_is_durable:
  "cancel_run E answer W run = (W', Inr out, called) \<Longrightarrow> db_ok (cw_db W) \<Longrightarrow>
   (if co_accepted out
    then called = (answer \<noteq> None) \<and> co_released out = (answer = Some (Inr True)) \<and>
      (co_committed out \<longrightarrow> (\<exists>n. current_phase (cw_db W') run = Inr (Some (cancelled, n)))) \<and>
      (cancelled \<notin> pb_to ` set (db_history (cw_db W) run) \<longrightarrow> co_committed out)
    else W' = W \<and> \<not> called \<and> \<not> co_committed out \<and> \<not> co_released out)"
proof -
  assume c: "cancel_run E answer W run = (W', Inr out, called)" and ok: "db_ok (cw_db W)"
  show ?thesis
  proof (cases "co_accepted out")
    case False
    then show ?thesis
      using c by (auto simp: cancel_run_def split: sum.splits option.splits if_splits prod.splits)
  next
    case True
    obtain b released where b: "last_boundary (cw_db W) run = Inr (Some b)"
      "(case answer of None \<Rightarrow> Inr False | Some v \<Rightarrow> v) = Inr released"
      using c True by (auto simp: cancel_run_def split: sum.splits option.splits if_splits)
    obtain W1 v where com: "commit_control E W run b cancelled ''operator_cancelled'' (pb_attempt b)
        ''onboarding_cancelled'' released = (W1, v)" by force
    have res: "W' = W1 \<and> v = Inr (co_committed out) \<and> called = (answer \<noteq> None) \<and> co_released out = released"
      using c True b com by (cases v) (auto simp: cancel_run_def split: if_splits)
    have ans: "released = (answer = Some (Inr True))" using b(2) by (auto split: option.splits)
    show ?thesis
    proof (cases rule: commit_control_cases [OF com])
      case 1
      then obtain corr where nc: "\<not> co_committed out"
        "violates_unique (cw_db W) run (control_commit b cancelled ''operator_cancelled'' (pb_attempt b) corr)"
        using res by (cases v) auto
      then have "cancelled \<in> pb_to ` set (db_history (cw_db W) run)"
        using control_commit_repeats [OF nc(2) ok] by force
      then show ?thesis using True res ans nc by simp
    next
      case (2 corr D)
      have "co_committed out" using 2(4) res by (auto split: sum.splits)
      then show ?thesis using True res ans committed_stands [OF 2(2) ok, simplified] 2(3) by auto
    qed
  qed
qed

text \<open>A cancel does not stop a worker that is still driving: the next boundary such a
  worker commits out of the phase the cancel found is accepted as a fresh one, and the run
  has left \<^theory_text>\<open>cancelled\<close>.\<close>

theorem cancelled_run_is_driven_on:
  "cancel_run E answer W run = (W', Inr out, called) \<Longrightarrow> co_committed out \<Longrightarrow> db_ok (cw_db W) \<Longrightarrow>
   pc_from c = Some (pb_to (last (db_history (cw_db W) run))) \<Longrightarrow> pc_to c \<noteq> cancelled \<Longrightarrow>
   (pc_from c, pc_to c, pc_attempt c, pc_correlation c) \<notin> boundary_key ` set (db_history (cw_db W) run) \<Longrightarrow>
   commit_phase (ce_known E) (cw_db W') run c = (D, Inr fresh) \<Longrightarrow>
   fresh \<and> current_phase D run = Inr (Some (pc_to c, pc_attempt c))"
proof -
  assume c: "cancel_run E answer W run = (W', Inr out, called)" and com: "co_committed out"
    and ok: "db_ok (cw_db W)" and to: "pc_to c \<noteq> cancelled"
    and new: "(pc_from c, pc_to c, pc_attempt c, pc_correlation c) \<notin> boundary_key ` set (db_history (cw_db W) run)"
    and nxt: "commit_phase (ce_known E) (cw_db W') run c = (D, Inr fresh)"
  obtain b released where b: "commit_control E W run b cancelled ''operator_cancelled'' (pb_attempt b)
      ''onboarding_cancelled'' released = (W', Inr True)"
    using c com by (auto simp: cancel_run_def split: sum.splits option.splits if_splits prod.splits)
  show ?thesis
  proof (cases rule: commit_control_cases [OF b])
    case (2 corr D1)
    have ok': "db_ok (cw_db W')" using commit_phase_ok [OF ok 2(2)] 2(3) by simp
    have h: "db_history (cw_db W') run = db_history (cw_db W) run @
        [boundary_of (next_sequence (cw_db W) run) (control_commit b cancelled ''operator_cancelled'' (pb_attempt b) corr)]"
      using committed_stands [OF 2(2) ok] 2(3) by simp
    have "fresh"
    proof (cases rule: commit_phase_cases [OF nxt])
      case 2
      then have "(pc_from c, pc_to c, pc_attempt c, pc_correlation c) \<in> boundary_key ` set (db_history (cw_db W') run)"
        using violates_unique_iff [of "cw_db W'" run "db_states (cw_db W') run" c] ok' by (simp add: db_ok_def)
      then show ?thesis using new to h by (auto simp: boundary_key_def boundary_of_def)
    qed auto
    then show ?thesis using committed_stands [of "ce_known E" "cw_db W'" run c D] nxt ok' by simp
  qed simp
qed

text \<open>A pause the run accepts is durable whether or not the phase table lets it park: the
  request is outstanding in the audit trail afterwards, and either the run stands in
  \<^theory_text>\<open>paused\<close> or its history is what it was.\<close>

theorem pause_request_is_outstanding:
  "request_pause E probe W run rc = (W', Inr out) \<Longrightarrow> po_accepted out \<Longrightarrow> po_after out \<noteq> paused \<Longrightarrow>
   db_ok (cw_db W) \<Longrightarrow> \<forall>x\<in>insert ''onboarding_paused'' pause_lifecycle_events. ce_rd E x = x \<Longrightarrow>
   pause_requested E W' run \<and>
   (if po_committed out then \<exists>n. current_phase (cw_db W') run = Inr (Some (paused, n))
    else db_history (cw_db W') run = db_history (cw_db W) run)"
proof -
  assume p: "request_pause E probe W run rc = (W', Inr out)" and acc: "po_accepted out" "po_after out \<noteq> paused"
    and ok: "db_ok (cw_db W)" and rd: "\<forall>x\<in>insert ''onboarding_paused'' pause_lifecycle_events. ce_rd E x = x"
  obtain b W1 W2 ss where st: "settle_reserved_effects E probe W run = (W1, Inr ss)"
    "W2 = record_pause_request E W1 run (pb_to b) rc (length ss)"
    "if is_legal_phase_transition (Some (pb_to b)) paused
     then \<exists>n. commit_control E W2 run b paused rc (pb_attempt b + int n) ''onboarding_paused'' False =
       (W', Inr (po_committed out))
     else W' = W2 \<and> \<not> po_committed out"
    by (rule pause_steps [OF p acc])
  have "same_phases (cw_db W) (cw_db W1)"
    using st(1) settle_each_phases
    by (auto simp: settle_reserved_effects_def same_phases_refl split: sum.splits)
  then have same: "same_phases (cw_db W) (cw_db W2)" using st(2) by (simp add: record_pause_request_def)
  have ok2: "db_ok (cw_db W2)" using same ok same_phases_ok by blast
  have out2: "pause_requested E W2 run"
    using pause_requested_append [of W2 W1 E run pause_requested_event] rd st(2)
    by (simp add: record_pause_request_def append_audit_event_def pause_lifecycle_events_def)
  show ?thesis
  proof (cases "W' = W2 \<and> \<not> po_committed out")
    case True
    then show ?thesis using out2 same by (simp add: same_phases_def)
  next
    case False
    then obtain n where com: "commit_control E W2 run b paused rc (pb_attempt b + int n)
        ''onboarding_paused'' False = (W', Inr (po_committed out))"
      using st(3) by (auto split: if_splits)
    show ?thesis
    proof (cases rule: commit_control_cases [OF com])
      case 1
      then show ?thesis using False by simp
    next
      case (2 corr D)
      obtain L where L: "project_phase (ce_rd E) (ce_sj E) (ce_st E) phase_text (cw_ledger W2) run paused
          rc ''onboarding_paused'' False = Inr L" "po_committed out" "cw_ledger W' = L"
        using 2(4) by (auto split: sum.splits)
      obtain q where q: "audit (cw_ledger W') = audit (cw_ledger W2) @
          [\<lparr>ev_run = ce_rd E run, ev_type = ''onboarding_paused'', ev_payload = q\<rparr>]"
        using project_phase_audit [OF L(1)] rd L(3) by auto
      have "pause_requested E W' run"
        using pause_requested_append [OF q] out2
        by (simp add: pause_lifecycle_events_def pause_requested_event_def)
      then show ?thesis using L(2) committed_stands [OF 2(2) ok2, simplified] 2(3) by auto
    qed
  qed
qed

section \<open>Witnesses\<close>

definition sample_control :: control_env where
  "sample_control = \<lparr>ce_rd = id, ce_known = all_runs, ce_rdr = id, ce_jlen = length,
     ce_sha = sample_sha, ce_sj = id, ce_st = (\<lambda>_. CNull)\<rparr>"

definition in_flight_db :: phase_db where
  "in_flight_db = signup_db\<lparr>db_intents := [(''r1'', ''k'') \<mapsto> Pending],
     db_reservations := (\<lambda>_. [])(''r1'' := [(''k'', \<lparr>er_effect = signup_submit, er_generation = 0,
       er_phase = signup, er_disposition = Execute, er_receipt = None, er_reason = ''signup_submitted''\<rparr>)])\<rparr>"

definition control_world_of :: "phase_db \<Rightarrow> control_world" where
  "control_world_of D = \<lparr>cw_db = D, cw_ledger = \<lparr>runs = [''r1'' \<mapsto> \<lparr>status = browser_running,
     state_revision = 1, last_projected_revision = 1, columns = Map.empty\<rparr>], audit = []\<rparr>\<rparr>"

lemma in_flight_db_ok: "db_ok (cw_db (control_world_of in_flight_db))"
  using signup_db_ok by (simp add: db_ok_def in_flight_db_def control_world_of_def)

lemma sample_pause_request:
  obtains W' out e where
    "request_pause sample_control None (control_world_of in_flight_db) ''r1'' pause_reason_code = (W', Inr out)"
    "po_accepted out" "po_after out = signup" "po_committed out"
    "map_of (db_reservations (cw_db W') ''r1'') ''k'' = Some e"
proof -
  have "case request_pause sample_control None (control_world_of in_flight_db) ''r1'' pause_reason_code of
      (W', Inr out) \<Rightarrow> po_accepted out \<and> po_after out = signup \<and> po_committed out \<and>
        (case map_of (db_reservations (cw_db W') ''r1'') ''k'' of Some e \<Rightarrow> True | None \<Rightarrow> False)
    | _ \<Rightarrow> False" by code_simp
  then show ?thesis by (auto split: prod.splits sum.splits option.splits intro: that)
qed

lemma pause_leaves_nothing_in_flight_witness:
  "\<exists>W' out e. request_pause sample_control None (control_world_of in_flight_db) ''r1'' pause_reason_code =
       (W', Inr out) \<and>
     map_of (db_reservations (cw_db W') ''r1'') ''k'' = Some e \<and> er_disposition e = Pause_Outcome_Unknown"
proof -
  obtain W' out e where r: "request_pause sample_control None (control_world_of in_flight_db) ''r1''
      pause_reason_code = (W', Inr out)" "po_accepted out" "po_after out = signup"
    "map_of (db_reservations (cw_db W') ''r1'') ''k'' = Some e"
    using sample_pause_request by metis
  have rd: "ce_rd sample_control ''r1'' = ''r1''" by (simp add: sample_control_def)
  obtain e0 where e0: "map_of (db_reservations (cw_db (control_world_of in_flight_db)) ''r1'') ''k'' = Some e0"
    "er_disposition e0 = Execute"
    by (simp add: in_flight_db_def control_world_of_def)
  have "distinct (map fst (db_reservations (cw_db (control_world_of in_flight_db)) ''r1''))"
    "\<forall>k\<in>fst ` set (db_reservations (cw_db (control_world_of in_flight_db)) ''r1''). ce_rd sample_control k = k"
    by (simp_all add: sample_control_def in_flight_db_def control_world_of_def signup_db_def)
  from pause_leaves_nothing_in_flight [OF r(1,2), unfolded rd, OF this]
  have "er_disposition e = settled_disposition None ''k'' e0"
    using r(3,4) e0 by (auto simp: in_flight_dispositions_def dest: spec [of _ "''k''"] split: option.splits)
  then show ?thesis using r by (auto simp: settled_disposition_def)
qed

lemma pause_request_is_outstanding_witness:
  "\<exists>W' out n. request_pause sample_control None (control_world_of in_flight_db) ''r1'' pause_reason_code =
       (W', Inr out) \<and> pause_requested sample_control W' ''r1'' \<and>
     current_phase (cw_db W') ''r1'' = Inr (Some (paused, n))"
proof -
  obtain W' out where r: "request_pause sample_control None (control_world_of in_flight_db) ''r1''
      pause_reason_code = (W', Inr out)" "po_accepted out" "po_after out = signup" "po_committed out"
    using sample_pause_request by metis
  have "\<forall>x\<in>insert ''onboarding_paused'' pause_lifecycle_events. ce_rd sample_control x = x"
    by (simp add: sample_control_def)
  then show ?thesis
    using pause_request_is_outstanding [OF r(1,2) _ in_flight_db_ok] r by auto
qed

definition parked :: "phase \<Rightarrow> phase_boundary" where
  "parked p = \<lparr>pb_sequence = 2, pb_from = Some signup, pb_to = p, pb_reason = ''captcha_detected'',
     pb_digest = digest64, pb_attempt = 0, pb_correlation = ''d''\<rparr>"

definition parked_db :: "phase \<Rightarrow> phase_db" where
  "parked_db p = empty_db\<lparr>db_history := (\<lambda>_. [])(''r1'' := [signup_boundary, parked p]),
     db_states := [''r1'' \<mapsto> signup_state\<lparr>rs_phase := p\<rparr>]\<rparr>"

lemma parked_db_ok:
  "is_legal_phase_transition (Some signup) p \<Longrightarrow> db_ok (cw_db (control_world_of (parked_db p)))"
  using signup_db_ok
  by (auto simp: db_ok_def run_ok_def control_world_of_def parked_db_def empty_db_def parked_def
      signup_boundary_def boundary_ok_def signup_state_def digest64_def onboarding_reason_codes_def
      upt_rec boundary_key_def is_legal_phase_transition.simps)

lemma operator_pause_is_not_resumable_witness:
  "\<exists>out. resume_from_pause sample_control (control_world_of (parked_db paused)) ''r1'' =
     (control_world_of (parked_db paused), Inr out) \<and> \<not> ro_accepted out"
proof -
  have "case resume_from_pause sample_control (control_world_of (parked_db paused)) ''r1'' of
      (W', Inr out) \<Rightarrow> True | _ \<Rightarrow> False" by code_simp
  then obtain W' out where r:
    "resume_from_pause sample_control (control_world_of (parked_db paused)) ''r1'' = (W', Inr out)"
    by (auto split: prod.splits sum.splits)
  have "db_ok (cw_db (control_world_of (parked_db paused)))"
    by (rule parked_db_ok) (simp add: is_legal_phase_transition.simps)
  then show ?thesis
    using operator_pause_is_not_resumable [OF _ _ _ _ _ r] r
    by (auto simp: control_world_of_def parked_db_def parked_def)
qed

lemma captcha_resume_reenters_phase_witness:
  "\<exists>W' out. resume_from_pause sample_control (control_world_of (parked_db captcha_paused)) ''r1'' =
     (W', Inr out) \<and> current_phase (cw_db W') ''r1'' = Inr (Some (signup, 1))"
proof -
  have "case resume_from_pause sample_control (control_world_of (parked_db captcha_paused)) ''r1'' of
      (W', Inr out) \<Rightarrow> True | _ \<Rightarrow> False" by code_simp
  then obtain W' out where r:
    "resume_from_pause sample_control (control_world_of (parked_db captcha_paused)) ''r1'' = (W', Inr out)"
    by (auto split: prod.splits sum.splits)
  have ok: "db_ok (cw_db (control_world_of (parked_db captcha_paused)))"
    by (rule parked_db_ok) (simp add: is_legal_phase_transition.simps)
  have "current_phase (cw_db W') ''r1'' = Inr (Some (signup, pb_attempt (parked captcha_paused) + 1))"
    by (rule captcha_resume_reenters_phase [OF ok _ _ _ _ _ _ _ r, THEN conjunct2, THEN conjunct2, THEN conjunct1])
      (simp_all add: control_world_of_def parked_db_def parked_def signup_boundary_def sample_control_def
        captcha_interruptible_phases_def phase_sets)
  then show ?thesis using r by (auto simp: parked_def)
qed

lemma sample_cancel:
  obtains W' out called where
    "cancel_run sample_control (Some (Inr True)) (control_world_of in_flight_db) ''r1'' = (W', Inr out, called)"
    "co_accepted out" "co_committed out"
proof -
  have "case cancel_run sample_control (Some (Inr True)) (control_world_of in_flight_db) ''r1'' of
      (W', Inr out, called) \<Rightarrow> co_accepted out \<and> co_committed out | _ \<Rightarrow> False" by code_simp
  then show ?thesis by (auto split: prod.splits sum.splits intro: that)
qed

lemma cancel_is_durable_witness:
  "\<exists>W' out n. cancel_run sample_control (Some (Inr True)) (control_world_of in_flight_db) ''r1'' =
     (W', Inr out, True) \<and> current_phase (cw_db W') ''r1'' = Inr (Some (cancelled, n))"
proof -
  obtain W' out called where
    r: "cancel_run sample_control (Some (Inr True)) (control_world_of in_flight_db) ''r1'' = (W', Inr out, called)"
    "co_accepted out" "co_committed out" by (rule sample_cancel)
  show ?thesis using cancel_is_durable [OF r(1) in_flight_db_ok] r by auto
qed

text \<open>The worker that was in \<^theory_text>\<open>signup\<close> when the run was cancelled.\<close>

definition late_commit :: phase_commit where
  "late_commit = \<lparr>pc_from = Some signup, pc_to = email_verification, pc_reason = ''signup_submitted'',
     pc_digest = digest64, pc_attempt = 0, pc_correlation = ''e''\<rparr>"

lemma cancelled_run_is_driven_on_witness:
  "\<exists>W' out called D. cancel_run sample_control (Some (Inr True)) (control_world_of in_flight_db) ''r1'' =
       (W', Inr out, called) \<and> co_committed out \<and>
     commit_phase all_runs (cw_db W') ''r1'' late_commit = (D, Inr True) \<and>
     current_phase D ''r1'' = Inr (Some (email_verification, 0))"
proof -
  have "case cancel_run sample_control (Some (Inr True)) (control_world_of in_flight_db) ''r1'' of
      (W', Inr out, called) \<Rightarrow> co_committed out \<and>
        (case commit_phase all_runs (cw_db W') ''r1'' late_commit of (D, Inr fresh) \<Rightarrow> True | _ \<Rightarrow> False)
    | _ \<Rightarrow> False" by code_simp
  then obtain W' out called D fresh where r:
    "cancel_run sample_control (Some (Inr True)) (control_world_of in_flight_db) ''r1'' = (W', Inr out, called)"
    "co_committed out" "commit_phase (ce_known sample_control) (cw_db W') ''r1'' late_commit = (D, Inr fresh)"
    by (auto simp: sample_control_def split: prod.splits sum.splits)
  have "fresh \<and> current_phase D ''r1'' = Inr (Some (pc_to late_commit, pc_attempt late_commit))"
    by (rule cancelled_run_is_driven_on [OF r(1,2) in_flight_db_ok _ _ _ r(3)])
      (simp_all add: late_commit_def control_world_of_def in_flight_db_def signup_db_def signup_boundary_def
        boundary_key_def)
  then show ?thesis using r by (auto simp: late_commit_def sample_control_def)
qed

end
