(* ===== verification/Recovery.thy ===== *)
theory Recovery
  imports Driver
begin

text \<open>
  \<^theory_text>\<open>recover_run\<close> and \<^theory_text>\<open>recover_runs\<close> of \<^theory_text>\<open>ops/onboarding/driver.py\<close>: what the next worker
  is to do with a run another one was driving, planned from the durable history, the
  profile and the standing reservations. Recovery reads the phase store and writes
  nothing; the only calls it makes are the two verbs of the bound-session port, whose
  answers are the environment's and whose calls are part of the result.
\<close>

section \<open>Plans\<close>

datatype recovery_disposition = Continue_Run | Pause_Run | Restart_Research | Terminal_Run

record recovery_plan =
  rv_run :: string
  rv_disposition :: recovery_disposition
  rv_phase :: phase
  rv_attempt :: int
  rv_digest :: string
  rv_reason :: string
  rv_session :: "string option"
  rv_reenter :: bool
  rv_effects :: "effect_plan list"

definition recovery_pause_reasons :: "string set" where
  "recovery_pause_reasons = {''outcome_unknown'', ''session_unreattachable''}"

definition recovery_continue_reasons :: "string set" where
  "recovery_continue_reasons =
     {''lease_expired_recovered'', ''session_reattached'', ''session_recreated''}"

definition authenticated_session_phases :: "phase set" where
  "authenticated_session_phases = {authenticated, developer_app, credential_generation}"

text \<open>\<^theory_text>\<open>RecoveryPlan.__post_init__\<close>.\<close>

definition make_recovery_plan :: "recovery_plan \<Rightarrow> recovery_plan result" where
  "make_recovery_plan p =
     bindR (run_identifier (rv_run p)) (\<lambda>_.
     bindR (attempt_check (rv_attempt p)) (\<lambda>_.
     bindR (reason_code_check (rv_reason p)) (\<lambda>_.
     bindR (if rv_digest p \<noteq> [] then bindR (profile_digest_check (rv_digest p)) (\<lambda>_. Inr ())
            else if rv_disposition p \<noteq> Restart_Research
            then Inl (ValueError ''a resumed run carries the profile digest it recorded'')
            else Inr ()) (\<lambda>_.
     bindR (case rv_session p of
              None \<Rightarrow> Inr ()
            | Some s \<Rightarrow>
                bindR (store_identifier 200 ''browser session id is invalid'' s) (\<lambda>_.
                  if rv_phase p \<notin> session_bearing_phases
                  then Inl (ValueError ''only a session-bearing phase carries a browser session'')
                  else Inr ())) (\<lambda>_.
       if rv_reenter p \<noteq> (rv_reason p = ''session_recreated'')
       then Inl (ValueError ''a phase is re-entered from its start exactly when a session was new'')
       else (case rv_disposition p of
           Continue_Run \<Rightarrow>
             if rv_phase p \<in> terminal_phases
             then Inl (ValueError ''a terminal run is not continued'')
             else if rv_reason p \<notin> recovery_continue_reasons
             then Inl (ValueError ''a continuing recovery names how its session was obtained'')
             else Inr p
         | Pause_Run \<Rightarrow>
             if rv_reason p \<notin> recovery_pause_reasons
             then Inl (ValueError ''a recovery pauses on an ambiguous effect or an unreattachable session'')
             else Inr p
         | Terminal_Run \<Rightarrow>
             if rv_phase p \<notin> terminal_phases
             then Inl (ValueError ''a terminal recovery plan names a terminal phase'')
             else Inr p
         | Restart_Research \<Rightarrow>
             if rv_phase p \<noteq> initial_phase
             then Inl (ValueError ''a restarted walk begins at the initial phase'')
             else Inr p))))))"

definition is_resumable :: "recovery_plan \<Rightarrow> bool" where
  "is_resumable p = (rv_disposition p = Continue_Run)"

definition restart_research :: "string \<Rightarrow> recovery_plan result" where
  "restart_research run = make_recovery_plan \<lparr>rv_run = run, rv_disposition = Restart_Research,
     rv_phase = initial_phase, rv_attempt = 0, rv_digest = [], rv_reason = ''lease_expired_recovered'',
     rv_session = None, rv_reenter = False, rv_effects = []\<rparr>"

section \<open>Recovering a run\<close>

text \<open>The reads of a recovery: the profiles, the redaction, the reader of the effects if one
  is wired, and the session port with its two answers if one is wired.\<close>

record session_port =
  sp_reattach :: "string option result"
  sp_create :: "string option result"

record recovery_env =
  rc_profiles :: "string \<Rightarrow> provider_profile option"
  rc_for_run :: "provider_profile option"
  rc_rd :: "string \<Rightarrow> string"
  rc_effects :: bool
  rc_sessions :: "session_port option"

datatype session_call = Reattach_Call string | Create_Call string

definition recovery_effect_plans ::
    "recovery_env \<Rightarrow> phase_db \<Rightarrow> string \<Rightarrow> phase \<Rightarrow> effect_plan list result" where
  "recovery_effect_plans E D run p =
     (if \<not> rc_effects E then Inr []
      else bindR (reservations (rc_rd E) D run) (\<lambda>rs. Inr
        (map (\<lambda>(key, e). \<lparr>plan_key = key, plan_provider = effect_provider, plan_action = er_effect e,
               plan_disposition = er_disposition e,
               plan_receipt = (if er_receipt e = Some [] then None else er_receipt e),
               plan_reason = er_reason e\<rparr>)
          (filter (\<lambda>(key, e). er_phase e = p) rs))))"

definition standing_plan_of ::
    "string \<Rightarrow> phase \<times> int \<Rightarrow> string \<Rightarrow> recovery_disposition \<Rightarrow> string \<Rightarrow> string option \<Rightarrow>
     effect_plan list \<Rightarrow> recovery_plan result" where
  "standing_plan_of run standing digest disp reason sess effs = make_recovery_plan
     \<lparr>rv_run = run, rv_disposition = disp, rv_phase = fst standing, rv_attempt = snd standing,
      rv_digest = digest, rv_reason = reason, rv_session = sess,
      rv_reenter = (disp = Continue_Run \<and> reason = ''session_recreated''), rv_effects = effs\<rparr>"

text \<open>The session part: a phase that bears none continues; otherwise the bound session is
  asked for first, and a new one only for a phase that does not need authentication and
  only when no effect of the phase is of unknown outcome.\<close>

definition recover_with_session ::
    "(recovery_disposition \<Rightarrow> string \<Rightarrow> string option \<Rightarrow> recovery_plan result) \<Rightarrow> phase \<Rightarrow> string \<Rightarrow>
     bool \<Rightarrow> session_port \<Rightarrow> recovery_plan result \<times> session_call list" where
  "recover_with_session plan p slug unknown sp =
     (case sp_reattach sp of
        Inl e \<Rightarrow> (Inl e, [Reattach_Call slug])
      | Inr sess \<Rightarrow>
          if unknown then (plan Pause_Run ''outcome_unknown'' sess, [Reattach_Call slug])
          else if sess \<noteq> None
          then (plan Continue_Run ''session_reattached'' sess, [Reattach_Call slug])
          else if p \<in> authenticated_session_phases
          then (plan Pause_Run ''session_unreattachable'' None, [Reattach_Call slug])
          else (case sp_create sp of
              Inl e \<Rightarrow> (Inl e, [Reattach_Call slug, Create_Call slug])
            | Inr None \<Rightarrow>
                (plan Pause_Run ''session_unreattachable'' None, [Reattach_Call slug, Create_Call slug])
            | Inr (Some sid) \<Rightarrow>
                (plan Continue_Run ''session_recreated'' (Some sid),
                 [Reattach_Call slug, Create_Call slug])))"

definition recover_standing ::
    "recovery_env \<Rightarrow> phase_db \<Rightarrow> string \<Rightarrow> phase \<times> int \<Rightarrow> string \<Rightarrow> string \<Rightarrow>
     recovery_plan result \<times> session_call list" where
  "recover_standing E D run standing digest slug =
     (case recovery_effect_plans E D run (fst standing) of
        Inl e \<Rightarrow> (Inl e, [])
      | Inr planned \<Rightarrow>
        (let plan = (\<lambda>disp reason sess. standing_plan_of run standing digest disp reason sess planned);
             unknown = list_ex (\<lambda>q. plan_disposition q = Pause_Outcome_Unknown) planned
         in if fst standing \<in> session_bearing_phases
            then (case rc_sessions E of
                None \<Rightarrow> (Inl (PhaseNotDrivable ''recovery has no bound-session reattacher wired''), [])
              | Some sp \<Rightarrow> recover_with_session plan (fst standing) slug unknown sp)
            else if unknown then (plan Pause_Run ''outcome_unknown'' None, [])
            else (plan Continue_Run ''lease_expired_recovered'' None, [])))"

definition recover_run ::
    "recovery_env \<Rightarrow> phase_db \<Rightarrow> string \<Rightarrow> string \<Rightarrow> recovery_plan result \<times> session_call list" where
  "recover_run E D run worker =
     (case bindR (store_identifier 200 ''worker id is invalid'' worker) (\<lambda>_. history D run) of
        Inl e \<Rightarrow> (Inl e, [])
      | Inr h \<Rightarrow>
        (let standing = resumption_phase h
         in case load_profile (rc_profiles E) (rc_for_run E) h of
              None \<Rightarrow> (restart_research run, [])
            | Some pr \<Rightarrow>
              (let digest = (if h = [] then pp_digest pr else pb_digest (last h))
               in if fst standing \<in> terminal_phases
                  then (standing_plan_of run standing digest Terminal_Run
                          (if h = [] then ''lease_expired_recovered'' else pb_reason (last h)) None [], [])
                  else recover_standing E D run standing digest (pp_app_slug pr))))"

text \<open>A set of runs, in the order asked for; the first error ends it.\<close>

fun recover_runs ::
    "(string \<Rightarrow> recovery_env) \<Rightarrow> phase_db \<Rightarrow> string \<Rightarrow> string list \<Rightarrow>
     recovery_plan list result \<times> session_call list" where
  "recover_runs E D worker [] = (Inr [], [])"
| "recover_runs E D worker (run # rest) =
     (case recover_run (E run) D run worker of
        (Inl e, calls) \<Rightarrow> (Inl e, calls)
      | (Inr p, calls) \<Rightarrow>
          (case recover_runs E D worker rest of
             (v, calls') \<Rightarrow> (bindR v (\<lambda>ps. Inr (p # ps)), calls @ calls')))"

section \<open>Lemmas\<close>

lemma make_recovery_plan_Inr:
  "make_recovery_plan p = Inr q \<Longrightarrow> q = p \<and>
   (case rv_disposition p of
      Continue_Run \<Rightarrow> rv_phase p \<notin> terminal_phases \<and> rv_reason p \<in> recovery_continue_reasons
    | Pause_Run \<Rightarrow> rv_reason p \<in> recovery_pause_reasons
    | Terminal_Run \<Rightarrow> rv_phase p \<in> terminal_phases
    | Restart_Research \<Rightarrow> rv_phase p = research)"
  by (auto simp: make_recovery_plan_def result_simps initial_phase_def
      split: if_splits recovery_disposition.splits option.splits sum.splits)

lemma standing_plan_Inr:
  "standing_plan_of run st digest disp reason sess effs = Inr q \<Longrightarrow>
   rv_disposition q = disp \<and> rv_phase q = fst st \<and> rv_attempt q = snd st \<and> rv_digest q = digest \<and>
   rv_reason q = reason \<and> rv_session q = sess \<and> rv_effects q = effs \<and>
   rv_reenter q = (disp = Continue_Run \<and> reason = ''session_recreated'')"
  unfolding standing_plan_of_def by (drule make_recovery_plan_Inr) simp

text \<open>The order of the session calls, and what each outcome of theirs leads to.\<close>

lemma recover_with_session_calls:
  "recover_with_session plan p slug unknown sp = (v, calls) \<Longrightarrow>
   (calls = [Reattach_Call slug] \<or>
    calls = [Reattach_Call slug, Create_Call slug] \<and> sp_reattach sp = Inr None \<and> \<not> unknown \<and>
      p \<notin> authenticated_session_phases)"
  by (auto simp: recover_with_session_def split: sum.splits if_splits option.splits)

lemma recover_standing_calls:
  "recover_standing E D run st digest slug = (v, calls) \<Longrightarrow>
   calls = [] \<or> (\<exists>sp. rc_sessions E = Some sp \<and> fst st \<in> session_bearing_phases \<and>
     (calls = [Reattach_Call slug] \<or>
      calls = [Reattach_Call slug, Create_Call slug] \<and> sp_reattach sp = Inr None \<and>
        fst st \<notin> authenticated_session_phases \<and>
        (\<forall>planned. recovery_effect_plans E D run (fst st) = Inr planned \<longrightarrow>
           \<not> list_ex (\<lambda>q. plan_disposition q = Pause_Outcome_Unknown) planned)))"
  by (auto simp: recover_standing_def Let_def dest!: recover_with_session_calls
      split: sum.splits if_splits option.splits)

text \<open>What a returned plan says of the run's standing.\<close>

lemma recover_standing_plan:
  "recover_standing E D run st digest slug = (Inr q, calls) \<Longrightarrow>
   rv_phase q = fst st \<and> rv_attempt q = snd st \<and> rv_digest q = digest \<and>
   recovery_effect_plans E D run (fst st) = Inr (rv_effects q) \<and>
   (if list_ex (\<lambda>q. plan_disposition q = Pause_Outcome_Unknown) (rv_effects q)
    then rv_disposition q = Pause_Run \<and> rv_reason q = ''outcome_unknown''
    else rv_disposition q \<in> {Continue_Run, Pause_Run} \<and>
      (rv_disposition q = Continue_Run \<longrightarrow> (rv_session q \<noteq> None) = (fst st \<in> session_bearing_phases)))"
  by (auto simp: recover_standing_def recover_with_session_def Let_def dest!: standing_plan_Inr
      split: sum.splits if_splits option.splits)

section \<open>Properties\<close>

text \<open>Where a recovery stands: in every database the phase store can reach, a plan names
  the phase and the attempt of the run's last committed boundary and the digest it
  recorded, and is terminal exactly when that phase is. The one exception is a run no
  profile is found for, which is sent back to research even when it had already ended.\<close>

theorem recovery_stands_at_last_boundary:
  "recover_run E D run worker = (Inr q, calls) \<Longrightarrow> db_ok D \<Longrightarrow> db_history D run \<noteq> [] \<Longrightarrow>
   last (db_history D run) = b \<Longrightarrow>
   (if rc_profiles E (pb_digest b) = None \<and> rc_for_run E = None
    then rv_disposition q = Restart_Research \<and> rv_phase q = research \<and> rv_digest q = [] \<and> calls = []
    else rv_phase q = pb_to b \<and> rv_attempt q = pb_attempt b \<and> rv_digest q = pb_digest b \<and>
      (rv_disposition q = Terminal_Run) = (pb_to b \<in> terminal_phases) \<and>
      rv_disposition q \<noteq> Restart_Research)"
proof -
  assume r: "recover_run E D run worker = (Inr q, calls)" and ok: "db_ok D"
    and ne: "db_history D run \<noteq> []" and b: "last (db_history D run) = b"
  obtain h where h: "history D run = Inr h"
    "(let standing = resumption_phase h
         in case load_profile (rc_profiles E) (rc_for_run E) h of
              None \<Rightarrow> (restart_research run, [])
            | Some pr \<Rightarrow>
              (let digest = (if h = [] then pp_digest pr else pb_digest (last h))
               in if fst standing \<in> terminal_phases
                  then (standing_plan_of run standing digest Terminal_Run
                          (if h = [] then ''lease_expired_recovered'' else pb_reason (last h)) None [], [])
                  else recover_standing E D run standing digest (pp_app_slug pr))) = (Inr q, calls)"
    using r by (auto simp: recover_run_def result_simps split: sum.splits)
  have eq: "h = db_history D run" by (rule history_Inr [OF h(1) ok])
  have st: "resumption_phase h = (pb_to b, pb_attempt b)"
    using resumption_phase_last [of h] ne b by (simp add: eq)
  show ?thesis
  proof (cases "load_profile (rc_profiles E) (rc_for_run E) h")
    case None
    then have "rc_profiles E (pb_digest b) = None \<and> rc_for_run E = None"
      using ne b by (auto simp: load_profile_def eq split: if_splits)
    moreover have "restart_research run = Inr q" "calls = []" using h(2) None by simp_all
    ultimately show ?thesis
      using make_recovery_plan_Inr unfolding restart_research_def by fastforce
  next
    case (Some pr)
    then have found: "\<not> (rc_profiles E (pb_digest b) = None \<and> rc_for_run E = None)"
      using ne b by (auto simp: load_profile_def eq split: if_splits)
    have "if pb_to b \<in> terminal_phases
      then standing_plan_of run (pb_to b, pb_attempt b) (pb_digest b) Terminal_Run (pb_reason b) None [] = Inr q
      else recover_standing E D run (pb_to b, pb_attempt b) (pb_digest b) (pp_app_slug pr) = (Inr q, calls)"
      using h(2) Some st ne b by (auto simp: eq Let_def split: if_splits)
    then show ?thesis
      using found by (auto dest!: standing_plan_Inr recover_standing_plan split: if_splits)
  qed
qed

text \<open>The keys the store holds as of unknown outcome for a phase of a run.\<close>

definition unknown_keys :: "recovery_env \<Rightarrow> phase_db \<Rightarrow> string \<Rightarrow> phase \<Rightarrow> string set" where
  "unknown_keys E D run p = fst ` set (filter (\<lambda>(k, e). er_phase e = p \<and> er_disposition e = Pause_Outcome_Unknown)
     (db_reservations D (rc_rd E run)))"

lemma recovery_effect_plans_unknown:
  assumes "recovery_effect_plans E D run p = Inr planned" "rc_effects E"
  shows "unknown_keys E D run p = plan_key ` set (filter (\<lambda>q. plan_disposition q = Pause_Outcome_Unknown) planned)"
proof -
  have "planned = map (\<lambda>(key, e). \<lparr>plan_key = key, plan_provider = effect_provider, plan_action = er_effect e,
               plan_disposition = er_disposition e,
               plan_receipt = (if er_receipt e = Some [] then None else er_receipt e),
               plan_reason = er_reason e\<rparr>) (filter (\<lambda>(key, e). er_phase e = p) (db_reservations D (rc_rd E run)))"
    using assms by (auto simp: recovery_effect_plans_def reservations_def list_reservations_def result_simps)
  then show ?thesis
    by (simp add: unknown_keys_def filter_map comp_def case_prod_unfold image_image conj_commute)
qed

lemma unknown_keys_empty:
  assumes "recovery_effect_plans E D run p = Inr planned" "rc_effects E"
  shows "list_ex (\<lambda>q. plan_disposition q = Pause_Outcome_Unknown) planned \<longleftrightarrow> unknown_keys E D run p \<noteq> {}"
  unfolding recovery_effect_plans_unknown [OF assms] by (auto simp: list_ex_iff)

text \<open>How a recovery ends: it is refused before it plans, sends the run back to research, reports
  the run over, or plans from where the run stands.\<close>

lemma recover_run_cases:
  assumes "recover_run E D run worker = (v, calls)" "db_ok D"
  obtains (refused) "calls = []" "\<forall>q. v \<noteq> Inr q"
    | (research) "calls = []" "load_profile (rc_profiles E) (rc_for_run E) (db_history D run) = None"
      "v = restart_research run"
    | (over) digest reason where "calls = []" "load_profile (rc_profiles E) (rc_for_run E) (db_history D run) \<noteq> None"
      "fst (resumption_phase (db_history D run)) \<in> terminal_phases"
      "v = standing_plan_of run (resumption_phase (db_history D run)) digest Terminal_Run reason None []"
    | (standing) digest slug where "load_profile (rc_profiles E) (rc_for_run E) (db_history D run) \<noteq> None"
      "fst (resumption_phase (db_history D run)) \<notin> terminal_phases"
      "recover_standing E D run (resumption_phase (db_history D run)) digest slug = (v, calls)"
proof (cases "bindR (store_identifier 200 ''worker id is invalid'' worker) (\<lambda>_. history D run)")
  case (Inl e)
  then show ?thesis using refused assms(1) by (auto simp: recover_run_def)
next
  case (Inr h)
  then have "h = db_history D run" using history_Inr [OF _ assms(2)] by (auto simp: result_simps)
  then show ?thesis
    using assms(1) Inr research over standing
    by (cases "load_profile (rc_profiles E) (rc_for_run E) h")
      (auto simp: recover_run_def Let_def split: if_splits)
qed

text \<open>The calls and the plan of a standing run, against the unknown keys of the store.\<close>

lemma recover_standing_creates:
  assumes "recover_standing E D run st digest slug = (v, calls)" "rc_effects E" "Create_Call slug' \<in> set calls"
  shows "calls = [Reattach_Call slug', Create_Call slug'] \<and>
    (\<exists>sp. rc_sessions E = Some sp \<and> sp_reattach sp = Inr None) \<and>
    fst st \<in> session_bearing_phases - authenticated_session_phases \<and> unknown_keys E D run (fst st) = {}"
proof -
  have "calls \<noteq> []" using assms(3) by auto
  then obtain planned where planned: "recovery_effect_plans E D run (fst st) = Inr planned"
    using assms(1) by (auto simp: recover_standing_def split: sum.splits)
  show ?thesis
    using recover_standing_calls [OF assms(1)] assms(3) planned unknown_keys_empty [OF planned assms(2)] by auto
qed

lemma recover_standing_pauses:
  assumes "recover_standing E D run st digest slug = (Inr q, calls)" "rc_effects E"
    and "unknown_keys E D run (fst st) \<noteq> {}"
  shows "rv_disposition q = Pause_Run \<and> rv_reason q = ''outcome_unknown'' \<and> rv_phase q = fst st \<and>
    length calls \<le> 1 \<and>
    unknown_keys E D run (fst st) =
      plan_key ` set (filter (\<lambda>e. plan_disposition e = Pause_Outcome_Unknown) (rv_effects q))"
proof -
  note p = recover_standing_plan [OF assms(1)]
  have planned: "recovery_effect_plans E D run (fst st) = Inr (rv_effects q)" using p by blast
  have "length calls \<le> 1"
    using recover_standing_calls [OF assms(1)] recover_standing_creates [OF assms(1,2)] assms(3) by fastforce
  then show ?thesis
    using p recovery_effect_plans_unknown [OF planned assms(2)] unknown_keys_empty [OF planned assms(2)] assms(3)
    by (simp split: if_splits)
qed

text \<open>C35. A recovery never guesses and never drops an authenticated session. With the reader of the
  reservations wired, in every database the phase store can reach: a session is created only after the
  bound one was asked for and was gone, at most once, never for a phase that presupposes an authenticated
  one, and never while the store holds a reservation of the standing phase as of unknown outcome. While
  it does, every plan returned for a run that is not over and whose profile is found pauses on the unknown
  outcome and names exactly those keys as unknown. (Without a profile the plan restarts research; the
  reservations of other phases are not read.)\<close>

theorem recovery_never_guesses:
  assumes "recover_run E D run worker = (v, calls)" "rc_effects E" "db_ok D"
    and "standing = fst (resumption_phase (db_history D run))"
  shows "(\<forall>slug. Create_Call slug \<in> set calls \<longrightarrow>
      calls = [Reattach_Call slug, Create_Call slug] \<and>
      (\<exists>sp. rc_sessions E = Some sp \<and> sp_reattach sp = Inr None) \<and>
      standing \<in> session_bearing_phases - authenticated_session_phases \<and>
      unknown_keys E D run standing = {}) \<and>
   (\<forall>q. v = Inr q \<longrightarrow> unknown_keys E D run standing \<noteq> {} \<longrightarrow>
      (if load_profile (rc_profiles E) (rc_for_run E) (db_history D run) = None
       then rv_disposition q = Restart_Research \<and> calls = []
       else if standing \<in> terminal_phases then rv_disposition q = Terminal_Run \<and> calls = []
       else rv_disposition q = Pause_Run \<and> rv_reason q = ''outcome_unknown'' \<and> rv_phase q = standing \<and>
         length calls \<le> 1 \<and>
         unknown_keys E D run standing =
           plan_key ` set (filter (\<lambda>e. plan_disposition e = Pause_Outcome_Unknown) (rv_effects q))))"
  using assms(1,3)
proof (cases rule: recover_run_cases)
  case (standing digest slug)
  note creates = recover_standing_creates [OF standing(3) assms(2), folded assms(4)]
  have pauses: "rv_disposition q = Pause_Run \<and> rv_reason q = ''outcome_unknown'' \<and> rv_phase q = standing \<and>
      length calls \<le> 1 \<and>
      unknown_keys E D run standing =
        plan_key ` set (filter (\<lambda>e. plan_disposition e = Pause_Outcome_Unknown) (rv_effects q))"
    if "v = Inr q" "unknown_keys E D run standing \<noteq> {}" for q
    using recover_standing_pauses [OF standing(3) [unfolded that(1)] assms(2), folded assms(4)] that(2) .
  have not_over: "standing \<notin> terminal_phases" using standing(2) by (simp add: assms(4))
  show ?thesis
    unfolding if_not_P [OF standing(1)] if_not_P [OF not_over] using creates pauses by blast
next
  case research
  then show ?thesis using make_recovery_plan_Inr by (fastforce simp: restart_research_def)
next
  case (over digest reason)
  then show ?thesis using assms(4) by (auto dest: standing_plan_Inr)
qed simp

section \<open>Witnesses\<close>

definition finished_db :: phase_db where
  "finished_db = empty_db\<lparr>db_history := (\<lambda>_. [])(''r1'' :=
       [signup_boundary\<lparr>pb_from := Some credential_validation, pb_to := completed\<rparr>]),
     db_states := [''r1'' \<mapsto> signup_state\<lparr>rs_phase := completed\<rparr>]\<rparr>"

lemma finished_db_ok: "db_ok finished_db"
  using signup_db_ok
  by (auto simp: db_ok_def run_ok_def finished_db_def empty_db_def signup_boundary_def boundary_ok_def
      signup_state_def digest64_def onboarding_reason_codes_def upt_rec)

definition bare_recovery :: recovery_env where
  "bare_recovery = \<lparr>rc_profiles = (\<lambda>_. None), rc_for_run = None, rc_rd = id, rc_effects = True,
     rc_sessions = None\<rparr>"

text \<open>A finished run whose profile is gone is planned to start again.\<close>

lemma recovery_stands_at_last_boundary_witness:
  "\<exists>q calls. recover_run bare_recovery finished_db ''r1'' ''w1'' = (Inr q, calls) \<and>
     pb_to (last (db_history finished_db ''r1'')) = completed \<and> rv_disposition q = Restart_Research"
proof -
  have "case recover_run bare_recovery finished_db ''r1'' ''w1'' of (Inr q, calls) \<Rightarrow> True | _ \<Rightarrow> False"
    by code_simp
  then obtain q calls where r: "recover_run bare_recovery finished_db ''r1'' ''w1'' = (Inr q, calls)"
    by (auto split: prod.splits sum.splits)
  show ?thesis
    using recovery_stands_at_last_boundary [OF r finished_db_ok _ refl] r
    by (auto simp: finished_db_def bare_recovery_def)
qed

definition wired_recovery :: recovery_env where
  "wired_recovery = \<lparr>rc_profiles = (\<lambda>_. Some \<lparr>pp_digest = digest64, pp_app_slug = ''app''\<rparr>),
     rc_for_run = None, rc_rd = id, rc_effects = True,
     rc_sessions = Some \<lparr>sp_reattach = Inr None, sp_create = Inr (Some ''s2'')\<rparr>\<rparr>"

definition ambiguous_db :: phase_db where
  "ambiguous_db = signup_db\<lparr>db_reservations := (\<lambda>_. [])(''r1'' := [(''k'', \<lparr>er_effect = signup_submit,
     er_generation = 0, er_phase = signup, er_disposition = Pause_Outcome_Unknown, er_receipt = None,
     er_reason = ''reconcile_required''\<rparr>)])\<rparr>"

text \<open>The bound session is gone in both; with the submission of the signup of unknown outcome the run
  pauses, without it a session is created.\<close>

lemma recovery_never_guesses_witness:
  "(\<exists>q calls. recover_run wired_recovery ambiguous_db ''r1'' ''w1'' = (Inr q, calls) \<and>
     rv_disposition q = Pause_Run \<and> rv_reason q = ''outcome_unknown'' \<and> Create_Call ''app'' \<notin> set calls) \<and>
   snd (recover_run wired_recovery signup_db ''r1'' ''w1'') = [Reattach_Call ''app'', Create_Call ''app'']"
proof
  have ok: "db_ok ambiguous_db" using signup_db_ok by (simp add: ambiguous_db_def db_ok_def)
  have "case recover_run wired_recovery ambiguous_db ''r1'' ''w1'' of (Inr q, calls) \<Rightarrow> True | _ \<Rightarrow> False"
    by code_simp
  then obtain q calls where r: "recover_run wired_recovery ambiguous_db ''r1'' ''w1'' = (Inr q, calls)"
    by (auto split: prod.splits sum.splits)
  have st: "fst (resumption_phase (db_history ambiguous_db ''r1'')) = signup" by code_simp
  have u: "unknown_keys wired_recovery ambiguous_db ''r1'' signup = {''k''}"
    by (simp add: unknown_keys_def ambiguous_db_def wired_recovery_def)
  have w: "rc_effects wired_recovery" "signup \<notin> terminal_phases"
    "load_profile (rc_profiles wired_recovery) (rc_for_run wired_recovery) (db_history ambiguous_db ''r1'') \<noteq> None"
    by (simp_all add: wired_recovery_def load_profile_def terminal_phases_def ambiguous_db_def signup_db_def)
  show "\<exists>q calls. recover_run wired_recovery ambiguous_db ''r1'' ''w1'' = (Inr q, calls) \<and>
     rv_disposition q = Pause_Run \<and> rv_reason q = ''outcome_unknown'' \<and> Create_Call ''app'' \<notin> set calls"
    using recovery_never_guesses [OF r w(1) ok refl] r w(2,3) by (auto simp: st u)
  show "snd (recover_run wired_recovery signup_db ''r1'' ''w1'') = [Reattach_Call ''app'', Create_Call ''app'']"
    by code_simp
qed

end
