(* ===== verification/Prompts.thy ===== *)
theory Prompts
  imports Driver_Steps Gate_Policy State_Projection
begin

text \<open>
  The operator prompts of a run and the legal terms it accepts by itself (the prompt section
  of \<^theory_text>\<open>ops/onboarding/driver.py\<close>): which gate is handed to the gate policy, the one
  admission prompt, the prompt account read from the durable counters, and
  \<^theory_text>\<open>accept_legal_terms\<close> with the document it records in the audit trail.
  \<^theory_text>\<open>sanitize_url\<close> is that of \<^theory_text>\<open>ops/core/model_input_dlp.py\<close>; the shape tests of a path
  segment (\<^theory_text>\<open>sus\<close>) and \<^theory_text>\<open>redact_secrets\<close> (\<^theory_text>\<open>rs\<close>, with its length limit) are arguments.
\<close>

section \<open>Gates the driver delegates\<close>

definition midflight_gate_disposition ::
    "(string \<Rightarrow> bool) \<Rightarrow> (string \<Rightarrow> app_recipe option) \<Rightarrow> string option \<Rightarrow> string \<Rightarrow>
     profile_gate_authority option \<Rightarrow> gate_resolution result" where
  "midflight_gate_disposition v6 lookup action_type app_slug authority =
     (if action_type \<in> Some ` midflight_operator_prompts
      then Inl (ValueError ''a captcha gate is paused for an operator, never delegated'')
      else Inr (resolve_gate v6 lookup action_type app_slug authority))"

section \<open>The prompt account\<close>

record operator_prompts =
  op_admission :: int
  op_captcha :: int
  op_other :: int

definition make_operator_prompts :: "operator_prompts \<Rightarrow> operator_prompts result" where
  "make_operator_prompts p =
     (if op_admission p \<notin> {0, int admission_prompt_limit}
      then Inl (ValueError ''the admission prompt is emitted at most once per run'')
      else if op_captcha p < 0
      then Inl (ValueError ''a captcha prompt count cannot be negative'')
      else if op_other p \<noteq> 0
      then Inl (ValueError ''an onboarding run emits no operator prompt beyond admission and captcha'')
      else Inr p)"

definition prompts_total :: "operator_prompts \<Rightarrow> int" where
  "prompts_total p = op_admission p + op_captcha p"

text \<open>The prompts returned are the names of the apps asked about.\<close>

definition emit_admission_prompt :: "phase_db \<Rightarrow> string \<Rightarrow> string \<Rightarrow> phase_db \<times> string list result" where
  "emit_admission_prompt D run app_name =
     (case run_identifier run of
        Inl e \<Rightarrow> (D, Inl e)
      | Inr _ \<Rightarrow>
        (case record_admission_prompt D run of
           (D', Inl e) \<Rightarrow> (D', Inl e)
         | (D', Inr n) \<Rightarrow> (D', Inr (if n = 0 then [] else [app_name]))))"

definition read_operator_prompts :: "phase_db \<Rightarrow> string \<Rightarrow> operator_prompts result" where
  "read_operator_prompts D run =
     bindR (run_identifier run) (\<lambda>_.
     bindR (admission_prompts D run) (\<lambda>a.
     bindR (captcha_pause D run) (\<lambda>c.
       make_operator_prompts \<lparr>op_admission = int a, op_captcha = int (cp_prompts c), op_other = 0\<rparr>)))"

section \<open>Legal terms\<close>

definition autonomous_legal_authorities :: "gate_resolution set" where
  "autonomous_legal_authorities = {Recipe_Declared, Profile_Declared}"

fun resolution_text :: "gate_resolution \<Rightarrow> string" where
  "resolution_text Human_Only = ''human_only''"
| "resolution_text Reusable_Login = ''reusable_login''"
| "resolution_text Emailed_Verification = ''emailed_verification''"
| "resolution_text Recipe_Declared = ''recipe_declared''"
| "resolution_text Profile_Declared = ''profile_declared''"

record accepted_document =
  do_url :: string
  do_digest :: string
  do_length :: nat
  do_authority :: gate_resolution
  do_profile_digest :: string
  do_phase :: phase
  do_accepted_at :: string

definition make_document :: "accepted_document \<Rightarrow> accepted_document result" where
  "make_document d =
     (if take 8 (do_url d) \<noteq> ''https://''
      then Inl (ValueError ''an accepted document must be recorded from an https page'')
      else if length (do_digest d) \<noteq> 64
      then Inl (ValueError ''an accepted document digest must be a sha256 hex digest'')
      else if do_length d = 0 then Inl (ValueError ''an accepted document cannot be empty'')
      else if do_authority d \<notin> autonomous_legal_authorities
      then Inl (ValueError ''an accepted document must name the authority that accepted it'')
      else bindR (profile_digest_check (do_profile_digest d)) (\<lambda>_.
        if do_accepted_at d = [] then Inl (ValueError ''an accepted document must carry its timestamp'')
        else Inr d))"

definition as_evidence :: "accepted_document \<Rightarrow> (string \<times> cell) list" where
  "as_evidence d =
     [(''url'', CText (do_url d)), (''document_digest'', CText (do_digest d)),
      (''document_length'', CInt (int (do_length d))),
      (''authority'', CText (resolution_text (do_authority d))),
      (''profile_digest'', CText (do_profile_digest d)), (''phase'', CText (phase_text (do_phase d))),
      (''accepted_at'', CText (do_accepted_at d))]"

definition legal_acceptance_evidence :: string where
  "legal_acceptance_evidence = ''onboarding_legal_terms_accepted''"

definition record_legal_acceptance ::
    "(string \<Rightarrow> string) \<Rightarrow> run_ledger \<Rightarrow> string \<Rightarrow> accepted_document \<Rightarrow> run_ledger result" where
  "record_legal_acceptance rd L run d =
     bindR (run_identifier run) (\<lambda>run.
       Inr (append_audit_event rd L run legal_acceptance_evidence (as_evidence d)))"

record legal_acceptance =
  la_accepted :: bool
  la_authority :: gate_resolution
  la_document :: "accepted_document option"
  la_prompts :: nat

definition make_acceptance :: "legal_acceptance \<Rightarrow> legal_acceptance result" where
  "make_acceptance a =
     (if la_prompts a \<noteq> 0
      then Inl (ValueError ''accepting or refusing legal terms emits no operator prompt'')
      else if la_accepted a \<noteq> (la_document a \<noteq> None)
      then Inl (ValueError ''an accepted surface carries its document, and a refused one none'')
      else if la_accepted a \<and> la_authority a \<notin> autonomous_legal_authorities
      then Inl (ValueError ''legal terms are accepted only under a declared authority'')
      else Inr a)"

text \<open>\<^theory_text>\<open>str.split("/")\<close> and its inverse.\<close>

fun split_slash :: "string \<Rightarrow> string list" where
  "split_slash [] = [[]]"
| "split_slash (c # s) =
     (if c = CHR ''/'' then [] # split_slash s
      else (case split_slash s of p # ps \<Rightarrow> (c # p) # ps | [] \<Rightarrow> [[c]]))"

fun join_slash :: "string list \<Rightarrow> string" where
  "join_slash [] = []"
| "join_slash [p] = p"
| "join_slash (p # ps) = p @ CHR ''/'' # join_slash ps"

definition sanitize_url ::
    "(string \<Rightarrow> bool) \<Rightarrow> (string \<Rightarrow> bool) \<Rightarrow> (string \<Rightarrow> nat \<Rightarrow> string) \<Rightarrow> string \<Rightarrow> string result" where
  "sanitize_url v6 sus rs url =
     (if url = [] then Inr []
      else bindR (urlsplit v6 url) (\<lambda>parsed.
        if scheme parsed = [] \<or> netloc parsed = [] then Inr (rs url 300)
        else
          let host = lower (case hostname parsed of None \<Rightarrow> [] | Some h \<Rightarrow> h);
              segments = map (\<lambda>s. if sus s then ''[REDACTED]'' else rs s 120)
                (filter (\<lambda>s. s \<noteq> []) (split_slash (path parsed)))
          in Inr (urlunsplit \<lparr>scheme = scheme parsed, netloc = host,
                path = (if segments = [] then ''/'' else CHR ''/'' # join_slash segments),
                query = [], fragment = []\<rparr>)))"

record legal_env =
  le_v6 :: "string \<Rightarrow> bool"
  le_lookup :: "string \<Rightarrow> app_recipe option"
  le_sus :: "string \<Rightarrow> bool"
  le_rs :: "string \<Rightarrow> nat \<Rightarrow> string"
  le_rd :: "string \<Rightarrow> string"
  le_sha :: "string \<Rightarrow> string"
  le_now :: string

text \<open>Of the profile the function reads the digest, the registrable domain and the slug.\<close>

record legal_profile =
  lp_digest :: string
  lp_domain :: string
  lp_slug :: string

definition refuse_terms :: "gate_resolution \<Rightarrow> legal_acceptance result" where
  "refuse_terms r =
     make_acceptance \<lparr>la_accepted = False, la_authority = r, la_document = None, la_prompts = 0\<rparr>"

text \<open>\<^theory_text>\<open>accept_legal_terms\<close>: the ledger after it and the outcome.\<close>

definition accept_legal_terms ::
    "legal_env \<Rightarrow> run_ledger \<Rightarrow> string \<Rightarrow> phase \<Rightarrow> legal_profile \<Rightarrow> admission_decision option \<Rightarrow>
     string \<Rightarrow> string \<Rightarrow> browser_allowed_hosts \<Rightarrow> string option \<Rightarrow>
     run_ledger \<times> legal_acceptance result" where
  "accept_legal_terms E L run p profile admission gate_url text allowed accepted_at =
     (case run_identifier run of
        Inl e \<Rightarrow> (L, Inl e)
      | Inr _ \<Rightarrow>
        if text = []
        then (L, Inl (ValueError ''accepting legal terms requires the document that was accepted''))
        else (case evaluate_navigation (le_v6 E) gate_url allowed of
            Inl e \<Rightarrow> (L, Inl e)
          | Inr here \<Rightarrow>
            if \<not> hd_allowed here then (L, refuse_terms Human_Only)
            else (case midflight_gate_disposition (le_v6 E) (le_lookup E) (Some ''legal_acceptance'')
                     (lp_slug profile)
                     (authority_of (lp_digest profile) (lp_domain profile) gate_url admission) of
                Inl e \<Rightarrow> (L, Inl e)
              | Inr r \<Rightarrow>
                if r \<notin> autonomous_legal_authorities then (L, refuse_terms r)
                else (case bindR (sanitize_url (le_v6 E) (le_sus E) (le_rs E) gate_url) (\<lambda>u. make_document
                         \<lparr>do_url = u, do_digest = le_sha E text, do_length = length text,
                          do_authority = r, do_profile_digest = lp_digest profile, do_phase = p,
                          do_accepted_at =
                            (case accepted_at of Some t \<Rightarrow> if t = [] then le_now E else t | None \<Rightarrow> le_now E)\<rparr>) of
                    Inl e \<Rightarrow> (L, Inl e)
                  | Inr d \<Rightarrow>
                    (case record_legal_acceptance (le_rd E) L run d of
                       Inl e \<Rightarrow> (L, Inl e)
                     | Inr L' \<Rightarrow>
                         (L', make_acceptance \<lparr>la_accepted = True, la_authority = r,
                                la_document = Some d, la_prompts = 0\<rparr>))))))"

section \<open>Lemmas\<close>

lemma make_acceptance_Inr:
  "make_acceptance a = Inr b \<Longrightarrow> b = a"
  by (simp add: make_acceptance_def split: if_splits)

lemma refuse_terms_Inr: "refuse_terms r = Inr a \<Longrightarrow> \<not> la_accepted a \<and> la_authority a = r"
  unfolding refuse_terms_def by (drule make_acceptance_Inr) simp

lemma make_document_Inr: "make_document d = Inr d' \<Longrightarrow> d' = d \<and> do_authority d \<in> autonomous_legal_authorities"
  by (auto simp: make_document_def result_simps split: if_splits)

section \<open>Properties\<close>

text \<open>C36. Legal terms are accepted only on a page of the run's allow-list and only on a
  declared authority: a reviewed recipe that declares it for the app, or the run's own
  profile together with a human or standing decision to sign up under that very profile.
  What is accepted is recorded, with the digest of the text, before it is answered; a
  surface that is not accepted leaves the ledger as it was; neither asks an operator.\<close>

theorem legal_terms_need_declared_authority:
  "accept_legal_terms E L run p profile admission gate_url text allowed at = (L', Inr a) \<Longrightarrow>
   la_prompts a = 0 \<and>
   (if la_accepted a
    then (\<exists>here. evaluate_navigation (le_v6 E) gate_url allowed = Inr here \<and> hd_allowed here) \<and>
      (legal_acceptance_declared (le_lookup E) (lp_slug profile) \<or>
       (\<exists>d. admission = Some d \<and> ad_route d = Signup_Route \<and> ad_decided_by d \<in> signup_deciders \<and>
          ad_profile_digest d = lp_digest profile \<and>
          within_profile_domain (le_v6 E) gate_url (lp_domain profile))) \<and>
      (\<exists>d. la_document a = Some d \<and> do_digest d = le_sha E text \<and> do_phase d = p \<and>
         do_profile_digest d = lp_digest profile \<and> do_authority d = la_authority a \<and>
         L' = append_audit_event (le_rd E) L run legal_acceptance_evidence (as_evidence d))
    else L' = L \<and> la_document a = None)"
proof -
  assume acc: "accept_legal_terms E L run p profile admission gate_url text allowed at = (L', Inr a)"
  obtain i here where i: "run_identifier run = Inr i" "text \<noteq> []"
    "evaluate_navigation (le_v6 E) gate_url allowed = Inr here"
    using acc by (auto simp: accept_legal_terms_def split: sum.splits if_splits)
  define auth where "auth = authority_of (lp_digest profile) (lp_domain profile) gate_url admission"
  define r where "r = resolve_gate (le_v6 E) (le_lookup E) (Some ''legal_acceptance'') (lp_slug profile) auth"
  have mid: "midflight_gate_disposition (le_v6 E) (le_lookup E) (Some ''legal_acceptance'') (lp_slug profile) auth = Inr r"
    by (simp add: midflight_gate_disposition_def midflight_operator_prompts_def r_def)
  show ?thesis
  proof (cases "hd_allowed here \<and> r \<in> autonomous_legal_authorities")
    case False
    then have "L' = L \<and> (\<exists>q. refuse_terms q = Inr a)"
      using acc i mid unfolding auth_def by (auto simp: accept_legal_terms_def split: if_splits)
    then show ?thesis
      unfolding refuse_terms_def by (auto dest!: make_acceptance_Inr)
  next
    case True
    define doc where "doc = (\<lambda>u. \<lparr>do_url = u, do_digest = le_sha E text, do_length = length text,
        do_authority = r, do_profile_digest = lp_digest profile, do_phase = p,
        do_accepted_at = (case at of Some t \<Rightarrow> if t = [] then le_now E else t | None \<Rightarrow> le_now E)\<rparr>)"
    obtain u where "record_legal_acceptance (le_rd E) L run (doc u) = Inr L'"
      "make_acceptance \<lparr>la_accepted = True, la_authority = r, la_document = Some (doc u), la_prompts = 0\<rparr> = Inr a"
      using acc i mid True unfolding auth_def doc_def
      by (auto simp: accept_legal_terms_def result_simps split: sum.splits dest!: make_document_Inr)
    moreover have "do_digest (doc u) = le_sha E text" "do_phase (doc u) = p"
      "do_profile_digest (doc u) = lp_digest profile" "do_authority (doc u) = r"
      by (simp_all add: doc_def)
    ultimately obtain d where d: "do_digest d = le_sha E text" "do_phase d = p" "do_profile_digest d = lp_digest profile"
      "do_authority d = r" "record_legal_acceptance (le_rd E) L run d = Inr L'"
      "make_acceptance \<lparr>la_accepted = True, la_authority = r, la_document = Some d, la_prompts = 0\<rparr> = Inr a"
      by blast
    have a: "a = \<lparr>la_accepted = True, la_authority = r, la_document = Some d, la_prompts = 0\<rparr>"
      by (rule make_acceptance_Inr [OF d(6)])
    have "i = run" using i(1) by (simp add: run_identifier_def guard_simps split: if_splits)
    then have L': "L' = append_audit_event (le_rd E) L run legal_acceptance_evidence (as_evidence d)"
      using d(5) i by (simp add: record_legal_acceptance_def)
    have "legal_acceptance_declared (le_lookup E) (lp_slug profile) \<or>
        profile_authorizes (le_v6 E) ''legal_acceptance'' auth"
      using True unfolding r_def
      by (auto simp: resolve_gate_def truthy_def human_only_gates_def autonomous_resolution_def
          autonomous_legal_authorities_def split: if_splits)
    moreover have "\<exists>d. admission = Some d \<and> ad_route d = Signup_Route \<and> ad_decided_by d \<in> signup_deciders \<and>
          ad_profile_digest d = lp_digest profile \<and>
          within_profile_domain (le_v6 E) gate_url (lp_domain profile)"
      if "profile_authorizes (le_v6 E) ''legal_acceptance'' auth"
    proof (cases admission)
      case None
      then show ?thesis using that by (simp add: auth_def authority_of_def)
    next
      case (Some ad)
      then show ?thesis
        using that by (cases "ad_decided_by ad")
          (auto simp: auth_def authority_of_def profile_authorizes_iff signup_deciders_def)
    qed
    ultimately show ?thesis using a d(1-4) L' True i(3) by auto
  qed
qed

section \<open>Witnesses\<close>

definition sample_legal_env :: legal_env where
  "sample_legal_env = \<lparr>le_v6 = no_v6, le_lookup = Map.empty, le_sus = (\<lambda>_. False),
     le_rs = (\<lambda>s n. take n s), le_rd = id, le_sha = sample_sha, le_now = ''now''\<rparr>"

definition sample_legal_profile :: legal_profile where
  "sample_legal_profile = \<lparr>lp_digest = digest0, lp_domain = ''acme.com'', lp_slug = ''acme''\<rparr>"

definition acme_hosts :: browser_allowed_hosts where
  "acme_hosts = \<lparr>ah_app_slug = ''acme'', ah_exact_hosts = [''acme.com''],
     ah_vendor_wildcard_domains = [''acme.com'']\<rparr>"

definition accept_sample :: "admission_decision option \<Rightarrow> run_ledger \<times> legal_acceptance result" where
  "accept_sample d = accept_legal_terms sample_legal_env \<lparr>runs = Map.empty, audit = []\<rparr> ''r1'' signup
     sample_legal_profile d ''https://app.acme.com/terms?token=1'' ''the terms'' acme_hosts None"

lemma legal_terms_need_declared_authority_witness:
  "\<exists>L' a d. accept_sample (Some operator_signup) = (L', Inr a) \<and> la_accepted a \<and>
     la_document a = Some d \<and> do_digest d = sample_sha ''the terms'' \<and> la_prompts a = 0"
proof -
  have "case accept_sample (Some operator_signup) of (L', Inr a) \<Rightarrow> la_accepted a | _ \<Rightarrow> False"
    by code_simp
  then obtain L' a where r: "accept_sample (Some operator_signup) = (L', Inr a)" "la_accepted a"
    by (auto split: prod.splits sum.splits)
  show ?thesis
    using legal_terms_need_declared_authority [OF r(1) [unfolded accept_sample_def]] r
    by (auto simp: sample_legal_env_def)
qed

end
