(* ===== verification/Regex.thy ===== *)
theory Regex
  imports Prelude
begin

text \<open>
  The part of Python's \<^theory_text>\<open>re\<close> the mail readers use, on ASCII text: a pattern is tried from a
  position of a text and yields its possible ends in the order a backtracking matcher
  tries them, each with the spans of the groups closed on the way. \<^theory_text>\<open>search\<close>,
  \<^theory_text>\<open>finditer\<close> and \<^theory_text>\<open>fullmatch\<close> read off the first end, the first ends from left to
  right, and an end at the end of the text.

  A repetition carries the bound of how often it may repeat; the unbounded ones of the
  patterns repeat at most as often as the text has characters, since each round consumes
  one.
\<close>

section \<open>Patterns\<close>

datatype rx =
    Cls "char \<Rightarrow> bool"
  | Eps
  | Seq rx rx
  | Alt rx rx
  | Upto nat rx
  | Many rx
  | Grp rx
  | Bol
  | Word_Edge
  | Not_Ahead rx
  | Not_Behind "char \<Rightarrow> bool"

type_synonym rx_state = "nat \<times> (nat \<times> nat) list"

definition word_char :: "char \<Rightarrow> bool" where
  "word_char c = (is_digit c \<or> is_lower_alpha c \<or> is_upper_alpha c \<or> c = CHR ''_'')"

text \<open>Greedy repetition of a step at most \<open>n\<close> times, longest first.\<close>

primrec upto_ends :: "('s \<Rightarrow> 's list) \<Rightarrow> nat \<Rightarrow> 's \<Rightarrow> 's list" where
  "upto_ends f 0 st = [st]"
| "upto_ends f (Suc n) st = concat (map (upto_ends f n) (f st)) @ [st]"

primrec rx_run :: "rx \<Rightarrow> string \<Rightarrow> rx_state \<Rightarrow> rx_state list" where
  "rx_run (Cls P) s st =
     (if fst st < length s \<and> P (s ! fst st) then [(Suc (fst st), snd st)] else [])"
| "rx_run Eps s st = [st]"
| "rx_run (Seq a b) s st = concat (map (rx_run b s) (rx_run a s st))"
| "rx_run (Alt a b) s st = rx_run a s st @ rx_run b s st"
| "rx_run (Upto n a) s st = upto_ends (rx_run a s) n st"
| "rx_run (Many a) s st = upto_ends (rx_run a s) (length s) st"
| "rx_run (Grp a) s st = map (\<lambda>t. (fst t, snd t @ [(fst st, fst t)])) (rx_run a s st)"
| "rx_run Bol s st = (if fst st = 0 then [st] else [])"
| "rx_run Word_Edge s st =
     (if (fst st \<noteq> 0 \<and> fst st \<le> length s \<and> word_char (s ! (fst st - 1)))
         \<noteq> (fst st < length s \<and> word_char (s ! fst st)) then [st] else [])"
| "rx_run (Not_Ahead a) s st = (if rx_run a s st = [] then [st] else [])"
| "rx_run (Not_Behind P) s st =
     (if fst st \<noteq> 0 \<and> fst st \<le> length s \<and> P (s ! (fst st - 1)) then [] else [st])"

fun rx_seq :: "rx list \<Rightarrow> rx" where
  "rx_seq [] = Eps"
| "rx_seq [a] = a"
| "rx_seq (a # as) = Seq a (rx_seq as)"

fun rx_alt :: "rx list \<Rightarrow> rx" where
  "rx_alt [] = Cls (\<lambda>_. False)"
| "rx_alt [a] = a"
| "rx_alt (a # as) = Alt a (rx_alt as)"

definition lit :: "string \<Rightarrow> rx" where
  "lit w = rx_seq (map (\<lambda>c. Cls (\<lambda>d. d = c)) w)"

text \<open>A literal under \<^theory_text>\<open>IGNORECASE\<close>, given in lower case.\<close>

definition lit_i :: "string \<Rightarrow> rx" where
  "lit_i w = rx_seq (map (\<lambda>c. Cls (\<lambda>d. lower_char d = c)) w)"

definition one_of :: "string \<Rightarrow> rx" where
  "one_of w = Cls (\<lambda>d. d \<in> set w)"

definition some_of :: "(char \<Rightarrow> bool) \<Rightarrow> rx" where
  "some_of P = Seq (Cls P) (Many (Cls P))"

definition exactly :: "nat \<Rightarrow> rx \<Rightarrow> rx" where
  "exactly n a = rx_seq (replicate n a)"

section \<open>Reading a text with a pattern\<close>

record rx_match =
  mt_start :: nat
  mt_end :: nat
  mt_groups :: "(nat \<times> nat) list"

definition slice :: "string \<Rightarrow> nat \<Rightarrow> nat \<Rightarrow> string" where
  "slice s i j = take (j - i) (drop i s)"

definition match_at :: "rx \<Rightarrow> string \<Rightarrow> nat \<Rightarrow> rx_match option" where
  "match_at r s i =
     (case rx_run r s (i, []) of [] \<Rightarrow> None
      | t # _ \<Rightarrow> Some \<lparr>mt_start = i, mt_end = fst t, mt_groups = snd t\<rparr>)"

text \<open>The first match that starts at one of \<open>n\<close> positions from \<open>i\<close> on.\<close>

fun search_from :: "rx \<Rightarrow> string \<Rightarrow> nat \<Rightarrow> nat \<Rightarrow> rx_match option" where
  "search_from r s i 0 = None"
| "search_from r s i (Suc n) =
     (case match_at r s i of Some m \<Rightarrow> Some m | None \<Rightarrow> search_from r s (Suc i) n)"

definition rx_search :: "rx \<Rightarrow> string \<Rightarrow> rx_match option" where
  "rx_search r s = search_from r s 0 (Suc (length s))"

text \<open>\<^theory_text>\<open>finditer\<close> goes on at the end of a match, one further after an empty one. A round
  moves at least one position on, so as many rounds as the text has positions are enough.\<close>

fun matches_from :: "rx \<Rightarrow> string \<Rightarrow> nat \<Rightarrow> nat \<Rightarrow> rx_match list" where
  "matches_from r s p 0 = []"
| "matches_from r s p (Suc n) =
     (if length s < p then []
      else (case search_from r s p (Suc (length s - p)) of
          None \<Rightarrow> []
        | Some m \<Rightarrow> m # matches_from r s
            (if mt_start m < mt_end m then mt_end m else Suc (mt_end m)) n))"

definition rx_finditer :: "rx \<Rightarrow> string \<Rightarrow> rx_match list" where
  "rx_finditer r s = matches_from r s 0 (Suc (length s))"

definition rx_fullmatch :: "rx \<Rightarrow> string \<Rightarrow> bool" where
  "rx_fullmatch r s = list_ex (\<lambda>t. fst t = length s) (rx_run r s (0, []))"

definition group_of :: "string \<Rightarrow> rx_match \<Rightarrow> nat \<Rightarrow> string" where
  "group_of s m k =
     (if k < length (mt_groups m)
      then slice s (fst (mt_groups m ! k)) (snd (mt_groups m ! k)) else [])"

definition group0 :: "string \<Rightarrow> rx_match \<Rightarrow> string" where
  "group0 s m = slice s (mt_start m) (mt_end m)"

text \<open>\<^theory_text>\<open>needle in text\<close>, \<^theory_text>\<open>str.split(sep, 1)[0]\<close> on one character and
  \<^theory_text>\<open>str.strip(chars)\<close>.\<close>

fun has_infix :: "string \<Rightarrow> string \<Rightarrow> bool" where
  "has_infix w [] = (w = [])"
| "has_infix w (c # s) = (starts_with w (c # s) \<or> has_infix w s)"

text \<open>\<^theory_text>\<open>text[:n]\<close>, with a shortcut for texts within the bound.\<close>

definition clip :: "int \<Rightarrow> string \<Rightarrow> string" where
  "clip n s = take (nat n) s"

lemma clip_code [code]: "clip n s = (if int (length s) \<le> n then s else take (nat n) s)"
  by (simp add: clip_def nat_le_iff)

text \<open>For evaluation: stop at the first difference and at the first hit.\<close>

lemma starts_with_code [code]:
  "starts_with [] s = True"
  "starts_with (c # p) [] = False"
  "starts_with (c # p) (d # s) = (if d = c then starts_with p s else False)"
  by (auto simp: starts_with_def)

lemma has_infix_code [code]:
  "has_infix w [] = (w = [])"
  "has_infix w (c # s) = (if starts_with w (c # s) then True else has_infix w s)"
  by auto

lemma list_ex_code [code]:
  "list_ex P [] = False"
  "list_ex P (x # xs) = (if P x then True else list_ex P xs)"
  by auto

definition before_chr :: "char \<Rightarrow> string \<Rightarrow> string" where
  "before_chr c s = takeWhile (\<lambda>d. d \<noteq> c) s"

definition lstrip_of :: "char set \<Rightarrow> string \<Rightarrow> string" where
  "lstrip_of A s = dropWhile (\<lambda>c. c \<in> A) s"

definition rstrip_of :: "char set \<Rightarrow> string \<Rightarrow> string" where
  "rstrip_of A s = rev (lstrip_of A (rev s))"

definition strip_of :: "char set \<Rightarrow> string \<Rightarrow> string" where
  "strip_of A s = rstrip_of A (lstrip_of A s)"

section \<open>What a match covers\<close>

text \<open>Every character a pattern consumes satisfies \<open>P\<close>.\<close>

primrec rx_over :: "(char \<Rightarrow> bool) \<Rightarrow> rx \<Rightarrow> bool" where
  "rx_over P (Cls Q) = (\<forall>c. Q c \<longrightarrow> P c)"
| "rx_over P Eps = True"
| "rx_over P (Seq a b) = (rx_over P a \<and> rx_over P b)"
| "rx_over P (Alt a b) = (rx_over P a \<and> rx_over P b)"
| "rx_over P (Upto n a) = rx_over P a"
| "rx_over P (Many a) = rx_over P a"
| "rx_over P (Grp a) = rx_over P a"
| "rx_over P Bol = True"
| "rx_over P Word_Edge = True"
| "rx_over P (Not_Ahead a) = True"
| "rx_over P (Not_Behind Q) = True"

definition covered :: "(char \<Rightarrow> bool) \<Rightarrow> string \<Rightarrow> nat \<Rightarrow> nat \<Rightarrow> bool" where
  "covered P s i j = (i \<le> j \<and> (i \<le> length s \<longrightarrow> j \<le> length s) \<and> (\<forall>k. i \<le> k \<and> k < j \<longrightarrow> P (s ! k)))"

lemma covered_refl [simp]: "covered P s i i"
  by (auto simp: covered_def)

lemma covered_trans: "covered P s i j \<Longrightarrow> covered P s j k \<Longrightarrow> covered P s i k"
  unfolding covered_def by (meson le_trans not_le)

lemma upto_ends_invariant:
  assumes "\<And>t t'. R st t \<Longrightarrow> t' \<in> set (f t) \<Longrightarrow> R st t'" "R st t0" "t \<in> set (upto_ends f n t0)"
  shows "R st t"
  using assms(2,3)
proof (induction n arbitrary: t0)
  case (Suc n)
  then show ?case using assms(1) by auto
qed simp

lemma upto_covered:
  assumes "\<And>st t. t \<in> set (f st) \<Longrightarrow> covered P s (fst st) (fst t)" "t \<in> set (upto_ends f n st)"
  shows "covered P s (fst st) (fst t)"
  using upto_ends_invariant [of "\<lambda>st t. covered P s (fst st) (fst t)" st f st t n] assms
    covered_trans [of P s] covered_refl by metis

lemma rx_run_covered:
  "rx_over P r \<Longrightarrow> t \<in> set (rx_run r s st) \<Longrightarrow> covered P s (fst st) (fst t)"
proof (induction r arbitrary: st t)
  case (Cls Q)
  then show ?case
    by (auto simp: covered_def split: if_splits) (metis le_antisym less_Suc_eq_le)
next
  case (Seq a b)
  obtain u where u: "u \<in> set (rx_run a s st)" "t \<in> set (rx_run b s u)"
    using Seq.prems(2) by auto
  have "covered P s (fst st) (fst u)" "covered P s (fst u) (fst t)"
    using Seq.IH(1) [OF _ u(1)] Seq.IH(2) [OF _ u(2)] Seq.prems(1) by simp_all
  then show ?case by (rule covered_trans)
next
  case (Upto n a)
  show ?case
    using upto_covered [of "rx_run a s" P s t n st] Upto by simp
next
  case (Many a)
  show ?case
    using upto_covered [of "rx_run a s" P s t "length s" st] Many by simp
qed (auto split: if_splits)

lemma rx_run_le: "t \<in> set (rx_run r s st) \<Longrightarrow> fst st \<le> fst t"
proof -
  have "rx_over (\<lambda>_. True) r" by (induction r) auto
  then show "t \<in> set (rx_run r s st) \<Longrightarrow> fst st \<le> fst t"
    using rx_run_covered covered_def by blast
qed

lemma covered_slice: "covered P s i j \<Longrightarrow> i \<le> length s \<Longrightarrow> list_all P (slice s i j)"
  by (auto simp: covered_def slice_def list_all_length)

lemma slice_length: "i \<le> j \<Longrightarrow> j \<le> length s \<Longrightarrow> length (slice s i j) = j - i"
  by (simp add: slice_def)

lemma rx_fullmatch_all:
  assumes "rx_fullmatch r s" "rx_over P r"
  shows "list_all P s"
proof -
  obtain t where t: "t \<in> set (rx_run r s (0, []))" "fst t = length s"
    using assms(1) by (auto simp: rx_fullmatch_def list_ex_iff)
  show ?thesis
    using rx_run_covered [OF assms(2) t(1)] t(2)
    by (auto simp: covered_def list_all_length)
qed

lemma rx_over_seq [simp]: "rx_over P (rx_seq as) = (\<forall>a\<in>set as. rx_over P a)"
  by (induction as rule: rx_seq.induct) auto

lemma search_from_Some:
  "search_from r s i n = Some m \<Longrightarrow>
     i \<le> mt_start m \<and> mt_start m < i + n \<and> match_at r s (mt_start m) = Some m"
proof (induction r s i n rule: search_from.induct)
  case (2 r s i n)
  then show ?case
    by (auto simp: match_at_def split: option.splits list.splits)
qed simp

lemma search_from_hit:
  "match_at r s k \<noteq> None \<Longrightarrow> i \<le> k \<Longrightarrow> k < i + n \<Longrightarrow> search_from r s i n \<noteq> None"
proof (induction r s i n rule: search_from.induct)
  case (2 r s i n)
  then show ?case
    by (cases "i = k") (auto split: option.splits)
qed simp

lemma rx_search_Some: "rx_search r s = Some m \<Longrightarrow> match_at r s (mt_start m) = Some m \<and> mt_start m \<le> length s"
  using search_from_Some [of r s 0 "Suc (length s)" m] by (auto simp: rx_search_def)

lemma matches_from_in:
  "m \<in> set (matches_from r s p n) \<Longrightarrow> match_at r s (mt_start m) = Some m \<and> mt_start m \<le> length s"
proof (induction n arbitrary: p)
  case (Suc n)
  have p: "p \<le> length s"
    using Suc.prems by (simp split: if_splits)
  then obtain m0 where m0: "search_from r s p (Suc (length s - p)) = Some m0"
    using Suc.prems by (cases "search_from r s p (Suc (length s - p))") (simp_all del: search_from.simps)
  have mem: "m = m0 \<or> m \<in> set (matches_from r s
      (if mt_start m0 < mt_end m0 then mt_end m0 else Suc (mt_end m0)) n)"
    using Suc.prems m0 p by (simp del: search_from.simps)
  show ?case
    using mem
  proof
    assume "m = m0"
    then show ?thesis
      using search_from_Some [OF m0] p by auto
  qed (rule Suc.IH)
qed simp

lemma rx_finditer_in:
  "m \<in> set (rx_finditer r s) \<Longrightarrow> match_at r s (mt_start m) = Some m \<and> mt_start m \<le> length s"
  unfolding rx_finditer_def by (rule matches_from_in)

lemma match_at_run:
  "match_at r s i = Some m \<Longrightarrow> mt_start m = i \<and> (mt_end m, mt_groups m) \<in> set (rx_run r s (i, []))"
  by (auto simp: match_at_def split: list.splits)

section \<open>How much a match covers\<close>

primrec rx_lo :: "rx \<Rightarrow> nat" where
  "rx_lo (Cls P) = 1"
| "rx_lo Eps = 0"
| "rx_lo (Seq a b) = rx_lo a + rx_lo b"
| "rx_lo (Alt a b) = min (rx_lo a) (rx_lo b)"
| "rx_lo (Upto n a) = 0"
| "rx_lo (Many a) = 0"
| "rx_lo (Grp a) = rx_lo a"
| "rx_lo Bol = 0"
| "rx_lo Word_Edge = 0"
| "rx_lo (Not_Ahead a) = 0"
| "rx_lo (Not_Behind P) = 0"

primrec rx_hi :: "nat \<Rightarrow> rx \<Rightarrow> nat" where
  "rx_hi l (Cls P) = 1"
| "rx_hi l Eps = 0"
| "rx_hi l (Seq a b) = rx_hi l a + rx_hi l b"
| "rx_hi l (Alt a b) = max (rx_hi l a) (rx_hi l b)"
| "rx_hi l (Upto n a) = n * rx_hi l a"
| "rx_hi l (Many a) = l * rx_hi l a"
| "rx_hi l (Grp a) = rx_hi l a"
| "rx_hi l Bol = 0"
| "rx_hi l Word_Edge = 0"
| "rx_hi l (Not_Ahead a) = 0"
| "rx_hi l (Not_Behind P) = 0"

lemma upto_ends_hi:
  assumes "\<And>st t. t \<in> set (f st) \<Longrightarrow> fst t \<le> fst st + (w :: nat)" "t \<in> set (upto_ends f n st)"
  shows "fst t \<le> fst st + n * w"
  using assms(2)
proof (induction n arbitrary: st)
  case (Suc n)
  have "t = st \<or> (\<exists>u\<in>set (f st). t \<in> set (upto_ends f n u))"
    using Suc.prems by auto
  then show ?case
  proof
    assume "\<exists>u\<in>set (f st). t \<in> set (upto_ends f n u)"
    then obtain u where u: "u \<in> set (f st)" "t \<in> set (upto_ends f n u)" ..
    show ?thesis using Suc.IH [OF u(2)] assms(1) [OF u(1)] by simp
  qed simp
qed simp

lemma rx_run_hi: "t \<in> set (rx_run r s st) \<Longrightarrow> fst t \<le> fst st + rx_hi (length s) r"
proof (induction r arbitrary: st t)
  case (Seq a b)
  obtain u where u: "u \<in> set (rx_run a s st)" "t \<in> set (rx_run b s u)"
    using Seq.prems by auto
  show ?case using Seq.IH(1) [OF u(1)] Seq.IH(2) [OF u(2)] by simp
next
  case (Alt a b)
  have "t \<in> set (rx_run a s st) \<or> t \<in> set (rx_run b s st)"
    using Alt.prems by simp
  then show ?case
    using Alt.IH(1) [of t st] Alt.IH(2) [of t st] by (elim disjE) simp_all
next
  case (Upto n a)
  show ?case using upto_ends_hi [of "rx_run a s" "rx_hi (length s) a" t n st] Upto by simp
next
  case (Many a)
  show ?case using upto_ends_hi [of "rx_run a s" "rx_hi (length s) a" t "length s" st] Many by simp
next
  case (Grp a)
  obtain u where "u \<in> set (rx_run a s st)" "fst t = fst u"
    using Grp.prems by auto
  then show ?case using Grp.IH by simp
qed (auto split: if_splits)

lemma rx_run_lo: "t \<in> set (rx_run r s st) \<Longrightarrow> fst st + rx_lo r \<le> fst t"
proof (induction r arbitrary: st t)
  case (Seq a b)
  obtain u where u: "u \<in> set (rx_run a s st)" "t \<in> set (rx_run b s u)"
    using Seq.prems by auto
  show ?case using Seq.IH(1) [OF u(1)] Seq.IH(2) [OF u(2)] by simp
next
  case (Alt a b)
  have "t \<in> set (rx_run a s st) \<or> t \<in> set (rx_run b s st)"
    using Alt.prems by simp
  then show ?case
    using Alt.IH(1) [of t st] Alt.IH(2) [of t st] by (elim disjE) simp_all
next
  case (Upto n a)
  show ?case using rx_run_le [OF Upto.prems] by simp
next
  case (Many a)
  show ?case using rx_run_le [OF Many.prems] by simp
next
  case (Grp a)
  obtain u where "u \<in> set (rx_run a s st)" "fst t = fst u"
    using Grp.prems by auto
  then show ?case using Grp.IH by simp
qed (auto split: if_splits)

lemma concat_map_concat: "concat (map f (concat xss)) = concat (map (\<lambda>xs. concat (map f xs)) xss)"
  by (induction xss) auto

lemma rx_run_assoc: "rx_run (Seq (Seq a b) c) = rx_run (Seq a (Seq b c))"
proof (intro ext)
  fix s st
  have "rx_run (Seq b c) s = (\<lambda>u. concat (map (rx_run c s) (rx_run b s u)))"
    by (intro ext) simp
  then show "rx_run (Seq (Seq a b) c) s st = rx_run (Seq a (Seq b c)) s st"
    by (simp del: rx_run.simps(3) add: rx_run.simps(3) [of a] rx_run.simps(3) [of "Seq a b"]
        concat_map_concat comp_def)
qed

text \<open>A pattern without groups leaves the groups as they are.\<close>

primrec no_groups :: "rx \<Rightarrow> bool" where
  "no_groups (Cls P) = True"
| "no_groups Eps = True"
| "no_groups (Seq a b) = (no_groups a \<and> no_groups b)"
| "no_groups (Alt a b) = (no_groups a \<and> no_groups b)"
| "no_groups (Upto n a) = no_groups a"
| "no_groups (Many a) = no_groups a"
| "no_groups (Grp a) = False"
| "no_groups Bol = True"
| "no_groups Word_Edge = True"
| "no_groups (Not_Ahead a) = True"
| "no_groups (Not_Behind P) = True"

lemma upto_groups:
  assumes "\<And>st t. t \<in> set (f st) \<Longrightarrow> snd t = snd st" "t \<in> set (upto_ends f n st)"
  shows "snd t = snd st"
  using assms upto_ends_invariant [of "\<lambda>st t. snd t = snd st" st f st t n] by metis

lemma rx_run_no_groups: "no_groups r \<Longrightarrow> t \<in> set (rx_run r s st) \<Longrightarrow> snd t = snd st"
proof (induction r arbitrary: st t)
  case (Seq a b)
  obtain u where u: "u \<in> set (rx_run a s st)" "t \<in> set (rx_run b s u)"
    using Seq.prems(2) by auto
  show ?case using Seq.IH(1) [OF _ u(1)] Seq.IH(2) [OF _ u(2)] Seq.prems(1) by simp
next
  case (Upto n a)
  show ?case
    using upto_groups [of "rx_run a s" t n st] Upto by simp
next
  case (Many a)
  show ?case
    using upto_groups [of "rx_run a s" t "length s" st] Many by simp
qed (auto split: if_splits)

lemma no_groups_seq [simp]: "no_groups (rx_seq as) = (\<forall>a\<in>set as. no_groups a)"
  by (induction as rule: rx_seq.induct) auto

lemma no_groups_alt [simp]: "no_groups (rx_alt as) = (\<forall>a\<in>set as. no_groups a)"
  by (induction as rule: rx_alt.induct) auto

lemma no_groups_lit [simp]: "no_groups (lit w)" "no_groups (lit_i w)"
  by (simp_all add: lit_def lit_i_def)

text \<open>The one group of \<open>a (g) b\<close>.\<close>

lemma match_only_group:
  assumes "match_at (Seq a (Seq (Grp g) b)) s i = Some m" "no_groups a" "no_groups g" "no_groups b"
    "i \<le> length s" "rx_over (\<lambda>_. True) a" "rx_over P g"
  shows "list_all P (group_of s m 0)" "rx_lo g \<le> length (group_of s m 0)"
    "length (group_of s m 0) \<le> rx_hi (length s) g"
proof -
  obtain u v w where u: "u \<in> set (rx_run a s (i, []))" and v: "v \<in> set (rx_run g s u)"
    and w: "w \<in> set (rx_run b s (fst v, snd v @ [(fst u, fst v)]))" "mt_groups m = snd w"
    using match_at_run [OF assms(1)] by fastforce
  have groups: "mt_groups m = [(fst u, fst v)]"
    using rx_run_no_groups [OF assms(2) u] rx_run_no_groups [OF assms(3) v]
      rx_run_no_groups [OF assms(4) w(1)] w(2) by simp
  have "covered P s (fst u) (fst v)" "fst u \<le> length s"
    using rx_run_covered [OF assms(7) v] rx_run_covered [OF assms(6) u] assms(5)
    by (simp_all add: covered_def)
  then show "list_all P (group_of s m 0)"
    using covered_slice groups by (simp add: group_of_def)
  have "length (group_of s m 0) = fst v - fst u"
    using \<open>covered P s (fst u) (fst v)\<close> \<open>fst u \<le> length s\<close> groups
    by (simp add: group_of_def slice_length covered_def)
  then show "rx_lo g \<le> length (group_of s m 0)" "length (group_of s m 0) \<le> rx_hi (length s) g"
    using rx_run_lo [OF v] rx_run_hi [OF v] by simp_all
qed

end
