(* ===== verification/Email_Verification.thy ===== *)
theory Email_Verification
  imports Regex Host_Policy "HOL-Library.Product_Lexorder" "HOL-Library.List_Lexorder"
begin

text \<open>
  Which message of an inbox is the verification a run waits for, and the one-time secret it
  carries (\<^theory_text>\<open>ops/email/verification.py\<close>): addresses and their plus-tags, receive times, the
  sender authentication Gmail reports, the codes and links of a message, and the selection
  over them.

  Of the host: \<^theory_text>\<open>me_addresses\<close> is \<^theory_text>\<open>email.utils.getaddresses\<close> (the address part of each
  entry), \<^theory_text>\<open>me_iso\<close> and \<^theory_text>\<open>me_rfc\<close> read a date text as an instant in milliseconds, a text
  without a zone in UTC, \<^theory_text>\<open>me_float\<close> reads a floating point epoch by its bits and
  \<^theory_text>\<open>me_v6\<close> is the check of a bracketed host. Texts are ASCII.
\<close>

record mail_env =
  me_addresses :: "string list \<Rightarrow> string list"
  me_iso :: "string \<Rightarrow> int option"
  me_rfc :: "string \<Rightarrow> int option"
  me_float :: "nat \<Rightarrow> int option"
  me_v6 :: "string \<Rightarrow> bool"

section \<open>Addresses\<close>

definition dot_insensitive_domains :: "string list" where
  "dot_insensitive_domains = [''gmail.com'', ''googlemail.com'']"

definition max_address_length :: int where
  "max_address_length = 320"

definition max_link_length :: int where
  "max_link_length = 2048"

definition max_scan_length :: int where
  "max_scan_length = 200000"

definition lower_alnum :: "char \<Rightarrow> bool" where
  "lower_alnum c = (is_lower_alpha c \<or> is_digit c)"

definition local_char :: "char \<Rightarrow> bool" where
  "local_char c = (lower_alnum c \<or> c = CHR 0x27 \<or> c \<in> set ''!#$%&*+/=?^_`{|}~.-'')"

definition local_part_re :: rx where
  "local_part_re = Seq (Cls local_char) (Upto 63 (Cls local_char))"

definition domain_label_re :: rx where
  "domain_label_re = Seq (Cls lower_alnum)
     (Upto 1 (Seq (Upto 61 (Cls (\<lambda>c. lower_alnum c \<or> c = CHR ''-''))) (Cls lower_alnum)))"

definition domain_re :: rx where
  "domain_re = rx_seq [domain_label_re, lit ''.'', domain_label_re,
     Many (Seq (lit ''.'') domain_label_re)]"

record email_address =
  ca_address :: string
  ca_local :: string
  ca_tag :: string
  ca_domain :: string
  ca_canonical :: string

definition address_of :: "string \<Rightarrow> string \<Rightarrow> email_address option" where
  "address_of loc dmn =
     (if \<not> rx_fullmatch local_part_re loc \<or> starts_with ''.'' loc \<or> ends_with ''.'' loc
         \<or> has_infix ''..'' loc \<or> \<not> rx_fullmatch domain_re dmn
      then None
      else
        let (base, _, tag) = partition_chr (CHR ''+'') loc;
            canonical = (if dmn \<in> set dot_insensitive_domains
                         then filter (\<lambda>c. c \<noteq> CHR ''.'') base else base)
        in if base = [] \<or> canonical = [] then None
           else Some \<lparr>ca_address = loc @ CHR ''@'' # dmn, ca_local = loc, ca_tag = tag,
                      ca_domain = dmn, ca_canonical = canonical\<rparr>)"

definition raw_address_ok :: "string \<Rightarrow> bool" where
  "raw_address_ok raw =
     (raw \<noteq> [] \<and> int (length raw) \<le> max_address_length \<and> length (filter (\<lambda>c. c = CHR ''@'') raw) = 1
      \<and> \<not> list_ex (\<lambda>c. c \<in> {CHR 0x0D, CHR 0x0A, CHR 0x00, CHR '' '', CHR 0x09}) raw)"

definition canonical_address :: "string \<Rightarrow> email_address option" where
  "canonical_address v =
     (let raw = lower (strip_of (set ''<>'') (strip v))
      in if \<not> raw_address_ok raw then None
         else let (loc, _, dmn) = partition_chr (CHR ''@'') raw
              in address_of loc (rstrip_chr (CHR ''.'') dmn))"

fun keep_addresses :: "email_address list \<Rightarrow> string list \<Rightarrow> email_address list" where
  "keep_addresses acc [] = acc"
| "keep_addresses acc (a # as) =
     (case canonical_address a of
        None \<Rightarrow> keep_addresses acc as
      | Some ca \<Rightarrow>
          keep_addresses (if ca_address ca \<in> set (map ca_address acc) then acc else acc @ [ca]) as)"

definition parse_addresses :: "mail_env \<Rightarrow> string list \<Rightarrow> email_address list" where
  "parse_addresses E vs =
     (let raw = filter (\<lambda>v. strip v \<noteq> []) vs
      in if raw = [] then [] else keep_addresses [] (me_addresses E raw))"

datatype recipient_binding = Binding_Exact | Binding_Canonical | Binding_Tag_Conflict | Binding_No_Match

text \<open>The loop over the observed addresses, with its two flags.\<close>

fun bind_observed ::
    "email_address \<Rightarrow> bool \<Rightarrow> bool \<Rightarrow> email_address list \<Rightarrow> recipient_binding" where
  "bind_observed e canonical conflict [] =
     (if canonical then Binding_Canonical
      else if conflict then Binding_Tag_Conflict else Binding_No_Match)"
| "bind_observed e canonical conflict (a # as) =
     (if ca_domain a \<noteq> ca_domain e \<or> ca_canonical a \<noteq> ca_canonical e
      then bind_observed e canonical conflict as
      else if ca_tag a = ca_tag e then Binding_Exact
      else if ca_tag a = [] then bind_observed e True conflict as
      else bind_observed e canonical True as)"

definition bind_recipient :: "email_address \<Rightarrow> email_address list \<Rightarrow> recipient_binding" where
  "bind_recipient e as = bind_observed e False False as"

section \<open>Receive times\<close>

datatype received =
    Received_Int int
  | Received_Float nat
  | Received_Text string
  | Received_Other

definition epoch_number_to_ms :: "int \<Rightarrow> int option" where
  "epoch_number_to_ms v =
     (if v \<le> 0 then None
      else let ms = (if 100000000000 \<le> v then v else v * 1000)
           in if 946000000000 \<le> ms \<and> ms \<le> 4100000000000 then Some ms else None)"

definition parse_received_at_ms :: "mail_env \<Rightarrow> received \<Rightarrow> int option" where
  "parse_received_at_ms E v = (case v of
      Received_Int n \<Rightarrow> epoch_number_to_ms n
    | Received_Float bits \<Rightarrow> me_float E bits
    | Received_Other \<Rightarrow> None
    | Received_Text t \<Rightarrow>
        (let raw = strip t
         in if raw = [] then None
            else if list_all is_digit raw then epoch_number_to_ms (int (digits_value raw))
            else let iso = (if last raw = CHR ''Z'' \<or> last raw = CHR ''z''
                            then butlast raw @ ''+00:00'' else raw)
                 in (case me_iso E iso of Some ms \<Rightarrow> Some ms | None \<Rightarrow> me_rfc E raw)))"

definition sender_domain_of :: "mail_env \<Rightarrow> string \<Rightarrow> string" where
  "sender_domain_of E v =
     (if strip v = [] \<or> 998 < int (length v) \<or> list_ex (\<lambda>c. c \<in> {CHR 0x0D, CHR 0x0A, CHR 0x00}) v
      then []
      else (case me_addresses E [v] of
          [a] \<Rightarrow> (case canonical_address a of Some ca \<Rightarrow> ca_domain ca | None \<Rightarrow> [])
        | _ \<Rightarrow> []))"

section \<open>Messages\<close>

record mail_message =
  mm_id :: string
  mm_sender :: string
  mm_recipients :: "string list"
  mm_received :: received
  mm_subject :: string
  mm_body :: string
  mm_auth :: "string list"
  mm_arc_auth :: "string list"
  mm_arc_seals :: "string list"

section \<open>Sender authentication\<close>

datatype sender_authentication = Auth_Dmarc | Auth_Dkim | Auth_Spf | Auth_None

definition spaces :: rx where
  "spaces = Many (Cls is_space)"

definition clause_start :: rx where
  "clause_start = Alt Bol (lit '';'')"

definition auth_method_re :: rx where
  "auth_method_re = rx_seq [clause_start, spaces,
     Grp (rx_alt [lit_i ''dmarc'', lit_i ''dkim'', lit_i ''spf'']), spaces, lit ''='', spaces,
     Grp (some_of (\<lambda>c. lower_alnum (lower_char c) \<or> c = CHR ''_'' \<or> c = CHR ''-'')), Word_Edge]"

definition auth_property_re :: rx where
  "auth_property_re = rx_seq [Word_Edge,
     Grp (rx_alt [lit_i ''header.from'', lit_i ''header.d'', lit_i ''header.i'', lit_i ''smtp.mailfrom'']),
     spaces, lit ''='', spaces,
     Grp (Alt
       (rx_seq [Cls (\<lambda>c. c = CHR 0x22), Cls (\<lambda>c. c \<noteq> CHR 0x22), Upto 499 (Cls (\<lambda>c. c \<noteq> CHR 0x22)),
          Cls (\<lambda>c. c = CHR 0x22)])
       (Seq (Cls (\<lambda>c. \<not> is_space c \<and> c \<noteq> CHR '';''))
          (Upto 499 (Cls (\<lambda>c. \<not> is_space c \<and> c \<noteq> CHR '';'')))))]"

definition arc_instance_re :: rx where
  "arc_instance_re = rx_seq [clause_start, spaces, lit_i ''i'', spaces, lit ''='', spaces,
     Grp (Seq (Cls is_digit) (Upto 2 (Cls is_digit))), Word_Edge]"

definition arc_result_re :: rx where
  "arc_result_re = rx_seq [clause_start, spaces, lit_i ''arc'', spaces, lit ''='', spaces,
     lit_i ''pass'', Word_Edge]"

definition auth_results_max_length :: int where
  "auth_results_max_length = 20000"

definition trusted_gmail_authserv_ids :: "string list" where
  "trusted_gmail_authserv_ids = [''mx.google.com'']"

definition readable_header :: "string \<Rightarrow> bool" where
  "readable_header v = (strip v \<noteq> [] \<and> int (length v) \<le> auth_results_max_length)"

definition authserv_trusted :: "string \<Rightarrow> bool" where
  "authserv_trusted v = (lower (strip (before_chr (CHR '';'') v)) \<in> set trusted_gmail_authserv_ids)"

definition trusted_authentication_results_header :: "string \<Rightarrow> bool" where
  "trusted_authentication_results_header v = (readable_header v \<and> authserv_trusted v)"

fun arc_instances :: "string list \<Rightarrow> nat list" where
  "arc_instances [] = []"
| "arc_instances (raw # rs) =
     (if \<not> readable_header raw then arc_instances rs
      else (case rx_search arc_instance_re raw of
          None \<Rightarrow> arc_instances rs
        | Some m \<Rightarrow> digits_value (group_of raw m 0) # arc_instances rs))"

definition arc_authentication_results_trusted :: "string \<Rightarrow> nat list \<Rightarrow> bool" where
  "arc_authentication_results_trusted v instances =
     (if \<not> readable_header v then False
      else (case rx_search arc_instance_re v of
          None \<Rightarrow> False
        | Some m \<Rightarrow> digits_value (group_of v m 0) \<in> set instances \<and>
            authserv_trusted (lstrip_of (set '' ;'') (drop (mt_end m) v))))"

definition authentication_domain :: "string option \<Rightarrow> string option" where
  "authentication_domain v = (case v of None \<Rightarrow> None
    | Some t \<Rightarrow>
        (let n0 = rstrip_chr (CHR ''.'')
               (lower (strip_of (insert (CHR 0x22) (insert (CHR 0x27) (set ''<>(),''))) (strip t)));
             n = snd (snd (rpartition_chr (CHR ''@'') n0))
         in if 253 < int (length n) \<or> \<not> rx_fullmatch domain_re n then None else Some n))"

definition strict_domain_alignment :: "string \<Rightarrow> string \<Rightarrow> bool" where
  "strict_domain_alignment authenticated sender =
     (authenticated = sender \<or> ends_with (CHR ''.'' # sender) authenticated \<or>
      ends_with (CHR ''.'' # authenticated) sender)"

definition aligned_with :: "string \<Rightarrow> string option \<Rightarrow> bool" where
  "aligned_with sender v = (case authentication_domain v of
      None \<Rightarrow> False | Some a \<Rightarrow> strict_domain_alignment a sender)"

text \<open>The property a clause gives, the last one of a name winning.\<close>

definition clause_property :: "string \<Rightarrow> string \<Rightarrow> string option" where
  "clause_property clause name =
     map_option (\<lambda>m. group_of clause m 1)
       (List.find (\<lambda>m. lower (group_of clause m 0) = name) (rev (rx_finditer auth_property_re clause)))"

text \<open>The clauses of one header from a match to the next; the answer is \<open>None\<close> when an aligned
  DMARC clause ends the search, and the two flags otherwise.\<close>

fun read_clauses :: "string \<Rightarrow> string \<Rightarrow> bool \<times> bool \<Rightarrow> rx_match list \<Rightarrow> (bool \<times> bool) option" where
  "read_clauses h sender flags [] = Some flags"
| "read_clauses h sender (dkim, spf) (m # ms) =
     (if lower (group_of h m 1) \<noteq> ''pass'' then read_clauses h sender (dkim, spf) ms
      else
        let stop = (case ms of [] \<Rightarrow> length h | m' # _ \<Rightarrow> mt_start m');
            clause = slice h (mt_start m) stop;
            meth = lower (group_of h m 0)
        in if meth = ''dmarc''
           then (if aligned_with sender (clause_property clause ''header.from'') then None
                 else read_clauses h sender (dkim, spf) ms)
           else if meth = ''dkim''
           then read_clauses h sender
                  (dkim \<or> aligned_with sender
                     (case clause_property clause ''header.d'' of
                        Some d \<Rightarrow> if d = [] then clause_property clause ''header.i'' else Some d
                      | None \<Rightarrow> clause_property clause ''header.i''), spf) ms
           else read_clauses h sender
                  (dkim, spf \<or> aligned_with sender (clause_property clause ''smtp.mailfrom'')) ms)"

fun read_headers :: "string \<Rightarrow> bool \<times> bool \<Rightarrow> string list \<Rightarrow> (bool \<times> bool) option" where
  "read_headers sender flags [] = Some flags"
| "read_headers sender flags (h # hs) =
     (case read_clauses h sender flags (rx_finditer auth_method_re h) of
        None \<Rightarrow> None
      | Some flags' \<Rightarrow> read_headers sender flags' hs)"

definition best_authenticated_method :: "string list \<Rightarrow> string \<Rightarrow> sender_authentication" where
  "best_authenticated_method hs sender =
     (case read_headers sender (False, False) hs of
        None \<Rightarrow> Auth_Dmarc
      | Some (dkim, spf) \<Rightarrow> if dkim then Auth_Dkim else if spf then Auth_Spf else Auth_None)"

definition sender_authentication_method ::
    "mail_message \<Rightarrow> string \<Rightarrow> sender_authentication \<times> string" where
  "sender_authentication_method msg domain =
     (case authentication_domain (Some domain) of
        None \<Rightarrow> (Auth_None, ''verification_sender_authentication_failed'')
      | Some sender \<Rightarrow>
        (let direct = filter trusted_authentication_results_header (mm_auth msg)
         in if 1 < length direct
            then (Auth_None, ''verification_sender_authentication_untrusted'')
            else (case direct of
                h # _ \<Rightarrow>
                  (let m = best_authenticated_method direct sender
                   in if m \<noteq> Auth_None then (m, ''verification_sender_authenticated'')
                      else if rx_search arc_result_re h \<noteq> None
                      then
                        let instances = arc_instances (mm_arc_seals msg);
                            arc = filter (\<lambda>v. arc_authentication_results_trusted v instances)
                                    (mm_arc_auth msg);
                            am = best_authenticated_method arc sender
                        in if length arc = 1 \<and> am \<noteq> Auth_None
                           then (am, ''verification_sender_authenticated'')
                           else (Auth_None, ''verification_sender_authentication_failed'')
                      else (Auth_None, ''verification_sender_authentication_failed''))
              | [] \<Rightarrow>
                  if mm_auth msg \<noteq> [] \<or> mm_arc_auth msg \<noteq> []
                  then (Auth_None, ''verification_sender_authentication_untrusted'')
                  else (Auth_None, ''verification_sender_authentication_missing''))))"

section \<open>Hosts of links\<close>

definition host_matches :: "string \<Rightarrow> string list \<Rightarrow> bool" where
  "host_matches host ps =
     (let n = fold_host host
      in n \<noteq> [] \<and> list_ex (\<lambda>p. p \<noteq> [] \<and>
           (let c = fold_host p
            in if starts_with ''*.'' c
               then n \<noteq> drop 2 c \<and> ends_with (CHR ''.'' # drop 2 c) n
               else n = c)) ps)"

definition is_safe_verification_link :: "mail_env \<Rightarrow> string \<Rightarrow> string list \<Rightarrow> bool" where
  "is_safe_verification_link E url allowed =
     (if url = [] \<or> max_link_length < int (length url) \<or> list_ex (\<lambda>c. (of_char c :: nat) \<le> 32) url
      then False
      else (case bindR (urlsplit (me_v6 E) url) (\<lambda>u. bindR (port u) (\<lambda>p. Inr (u, p))) of
          Inl _ \<Rightarrow> False
        | Inr (u, p) \<Rightarrow>
            scheme u = ''https'' \<and> truthy (hostname u) \<and> \<not> truthy (username u) \<and>
            \<not> truthy (password u) \<and> p \<in> {None, Some 443} \<and>
            host_matches (the (hostname u)) allowed))"

definition link_host :: "mail_env \<Rightarrow> string \<Rightarrow> string" where
  "link_host E url = (case urlsplit (me_v6 E) url of
      Inl _ \<Rightarrow> []
    | Inr u \<Rightarrow> (case hostname u of None \<Rightarrow> [] | Some h \<Rightarrow> fold_host h))"

section \<open>Codes and links of a message\<close>

definition dash_or_space :: "char \<Rightarrow> bool" where
  "dash_or_space c = (is_space c \<or> c = CHR ''-'')"

definition otp_cue :: rx where
  "otp_cue = rx_seq [Word_Edge, rx_alt (
     [rx_seq [lit_i ''one'', Upto 1 (Cls dash_or_space), lit_i ''time'']] @
     map lit_i [''verification'', ''verify'', ''security'', ''confirmation'', ''confirm'', ''access''] @
     [rx_seq [lit_i ''log'', Upto 1 (Cls dash_or_space), lit_i ''in''], lit_i ''login'',
      rx_seq [lit_i ''sign'', Upto 1 (Cls dash_or_space), lit_i ''in'']] @
     map lit_i [''authentication'', ''auth'', ''passcode'', ''otp'', ''pin'', ''code'']), Word_Edge]"

definition otp_candidate :: rx where
  "otp_candidate = rx_seq [Not_Behind (\<lambda>c. word_char c \<or> c \<in> set ''./-''),
     Grp (Alt (rx_seq [exactly 3 (Cls is_digit), Cls dash_or_space, exactly 3 (Cls is_digit)])
              (Seq (exactly 4 (Cls is_digit)) (Upto 4 (Cls is_digit)))),
     Not_Ahead (Alt (Cls word_char) (Seq (one_of ''./-'') (Cls is_digit)))]"

definition otp_alnum_near :: rx where
  "otp_alnum_near = rx_seq [rx_alt (map lit_i [''code'', ''otp'', ''passcode'', ''pin'']), Word_Edge,
     Upto 12 (Cls (\<lambda>c. \<not> is_digit c \<and> \<not> is_upper_alpha c \<and> \<not> is_lower_alpha c)),
     Grp (Seq (exactly 5 (Cls (\<lambda>c. is_upper_alpha c \<or> is_digit c)))
              (Upto 3 (Cls (\<lambda>c. is_upper_alpha c \<or> is_digit c)))), Word_Edge]"

definition otp_yearish :: "string \<Rightarrow> bool" where
  "otp_yearish s = rx_fullmatch (rx_seq [Alt (lit ''19'') (lit ''20''), exactly 2 (Cls is_digit)]) s"

definition otp_max_cue_distance :: nat where
  "otp_max_cue_distance = 60"

definition plausible_numeric_code :: "string \<Rightarrow> bool" where
  "plausible_numeric_code n =
     (list_all is_digit n \<and> 4 \<le> length n \<and> length n \<le> 8 \<and>
      \<not> (length n = 4 \<and> otp_yearish n) \<and> card (set n) \<noteq> 1)"

definition scan_text :: "string \<Rightarrow> string \<Rightarrow> string" where
  "scan_text subject body = clip max_scan_length (subject @ CHR 0x0A # body)"

definition cue_distance :: "nat list \<Rightarrow> nat \<Rightarrow> nat" where
  "cue_distance cues i = Min (set (map (\<lambda>p. if p \<le> i then i - p else p - i) cues))"

text \<open>The nearest plausible candidate, the first of the nearest.\<close>

fun best_code ::
    "string \<Rightarrow> nat \<Rightarrow> nat list \<Rightarrow> (string \<times> nat) option \<Rightarrow> rx_match list \<Rightarrow> (string \<times> nat) option" where
  "best_code text boundary cues best [] = best"
| "best_code text boundary cues best (m # ms) =
     (let n = filter (\<lambda>c. \<not> dash_or_space c) (group_of text m 0);
          d0 = cue_distance cues (mt_start m);
          d = (if mt_start m < boundary then min d0 15 else d0)
      in if \<not> plausible_numeric_code n then best_code text boundary cues best ms
         else if int d < (case best of None \<Rightarrow> 1000000000 | Some (_, bd) \<Rightarrow> int bd)
         then best_code text boundary cues (Some (n, d)) ms
         else best_code text boundary cues best ms)"

definition extract_verification_code :: "string \<Rightarrow> string \<Rightarrow> string option" where
  "extract_verification_code subject body =
     (let text = scan_text subject body;
          cues = map mt_start (rx_finditer otp_cue text)
      in if cues = [] then None
         else
           let numeric = (case best_code text (length subject + 1) cues None (rx_finditer otp_candidate text) of
                 None \<Rightarrow> None
               | Some (c, d) \<Rightarrow> if d \<le> otp_max_cue_distance then Some c else None)
           in (case rx_search otp_alnum_near text of
                 Some m \<Rightarrow> (if \<not> list_all is_digit (group_of text m 0) then Some (group_of text m 0)
                            else numeric)
               | None \<Rightarrow> numeric))"

definition verification_email_keywords :: "string list" where
  "verification_email_keywords =
     [''verify'', ''verification'', ''confirm'', ''sign in'', ''sign-in'', ''log in'', ''login'',
      ''new device'', ''new login'', ''activate'', ''authenticate'', ''secure your account'',
      ''it'' @ CHR 0x27 # ''s you'', ''it is you'', ''complete your registration'',
      ''complete your signup'', ''complete your sign up'', ''finish setting up'',
      ''welcome to'']"

definition verification_link_hints :: "string list" where
  "verification_link_hints =
     [''notification-station'', ''notifications/cta'', ''/cta/'', ''deliverymethod'',
      ''login-verify'', ''login_verify'', ''verify-email'', ''verify_email'',
      ''email-verification'', ''confirm-email'', ''confirm_email'', ''activate-account'',
      ''verification'', ''verify'', ''confirm'', ''secure-login'', ''signin'', ''sign-in'',
      ''one-time'', ''onetime'', ''magiclink'', ''magic-link'', ''activate'', ''sso'', ''auth'',
      ''token'']"

definition link_stopwords :: "string list" where
  "link_stopwords =
     [''unsubscribe'', ''privacy'', ''/legal'', ''terms'', ''help.'', ''/help'', ''support.'',
      ''cookie'', ''preferences'', ''manage-preferences'']"

definition link_asset_markers :: "string list" where
  "link_asset_markers =
     [''hsappstatic.net'', ''/emailimages/'', ''hubspotlinks.com'', ''/cto/'',
      ''sib.googleusercontent'', ''list-manage'', ''/track'', ''/open?'', ''pixel'']"

definition asset_suffixes :: "string list" where
  "asset_suffixes =
     [''.png'', ''.jpg'', ''.jpeg'', ''.gif'', ''.svg'', ''.css'', ''.ico'', ''.woff'',
      ''.woff2'', ''.webp'']"

definition url_re :: rx where
  "url_re = rx_seq [lit_i ''http'', Upto 1 (lit_i ''s''), lit ''://'',
     some_of (\<lambda>c. \<not> is_space c \<and> c \<noteq> CHR 0x22 \<and> c \<noteq> CHR 0x27 \<and> c \<notin> set ''<>)]}'')]"

definition looks_like_verification_email :: "string \<Rightarrow> string \<Rightarrow> bool" where
  "looks_like_verification_email subject body =
     (let text = lower (scan_text subject body)
      in list_ex (\<lambda>k. has_infix k text) verification_email_keywords)"

fun unescape_amp :: "string \<Rightarrow> string" where
  "unescape_amp [] = []"
| "unescape_amp (c # s) =
     (if starts_with ''&amp;'' (c # s) then CHR ''&'' # unescape_amp (drop 4 s)
      else c # unescape_amp s)"

definition link_text :: "string \<Rightarrow> rx_match \<Rightarrow> string" where
  "link_text text m =
     rstrip_of (insert CHR 0x22 (insert CHR 0x27 (set ''.,);]}''))) (group0 text m)"

definition link_candidate :: "mail_env \<Rightarrow> string list \<Rightarrow> bool \<Rightarrow> string \<Rightarrow> bool" where
  "link_candidate E allowed reviewed url =
     (let l = lower url
      in int (length url) \<le> max_link_length \<and>
         \<not> list_ex (\<lambda>w. has_infix w l) link_stopwords \<and>
         \<not> list_ex (\<lambda>w. has_infix w l) link_asset_markers \<and>
         \<not> list_ex (\<lambda>w. ends_with w (before_chr (CHR ''?'') l)) asset_suffixes \<and>
         (reviewed \<longrightarrow> is_safe_verification_link E url allowed))"

definition extract_verification_link ::
    "mail_env \<Rightarrow> string \<Rightarrow> string \<Rightarrow> string list \<Rightarrow> bool \<Rightarrow> string option" where
  "extract_verification_link E subject body allowed reviewed =
     (if \<not> looks_like_verification_email subject body then None
      else
        let text = clip max_scan_length (unescape_amp body);
            candidates = filter (link_candidate E allowed reviewed)
                           (map (link_text text) (rx_finditer url_re text))
        in (case candidates of [] \<Rightarrow> None
            | first # _ \<Rightarrow>
                (case List.find (\<lambda>url. list_ex (\<lambda>h. has_infix h (lower url)) verification_link_hints)
                        candidates of
                   Some url \<Rightarrow> Some url
                 | None \<Rightarrow> Some first)))"

section \<open>The secret of a message\<close>

datatype verification_purpose = Signup_Confirmation | Login_Verification | Email_Otp

datatype secret_kind = Secret_Link | Secret_Code

record verification_evidence =
  ve_purpose :: verification_purpose
  ve_kind :: secret_kind
  ve_message :: string
  ve_domain :: string
  ve_binding :: recipient_binding
  ve_reviewed :: bool
  ve_authentication :: sender_authentication
  ve_received :: int
  ve_age :: int
  ve_link_host :: string
  ve_code_length :: nat

text \<open>The bounds the evidence model enforces on what it is built from.\<close>

definition make_evidence :: "verification_evidence \<Rightarrow> verification_evidence result" where
  "make_evidence v =
     (if strip (ve_message v) = [] \<or> 1000 < int (length (strip (ve_message v))) \<or>
         253 < int (length (strip (ve_domain v))) \<or> 253 < int (length (strip (ve_link_host v))) \<or>
         ve_received v < 0 \<or> ve_age v < 0 \<or> 8 < ve_code_length v
      then Inl (ValueError ''VerificationEvidence'')
      else Inr (v\<lparr>ve_message := strip (ve_message v), ve_domain := strip (ve_domain v),
                 ve_link_host := strip (ve_link_host v)\<rparr>))"

type_synonym resolved_verification = "string \<times> verification_evidence"

record verification_request =
  vr_purpose :: verification_purpose
  vr_recipient :: string
  vr_now :: int
  vr_max_age :: int
  vr_allowed :: "string list"
  vr_reviewed :: "string list"
  vr_need_reviewed :: bool
  vr_need_authenticated :: bool
  vr_need_reviewed_link :: bool
  vr_prefer_link :: bool
  vr_consumed :: "string list"
  vr_requested :: "int option"
  vr_skew :: int
  vr_request_skew :: int

definition link_secret ::
    "mail_env \<Rightarrow> verification_request \<Rightarrow> mail_message \<Rightarrow> verification_evidence \<Rightarrow>
     resolved_verification option result" where
  "link_secret E R msg v =
     (case extract_verification_link E (mm_subject msg) (mm_body msg) (vr_allowed R)
             (vr_need_reviewed_link R) of
        None \<Rightarrow> Inr None
      | Some url \<Rightarrow>
          if vr_need_reviewed_link R \<and> \<not> is_safe_verification_link E url (vr_allowed R) then Inr None
          else bindR (make_evidence (v\<lparr>ve_kind := Secret_Link, ve_link_host := clip 253 (link_host E url),
                                       ve_code_length := 0\<rparr>))
                 (\<lambda>v'. Inr (Some (url, v'))))"

definition code_secret ::
    "mail_message \<Rightarrow> verification_evidence \<Rightarrow> resolved_verification option result" where
  "code_secret msg v =
     (case extract_verification_code (mm_subject msg) (mm_body msg) of
        None \<Rightarrow> Inr None
      | Some code \<Rightarrow>
          bindR (make_evidence (v\<lparr>ve_kind := Secret_Code, ve_link_host := [],
                                  ve_code_length := length code\<rparr>))
            (\<lambda>v'. Inr (Some (code, v'))))"

text \<open>\<open>v\<close> carries the fields both kinds of evidence share.\<close>

definition extract_secret ::
    "mail_env \<Rightarrow> verification_request \<Rightarrow> mail_message \<Rightarrow> verification_evidence \<Rightarrow>
     resolved_verification option result" where
  "extract_secret E R msg v =
     (let or_else = (\<lambda>first second.
            bindR first (\<lambda>r. case r of Some x \<Rightarrow> Inr (Some x) | None \<Rightarrow> second))
      in if vr_prefer_link R then or_else (link_secret E R msg v) (code_secret msg v)
         else or_else (code_secret msg v) (link_secret E R msg v))"

section \<open>The selection\<close>

datatype screening =
    Stop_Stale
  | Rejected string
  | Accepted resolved_verification

text \<open>One round of the selection loop: a stale message ends it, any other refusal goes on.\<close>

definition screen_bindings ::
    "mail_env \<Rightarrow> verification_request \<Rightarrow> email_address \<Rightarrow> mail_message \<Rightarrow> int \<Rightarrow> screening result" where
  "screen_bindings E R expected msg received =
     (let binding = bind_recipient expected (parse_addresses E (mm_recipients msg));
          domain = sender_domain_of E (mm_sender msg);
          reviewed = (domain \<noteq> [] \<and> host_matches domain (vr_reviewed R));
          auth = sender_authentication_method msg domain
      in if binding = Binding_Tag_Conflict then Inr (Rejected ''verification_recipient_tag_conflict'')
         else if binding = Binding_Canonical \<and> ca_tag expected \<noteq> []
         then Inr (Rejected ''verification_recipient_tag_missing'')
         else if binding = Binding_No_Match then Inr (Rejected ''verification_recipient_mismatch'')
         else if vr_need_reviewed R \<and> \<not> reviewed then Inr (Rejected ''verification_sender_not_reviewed'')
         else if vr_need_authenticated R \<and> fst auth = Auth_None then Inr (Rejected (snd auth))
         else bindR (extract_secret E R msg
                \<lparr>ve_purpose = vr_purpose R, ve_kind = Secret_Link, ve_message = strip (mm_id msg),
                 ve_domain = clip 253 domain, ve_binding = binding, ve_reviewed = reviewed,
                 ve_authentication = fst auth, ve_received = received,
                 ve_age = max 0 ((vr_now R - received) div 1000), ve_link_host = [],
                 ve_code_length = 0\<rparr>)
              (\<lambda>r. Inr (case r of None \<Rightarrow> Rejected ''verification_secret_absent''
                         | Some x \<Rightarrow> Accepted x)))"

definition screen_message ::
    "mail_env \<Rightarrow> verification_request \<Rightarrow> email_address \<Rightarrow> int option \<times> mail_message \<Rightarrow>
     screening result" where
  "screen_message E R expected entry =
     (let (at, msg) = entry; mid = strip (mm_id msg)
      in if mid = [] then Inr (Rejected ''verification_message_id_missing'')
         else if mid \<in> set (filter (\<lambda>i. i \<noteq> []) (vr_consumed R))
         then Inr (Rejected ''verification_already_consumed'')
         else (case at of
            None \<Rightarrow> Inr (Rejected ''verification_timestamp_unparsable'')
          | Some received \<Rightarrow>
              if (case vr_requested R of None \<Rightarrow> False
                  | Some q \<Rightarrow> received < q - vr_request_skew R * 1000)
              then Inr (Rejected ''verification_precedes_current_challenge'')
              else if vr_now R - received < - vr_skew R * 1000
              then Inr (Rejected ''verification_message_future_dated'')
              else if vr_max_age R * 1000 < vr_now R - received then Inr Stop_Stale
              else screen_bindings E R expected msg received))"

fun screen_ordered ::
    "mail_env \<Rightarrow> verification_request \<Rightarrow> email_address \<Rightarrow> string list \<Rightarrow>
     (int option \<times> mail_message) list \<Rightarrow> (resolved_verification option \<times> string list) result" where
  "screen_ordered E R expected rejections [] = Inr (None, rejections)"
| "screen_ordered E R expected rejections (entry # es) =
     (case screen_message E R expected entry of
        Inl e \<Rightarrow> Inl e
      | Inr Stop_Stale \<Rightarrow> Inr (None, rejections @ [''verification_message_stale''])
      | Inr (Rejected r) \<Rightarrow> screen_ordered E R expected (rejections @ [r]) es
      | Inr (Accepted x) \<Rightarrow> Inr (Some x, rejections))"

definition order_key :: "int option \<times> mail_message \<Rightarrow> bool \<times> int \<times> string" where
  "order_key entry =
     (fst entry = None, - (case fst entry of None \<Rightarrow> 0 | Some ms \<Rightarrow> ms), mm_id (snd entry))"

definition order_newest_first ::
    "mail_env \<Rightarrow> mail_message list \<Rightarrow> (int option \<times> mail_message) list" where
  "order_newest_first E ms =
     sort_key order_key (map (\<lambda>m. (parse_received_at_ms E (mm_received m), m)) ms)"

record verification_decision =
  vd_resolved :: "resolved_verification option"
  vd_reason :: string
  vd_examined :: nat
  vd_rejections :: "string list"

definition max_verification_age_seconds :: int where
  "max_verification_age_seconds = 3600"

definition refused_selection :: "string \<Rightarrow> verification_decision" where
  "refused_selection r = \<lparr>vd_resolved = None, vd_reason = r, vd_examined = 0, vd_rejections = []\<rparr>"

text \<open>The argument checks, in their order: the reason of the first that fails.\<close>

definition selection_refusal :: "verification_request \<Rightarrow> string option" where
  "selection_refusal R =
     (if canonical_address (vr_recipient R) = None
      then Some ''verification_expected_recipient_invalid''
      else if vr_max_age R \<le> 0 \<or> max_verification_age_seconds < vr_max_age R
      then Some ''verification_age_bound_invalid''
      else if (case vr_requested R of None \<Rightarrow> False
               | Some q \<Rightarrow> q \<le> 0 \<or> vr_now R + vr_skew R * 1000 < q)
      then Some ''verification_request_timestamp_invalid''
      else if \<not> (0 \<le> vr_request_skew R \<and> vr_request_skew R \<le> 60)
      then Some ''verification_request_skew_invalid''
      else if vr_need_reviewed R \<and> vr_reviewed R = []
      then Some ''verification_reviewed_sender_set_missing''
      else if vr_need_reviewed_link R \<and> vr_allowed R = []
      then Some ''verification_reviewed_host_set_missing''
      else None)"

definition select_verification ::
    "mail_env \<Rightarrow> mail_message list \<Rightarrow> verification_request \<Rightarrow> verification_decision result" where
  "select_verification E ms R =
     (case selection_refusal R of
        Some r \<Rightarrow> Inr (refused_selection r)
      | None \<Rightarrow>
        (let ordered = order_newest_first E ms
         in bindR (screen_ordered E R (the (canonical_address (vr_recipient R))) [] ordered)
              (\<lambda>(r, rejections). Inr
                 \<lparr>vd_resolved = r,
                  vd_reason = (case r of Some _ \<Rightarrow> ''verification_resolved''
                    | None \<Rightarrow> (case rejections of [] \<Rightarrow> ''verification_message_not_found'' | q # _ \<Rightarrow> q)),
                  vd_examined = length ordered, vd_rejections = rejections\<rparr>)))"

end
