(* ===== verification/Email_Selection.thy ===== *)
theory Email_Selection
  imports Email_Verification "HOL-Library.Multiset"
begin

text \<open>
  What the selection of a verification message guarantees: canonical addresses read back, the
  selected message satisfies every binding, it is the newest that does, the order in which the
  provider lists the messages does not matter, and the links and codes it yields are those the
  browser policy admits and the code heuristics call plausible.
\<close>

section \<open>Addresses read back\<close>

lemma address_of_Some:
  "address_of loc dmn = Some a \<Longrightarrow>
     ca_address a = loc @ CHR ''@'' # dmn \<and> ca_local a = loc \<and> ca_domain a = dmn \<and>
     rx_fullmatch local_part_re loc \<and> rx_fullmatch domain_re dmn"
  by (auto simp: address_of_def Let_def split: if_splits prod.splits)

lemma local_chars: "rx_fullmatch local_part_re loc \<Longrightarrow> list_all local_char loc \<and> loc \<noteq> []"
  using rx_fullmatch_all [of local_part_re loc local_char]
  by (auto simp: local_part_re_def rx_fullmatch_def)

definition domain_char :: "char \<Rightarrow> bool" where
  "domain_char c = (lower_alnum c \<or> c = CHR ''-'' \<or> c = CHR ''.'')"

lemma domain_chars: "rx_fullmatch domain_re dmn \<Longrightarrow> list_all domain_char dmn"
  by (rule rx_fullmatch_all) (auto simp: domain_re_def domain_label_re_def domain_char_def lit_def)

lemma address_char_plain:
  "local_char c \<or> domain_char c \<Longrightarrow>
     \<not> is_space c \<and> \<not> is_upper_alpha c \<and> c \<notin> set ''<>@'' \<and> c \<notin> {CHR 0x0D, CHR 0x0A, CHR 0x00, CHR '' '', CHR 0x09}"
  by (auto simp: local_char_def domain_char_def lower_alnum_def is_lower_alpha_def is_digit_def
      is_space_def is_upper_alpha_def Let_def)

lemma strip_of_id: "list_all (\<lambda>c. c \<notin> A) s \<Longrightarrow> strip_of A s = s"
proof -
  assume a: "list_all (\<lambda>c. c \<notin> A) s"
  have "dropWhile (\<lambda>c. c \<in> A) t = t" if "set t \<subseteq> set s" for t
    using a that by (cases t) (auto simp: list_all_iff)
  then show ?thesis
    by (simp add: strip_of_def rstrip_of_def lstrip_of_def)
qed

lemma strip_id: "list_all (\<lambda>c. \<not> is_space c) s \<Longrightarrow> strip s = s"
proof -
  assume a: "list_all (\<lambda>c. \<not> is_space c) s"
  have "dropWhile is_space t = t" if "set t \<subseteq> set s" for t
    using a that by (cases t) (auto simp: list_all_iff)
  then show ?thesis
    by (simp add: strip_def)
qed

lemma partition_chr_found:
  "c \<in> set s \<Longrightarrow> s = takeWhile (\<lambda>d. d \<noteq> c) s @ c # drop 1 (dropWhile (\<lambda>d. d \<noteq> c) s)"
  by (induction s) auto

lemma partition_length: "partition_chr c s = (a, True, b) \<Longrightarrow> length (a @ c # b) = length s"
  using arg_cong [OF partition_chr_found, of c s length] by (auto simp: partition_chr_def)

lemma canonical_address_Some:
  assumes "canonical_address v = Some a"
  shows "address_of (ca_local a) (ca_domain a) = Some a"
    "rstrip_chr (CHR ''.'') (ca_domain a) = ca_domain a" "int (length (ca_address a)) \<le> max_address_length"
proof -
  let ?raw = "lower (strip_of (set ''<>'') (strip v))"
  obtain loc at dmn where p: "partition_chr (CHR ''@'') ?raw = (loc, at, dmn)"
    by (cases "partition_chr (CHR ''@'') ?raw")
  have raw: "raw_address_ok ?raw" and a: "address_of loc (rstrip_chr (CHR ''.'') dmn) = Some a"
    using assms p by (auto simp: canonical_address_def Let_def simp del: set_simps split: if_splits)
  have "at"
  proof -
    have "filter (\<lambda>c. c = CHR ''@'') ?raw \<noteq> []"
      using raw by (auto simp only: raw_address_ok_def list.size)
    then show ?thesis
      using p by (auto simp: partition_chr_def filter_empty_conv)
  qed
  with p have "length (loc @ CHR ''@'' # dmn) = length ?raw"
    using partition_length by simp
  moreover have "length (rstrip_chr (CHR ''.'') dmn) \<le> length dmn"
    using length_dropWhile_le [of "\<lambda>d. d = CHR ''.''" "rev dmn"] by (simp add: rstrip_chr_def)
  ultimately show "int (length (ca_address a)) \<le> max_address_length"
    using raw address_of_Some [OF a] by (simp add: raw_address_ok_def)
  show "address_of (ca_local a) (ca_domain a) = Some a"
    "rstrip_chr (CHR ''.'') (ca_domain a) = ca_domain a"
    using a address_of_Some [OF a] by simp_all
qed

text \<open>The comparable form of an address is itself an address with that form: reading the
  address a message was canonicalised to gives the same mailbox, tag and domain, so stored
  identities compare like freshly parsed ones.\<close>

theorem canonical_address_roundtrip:
  assumes "canonical_address v = Some a"
  shows "canonical_address (ca_address a) = Some a"
proof -
  note a = canonical_address_Some [OF assms]
  let ?l = "ca_local a" and ?d = "ca_domain a"
  have parts: "ca_address a = ?l @ CHR ''@'' # ?d" "rx_fullmatch local_part_re ?l" "rx_fullmatch domain_re ?d"
    using address_of_Some [OF a(1)] by auto
  have plain: "list_all (\<lambda>c. \<not> is_space c \<and> \<not> is_upper_alpha c \<and> c \<notin> set ''<>@'' \<and>
      c \<notin> {CHR 0x0D, CHR 0x0A, CHR 0x00, CHR '' '', CHR 0x09}) (?l @ ?d)"
    using local_chars [OF parts(2)] domain_chars [OF parts(3)] address_char_plain
    unfolding list_all_iff by (metis Un_iff set_append)
  have noat: "CHR ''@'' \<notin> set ?l" "CHR ''@'' \<notin> set ?d"
    using plain by (auto simp: list_all_iff)
  have "list_all (\<lambda>c. \<not> is_space c) (ca_address a)" "list_all (\<lambda>c. \<not> is_upper_alpha c) (ca_address a)"
    "list_all (\<lambda>c. c \<notin> set ''<>'') (ca_address a)"
    using plain by (auto simp: parts(1) list_all_iff is_space_def is_upper_alpha_def)
  then have raw: "lower (strip_of (set ''<>'') (strip (ca_address a))) = ca_address a"
    by (simp only: strip_id strip_of_id lower_id)
  have "raw_address_ok (ca_address a)"
    using plain noat a(3) filter_False [of ?l "\<lambda>c. c = CHR ''@''"] filter_False [of ?d "\<lambda>c. c = CHR ''@''"]
    by (auto simp: raw_address_ok_def parts(1) list_all_iff list_ex_iff)
  then show ?thesis
    unfolding canonical_address_def raw Let_def
    using a(1,2) noat by (simp add: parts(1) partition_chr_app)
qed

lemma canonical_address_roundtrip_witness:
  "\<exists>a. canonical_address '' <Dev.Ops+acme@Gmail.com.> '' = Some a \<and>
     ca_canonical a = ''devops'' \<and> ca_tag a = ''acme'' \<and> canonical_address (ca_address a) = Some a"
proof -
  have "case canonical_address '' <Dev.Ops+acme@Gmail.com.> '' of
      Some a \<Rightarrow> ca_canonical a = ''devops'' \<and> ca_tag a = ''acme'' | None \<Rightarrow> False"
    by code_simp
  then show ?thesis
    using canonical_address_roundtrip [of "'' <Dev.Ops+acme@Gmail.com.> ''"] by (auto split: option.splits)
qed

section \<open>What the selection binds\<close>

lemma bind_observed_exact:
  "bind_observed e canonical conflict as = Binding_Exact \<Longrightarrow>
     \<exists>a\<in>set as. ca_domain a = ca_domain e \<and> ca_canonical a = ca_canonical e \<and> ca_tag a = ca_tag e"
  by (induction e canonical conflict as rule: bind_observed.induct) (auto split: if_splits)

lemma bind_observed_untagged:
  "ca_tag e = [] \<Longrightarrow> bind_observed e False conflict as \<noteq> Binding_Canonical"
  by (induction as arbitrary: conflict) auto

definition evidence_of :: "verification_evidence \<Rightarrow> verification_evidence \<Rightarrow> bool" where
  "evidence_of v v' =
     (ve_message v' = strip (ve_message v) \<and> ve_received v' = ve_received v \<and>
      ve_binding v' = ve_binding v \<and> ve_authentication v' = ve_authentication v)"

lemma make_evidence_Inr:
  "make_evidence v = Inr v' \<Longrightarrow> evidence_of v v' \<and> ve_kind v' = ve_kind v"
  by (auto simp: make_evidence_def evidence_of_def split: if_splits)

definition secret_ok :: "mail_env \<Rightarrow> verification_request \<Rightarrow> mail_message \<Rightarrow> resolved_verification \<Rightarrow> bool" where
  "secret_ok E R msg x =
     (case ve_kind (snd x) of
        Secret_Link \<Rightarrow>
          extract_verification_link E (mm_subject msg) (mm_body msg) (vr_allowed R)
            (vr_need_reviewed_link R) = Some (fst x) \<and>
          (vr_need_reviewed_link R \<longrightarrow> is_safe_verification_link E (fst x) (vr_allowed R))
      | Secret_Code \<Rightarrow> extract_verification_code (mm_subject msg) (mm_body msg) = Some (fst x))"

lemma link_secret_Inr:
  "link_secret E R msg v = Inr (Some x) \<Longrightarrow> secret_ok E R msg x \<and> evidence_of v (snd x)"
  unfolding link_secret_def secret_ok_def
  by (auto simp: result_simps evidence_of_def dest!: make_evidence_Inr split: option.splits if_splits)

lemma code_secret_Inr:
  "code_secret msg v = Inr (Some x) \<Longrightarrow> secret_ok E R msg x \<and> evidence_of v (snd x)"
  unfolding code_secret_def secret_ok_def
  by (auto simp: result_simps evidence_of_def dest!: make_evidence_Inr split: option.splits if_splits)

lemma extract_secret_Inr:
  "extract_secret E R msg v = Inr (Some x) \<Longrightarrow> secret_ok E R msg x \<and> evidence_of v (snd x)"
  unfolding extract_secret_def Let_def
  by (auto simp: result_simps dest: link_secret_Inr code_secret_Inr split: option.splits if_splits)

definition addressed_to :: "mail_env \<Rightarrow> email_address \<Rightarrow> mail_message \<Rightarrow> bool" where
  "addressed_to E e msg = list_ex (\<lambda>a. ca_domain a = ca_domain e \<and> ca_canonical a = ca_canonical e \<and>
     ca_tag a = ca_tag e) (parse_addresses E (mm_recipients msg))"

lemma screen_bindings_Accepted:
  assumes "screen_bindings E R e msg rcv = Inr (Accepted x)"
  shows "secret_ok E R msg x" "addressed_to E e msg" "ve_binding (snd x) = Binding_Exact"
    "ve_message (snd x) = strip (strip (mm_id msg))" "ve_received (snd x) = rcv"
    "ve_authentication (snd x) = fst (sender_authentication_method msg (sender_domain_of E (mm_sender msg)))"
    "vr_need_reviewed R \<Longrightarrow> host_matches (sender_domain_of E (mm_sender msg)) (vr_reviewed R)"
    "vr_need_authenticated R \<Longrightarrow> ve_authentication (snd x) \<noteq> Auth_None"
proof -
  let ?b = "bind_recipient e (parse_addresses E (mm_recipients msg))"
  have b: "?b = Binding_Exact"
    using assms bind_observed_untagged [of e False "parse_addresses E (mm_recipients msg)"]
    by (cases ?b) (auto simp: screen_bindings_def Let_def bind_recipient_def split: if_splits)
  then show "addressed_to E e msg"
    using bind_observed_exact by (auto simp: bind_recipient_def addressed_to_def list_ex_iff)
  note steps = assms [unfolded screen_bindings_def Let_def b, simplified]
  obtain v where "extract_secret E R msg v = Inr (Some x)" "ve_binding v = Binding_Exact"
    "ve_message v = strip (mm_id msg)" "ve_received v = rcv"
    "ve_authentication v = fst (sender_authentication_method msg (sender_domain_of E (mm_sender msg)))"
    using steps by (force simp: result_simps split: if_splits option.splits)
  then show "secret_ok E R msg x" "ve_binding (snd x) = Binding_Exact"
    "ve_message (snd x) = strip (strip (mm_id msg))" "ve_received (snd x) = rcv"
    "ve_authentication (snd x) = fst (sender_authentication_method msg (sender_domain_of E (mm_sender msg)))"
    using extract_secret_Inr by (auto simp: evidence_of_def)
  then show "vr_need_authenticated R \<Longrightarrow> ve_authentication (snd x) \<noteq> Auth_None"
    using steps by (auto split: if_splits)
  show "vr_need_reviewed R \<Longrightarrow> host_matches (sender_domain_of E (mm_sender msg)) (vr_reviewed R)"
    using steps by (auto split: if_splits)
qed

definition in_window :: "verification_request \<Rightarrow> int \<Rightarrow> bool" where
  "in_window R rcv = (vr_now R - rcv \<le> vr_max_age R * 1000 \<and> - vr_skew R * 1000 \<le> vr_now R - rcv \<and>
     (case vr_requested R of None \<Rightarrow> True | Some q \<Rightarrow> q - vr_request_skew R * 1000 \<le> rcv))"

lemma screen_message_Accepted:
  "screen_message E R e (at, msg) = Inr (Accepted x) \<Longrightarrow>
     \<exists>rcv. at = Some rcv \<and> in_window R rcv \<and> strip (mm_id msg) \<noteq> [] \<and>
       strip (mm_id msg) \<notin> set (vr_consumed R) \<and> screen_bindings E R e msg rcv = Inr (Accepted x)"
  by (auto simp: screen_message_def in_window_def Let_def split: if_splits option.splits)

lemma screen_message_stale:
  "screen_message E R e (at, msg) = Inr Stop_Stale \<Longrightarrow>
     \<exists>rcv. at = Some rcv \<and> vr_max_age R * 1000 < vr_now R - rcv"
  by (auto simp: screen_message_def screen_bindings_def result_simps Let_def split: if_splits option.splits)

lemma screen_ordered_Some:
  "screen_ordered E R e rs es = Inr (Some x, rs') \<Longrightarrow>
     \<exists>pre entry post. es = pre @ entry # post \<and> screen_message E R e entry = Inr (Accepted x) \<and>
       (\<forall>q\<in>set pre. \<exists>r. screen_message E R e q = Inr (Rejected r))"
proof (induction E R e rs es rule: screen_ordered.induct)
  case (2 E R e rs entry es)
  show ?case
  proof (cases "screen_message E R e entry")
    case (Inr sc)
    show ?thesis
    proof (cases sc)
      case (Rejected r)
      then obtain pre en post where "es = pre @ en # post"
        "screen_message E R e en = Inr (Accepted x)"
        "\<forall>q\<in>set pre. \<exists>r. screen_message E R e q = Inr (Rejected r)"
        using 2 Inr by auto
      then show ?thesis
        using Inr Rejected by (intro exI [of _ "entry # pre"] exI [of _ en] exI [of _ post]) auto
    next
      case (Accepted y)
      then show ?thesis
        using 2(2) Inr by (intro exI [of _ "[]"] exI [of _ entry] exI [of _ es]) auto
    qed (use 2(2) Inr in auto)
  qed (use 2(2) in auto)
qed simp

lemma screen_ordered_None:
  "screen_ordered E R e rs es = Inr (None, rs') \<Longrightarrow>
     (\<forall>q\<in>set es. \<exists>r. screen_message E R e q = Inr (Rejected r)) \<or>
     (\<exists>pre entry post. es = pre @ entry # post \<and> screen_message E R e entry = Inr Stop_Stale \<and>
        (\<forall>q\<in>set pre. \<exists>r. screen_message E R e q = Inr (Rejected r)))"
proof (induction E R e rs es rule: screen_ordered.induct)
  case (2 E R e rs entry es)
  show ?case
  proof (cases "screen_message E R e entry")
    case (Inr sc)
    show ?thesis
    proof (cases sc)
      case Stop_Stale
      then show ?thesis
        using Inr by (intro disjI2 exI [of _ "[]"] exI [of _ entry] exI [of _ es]) auto
    next
      case (Rejected r)
      have ih: "screen_ordered E R e (rs @ [r]) es = Inr (None, rs')"
        using 2(2) Inr Rejected by simp
      from 2(1) [OF Inr Rejected ih] show ?thesis
      proof
        assume "\<exists>pre en post. es = pre @ en # post \<and> screen_message E R e en = Inr Stop_Stale \<and>
          (\<forall>q\<in>set pre. \<exists>r. screen_message E R e q = Inr (Rejected r))"
        then obtain pre en post where "es = pre @ en # post"
          "screen_message E R e en = Inr Stop_Stale"
          "\<forall>q\<in>set pre. \<exists>r. screen_message E R e q = Inr (Rejected r)"
          by blast
        then show ?thesis
          using Inr Rejected
          by (intro disjI2 exI [of _ "entry # pre"] exI [of _ en] exI [of _ post]) auto
      qed (use Inr Rejected in auto)
    qed (use 2(2) Inr in auto)
  qed (use 2(2) in auto)
qed simp

definition stamped :: "mail_env \<Rightarrow> mail_message \<Rightarrow> int option \<times> mail_message" where
  "stamped E m = (parse_received_at_ms E (mm_received m), m)"

text \<open>A message the selection would accept, looked at alone.\<close>

definition acceptable :: "mail_env \<Rightarrow> verification_request \<Rightarrow> mail_message \<Rightarrow> resolved_verification \<Rightarrow> bool" where
  "acceptable E R m x =
     (screen_message E R (the (canonical_address (vr_recipient R))) (stamped E m) = Inr (Accepted x))"

lemma order_newest_first_alt:
  "order_newest_first E ms = sort_key order_key (map (stamped E) ms)"
  by (simp add: order_newest_first_def stamped_def [abs_def])

lemma sorted_split:
  assumes "sort_key f xs = pre @ y # post" "z \<in> set post"
  shows "f y \<le> (f z :: 'b :: linorder)"
proof -
  have "sorted (map f (pre @ y # post))"
    using assms(1) sorted_sort_key [of f xs] by simp
  then show ?thesis
    using assms(2) by (auto simp: sorted_append)
qed

lemma stale_ends_selection:
  assumes "screen_message E R e (stamped E m) = Inr Stop_Stale"
    and "order_key (stamped E m) \<le> order_key (stamped E m')"
  shows "screen_message E R e (stamped E m') \<noteq> Inr (Accepted x)"
proof
  assume acc: "screen_message E R e (stamped E m') = Inr (Accepted x)"
  obtain t where "parse_received_at_ms E (mm_received m) = Some t" "vr_max_age R * 1000 < vr_now R - t"
    using screen_message_stale [OF assms(1) [unfolded stamped_def]] by auto
  moreover obtain t' where "parse_received_at_ms E (mm_received m') = Some t'" "in_window R t'"
    using screen_message_Accepted [OF acc [unfolded stamped_def]] by auto
  ultimately show False
    using assms(2) by (auto simp: stamped_def order_key_def in_window_def less_eq_prod_def)
qed

lemma select_verification_Inr:
  assumes "select_verification E ms R = Inr d" "selection_refusal R = None"
  shows "\<exists>rs. screen_ordered E R (the (canonical_address (vr_recipient R))) []
    (order_newest_first E ms) = Inr (vd_resolved d, rs)"
  using assms by (auto simp: select_verification_def result_simps Let_def)

section \<open>Properties\<close>

lemma selected_facts:
  assumes "select_verification E ms R = Inr d" "vd_resolved d = Some x"
  shows "\<exists>m\<in>set ms. \<exists>rcv e. parse_received_at_ms E (mm_received m) = Some rcv \<and> in_window R rcv \<and>
    vr_max_age R \<le> max_verification_age_seconds \<and>
    strip (mm_id m) \<notin> set (vr_consumed R) \<and> ve_message (snd x) = strip (strip (mm_id m)) \<and>
    ve_received (snd x) = rcv \<and>
    canonical_address (vr_recipient R) = Some e \<and> addressed_to E e m \<and>
    ve_binding (snd x) = Binding_Exact \<and>
    (vr_need_reviewed R \<longrightarrow> host_matches (sender_domain_of E (mm_sender m)) (vr_reviewed R)) \<and>
    (vr_need_authenticated R \<longrightarrow>
       fst (sender_authentication_method m (sender_domain_of E (mm_sender m))) \<noteq> Auth_None) \<and>
    secret_ok E R m x"
proof -
  have ok: "selection_refusal R = None"
    using assms by (auto simp: select_verification_def refused_selection_def split: option.splits)
  then obtain e where e: "canonical_address (vr_recipient R) = Some e"
    and age: "vr_max_age R \<le> max_verification_age_seconds"
    by (auto simp: selection_refusal_def split: if_splits)
  obtain rs where "screen_ordered E R e [] (order_newest_first E ms) = Inr (Some x, rs)"
    using select_verification_Inr [OF assms(1) ok] assms(2) e by auto
  then obtain entry where "entry \<in> set (order_newest_first E ms)"
    "screen_message E R e entry = Inr (Accepted x)"
    using screen_ordered_Some by (metis in_set_conv_decomp)
  then obtain m where m: "m \<in> set ms" "screen_message E R e (stamped E m) = Inr (Accepted x)"
    by (auto simp: order_newest_first_alt)
  obtain rcv where "parse_received_at_ms E (mm_received m) = Some rcv" "in_window R rcv"
    "strip (mm_id m) \<notin> set (vr_consumed R)" "screen_bindings E R e m rcv = Inr (Accepted x)"
    using screen_message_Accepted [OF m(2) [unfolded stamped_def]] by auto
  then show ?thesis
    using m(1) e age screen_bindings_Accepted [of E R e m rcv x] by metis
qed

text \<open>C10. Whatever the inbox holds, a verification that is selected comes from one of its messages
  that satisfies every binding at once: its receive time parses and lies within the window asked
  for, which never exceeds an hour, and not before the challenge; it was not consumed; it was
  delivered to the run's own mailbox under exactly the run's tag; its sender is reviewed and
  authenticated when that is asked for; and the secret is what the extraction gives for that
  message, a link being a safe one on the allowed hosts. The evidence names that message.\<close>

theorem selected_verification_is_bound:
  assumes "select_verification E ms R = Inr d" "vd_resolved d = Some x"
  shows "\<exists>m\<in>set ms. \<exists>rcv e. parse_received_at_ms E (mm_received m) = Some rcv \<and> in_window R rcv \<and>
    vr_max_age R \<le> max_verification_age_seconds \<and>
    strip (mm_id m) \<notin> set (vr_consumed R) \<and> ve_message (snd x) = strip (strip (mm_id m)) \<and>
    ve_received (snd x) = rcv \<and>
    canonical_address (vr_recipient R) = Some e \<and> addressed_to E e m \<and>
    ve_binding (snd x) = Binding_Exact \<and>
    (vr_need_reviewed R \<longrightarrow> host_matches (sender_domain_of E (mm_sender m)) (vr_reviewed R)) \<and>
    (vr_need_authenticated R \<longrightarrow>
       fst (sender_authentication_method m (sender_domain_of E (mm_sender m))) \<noteq> Auth_None) \<and>
    secret_ok E R m x"
  using assms by (rule selected_facts)

text \<open>C11. The selection is complete and takes the newest: when it returns without one, no message of
  the inbox would be accepted alone; when it returns one, that one is acceptable and every other
  acceptable message comes no earlier in the order of decreasing receive time and increasing id.
  Ending the search at the first stale message loses nothing.\<close>

theorem selection_takes_newest_acceptable:
  assumes "select_verification E ms R = Inr d" "selection_refusal R = None"
  shows "case vd_resolved d of
      None \<Rightarrow> \<forall>m\<in>set ms. \<forall>x. \<not> acceptable E R m x
    | Some x \<Rightarrow> \<exists>m\<in>set ms. acceptable E R m x \<and>
        (\<forall>m'\<in>set ms. \<forall>x'. acceptable E R m' x' \<longrightarrow> order_key (stamped E m) \<le> order_key (stamped E m'))"
proof -
  let ?e = "the (canonical_address (vr_recipient R))"
  let ?o = "sort_key order_key (map (stamped E) ms)"
  obtain rs where so: "screen_ordered E R ?e [] ?o = Inr (vd_resolved d, rs)"
    using select_verification_Inr [OF assms] by (auto simp: order_newest_first_alt)
  show ?thesis
  proof (cases "vd_resolved d")
    case None
    have "\<not> acceptable E R m x" if m: "m \<in> set ms" for m x
    proof -
      have mo: "stamped E m \<in> set ?o" using m by simp
      from screen_ordered_None [OF so [unfolded None]] show ?thesis
      proof
        assume "\<exists>pre en post. ?o = pre @ en # post \<and> screen_message E R ?e en = Inr Stop_Stale \<and>
          (\<forall>q\<in>set pre. \<exists>r. screen_message E R ?e q = Inr (Rejected r))"
        then obtain pre en post where st: "?o = pre @ en # post" "screen_message E R ?e en = Inr Stop_Stale"
          "\<forall>q\<in>set pre. \<exists>r. screen_message E R ?e q = Inr (Rejected r)" by blast
        have "en \<in> set (map (stamped E) ms)"
          using st(1) by (metis in_set_conv_decomp set_sort)
        then obtain n where n: "en = stamped E n" by auto
        have "stamped E m \<in> set pre \<or> stamped E m = en \<or> stamped E m \<in> set post"
          using mo st(1) by auto
        then show ?thesis
        proof (elim disjE)
          assume "stamped E m \<in> set post"
          then show ?thesis
            using stale_ends_selection [OF st(2) [unfolded n]] sorted_split [OF st(1)] n
            by (simp add: acceptable_def)
        qed (use st(2,3) in \<open>auto simp: acceptable_def\<close>)
      qed (use mo in \<open>force simp: acceptable_def\<close>)
    qed
    then show ?thesis using None by simp
  next
    case (Some x)
    obtain pre en post where sp: "?o = pre @ en # post" "screen_message E R ?e en = Inr (Accepted x)"
      "\<forall>q\<in>set pre. \<exists>r. screen_message E R ?e q = Inr (Rejected r)"
      using screen_ordered_Some [OF so [unfolded Some]] by blast
    have "en \<in> set (map (stamped E) ms)"
      using sp(1) by (metis in_set_conv_decomp set_sort)
    then obtain m where m: "m \<in> set ms" "en = stamped E m" by auto
    have "order_key (stamped E m) \<le> order_key (stamped E m')"
      if "m' \<in> set ms" "acceptable E R m' x'" for m' x'
    proof -
      have "stamped E m' \<in> set ?o" using that(1) by simp
      then have "stamped E m' \<in> set pre \<or> stamped E m' = en \<or> stamped E m' \<in> set post"
        using sp(1) by auto
      then show ?thesis
        using sp(3) that(2) m(2) sorted_split [OF sp(1), of "stamped E m'"]
        by (auto simp: acceptable_def)
    qed
    then show ?thesis
      using Some m sp(2) by (auto simp: acceptable_def)
  qed
qed

text \<open>The order in which the provider lists the inbox does not matter: as long as no two
  different messages share receive time and id, two listings of the same messages give the same
  decision.\<close>

theorem selection_ignores_provider_order:
  assumes "mset ms = mset ms'" "inj_on (\<lambda>m. order_key (stamped E m)) (set ms)"
  shows "select_verification E ms R = select_verification E ms' R"
proof -
  let ?A = "map (stamped E) ms" and ?B = "map (stamped E) ms'"
  have inj: "inj_on order_key (set ?A)"
    using assms(2) by (auto simp: inj_on_def)
  have AB: "mset ?A = mset ?B"
    using assms(1) by simp
  have "sort_key order_key ?B = sort_key order_key ?A"
  proof (rule properties_for_sort_key)
    fix k
    assume "k \<in> set (sort_key order_key ?A)"
    then have k: "k \<in> set ?A" by (metis set_sort)
    have same: "filter (\<lambda>x. order_key k = order_key x) xs = replicate (count (mset xs) k) k"
      if "set xs \<subseteq> set ?A" for xs
    proof -
      have "filter (\<lambda>x. order_key k = order_key x) xs = filter ((=) k) xs"
      proof (rule filter_cong [OF refl])
        fix x
        assume "x \<in> set xs"
        then show "(order_key k = order_key x) = (k = x)"
          using inj_on_eq_iff [OF inj k, of x] that by blast
      qed
      then show ?thesis by (simp only: replicate_count_mset_eq_filter_eq)
    qed
    have B: "set ?B = set ?A"
      using AB by (metis set_mset_mset)
    have "filter (\<lambda>x. order_key k = order_key x) (sort_key order_key ?A) = replicate (count (mset ?A) k) k"
      using same [of "sort_key order_key ?A"] by simp
    also have "\<dots> = filter (\<lambda>x. order_key k = order_key x) ?B"
      using same [of ?B] B AB by simp
    finally show "filter (\<lambda>x. order_key k = order_key x) (sort_key order_key ?A) =
        filter (\<lambda>x. order_key k = order_key x) ?B" .
  qed (use AB in simp_all)
  then have "order_newest_first E ms = order_newest_first E ms'"
    by (simp only: order_newest_first_alt)
  then show ?thesis
    by (simp only: select_verification_def)
qed

lemma preferred_in:
  "(case cs of [] \<Rightarrow> None | first # _ \<Rightarrow> (case List.find P cs of Some u \<Rightarrow> Some u | None \<Rightarrow> Some first)) = Some url \<Longrightarrow>
     url \<in> set cs"
  using find_Some_in [of P cs url] by (auto split: list.splits option.splits)

lemma host_matches_folded:
  assumes "\<forall>p\<in>set ps. p \<noteq> [] \<and> fold_host p = p"
  shows "host_matches h ps = (fold_host h \<noteq> [] \<and> host_matches_patterns h ps)"
proof -
  have "(p \<noteq> [] \<and> (let c = fold_host p in if starts_with ''*.'' c
        then fold_host h \<noteq> drop 2 c \<and> ends_with (CHR ''.'' # drop 2 c) (fold_host h)
        else fold_host h = c)) = pattern_matches (fold_host h) p" if "p \<in> set ps" for p
    using assms that by (simp add: pattern_matches_def is_wildcard_def)
  then show ?thesis
    unfolding host_matches_def host_matches_patterns_def list_ex_iff Let_def by metis
qed

lemma safe_link_Inr:
  assumes "is_safe_verification_link E url ps"
  shows "\<exists>u. urlsplit (me_v6 E) url = Inr u \<and> scheme u = ''https'' \<and> truthy (hostname u) \<and>
    \<not> truthy (username u) \<and> \<not> truthy (password u) \<and> host_matches (the (hostname u)) ps"
proof (cases "urlsplit (me_v6 E) url")
  case (Inr u)
  then show ?thesis
    using assms by (cases "port u") (auto simp: is_safe_verification_link_def split: if_splits)
qed (use assms in \<open>simp add: is_safe_verification_link_def split: if_splits\<close>)

text \<open>The link check of the mail reader and the host check of the browser policy agree on
  folded patterns, and a link the reader hands out for opening is one the browser policy admits
  for the same allow-list: no link is extracted that navigation would then refuse.\<close>

theorem reviewed_link_is_navigable:
  assumes "extract_verification_link E subject body (patterns allowed) True = Some url"
    and "\<forall>p\<in>set (patterns allowed). p \<noteq> [] \<and> fold_host p = p"
  shows "\<exists>d. evaluate_navigation (me_v6 E) url allowed = Inr d \<and> hd_allowed d"
proof -
  let ?c = "filter (link_candidate E (patterns allowed) True)
    (map (link_text (clip max_scan_length (unescape_amp body)))
      (rx_finditer url_re (clip max_scan_length (unescape_amp body))))"
  have "url \<in> set ?c"
    using assms(1) unfolding extract_verification_link_def Let_def
    by (intro preferred_in) (simp split: if_splits)
  then have "is_safe_verification_link E url (patterns allowed)"
    by (simp add: link_candidate_def Let_def)
  then obtain u where u: "urlsplit (me_v6 E) url = Inr u" "scheme u = ''https''"
    "truthy (hostname u)" "\<not> truthy (username u)" "\<not> truthy (password u)"
    "host_matches (the (hostname u)) (patterns allowed)"
    using safe_link_Inr by blast
  have "host_matches_patterns (fold_host (the (hostname u))) (patterns allowed)"
    using u(6) host_matches_folded [OF assms(2)] by (simp add: host_matches_patterns_def)
  then show ?thesis
    using u by (simp add: evaluate_navigation_def Let_def)
qed

text \<open>An extracted code is plausible: four to eight digits that are no year and not one
  repeated digit, or five to eight capital letters and digits that are not all digits; and some
  cue word occurs in the text read.\<close>

theorem extracted_code_is_plausible:
  assumes "extract_verification_code subject body = Some c"
  shows "(plausible_numeric_code c \<or>
      (5 \<le> length c \<and> length c \<le> 8 \<and> list_all (\<lambda>x. is_upper_alpha x \<or> is_digit x) c \<and> \<not> list_all is_digit c))
    \<and> rx_finditer otp_cue (scan_text subject body) \<noteq> []"
proof -
  let ?t = "scan_text subject body"
  let ?P = "\<lambda>x. is_upper_alpha x \<or> is_digit x"
  have best: "best_code t b cues best ms = Some (n, d) \<Longrightarrow> best = Some (n, d) \<or> plausible_numeric_code n"
    for t b cues best ms n d
    by (induction t b cues best ms rule: best_code.induct) (fastforce simp: Let_def split: if_splits)+
  have cue: "rx_finditer otp_cue ?t \<noteq> []"
    using assms by (auto simp: extract_verification_code_def Let_def)
  have "plausible_numeric_code c \<or> (\<exists>m. rx_search otp_alnum_near ?t = Some m \<and>
      c = group_of ?t m 0 \<and> \<not> list_all is_digit c)"
    using assms cue unfolding extract_verification_code_def Let_def
    by (auto split: option.splits if_splits dest!: best)
  then show ?thesis
  proof
    assume "\<exists>m. rx_search otp_alnum_near ?t = Some m \<and> c = group_of ?t m 0 \<and> \<not> list_all is_digit c"
    then obtain m where m: "rx_search otp_alnum_near ?t = Some m" "c = group_of ?t m 0" "\<not> list_all is_digit c"
      by blast
    let ?g = "Seq (exactly 5 (Cls ?P)) (Upto 3 (Cls ?P))"
    let ?a = "rx_alt (map lit_i [''code'', ''otp'', ''passcode'', ''pin''])"
    let ?z = "Upto 12 (Cls (\<lambda>c. \<not> is_digit c \<and> \<not> is_upper_alpha c \<and> \<not> is_lower_alpha c))"
    have run: "rx_run otp_alnum_near = rx_run (Seq (Seq (Seq ?a Word_Edge) ?z) (Seq (Grp ?g) Word_Edge))"
      unfolding otp_alnum_near_def rx_seq.simps rx_run_assoc ..
    then have "match_at otp_alnum_near = match_at (Seq (Seq (Seq ?a Word_Edge) ?z) (Seq (Grp ?g) Word_Edge))"
      by (intro ext) (simp add: match_at_def)
    then have at: "match_at (Seq (Seq (Seq ?a Word_Edge) ?z) (Seq (Grp ?g) Word_Edge)) ?t (mt_start m) = Some m"
      "mt_start m \<le> length ?t"
      using rx_search_Some [OF m(1)] by simp_all
    have "list_all ?P c" "rx_lo ?g \<le> length c" "length c \<le> rx_hi (length ?t) ?g"
      using match_only_group [OF at(1) _ _ _ at(2), of ?P] m(2)
      by (simp_all add: exactly_def lit_i_def numeral_eq_Suc)
    moreover have "rx_lo ?g = 5" "rx_hi (length ?t) ?g = 8"
      by (simp_all add: exactly_def numeral_eq_Suc)
    ultimately show ?thesis
      using m(3) cue by simp
  qed (use cue in simp)
qed


section \<open>Witnesses\<close>

text \<open>An inbox of two messages: an old link and a newer one, both to the tagged address.\<close>

definition bare_mail :: mail_env where
  "bare_mail = \<lparr>me_addresses = (\<lambda>vs. vs), me_iso = (\<lambda>_. None), me_rfc = (\<lambda>_. None),
     me_float = (\<lambda>_. None), me_v6 = (\<lambda>_. False)\<rparr>"

definition mail_at :: "string \<Rightarrow> int \<Rightarrow> string \<Rightarrow> mail_message" where
  "mail_at i at body = \<lparr>mm_id = i, mm_sender = ''no@a.io'', mm_recipients = [''d+x@b.io''],
     mm_received = Received_Int at, mm_subject = ''verify'', mm_body = body, mm_auth = [],
     mm_arc_auth = [], mm_arc_seals = []\<rparr>"

definition sample_request :: verification_request where
  "sample_request = \<lparr>vr_purpose = Signup_Confirmation, vr_recipient = ''d+x@b.io'',
     vr_now = 1700000100000, vr_max_age = 600, vr_allowed = [''a.io''], vr_reviewed = [''a.io''],
     vr_need_reviewed = True, vr_need_authenticated = False, vr_need_reviewed_link = True,
     vr_prefer_link = True, vr_consumed = [], vr_requested = Some 1700000000000, vr_skew = 300,
     vr_request_skew = 30\<rparr>"

definition old_mail :: mail_message where
  "old_mail = mail_at ''m1'' 1700000001000 ''https://a.io/v''"

definition new_mail :: mail_message where
  "new_mail = mail_at ''m2'' 1700000002000 ''https://a.io/w''"

lemma sample_links:
  "extract_verification_link bare_mail ''verify'' ''https://a.io/w'' [''a.io''] True = Some ''https://a.io/w''"
  by code_simp

definition sample_identity :: email_address where
  "sample_identity = \<lparr>ca_address = ''d+x@b.io'', ca_local = ''d+x'', ca_tag = ''x'', ca_domain = ''b.io'',
     ca_canonical = ''d''\<rparr>"

lemma sample_parts:
  "canonical_address ''d+x@b.io'' = Some sample_identity"
  "parse_addresses bare_mail [''d+x@b.io''] = [sample_identity]"
  "sender_domain_of bare_mail ''no@a.io'' = ''a.io''"
  "host_matches ''a.io'' [''a.io'']"
  "is_safe_verification_link bare_mail ''https://a.io/w'' [''a.io'']"
  "link_host bare_mail ''https://a.io/w'' = ''a.io''"
  "strip ''m2'' = ''m2''" "strip ''a.io'' = ''a.io''"
  "order_newest_first bare_mail [old_mail, new_mail] =
     [(Some 1700000002000, new_mail), (Some 1700000001000, old_mail)]"
  by code_simp+

lemma sample_screened:
  "\<exists>v. screen_message bare_mail sample_request sample_identity (Some 1700000002000, new_mail) =
     Inr (Accepted (''https://a.io/w'', v))"
proof -
  have "bind_recipient sample_identity [sample_identity] = Binding_Exact"
    by (simp add: bind_recipient_def)
  then show ?thesis
    by (simp add: screen_message_def screen_bindings_def extract_secret_def link_secret_def
        make_evidence_def clip_def Let_def sample_request_def new_mail_def mail_at_def sample_parts sample_links)
qed

lemma sample_admitted: "selection_refusal sample_request = None"
  by (simp add: selection_refusal_def sample_request_def sample_parts max_verification_age_seconds_def)

lemma sample_decision:
  obtains d x where "select_verification bare_mail [old_mail, new_mail] sample_request = Inr d"
    "vd_resolved d = Some x" "fst x = ''https://a.io/w''"
proof -
  obtain v where "screen_message bare_mail sample_request sample_identity (Some 1700000002000, new_mail) =
     Inr (Accepted (''https://a.io/w'', v))"
    using sample_screened ..
  moreover have "the (canonical_address (vr_recipient sample_request)) = sample_identity"
    by (simp add: sample_request_def sample_parts)
  ultimately show thesis
    by (intro that) (auto simp: select_verification_def sample_admitted sample_parts)
qed

lemma selected_verification_is_bound_witness:
  "\<exists>d x. select_verification bare_mail [old_mail, new_mail] sample_request = Inr d \<and>
     vd_resolved d = Some x \<and> (\<exists>m\<in>{old_mail, new_mail}. secret_ok bare_mail sample_request m x)"
proof -
  obtain d x where d: "select_verification bare_mail [old_mail, new_mail] sample_request = Inr d"
    "vd_resolved d = Some x"
    by (rule sample_decision)
  then show ?thesis
    using selected_verification_is_bound [OF d] by fastforce
qed

lemma selection_takes_newest_acceptable_witness:
  "\<exists>m\<in>{old_mail, new_mail}. \<exists>x. acceptable bare_mail sample_request m x"
proof -
  obtain d x where d: "select_verification bare_mail [old_mail, new_mail] sample_request = Inr d"
    "vd_resolved d = Some x"
    by (rule sample_decision)
  then show ?thesis
    using selection_takes_newest_acceptable [OF d(1) sample_admitted]
    unfolding d(2) option.case list.set by blast
qed

lemma selection_ignores_provider_order_witness:
  "select_verification bare_mail [old_mail, new_mail] sample_request =
   select_verification bare_mail [new_mail, old_mail] sample_request"
proof (rule selection_ignores_provider_order)
  have "order_key (stamped bare_mail old_mail) \<noteq> order_key (stamped bare_mail new_mail)"
    by (simp add: order_key_def stamped_def old_mail_def new_mail_def mail_at_def)
  then show "inj_on (\<lambda>m. order_key (stamped bare_mail m)) (set [old_mail, new_mail])"
    by (auto simp: inj_on_def)
qed simp

definition a_hosts :: browser_allowed_hosts where
  "a_hosts = \<lparr>ah_app_slug = ''a'', ah_exact_hosts = [''a.io''], ah_vendor_wildcard_domains = []\<rparr>"

lemma reviewed_link_is_navigable_witness:
  "\<exists>d. evaluate_navigation (me_v6 bare_mail) ''https://a.io/w'' a_hosts = Inr d \<and> hd_allowed d"
proof (rule reviewed_link_is_navigable)
  have ps: "patterns a_hosts = [''a.io'']" by code_simp
  show "extract_verification_link bare_mail ''verify'' ''https://a.io/w'' (patterns a_hosts) True =
      Some ''https://a.io/w''"
    unfolding ps by (rule sample_links)
  show "\<forall>p\<in>set (patterns a_hosts). p \<noteq> [] \<and> fold_host p = p"
    unfolding ps by code_simp
qed

text \<open>A host with a backslash ends in a reviewed domain as a text, while a browser takes what is
  before the backslash as the host: such a link passes both checks.\<close>

definition backslash_link :: string where
  "backslash_link = ''https://evil.io'' @ CHR 0x5C # ''.a.io/w''"

lemma backslash_host_is_safe: "is_safe_verification_link bare_mail backslash_link [''*.a.io'']"
  by code_simp

lemma backslash_host_is_navigable:
  "case evaluate_navigation no_v6 backslash_link (a_hosts\<lparr>ah_vendor_wildcard_domains := [''a.io'']\<rparr>)
   of Inr d \<Rightarrow> hd_allowed d | Inl _ \<Rightarrow> False"
  by code_simp

end
