(* ===== verification/Vault.thy ===== *)
theory Vault
  imports Admission Url "HOL-Library.AList"
begin

text \<open>
  The secret vault (\<^theory_text>\<open>SQLiteSecretStore\<close> of \<^theory_text>\<open>ops/core/secret_store.py\<close>): durable
  entries and their retirement, one-time entries, the grants the browser service redeems,
  reusable logins with their two staging tables, and the claims on inbox messages.

  A table is an association list in insertion order, or a map when it is only read by its
  key. An operation returns the tables after it; one that raises leaves them as they were,
  as the rolled back transaction does. Instants are microseconds. Of the host:
  \<^theory_text>\<open>ck_enc\<close> and \<^theory_text>\<open>ck_dec\<close> are the Fernet cipher under the vault's key (the number is the
  nonce an encryption draws, \<^theory_text>\<open>None\<close> a token that does not authenticate), \<^theory_text>\<open>ck_token\<close>
  the keyed digest of a binding as URL-safe text, \<^theory_text>\<open>ck_sha\<close> the digest of a text. The random
  identifier a row is stored under is an argument.
\<close>

section \<open>Tables\<close>

datatype credential_status = Cred_Active | Cred_Superseded | Cred_Unusable

record vault_entry =
  en_app :: string
  en_kind :: string
  en_cipher :: string
  en_scope :: "string option"
  en_expires :: "int option"
  en_one_time :: bool
  en_consumed :: "int option"
  en_account :: "string option"
  en_status :: credential_status
  en_created :: int

datatype grant_action = Consume_Action | Capture_Action

datatype grant_status = Grant_Reserved | Grant_Completed | Grant_Revoked

record grant_binding =
  gb_operation :: string
  gb_run :: string
  gb_session :: string
  gb_app :: string
  gb_kind :: string
  gb_action :: grant_action
  gb_reference :: "string option"

record grant_row =
  gr_binding :: grant_binding
  gr_status :: grant_status
  gr_result :: "string option"
  gr_expires :: int

record staged_login =
  sl_app :: string
  sl_account :: string
  sl_email :: string
  sl_password :: string
  sl_promoted :: bool

record ingestion_row =
  in_owner :: string
  in_app :: string
  in_completed :: bool
  in_token :: "string option"
  in_refs :: "(string \<times> string) list"
  in_expires :: "int option"

record vault =
  va_entries :: "(string \<times> vault_entry) list"
  va_grants :: "string \<rightharpoonup> grant_row"
  va_signup :: "(string \<times> staged_login) list"
  va_existing :: "string \<rightharpoonup> staged_login"
  va_ingest :: "string \<rightharpoonup> ingestion_row"

definition empty_vault :: vault where
  "empty_vault = \<lparr>va_entries = [], va_grants = Map.empty, va_signup = [], va_existing = Map.empty,
     va_ingest = Map.empty\<rparr>"

record vault_keys =
  ck_enc :: "nat \<Rightarrow> string \<Rightarrow> string"
  ck_dec :: "string \<Rightarrow> string option"
  ck_token :: "grant_binding \<Rightarrow> string"
  ck_sha :: "string \<Rightarrow> string"

section \<open>Grammar\<close>

definition app_slug_ok :: "string \<Rightarrow> bool" where
  "app_slug_ok s = (s \<noteq> [] \<and> list_all slug_char s)"

definition vault_kind_ok :: "string \<Rightarrow> bool" where
  "vault_kind_ok s = (s \<noteq> [] \<and> list_all kind_char s)"

definition account_ref_ok :: "string \<Rightarrow> bool" where
  "account_ref_ok s =
     ((starts_with ''acct_'' s \<and> length (drop 5 s) = 32 \<and> list_all hex_digit (drop 5 s)) \<or>
      (starts_with ''run_'' s \<and> length (drop 4 s) = 32 \<and> list_all hex_digit (drop 4 s)))"

definition broker_grant_ok :: "string \<Rightarrow> bool" where
  "broker_grant_ok s = (starts_with ''bsg_'' s \<and> length (drop 4 s) = 43 \<and>
     list_all reference_id_char (drop 4 s))"

definition broker_operation_ok :: "string \<Rightarrow> bool" where
  "broker_operation_ok s = (s \<noteq> [] \<and> length s \<le> 300 \<and>
     list_all (\<lambda>c. reference_id_char c \<or> c = CHR '':'') s)"

definition broker_scope_ok :: "string \<Rightarrow> bool" where
  "broker_scope_ok s = (s \<noteq> [] \<and> length s \<le> 200 \<and> list_all reference_id_char s)"

definition entry_reference :: "string \<Rightarrow> string \<Rightarrow> string \<Rightarrow> string" where
  "entry_reference app kind ident =
     format_vault_reference \<lparr>vr_app = app, vr_kind = kind, vr_identifier = ident\<rparr>"

definition reusable_login_fields :: "string list" where
  "reusable_login_fields = [''login_email'', ''login_password'']"

definition account_login_kind :: "string \<Rightarrow> string result" where
  "account_login_kind field =
     (if field \<in> set reusable_login_fields then Inr (''account_login_'' @ field)
      else Inl (ValueError ''field is not a reusable login credential''))"

definition email_login_kind :: string where
  "email_login_kind = ''account_login_login_email''"

definition password_login_kind :: string where
  "password_login_kind = ''account_login_login_password''"

section \<open>Rows\<close>

text \<open>An insertion fails on a taken primary key.\<close>

definition insert_entry :: "string \<Rightarrow> vault_entry \<Rightarrow> vault \<Rightarrow> vault result" where
  "insert_entry ident e V =
     (if ident \<in> fst ` set (va_entries V) then Inl (IntegrityError ''vault_entries.id'')
      else Inr (V\<lparr>va_entries := va_entries V @ [(ident, e)]\<rparr>))"

definition delete_entries :: "(string \<Rightarrow> vault_entry \<Rightarrow> bool) \<Rightarrow> vault \<Rightarrow> vault" where
  "delete_entries P V = V\<lparr>va_entries := filter (\<lambda>(i, e). \<not> P i e) (va_entries V)\<rparr>"

definition select_entries :: "(string \<Rightarrow> vault_entry \<Rightarrow> bool) \<Rightarrow> vault \<Rightarrow> (string \<times> vault_entry) list" where
  "select_entries P V = filter (\<lambda>(i, e). P i e) (va_entries V)"

definition entry_at :: "vault \<Rightarrow> string \<Rightarrow> string \<Rightarrow> string \<Rightarrow> vault_entry option" where
  "entry_at V ident app kind =
     (case map_of (va_entries V) ident of
        None \<Rightarrow> None
      | Some e \<Rightarrow> if en_app e = app \<and> en_kind e = kind then Some e else None)"

definition durable_entry :: "string \<Rightarrow> string \<Rightarrow> string \<Rightarrow> string option \<Rightarrow> int \<Rightarrow> vault_entry" where
  "durable_entry app kind cipher account now =
     \<lparr>en_app = app, en_kind = kind, en_cipher = cipher, en_scope = None, en_expires = None,
      en_one_time = False, en_consumed = None, en_account = account, en_status = Cred_Active,
      en_created = now\<rparr>"

text \<open>How every operation leaves its transaction.\<close>

definition in_transaction :: "vault \<Rightarrow> (vault \<times> 'a) result \<Rightarrow> vault \<times> 'a result" where
  "in_transaction V r = (case r of Inl e \<Rightarrow> (V, Inl e) | Inr (V', x) \<Rightarrow> (V', Inr x))"

lemma in_transaction_Inr:
  "in_transaction V r = (V', Inr x) \<longleftrightarrow> r = Inr (V', x)"
  by (auto simp: in_transaction_def split: sum.splits)

lemma in_transaction_Inl:
  "in_transaction V r = (V', Inl e) \<longleftrightarrow> V' = V \<and> r = Inl e"
  by (auto simp: in_transaction_def split: sum.splits)

definition is_expired_at :: "int \<Rightarrow> int option \<Rightarrow> bool" where
  "is_expired_at now expires = (case expires of None \<Rightarrow> True | Some t \<Rightarrow> t \<le> now)"

section \<open>Durable entries\<close>

definition put_secret ::
    "vault_keys \<Rightarrow> nat \<Rightarrow> string \<Rightarrow> int \<Rightarrow> vault \<Rightarrow> string \<Rightarrow> string \<Rightarrow> string \<Rightarrow> vault \<times> string result" where
  "put_secret K nonce ident now V app kind v = in_transaction V
     (if \<not> app_slug_ok app
      then Inl (ValueError ''app_slug must contain lowercase letters, digits, or hyphens'')
      else if \<not> vault_kind_ok kind
      then Inl (ValueError ''kind must contain lowercase letters, digits, underscores, or hyphens'')
      else if v = [] then Inl (ValueError ''secret value must be a non-empty string'')
      else bindR (insert_entry ident (durable_entry app kind (ck_enc K nonce v) None now) V)
             (\<lambda>V'. Inr (V', entry_reference app kind ident)))"

definition get_secret :: "vault_keys \<Rightarrow> vault \<Rightarrow> string \<Rightarrow> string result" where
  "get_secret K V reference =
     bindR (parse_vault_reference reference) (\<lambda>r.
       case entry_at V (vr_identifier r) (vr_app r) (vr_kind r) of
         None \<Rightarrow> Inl (RuntimeError ''secret reference was not found'')
       | Some e \<Rightarrow>
           if en_one_time e \<or> en_status e \<noteq> Cred_Active
           then Inl (RuntimeError ''secret reference was not found'')
           else (case ck_dec K (en_cipher e) of
               None \<Rightarrow> Inl (RuntimeError ''secret could not be decrypted with the active vault key'')
             | Some v \<Rightarrow> Inr v))"

text \<open>The update matches an active row or one already at the target status, so that a retired
  row never moves to the other verdict.\<close>

definition set_credential_status ::
    "vault \<Rightarrow> string \<Rightarrow> credential_status \<Rightarrow> vault \<times> credential_status result" where
  "set_credential_status V reference st = in_transaction V
     (if st = Cred_Active then Inl (ValueError ''a credential row is moved to a retired lifecycle status'')
      else bindR (parse_vault_reference reference) (\<lambda>r.
        case entry_at V (vr_identifier r) (vr_app r) (vr_kind r) of
          None \<Rightarrow> Inl (RuntimeError ''secret reference was not found'')
        | Some e \<Rightarrow>
            if en_one_time e \<or> en_status e \<notin> {Cred_Active, st}
            then Inl (RuntimeError ''secret reference was not found'')
            else Inr (V\<lparr>va_entries := map (\<lambda>(i, e'). if i = vr_identifier r then (i, e'\<lparr>en_status := st\<rparr>)
                                                   else (i, e')) (va_entries V)\<rparr>, st)))"

definition mark_credential_superseded :: "vault \<Rightarrow> string \<Rightarrow> vault \<times> credential_status result" where
  "mark_credential_superseded V reference = set_credential_status V reference Cred_Superseded"

definition mark_credential_unusable :: "vault \<Rightarrow> string \<Rightarrow> vault \<times> credential_status result" where
  "mark_credential_unusable V reference = set_credential_status V reference Cred_Unusable"

definition delete_secret :: "vault \<Rightarrow> string \<Rightarrow> vault \<times> unit result" where
  "delete_secret V reference = in_transaction V
     (bindR (parse_vault_reference reference) (\<lambda>r.
        case entry_at V (vr_identifier r) (vr_app r) (vr_kind r) of
          None \<Rightarrow> Inl (RuntimeError ''secret reference was not found'')
        | Some e \<Rightarrow>
            if en_one_time e then Inl (RuntimeError ''secret reference was not found'')
            else Inr (delete_entries (\<lambda>i _. i = vr_identifier r) V, ())))"

section \<open>One-time entries\<close>

definition second :: int where
  "second = 1000000"

definition put_transient ::
    "vault_keys \<Rightarrow> nat \<Rightarrow> string \<Rightarrow> int \<Rightarrow> vault \<Rightarrow> string \<Rightarrow> string \<Rightarrow> string \<Rightarrow> string \<Rightarrow> int \<Rightarrow>
     vault \<times> string result" where
  "put_transient K nonce ident now V app kind scope v ttl = in_transaction V
     (if \<not> app_slug_ok app
      then Inl (ValueError ''app_slug must contain lowercase letters, digits, or hyphens'')
      else if \<not> vault_kind_ok kind
      then Inl (ValueError ''kind must contain lowercase letters, digits, underscores, or hyphens'')
      else if scope = [] \<or> 200 < length scope
      then Inl (ValueError ''scope_id must be a bounded non-empty string'')
      else if v = [] then Inl (ValueError ''secret value must be a non-empty string'')
      else if \<not> (30 \<le> ttl \<and> ttl \<le> 1800)
      then Inl (ValueError ''transient ttl must be between 30 and 1800 seconds'')
      else bindR (insert_entry ident
               ((durable_entry app kind (ck_enc K nonce v) None now)
                  \<lparr>en_scope := Some scope, en_expires := Some (now + ttl * second), en_one_time := True\<rparr>) V)
             (\<lambda>V'. Inr (V', entry_reference app kind ident)))"

definition transient_error :: "string \<Rightarrow> 'a result" where
  "transient_error reason = Inl (RuntimeError reason)"

definition consume_transient ::
    "vault_keys \<Rightarrow> int \<Rightarrow> vault \<Rightarrow> string \<Rightarrow> string \<Rightarrow> string \<Rightarrow> string \<Rightarrow> vault \<times> string result" where
  "consume_transient K now V reference app kind scope = in_transaction V
     (bindR (parse_vault_reference reference) (\<lambda>r.
        if vr_app r \<noteq> app then transient_error ''browser_secret_app_mismatch''
        else if vr_kind r \<noteq> kind then transient_error ''browser_secret_kind_mismatch''
        else (case entry_at V (vr_identifier r) app kind of
            None \<Rightarrow> transient_error ''browser_secret_not_found''
          | Some e \<Rightarrow>
              if (case en_scope e of None \<Rightarrow> [] | Some s \<Rightarrow> s) \<noteq> scope
              then transient_error ''browser_secret_scope_mismatch''
              else if \<not> en_one_time e then transient_error ''browser_secret_not_transient''
              else if en_consumed e \<noteq> None then transient_error ''browser_secret_already_consumed''
              else if is_expired_at now (en_expires e) then transient_error ''browser_secret_expired''
              else (case ck_dec K (en_cipher e) of
                  None \<Rightarrow> transient_error ''browser_secret_decryption_failed''
                | Some v \<Rightarrow> Inr (delete_entries (\<lambda>i _. i = vr_identifier r) V, v)))))"

definition delete_transient ::
    "vault \<Rightarrow> string \<Rightarrow> string \<Rightarrow> string \<Rightarrow> string \<Rightarrow> vault \<times> unit result" where
  "delete_transient V reference app kind scope = in_transaction V
     (bindR (parse_vault_reference reference) (\<lambda>r.
        if vr_app r \<noteq> app \<or> vr_kind r \<noteq> kind then transient_error ''browser_secret_not_found''
        else (case entry_at V (vr_identifier r) app kind of
            None \<Rightarrow> transient_error ''browser_secret_not_found''
          | Some e \<Rightarrow>
              if en_scope e = Some scope \<and> en_one_time e \<and> en_consumed e = None
              then Inr (delete_entries (\<lambda>i _. i = vr_identifier r) V, ())
              else transient_error ''browser_secret_not_found'')))"

section \<open>Grants\<close>

definition validate_grant_binding :: "grant_binding \<Rightarrow> unit result" where
  "validate_grant_binding b =
     (if \<not> broker_operation_ok (gb_operation b)
      then Inl (ValueError ''browser secret operation key is invalid'')
      else if \<not> broker_scope_ok (gb_run b) then Inl (ValueError ''browser secret run scope is invalid'')
      else if \<not> broker_scope_ok (gb_session b)
      then Inl (ValueError ''browser secret session id is invalid'')
      else if \<not> app_slug_ok (gb_app b) then Inl (ValueError ''browser secret app slug is invalid'')
      else if \<not> vault_kind_ok (gb_kind b) then Inl (ValueError ''browser secret kind is invalid'')
      else (case gb_action b of
          Consume_Action \<Rightarrow>
            (case gb_reference b of
               None \<Rightarrow> Inl (ValueError ''consume grants require an exact reference'')
             | Some ref \<Rightarrow> bindR (parse_vault_reference ref) (\<lambda>p.
                 if vr_app p \<noteq> gb_app b \<or> vr_kind p \<noteq> gb_kind b
                 then Inl (ValueError ''consume grant reference binding is invalid'') else Inr ()))
        | Capture_Action \<Rightarrow>
            if gb_reference b \<noteq> None
            then Inl (ValueError ''capture grants cannot bind an input reference'') else Inr ()))"

definition grant_digest :: "vault_keys \<Rightarrow> string \<Rightarrow> string result" where
  "grant_digest K grant =
     (if \<not> broker_grant_ok grant then Inl (RuntimeError ''browser_secret_grant_invalid'')
      else Inr (ck_sha K grant))"

definition grant_token :: "vault_keys \<Rightarrow> grant_binding \<Rightarrow> string" where
  "grant_token K b = ''bsg_'' @ ck_token K b"

definition reserve_browser_secret_grant ::
    "vault_keys \<Rightarrow> int \<Rightarrow> vault \<Rightarrow> grant_binding \<Rightarrow> int \<Rightarrow> vault \<times> string result" where
  "reserve_browser_secret_grant K now V b ttl = in_transaction V
     (bindR (validate_grant_binding b) (\<lambda>_.
        if \<not> (30 \<le> ttl \<and> ttl \<le> 3600)
        then Inl (ValueError ''browser secret grant ttl must be between 30 and 3600 seconds'')
        else
          let grant = grant_token K b; expires = now + ttl * second
          in bindR (grant_digest K grant) (\<lambda>d.
            let row = (case va_grants V d of
                  None \<Rightarrow> \<lparr>gr_binding = b, gr_status = Grant_Reserved, gr_result = None, gr_expires = expires\<rparr>
                | Some r \<Rightarrow> r)
            in if gr_binding row \<noteq> b
               then Inl (RuntimeError ''browser_secret_grant_binding_mismatch'')
               else if gr_status row = Grant_Revoked
               then Inl (RuntimeError ''browser_secret_grant_revoked'')
               else Inr (V\<lparr>va_grants := (va_grants V)(d \<mapsto>
                       (if gr_status row = Grant_Reserved then row\<lparr>gr_expires := expires\<rparr> else row))\<rparr>,
                     grant))))"

definition grant_error :: "string \<Rightarrow> 'a result" where
  "grant_error reason = Inl (RuntimeError reason)"

text \<open>The entry a consume grant names, if it is still a live one-time entry of its run.\<close>

definition consumable_value :: "vault_keys \<Rightarrow> int \<Rightarrow> vault \<Rightarrow> grant_binding \<Rightarrow> string \<Rightarrow> string result" where
  "consumable_value K now V b ident =
     (case entry_at V ident (gb_app b) (gb_kind b) of
        None \<Rightarrow> grant_error ''browser_secret_grant_unavailable''
      | Some e \<Rightarrow>
          if (case en_scope e of None \<Rightarrow> [] | Some s \<Rightarrow> s) \<noteq> gb_run b \<or> \<not> en_one_time e \<or>
             en_consumed e \<noteq> None \<or> is_expired_at now (en_expires e)
          then grant_error ''browser_secret_grant_unavailable''
          else (case ck_dec K (en_cipher e) of
              None \<Rightarrow> grant_error ''browser_secret_grant_unavailable''
            | Some v \<Rightarrow> Inr v))"

definition consume_transient_with_grant ::
    "vault_keys \<Rightarrow> int \<Rightarrow> vault \<Rightarrow> string \<Rightarrow> string \<Rightarrow> grant_binding \<Rightarrow> vault \<times> string result" where
  "consume_transient_with_grant K now V grant reference b0 = in_transaction V
     (let b = b0\<lparr>gb_action := Consume_Action, gb_reference := Some reference\<rparr>
      in bindR (validate_grant_binding b) (\<lambda>_.
         bindR (grant_digest K grant) (\<lambda>d.
         bindR (parse_vault_reference reference) (\<lambda>p.
           case va_grants V d of
             None \<Rightarrow> grant_error ''browser_secret_grant_unavailable''
           | Some g \<Rightarrow>
               if gr_binding g \<noteq> b then grant_error ''browser_secret_grant_unavailable''
               else if gr_status g \<noteq> Grant_Reserved then grant_error ''browser_secret_grant_already_used''
               else if gr_expires g \<le> now then grant_error ''browser_secret_grant_expired''
               else bindR (consumable_value K now V b (vr_identifier p)) (\<lambda>v.
                 Inr ((delete_entries (\<lambda>i _. i = vr_identifier p) V)
                        \<lparr>va_grants := (va_grants V)(d \<mapsto> g\<lparr>gr_status := Grant_Completed\<rparr>)\<rparr>, v))))))"

definition captured_replay ::
    "vault_keys \<Rightarrow> vault \<Rightarrow> grant_binding \<Rightarrow> grant_row \<Rightarrow> string \<Rightarrow> string result" where
  "captured_replay K V b g v =
     (let result = (case gr_result g of None \<Rightarrow> [] | Some r \<Rightarrow> r)
      in case parse_vault_reference result of
           Inl _ \<Rightarrow> grant_error ''browser_secret_grant_state_invalid''
         | Inr p \<Rightarrow>
             (case entry_at V (vr_identifier p) (gb_app b) (gb_kind b) of
                None \<Rightarrow> grant_error ''browser_secret_grant_state_invalid''
              | Some e \<Rightarrow>
                  (case ck_dec K (en_cipher e) of
                     None \<Rightarrow> grant_error ''browser_secret_grant_state_invalid''
                   | Some w \<Rightarrow>
                       if w \<noteq> v then grant_error ''browser_secret_grant_replay_mismatch''
                       else Inr result)))"

definition capture_with_grant ::
    "vault_keys \<Rightarrow> nat \<Rightarrow> string \<Rightarrow> int \<Rightarrow> vault \<Rightarrow> string \<Rightarrow> grant_binding \<Rightarrow> string \<Rightarrow>
     vault \<times> string result" where
  "capture_with_grant K nonce ident now V grant b0 v = in_transaction V
     (let b = b0\<lparr>gb_action := Capture_Action, gb_reference := None\<rparr>
      in bindR (validate_grant_binding b) (\<lambda>_.
         if v = [] then Inl (ValueError ''secret value must be a non-empty string'')
         else bindR (grant_digest K grant) (\<lambda>d.
           case va_grants V d of
             None \<Rightarrow> grant_error ''browser_secret_grant_unavailable''
           | Some g \<Rightarrow>
               if gr_binding g \<noteq> b then grant_error ''browser_secret_grant_unavailable''
               else (case gr_status g of
                   Grant_Completed \<Rightarrow> bindR (captured_replay K V b g v) (\<lambda>ref. Inr (V, ref))
                 | Grant_Revoked \<Rightarrow> grant_error ''browser_secret_grant_unavailable''
                 | Grant_Reserved \<Rightarrow>
                     if gr_expires g \<le> now then grant_error ''browser_secret_grant_expired''
                     else
                       let ref = entry_reference (gb_app b) (gb_kind b) ident
                       in bindR (insert_entry ident
                                  (durable_entry (gb_app b) (gb_kind b) (ck_enc K nonce v) None now) V)
                            (\<lambda>V'. Inr (V'\<lparr>va_grants := (va_grants V')(d \<mapsto>
                                g\<lparr>gr_status := Grant_Completed, gr_result := Some ref\<rparr>)\<rparr>, ref))))))"

section \<open>Reusable logins\<close>

definition validate_login_pair ::
    "string \<Rightarrow> string \<Rightarrow> string option \<Rightarrow> string \<Rightarrow> string \<Rightarrow> unit result" where
  "validate_login_pair app account run email pw =
     (if \<not> app_slug_ok app
      then Inl (ValueError ''app_slug must contain lowercase letters, digits, or hyphens'')
      else if \<not> account_ref_ok account
      then Inl (ValueError ''account_ref must be an opaque browser account binding'')
      else if (case run of None \<Rightarrow> False | Some r \<Rightarrow> \<not> account_ref_ok r)
      then Inl (ValueError ''run_id must be an opaque run identifier'')
      else if email = [] then Inl (ValueError ''login email must be a non-empty string'')
      else if pw = [] then Inl (ValueError ''login password must be a non-empty string'')
      else Inr ())"

definition put_account_login ::
    "vault_keys \<Rightarrow> nat \<Rightarrow> string \<Rightarrow> int \<Rightarrow> vault \<Rightarrow> string \<Rightarrow> string \<Rightarrow> string \<Rightarrow> string \<Rightarrow>
     vault \<times> string result" where
  "put_account_login K nonce ident now V app account field v = in_transaction V
     (bindR (account_login_kind field) (\<lambda>kind.
        if v = [] then Inl (ValueError ''secret value must be a non-empty string'')
        else if \<not> app_slug_ok app
        then Inl (ValueError ''app_slug must contain lowercase letters, digits, or hyphens'')
        else if \<not> account_ref_ok account
        then Inl (ValueError ''account_ref must be an opaque browser account binding'')
        else bindR (insert_entry ident (durable_entry app kind (ck_enc K nonce v) (Some account) now)
                (delete_entries (\<lambda>_ e. en_app e = app \<and> en_kind e = kind \<and> en_account e = Some account) V))
               (\<lambda>V'. Inr (V', entry_reference app kind ident))))"

definition login_row :: "string \<Rightarrow> string \<Rightarrow> vault_entry \<Rightarrow> bool" where
  "login_row app account e =
     (en_app e = app \<and> en_account e = Some account \<and> en_kind e \<in> {email_login_kind, password_login_kind})"

text \<open>Both rows of a pair are replaced together, under identifiers drawn for them.\<close>

definition replace_account_login_pair ::
    "string \<times> string \<Rightarrow> int \<Rightarrow> vault \<Rightarrow> string \<Rightarrow> string \<Rightarrow> string \<Rightarrow> string \<Rightarrow> vault result" where
  "replace_account_login_pair idents now V app account email_cipher password_cipher =
     bindR (insert_entry (fst idents) (durable_entry app email_login_kind email_cipher (Some account) now)
             (delete_entries (\<lambda>_ e. login_row app account e) V))
       (insert_entry (snd idents) (durable_entry app password_login_kind password_cipher (Some account) now))"

definition put_account_login_pair ::
    "vault_keys \<Rightarrow> nat \<times> nat \<Rightarrow> string \<times> string \<Rightarrow> int \<Rightarrow> vault \<Rightarrow> string \<Rightarrow> string \<Rightarrow> string \<Rightarrow> string \<Rightarrow>
     vault \<times> (string \<times> string) result" where
  "put_account_login_pair K nonces idents now V app account email pw = in_transaction V
     (bindR (validate_login_pair app account None email pw) (\<lambda>_.
      bindR (replace_account_login_pair idents now V app account
               (ck_enc K (fst nonces) email) (ck_enc K (snd nonces) pw)) (\<lambda>V'.
      Inr (V', (entry_reference app email_login_kind (fst idents),
                entry_reference app password_login_kind (snd idents))))))"

definition decrypt_pair :: "vault_keys \<Rightarrow> string \<Rightarrow> string \<Rightarrow> (string \<times> string) option" where
  "decrypt_pair K email_cipher password_cipher =
     (case (ck_dec K email_cipher, ck_dec K password_cipher) of
        (Some email, Some pw) \<Rightarrow> Some (email, pw) | _ \<Rightarrow> None)"

text \<open>The last row of a kind among the durable login rows of an account.\<close>

definition login_cipher :: "vault \<Rightarrow> string \<Rightarrow> string \<Rightarrow> string \<Rightarrow> string option" where
  "login_cipher V app account kind =
     (case rev (select_entries (\<lambda>_ e. login_row app account e \<and> \<not> en_one_time e \<and> en_kind e = kind) V) of
        [] \<Rightarrow> None | (_, e) # _ \<Rightarrow> Some (en_cipher e))"

definition get_account_login_pair ::
    "vault_keys \<Rightarrow> vault \<Rightarrow> string \<Rightarrow> string \<Rightarrow> (string \<times> string) option" where
  "get_account_login_pair K V app account =
     (if \<not> app_slug_ok app \<or> \<not> account_ref_ok account then None
      else (case (login_cipher V app account email_login_kind, login_cipher V app account password_login_kind) of
          (Some ec, Some pc) \<Rightarrow> decrypt_pair K ec pc
        | _ \<Rightarrow> None))"

text \<open>One field: the row written last, of equal instants the first.\<close>

definition get_account_login ::
    "vault_keys \<Rightarrow> vault \<Rightarrow> string \<Rightarrow> string \<Rightarrow> string \<Rightarrow> string option result" where
  "get_account_login K V app account field =
     bindR (account_login_kind field) (\<lambda>kind. Inr
       (if \<not> app_slug_ok app \<or> \<not> account_ref_ok account then None
        else (case sort_key (\<lambda>(_, e). - en_created e)
                (select_entries (\<lambda>_ e. en_app e = app \<and> en_kind e = kind \<and> en_account e = Some account \<and>
                   \<not> en_one_time e) V) of
            [] \<Rightarrow> None | (_, e) # _ \<Rightarrow> ck_dec K (en_cipher e))))"

fun first_per_field :: "(string \<times> string) list \<Rightarrow> (string \<times> string) list \<Rightarrow> (string \<times> string) list" where
  "first_per_field acc [] = acc"
| "first_per_field acc ((f, r) # rest) =
     first_per_field (if f \<in> fst ` set acc then acc else acc @ [(f, r)]) rest"

definition field_of_kind :: "string \<Rightarrow> string" where
  "field_of_kind kind = drop (length ''account_login_'') kind"

definition account_login_references :: "vault \<Rightarrow> string \<Rightarrow> string \<Rightarrow> (string \<times> string) list" where
  "account_login_references V app account =
     (if \<not> app_slug_ok app \<or> \<not> account_ref_ok account then []
      else first_per_field []
        (map (\<lambda>(i, e). (field_of_kind (en_kind e), entry_reference app (en_kind e) i))
          (sort_key (\<lambda>(_, e). - en_created e)
             (select_entries (\<lambda>_ e. login_row app account e \<and> \<not> en_one_time e) V))))"

definition delete_account_login :: "vault \<Rightarrow> string \<Rightarrow> string \<Rightarrow> string \<Rightarrow> vault \<times> unit result" where
  "delete_account_login V app account field = in_transaction V
     (bindR (account_login_kind field) (\<lambda>kind. Inr
        (if \<not> app_slug_ok app \<or> \<not> account_ref_ok account then (V, ())
         else (delete_entries (\<lambda>_ e. en_app e = app \<and> en_kind e = kind \<and> en_account e = Some account) V, ()))))"

text \<open>The sole account of an app with both rows.\<close>

definition complete_accounts :: "vault \<Rightarrow> string \<Rightarrow> string list" where
  "complete_accounts V app =
     filter (\<lambda>a. account_ref_ok a \<and> login_cipher V app a email_login_kind \<noteq> None \<and>
                 login_cipher V app a password_login_kind \<noteq> None)
       (remdups (List.map_filter (\<lambda>(_, e). if en_app e = app \<and> \<not> en_one_time e \<and>
            en_kind e \<in> {email_login_kind, password_login_kind} then en_account e else None)
          (va_entries V)))"

definition get_unique_account_login_pair ::
    "vault_keys \<Rightarrow> vault \<Rightarrow> string \<Rightarrow> (string \<times> string \<times> string) option result" where
  "get_unique_account_login_pair K V app =
     (if \<not> app_slug_ok app
      then Inl (ValueError ''app_slug must contain lowercase letters, digits, or hyphens'')
      else (case complete_accounts V app of
          [] \<Rightarrow> Inr None
        | [a] \<Rightarrow>
            (case decrypt_pair K (the (login_cipher V app a email_login_kind))
                                 (the (login_cipher V app a password_login_kind)) of
               None \<Rightarrow> Inl (RuntimeError ''stored_login_account_unreadable'')
             | Some p \<Rightarrow> Inr (Some (a, p)))
        | _ \<Rightarrow> Inl (RuntimeError ''stored_login_account_ambiguous'')))"

section \<open>Staged logins\<close>

definition readable_pair :: "vault_keys \<Rightarrow> string \<Rightarrow> staged_login \<Rightarrow> (string \<times> string) result" where
  "readable_pair K reason s = (case decrypt_pair K (sl_email s) (sl_password s) of
      None \<Rightarrow> Inl (RuntimeError reason) | Some p \<Rightarrow> Inr p)"

definition stage_existing_login_pair ::
    "vault_keys \<Rightarrow> nat \<times> nat \<Rightarrow> vault \<Rightarrow> string \<Rightarrow> string \<Rightarrow> string \<Rightarrow> string \<Rightarrow> string \<Rightarrow>
     vault \<times> (string \<times> string) result" where
  "stage_existing_login_pair K nonces V app account run email pw = in_transaction V
     (bindR (validate_login_pair app account (Some run) email pw) (\<lambda>_.
        let ec = ck_enc K (fst nonces) email; pc = ck_enc K (snd nonces) pw
        in case va_existing V run of
             Some s \<Rightarrow>
               if sl_app s \<noteq> app \<or> sl_account s \<noteq> account
               then Inl (RuntimeError ''existing_login_stage_binding_mismatch'')
               else if sl_promoted s
               then bindR (readable_pair K ''existing_login_stage_unreadable'' s) (\<lambda>p. Inr (V, p))
               else Inr (V\<lparr>va_existing := (va_existing V)(run \<mapsto> s\<lparr>sl_email := ec, sl_password := pc\<rparr>)\<rparr>,
                         (email, pw))
           | None \<Rightarrow>
               Inr (V\<lparr>va_existing := (va_existing V)(run \<mapsto>
                     \<lparr>sl_app = app, sl_account = account, sl_email = ec, sl_password = pc, sl_promoted = False\<rparr>)\<rparr>,
                   (email, pw))))"

definition staged_existing :: "vault \<Rightarrow> string \<Rightarrow> string \<Rightarrow> string \<Rightarrow> staged_login option" where
  "staged_existing V app account run = (case va_existing V run of
      Some s \<Rightarrow> if sl_app s = app \<and> sl_account s = account then Some s else None | None \<Rightarrow> None)"

definition get_staged_existing_login_pair ::
    "vault_keys \<Rightarrow> vault \<Rightarrow> string \<Rightarrow> string \<Rightarrow> string \<Rightarrow> (string \<times> string) option" where
  "get_staged_existing_login_pair K V app account run =
     (if \<not> app_slug_ok app \<or> \<not> account_ref_ok account \<or> \<not> account_ref_ok run then None
      else (case staged_existing V app account run of
          None \<Rightarrow> None | Some s \<Rightarrow> decrypt_pair K (sl_email s) (sl_password s)))"

definition promote_staged_existing_login_pair ::
    "string \<times> string \<Rightarrow> int \<Rightarrow> vault \<Rightarrow> string \<Rightarrow> string \<Rightarrow> string \<Rightarrow> vault \<times> string list result" where
  "promote_staged_existing_login_pair idents now V app account run = in_transaction V
     (bindR (validate_login_pair app account (Some run) ''validation@example.invalid'' ''validation-only'') (\<lambda>_.
        case staged_existing V app account run of
          None \<Rightarrow> Inr (V, [])
        | Some s \<Rightarrow>
            bindR (replace_account_login_pair idents now V app account (sl_email s) (sl_password s)) (\<lambda>V'.
              Inr (V'\<lparr>va_existing := (va_existing V')(run \<mapsto> s\<lparr>sl_promoted := True\<rparr>)\<rparr>, reusable_login_fields))))"

definition signup_stage_of :: "vault \<Rightarrow> string \<Rightarrow> string \<Rightarrow> (string \<times> staged_login) option" where
  "signup_stage_of V app account =
     List.find (\<lambda>(_, s). sl_app s = app \<and> sl_account s = account) (va_signup V)"

definition staged_signup :: "vault \<Rightarrow> string \<Rightarrow> string \<Rightarrow> string \<Rightarrow> staged_login option" where
  "staged_signup V app account run = (case map_of (va_signup V) run of
      Some s \<Rightarrow> if sl_app s = app \<and> sl_account s = account then Some s else None | None \<Rightarrow> None)"

text \<open>The identity is unique and so is the run: a second identity of one run fails on the key.\<close>

definition stage_signup_login_pair ::
    "vault_keys \<Rightarrow> nat \<times> nat \<Rightarrow> vault \<Rightarrow> string \<Rightarrow> string \<Rightarrow> string \<Rightarrow> string \<Rightarrow> string \<Rightarrow>
     vault \<times> (string \<times> string) result" where
  "stage_signup_login_pair K nonces V app account run email pw = in_transaction V
     (bindR (validate_login_pair app account (Some run) email pw) (\<lambda>_.
        case signup_stage_of V app account of
          Some (owner, s) \<Rightarrow>
            if owner \<noteq> run
            then Inl (RuntimeError (if sl_promoted s then ''signup_identity_already_registered''
                                    else ''signup_identity_in_progress''))
            else bindR (readable_pair K ''signup_login_stage_unreadable'' s) (\<lambda>p. Inr (V, p))
        | None \<Rightarrow>
            if map_of (va_signup V) run \<noteq> None then Inl (IntegrityError ''staged_signup_logins.run_id'')
            else Inr (V\<lparr>va_signup := va_signup V @ [(run,
                     \<lparr>sl_app = app, sl_account = account, sl_email = ck_enc K (fst nonces) email,
                      sl_password = ck_enc K (snd nonces) pw, sl_promoted = False\<rparr>)]\<rparr>,
                   (email, pw))))"

definition get_staged_signup_login_pair ::
    "vault_keys \<Rightarrow> vault \<Rightarrow> string \<Rightarrow> string \<Rightarrow> string \<Rightarrow> (string \<times> string) option" where
  "get_staged_signup_login_pair K V app account run =
     (if \<not> app_slug_ok app \<or> \<not> account_ref_ok account \<or> \<not> account_ref_ok run then None
      else (case staged_signup V app account run of
          None \<Rightarrow> None | Some s \<Rightarrow> decrypt_pair K (sl_email s) (sl_password s)))"

definition staged_signup_login_owner :: "vault \<Rightarrow> string \<Rightarrow> string \<Rightarrow> (string \<times> bool) option" where
  "staged_signup_login_owner V app account =
     (if \<not> app_slug_ok app \<or> \<not> account_ref_ok account then None
      else map_option (\<lambda>(run, s). (run, sl_promoted s)) (signup_stage_of V app account))"

definition release_staged_signup_login_pair ::
    "vault \<Rightarrow> string \<Rightarrow> string \<Rightarrow> string \<Rightarrow> vault \<times> bool" where
  "release_staged_signup_login_pair V app account run =
     (if \<not> app_slug_ok app \<or> \<not> account_ref_ok account \<or> \<not> account_ref_ok run then (V, False)
      else (case staged_signup V app account run of
          None \<Rightarrow> (V, False)
        | Some s \<Rightarrow>
            if sl_promoted s then (V, False)
            else (V\<lparr>va_signup := filter (\<lambda>(r, _). r \<noteq> run) (va_signup V)\<rparr>, True)))"

definition promote_staged_signup_login_pair ::
    "string \<times> string \<Rightarrow> int \<Rightarrow> vault \<Rightarrow> string \<Rightarrow> string \<Rightarrow> string \<Rightarrow> vault \<times> string list result" where
  "promote_staged_signup_login_pair idents now V app account run = in_transaction V
     (bindR (validate_login_pair app account (Some run) ''validation@example.invalid'' ''validation-only'') (\<lambda>_.
        case staged_signup V app account run of
          None \<Rightarrow> Inl (RuntimeError ''signup_login_stage_missing'')
        | Some s \<Rightarrow>
            bindR (replace_account_login_pair idents now V app account (sl_email s) (sl_password s)) (\<lambda>V'.
              Inr (V'\<lparr>va_signup := AList.update run (s\<lparr>sl_promoted := True\<rparr>) (va_signup V')\<rparr>,
                   reusable_login_fields))))"

section \<open>Claims on inbox messages\<close>

definition bounded_text :: "nat \<Rightarrow> string \<Rightarrow> bool" where
  "bounded_text limit s =
     (s \<noteq> [] \<and> length s \<le> limit \<and> CHR 0x0D \<notin> set s \<and> CHR 0x0A \<notin> set s \<and> CHR 0x00 \<notin> set s)"

record message_identity =
  mi_account :: string
  mi_thread :: string
  mi_message :: string

definition gmail_ingestion_key :: "vault_keys \<Rightarrow> message_identity \<Rightarrow> string result" where
  "gmail_ingestion_key K m =
     (if \<not> bounded_text 1000 (mi_account m) \<or> \<not> bounded_text 1000 (mi_thread m) \<or>
         \<not> bounded_text 1000 (mi_message m)
      then Inl (ValueError ''Gmail ingestion identifiers must be bounded and non-empty'')
      else Inr (ck_sha K (join_chr (CHR 0x00)
             [''gmail-outreach-v1'', mi_account m, mi_thread m, mi_message m])))"

definition validate_ingestion_owner :: "string \<Rightarrow> unit result" where
  "validate_ingestion_owner run =
     (if \<not> bounded_text 200 run then Inl (ValueError ''owner_run_id must be a bounded opaque identifier'')
      else Inr ())"

definition validate_claim_token :: "string \<Rightarrow> unit result" where
  "validate_claim_token t =
     (if \<not> (20 \<le> length t \<and> length t \<le> 200) \<or> \<not> list_all reference_id_char t
      then Inl (ValueError ''claim_token is invalid'') else Inr ())"

definition validate_ingestion_input ::
    "string \<Rightarrow> string \<Rightarrow> (string \<times> string) list \<Rightarrow> int \<Rightarrow> unit result" where
  "validate_ingestion_input run app credentials lease =
     bindR (validate_ingestion_owner run) (\<lambda>_.
       if \<not> app_slug_ok app
       then Inl (ValueError ''app_slug must contain lowercase letters, digits, or hyphens'')
       else if \<not> (30 \<le> lease \<and> lease \<le> 3600)
       then Inl (ValueError ''Gmail ingestion lease must be between 30 and 3600 seconds'')
       else if 25 < length credentials
       then Inl (ValueError ''too many credentials in one Gmail message'')
       else (case List.find (\<lambda>(k, v). \<not> vault_kind_ok k \<or> v = [] \<or> 16384 < length v) credentials of
           None \<Rightarrow> Inr ()
         | Some (k, v) \<Rightarrow>
             if \<not> vault_kind_ok k then Inl (ValueError ''email credential kind is invalid'')
             else Inl (ValueError ''email credential value is invalid'')))"

text \<open>The first of equal values is stored, the second and later ones of a kind under a numbered
  name; \<open>idents\<close> and \<open>nonces\<close> are drawn per stored value.\<close>

fun insert_email_credentials ::
    "vault_keys \<Rightarrow> (nat \<Rightarrow> string) \<Rightarrow> (nat \<Rightarrow> nat) \<Rightarrow> int \<Rightarrow> string \<Rightarrow> string list \<Rightarrow>
     (string \<times> nat) list \<Rightarrow> (string \<times> string) list \<Rightarrow> vault \<Rightarrow> (string \<times> string) list \<Rightarrow>
     (vault \<times> (string \<times> string) list) result" where
  "insert_email_credentials K idents nonces now app seen counts refs V [] = Inr (V, refs)"
| "insert_email_credentials K idents nonces now app seen counts refs V ((kind, v) # rest) =
     (if v \<in> set seen then insert_email_credentials K idents nonces now app seen counts refs V rest
      else
        let n = Suc (case map_of counts kind of None \<Rightarrow> 0 | Some c \<Rightarrow> c);
            field = ''email_'' @ kind @ (if n = 1 then [] else CHR ''_'' # nat_digits n);
            i = length seen
        in (case insert_entry (idents i) (durable_entry app kind (ck_enc K (nonces i) v) None now) V of
              Inl e \<Rightarrow> Inl e
            | Inr V' \<Rightarrow> insert_email_credentials K idents nonces now app (v # seen)
                (AList.update kind n counts)
                (AList.update field (entry_reference app kind (idents i)) refs) V' rest))"

fun check_stored_refs :: "string \<Rightarrow> (string \<times> string) list \<Rightarrow> unit result" where
  "check_stored_refs app [] = Inr ()"
| "check_stored_refs app ((k, ref) # rest) =
     (if \<not> vault_kind_ok k then Inl (RuntimeError ''gmail_ingestion_state_invalid'')
      else (case parse_vault_reference ref of
          Inl _ \<Rightarrow> Inl (RuntimeError ''gmail_ingestion_state_invalid'')
        | Inr p \<Rightarrow> if vr_app p \<noteq> app then Inl (RuntimeError ''gmail_ingestion_state_invalid'')
                   else check_stored_refs app rest))"

datatype claim_status = Claim_Acquired | Claim_Busy | Claim_Completed

record ingestion_claim =
  ic_status :: claim_status
  ic_token :: "string option"
  ic_refs :: "(string \<times> string) list"

definition bare_claim :: "claim_status \<Rightarrow> ingestion_claim" where
  "bare_claim st = \<lparr>ic_status = st, ic_token = None, ic_refs = []\<rparr>"

definition lease_over :: "int \<Rightarrow> int option \<Rightarrow> bool" where
  "lease_over now expires = (case expires of None \<Rightarrow> True | Some t \<Rightarrow> t \<le> now)"

definition begin_gmail_message_ingestion ::
    "vault_keys \<Rightarrow> (nat \<Rightarrow> string) \<Rightarrow> (nat \<Rightarrow> nat) \<Rightarrow> string \<Rightarrow> int \<Rightarrow> vault \<Rightarrow> message_identity \<Rightarrow>
     string \<Rightarrow> string \<Rightarrow> (string \<times> string) list \<Rightarrow> int \<Rightarrow> vault \<times> ingestion_claim result" where
  "begin_gmail_message_ingestion K idents nonces token now V m run app credentials lease = in_transaction V
     (bindR (gmail_ingestion_key K m) (\<lambda>key.
      bindR (validate_ingestion_input run app credentials lease) (\<lambda>_.
        case va_ingest V key of
          Some r \<Rightarrow>
            if in_completed r \<or> in_owner r \<noteq> run then Inr (V, bare_claim Claim_Completed)
            else if \<not> lease_over now (in_expires r) then Inr (V, bare_claim Claim_Busy)
            else bindR (check_stored_refs app (in_refs r)) (\<lambda>_.
              Inr (V\<lparr>va_ingest := (va_ingest V)(key \<mapsto>
                      r\<lparr>in_token := Some token, in_expires := Some (now + lease * second)\<rparr>)\<rparr>,
                   \<lparr>ic_status = Claim_Acquired, ic_token = Some token, ic_refs = in_refs r\<rparr>))
        | None \<Rightarrow>
            bindR (insert_email_credentials K idents nonces now app [] [] [] V credentials) (\<lambda>(V', refs).
              Inr (V'\<lparr>va_ingest := (va_ingest V')(key \<mapsto>
                      \<lparr>in_owner = run, in_app = app, in_completed = False, in_token = Some token,
                       in_refs = refs, in_expires = Some (now + lease * second)\<rparr>)\<rparr>,
                   \<lparr>ic_status = Claim_Acquired, ic_token = Some token, ic_refs = refs\<rparr>)))))"

definition complete_gmail_message_ingestion ::
    "vault_keys \<Rightarrow> vault \<Rightarrow> message_identity \<Rightarrow> string \<Rightarrow> string \<Rightarrow> vault \<times> bool result" where
  "complete_gmail_message_ingestion K V m run token = in_transaction V
     (bindR (gmail_ingestion_key K m) (\<lambda>key.
      bindR (validate_ingestion_owner run) (\<lambda>_.
      bindR (validate_claim_token token) (\<lambda>_.
        case va_ingest V key of
          None \<Rightarrow> Inr (V, False)
        | Some r \<Rightarrow>
            if in_owner r \<noteq> run then Inr (V, False)
            else if in_completed r then Inr (V, True)
            else if (case in_token r of None \<Rightarrow> [] | Some t \<Rightarrow> t) \<noteq> token then Inr (V, False)
            else Inr (V\<lparr>va_ingest := (va_ingest V)(key \<mapsto>
                     r\<lparr>in_completed := True, in_token := None, in_expires := None\<rparr>)\<rparr>, True)))))"

definition release_gmail_message_ingestion ::
    "vault_keys \<Rightarrow> int \<Rightarrow> vault \<Rightarrow> message_identity \<Rightarrow> string \<Rightarrow> string \<Rightarrow> vault \<times> bool result" where
  "release_gmail_message_ingestion K now V m run token = in_transaction V
     (bindR (gmail_ingestion_key K m) (\<lambda>key.
      bindR (validate_ingestion_owner run) (\<lambda>_.
      bindR (validate_claim_token token) (\<lambda>_.
        case va_ingest V key of
          None \<Rightarrow> Inr (V, False)
        | Some r \<Rightarrow>
            if in_owner r = run \<and> \<not> in_completed r \<and> in_token r = Some token
            then Inr (V\<lparr>va_ingest := (va_ingest V)(key \<mapsto> r\<lparr>in_expires := Some (now - second)\<rparr>)\<rparr>, True)
            else Inr (V, False)))))"

end
