(* ===== verification/Vault_Laws.thy ===== *)
theory Vault_Laws
  imports Vault
begin

text \<open>
  What the vault guarantees over any interleaving of its callers: a one-time entry is read at
  most once, a grant is redeemed at most once and a captured secret keeps its reference, a
  retired secret never resolves again, the login of an account is always one whole pair, a
  signup identity has one owner, and an inbox message is consumed for one run only.
\<close>

section \<open>Calls\<close>

datatype vault_call =
    Put nat string int string string string
  | Put_Transient nat string int string string string string int
  | Consume int string string string string
  | Drop_Transient string string string string
  | Reserve int grant_binding int
  | Redeem int string string grant_binding
  | Capture nat string int string grant_binding string
  | Retire string credential_status
  | Delete string
  | Put_Login nat string int string string string string
  | Put_Pair "nat \<times> nat" "string \<times> string" int string string string string
  | Delete_Login string string string
  | Stage_Existing "nat \<times> nat" string string string string string
  | Promote_Existing "string \<times> string" int string string string
  | Stage_Signup "nat \<times> nat" string string string string string
  | Release_Signup string string string
  | Promote_Signup "string \<times> string" int string string string
  | Begin_Claim "nat \<Rightarrow> string" "nat \<Rightarrow> nat" string int message_identity string string
      "(string \<times> string) list" int
  | Complete_Claim message_identity string string
  | Release_Claim int message_identity string string

fun vault_step :: "vault_keys \<Rightarrow> vault_call \<Rightarrow> vault \<Rightarrow> vault" where
  "vault_step K (Put n i now app kind v) V = fst (put_secret K n i now V app kind v)"
| "vault_step K (Put_Transient n i now app kind scope v ttl) V =
     fst (put_transient K n i now V app kind scope v ttl)"
| "vault_step K (Consume now ref app kind scope) V = fst (consume_transient K now V ref app kind scope)"
| "vault_step K (Drop_Transient ref app kind scope) V = fst (delete_transient V ref app kind scope)"
| "vault_step K (Reserve now b ttl) V = fst (reserve_browser_secret_grant K now V b ttl)"
| "vault_step K (Redeem now g ref b) V = fst (consume_transient_with_grant K now V g ref b)"
| "vault_step K (Capture n i now g b v) V = fst (capture_with_grant K n i now V g b v)"
| "vault_step K (Retire ref st) V = fst (set_credential_status V ref st)"
| "vault_step K (Delete ref) V = fst (delete_secret V ref)"
| "vault_step K (Put_Login n i now app acc f v) V = fst (put_account_login K n i now V app acc f v)"
| "vault_step K (Put_Pair n i now app acc e p) V = fst (put_account_login_pair K n i now V app acc e p)"
| "vault_step K (Delete_Login app acc f) V = fst (delete_account_login V app acc f)"
| "vault_step K (Stage_Existing n app acc run e p) V =
     fst (stage_existing_login_pair K n V app acc run e p)"
| "vault_step K (Promote_Existing i now app acc run) V =
     fst (promote_staged_existing_login_pair i now V app acc run)"
| "vault_step K (Stage_Signup n app acc run e p) V = fst (stage_signup_login_pair K n V app acc run e p)"
| "vault_step K (Release_Signup app acc run) V = fst (release_staged_signup_login_pair V app acc run)"
| "vault_step K (Promote_Signup i now app acc run) V =
     fst (promote_staged_signup_login_pair i now V app acc run)"
| "vault_step K (Begin_Claim i n t now m run app cs lease) V =
     fst (begin_gmail_message_ingestion K i n t now V m run app cs lease)"
| "vault_step K (Complete_Claim m run t) V = fst (complete_gmail_message_ingestion K V m run t)"
| "vault_step K (Release_Claim now m run t) V = fst (release_gmail_message_ingestion K now V m run t)"

fun vault_run :: "vault_keys \<Rightarrow> vault_call list \<Rightarrow> vault \<Rightarrow> vault" where
  "vault_run K [] V = V"
| "vault_run K (c # cs) V = vault_run K cs (vault_step K c V)"

text \<open>The identifiers a call may draw for new rows.\<close>

fun draws :: "vault_call \<Rightarrow> string set" where
  "draws (Put n i now app kind v) = {i}"
| "draws (Put_Transient n i now app kind scope v ttl) = {i}"
| "draws (Capture n i now g b v) = {i}"
| "draws (Put_Login n i now app acc f v) = {i}"
| "draws (Put_Pair n i now app acc e p) = {fst i, snd i}"
| "draws (Promote_Existing i now app acc run) = {fst i, snd i}"
| "draws (Promote_Signup i now app acc run) = {fst i, snd i}"
| "draws (Begin_Claim i n t now m run app cs lease) = range i"
| "draws _ = {}"

definition idents :: "vault \<Rightarrow> string set" where
  "idents V = fst ` set (va_entries V)"

section \<open>Rows\<close>

lemma fst_in_transaction: "fst (in_transaction V r) = (case r of Inl e \<Rightarrow> V | Inr (V', x) \<Rightarrow> V')"
  by (auto simp: in_transaction_def split: sum.splits)

lemma insert_entry_Inr:
  "insert_entry i e V = Inr V' \<longleftrightarrow>
     i \<notin> idents V \<and> V' = V\<lparr>va_entries := va_entries V @ [(i, e)]\<rparr>"
  by (auto simp: insert_entry_def idents_def)

lemma idents_simps [simp]:
  "idents (V\<lparr>va_grants := g\<rparr>) = idents V"
  "idents (V\<lparr>va_signup := s\<rparr>) = idents V"
  "idents (V\<lparr>va_existing := x\<rparr>) = idents V"
  "idents (V\<lparr>va_ingest := n\<rparr>) = idents V"
  "idents (V\<lparr>va_entries := va_entries V @ [(i, e)]\<rparr>) = insert i (idents V)"
  by (simp_all add: idents_def)

lemma idents_delete: "idents (delete_entries P V) \<subseteq> idents V"
  by (auto simp: idents_def delete_entries_def)

lemma idents_delete_ident [simp]: "idents (delete_entries (\<lambda>i _. i = x) V) = idents V - {x}"
  by (force simp: idents_def delete_entries_def)

lemma replace_pair_Inr:
  "replace_account_login_pair ids now V app acc ec pc = Inr V' \<longleftrightarrow>
     (let W = delete_entries (\<lambda>_ e. login_row app acc e) V
      in fst ids \<notin> idents W \<and> snd ids \<noteq> fst ids \<and> snd ids \<notin> idents W \<and>
         V' = W\<lparr>va_entries := va_entries W @
           [(fst ids, durable_entry app email_login_kind ec (Some acc) now),
            (snd ids, durable_entry app password_login_kind pc (Some acc) now)]\<rparr>)"
  by (auto simp: replace_account_login_pair_def result_simps insert_entry_Inr Let_def)

lemma replace_pair_idents:
  "replace_account_login_pair ids now V app acc ec pc = Inr V' \<Longrightarrow>
     idents V' \<subseteq> idents V \<union> {fst ids, snd ids}"
  using idents_delete [of "\<lambda>_ e. login_row app acc e" V]
  by (auto simp: replace_pair_Inr Let_def idents_def)

lemma insert_credentials_Inr:
  "insert_email_credentials K ids ns now app seen counts refs V cs = Inr (V', refs') \<Longrightarrow>
     \<exists>new. va_entries V' = va_entries V @ new \<and> V' = V\<lparr>va_entries := va_entries V'\<rparr> \<and>
       (\<forall>(i, e)\<in>set new. i \<in> range ids \<and> i \<notin> idents V \<and> \<not> en_one_time e \<and> en_account e = None)"
proof (induction K ids ns now app seen counts refs V cs rule: insert_email_credentials.induct)
  case (2 K ids ns now app seen counts refs V kind v rest)
  show ?case
  proof (cases "v \<in> set seen")
    case False
    then obtain W where W: "insert_entry (ids (length seen))
        (durable_entry app kind (ck_enc K (ns (length seen)) v) None now) V = Inr W"
      and rec: "insert_email_credentials K ids ns now app (v # seen)
        (AList.update kind (Suc (case map_of counts kind of None \<Rightarrow> 0 | Some c \<Rightarrow> c)) counts)
        (AList.update (''email_'' @ kind @ (if Suc (case map_of counts kind of None \<Rightarrow> 0 | Some c \<Rightarrow> c) = 1
           then [] else CHR ''_'' # nat_digits (Suc (case map_of counts kind of None \<Rightarrow> 0 | Some c \<Rightarrow> c))))
           (entry_reference app kind (ids (length seen))) refs) W rest = Inr (V', refs')"
      using 2(3) by (auto simp: Let_def split: sum.splits)
    have eW: "W = V\<lparr>va_entries := va_entries V @ [(ids (length seen),
        durable_entry app kind (ck_enc K (ns (length seen)) v) None now)]\<rparr>" "ids (length seen) \<notin> idents V"
      using W by (auto simp: insert_entry_Inr)
    from 2(2) [OF False refl refl refl W rec] obtain new where
      new: "va_entries V' = va_entries W @ new" "V' = W\<lparr>va_entries := va_entries V'\<rparr>"
      "\<forall>(i, e)\<in>set new. i \<in> range ids \<and> i \<notin> idents W \<and> \<not> en_one_time e \<and> en_account e = None"
      by blast
    have "V' = V\<lparr>va_entries := va_entries V'\<rparr>"
      using new(2) eW(1) by (metis (no_types, lifting) vault.surjective vault.update_convs(1))
    then show ?thesis
      using new(1,3) eW
      by (intro exI [of _ "(ids (length seen), durable_entry app kind (ck_enc K (ns (length seen)) v) None now) # new"])
        (auto simp: durable_entry_def)
  qed (use 2 in auto)
qed auto

section \<open>How a call changes the entries\<close>

definition row_kept :: "vault_entry \<Rightarrow> vault_entry \<Rightarrow> bool" where
  "row_kept e e' \<longleftrightarrow> e' = e \<or> (\<exists>st. en_status e = Cred_Active \<and> e' = e\<lparr>en_status := st\<rparr>)"

definition keyed :: "vault \<Rightarrow> bool" where
  "keyed V = distinct (map fst (va_entries V))"

definition row_of :: "vault \<Rightarrow> string \<Rightarrow> vault_entry option" where
  "row_of V = map_of (va_entries V)"

text \<open>From \<open>V\<close> to \<open>V'\<close> rows appear only under identifiers of \<open>D\<close>; any other row was there and
  changed at most from active to a retired status.\<close>

definition evolves :: "string set \<Rightarrow> vault \<Rightarrow> vault \<Rightarrow> bool" where
  "evolves D V V' \<longleftrightarrow> (keyed V \<longrightarrow> keyed V') \<and> idents V' \<subseteq> idents V \<union> D \<and>
     (keyed V \<longrightarrow> (\<forall>i e'. i \<notin> D \<longrightarrow> row_of V' i = Some e' \<longrightarrow> (\<exists>e. row_of V i = Some e \<and> row_kept e e')))"

lemma row_kept_refl [simp]: "row_kept e e"
  by (simp add: row_kept_def)

lemma row_kept_trans: "row_kept a b \<Longrightarrow> row_kept b c \<Longrightarrow> row_kept a c"
  unfolding row_kept_def by (elim disjE exE conjE) (simp_all, blast+)

lemma evolves_refl [simp]: "evolves D V V"
  by (auto simp: evolves_def)

lemma evolves_trans: "evolves D V W \<Longrightarrow> evolves D W X \<Longrightarrow> evolves D V X"
  unfolding evolves_def by (elim conjE) (intro conjI impI allI; (blast intro: row_kept_trans)?)

lemma evolves_mono: "evolves D V W \<Longrightarrow> D \<subseteq> E \<Longrightarrow> evolves E V W"
  unfolding evolves_def by blast

lemma evolves_same_entries: "va_entries V' = va_entries V \<Longrightarrow> evolves D V V'"
  by (auto simp: evolves_def keyed_def idents_def row_of_def)

lemma evolves_updates [simp]:
  "evolves D V (W\<lparr>va_grants := g\<rparr>) = evolves D V W"
  "evolves D V (W\<lparr>va_signup := s\<rparr>) = evolves D V W"
  "evolves D V (W\<lparr>va_existing := x\<rparr>) = evolves D V W"
  "evolves D V (W\<lparr>va_ingest := n\<rparr>) = evolves D V W"
  by (simp_all add: evolves_def keyed_def idents_def row_of_def)

lemma evolves_insert:
  assumes "insert_entry i e V = Inr V'" "i \<in> D"
  shows "evolves D V V'"
  using assms
  by (auto simp: insert_entry_Inr evolves_def keyed_def idents_def row_of_def map_add_def split: option.splits if_splits)

lemma row_of_delete:
  "keyed V \<Longrightarrow> row_of (delete_entries P V) i =
     (case row_of V i of Some e \<Rightarrow> if P i e then None else Some e | None \<Rightarrow> None)"
proof -
  have "distinct (map fst xs) \<Longrightarrow> map_of (filter (\<lambda>(i, e). \<not> P i e) xs) i =
      (case map_of xs i of Some e \<Rightarrow> if P i e then None else Some e | None \<Rightarrow> None)" for xs
  proof (induction xs)
    case (Cons x xs)
    have "i = fst x \<Longrightarrow> map_of xs i = None"
      using Cons.prems by (simp add: map_of_eq_None_iff)
    then show ?case
      using Cons by (cases x) (auto split: option.splits)
  qed simp
  then show "keyed V \<Longrightarrow> row_of (delete_entries P V) i =
     (case row_of V i of Some e \<Rightarrow> if P i e then None else Some e | None \<Rightarrow> None)"
    by (simp add: row_of_def keyed_def delete_entries_def)
qed

lemma keyed_delete: "keyed V \<Longrightarrow> keyed (delete_entries P V)"
  by (simp add: keyed_def delete_entries_def distinct_map_filter)

lemma evolves_delete: "evolves D V (delete_entries P V)"
  using idents_delete [of P V]
  by (auto simp: evolves_def keyed_delete row_of_delete split: option.splits if_splits)

lemma evolves_replace_pair:
  assumes "replace_account_login_pair ids now V app acc ec pc = Inr V'"
  shows "evolves {fst ids, snd ids} V V'"
proof -
  obtain W where W: "insert_entry (fst ids) (durable_entry app email_login_kind ec (Some acc) now)
      (delete_entries (\<lambda>_ e. login_row app acc e) V) = Inr W"
    "insert_entry (snd ids) (durable_entry app password_login_kind pc (Some acc) now) W = Inr V'"
    using assms by (auto simp: replace_account_login_pair_def result_simps)
  show ?thesis
    by (rule evolves_trans [OF evolves_delete evolves_trans [OF evolves_insert [OF W(1)] evolves_insert [OF W(2)]]])
      simp_all
qed

lemma map_of_retire:
  "map_of (map (\<lambda>(i, e'). if i = x then (i, f e') else (i, e')) xs) i =
     (if i = x then map_option f (map_of xs i) else map_of xs i)"
  by (induction xs) auto

lemma evolves_retire:
  assumes "row_of V x = Some e" "en_status e \<in> {Cred_Active, st}"
  shows "evolves D V (V\<lparr>va_entries := map (\<lambda>(i, e'). if i = x then (i, e'\<lparr>en_status := st\<rparr>) else (i, e'))
           (va_entries V)\<rparr>)"
proof -
  have keys: "map fst (map (\<lambda>(i, e'). if i = x then (i, e'\<lparr>en_status := st\<rparr>) else (i, e')) xs) = map fst xs"
    for xs :: "(string \<times> vault_entry) list"
    by (induction xs) auto
  have "fst ` set (map (\<lambda>(i, e'). if i = x then (i, e'\<lparr>en_status := st\<rparr>) else (i, e')) (va_entries V)) =
      fst ` set (va_entries V)"
    using arg_cong [OF keys, of set] by (simp only: set_map)
  moreover have "row_kept e (e\<lparr>en_status := st\<rparr>)"
    using assms(2) by (auto simp: row_kept_def)
  ultimately show ?thesis
    using assms(1) unfolding evolves_def keyed_def idents_def row_of_def
    by (auto simp: keys map_of_retire simp del: map_map split: if_splits)
qed

lemma in_transaction_evolves:
  "(\<And>V' x. r = Inr (V', x) \<Longrightarrow> evolves D V V') \<Longrightarrow> evolves D V (fst (in_transaction V r))"
  by (auto simp: fst_in_transaction split: sum.splits)

lemma insert_credentials_evolves:
  "insert_email_credentials K ids ns now app seen counts refs V cs = Inr (V', refs') \<Longrightarrow> evolves (range ids) V V'"
proof (induction K ids ns now app seen counts refs V cs rule: insert_email_credentials.induct)
  case (2 K ids ns now app seen counts refs V kind v rest)
  show ?case
  proof (cases "v \<in> set seen")
    case False
    show ?thesis
      using 2(2) [OF False refl refl refl] 2(3) False
      by (auto simp: Let_def split: sum.splits intro: evolves_trans dest: evolves_insert [of _ _ _ _ "range ids"])
  qed (use 2 in auto)
qed auto

text \<open>The outcomes of a claim that returns.\<close>

definition claims_again ::
    "vault_keys \<Rightarrow> string \<Rightarrow> int \<Rightarrow> vault \<Rightarrow> string \<Rightarrow> string \<Rightarrow> int \<Rightarrow> vault \<Rightarrow> ingestion_claim \<Rightarrow> bool" where
  "claims_again K token now V key run lease V' c \<longleftrightarrow>
     (\<exists>r. va_ingest V key = Some r \<and> in_owner r = run \<and> \<not> in_completed r \<and>
       V' = V\<lparr>va_ingest := (va_ingest V)(key \<mapsto>
          r\<lparr>in_token := Some token, in_expires := Some (now + lease * second)\<rparr>)\<rparr> \<and>
       c = \<lparr>ic_status = Claim_Acquired, ic_token = Some token, ic_refs = in_refs r\<rparr>)"

definition claims_first ::
    "vault_keys \<Rightarrow> (nat \<Rightarrow> string) \<Rightarrow> (nat \<Rightarrow> nat) \<Rightarrow> string \<Rightarrow> int \<Rightarrow> vault \<Rightarrow> string \<Rightarrow> string \<Rightarrow> string \<Rightarrow>
     (string \<times> string) list \<Rightarrow> int \<Rightarrow> vault \<Rightarrow> ingestion_claim \<Rightarrow> bool" where
  "claims_first K ids ns token now V key run app creds lease V' c \<longleftrightarrow>
     (\<exists>W refs. va_ingest V key = None \<and>
       insert_email_credentials K ids ns now app [] [] [] V creds = Inr (W, refs) \<and>
       V' = W\<lparr>va_ingest := (va_ingest W)(key \<mapsto>
          \<lparr>in_owner = run, in_app = app, in_completed = False, in_token = Some token,
           in_refs = refs, in_expires = Some (now + lease * second)\<rparr>)\<rparr> \<and>
       c = \<lparr>ic_status = Claim_Acquired, ic_token = Some token, ic_refs = refs\<rparr>)"

lemma begin_cases:
  assumes "begin_gmail_message_ingestion K ids ns token now V m run app creds lease = (V', Inr c)"
  obtains (held) key r where "gmail_ingestion_key K m = Inr key" "va_ingest V key = Some r" "V' = V"
      "c = bare_claim Claim_Completed \<and> (in_completed r \<or> in_owner r \<noteq> run) \<or>
       c = bare_claim Claim_Busy \<and> \<not> in_completed r \<and> in_owner r = run \<and> \<not> lease_over now (in_expires r)"
    | (again) key where "gmail_ingestion_key K m = Inr key" "claims_again K token now V key run lease V' c"
    | (first) key where "gmail_ingestion_key K m = Inr key"
      "claims_first K ids ns token now V key run app creds lease V' c"
proof -
  obtain key where key: "gmail_ingestion_key K m = Inr key"
    and body: "(case va_ingest V key of
          Some r \<Rightarrow>
            if in_completed r \<or> in_owner r \<noteq> run then Inr (V, bare_claim Claim_Completed)
            else if \<not> lease_over now (in_expires r) then Inr (V, bare_claim Claim_Busy)
            else bindR (check_stored_refs app (in_refs r)) (\<lambda>_.
              Inr (V\<lparr>va_ingest := (va_ingest V)(key \<mapsto>
                      r\<lparr>in_token := Some token, in_expires := Some (now + lease * second)\<rparr>)\<rparr>,
                   \<lparr>ic_status = Claim_Acquired, ic_token = Some token, ic_refs = in_refs r\<rparr>))
        | None \<Rightarrow>
            bindR (insert_email_credentials K ids ns now app [] [] [] V creds) (\<lambda>(V', refs).
              Inr (V'\<lparr>va_ingest := (va_ingest V')(key \<mapsto>
                      \<lparr>in_owner = run, in_app = app, in_completed = False, in_token = Some token,
                       in_refs = refs, in_expires = Some (now + lease * second)\<rparr>)\<rparr>,
                   \<lparr>ic_status = Claim_Acquired, ic_token = Some token, ic_refs = refs\<rparr>))) = Inr (V', c)"
    using assms unfolding begin_gmail_message_ingestion_def in_transaction_Inr bindR_Inr_iff by blast
  show thesis
  proof (cases "va_ingest V key")
    case None
    then have "claims_first K ids ns token now V key run app creds lease V' c"
      using body by (auto simp: claims_first_def result_simps)
    then show thesis by (rule first [OF key])
  next
    case (Some r)
    consider "in_completed r \<or> in_owner r \<noteq> run" | "\<not> (in_completed r \<or> in_owner r \<noteq> run)" "\<not> lease_over now (in_expires r)"
      | "\<not> (in_completed r \<or> in_owner r \<noteq> run)" "lease_over now (in_expires r)" by blast
    then show thesis
    proof cases
      case 3
      then have "claims_again K token now V key run lease V' c"
        using body Some by (auto simp: claims_again_def result_simps)
      then show thesis by (rule again [OF key])
    qed (use body Some held [OF key Some] in auto)
  qed
qed

lemma begin_evolves:
  "evolves (range ids) V (fst (begin_gmail_message_ingestion K ids ns token now V m run app creds lease))"
proof (cases "begin_gmail_message_ingestion K ids ns token now V m run app creds lease")
  case (Pair V' res)
  show ?thesis
  proof (cases res)
    case (Inl e)
    then show ?thesis
      using Pair by (auto simp: begin_gmail_message_ingestion_def in_transaction_Inl fst_in_transaction)
  next
    case (Inr c)
    with Pair have "begin_gmail_message_ingestion K ids ns token now V m run app creds lease = (V', Inr c)"
      by simp
    then show ?thesis
      by (cases rule: begin_cases)
        (auto simp: Pair claims_again_def claims_first_def dest: insert_credentials_evolves)
  qed
qed

abbreviation capture_binding :: "grant_binding \<Rightarrow> grant_binding" where
  "capture_binding b \<equiv> b\<lparr>gb_action := Capture_Action, gb_reference := None\<rparr>"

abbreviation consume_binding :: "grant_binding \<Rightarrow> string \<Rightarrow> grant_binding" where
  "consume_binding b ref \<equiv> b\<lparr>gb_action := Consume_Action, gb_reference := Some ref\<rparr>"

text \<open>The outcomes of a capture that returns: the reference captured before, or a new row.\<close>

lemma capture_cases:
  assumes "capture_with_grant K n i now V g b v = (V', Inr ref)"
  obtains (replay) d r where "grant_digest K g = Inr d" "va_grants V d = Some r"
      "gr_binding r = capture_binding b" "gr_status r = Grant_Completed" "V' = V" "gr_result r = Some ref"
    | (fresh) d r W where "grant_digest K g = Inr d" "va_grants V d = Some r"
      "gr_binding r = capture_binding b" "gr_status r = Grant_Reserved"
      "insert_entry i (durable_entry (gb_app b) (gb_kind b) (ck_enc K n v) None now) V = Inr W"
      "V' = W\<lparr>va_grants := (va_grants W)(d \<mapsto> r\<lparr>gr_status := Grant_Completed, gr_result := Some ref\<rparr>)\<rparr>"
      "ref = entry_reference (gb_app b) (gb_kind b) i"
proof -
  obtain d where d: "grant_digest K g = Inr d"
    and body: "(case va_grants V d of
             None \<Rightarrow> grant_error ''browser_secret_grant_unavailable''
           | Some g \<Rightarrow>
               if gr_binding g \<noteq> capture_binding b then grant_error ''browser_secret_grant_unavailable''
               else (case gr_status g of
                   Grant_Completed \<Rightarrow> bindR (captured_replay K V (capture_binding b) g v) (\<lambda>ref. Inr (V, ref))
                 | Grant_Revoked \<Rightarrow> grant_error ''browser_secret_grant_unavailable''
                 | Grant_Reserved \<Rightarrow>
                     if gr_expires g \<le> now then grant_error ''browser_secret_grant_expired''
                     else bindR (insert_entry i (durable_entry (gb_app (capture_binding b)) (gb_kind (capture_binding b)) (ck_enc K n v) None now) V)
                            (\<lambda>V'. Inr (V'\<lparr>va_grants := (va_grants V')(d \<mapsto>
                                g\<lparr>gr_status := Grant_Completed, gr_result := Some (entry_reference (gb_app (capture_binding b)) (gb_kind (capture_binding b)) i)\<rparr>)\<rparr>,
                               entry_reference (gb_app (capture_binding b)) (gb_kind (capture_binding b)) i)))) = Inr (V', ref)"
    using assms unfolding capture_with_grant_def in_transaction_Inr Let_def
    by (auto simp: bindR_Inr_iff split: if_splits)
  then obtain r where r: "va_grants V d = Some r" "gr_binding r = capture_binding b"
    by (auto simp: grant_error_def split: option.splits if_splits)
  show thesis
  proof (cases "gr_status r")
    case Grant_Completed
    then have "captured_replay K V (capture_binding b) r v = Inr ref" "V' = V"
      using body r by (auto simp: bindR_Inr_iff)
    moreover have "\<not> returned (parse_vault_reference [])"
      by (simp add: parse_vault_reference_def starts_with_def)
    ultimately show thesis
      using replay [OF d r Grant_Completed]
      by (auto simp: captured_replay_def grant_error_def Let_def split: sum.splits option.splits if_splits)
  next
    case Grant_Reserved
    then show thesis
      using fresh [OF d r Grant_Reserved] body r
      by (auto simp: bindR_Inr_iff grant_error_def split: if_splits)
  qed (use body r in \<open>simp add: grant_error_def\<close>)
qed

text \<open>A redeemed consume grant.\<close>

lemma redeem_Inr:
  assumes "consume_transient_with_grant K now V g ref b = (V', Inr v)"
  obtains d r p e where "grant_digest K g = Inr d" "va_grants V d = Some r"
    "gr_binding r = consume_binding b ref" "gr_status r = Grant_Reserved" "now < gr_expires r"
    "parse_vault_reference ref = Inr p" "entry_at V (vr_identifier p) (gb_app b) (gb_kind b) = Some e"
    "en_one_time e" "en_scope e = Some (gb_run b)" "\<not> is_expired_at now (en_expires e)"
    "ck_dec K (en_cipher e) = Some v"
    "V' = (delete_entries (\<lambda>i _. i = vr_identifier p) V)
       \<lparr>va_grants := (va_grants V)(d \<mapsto> r\<lparr>gr_status := Grant_Completed\<rparr>)\<rparr>"
proof -
  let ?b = "consume_binding b ref"
  obtain d p where d: "grant_digest K g = Inr d" "parse_vault_reference ref = Inr p"
    and ok: "validate_grant_binding ?b = Inr ()"
    and body: "(case va_grants V d of
             None \<Rightarrow> grant_error ''browser_secret_grant_unavailable''
           | Some g \<Rightarrow>
               if gr_binding g \<noteq> ?b then grant_error ''browser_secret_grant_unavailable''
               else if gr_status g \<noteq> Grant_Reserved then grant_error ''browser_secret_grant_already_used''
               else if gr_expires g \<le> now then grant_error ''browser_secret_grant_expired''
               else bindR (consumable_value K now V ?b (vr_identifier p)) (\<lambda>v.
                 Inr ((delete_entries (\<lambda>i _. i = vr_identifier p) V)
                        \<lparr>va_grants := (va_grants V)(d \<mapsto> g\<lparr>gr_status := Grant_Completed\<rparr>)\<rparr>, v))) = Inr (V', v)"
    using assms unfolding consume_transient_with_grant_def in_transaction_Inr Let_def
    by (auto simp: bindR_Inr_iff)
  obtain r where r: "va_grants V d = Some r" "gr_binding r = ?b" "gr_status r = Grant_Reserved"
    "now < gr_expires r"
    "consumable_value K now V ?b (vr_identifier p) = Inr v"
    "V' = (delete_entries (\<lambda>i _. i = vr_identifier p) V)
       \<lparr>va_grants := (va_grants V)(d \<mapsto> r\<lparr>gr_status := Grant_Completed\<rparr>)\<rparr>"
    using body by (auto simp: grant_error_def bindR_Inr_iff split: option.splits if_splits)
  obtain e where e: "entry_at V (vr_identifier p) (gb_app b) (gb_kind b) = Some e" "en_one_time e"
    "(case en_scope e of None \<Rightarrow> [] | Some s \<Rightarrow> s) = gb_run b" "\<not> is_expired_at now (en_expires e)"
    "ck_dec K (en_cipher e) = Some v"
    using r(5) by (auto simp: consumable_value_def grant_error_def split: option.splits if_splits)
  have "gb_run b \<noteq> []"
    using ok by (auto simp: validate_grant_binding_def broker_scope_ok_def split: if_splits)
  then have "en_scope e = Some (gb_run b)"
    using e(3) by (auto split: option.splits)
  then show thesis
    using that d r e by blast
qed

lemma redeem_evolves: "evolves D V (fst (consume_transient_with_grant K now V g ref b))"
proof (cases "consume_transient_with_grant K now V g ref b")
  case (Pair V' res)
  show ?thesis
  proof (cases res)
    case (Inl e)
    then show ?thesis
      using Pair by (auto simp: consume_transient_with_grant_def in_transaction_Inl fst_in_transaction)
  next
    case (Inr v)
    with Pair have "consume_transient_with_grant K now V g ref b = (V', Inr v)"
      by simp
    then show ?thesis
      by (rule redeem_Inr) (simp add: Pair evolves_delete)
  qed
qed

lemma complete_cases:
  assumes "complete_gmail_message_ingestion K V m run t = (V', Inr ok)"
  obtains (same) key where "gmail_ingestion_key K m = Inr key" "V' = V"
      "ok \<longleftrightarrow> (\<exists>r. va_ingest V key = Some r \<and> in_owner r = run \<and> in_completed r)"
    | (settled) key r where "gmail_ingestion_key K m = Inr key" "va_ingest V key = Some r" "in_owner r = run"
      "\<not> in_completed r" "in_token r = Some t" ok
      "V' = V\<lparr>va_ingest := (va_ingest V)(key \<mapsto> r\<lparr>in_completed := True, in_token := None, in_expires := None\<rparr>)\<rparr>"
proof -
  obtain key where key: "gmail_ingestion_key K m = Inr key" and t: "validate_claim_token t = Inr ()"
    and body: "(case va_ingest V key of
          None \<Rightarrow> Inr (V, False)
        | Some r \<Rightarrow>
            if in_owner r \<noteq> run then Inr (V, False)
            else if in_completed r then Inr (V, True)
            else if (case in_token r of None \<Rightarrow> [] | Some t \<Rightarrow> t) \<noteq> t then Inr (V, False)
            else Inr (V\<lparr>va_ingest := (va_ingest V)(key \<mapsto>
                     r\<lparr>in_completed := True, in_token := None, in_expires := None\<rparr>)\<rparr>, True))
        = (Inr (V', ok) :: (vault \<times> bool) result)"
    using assms unfolding complete_gmail_message_ingestion_def in_transaction_Inr bindR_Inr_iff by auto
  have "t \<noteq> []"
    using t by (auto simp: validate_claim_token_def split: if_splits)
  show thesis
  proof (cases "va_ingest V key")
    case None
    then show thesis using body same [OF key] by auto
  next
    case (Some r)
    consider "in_owner r \<noteq> run" | "in_owner r = run" "in_completed r"
      | "in_owner r = run" "\<not> in_completed r" "in_token r \<noteq> Some t"
      | "in_owner r = run" "\<not> in_completed r" "in_token r = Some t" by blast
    then show thesis
    proof cases
      case 3
      then have "(case in_token r of None \<Rightarrow> [] | Some t \<Rightarrow> t) \<noteq> t"
        using \<open>t \<noteq> []\<close> by (auto split: option.splits)
      then show thesis using 3 body Some same [OF key] by auto
    next
      case 4
      then show thesis using body Some settled [OF key Some] by auto
    qed (use body Some same [OF key] in auto)
  qed
qed

lemma complete_evolves: "evolves D V (fst (complete_gmail_message_ingestion K V m run t))"
proof (cases "complete_gmail_message_ingestion K V m run t")
  case (Pair V' res)
  show ?thesis
  proof (cases res)
    case (Inl e)
    then show ?thesis
      using Pair by (auto simp: complete_gmail_message_ingestion_def in_transaction_Inl fst_in_transaction)
  next
    case (Inr v)
    with Pair have "complete_gmail_message_ingestion K V m run t = (V', Inr v)"
      by simp
    then show ?thesis
      by (cases rule: complete_cases) (simp_all add: Pair)
  qed
qed

lemma capture_evolves: "evolves {i} V (fst (capture_with_grant K n i now V g b v))"
proof (cases "capture_with_grant K n i now V g b v")
  case (Pair V' res)
  show ?thesis
  proof (cases res)
    case (Inl e)
    then show ?thesis
      using Pair by (auto simp: capture_with_grant_def in_transaction_Inl fst_in_transaction)
  next
    case (Inr ref)
    with Pair have "capture_with_grant K n i now V g b v = (V', Inr ref)"
      by simp
    then show ?thesis
      by (cases rule: capture_cases) (auto simp: Pair dest: evolves_insert [of _ _ _ _ "{i}"])
  qed
qed

lemma entry_at_row: "entry_at V i app kind = Some e \<longleftrightarrow> row_of V i = Some e \<and> en_app e = app \<and> en_kind e = kind"
  by (auto simp: entry_at_def row_of_def split: option.splits)

lemma step_evolves: "evolves (draws c) V (vault_step K c V)"
proof (cases c)
  case (Release_Signup app acc run)
  then show ?thesis
    by (auto simp: release_staged_signup_login_pair_def intro!: evolves_same_entries split: option.splits)
next
  case (Retire ref st)
  show ?thesis
    unfolding Retire vault_step.simps set_credential_status_def
    by (rule in_transaction_evolves)
      (auto simp: result_simps entry_at_row split: if_splits option.splits intro!: evolves_retire)
next
  case (Promote_Existing ids now app acc run)
  show ?thesis
    unfolding Promote_Existing vault_step.simps promote_staged_existing_login_pair_def
    by (rule in_transaction_evolves)
      (auto simp: result_simps split: option.splits dest!: evolves_replace_pair)
next
  case (Promote_Signup ids now app acc run)
  show ?thesis
    unfolding Promote_Signup vault_step.simps promote_staged_signup_login_pair_def
    by (rule in_transaction_evolves)
      (auto simp: result_simps split: option.splits dest!: evolves_replace_pair)
next
  case (Put_Pair ns ids now app acc e p)
  show ?thesis
    unfolding Put_Pair vault_step.simps put_account_login_pair_def
    by (rule in_transaction_evolves)
      (auto simp: result_simps dest!: evolves_replace_pair)
next
  case (Begin_Claim ids ns t now m run app cs lease)
  show ?thesis
    unfolding Begin_Claim vault_step.simps draws.simps by (rule begin_evolves)
next
  case (Put_Login n i now app acc f v)
  show ?thesis
    unfolding Put_Login vault_step.simps put_account_login_def
    by (rule in_transaction_evolves)
      (auto simp: result_simps split: if_splits intro!: evolves_trans [OF evolves_delete evolves_insert])
next
  case (Capture n i now g b v)
  show ?thesis
    unfolding Capture vault_step.simps draws.simps by (rule capture_evolves)
next
  case (Put n i now app kind v)
  show ?thesis
    unfolding Put vault_step.simps put_secret_def
    by (rule in_transaction_evolves) (auto simp: result_simps split: if_splits intro: evolves_insert)
next
  case (Put_Transient n i now app kind scope v ttl)
  show ?thesis
    unfolding Put_Transient vault_step.simps put_transient_def
    by (rule in_transaction_evolves) (auto simp: result_simps split: if_splits intro: evolves_insert)
next
  case (Consume now ref app kind scope)
  show ?thesis
    unfolding Consume vault_step.simps consume_transient_def transient_error_def
    by (rule in_transaction_evolves)
      (auto simp: result_simps split: if_splits option.splits intro: evolves_delete)
next
  case (Drop_Transient ref app kind scope)
  show ?thesis
    unfolding Drop_Transient vault_step.simps delete_transient_def transient_error_def
    by (rule in_transaction_evolves)
      (auto simp: result_simps split: if_splits option.splits intro: evolves_delete)
next
  case (Delete ref)
  show ?thesis
    unfolding Delete vault_step.simps delete_secret_def
    by (rule in_transaction_evolves)
      (auto simp: result_simps split: if_splits option.splits intro: evolves_delete)
next
  case (Reserve now b ttl)
  show ?thesis
    unfolding Reserve vault_step.simps reserve_browser_secret_grant_def
    by (rule in_transaction_evolves) (auto simp: result_simps Let_def split: if_splits option.splits)
next
  case (Redeem now g ref b)
  show ?thesis
    unfolding Redeem vault_step.simps by (rule redeem_evolves)
next
  case (Delete_Login app acc f)
  show ?thesis
    unfolding Delete_Login vault_step.simps delete_account_login_def
    by (rule in_transaction_evolves) (auto simp: result_simps split: if_splits intro: evolves_delete)
next
  case (Stage_Existing n app acc run e p)
  show ?thesis
    unfolding Stage_Existing vault_step.simps stage_existing_login_pair_def
    by (rule in_transaction_evolves) (auto simp: result_simps Let_def split: if_splits option.splits)
next
  case (Stage_Signup n app acc run e p)
  show ?thesis
    unfolding Stage_Signup vault_step.simps stage_signup_login_pair_def
    by (rule in_transaction_evolves) (auto simp: result_simps Let_def split: if_splits option.splits)
next
  case (Complete_Claim m run t)
  show ?thesis
    unfolding Complete_Claim vault_step.simps by (rule complete_evolves)
next
  case (Release_Claim now m run t)
  show ?thesis
    unfolding Release_Claim vault_step.simps release_gmail_message_ingestion_def
    by (rule in_transaction_evolves) (auto simp: result_simps Let_def split: if_splits option.splits)
qed

end
