(* ===== verification/Vault_Grants.thy ===== *)
theory Vault_Grants
  imports Vault_Laws
begin

text \<open>
  The secrets of the vault over any interleaving of its callers: a one-time entry is read at
  most once and only inside its binding, a grant is spent once and a captured secret keeps its
  reference, and a retired secret never resolves again.
\<close>

section \<open>One-time entries and grants\<close>

definition names_ident :: "string \<Rightarrow> string \<Rightarrow> bool" where
  "names_ident ref i = (case parse_vault_reference ref of Inr p \<Rightarrow> vr_identifier p = i | Inl _ \<Rightarrow> False)"

text \<open>How often a call reads the one-time entry \<open>i\<close>, and a sequence of calls.\<close>

fun reads_once :: "vault_keys \<Rightarrow> string \<Rightarrow> vault_call \<Rightarrow> vault \<Rightarrow> nat" where
  "reads_once K i (Consume now ref app kind scope) V =
     (if returned (snd (consume_transient K now V ref app kind scope)) \<and> names_ident ref i then 1 else 0)"
| "reads_once K i (Redeem now g ref b) V =
     (if returned (snd (consume_transient_with_grant K now V g ref b)) \<and> names_ident ref i then 1 else 0)"
| "reads_once K i _ V = 0"

fun total_reads :: "vault_keys \<Rightarrow> string \<Rightarrow> vault_call list \<Rightarrow> vault \<Rightarrow> nat" where
  "total_reads K i [] V = 0"
| "total_reads K i (c # cs) V = reads_once K i c V + total_reads K i cs (vault_step K c V)"

definition drawn :: "string \<Rightarrow> vault_call list \<Rightarrow> nat" where
  "drawn i cs = length (filter (\<lambda>c. i \<in> draws c) cs)"

lemma consume_Inr:
  assumes "consume_transient K now V ref app kind scope = (V', Inr v)"
  obtains p e where "parse_vault_reference ref = Inr p" "vr_app p = app" "vr_kind p = kind"
    "entry_at V (vr_identifier p) app kind = Some e" "en_one_time e"
    "(case en_scope e of None \<Rightarrow> [] | Some s \<Rightarrow> s) = scope" "\<not> is_expired_at now (en_expires e)"
    "ck_dec K (en_cipher e) = Some v" "V' = delete_entries (\<lambda>i _. i = vr_identifier p) V"
  using assms unfolding consume_transient_def in_transaction_Inr transient_error_def
  by (auto simp: bindR_Inr_iff split: if_splits option.splits)

lemma names_ident_Inr: "parse_vault_reference ref = Inr p \<Longrightarrow> names_ident ref i \<longleftrightarrow> vr_identifier p = i"
  by (simp add: names_ident_def)

lemma entry_at_idents: "entry_at V i app kind = Some e \<Longrightarrow> i \<in> idents V"
  by (auto simp: entry_at_row row_of_def idents_def dest!: map_of_SomeD) force

lemma reads_once_gone:
  "reads_once K i c V \<noteq> 0 \<Longrightarrow>
     reads_once K i c V = 1 \<and> i \<in> idents V \<and> i \<notin> idents (vault_step K c V)"
proof (cases c)
  case (Consume now ref app kind scope)
  assume "reads_once K i c V \<noteq> 0"
  then obtain V' v where r: "consume_transient K now V ref app kind scope = (V', Inr v)" "names_ident ref i"
    using Consume by (cases "consume_transient K now V ref app kind scope") (auto simp: returned_iff split: if_splits)
  from r(1) show ?thesis
    by (rule consume_Inr) (use r Consume in \<open>auto simp: names_ident_Inr dest: entry_at_idents\<close>)
next
  case (Redeem now g ref b)
  assume "reads_once K i c V \<noteq> 0"
  then obtain V' v where r: "consume_transient_with_grant K now V g ref b = (V', Inr v)" "names_ident ref i"
    using Redeem by (cases "consume_transient_with_grant K now V g ref b") (auto simp: returned_iff split: if_splits)
  from r(1) show ?thesis
    by (rule redeem_Inr) (use r Redeem in \<open>auto simp: names_ident_Inr dest: entry_at_idents\<close>)
qed auto

text \<open>C8. A one-time secret is read at most once: over any calls of any callers, direct
  consumption and redemption of a grant together return the entry of an identifier at most once
  for every row stored under it, and never after its row was read.\<close>

theorem one_time_secret_read_once:
  "total_reads K i cs V \<le> (if i \<in> idents V then 1 else 0) + drawn i cs"
proof (induction cs arbitrary: V)
  case (Cons c cs)
  have "idents (vault_step K c V) \<subseteq> idents V \<union> draws c"
    using step_evolves [of c V K] by (simp add: evolves_def)
  then have "reads_once K i c V + (if i \<in> idents (vault_step K c V) then 1 else 0) \<le>
      (if i \<in> idents V then 1 else 0) + (if i \<in> draws c then 1 else (0::nat))"
    using reads_once_gone [of K i c V] by (cases "reads_once K i c V = 0") auto
  then show ?case
    using Cons.IH [of "vault_step K c V"] by (auto simp: drawn_def split: if_splits)
qed (simp add: drawn_def)

text \<open>A one-time entry is only ever read inside its binding: whoever gets a value by
  consumption named the app, kind and scope it was stored for before it expired, a redemption
  besides held the reserved grant of exactly that operation, session and reference, and the
  plain reader never resolves a one-time reference.\<close>

theorem one_time_secret_bound:
  "(\<forall>V' v. consume_transient K now V ref app kind scope = (V', Inr v) \<longrightarrow>
      (\<exists>p e. parse_vault_reference ref = Inr p \<and> row_of V (vr_identifier p) = Some e \<and>
         en_one_time e \<and> en_app e = app \<and> en_kind e = kind \<and>
         (en_scope e = Some scope \<or> en_scope e = None \<and> scope = []) \<and>
         \<not> is_expired_at now (en_expires e) \<and> ck_dec K (en_cipher e) = Some v)) \<and>
   (\<forall>V' v. consume_transient_with_grant K now V g ref b = (V', Inr v) \<longrightarrow>
      (\<exists>d r p e. grant_digest K g = Inr d \<and> va_grants V d = Some r \<and> gr_status r = Grant_Reserved \<and>
         gr_binding r = consume_binding b ref \<and> now < gr_expires r \<and>
         parse_vault_reference ref = Inr p \<and> row_of V (vr_identifier p) = Some e \<and> en_one_time e \<and>
         en_app e = gb_app b \<and> en_kind e = gb_kind b \<and> en_scope e = Some (gb_run b) \<and>
         ck_dec K (en_cipher e) = Some v)) \<and>
   (\<forall>v. get_secret K V ref = Inr v \<longrightarrow>
      (\<exists>p e. parse_vault_reference ref = Inr p \<and> row_of V (vr_identifier p) = Some e \<and>
         \<not> en_one_time e \<and> en_status e = Cred_Active \<and> ck_dec K (en_cipher e) = Some v))"
proof (intro conjI allI impI)
  fix V' v
  assume "consume_transient K now V ref app kind scope = (V', Inr v)"
  then show "\<exists>p e. parse_vault_reference ref = Inr p \<and> row_of V (vr_identifier p) = Some e \<and>
         en_one_time e \<and> en_app e = app \<and> en_kind e = kind \<and>
         (en_scope e = Some scope \<or> en_scope e = None \<and> scope = []) \<and>
         \<not> is_expired_at now (en_expires e) \<and> ck_dec K (en_cipher e) = Some v"
    by (rule consume_Inr) (auto simp: entry_at_row split: option.splits)
next
  fix V' v
  assume "consume_transient_with_grant K now V g ref b = (V', Inr v)"
  then show "\<exists>d r p e. grant_digest K g = Inr d \<and> va_grants V d = Some r \<and> gr_status r = Grant_Reserved \<and>
         gr_binding r = consume_binding b ref \<and> now < gr_expires r \<and>
         parse_vault_reference ref = Inr p \<and> row_of V (vr_identifier p) = Some e \<and> en_one_time e \<and>
         en_app e = gb_app b \<and> en_kind e = gb_kind b \<and> en_scope e = Some (gb_run b) \<and>
         ck_dec K (en_cipher e) = Some v"
    by (rule redeem_Inr) (auto simp: entry_at_row)
next
  fix v
  assume "get_secret K V ref = Inr v"
  then show "\<exists>p e. parse_vault_reference ref = Inr p \<and> row_of V (vr_identifier p) = Some e \<and>
         \<not> en_one_time e \<and> en_status e = Cred_Active \<and> ck_dec K (en_cipher e) = Some v"
    by (auto simp: get_secret_def bindR_Inr_iff entry_at_row split: option.splits if_splits)
qed

section \<open>Grants\<close>

definition spent :: "vault \<Rightarrow> string \<Rightarrow> grant_row \<Rightarrow> bool" where
  "spent V d r \<longleftrightarrow> va_grants V d = Some r \<and> gr_status r = Grant_Completed"

lemma replace_pair_grants:
  "replace_account_login_pair ids now V app acc ec pc = Inr V' \<Longrightarrow>
     va_grants V' = va_grants V \<and> va_signup V' = va_signup V \<and> va_existing V' = va_existing V \<and>
     va_ingest V' = va_ingest V"
  by (auto simp: replace_pair_Inr Let_def delete_entries_def)

lemma insert_credentials_grants:
  "insert_email_credentials K ids ns now app seen counts refs V cs = Inr (V', refs') \<Longrightarrow>
     va_grants V' = va_grants V \<and> va_signup V' = va_signup V \<and> va_existing V' = va_existing V \<and>
     va_ingest V' = va_ingest V"
  using insert_credentials_Inr [of K ids ns now app seen counts refs V cs V' refs']
  by (metis vault.select_convs(2-5) vault.surjective vault.update_convs(1))

lemma in_transaction_field:
  "(\<And>V' x. r = Inr (V', x) \<Longrightarrow> f V' = f V) \<Longrightarrow> f (fst (in_transaction V r)) = f V"
  by (auto simp: fst_in_transaction split: sum.splits)

lemma fst_transaction_cases:
  assumes "fst (in_transaction V r) = W"
  obtains "W = V" | x where "r = Inr (W, x)"
  using assms by (cases r) (auto simp: fst_in_transaction)

lemma insert_entry_tables:
  "insert_entry i e V = Inr V' \<Longrightarrow>
     va_grants V' = va_grants V \<and> va_signup V' = va_signup V \<and> va_existing V' = va_existing V \<and>
     va_ingest V' = va_ingest V"
  by (auto simp: insert_entry_Inr)

lemma delete_entries_tables [simp]:
  "va_grants (delete_entries P V) = va_grants V" "va_signup (delete_entries P V) = va_signup V"
  "va_existing (delete_entries P V) = va_existing V" "va_ingest (delete_entries P V) = va_ingest V"
  by (simp_all add: delete_entries_def)

text \<open>What the calls leave alone: the calls on entries change no other table.\<close>

fun touches_grants :: "vault_call \<Rightarrow> bool" where
  "touches_grants (Reserve now b ttl) = True"
| "touches_grants (Redeem now g ref b) = True"
| "touches_grants (Capture n i now g b v) = True"
| "touches_grants _ = False"

fun touches_claims :: "vault_call \<Rightarrow> bool" where
  "touches_claims (Begin_Claim ids n t now m run app cs lease) = True"
| "touches_claims (Complete_Claim m run t) = True"
| "touches_claims (Release_Claim now m run t) = True"
| "touches_claims _ = False"

fun touches_signup :: "vault_call \<Rightarrow> bool" where
  "touches_signup (Stage_Signup n app acc run e p) = True"
| "touches_signup (Release_Signup app acc run) = True"
| "touches_signup (Promote_Signup i now app acc run) = True"
| "touches_signup _ = False"

definition tables :: "vault \<Rightarrow> (string \<rightharpoonup> grant_row) \<times> (string \<times> staged_login) list \<times> (string \<rightharpoonup> ingestion_row)" where
  "tables V = (va_grants V, va_signup V, va_ingest V)"

lemma tables_updates [simp]:
  "tables (V\<lparr>va_entries := x\<rparr>) = tables V" "tables (V\<lparr>va_existing := y\<rparr>) = tables V"
  "tables (delete_entries P V) = tables V"
  by (simp_all add: tables_def)

lemma insert_entry_same [dest]: "insert_entry i e V = Inr V' \<Longrightarrow> tables V' = tables V"
  by (auto simp: insert_entry_Inr)

lemma replace_pair_same [dest]:
  "replace_account_login_pair ids now V app acc ec pc = Inr V' \<Longrightarrow> tables V' = tables V"
  by (simp add: tables_def replace_pair_grants)

lemma entry_calls_same_tables:
  "\<not> touches_grants c \<Longrightarrow> \<not> touches_claims c \<Longrightarrow> \<not> touches_signup c \<Longrightarrow>
     tables (vault_step K c V) = tables V"
proof (cases c)
  case (Put n i now app kind v)
  show ?thesis
    unfolding Put vault_step.simps put_secret_def
    by (rule in_transaction_field) (auto simp: result_simps split: if_splits)
next
  case (Put_Transient n i now app kind scope v ttl)
  show ?thesis
    unfolding Put_Transient vault_step.simps put_transient_def
    by (rule in_transaction_field) (auto simp: result_simps split: if_splits)
next
  case (Consume now ref app kind scope)
  show ?thesis
    unfolding Consume vault_step.simps consume_transient_def transient_error_def
    by (rule in_transaction_field) (auto simp: result_simps split: if_splits option.splits)
next
  case (Drop_Transient ref app kind scope)
  show ?thesis
    unfolding Drop_Transient vault_step.simps delete_transient_def transient_error_def
    by (rule in_transaction_field) (auto simp: result_simps split: if_splits option.splits)
next
  case (Retire ref st)
  show ?thesis
    unfolding Retire vault_step.simps set_credential_status_def
    by (rule in_transaction_field) (auto simp: result_simps split: if_splits option.splits)
next
  case (Delete ref)
  show ?thesis
    unfolding Delete vault_step.simps delete_secret_def
    by (rule in_transaction_field) (auto simp: result_simps split: if_splits option.splits)
next
  case (Put_Login n i now app acc f v)
  show ?thesis
    unfolding Put_Login vault_step.simps put_account_login_def
    by (rule in_transaction_field) (auto simp: result_simps split: if_splits)
next
  case (Put_Pair n i now app acc e p)
  show ?thesis
    unfolding Put_Pair vault_step.simps put_account_login_pair_def
    by (rule in_transaction_field) (auto simp: result_simps)
next
  case (Delete_Login app acc f)
  show ?thesis
    unfolding Delete_Login vault_step.simps delete_account_login_def
    by (rule in_transaction_field) (auto simp: result_simps split: if_splits)
next
  case (Stage_Existing n app acc run e p)
  show ?thesis
    unfolding Stage_Existing vault_step.simps stage_existing_login_pair_def
    by (rule in_transaction_field) (auto simp: result_simps Let_def split: if_splits option.splits)
next
  case (Promote_Existing i now app acc run)
  show ?thesis
    unfolding Promote_Existing vault_step.simps promote_staged_existing_login_pair_def
    by (rule in_transaction_field) (auto simp: result_simps split: option.splits)
qed simp_all

lemma begin_tables:
  "va_grants (fst (begin_gmail_message_ingestion K ids ns t now V m run app cs lease)) = va_grants V \<and>
   va_signup (fst (begin_gmail_message_ingestion K ids ns t now V m run app cs lease)) = va_signup V"
proof (cases "begin_gmail_message_ingestion K ids ns t now V m run app cs lease")
  case (Pair V' res)
  show ?thesis
  proof (cases res)
    case (Inl e)
    then show ?thesis
      using Pair by (auto simp: begin_gmail_message_ingestion_def in_transaction_Inl fst_in_transaction)
  next
    case (Inr c)
    with Pair have "begin_gmail_message_ingestion K ids ns t now V m run app cs lease = (V', Inr c)"
      by simp
    then show ?thesis
      by (cases rule: begin_cases)
        (auto simp: Pair claims_again_def claims_first_def dest: insert_credentials_grants)
  qed
qed

lemma complete_tables:
  "va_grants (fst (complete_gmail_message_ingestion K V m run t)) = va_grants V \<and>
   va_signup (fst (complete_gmail_message_ingestion K V m run t)) = va_signup V"
proof (cases "complete_gmail_message_ingestion K V m run t")
  case (Pair V' res)
  show ?thesis
  proof (cases res)
    case (Inl e)
    then show ?thesis
      using Pair by (auto simp: complete_gmail_message_ingestion_def in_transaction_Inl fst_in_transaction)
  next
    case (Inr v)
    with Pair have "complete_gmail_message_ingestion K V m run t = (V', Inr v)"
      by simp
    then show ?thesis
      by (cases rule: complete_cases) (simp_all add: Pair)
  qed
qed

lemma release_tables:
  "va_grants (fst (release_gmail_message_ingestion K now V m run t)) = va_grants V"
  "va_signup (fst (release_gmail_message_ingestion K now V m run t)) = va_signup V"
  unfolding release_gmail_message_ingestion_def
  by (rule in_transaction_field; auto simp: result_simps split: if_splits option.splits)+

lemma signup_tables:
  "touches_signup c \<Longrightarrow> va_grants (vault_step K c V) = va_grants V \<and> va_ingest (vault_step K c V) = va_ingest V"
proof (cases c)
  case (Stage_Signup n app acc run e p)
  show ?thesis
    unfolding Stage_Signup vault_step.simps stage_signup_login_pair_def
    by (rule conjI; rule in_transaction_field; auto simp: result_simps Let_def split: if_splits option.splits)
next
  case (Release_Signup app acc run)
  show ?thesis
    unfolding Release_Signup vault_step.simps release_staged_signup_login_pair_def
    by (auto split: option.splits)
next
  case (Promote_Signup i now app acc run)
  show ?thesis
    unfolding Promote_Signup vault_step.simps promote_staged_signup_login_pair_def
    by (rule conjI; rule in_transaction_field; auto simp: result_simps split: option.splits dest!: replace_pair_grants)
qed simp_all

lemma grants_frame: "\<not> touches_grants c \<Longrightarrow> va_grants (vault_step K c V) = va_grants V"
  using entry_calls_same_tables [of c K V] signup_tables [of c K V] begin_tables complete_tables release_tables
  by (cases c) (simp_all add: tables_def)

lemma reserve_Inr:
  assumes "reserve_browser_secret_grant K now V b ttl = (V', Inr g)"
  obtains d row where "grant_digest K g = Inr d" "g = grant_token K b" "gr_binding row = b"
    "va_grants V d = Some row \<or> va_grants V d = None \<and> gr_status row = Grant_Reserved"
    "V' = V\<lparr>va_grants := (va_grants V)(d \<mapsto>
       (if gr_status row = Grant_Reserved then row\<lparr>gr_expires := now + ttl * second\<rparr> else row))\<rparr>"
proof -
  let ?new = "\<lparr>gr_binding = b, gr_status = Grant_Reserved, gr_result = None, gr_expires = now + ttl * second\<rparr>"
  obtain d where d: "grant_digest K (grant_token K b) = Inr d"
    and body: "(let row = (case va_grants V d of None \<Rightarrow> ?new | Some r \<Rightarrow> r)
            in if gr_binding row \<noteq> b
               then Inl (RuntimeError ''browser_secret_grant_binding_mismatch'')
               else if gr_status row = Grant_Revoked
               then Inl (RuntimeError ''browser_secret_grant_revoked'')
               else Inr (V\<lparr>va_grants := (va_grants V)(d \<mapsto>
                       (if gr_status row = Grant_Reserved then row\<lparr>gr_expires := now + ttl * second\<rparr> else row))\<rparr>,
                     grant_token K b)) = Inr (V', g)"
    using assms unfolding reserve_browser_secret_grant_def in_transaction_Inr
    by (auto simp: bindR_Inr_iff Let_def split: if_splits)
  show thesis
    by (rule that [of d "case va_grants V d of None \<Rightarrow> ?new | Some r \<Rightarrow> r"])
      (use d body in \<open>auto simp: Let_def split: if_splits option.splits\<close>)
qed

text \<open>A spent grant stays as it is, whatever is called.\<close>

lemma spent_step: "spent V d r \<Longrightarrow> spent (vault_step K c V) d r"
proof (cases "touches_grants c")
  case True
  assume s: "spent V d r"
  show ?thesis
  proof (cases c)
    case (Reserve now b ttl)
    obtain V' res where p: "reserve_browser_secret_grant K now V b ttl = (V', res)" by fastforce
    show ?thesis
    proof (cases res)
      case (Inr g)
      show ?thesis
        by (rule reserve_Inr [OF p [unfolded Inr]]) (use s in \<open>auto simp: Reserve p spent_def\<close>)
    qed (use p s in \<open>auto simp: Reserve reserve_browser_secret_grant_def in_transaction_Inl fst_in_transaction\<close>)
  next
    case (Redeem now g ref b)
    obtain V' res where p: "consume_transient_with_grant K now V g ref b = (V', res)" by fastforce
    show ?thesis
    proof (cases res)
      case (Inr v)
      show ?thesis
        by (rule redeem_Inr [OF p [unfolded Inr]]) (use s in \<open>auto simp: Redeem p spent_def\<close>)
    qed (use p s in \<open>auto simp: Redeem consume_transient_with_grant_def in_transaction_Inl fst_in_transaction\<close>)
  next
    case (Capture n i now g b v)
    obtain V' res where p: "capture_with_grant K n i now V g b v = (V', res)" by fastforce
    show ?thesis
    proof (cases res)
      case (Inr ref)
      show ?thesis
        by (rule capture_cases [OF p [unfolded Inr]])
          (use s in \<open>auto simp: Capture p spent_def dest: insert_entry_tables\<close>)
    qed (use p s in \<open>auto simp: Capture capture_with_grant_def in_transaction_Inl fst_in_transaction\<close>)
  qed (use True in simp_all)
qed (simp add: spent_def grants_frame)

lemma spent_run: "spent V d r \<Longrightarrow> spent (vault_run K cs V) d r"
  by (induction cs arbitrary: V) (simp_all add: spent_step)

fun redeems :: "vault_keys \<Rightarrow> string \<Rightarrow> vault_call \<Rightarrow> vault \<Rightarrow> nat" where
  "redeems K g (Redeem now g' ref b) V =
     (if g' = g \<and> returned (snd (consume_transient_with_grant K now V g' ref b)) then 1 else 0)"
| "redeems K g _ V = 0"

fun total_redeems :: "vault_keys \<Rightarrow> string \<Rightarrow> vault_call list \<Rightarrow> vault \<Rightarrow> nat" where
  "total_redeems K g [] V = 0"
| "total_redeems K g (c # cs) V = redeems K g c V + total_redeems K g cs (vault_step K c V)"

lemma redeems_spends:
  assumes "redeems K g c V \<noteq> 0"
  shows "redeems K g c V = 1 \<and> (\<exists>d r. grant_digest K g = Inr d \<and> \<not> spent V d r \<and>
    (\<forall>r'. \<not> spent V d r') \<and> spent (vault_step K c V) d r)"
proof (cases c)
  case (Redeem now g' ref b)
  then obtain V' v where r: "consume_transient_with_grant K now V g ref b = (V', Inr v)" "g' = g"
    using assms by (cases "consume_transient_with_grant K now V g' ref b") (auto simp: returned_iff split: if_splits)
  show ?thesis
    by (rule redeem_Inr [OF r(1)]) (use r Redeem in \<open>auto simp: spent_def\<close>)
qed (use assms in auto)

text \<open>C27. A grant is spent once. Over any calls a consume grant is redeemed at most once, and not
  at all after it was; a capture that succeeded fixes its reference: whatever is called in
  between, a later capture under the same grant either fails or returns that reference and
  writes nothing.\<close>

theorem grant_spent_once:
  "total_redeems K g cs V \<le> 1 \<and>
   (\<forall>n i now b v V1 ref n' i' now' b' v' V2 ref'.
      capture_with_grant K n i now V g b v = (V1, Inr ref) \<longrightarrow>
      capture_with_grant K n' i' now' (vault_run K cs V1) g b' v' = (V2, Inr ref') \<longrightarrow>
      ref' = ref \<and> V2 = vault_run K cs V1)"
proof
  have zero: "spent V d r \<Longrightarrow> grant_digest K g = Inr d \<Longrightarrow> total_redeems K g cs V = 0" for d r V cs
  proof (induction cs arbitrary: V)
    case (Cons c cs)
    have "redeems K g c V = 0"
      using redeems_spends [of K g c V] Cons.prems by fastforce
    then show ?case
      using Cons.IH [OF spent_step [OF Cons.prems(1)] Cons.prems(2)] by simp
  qed simp
  show "total_redeems K g cs V \<le> 1"
  proof (induction cs arbitrary: V)
    case (Cons c cs)
    show ?case
    proof (cases "redeems K g c V = 0")
      case False
      then obtain d r where "grant_digest K g = Inr d" "spent (vault_step K c V) d r"
        using redeems_spends by blast
      then show ?thesis
        using zero redeems_spends [OF False] by simp
    qed (use Cons in simp)
  qed simp
next
  show "\<forall>n i now b v V1 ref n' i' now' b' v' V2 ref'.
      capture_with_grant K n i now V g b v = (V1, Inr ref) \<longrightarrow>
      capture_with_grant K n' i' now' (vault_run K cs V1) g b' v' = (V2, Inr ref') \<longrightarrow>
      ref' = ref \<and> V2 = vault_run K cs V1"
  proof (intro allI impI)
    fix n i now b v V1 ref n' i' now' b' v' V2 ref'
    assume first: "capture_with_grant K n i now V g b v = (V1, Inr ref)"
      and later: "capture_with_grant K n' i' now' (vault_run K cs V1) g b' v' = (V2, Inr ref')"
    obtain d r where d: "grant_digest K g = Inr d" "spent V1 d r" "gr_result r = Some ref"
      using first by (cases rule: capture_cases) (auto simp: spent_def)
    have "spent (vault_run K cs V1) d r"
      by (rule spent_run [OF d(2)])
    with later show "ref' = ref \<and> V2 = vault_run K cs V1"
      by (cases rule: capture_cases) (use d in \<open>auto simp: spent_def\<close>)
  qed
qed

section \<open>Retired secrets\<close>

lemma run_evolves: "evolves (\<Union>c\<in>set cs. draws c) V (vault_run K cs V)"
proof (induction cs arbitrary: V)
  case (Cons c cs)
  show ?case
    by (simp, rule evolves_trans [OF evolves_mono [OF step_evolves] evolves_mono [OF Cons.IH]]) auto
qed simp

text \<open>Retiring a secret is final: the row keeps its content under the new status, and whatever
  is called afterwards, as long as no new row is stored under its identifier, its reference never
  resolves again.\<close>

theorem retired_secret_never_resolves:
  assumes "set_credential_status V ref st = (V1, Inr st')" "keyed V"
    and "\<forall>c\<in>set cs. \<forall>i\<in>draws c. \<not> names_ident ref i"
  shows "(\<exists>p e. parse_vault_reference ref = Inr p \<and> row_of V (vr_identifier p) = Some e \<and>
      row_of V1 (vr_identifier p) = Some (e\<lparr>en_status := st\<rparr>)) \<and>
    get_secret K (vault_run K cs V1) ref \<noteq> Inr v"
proof -
  obtain p e where p: "parse_vault_reference ref = Inr p" and e: "row_of V (vr_identifier p) = Some e"
    "st \<noteq> Cred_Active" and V1: "V1 = V\<lparr>va_entries := map (\<lambda>(i, e'). if i = vr_identifier p then (i, e'\<lparr>en_status := st\<rparr>)
       else (i, e')) (va_entries V)\<rparr>" and act: "en_status e \<in> {Cred_Active, st}"
    using assms(1) unfolding set_credential_status_def in_transaction_Inr
    by (auto simp: bindR_Inr_iff entry_at_row split: if_splits option.splits)
  have row: "row_of V1 (vr_identifier p) = Some (e\<lparr>en_status := st\<rparr>)"
    using e by (simp add: V1 row_of_def map_of_retire)
  have k: "keyed V1"
    using evolves_retire [OF e(1) act, of "{}"] assms(2) by (simp add: V1 evolves_def)
  have "vr_identifier p \<notin> (\<Union>c\<in>set cs. draws c)"
    using assms(3) p by (auto simp: names_ident_def)
  then have "row_of (vault_run K cs V1) (vr_identifier p) = Some e' \<Longrightarrow> en_status e' = st" for e'
    using run_evolves [of cs V1 K] k row e(2) by (fastforce simp: evolves_def row_kept_def)
  then have "get_secret K (vault_run K cs V1) ref \<noteq> Inr v"
    using p e(2) by (auto simp: get_secret_def bindR_Inr_iff entry_at_row split: option.splits if_splits)
  then show ?thesis
    using p e row by blast
qed

section \<open>Witnesses\<close>

definition plain_keys :: vault_keys where
  "plain_keys = \<lparr>ck_enc = (\<lambda>_ v. v), ck_dec = Some, ck_token = (\<lambda>_. replicate 43 (CHR ''a'')), ck_sha = (\<lambda>s. s)\<rparr>"

definition otp_binding :: grant_binding where
  "otp_binding = \<lparr>gb_operation = ''op'', gb_run = ''r1'', gb_session = ''s1'', gb_app = ''app'',
     gb_kind = ''otp'', gb_action = Consume_Action, gb_reference = Some ''vault://app/otp/x1''\<rparr>"

definition otp_calls :: "vault_call list" where
  "otp_calls = [Put_Transient 0 ''x1'' 0 ''app'' ''otp'' ''r1'' ''4821'' 60, Reserve 0 otp_binding 60,
     Redeem 1 (grant_token plain_keys otp_binding) ''vault://app/otp/x1'' otp_binding,
     Redeem 2 (grant_token plain_keys otp_binding) ''vault://app/otp/x1'' otp_binding,
     Consume 3 ''vault://app/otp/x1'' ''app'' ''otp'' ''r1'']"

lemma one_time_secret_read_once_witness:
  "total_reads plain_keys ''x1'' otp_calls empty_vault = 1"
proof -
  have "total_reads plain_keys ''x1'' otp_calls empty_vault \<noteq> 0"
    "(if ''x1'' \<in> idents empty_vault then 1 else 0) + drawn ''x1'' otp_calls = 1"
    by code_simp+
  then show ?thesis
    using one_time_secret_read_once [of plain_keys "''x1''" otp_calls empty_vault] by linarith
qed

lemma grant_spent_once_witness:
  "total_redeems plain_keys (grant_token plain_keys otp_binding) otp_calls empty_vault = 1"
proof -
  have "total_redeems plain_keys (grant_token plain_keys otp_binding) otp_calls empty_vault \<noteq> 0"
    by code_simp
  then show ?thesis
    using grant_spent_once [of plain_keys "grant_token plain_keys otp_binding" otp_calls empty_vault] by linarith
qed

lemma one_time_secret_bound_witness:
  "\<exists>e. row_of (vault_run plain_keys (take 2 otp_calls) empty_vault) ''x1'' = Some e \<and> en_one_time e"
proof -
  let ?V = "vault_run plain_keys (take 2 otp_calls) empty_vault"
  have "snd (consume_transient plain_keys 3 ?V ''vault://app/otp/x1'' ''app'' ''otp'' ''r1'') = Inr ''4821''"
    by code_simp
  then obtain V' where c: "consume_transient plain_keys 3 ?V ''vault://app/otp/x1'' ''app'' ''otp'' ''r1'' = (V', Inr ''4821'')"
    by (metis prod.collapse)
  have p: "parse_vault_reference ''vault://app/otp/x1'' = Inr \<lparr>vr_app = ''app'', vr_kind = ''otp'', vr_identifier = ''x1''\<rparr>"
    by code_simp
  show ?thesis
    using c p one_time_secret_bound [of plain_keys 3 ?V "''vault://app/otp/x1''" "''app''" "''otp''" "''r1''" "[]" otp_binding]
    by auto
qed

definition stored_vault :: vault where
  "stored_vault = vault_run plain_keys [Put 0 ''k1'' 0 ''app'' ''api_key'' ''secret''] empty_vault"

lemma retired_secret_never_resolves_witness:
  "get_secret plain_keys (vault_run plain_keys otp_calls
     (fst (set_credential_status stored_vault ''vault://app/api_key/k1'' Cred_Superseded))) ''vault://app/api_key/k1''
   \<noteq> Inr ''secret''"
proof -
  obtain V1 where V1: "set_credential_status stored_vault ''vault://app/api_key/k1'' Cred_Superseded = (V1, Inr Cred_Superseded)"
  proof -
    have "snd (set_credential_status stored_vault ''vault://app/api_key/k1'' Cred_Superseded) = Inr Cred_Superseded"
      by code_simp
    then show thesis using that by (metis prod.collapse)
  qed
  have k: "keyed stored_vault"
    unfolding keyed_def by code_simp
  have n: "\<not> names_ident ''vault://app/api_key/k1'' ''x1''"
    by code_simp
  show ?thesis
    using retired_secret_never_resolves [OF V1 k, of otp_calls plain_keys "''secret''"] n
    by (simp add: V1 otp_calls_def)
qed

end
