(* ===== verification/Vault_Logins.thy ===== *)
theory Vault_Logins
  imports Vault_Grants
begin

text \<open>
  The reusable logins of the vault as a map from accounts to whole pairs, which every call
  either leaves alone or updates at one account, and the staging table of signup identities,
  where an identity has one owner and a promoted one keeps it.
\<close>

section \<open>Logins as a map\<close>

definition is_login :: "vault_entry \<Rightarrow> bool" where
  "is_login e = (en_account e \<noteq> None \<and> en_kind e \<in> {email_login_kind, password_login_kind} \<and> \<not> en_one_time e)"

definition login_view :: "vault \<Rightarrow> (string \<times> string option \<times> string \<times> string) list" where
  "login_view V = map (\<lambda>(i, e). (en_app e, en_account e, en_kind e, en_cipher e))
     (filter (\<lambda>(i, e). is_login e) (va_entries V))"

definition view_cipher ::
    "(string \<times> string option \<times> string \<times> string) list \<Rightarrow> string \<Rightarrow> string \<Rightarrow> string \<Rightarrow> string option" where
  "view_cipher L app acc kind =
     (case rev (filter (\<lambda>(a, b, k, c). a = app \<and> b = Some acc \<and> k = kind) L) of
        [] \<Rightarrow> None | (_, _, _, c) # _ \<Rightarrow> Some c)"

lemma login_cipher_view:
  assumes "kind \<in> {email_login_kind, password_login_kind}"
  shows "login_cipher V app acc kind = view_cipher (login_view V) app acc kind"
proof -
  have "filter (\<lambda>(a, b, k, c). a = app \<and> b = Some acc \<and> k = kind) (login_view V) =
      map (\<lambda>(i, e). (en_app e, en_account e, en_kind e, en_cipher e))
        (select_entries (\<lambda>_ e. login_row app acc e \<and> \<not> en_one_time e \<and> en_kind e = kind) V)"
  proof -
    have "filter (\<lambda>(a, b, k, c). a = app \<and> b = Some acc \<and> k = kind)
        (map (\<lambda>(i, e). (en_app e, en_account e, en_kind e, en_cipher e)) (filter (\<lambda>(i, e). is_login e) xs)) =
      map (\<lambda>(i, e). (en_app e, en_account e, en_kind e, en_cipher e))
        (filter (\<lambda>(i, e). login_row app acc e \<and> \<not> en_one_time e \<and> en_kind e = kind) xs)" for xs
      using assms by (induction xs) (auto simp: is_login_def login_row_def)
    then show ?thesis by (simp add: login_view_def select_entries_def)
  qed
  then show ?thesis
    by (simp add: login_cipher_def view_cipher_def rev_map split: list.splits prod.splits)
qed

definition logins :: "vault_keys \<Rightarrow> vault \<Rightarrow> string \<times> string \<Rightarrow> (string \<times> string) option" where
  "logins K V = (\<lambda>(app, acc). get_account_login_pair K V app acc)"

lemma logins_view: "login_view V' = login_view V \<Longrightarrow> logins K V' = logins K V"
  by (auto simp: logins_def fun_eq_iff get_account_login_pair_def login_cipher_view)

lemma login_view_updates [simp]:
  "login_view (V\<lparr>va_grants := g\<rparr>) = login_view V" "login_view (V\<lparr>va_signup := s\<rparr>) = login_view V"
  "login_view (V\<lparr>va_existing := x\<rparr>) = login_view V" "login_view (V\<lparr>va_ingest := n\<rparr>) = login_view V"
  by (simp_all add: login_view_def)

lemma login_view_insert:
  "insert_entry i e V = Inr V' \<Longrightarrow> login_view V' = login_view V @
     (if is_login e then [(en_app e, en_account e, en_kind e, en_cipher e)] else [])"
  by (auto simp: insert_entry_Inr login_view_def)

lemma login_view_insert_other [dest]:
  "insert_entry i e V = Inr V' \<Longrightarrow> \<not> is_login e \<Longrightarrow> login_view V' = login_view V"
  by (simp add: login_view_insert)

lemma not_login [simp]:
  "\<not> is_login (durable_entry app kind c None now)"
  "\<not> is_login (e\<lparr>en_scope := s, en_expires := x, en_one_time := True\<rparr>)"
  by (simp_all add: is_login_def durable_entry_def)

lemma login_view_delete_transient:
  assumes "keyed V" "entry_at V i app kind = Some e" "en_one_time e"
  shows "login_view (delete_entries (\<lambda>j _. j = i) V) = login_view V"
proof -
  have "en_one_time e'" if "(i, e') \<in> set (va_entries V)" for e'
    using that assms by (auto simp: entry_at_row row_of_def keyed_def)
  then have "filter (\<lambda>(i, e). is_login e) (filter (\<lambda>(j, e). j \<noteq> i) (va_entries V)) =
      filter (\<lambda>(i, e). is_login e) (va_entries V)"
    by (auto simp: is_login_def intro!: filter_cong)
  then show ?thesis
    by (simp add: login_view_def delete_entries_def)
qed

lemma login_view_retire:
  "login_view (V\<lparr>va_entries := map (\<lambda>(i, e'). if i = x then (i, e'\<lparr>en_status := st\<rparr>) else (i, e'))
     (va_entries V)\<rparr>) = login_view V"
proof -
  have "map (\<lambda>(i, e). (en_app e, en_account e, en_kind e, en_cipher e)) (filter (\<lambda>(i, e). is_login e)
      (map (\<lambda>(i, e'). if i = x then (i, e'\<lparr>en_status := st\<rparr>) else (i, e')) xs)) =
    map (\<lambda>(i, e). (en_app e, en_account e, en_kind e, en_cipher e)) (filter (\<lambda>(i, e). is_login e) xs)"
    for xs :: "(string \<times> vault_entry) list"
    by (induction xs) (auto simp: is_login_def split: if_splits)
  then show ?thesis by (simp add: login_view_def)
qed

lemma login_view_credentials:
  assumes "insert_email_credentials K ids ns now app seen counts refs V cs = Inr (V', refs')"
  shows "login_view V' = login_view V"
proof -
  from insert_credentials_Inr [OF assms] obtain new where
    "va_entries V' = va_entries V @ new" "\<forall>(i, e)\<in>set new. en_account e = None" by fast
  then show ?thesis
    by (auto simp: login_view_def is_login_def filter_empty_conv)
qed

text \<open>A pair replaced is the pair read, and no other account moves.\<close>

abbreviation other_rows :: "string \<Rightarrow> string \<Rightarrow> (string \<times> string option \<times> string \<times> string) list \<Rightarrow>
    (string \<times> string option \<times> string \<times> string) list" where
  "other_rows app acc \<equiv> filter (\<lambda>(a, b, k, c). \<not> (a = app \<and> b = Some acc))"

lemma replace_pair_view:
  assumes r: "replace_account_login_pair ids now V app acc ec pc = Inr V'"
  shows "login_view V' = other_rows app acc (login_view V) @
    [(app, Some acc, email_login_kind, ec), (app, Some acc, password_login_kind, pc)]"
proof -
  let ?rest = "other_rows app acc (login_view V)"
  have rest: "login_view (delete_entries (\<lambda>_ e. login_row app acc e) V) = ?rest"
  proof -
    have "map (\<lambda>(i, e). (en_app e, en_account e, en_kind e, en_cipher e)) (filter (\<lambda>(i, e). is_login e)
        (filter (\<lambda>(i, e). \<not> login_row app acc e) xs)) =
      filter (\<lambda>(a, b, k, c). \<not> (a = app \<and> b = Some acc))
        (map (\<lambda>(i, e). (en_app e, en_account e, en_kind e, en_cipher e)) (filter (\<lambda>(i, e). is_login e) xs))"
      for xs
      by (induction xs) (auto simp: is_login_def login_row_def)
    then show ?thesis by (simp add: login_view_def delete_entries_def)
  qed
  obtain W where W: "insert_entry (fst ids) (durable_entry app email_login_kind ec (Some acc) now)
      (delete_entries (\<lambda>_ e. login_row app acc e) V) = Inr W"
    "insert_entry (snd ids) (durable_entry app password_login_kind pc (Some acc) now) W = Inr V'"
    using r by (auto simp: replace_account_login_pair_def result_simps)
  show ?thesis
    using login_view_insert [OF W(1)] login_view_insert [OF W(2)] rest
    by (simp add: is_login_def durable_entry_def)
qed

lemma logins_replace_pair:
  assumes r: "replace_account_login_pair ids now V app acc ec pc = Inr V'"
    and ok: "app_slug_ok app" "account_ref_ok acc"
  shows "logins K V' = (logins K V)((app, acc) := decrypt_pair K ec pc)"
proof
  let ?rest = "other_rows app acc (login_view V)"
  note view = replace_pair_view [OF r]
  have kinds: "email_login_kind \<noteq> password_login_kind"
    by (simp add: email_login_kind_def password_login_kind_def)
  fix q :: "string \<times> string"
  obtain a b where q: "q = (a, b)" by fastforce
  show "logins K V' q = ((logins K V)((app, acc) := decrypt_pair K ec pc)) q"
  proof (cases "q = (app, acc)")
    case True
    then show ?thesis
      using ok kinds by (simp add: logins_def get_account_login_pair_def login_cipher_view view view_cipher_def)
  next
    case False
    have "view_cipher (login_view V') a b k = view_cipher (login_view V) a b k" for k
    proof -
      have "filter (\<lambda>(a', b', k', c). a' = a \<and> b' = Some b \<and> k' = k) ?rest =
          filter (\<lambda>(a', b', k', c). a' = a \<and> b' = Some b \<and> k' = k) (login_view V)"
        using False q by (auto intro!: filter_cong)
      then show ?thesis
        using False q by (auto simp: view view_cipher_def)
    qed
    then have "get_account_login_pair K V' a b = get_account_login_pair K V a b"
      by (simp add: get_account_login_pair_def login_cipher_view)
    then show ?thesis
      using False q by (auto simp: logins_def)
  qed
qed

text \<open>The update of the map a call stands for: the account it writes and what it has there after. A
  call that writes or deletes one row of a pair leaves its account with the pair the two rows
  make, or with none.\<close>

definition login_field :: "vault_keys \<Rightarrow> vault \<Rightarrow> string \<Rightarrow> string \<Rightarrow> string \<Rightarrow> string option" where
  "login_field K V app acc kind = Option.bind (login_cipher V app acc kind) (ck_dec K)"

definition pair_of :: "'a option \<Rightarrow> 'b option \<Rightarrow> ('a \<times> 'b) option" where
  "pair_of x y = Option.bind x (\<lambda>a. map_option (Pair a) y)"

fun login_update :: "vault_keys \<Rightarrow> vault_call \<Rightarrow> vault \<Rightarrow> ((string \<times> string) \<times> (string \<times> string) option) option" where
  "login_update K (Put_Pair n i now app acc e p) V =
     (if returned (snd (put_account_login_pair K n i now V app acc e p)) then Some ((app, acc), Some (e, p)) else None)"
| "login_update K (Promote_Existing i now app acc run) V =
     (if returned (snd (promote_staged_existing_login_pair i now V app acc run)) \<and>
         staged_existing V app acc run \<noteq> None
      then Some ((app, acc), get_staged_existing_login_pair K V app acc run) else None)"
| "login_update K (Promote_Signup i now app acc run) V =
     (if returned (snd (promote_staged_signup_login_pair i now V app acc run))
      then Some ((app, acc), get_staged_signup_login_pair K V app acc run) else None)"
| "login_update K (Put_Login n i now app acc f v) V =
     (if returned (snd (put_account_login K n i now V app acc f v))
      then Some ((app, acc),
        if f = ''login_email'' then pair_of (Some v) (login_field K V app acc password_login_kind)
        else pair_of (login_field K V app acc email_login_kind) (Some v)) else None)"
| "login_update K (Delete_Login app acc f) V =
     (if returned (snd (delete_account_login V app acc f)) then Some ((app, acc), None) else None)"
| "login_update K (Delete ref) V =
     (if returned (snd (delete_secret V ref))
      then case parse_vault_reference ref of
          Inr r \<Rightarrow> (case map_of (va_entries V) (vr_identifier r) of
              Some e \<Rightarrow> if is_login e then Some ((en_app e, the (en_account e)), None) else None
            | None \<Rightarrow> None)
        | Inl _ \<Rightarrow> None
      else None)"
| "login_update K _ V = None"

fun writes_field :: "vault_call \<Rightarrow> bool" where
  "writes_field (Put_Login n i now app acc f v) = True"
| "writes_field (Delete_Login app acc f) = True"
| "writes_field (Delete ref) = True"
| "writes_field _ = False"

lemma validate_login_pair_ok:
  "validate_login_pair app acc (Some run) e p = Inr u \<Longrightarrow> app_slug_ok app \<and> account_ref_ok acc \<and> account_ref_ok run"
  "validate_login_pair app acc None e p = Inr u \<Longrightarrow> app_slug_ok app \<and> account_ref_ok acc"
  by (auto simp: validate_login_pair_def split: if_splits)

lemma put_pair_logins:
  assumes "\<And>n v. ck_dec K (ck_enc K n v) = Some v"
  shows "logins K (fst (put_account_login_pair K n i now V app acc e p)) =
     (if returned (snd (put_account_login_pair K n i now V app acc e p))
      then (logins K V)((app, acc) := Some (e, p)) else logins K V)"
proof (cases "put_account_login_pair K n i now V app acc e p")
  case (Pair V' res)
  show ?thesis
  proof (cases res)
    case (Inl x)
    then have "V' = V" using Pair by (simp add: put_account_login_pair_def in_transaction_Inl)
    then show ?thesis by (simp add: Pair Inl returned_iff)
  next
    case (Inr x)
    then have "replace_account_login_pair i now V app acc (ck_enc K (fst n) e) (ck_enc K (snd n) p) = Inr V'"
      "app_slug_ok app \<and> account_ref_ok acc"
      using Pair by (auto simp: put_account_login_pair_def in_transaction_Inr bindR_Inr_iff dest: validate_login_pair_ok)
    from logins_replace_pair [OF this(1), of K] this(2) show ?thesis
      by (simp add: Pair Inr returned_iff decrypt_pair_def assms)
  qed
qed

lemma promote_existing_logins:
  "logins K (fst (promote_staged_existing_login_pair i now V app acc run)) =
     (if returned (snd (promote_staged_existing_login_pair i now V app acc run)) \<and>
         staged_existing V app acc run \<noteq> None
      then (logins K V)((app, acc) := get_staged_existing_login_pair K V app acc run) else logins K V)"
proof (cases "promote_staged_existing_login_pair i now V app acc run")
  case (Pair V' res)
  show ?thesis
  proof (cases res)
    case (Inl x)
    then have "V' = V" using Pair by (simp add: promote_staged_existing_login_pair_def in_transaction_Inl)
    then show ?thesis by (simp add: Pair Inl returned_iff)
  next
    case (Inr x)
    have ok: "app_slug_ok app \<and> account_ref_ok acc \<and> account_ref_ok run"
      using Pair Inr by (auto simp: promote_staged_existing_login_pair_def in_transaction_Inr bindR_Inr_iff dest: validate_login_pair_ok)
    show ?thesis
    proof (cases "staged_existing V app acc run")
      case None
      then have "V' = V"
        using Pair Inr by (auto simp: promote_staged_existing_login_pair_def in_transaction_Inr bindR_Inr_iff)
      then show ?thesis by (simp add: Pair None)
    next
      case (Some s)
      then obtain W where W: "replace_account_login_pair i now V app acc (sl_email s) (sl_password s) = Inr W"
        "V' = W\<lparr>va_existing := (va_existing W)(run \<mapsto> s\<lparr>sl_promoted := True\<rparr>)\<rparr>"
        using Pair Inr by (auto simp: promote_staged_existing_login_pair_def in_transaction_Inr bindR_Inr_iff)
      have "logins K V' = logins K W"
        by (rule logins_view) (simp add: W(2))
      then show ?thesis
        using logins_replace_pair [OF W(1), of K] ok Some
        by (simp add: Pair Inr returned_iff get_staged_existing_login_pair_def)
    qed
  qed
qed

lemma promote_signup_logins:
  "logins K (fst (promote_staged_signup_login_pair i now V app acc run)) =
     (if returned (snd (promote_staged_signup_login_pair i now V app acc run))
      then (logins K V)((app, acc) := get_staged_signup_login_pair K V app acc run) else logins K V)"
proof (cases "promote_staged_signup_login_pair i now V app acc run")
  case (Pair V' res)
  show ?thesis
  proof (cases res)
    case (Inl x)
    then have "V' = V" using Pair by (simp add: promote_staged_signup_login_pair_def in_transaction_Inl)
    then show ?thesis by (simp add: Pair Inl returned_iff)
  next
    case (Inr x)
    have ok: "app_slug_ok app \<and> account_ref_ok acc \<and> account_ref_ok run"
      using Pair Inr by (auto simp: promote_staged_signup_login_pair_def in_transaction_Inr bindR_Inr_iff dest: validate_login_pair_ok)
    obtain s W where s: "staged_signup V app acc run = Some s"
      and W: "replace_account_login_pair i now V app acc (sl_email s) (sl_password s) = Inr W"
      "V' = W\<lparr>va_signup := AList.update run (s\<lparr>sl_promoted := True\<rparr>) (va_signup W)\<rparr>"
      using Pair Inr by (auto simp: promote_staged_signup_login_pair_def in_transaction_Inr bindR_Inr_iff split: option.splits)
    have "logins K V' = logins K W"
      by (rule logins_view) (simp add: W(2))
    then show ?thesis
      using logins_replace_pair [OF W(1), of K] ok s
      by (simp add: Pair Inr returned_iff get_staged_signup_login_pair_def)
  qed
qed


fun replaces_pair :: "vault_call \<Rightarrow> bool" where
  "replaces_pair (Put_Pair n i now app acc e p) = True"
| "replaces_pair (Promote_Existing i now app acc run) = True"
| "replaces_pair (Promote_Signup i now app acc run) = True"
| "replaces_pair _ = False"

lemma login_view_frame: "keyed V \<Longrightarrow> \<not> writes_field c \<Longrightarrow> \<not> replaces_pair c \<Longrightarrow>
    login_view (vault_step K c V) = login_view V"
proof (cases c)
  case (Put n i now app kind v)
  show ?thesis
    unfolding Put vault_step.simps put_secret_def
    by (rule in_transaction_field) (auto simp: result_simps split: if_splits)
next
  case (Put_Transient n i now app kind scope v ttl)
  show ?thesis
    unfolding Put_Transient vault_step.simps put_transient_def
    by (rule in_transaction_field) (auto simp: result_simps split: if_splits)
next
  case (Consume now ref app kind scope)
  assume k: "keyed V"
  show ?thesis
    unfolding Consume vault_step.simps consume_transient_def transient_error_def
    by (rule in_transaction_field)
      (auto simp: result_simps login_view_delete_transient [OF k] split: if_splits option.splits)
next
  case (Drop_Transient ref app kind scope)
  assume k: "keyed V"
  show ?thesis
    unfolding Drop_Transient vault_step.simps delete_transient_def transient_error_def
    by (rule in_transaction_field)
      (auto simp: result_simps login_view_delete_transient [OF k] split: if_splits option.splits)
next
  case (Reserve now b ttl)
  show ?thesis
    unfolding Reserve vault_step.simps reserve_browser_secret_grant_def
    by (rule in_transaction_field) (auto simp: result_simps Let_def split: if_splits option.splits)
next
  case (Redeem now g ref b)
  assume k: "keyed V"
  obtain V' res where p: "consume_transient_with_grant K now V g ref b = (V', res)" by fastforce
  show ?thesis
  proof (cases res)
    case (Inl e)
    then have "V' = V" using p by (simp add: consume_transient_with_grant_def in_transaction_Inl)
    then show ?thesis by (simp add: p Redeem Inl)
  next
    case (Inr v)
    show ?thesis
      by (rule redeem_Inr [OF p [unfolded Inr]]) (auto simp: Redeem p login_view_delete_transient [OF k])
  qed
next
  case (Capture n i now g b v)
  obtain V' res where p: "capture_with_grant K n i now V g b v = (V', res)" by fastforce
  show ?thesis
  proof (cases res)
    case (Inl e)
    then have "V' = V" using p by (simp add: capture_with_grant_def in_transaction_Inl)
    then show ?thesis by (simp add: p Capture Inl)
  next
    case (Inr ref)
    show ?thesis
      by (rule capture_cases [OF p [unfolded Inr]]) (auto simp: Capture p)
  qed
next
  case (Retire ref st)
  show ?thesis
    unfolding Retire vault_step.simps set_credential_status_def
    by (rule in_transaction_field) (auto simp: result_simps login_view_retire split: if_splits option.splits)
next
  case (Stage_Existing n app acc run e p)
  show ?thesis
    unfolding Stage_Existing vault_step.simps stage_existing_login_pair_def
    by (rule in_transaction_field) (auto simp: result_simps Let_def split: if_splits option.splits)
next
  case (Stage_Signup n app acc run e p)
  show ?thesis
    unfolding Stage_Signup vault_step.simps stage_signup_login_pair_def
    by (rule in_transaction_field) (auto simp: result_simps Let_def split: if_splits option.splits)
next
  case (Release_Signup app acc run)
  then show ?thesis
    by (auto simp: release_staged_signup_login_pair_def split: option.splits)
next
  case (Begin_Claim ids ns t now m run app cs lease)
  obtain V' res where p: "begin_gmail_message_ingestion K ids ns t now V m run app cs lease = (V', res)" by fastforce
  show ?thesis
  proof (cases res)
    case (Inl e)
    then have "V' = V" using p by (simp add: begin_gmail_message_ingestion_def in_transaction_Inl)
    then show ?thesis by (simp add: p Begin_Claim Inl)
  next
    case (Inr c)
    show ?thesis
      using p [unfolded Inr]
      by (cases rule: begin_cases)
        (auto simp: Begin_Claim p claims_again_def claims_first_def dest: login_view_credentials)
  qed
next
  case (Complete_Claim m run t)
  obtain V' res where p: "complete_gmail_message_ingestion K V m run t = (V', res)" by fastforce
  show ?thesis
  proof (cases res)
    case (Inl e)
    then have "V' = V" using p by (simp add: complete_gmail_message_ingestion_def in_transaction_Inl)
    then show ?thesis by (simp add: p Complete_Claim Inl)
  next
    case (Inr ok)
    show ?thesis
      using p [unfolded Inr] by (cases rule: complete_cases) (auto simp: Complete_Claim p)
  qed
next
  case (Release_Claim now m run t)
  show ?thesis
    unfolding Release_Claim vault_step.simps release_gmail_message_ingestion_def
    by (rule in_transaction_field) (auto simp: result_simps Let_def split: if_splits option.splits)
qed auto

text \<open>A login has one row of each kind, in every state the calls reach.\<close>

definition single_rows :: "vault \<Rightarrow> bool" where
  "single_rows V = distinct (map (\<lambda>(a, b, k, c). (a, b, k)) (login_view V))"

abbreviation other_kinds :: "string \<Rightarrow> string \<Rightarrow> string \<Rightarrow> (string \<times> string option \<times> string \<times> string) list \<Rightarrow>
    (string \<times> string option \<times> string \<times> string) list" where
  "other_kinds app acc kind \<equiv> filter (\<lambda>(a, b, k, c). \<not> (a = app \<and> b = Some acc \<and> k = kind))"

lemma login_view_delete_kind:
  "login_view (delete_entries (\<lambda>_ e. en_app e = app \<and> en_kind e = kind \<and> en_account e = Some acc) V) =
     other_kinds app acc kind (login_view V)"
proof -
  have "map (\<lambda>(i, e). (en_app e, en_account e, en_kind e, en_cipher e)) (filter (\<lambda>(i, e). is_login e)
      (filter (\<lambda>(i, e). \<not> (en_app e = app \<and> en_kind e = kind \<and> en_account e = Some acc)) xs)) =
    other_kinds app acc kind
      (map (\<lambda>(i, e). (en_app e, en_account e, en_kind e, en_cipher e)) (filter (\<lambda>(i, e). is_login e) xs))" for xs
    by (induction xs) auto
  then show ?thesis by (simp add: login_view_def delete_entries_def)
qed

lemma login_view_delete_row:
  assumes "keyed V" "single_rows V" "map_of (va_entries V) x = Some e"
  shows "login_view (delete_entries (\<lambda>i _. i = x) V) =
    (if is_login e then other_kinds (en_app e) (the (en_account e)) (en_kind e) (login_view V) else login_view V)"
proof -
  let ?L = "filter (\<lambda>(i, e). is_login e) (va_entries V)"
  let ?v = "\<lambda>(i, e). (en_app e, en_account e, en_kind e, en_cipher e)"
  have e: "(i, e') \<in> set ?L \<Longrightarrow> i = x \<longleftrightarrow> (i, e') = (x, e)" for i e'
    using assms(1) map_of_SomeD [OF assms(3)] by (auto simp: keyed_def dest: eq_key_imp_eq_value)
  have inj: "inj_on (\<lambda>(i, e). (en_app e, en_account e, en_kind e)) (set ?L)"
    using assms(2) by (simp add: single_rows_def login_view_def distinct_map case_prod_unfold comp_def)
  have view: "login_view (delete_entries (\<lambda>i _. i = x) V) = map ?v (filter (\<lambda>(i, _). i \<noteq> x) ?L)"
    by (simp add: login_view_def delete_entries_def conj_commute case_prod_unfold)
  show ?thesis
  proof (cases "is_login e")
    case False
    then have "filter (\<lambda>(i, _). i \<noteq> x) ?L = ?L"
      using e by (intro filter_True) auto
    then show ?thesis using False unfolding view by (simp add: login_view_def)
  next
    case True
    then have mem: "(x, e) \<in> set ?L" using map_of_SomeD [OF assms(3)] by simp
    have "i \<noteq> x \<longleftrightarrow> \<not> (en_app e' = en_app e \<and> en_account e' = Some (the (en_account e)) \<and> en_kind e' = en_kind e)"
      if "(i, e') \<in> set ?L" for i e'
    proof -
      obtain acc where acc: "en_account e = Some acc" using True by (auto simp: is_login_def)
      have 1: "i = x \<longrightarrow> e' = e" using e [OF that] by blast
      have "(i, e') = (x, e)"
        if same: "en_app e' = en_app e" "en_account e' = en_account e" "en_kind e' = en_kind e"
        by (rule inj_onD [OF inj _ \<open>(i, e') \<in> set ?L\<close> mem]) (simp only: prod.case same)
      then have 2: "i = x \<or> \<not> (en_app e' = en_app e \<and> en_account e' = en_account e \<and> en_kind e' = en_kind e)"
        by blast
      show ?thesis using 1 2 by (cases "i = x") (simp_all add: acc)
    qed
    then have "filter (\<lambda>(i, _). i \<noteq> x) ?L = filter (\<lambda>(i, e'). \<not> (en_app e' = en_app e \<and>
        en_account e' = Some (the (en_account e)) \<and> en_kind e' = en_kind e)) ?L"
      by (intro filter_cong) auto
    then show ?thesis
      using True unfolding view by (simp add: login_view_def filter_map comp_def case_prod_unfold)
  qed
qed

lemma replaced_view:
  assumes "replaces_pair c"
  shows "login_view (vault_step K c V) = login_view V \<or>
    (\<exists>app acc ec pc. login_view (vault_step K c V) = other_rows app acc (login_view V) @
      [(app, Some acc, email_login_kind, ec), (app, Some acc, password_login_kind, pc)])"
  using assms
proof (cases c)
  case (Put_Pair n i now app acc e p)
  show ?thesis
    unfolding Put_Pair vault_step.simps put_account_login_pair_def
    by (auto simp: fst_in_transaction result_simps dest: replace_pair_view split: sum.splits)
next
  case (Promote_Existing i now app acc run)
  show ?thesis
    unfolding Promote_Existing vault_step.simps promote_staged_existing_login_pair_def
    by (auto simp: fst_in_transaction result_simps dest: replace_pair_view split: sum.splits option.splits)
next
  case (Promote_Signup i now app acc run)
  show ?thesis
    unfolding Promote_Signup vault_step.simps promote_staged_signup_login_pair_def
    by (auto simp: fst_in_transaction result_simps dest: replace_pair_view split: sum.splits option.splits)
qed simp_all

lemma login_kinds [simp]:
  "email_login_kind \<noteq> password_login_kind" "password_login_kind \<noteq> email_login_kind"
  by (simp_all add: email_login_kind_def password_login_kind_def)

lemma account_login_kind_Inr:
  "account_login_kind f = Inr kind \<longleftrightarrow>
     f = ''login_email'' \<and> kind = email_login_kind \<or> f = ''login_password'' \<and> kind = password_login_kind"
  by (auto simp: account_login_kind_def reusable_login_fields_def email_login_kind_def password_login_kind_def)

text \<open>What a field writer leaves in the table.\<close>

lemma put_login_view:
  assumes "put_account_login K n i now V app acc f v = (V', Inr ref)"
  obtains kind where "account_login_kind f = Inr kind" "app_slug_ok app" "account_ref_ok acc"
    "login_view V' = other_kinds app acc kind (login_view V) @ [(app, Some acc, kind, ck_enc K n v)]"
proof -
  obtain kind where k: "account_login_kind f = Inr kind" "app_slug_ok app" "account_ref_ok acc"
    and ins: "insert_entry i (durable_entry app kind (ck_enc K n v) (Some acc) now)
      (delete_entries (\<lambda>_ e. en_app e = app \<and> en_kind e = kind \<and> en_account e = Some acc) V) = Inr V'"
    using assms by (auto simp: put_account_login_def in_transaction_Inr bindR_Inr_iff split: if_splits)
  have "is_login (durable_entry app kind (ck_enc K n v) (Some acc) now)"
    using k(1) by (auto simp: is_login_def durable_entry_def account_login_kind_Inr)
  then show thesis
    using that [OF k] login_view_insert [OF ins] by (simp add: login_view_delete_kind durable_entry_def)
qed

lemma delete_login_view:
  assumes "delete_account_login V app acc f = (V', Inr u)"
  obtains kind where "account_login_kind f = Inr kind" "app_slug_ok app" "account_ref_ok acc"
      "login_view V' = other_kinds app acc kind (login_view V)"
    | "V' = V" "\<not> (app_slug_ok app \<and> account_ref_ok acc)"
proof -
  obtain kind where k: "account_login_kind f = Inr kind"
    and V': "V' = (if \<not> app_slug_ok app \<or> \<not> account_ref_ok acc then V
      else delete_entries (\<lambda>_ e. en_app e = app \<and> en_kind e = kind \<and> en_account e = Some acc) V)"
    using assms by (auto simp: delete_account_login_def in_transaction_Inr bindR_Inr_iff split: if_splits)
  show thesis
    using that(1) [OF k] that(2) V' login_view_delete_kind by (cases "app_slug_ok app \<and> account_ref_ok acc") simp_all
qed

lemma delete_row_view:
  assumes "delete_secret V ref = (V', Inr u)" "keyed V" "single_rows V"
  obtains r e where "parse_vault_reference ref = Inr r" "map_of (va_entries V) (vr_identifier r) = Some e"
    "login_view V' =
      (if is_login e then other_kinds (en_app e) (the (en_account e)) (en_kind e) (login_view V) else login_view V)"
proof -
  obtain r e where r: "parse_vault_reference ref = Inr r" "map_of (va_entries V) (vr_identifier r) = Some e"
    "V' = delete_entries (\<lambda>i _. i = vr_identifier r) V"
    using assms(1)
    by (auto simp: delete_secret_def in_transaction_Inr bindR_Inr_iff entry_at_def split: option.splits if_splits)
  show thesis
    using that [OF r(1,2)] login_view_delete_row [OF assms(2,3) r(2)] r(3) by simp
qed

lemma single_step: "keyed V \<Longrightarrow> single_rows V \<Longrightarrow> single_rows (vault_step K c V)"
proof -
  assume k: "keyed V" and one: "single_rows V"
  have keeps: "distinct (map (\<lambda>(a, b, k, c). (a, b, k)) (filter P (login_view V)))" for P
    using one by (simp add: single_rows_def distinct_map_filter)
  have kind: "distinct (map (\<lambda>(a, b, k, c). (a, b, k)) (other_kinds app acc kd (login_view V) @ [(app, Some acc, kd, x)]))"
    for app acc kd x
    using keeps [of "\<lambda>(a, b, k, c). \<not> (a = app \<and> b = Some acc \<and> k = kd)"] by auto
  consider "replaces_pair c" | "writes_field c" | "\<not> replaces_pair c" "\<not> writes_field c" by blast
  then show "single_rows (vault_step K c V)"
  proof cases
    case 1
    show ?thesis
      using replaced_view [OF 1, of K V] one keeps by (auto simp: single_rows_def)
  next
    case 2
    then show ?thesis
    proof (cases c)
      case (Put_Login n i now app acc f v)
      obtain V' res where p: "put_account_login K n i now V app acc f v = (V', res)" by fastforce
      show ?thesis
      proof (cases res)
        case (Inl e)
        then have "V' = V" using p by (simp add: put_account_login_def in_transaction_Inl)
        then show ?thesis using one by (simp add: p Put_Login)
      next
        case (Inr r)
        show ?thesis
          by (rule put_login_view [OF p [unfolded Inr]])
            (use kind in \<open>simp add: p Put_Login single_rows_def del: map_append\<close>)
      qed
    next
      case (Delete_Login app acc f)
      obtain V' res where p: "delete_account_login V app acc f = (V', res)" by fastforce
      show ?thesis
      proof (cases res)
        case (Inl e)
        then have "V' = V" using p by (simp add: delete_account_login_def in_transaction_Inl)
        then show ?thesis using one by (simp add: p Delete_Login)
      next
        case (Inr r)
        show ?thesis
          by (rule delete_login_view [OF p [unfolded Inr]])
            (use keeps one in \<open>simp_all add: p Delete_Login single_rows_def\<close>)
      qed
    next
      case (Delete ref)
      obtain V' res where p: "delete_secret V ref = (V', res)" by fastforce
      show ?thesis
      proof (cases res)
        case (Inl e)
        then have "V' = V" using p by (simp add: delete_secret_def in_transaction_Inl)
        then show ?thesis using one by (simp add: p Delete)
      next
        case (Inr r)
        show ?thesis
          by (rule delete_row_view [OF p [unfolded Inr] k one])
            (use keeps one in \<open>auto simp: p Delete single_rows_def\<close>)
      qed
    qed simp_all
  next
    case 3
    then show ?thesis using one login_view_frame [OF k] by (simp add: single_rows_def)
  qed
qed

lemma reached_single_rows:
  "keyed (vault_run K cs empty_vault) \<and> single_rows (vault_run K cs empty_vault)"
proof -
  have "keyed V \<Longrightarrow> single_rows V \<Longrightarrow> keyed (vault_run K cs V) \<and> single_rows (vault_run K cs V)" for V
  proof (induction cs arbitrary: V)
    case (Cons c cs)
    then show ?case using single_step [of V K c] step_evolves [of c V K] by (simp add: evolves_def)
  qed simp
  then show ?thesis by (simp add: keyed_def single_rows_def login_view_def empty_vault_def)
qed

text \<open>The fields of a login as the table has them.\<close>

lemma login_field_view:
  "kind \<in> {email_login_kind, password_login_kind} \<Longrightarrow>
   login_field K V app acc kind = Option.bind (view_cipher (login_view V) app acc kind) (ck_dec K)"
  by (simp only: login_field_def login_cipher_view)

lemma logins_fields:
  "logins K V (app, acc) = (if app_slug_ok app \<and> account_ref_ok acc
     then pair_of (login_field K V app acc email_login_kind) (login_field K V app acc password_login_kind) else None)"
  by (auto simp: logins_def get_account_login_pair_def login_field_def pair_of_def decrypt_pair_def split: option.splits)

lemma view_cipher_append:
  "view_cipher (L @ [(a, Some b, k, c)]) app acc kind =
     (if (a, b, k) = (app, acc, kind) then Some c else view_cipher L app acc kind)"
  by (simp add: view_cipher_def)

lemma view_cipher_other_kinds:
  "view_cipher (other_kinds a b k L) app acc kind =
     (if (a, b, k) = (app, acc, kind) then None else view_cipher L app acc kind)"
proof (cases "(a, b, k) = (app, acc, kind)")
  case False
  then have "filter (\<lambda>(a, b, k, c). a = app \<and> b = Some acc \<and> k = kind) (other_kinds a b k L) =
      filter (\<lambda>(a, b, k, c). a = app \<and> b = Some acc \<and> k = kind) L"
    unfolding filter_filter by (intro filter_cong) auto
  then show ?thesis by (simp only: view_cipher_def False if_False)
next
  case True
  then have "filter (\<lambda>(a, b, k, c). a = app \<and> b = Some acc \<and> k = kind) (other_kinds a b k L) = []"
    by (auto simp: filter_empty_conv)
  then show ?thesis unfolding view_cipher_def using True by simp
qed

lemma logins_other_kinds:
  assumes "login_view V' = other_kinds app acc kind (login_view V)" "kind \<in> {email_login_kind, password_login_kind}"
  shows "logins K V' = (logins K V)((app, acc) := None)"
proof
  fix q :: "string \<times> string"
  obtain a b where q: "q = (a, b)" by fastforce
  show "logins K V' q = ((logins K V)((app, acc) := None)) q"
    unfolding q logins_fields fun_upd_apply
    using assms(2) by (auto simp: login_field_view assms(1) view_cipher_other_kinds [simplified] pair_of_def)
qed

lemma put_login_logins:
  assumes "\<And>n v. ck_dec K (ck_enc K n v) = Some v"
  shows "logins K (fst (put_account_login K n i now V app acc f v)) =
    (case login_update K (Put_Login n i now app acc f v) V of
       None \<Rightarrow> logins K V | Some (account, p) \<Rightarrow> (logins K V)(account := p))"
proof (cases "put_account_login K n i now V app acc f v")
  case (Pair V' res)
  show ?thesis
  proof (cases res)
    case (Inl x)
    then have "V' = V" using Pair by (simp add: put_account_login_def in_transaction_Inl)
    then show ?thesis by (simp add: Pair Inl returned_iff)
  next
    case (Inr x)
    obtain kind where k: "account_login_kind f = Inr kind" "app_slug_ok app" "account_ref_ok acc"
      and view: "login_view V' = other_kinds app acc kind (login_view V) @ [(app, Some acc, kind, ck_enc K n v)]"
      by (rule put_login_view [OF Pair [unfolded Inr]])
    have field: "login_field K V' a b kd =
        (if (a, b, kd) = (app, acc, kind) then Some v else login_field K V a b kd)"
      if "kd \<in> {email_login_kind, password_login_kind}" for a b kd
      unfolding login_field_view [OF that] view view_cipher_append view_cipher_other_kinds by (auto simp: assms)
    have "logins K V' (a, b) = ((logins K V)((app, acc) :=
       if f = ''login_email'' then pair_of (Some v) (login_field K V app acc password_login_kind)
        else pair_of (login_field K V app acc email_login_kind) (Some v))) (a, b)" for a b
      using k by (auto simp: logins_fields field account_login_kind_Inr)
    then show ?thesis
      by (simp add: Pair Inr returned_iff fun_eq_iff)
  qed
qed

lemma delete_login_logins:
  "logins K (fst (delete_account_login V app acc f)) =
    (case login_update K (Delete_Login app acc f) V of
       None \<Rightarrow> logins K V | Some (account, p) \<Rightarrow> (logins K V)(account := p))"
proof (cases "delete_account_login V app acc f")
  case (Pair V' res)
  show ?thesis
  proof (cases res)
    case (Inl x)
    then have "V' = V" using Pair by (simp add: delete_account_login_def in_transaction_Inl)
    then show ?thesis by (simp add: Pair Inl returned_iff)
  next
    case (Inr x)
    have "logins K V' = (logins K V)((app, acc) := None)"
    proof (rule delete_login_view [OF Pair [unfolded Inr]])
      fix kind
      assume "account_login_kind f = Inr kind" and view: "login_view V' = other_kinds app acc kind (login_view V)"
      then have "kind \<in> {email_login_kind, password_login_kind}" by (auto simp: account_login_kind_Inr)
      then show ?thesis by (rule logins_other_kinds [OF view])
    next
      assume "V' = V" "\<not> (app_slug_ok app \<and> account_ref_ok acc)"
      then show ?thesis by (auto simp: fun_eq_iff logins_fields)
    qed
    then show ?thesis by (simp add: Pair Inr returned_iff)
  qed
qed

lemma delete_row_logins:
  assumes "keyed V" "single_rows V"
  shows "logins K (fst (delete_secret V ref)) =
    (case login_update K (Delete ref) V of
       None \<Rightarrow> logins K V | Some (account, p) \<Rightarrow> (logins K V)(account := p))"
proof (cases "delete_secret V ref")
  case (Pair V' res)
  show ?thesis
  proof (cases res)
    case (Inl x)
    then have "V' = V" using Pair by (simp add: delete_secret_def in_transaction_Inl)
    then show ?thesis by (simp add: Pair Inl returned_iff)
  next
    case (Inr x)
    obtain r e where e: "parse_vault_reference ref = Inr r" "map_of (va_entries V) (vr_identifier r) = Some e"
      and view: "login_view V' =
        (if is_login e then other_kinds (en_app e) (the (en_account e)) (en_kind e) (login_view V) else login_view V)"
      by (rule delete_row_view [OF Pair [unfolded Inr] assms])
    show ?thesis
    proof (cases "is_login e")
      case True
      then have "logins K V' = (logins K V)((en_app e, the (en_account e)) := None)"
        using view by (intro logins_other_kinds [of V' _ _ "en_kind e"]) (auto simp: is_login_def)
      then show ?thesis using True e by (simp add: Pair Inr)
    next
      case False
      then show ?thesis using view logins_view [of V' V K] e by (simp add: Pair Inr)
    qed
  qed
qed

text \<open>C9. The reusable logins refine a map from accounts to whole pairs. In every state the calls of
  the vault reach, each further call updates the map at no more than one account, and leaves it
  alone when it fails: storing a pair and promoting a staged one put there the pair they were given
  or staged, writing one field puts the pair its two fields make, and deleting a field or the row
  of one leaves the account with none. Every other call leaves the map alone.\<close>

theorem account_logins_refine_map:
  assumes "\<And>n v. ck_dec K (ck_enc K n v) = Some v" "V = vault_run K cs empty_vault"
  shows "logins K (vault_step K c V) =
    (case login_update K c V of None \<Rightarrow> logins K V | Some (account, p) \<Rightarrow> (logins K V)(account := p))"
proof -
  have k: "keyed V" "single_rows V"
    using reached_single_rows by (simp_all add: assms(2))
  consider "replaces_pair c" | "writes_field c" | "\<not> replaces_pair c" "\<not> writes_field c" by blast
  then show ?thesis
  proof cases
    case 1
    then show ?thesis
      by (cases c) (auto simp: put_pair_logins assms(1) promote_existing_logins promote_signup_logins)
  next
    case 2
    then show ?thesis
      by (cases c) (simp_all only: vault_step.simps put_login_logins [OF assms(1)] delete_login_logins
        delete_row_logins [OF k] writes_field.simps)
  next
    case 3
    moreover have "login_update K c V = None"
      using 3 by (cases c) simp_all
    ultimately show ?thesis
      using logins_view [OF login_view_frame [OF k(1), of c K]] by simp
  qed
qed

section \<open>Signup identities\<close>

text \<open>A run stages one identity and an identity belongs to one run.\<close>

definition signup_ok :: "vault \<Rightarrow> bool" where
  "signup_ok V = (distinct (map fst (va_signup V)) \<and>
     distinct (map (\<lambda>(r, s). (sl_app s, sl_account s)) (va_signup V)))"

definition owns_signup :: "vault \<Rightarrow> string \<Rightarrow> string \<Rightarrow> string \<Rightarrow> bool \<Rightarrow> bool" where
  "owns_signup V app acc run done_once =
     (\<exists>(r, s)\<in>set (va_signup V). r = run \<and> sl_app s = app \<and> sl_account s = acc \<and> sl_promoted s = done_once)"

lemma owns_signupE:
  assumes "owns_signup V app acc run b"
  obtains s where "(run, s) \<in> set (va_signup V)" "sl_app s = app" "sl_account s = acc" "sl_promoted s = b"
  using assms by (auto simp: owns_signup_def)

lemma owns_signupI:
  "(run, s) \<in> set (va_signup V) \<Longrightarrow> owns_signup V (sl_app s) (sl_account s) run (sl_promoted s)"
  by (auto simp: owns_signup_def)

lemma find_identity:
  assumes "distinct (map (\<lambda>(r, s). (sl_app s, sl_account s)) xs)" "(run, s) \<in> set xs"
  shows "List.find (\<lambda>(_, s'). sl_app s' = sl_app s \<and> sl_account s' = sl_account s) xs = Some (run, s)"
  using assms by (induction xs) (auto simp: image_iff)


abbreviation promote_in :: "string \<Rightarrow> staged_login \<Rightarrow> (string \<times> staged_login) list \<Rightarrow> (string \<times> staged_login) list" where
  "promote_in run s \<equiv> AList.update run (s\<lparr>sl_promoted := True\<rparr>)"

lemma update_promoted:
  "map_of xs run = Some s \<Longrightarrow> map fst (promote_in run s xs) = map fst xs"
  "map_of xs run = Some s \<Longrightarrow> map (\<lambda>(r, s). (sl_app s, sl_account s)) (promote_in run s xs) =
     map (\<lambda>(r, s). (sl_app s, sl_account s)) xs"
  by (induction xs) auto

lemma update_promoted_kept:
  "(r, t) \<in> set xs \<Longrightarrow> (r, t) \<noteq> (run, s) \<Longrightarrow> map_of xs run = Some s \<Longrightarrow> (r, t) \<in> set (promote_in run s xs)"
  by (induction xs) (auto split: if_splits)

lemma update_promoted_new: "(run, s\<lparr>sl_promoted := True\<rparr>) \<in> set (promote_in run s xs)"
  by (induction xs) auto

lemma grant_calls_tables:
  "touches_grants c \<Longrightarrow> va_signup (vault_step K c V) = va_signup V \<and> va_ingest (vault_step K c V) = va_ingest V"
proof (cases c)
  case (Reserve now b ttl)
  show ?thesis
    unfolding Reserve vault_step.simps reserve_browser_secret_grant_def
    by (rule conjI; rule in_transaction_field; auto simp: result_simps Let_def split: if_splits option.splits)
next
  case (Redeem now g ref b)
  obtain V' res where p: "consume_transient_with_grant K now V g ref b = (V', res)" by fastforce
  show ?thesis
  proof (cases res)
    case (Inl e)
    then have "V' = V" using p by (simp add: consume_transient_with_grant_def in_transaction_Inl)
    then show ?thesis by (simp add: p Redeem)
  next
    case (Inr v)
    show ?thesis by (rule redeem_Inr [OF p [unfolded Inr]]) (simp add: Redeem p)
  qed
next
  case (Capture n i now g b v)
  obtain V' res where p: "capture_with_grant K n i now V g b v = (V', res)" by fastforce
  show ?thesis
  proof (cases res)
    case (Inl e)
    then have "V' = V" using p by (simp add: capture_with_grant_def in_transaction_Inl)
    then show ?thesis by (simp add: p Capture)
  next
    case (Inr ref)
    show ?thesis
      by (rule capture_cases [OF p [unfolded Inr]]) (auto simp: Capture p dest: insert_entry_tables)
  qed
qed simp_all

lemma signup_frame: "\<not> touches_signup c \<Longrightarrow> va_signup (vault_step K c V) = va_signup V"
  using entry_calls_same_tables [of c K V] grant_calls_tables [of c K V] begin_tables complete_tables release_tables
  by (cases c) (simp_all add: tables_def)

lemma stage_signup_cases:
  obtains "va_signup (vault_step K (Stage_Signup n app acc run e p) V) = va_signup V"
    | s where "sl_app s = app" "sl_account s = acc" "map_of (va_signup V) run = None" "signup_stage_of V app acc = None"
      "va_signup (vault_step K (Stage_Signup n app acc run e p) V) = va_signup V @ [(run, s)]"
proof (cases "stage_signup_login_pair K n V app acc run e p")
  case (Pair V' res)
  show thesis
  proof (cases res)
    case (Inl x)
    then have "V' = V" using Pair by (simp add: stage_signup_login_pair_def in_transaction_Inl)
    then show thesis using that(1) by (simp add: Pair)
  next
    case (Inr x)
    show thesis
    proof (cases "signup_stage_of V app acc")
      case (Some o_s)
      then have "V' = V"
        using Pair Inr
        by (auto simp: stage_signup_login_pair_def in_transaction_Inr bindR_Inr_iff split: prod.splits if_splits)
      then show thesis using that(1) by (simp add: Pair)
    next
      case None
      show thesis
        by (rule that(2) [of "\<lparr>sl_app = app, sl_account = acc, sl_email = ck_enc K (fst n) e,
              sl_password = ck_enc K (snd n) p, sl_promoted = False\<rparr>"])
          (use Pair Inr None in \<open>auto simp: stage_signup_login_pair_def in_transaction_Inr bindR_Inr_iff fst_in_transaction split: if_splits\<close>)
    qed
  qed
qed

lemma release_signup_cases:
  obtains "va_signup (vault_step K (Release_Signup app acc run) V) = va_signup V"
    | s where "map_of (va_signup V) run = Some s" "\<not> sl_promoted s"
      "va_signup (vault_step K (Release_Signup app acc run) V) = filter (\<lambda>(r, _). r \<noteq> run) (va_signup V)"
proof (cases "va_signup (vault_step K (Release_Signup app acc run) V) = va_signup V")
  case False
  then show thesis
    using that(2) by (auto simp: release_staged_signup_login_pair_def staged_signup_def split: if_splits option.splits)
qed (use that(1) in simp)

lemma promote_signup_cases:
  obtains "va_signup (vault_step K (Promote_Signup i now app acc run) V) = va_signup V"
    | s where "map_of (va_signup V) run = Some s" "sl_app s = app" "sl_account s = acc"
      "va_signup (vault_step K (Promote_Signup i now app acc run) V) =
         AList.update run (s\<lparr>sl_promoted := True\<rparr>) (va_signup V)"
proof (cases "promote_staged_signup_login_pair i now V app acc run")
  case (Pair V' res)
  show thesis
  proof (cases res)
    case (Inl x)
    then have "V' = V" using Pair by (simp add: promote_staged_signup_login_pair_def in_transaction_Inl)
    then show thesis using that(1) by (simp add: Pair)
  next
    case (Inr x)
    obtain s W where s: "staged_signup V app acc run = Some s"
      and W: "replace_account_login_pair i now V app acc (sl_email s) (sl_password s) = Inr W"
      "V' = W\<lparr>va_signup := AList.update run (s\<lparr>sl_promoted := True\<rparr>) (va_signup W)\<rparr>"
      using Pair Inr by (auto simp: promote_staged_signup_login_pair_def in_transaction_Inr bindR_Inr_iff split: option.splits)
    show thesis
      by (rule that(2) [of s])
        (use s W Pair replace_pair_grants [OF W(1)] in \<open>auto simp: staged_signup_def split: option.splits if_splits\<close>)
  qed
qed

lemma no_stage:
  "signup_stage_of V app acc = None \<Longrightarrow> (app, acc) \<notin> (\<lambda>(r, s). (sl_app s, sl_account s)) ` set (va_signup V)"
  by (auto simp: signup_stage_of_def find_None_iff)

lemma signup_step_ok: "signup_ok V \<Longrightarrow> signup_ok (vault_step K c V)"
proof (cases "touches_signup c")
  case False
  then show "signup_ok V \<Longrightarrow> signup_ok (vault_step K c V)"
    by (simp add: signup_ok_def signup_frame)
next
  case True
  assume ok: "signup_ok V"
  from True show ?thesis
  proof (cases c)
    case (Stage_Signup n app acc run e p)
    show ?thesis unfolding Stage_Signup
      by (rule stage_signup_cases [of K n app acc run e p V])
        (use ok in \<open>auto simp: signup_ok_def map_of_eq_None_iff dest!: no_stage\<close>)
  next
    case (Release_Signup app acc run)
    show ?thesis unfolding Release_Signup
      by (rule release_signup_cases [of K app acc run V])
        (use ok in \<open>auto simp: signup_ok_def distinct_map_filter\<close>)
  next
    case (Promote_Signup i now app acc run)
    show ?thesis unfolding Promote_Signup
      by (rule promote_signup_cases [of K i now app acc run V])
        (use ok in \<open>auto simp: signup_ok_def update_promoted\<close>)
  qed simp_all
qed

lemma promoted_stays:
  "owns_signup V app acc run True \<Longrightarrow> signup_ok V \<Longrightarrow> owns_signup (vault_step K c V) app acc run True"
proof (cases "touches_signup c")
  case False
  then show "owns_signup V app acc run True \<Longrightarrow> owns_signup (vault_step K c V) app acc run True"
    by (simp add: owns_signup_def signup_frame)
next
  case True
  assume own: "owns_signup V app acc run True" and ok: "signup_ok V"
  have uniq: "map_of (va_signup V) r = Some s" if "(r, s) \<in> set (va_signup V)" for r s
    using ok that by (simp add: signup_ok_def)
  from True show ?thesis
  proof (cases c)
    case (Stage_Signup n app' acc' run' e p)
    show ?thesis unfolding Stage_Signup
      by (rule stage_signup_cases [of K n app' acc' run' e p V]) (use own in \<open>auto simp: owns_signup_def\<close>)
  next
    case (Release_Signup app' acc' run')
    show ?thesis unfolding Release_Signup
      by (rule release_signup_cases [of K app' acc' run' V])
        (use own uniq in \<open>auto simp: owns_signup_def\<close>)
  next
    case (Promote_Signup i now app' acc' run')
    show ?thesis unfolding Promote_Signup
    proof (rule promote_signup_cases [of K i now app' acc' run' V])
      fix s
      assume s: "map_of (va_signup V) run' = Some s"
        and eq: "va_signup (vault_step K (Promote_Signup i now app' acc' run') V) =
          AList.update run' (s\<lparr>sl_promoted := True\<rparr>) (va_signup V)"
      obtain t where t: "(run, t) \<in> set (va_signup V)" "sl_app t = app" "sl_account t = acc" "sl_promoted t"
        using own by (auto elim: owns_signupE)
      have "(run, t) \<in> set (AList.update run' (s\<lparr>sl_promoted := True\<rparr>) (va_signup V))"
      proof (cases "(run, t) = (run', s)")
        case True
        moreover have "s\<lparr>sl_promoted := True\<rparr> = s" using True t(4) by (cases s) simp
        ultimately show ?thesis using update_promoted_new [of run' s] by simp
      qed (use update_promoted_kept [OF t(1) _ s] in auto)
      then show "owns_signup (vault_step K (Promote_Signup i now app' acc' run') V) app acc run True"
        using t eq owns_signupI [of run t "vault_step K (Promote_Signup i now app' acc' run') V"] by simp
    qed (use own in \<open>auto simp: owns_signup_def\<close>)
  qed simp_all
qed

text \<open>C20. A signup identity has one owner. However the calls interleave, a run stages one identity and an
  identity belongs to one run; while it does, staging it for any other run raises the reason that
  says whether it is registered or in progress and writes nothing; and once its pair was promoted,
  the identity keeps that owner for good.\<close>

theorem signup_identity_single_owner:
  "signup_ok (vault_run K cs empty_vault) \<and>
   (owns_signup (vault_run K cs empty_vault) app acc run promoted \<longrightarrow>
     (\<forall>run' promoted'. owns_signup (vault_run K cs empty_vault) app acc run' promoted' \<longrightarrow>
        run' = run \<and> promoted' = promoted) \<and>
     (\<forall>run' n e p. run' \<noteq> run \<and> validate_login_pair app acc (Some run') e p = Inr () \<longrightarrow>
        stage_signup_login_pair K n (vault_run K cs empty_vault) app acc run' e p =
          (vault_run K cs empty_vault,
           Inl (RuntimeError (if promoted then ''signup_identity_already_registered''
                              else ''signup_identity_in_progress'')))) \<and>
     (promoted \<longrightarrow> owns_signup (vault_run K (cs @ ds) empty_vault) app acc run True))"
proof -
  let ?V = "vault_run K cs empty_vault"
  have run_ok: "signup_ok V \<Longrightarrow> signup_ok (vault_run K bs V)" for bs V
    by (induction bs arbitrary: V) (simp_all add: signup_step_ok)
  have ok: "signup_ok ?V"
    by (rule run_ok) (simp add: signup_ok_def empty_vault_def)
  have stays: "owns_signup V app acc run True \<Longrightarrow> signup_ok V \<Longrightarrow> owns_signup (vault_run K bs V) app acc run True"
    for bs V
    by (induction bs arbitrary: V) (simp_all add: signup_step_ok promoted_stays)
  have split: "vault_run K (cs @ ds) V = vault_run K ds (vault_run K cs V)" for V
    by (induction cs arbitrary: V) simp_all
  have find: "signup_stage_of ?V app acc = Some (r, s)"
    if "(r, s) \<in> set (va_signup ?V)" "sl_app s = app" "sl_account s = acc" for r s
    using find_identity [of "va_signup ?V" r s] ok that by (simp add: signup_ok_def signup_stage_of_def)
  show ?thesis
  proof (intro conjI impI)
    assume "owns_signup ?V app acc run promoted"
    then obtain s where s: "(run, s) \<in> set (va_signup ?V)" "sl_app s = app" "sl_account s = acc"
      "sl_promoted s = promoted" by (auto simp: owns_signup_def)
    show "\<forall>run' promoted'. owns_signup ?V app acc run' promoted' \<longrightarrow> run' = run \<and> promoted' = promoted"
      using find [OF s(1-3)] find s(4) by (auto simp: owns_signup_def)
    show "\<forall>run' n e p. run' \<noteq> run \<and> validate_login_pair app acc (Some run') e p = Inr () \<longrightarrow>
        stage_signup_login_pair K n ?V app acc run' e p = (?V, Inl (RuntimeError
          (if promoted then ''signup_identity_already_registered'' else ''signup_identity_in_progress'')))"
      using find [OF s(1-3)] s(4)
      by (auto simp: stage_signup_login_pair_def in_transaction_def)
  next
    assume "owns_signup ?V app acc run promoted" "promoted"
    then show "owns_signup (vault_run K (cs @ ds) empty_vault) app acc run True"
      using stays [of ?V ds] ok by (simp add: split)
  qed (rule ok)
qed

section \<open>Instances\<close>

abbreviation (input) run_a :: string where
  "run_a \<equiv> ''run_0123456789abcdef0123456789abcdef''"

abbreviation (input) run_b :: string where
  "run_b \<equiv> ''run_ffffffffffffffffffffffffffffffff''"

abbreviation (input) acct_a :: string where
  "acct_a \<equiv> ''acct_0123456789abcdef0123456789abcdef''"

definition signup_calls :: "vault_call list" where
  "signup_calls = [Stage_Signup (0, 1) ''app'' acct_a run_a ''a@b.c'' ''pw'',
     Promote_Signup (''i1'', ''i2'') 5 ''app'' acct_a run_a]"

lemma signup_identity_single_owner_witness:
  "stage_signup_login_pair plain_keys (2, 3) (vault_run plain_keys signup_calls empty_vault) ''app'' acct_a run_b
     ''x@y.z'' ''pw2'' =
   (vault_run plain_keys signup_calls empty_vault, Inl (RuntimeError ''signup_identity_already_registered'')) \<and>
   owns_signup (vault_run plain_keys (signup_calls @ [Release_Signup ''app'' acct_a run_a]) empty_vault) ''app'' acct_a run_a True"
proof -
  have own: "owns_signup (vault_run plain_keys signup_calls empty_vault) ''app'' acct_a run_a True"
    by code_simp
  have valid: "run_b \<noteq> run_a \<and> validate_login_pair ''app'' acct_a (Some run_b) ''x@y.z'' ''pw2'' = Inr ()"
    by code_simp
  note result = conjunct2 [OF signup_identity_single_owner [of plain_keys signup_calls "''app''" acct_a run_a True
        "[Release_Signup ''app'' acct_a run_a]"], THEN mp, OF own]
  have "stage_signup_login_pair plain_keys (2, 3) (vault_run plain_keys signup_calls empty_vault) ''app'' acct_a run_b
     ''x@y.z'' ''pw2'' =
   (vault_run plain_keys signup_calls empty_vault,
     Inl (RuntimeError (if True then ''signup_identity_already_registered'' else ''signup_identity_in_progress'')))"
    by (rule conjunct1 [OF conjunct2 [OF result], rule_format, OF valid])
  then show ?thesis
    using conjunct2 [OF conjunct2 [OF result]] by (simp only: simp_thms if_True)
qed

lemma account_logins_refine_map_witness:
  "logins plain_keys (vault_run plain_keys signup_calls empty_vault) (''app'', acct_a) = Some (''a@b.c'', ''pw'')"
proof -
  let ?V = "vault_run plain_keys (take 1 signup_calls) empty_vault"
  let ?c = "Promote_Signup (''i1'', ''i2'') 5 ''app'' acct_a run_a"
  have "vault_run plain_keys signup_calls empty_vault = vault_step plain_keys ?c ?V"
    by (simp add: signup_calls_def)
  moreover have "login_update plain_keys ?c ?V = Some ((''app'', acct_a), Some (''a@b.c'', ''pw''))"
    by code_simp
  moreover have "ck_dec plain_keys (ck_enc plain_keys n v) = Some v" for n v
    by (simp add: plain_keys_def)
  ultimately show ?thesis
    using account_logins_refine_map [of plain_keys ?V "take 1 signup_calls" ?c] by simp
qed

text \<open>A login row is resolved by its reference like any other secret, and a promotion repeated after
  the pair was replaced puts the staged pair back.\<close>

lemma login_reference_resolves:
  "get_secret plain_keys (vault_run plain_keys signup_calls empty_vault)
     (entry_reference ''app'' password_login_kind ''i2'') = Inr ''pw''"
  by code_simp

lemma replayed_promotion_restores_old_pair:
  "logins plain_keys (vault_run plain_keys
     [Stage_Existing (0, 1) ''app'' acct_a run_a ''a@b.c'' ''old'',
      Promote_Existing (''i1'', ''i2'') 5 ''app'' acct_a run_a,
      Put_Pair (2, 3) (''i3'', ''i4'') 6 ''app'' acct_a ''a@b.c'' ''new'',
      Promote_Existing (''i5'', ''i6'') 7 ''app'' acct_a run_a] empty_vault) (''app'', acct_a) =
   Some (''a@b.c'', ''old'')"
  by code_simp

end
