(* ===== verification/Vault_Claims.thy ===== *)
theory Vault_Claims
  imports Vault_Logins
begin

text \<open>
  The claims on inbox messages: a message belongs to the run that claimed it first, a settled
  one is never claimed again, and a claim in flight answers busy to its own run only.
\<close>

section \<open>Ownership\<close>

definition claim_row :: "vault_keys \<Rightarrow> vault \<Rightarrow> message_identity \<Rightarrow> ingestion_row option" where
  "claim_row K V m = (case gmail_ingestion_key K m of Inl _ \<Rightarrow> None | Inr key \<Rightarrow> va_ingest V key)"

text \<open>What no call undoes: the owner of a row, and that it is settled.\<close>

definition claim_kept :: "ingestion_row \<Rightarrow> ingestion_row \<Rightarrow> bool" where
  "claim_kept r r' = (in_owner r' = in_owner r \<and> in_app r' = in_app r \<and> in_refs r' = in_refs r \<and>
     (in_completed r \<longrightarrow> r' = r))"

definition claims_kept :: "vault \<Rightarrow> vault \<Rightarrow> bool" where
  "claims_kept V V' = (\<forall>key r. va_ingest V key = Some r \<longrightarrow> (\<exists>r'. va_ingest V' key = Some r' \<and> claim_kept r r'))"

lemma claim_kept_refl [simp]: "claim_kept r r"
  by (simp add: claim_kept_def)

lemma claim_kept_trans: "claim_kept a b \<Longrightarrow> claim_kept b c \<Longrightarrow> claim_kept a c"
  by (auto simp: claim_kept_def)

lemma claims_kept_same: "va_ingest V' = va_ingest V \<Longrightarrow> claims_kept V V'"
  by (simp add: claims_kept_def)

lemma claims_kept_trans: "claims_kept V W \<Longrightarrow> claims_kept W X \<Longrightarrow> claims_kept V X"
  unfolding claims_kept_def by (meson claim_kept_trans)

lemma claims_frame: "\<not> touches_claims c \<Longrightarrow> va_ingest (vault_step K c V) = va_ingest V"
  using entry_calls_same_tables [of c K V] grant_calls_tables [of c K V] signup_tables [of c K V]
  by (cases c) (simp_all add: tables_def)

lemma begin_keeps:
  assumes "begin_gmail_message_ingestion K ids ns t now V m run app creds lease = (V', Inr c)"
  shows "claims_kept V V'"
  using assms
proof (cases rule: begin_cases)
  case (first key)
  then show ?thesis
    by (auto simp: claims_first_def claims_kept_def dest!: insert_credentials_grants)
qed (auto simp: claims_again_def claims_kept_def claim_kept_def)

lemma release_cases:
  assumes "release_gmail_message_ingestion K now V m run t = (V', Inr ok)"
  obtains "V' = V"
    | key r where "va_ingest V key = Some r" "\<not> in_completed r"
      "V' = V\<lparr>va_ingest := (va_ingest V)(key \<mapsto> r\<lparr>in_expires := Some (now - second)\<rparr>)\<rparr>"
proof -
  obtain key where body: "(case va_ingest V key of
          None \<Rightarrow> Inr (V, False)
        | Some r \<Rightarrow>
            if in_owner r = run \<and> \<not> in_completed r \<and> in_token r = Some t
            then Inr (V\<lparr>va_ingest := (va_ingest V)(key \<mapsto> r\<lparr>in_expires := Some (now - second)\<rparr>)\<rparr>, True)
            else Inr (V, False)) = (Inr (V', ok) :: (vault \<times> bool) result)"
    using assms unfolding release_gmail_message_ingestion_def in_transaction_Inr bindR_Inr_iff by auto
  show thesis
  proof (cases "va_ingest V key")
    case None
    then have "V' = V" using body by simp
    then show thesis by (rule that(1))
  next
    case (Some r)
    show thesis
    proof (cases "in_owner r = run \<and> \<not> in_completed r \<and> in_token r = Some t")
      case True
      then have "V' = V\<lparr>va_ingest := (va_ingest V)(key \<mapsto> r\<lparr>in_expires := Some (now - second)\<rparr>)\<rparr>"
        using body Some by simp
      with Some show thesis using True by (intro that(2)) simp_all
    next
      case False
      then have "V' = V" using body Some by (simp split: if_splits)
      then show thesis by (rule that(1))
    qed
  qed
qed

lemma claim_step_kept: "claims_kept V (vault_step K c V)"
proof (cases "touches_claims c")
  case True
  then show ?thesis
  proof (cases c)
    case (Begin_Claim ids ns t now m run app cs lease)
    obtain V' res where p: "begin_gmail_message_ingestion K ids ns t now V m run app cs lease = (V', res)" by fastforce
    show ?thesis
    proof (cases res)
      case (Inl e)
      then have "V' = V" using p by (simp add: begin_gmail_message_ingestion_def in_transaction_Inl)
    then show ?thesis by (simp add: p Begin_Claim Inl claims_kept_same)
    next
      case (Inr x)
      then show ?thesis using p Begin_Claim begin_keeps [of K ids ns t now V m run app cs lease V' x] by simp
    qed
  next
    case (Complete_Claim m run t)
    obtain V' res where p: "complete_gmail_message_ingestion K V m run t = (V', res)" by fastforce
    show ?thesis
    proof (cases res)
      case (Inl e)
      then have "V' = V" using p by (simp add: complete_gmail_message_ingestion_def in_transaction_Inl)
    then show ?thesis by (simp add: p Complete_Claim Inl claims_kept_same)
    next
      case (Inr ok)
      show ?thesis
        using p [unfolded Inr]
        by (cases rule: complete_cases) (auto simp: Complete_Claim p claims_kept_def claim_kept_def)
    qed
  next
    case (Release_Claim now m run t)
    obtain V' res where p: "release_gmail_message_ingestion K now V m run t = (V', res)" by fastforce
    show ?thesis
    proof (cases res)
      case (Inl e)
      then have "V' = V" using p by (simp add: release_gmail_message_ingestion_def in_transaction_Inl)
      then show ?thesis by (simp add: p Release_Claim claims_kept_same)
    next
      case (Inr ok)
      show ?thesis
        by (rule release_cases [OF p [unfolded Inr]]) (auto simp: Release_Claim p claims_kept_def claim_kept_def)
    qed
  qed simp_all
qed (simp add: claims_kept_same claims_frame)

lemma claim_run_kept: "claims_kept V (vault_run K cs V)"
  by (induction cs arbitrary: V) (auto intro: claims_kept_trans claim_step_kept simp: claims_kept_same)

lemma begin_acquired:
  assumes "begin_gmail_message_ingestion K ids ns t now V m run app creds lease = (V', Inr c)"
    and "ic_status c = Claim_Acquired"
  obtains key r' where "gmail_ingestion_key K m = Inr key" "va_ingest V' key = Some r'" "in_owner r' = run"
    "\<not> in_completed r'" "in_token r' = Some t" "in_expires r' = Some (now + lease * second)" "ic_token c = Some t"
    "\<forall>r. va_ingest V key = Some r \<longrightarrow> in_owner r = run \<and> \<not> in_completed r"
  using assms(1)
proof (cases rule: begin_cases)
  case (held key r)
  then show thesis using assms(2) by (auto simp: bare_claim_def)
qed (auto simp: claims_again_def claims_first_def intro!: that)

text \<open>A claim of a message some run holds.\<close>

lemma begin_held:
  assumes "gmail_ingestion_key K m = Inr key" "va_ingest V key = Some r"
    and "begin_gmail_message_ingestion K ids ns t now V m run app creds lease = (V', Inr c)"
  shows "ic_status c = Claim_Acquired \<Longrightarrow> run = in_owner r \<and> \<not> in_completed r \<and> lease_over now (in_expires r)"
    and "in_completed r \<or> run \<noteq> in_owner r \<Longrightarrow> V' = V \<and> c = bare_claim Claim_Completed"
  using assms
  by (auto simp: begin_gmail_message_ingestion_def in_transaction_Inr bindR_Inr_iff bare_claim_def split: if_splits)

lemma claimed_again:
  assumes b: "begin_gmail_message_ingestion K ids ns t now V m run app creds lease = (V', Inr c)"
      "ic_status c = Claim_Acquired"
    and b2: "begin_gmail_message_ingestion K ids2 ns2 t2 now2 (vault_run K cs V') m run2 app2 creds2 lease2 = (W, Inr c2)"
      "ic_status c2 = Claim_Acquired"
  shows "run2 = run \<and> (\<exists>r. claim_row K (vault_run K cs V') m = Some r \<and> lease_over now2 (in_expires r))"
proof -
  from b obtain key r where key: "gmail_ingestion_key K m = Inr key" and r: "va_ingest V' key = Some r" "in_owner r = run"
    by (rule begin_acquired)
  obtain r' where r': "va_ingest (vault_run K cs V') key = Some r'" "in_owner r' = run"
    using claim_run_kept [of V' K cs] r unfolding claims_kept_def claim_kept_def by blast
  show ?thesis
    using begin_held(1) [OF key r'(1) b2(1)] b2(2) r' key by (auto simp: claim_row_def)
qed

lemma settled_stays:
  assumes d: "complete_gmail_message_ingestion K V m run t = (V', Inr True)"
    and b2: "begin_gmail_message_ingestion K ids2 ns2 t2 now2 (vault_run K cs V') m run2 app2 creds2 lease2 = (W, Inr c2)"
  shows "W = vault_run K cs V' \<and> c2 = bare_claim Claim_Completed"
proof -
  from d obtain key r where key: "gmail_ingestion_key K m = Inr key" and r: "va_ingest V' key = Some r" "in_completed r"
    by (cases rule: complete_cases) auto
  then have "va_ingest (vault_run K cs V') key = Some r"
    using claim_run_kept [of V' K cs] unfolding claims_kept_def claim_kept_def by metis
  then show ?thesis
    using begin_held(2) [OF key _ b2] r by blast
qed

text \<open>C26. A message is consumed for one run. Once a run has acquired the claim of a message,
  whatever is called in between, only that run ever acquires it again, and only after the
  lease of its previous claim ran out; and once a run has settled it, every later claim of it, of any
  run, answers completed and writes nothing.\<close>

theorem message_claimed_by_one_run:
  "(begin_gmail_message_ingestion K ids ns t now V m run app creds lease = (V', Inr c) \<and>
      ic_status c = Claim_Acquired \<longrightarrow>
    (\<forall>cs ids2 ns2 t2 now2 run2 app2 creds2 lease2 W c2.
       begin_gmail_message_ingestion K ids2 ns2 t2 now2 (vault_run K cs V') m run2 app2 creds2 lease2 = (W, Inr c2) \<and>
       ic_status c2 = Claim_Acquired \<longrightarrow>
       run2 = run \<and> (\<exists>r. claim_row K (vault_run K cs V') m = Some r \<and> lease_over now2 (in_expires r)))) \<and>
   (complete_gmail_message_ingestion K V m run t = (V', Inr True) \<longrightarrow>
    (\<forall>cs ids2 ns2 t2 now2 run2 app2 creds2 lease2 W c2.
       begin_gmail_message_ingestion K ids2 ns2 t2 now2 (vault_run K cs V') m run2 app2 creds2 lease2 = (W, Inr c2) \<longrightarrow>
       W = vault_run K cs V' \<and> c2 = bare_claim Claim_Completed))"
  by (intro conjI impI allI; (elim conjE)?)
    (simp_all add: claimed_again [THEN conjunct1] claimed_again [THEN conjunct2] settled_stays)

text \<open>While another run holds the claim and has not settled it, the answer is completed: busy is
  only answered to the run that holds it.\<close>

lemma foreign_claim_reads_completed:
  assumes "gmail_ingestion_key K m = Inr key" "va_ingest V key = Some r" "in_owner r \<noteq> run"
    and "validate_ingestion_input run app creds lease = Inr ()"
  shows "begin_gmail_message_ingestion K ids ns t now V m run app creds lease = (V, Inr (bare_claim Claim_Completed))"
  using assms by (simp add: begin_gmail_message_ingestion_def in_transaction_def)

section \<open>Instances\<close>

definition inbox_message :: message_identity where
  "inbox_message = \<lparr>mi_account = ''acc'', mi_thread = ''m1'', mi_message = ''m1''\<rparr>"

abbreviation (input) token_a :: string where
  "token_a \<equiv> ''aaaaaaaaaaaaaaaaaaaaaaaa''"

lemma message_claimed_by_one_run_witness:
  "\<exists>V1. begin_gmail_message_ingestion plain_keys (\<lambda>_. ''i'') id token_a 0 empty_vault inbox_message run_a
       ''app'' [] 300 = (V1, Inr \<lparr>ic_status = Claim_Acquired, ic_token = Some token_a, ic_refs = []\<rparr>) \<and>
     (\<exists>V2. complete_gmail_message_ingestion plain_keys V1 inbox_message run_a token_a = (V2, Inr True) \<and>
       snd (begin_gmail_message_ingestion plain_keys (\<lambda>_. ''i'') id token_a 900000000
         (vault_run plain_keys [Release_Claim 1 inbox_message run_a token_a] V2) inbox_message run_a ''app'' [] 300) =
       Inr (bare_claim Claim_Completed))"
proof -
  define B where "B = begin_gmail_message_ingestion plain_keys (\<lambda>_. ''i'') id token_a 0 empty_vault inbox_message run_a ''app'' [] 300"
  define C where "C = complete_gmail_message_ingestion plain_keys (fst B) inbox_message run_a token_a"
  define R where "R = begin_gmail_message_ingestion plain_keys (\<lambda>_. ''i'') id token_a 900000000
         (vault_run plain_keys [Release_Claim 1 inbox_message run_a token_a] (fst C)) inbox_message run_a ''app'' [] 300"
  have b: "snd B = Inr \<lparr>ic_status = Claim_Acquired, ic_token = Some token_a, ic_refs = []\<rparr>"
    unfolding B_def by code_simp
  have c: "snd C = Inr True"
    unfolding C_def B_def by code_simp
  have "returned (snd R)"
    unfolding R_def C_def B_def by code_simp
  then obtain x where x: "snd R = Inr x" by (auto simp: returned_iff)
  have "x = bare_claim Claim_Completed"
    using message_claimed_by_one_run [of plain_keys "\<lambda>_. []" id token_a 0 "fst B" inbox_message run_a "[]" "[]" 300 "fst C"]
      c x unfolding C_def [symmetric] R_def by (metis prod.collapse)
  then show ?thesis
    using b c x unfolding B_def C_def R_def by (metis prod.collapse)
qed

end
