(* ===== verification/Profile.thy ===== *)
theory Profile
  imports Host_Policy Complex_Main
begin

text \<open>
  The provider profile of a run (\<^theory_text>\<open>ops/providers/profile.py\<close>): its citations, flows and
  auxiliary hosts with their construction checks, the allow-list derived from it, and the body
  its content address is taken of.

  Members of a closed vocabulary are text, as the code compares them; confidences are
  rationals. A canonical JSON text stands for the value it prints: \<^theory_text>\<open>json.dumps\<close> with sorted
  keys is injective on these values and \<^theory_text>\<open>json.loads\<close> its inverse. The catalog of reviewed
  recipes is an argument, as in \<^theory_text>\<open>Host_Policy\<close>.
\<close>

section \<open>Vocabularies\<close>

definition profile_fields :: "string list" where
  "profile_fields = [''registrable_domain'', ''developer_portal_url'', ''signup_url'', ''login_url'',
     ''developer_docs_url'', ''developer_app_flow'', ''oauth_flow'', ''api_key_flow'', ''pat_flow'',
     ''approval_requirement'', ''billing_requirement'']"

definition approval_requirements :: "string list" where
  "approval_requirements = [''none'', ''manual_review'', ''invite_only'', ''unknown'']"

definition billing_requirements :: "string list" where
  "billing_requirements = [''none'', ''card_required'', ''paid_plan_required'', ''unknown'']"

definition flow_kinds :: "string list" where
  "flow_kinds = [''developer_app'', ''oauth'', ''api_key'', ''pat'', ''client_credentials'']"

definition auxiliary_host_kinds :: "string list" where
  "auxiliary_host_kinds = [''identity_provider'', ''static_assets'', ''email_link_host'']"

definition credential_kinds :: "string list" where
  "credential_kinds = [''oauth_client_id'', ''oauth_client_secret'', ''api_key'',
     ''personal_access_token'', ''client_credentials_pair'']"

definition source_digest_length :: nat where
  "source_digest_length = 64"

definition max_flow_steps :: nat where
  "max_flow_steps = 8"

definition max_flow_step_characters :: nat where
  "max_flow_step_characters = 200"

definition slug_form :: "string \<Rightarrow> bool" where
  "slug_form s = list_all (\<lambda>w. w \<noteq> [] \<and> list_all host_alnum w) (split_chr (CHR ''-'') s)"

section \<open>The parts of a profile\<close>

record field_evidence =
  fe_field :: string
  fe_value :: string
  fe_source_url :: string
  fe_source_digest :: string
  fe_adapters :: "string list"
  fe_corroborations :: int
  fe_confidence :: rat
  fe_extracted_at :: string

definition make_field_evidence :: "field_evidence \<Rightarrow> field_evidence result" where
  "make_field_evidence e =
     (if \<not> (0 \<le> fe_confidence e \<and> fe_confidence e \<le> 1)
      then Inl (ValueError ''field evidence confidence is out of range'')
      else if fe_corroborations e < 1
      then Inl (ValueError ''field evidence requires at least one corroboration'')
      else if length (fe_source_digest e) \<noteq> source_digest_length
      then Inl (ValueError ''field evidence requires a sha256 source digest'')
      else Inr e)"

record auxiliary_host =
  au_host :: string
  au_kind :: string
  au_source_digest :: string

record flow_spec =
  fl_kind :: string
  fl_supported :: bool
  fl_entry_url :: "string option"
  fl_steps :: "string list"
  fl_produces :: "string list"
  fl_requires_approval :: bool
  fl_requires_billing :: bool
  fl_evidence :: "field_evidence list"
  fl_control_names :: "string list"

definition make_flow :: "flow_spec \<Rightarrow> flow_spec result" where
  "make_flow f =
     (if fl_supported f \<and> \<not> truthy (fl_entry_url f)
      then Inl (ValueError ''a supported flow requires an entry url'')
      else if max_flow_steps < length (fl_steps f) \<or>
              list_ex (\<lambda>s. max_flow_step_characters < length s) (fl_steps f)
      then Inl (ValueError ''flow steps exceed their bound'')
      else if max_flow_steps < length (fl_control_names f) \<or>
              list_ex (\<lambda>n. strip n = [] \<or> max_flow_step_characters < length n) (fl_control_names f)
      then Inl (ValueError ''flow control names exceed their bound'')
      else Inr f)"

record provider_profile =
  pr_run_id :: string
  pr_provider_name :: string
  pr_app_slug :: string
  pr_registrable_domain :: string
  pr_auxiliary_hosts :: "auxiliary_host list"
  pr_developer_portal_url :: "string option"
  pr_signup_url :: "string option"
  pr_login_url :: "string option"
  pr_developer_docs_url :: "string option"
  pr_developer_app_flow :: flow_spec
  pr_oauth_flow :: flow_spec
  pr_api_key_flow :: flow_spec
  pr_pat_flow :: flow_spec
  pr_approval_requirement :: string
  pr_billing_requirement :: string
  pr_evidence :: "field_evidence list"
  pr_confidence :: rat
  pr_adapters_engaged :: "string list"
  pr_built_at :: string
  pr_digest :: string

definition flows :: "provider_profile \<Rightarrow> flow_spec list" where
  "flows p = [pr_developer_app_flow p, pr_oauth_flow p, pr_api_key_flow p, pr_pat_flow p]"

definition declared_urls :: "provider_profile \<Rightarrow> (string \<times> string) list" where
  "declared_urls p =
     map (\<lambda>(n, u). (n, the u)) (filter (\<lambda>(n, u). u \<noteq> None)
       ([(''developer_portal_url'', pr_developer_portal_url p), (''signup_url'', pr_signup_url p),
         (''login_url'', pr_login_url p), (''developer_docs_url'', pr_developer_docs_url p)] @
        map (\<lambda>f. (fl_kind f @ '' flow entry url'', fl_entry_url f)) (flows p)))"

definition operational_urls :: "provider_profile \<Rightarrow> string list" where
  "operational_urls p = first_occurrences (map snd (declared_urls p))"

section \<open>Construction\<close>

definition folded_host :: "string \<Rightarrow> string" where
  "folded_host h = fold_host (strip h)"

text \<open>\<^theory_text>\<open>validate_https_url\<close> of \<^theory_text>\<open>ops/core/models.py\<close>.\<close>

definition validate_https_url :: "(string \<Rightarrow> bool) \<Rightarrow> string \<Rightarrow> string result" where
  "validate_https_url v6 v =
     (if 2048 < length v then Inl (ValueError ''URL exceeds the supported length'')
      else bindR (urlsplit v6 v) (\<lambda>u.
        if scheme u \<noteq> ''https'' \<or> \<not> truthy (hostname u)
        then Inl (ValueError ''an absolute HTTPS URL is required'')
        else if username u \<noteq> None \<or> password u \<noteq> None
        then Inl (ValueError ''URLs containing user information are not allowed'')
        else Inr v))"

definition require_admitted_url :: "(string \<Rightarrow> bool) \<Rightarrow> string \<Rightarrow> string \<Rightarrow> string \<Rightarrow> unit result" where
  "require_admitted_url v6 v field domain =
     (case validate_https_url v6 v of
        Inl _ \<Rightarrow> Inl (ValueError (''profile '' @ field @ '' must be an absolute https url''))
      | Inr _ \<Rightarrow> bindR (urlsplit v6 v) (\<lambda>u.
          let host = (case hostname u of None \<Rightarrow> [] | Some h \<Rightarrow> h)
          in if registrable_domain host \<noteq> Some domain
             then Inl (ValueError (''profile '' @ field @ '' resolves outside the profile registrable domain''))
             else Inr ()))"

definition require_typed_auxiliary_host :: "auxiliary_host \<Rightarrow> string \<Rightarrow> unit result" where
  "require_typed_auxiliary_host a primary =
     (if au_kind a \<notin> set auxiliary_host_kinds
      then Inl (ValueError ''auxiliary host kind is outside the typed vocabulary'')
      else if length (au_source_digest a) \<noteq> source_digest_length
      then Inl (ValueError ''auxiliary host requires a sha256 source digest'')
      else if registrable_domain (folded_host (au_host a)) = None
      then Inl (ValueError ''auxiliary host must be a resolvable hostname'')
      else if folded_host (au_host a) = primary
      then Inl (ValueError ''auxiliary host cannot restate the primary registrable domain'')
      else Inr ())"

text \<open>A check over a list stops at the first failure.\<close>

fun checkR :: "('a \<Rightarrow> unit result) \<Rightarrow> 'a list \<Rightarrow> unit result" where
  "checkR f [] = Inr ()"
| "checkR f (x # xs) = bindR (f x) (\<lambda>_. checkR f xs)"

definition make_profile :: "(string \<Rightarrow> bool) \<Rightarrow> provider_profile \<Rightarrow> provider_profile result" where
  "make_profile v6 p =
     (if \<not> slug_form (pr_app_slug p)
      then Inl (ValueError ''provider profile requires a canonical app slug'')
      else if registrable_domain (pr_registrable_domain p) \<noteq> Some (pr_registrable_domain p)
      then Inl (ValueError ''provider profile requires exactly one canonical registrable domain'')
      else if \<not> (0 \<le> pr_confidence p \<and> pr_confidence p \<le> 1)
      then Inl (ValueError ''provider profile confidence is out of range'')
      else if pr_digest p \<noteq> [] \<and> length (pr_digest p) \<noteq> source_digest_length
      then Inl (ValueError ''provider profile digest must be a sha256 hex digest'')
      else if pr_approval_requirement p \<notin> set approval_requirements
      then Inl (ValueError ''provider profile approval requirement is outside the vocabulary'')
      else if pr_billing_requirement p \<notin> set billing_requirements
      then Inl (ValueError ''provider profile billing requirement is outside the vocabulary'')
      else bindR (checkR (\<lambda>a. require_typed_auxiliary_host a (pr_registrable_domain p)) (pr_auxiliary_hosts p)) (\<lambda>_.
           bindR (checkR (\<lambda>(n, u). require_admitted_url v6 u n (pr_registrable_domain p)) (declared_urls p)) (\<lambda>_.
             Inr p)))"

section \<open>The allow-list\<close>

text \<open>The entry points as the research contract takes them, without query and fragment.\<close>

fun entry_point_view :: "(string \<Rightarrow> bool) \<Rightarrow> string option \<Rightarrow> string option result" where
  "entry_point_view v6 None = Inr None"
| "entry_point_view v6 (Some url) = bindR (urlsplit v6 url) (\<lambda>u.
     Inr (Some (urlunsplit (u\<lparr>query := [], fragment := []\<rparr>))))"

text \<open>The names \<^theory_text>\<open>parse_qsl\<close> reads from a query, folded; an escape is one byte.\<close>

definition hex_value :: "char \<Rightarrow> nat option" where
  "hex_value c =
     (if is_digit c then Some (of_char c - 48)
      else if (97::nat) \<le> of_char c \<and> (of_char c :: nat) \<le> 102 then Some (of_char c - 87)
      else if (65::nat) \<le> of_char c \<and> (of_char c :: nat) \<le> 70 then Some (of_char c - 55)
      else None)"

fun unquote_plus :: "string \<Rightarrow> string" where
  "unquote_plus (c # s) =
     (if c = CHR ''+'' then CHR '' '' # unquote_plus s
      else if c = CHR ''%'' then
        (case s of
           a # b # r \<Rightarrow> (case (hex_value a, hex_value b) of
               (Some x, Some y) \<Rightarrow> char_of (16 * x + y) # unquote_plus r
             | _ \<Rightarrow> c # unquote_plus s)
         | _ \<Rightarrow> c # unquote_plus s)
      else c # unquote_plus s)"
| "unquote_plus [] = []"

definition query_names :: "string \<Rightarrow> string list" where
  "query_names q = map (\<lambda>item. lower (unquote_plus (fst (partition_chr (CHR ''='') item))))
     (filter (\<lambda>item. item \<noteq> []) (split_chr (CHR ''&'') q))"

definition sensitive_query_param_names :: "string list" where
  "sensitive_query_param_names = [''access_token'', ''api_key'', ''code'', ''key'', ''password'', ''secret'', ''token'']"

definition validate_operational_url :: "(string \<Rightarrow> bool) \<Rightarrow> string \<Rightarrow> string result" where
  "validate_operational_url v6 v =
     bindR (validate_https_url v6 v) (\<lambda>w. bindR (urlsplit v6 w) (\<lambda>u.
       if set (query_names (query u)) \<inter> set sensitive_query_param_names \<noteq> {}
       then Inl (ValueError ''operational URL carries sensitive query data'')
       else if fragment u \<noteq> []
       then Inl (ValueError ''operational entry URLs must not contain fragments'')
       else Inr w))"

text \<open>A field of the research contract: stripped, then validated.\<close>

fun contract_url :: "(string \<Rightarrow> string result) \<Rightarrow> string option \<Rightarrow> string option result" where
  "contract_url check None = Inr None"
| "contract_url check (Some v) = bindR (check (strip v)) (\<lambda>w. Inr (Some w))"

definition entry_candidates :: "provider_profile \<Rightarrow> research_urls" where
  "entry_candidates p =
     (let management = (case filter (\<lambda>u. u \<noteq> None) (map fl_entry_url (flows p)) of [] \<Rightarrow> None | u # _ \<Rightarrow> u);
          cs = \<lparr>ru_login_url = pr_login_url p, ru_signup_url = pr_signup_url p,
                ru_credential_management_url = management, ru_developer_portal_url = pr_developer_portal_url p\<rparr>
      in if truthy (pr_developer_portal_url p) \<or> truthy (pr_signup_url p) \<or> truthy (pr_login_url p) \<or> truthy management
         then cs
         else cs\<lparr>ru_developer_portal_url := Some (''https://'' @ pr_registrable_domain p @ ''/'')\<rparr>)"

definition max_research_slug :: nat where
  "max_research_slug = 120"

text \<open>\<^theory_text>\<open>_as_operational_research\<close>: of the contract, the four addresses that are read and every
  validation that can fail.\<close>

definition as_operational_research :: "(string \<Rightarrow> bool) \<Rightarrow> provider_profile \<Rightarrow> research_urls result" where
  "as_operational_research v6 p =
     (let c = entry_candidates p in
      bindR (entry_point_view v6 (ru_developer_portal_url c)) (\<lambda>portal.
      bindR (entry_point_view v6 (ru_signup_url c)) (\<lambda>signup.
      bindR (entry_point_view v6 (ru_login_url c)) (\<lambda>login.
      bindR (entry_point_view v6 (ru_credential_management_url c)) (\<lambda>management.
        if max_research_slug < length (pr_app_slug p)
        then Inl (ValueError ''OperationalResearch: app_slug'')
        else
          bindR (contract_url (validate_https_url v6) portal) (\<lambda>portal'.
          bindR (contract_url (validate_https_url v6) signup) (\<lambda>signup'.
          bindR (contract_url (validate_operational_url v6) login) (\<lambda>login'.
          bindR (contract_url (validate_operational_url v6) management) (\<lambda>management'.
          bindR (checkR (\<lambda>u. bindR (validate_https_url v6 (strip u)) (\<lambda>_. Inr ())) (operational_urls p)) (\<lambda>_.
            Inr \<lparr>ru_login_url = login', ru_signup_url = signup', ru_credential_management_url = management',
                 ru_developer_portal_url = portal'\<rparr>))))))))))"

definition allowed_hosts ::
    "(string \<Rightarrow> bool) \<Rightarrow> (string \<Rightarrow> app_recipe option) \<Rightarrow> string \<Rightarrow> provider_profile \<Rightarrow>
     browser_allowed_hosts result" where
  "allowed_hosts v6 lookup route p =
     bindR (as_operational_research v6 p) (\<lambda>research.
     bindR (build_browser_allowed_hosts v6 lookup (pr_app_slug p) research (Some route) None True) (\<lambda>resolved.
       if ah_vendor_wildcard_domains resolved \<noteq> [pr_registrable_domain p]
       then Inl (BrowserPolicyInactiveError (pr_app_slug p) ''reviewed_browser_policy_supersedes_profile'')
       else
         let allowed = \<lparr>ah_app_slug = pr_app_slug p,
               ah_exact_hosts = first_occurrences
                 (ah_exact_hosts resolved @ map (\<lambda>a. folded_host (au_host a)) (pr_auxiliary_hosts p)),
               ah_vendor_wildcard_domains = ah_vendor_wildcard_domains resolved\<rparr>
         in bindR (first_denied_navigation v6 (operational_urls p) allowed) (\<lambda>denied.
              case denied of
                Some _ \<Rightarrow> Inl (BrowserPolicyInactiveError (pr_app_slug p) ''discovery_domain_unproven'')
              | None \<Rightarrow> Inr allowed)))"

section \<open>The content address\<close>

datatype json =
    J_Null | J_Bool bool | J_Num rat | J_Text string | J_List "json list" | J_Object "(string \<times> json) list"

fun json_option :: "string option \<Rightarrow> json" where
  "json_option None = J_Null"
| "json_option (Some s) = J_Text s"

definition json_texts :: "string list \<Rightarrow> json" where
  "json_texts ss = J_List (map J_Text ss)"

definition evidence_body :: "field_evidence \<Rightarrow> json" where
  "evidence_body e = J_Object
     [(''field'', J_Text (fe_field e)), (''value'', J_Text (fe_value e)), (''source_url'', J_Text (fe_source_url e)),
      (''source_digest'', J_Text (fe_source_digest e)), (''adapters'', json_texts (fe_adapters e)),
      (''corroborations'', J_Num (of_int (fe_corroborations e))), (''confidence'', J_Num (fe_confidence e))]"

definition auxiliary_body :: "auxiliary_host \<Rightarrow> json" where
  "auxiliary_body a = J_Object
     [(''host'', J_Text (au_host a)), (''kind'', J_Text (au_kind a)), (''source_digest'', J_Text (au_source_digest a))]"

definition flow_body :: "flow_spec \<Rightarrow> json" where
  "flow_body f = J_Object
     [(''kind'', J_Text (fl_kind f)), (''supported'', J_Bool (fl_supported f)), (''entry_url'', json_option (fl_entry_url f)),
      (''steps'', json_texts (fl_steps f)), (''produces'', json_texts (fl_produces f)),
      (''requires_approval'', J_Bool (fl_requires_approval f)), (''requires_billing'', J_Bool (fl_requires_billing f)),
      (''evidence'', J_List (map evidence_body (fl_evidence f))), (''control_names'', json_texts (fl_control_names f))]"

text \<open>\<^theory_text>\<open>_canonical_digest_body\<close> of a profile: every field but the run, the build time, the
  adapters and the digest itself, and of a citation all but its extraction time.\<close>

definition canonical_body :: "provider_profile \<Rightarrow> json" where
  "canonical_body p = J_Object
     [(''provider_name'', J_Text (pr_provider_name p)), (''app_slug'', J_Text (pr_app_slug p)),
      (''registrable_domain'', J_Text (pr_registrable_domain p)),
      (''auxiliary_hosts'', J_List (map auxiliary_body (pr_auxiliary_hosts p))),
      (''developer_portal_url'', json_option (pr_developer_portal_url p)),
      (''signup_url'', json_option (pr_signup_url p)), (''login_url'', json_option (pr_login_url p)),
      (''developer_docs_url'', json_option (pr_developer_docs_url p)),
      (''developer_app_flow'', flow_body (pr_developer_app_flow p)), (''oauth_flow'', flow_body (pr_oauth_flow p)),
      (''api_key_flow'', flow_body (pr_api_key_flow p)), (''pat_flow'', flow_body (pr_pat_flow p)),
      (''approval_requirement'', J_Text (pr_approval_requirement p)),
      (''billing_requirement'', J_Text (pr_billing_requirement p)),
      (''evidence'', J_List (map evidence_body (pr_evidence p))), (''confidence'', J_Num (pr_confidence p))]"

text \<open>\<^theory_text>\<open>sha\<close> is the hash of the canonical text of a value.\<close>

definition compute_profile_digest :: "(json \<Rightarrow> string) \<Rightarrow> provider_profile \<Rightarrow> string" where
  "compute_profile_digest sha p = sha (canonical_body p)"

section \<open>Views of addresses\<close>

lemma partition_chr_eq: "partition_chr c s = (a, f, b) \<Longrightarrow> s = a @ (if f then c # b else []) \<and> c \<notin> set a \<and> (\<not> f \<longrightarrow> b = [])"
  by (induction s arbitrary: a) (auto simp: partition_chr_def split: if_splits)

lemma split_scheme_length:
  "split_scheme url = (sch, rest) \<Longrightarrow> sch \<noteq> [] \<Longrightarrow> length sch + 1 + length rest = length url \<and> set rest \<subseteq> set url"
proof -
  assume a: "split_scheme url = (sch, rest)" and ne: "sch \<noteq> []"
  obtain x f b where x: "partition_chr (CHR '':'') url = (x, f, b)" using prod_cases3 by blast
  have "f" "sch = lower x" "rest = b" using a ne by (auto simp: split_scheme_def x split: if_splits)
  then show ?thesis using partition_chr_eq [OF x] by (auto simp: lower_def)
qed

lemma split_netloc_parts:
  "split_netloc url = (nl, rest) \<Longrightarrow> nl \<noteq> [] \<Longrightarrow>
     length nl + 2 + length rest = length url \<and> set nl \<union> set rest \<subseteq> set url \<and>
     list_all (\<lambda>c. \<not> netloc_end c) nl \<and> (rest = [] \<or> netloc_end (hd rest))"
proof -
  assume a: "split_netloc url = (nl, rest)" "nl \<noteq> []"
  then have u: "url = ''//'' @ drop 2 url" and e: "nl = takeWhile (\<lambda>c. \<not> netloc_end c) (drop 2 url)"
    "rest = dropWhile (\<lambda>c. \<not> netloc_end c) (drop 2 url)"
    by (auto simp: split_netloc_def starts_with_iff split: if_splits)
  have d: "drop 2 url = nl @ rest" using e by simp
  have "url = ''//'' @ nl @ rest" using u unfolding d .
  then have "length nl + 2 + length rest = length url" "set nl \<union> set rest \<subseteq> set url" by auto
  moreover have "list_all (\<lambda>c. \<not> netloc_end c) nl" using e(1) set_takeWhileD by (fastforce simp: list_all_iff)
  moreover have "rest = [] \<or> netloc_end (hd rest)" using e(2) hd_dropWhile by blast
  ultimately show ?thesis by simp
qed

lemma split_path:
  assumes "partition_chr (CHR ''#'') rest = (r1, f, frag)" "partition_chr (CHR ''?'') r1 = (p, g, q)"
    and "rest = [] \<or> netloc_end (hd rest)"
  shows "length p \<le> length rest" "set p \<subseteq> set rest" "CHR ''#'' \<notin> set p" "CHR ''?'' \<notin> set p" "p = [] \<or> hd p = CHR ''/''"
proof -
  have r: "rest = r1 @ (if f then CHR ''#'' # frag else [])" "CHR ''#'' \<notin> set r1"
    "r1 = p @ (if g then CHR ''?'' # q else [])" "CHR ''?'' \<notin> set p"
    using partition_chr_eq [OF assms(1)] partition_chr_eq [OF assms(2)] by auto
  then show "length p \<le> length rest" "set p \<subseteq> set rest" "CHR ''#'' \<notin> set p" "CHR ''?'' \<notin> set p" by auto
  show "p = [] \<or> hd p = CHR ''/''"
  proof (cases p)
    case (Cons c cs)
    then have "hd rest = c" "rest \<noteq> []" "c \<noteq> CHR ''#''" "c \<noteq> CHR ''?''" using r by auto
    then show ?thesis using assms(3) Cons by (auto simp: netloc_end_def)
  qed simp
qed

lemma urlsplit_parts:
  assumes "urlsplit v6 url = Inr u" "netloc u \<noteq> []" "scheme u \<noteq> []"
  shows "bracket_ok v6 (netloc u)" "list_all (\<lambda>c. \<not> netloc_end c) (netloc u)"
    "\<not> list_ex unsafe_url_char (netloc u)" "\<not> list_ex unsafe_url_char (path u)"
    "CHR ''#'' \<notin> set (path u)" "CHR ''?'' \<notin> set (path u)" "path u = [] \<or> hd (path u) = CHR ''/''"
    "set (netloc u) \<union> set (path u) \<subseteq> set url"
    "length (scheme u) + 3 + length (netloc u) + length (path u) \<le> length url"
proof -
  let ?url1 = "filter (\<lambda>c. \<not> unsafe_url_char c) (dropWhile c0_or_space url)"
  obtain sch url2 where a: "split_scheme ?url1 = (sch, url2)" by fastforce
  obtain nl url3 where b: "split_netloc url2 = (nl, url3)" by fastforce
  obtain url4 f frag where c: "partition_chr (CHR ''#'') url3 = (url4, f, frag)" using prod_cases3 by blast
  obtain p g q where d: "partition_chr (CHR ''?'') url4 = (p, g, q)" using prod_cases3 by blast
  have u: "u = \<lparr>scheme = sch, netloc = nl, path = p, query = q, fragment = frag\<rparr>" and ok: "bracket_ok v6 nl"
    using assms(1) by (auto simp: urlsplit_def a b c d Let_def split: if_splits)
  have ne: "nl \<noteq> []" "sch \<noteq> []" using assms(2,3) u by auto
  note A = split_scheme_length [OF a ne(2)] and B = split_netloc_parts [OF b ne(1)]
  have len: "length ?url1 \<le> length url"
    by (meson length_dropWhile_le length_filter_le le_trans)
  have sub: "set ?url1 \<subseteq> set url" by (auto dest: set_dropWhileD)
  have safe: "\<forall>c\<in>set ?url1. \<not> unsafe_url_char c" by simp
  have D: "length p \<le> length url3" "set p \<subseteq> set url3" "CHR ''#'' \<notin> set p" "CHR ''?'' \<notin> set p" "p = [] \<or> hd p = CHR ''/''"
    using split_path [OF c d] B by auto
  have s1: "set nl \<union> set p \<subseteq> set ?url1" using A B D(2) by blast
  then have unsafe: "\<forall>c\<in>set nl. \<not> unsafe_url_char c" "\<forall>c\<in>set p. \<not> unsafe_url_char c"
    using safe by blast+
  show "bracket_ok v6 (netloc u)" "list_all (\<lambda>c. \<not> netloc_end c) (netloc u)"
    "CHR ''#'' \<notin> set (path u)" "CHR ''?'' \<notin> set (path u)" "path u = [] \<or> hd (path u) = CHR ''/''"
    using ok B D(3-5) by (simp_all add: u)
  show "\<not> list_ex unsafe_url_char (netloc u)" "\<not> list_ex unsafe_url_char (path u)"
    using unsafe by (simp_all add: u list_ex_iff)
  have "set nl \<union> set p \<subseteq> set url" using s1 sub by blast
  then show "set (netloc u) \<union> set (path u) \<subseteq> set url" by (simp add: u)
  show "length (scheme u) + 3 + length (netloc u) + length (path u) \<le> length url"
  proof -
    have "length sch + 1 + length url2 = length ?url1" "length nl + 2 + length url3 = length url2"
      using A B by simp_all
    then show ?thesis using D(1) len unfolding u by simp
  qed
qed

lemma urlsplit_https_bracketed:
  assumes "list_all (\<lambda>c. \<not> netloc_end c) h" "bracket_ok v6 h"
    and "\<not> list_ex unsafe_url_char h" "\<not> list_ex unsafe_url_char p"
    and "CHR ''#'' \<notin> set p" "CHR ''?'' \<notin> set p" "p = [] \<or> hd p = CHR ''/''"
  shows "urlsplit v6 (''https://'' @ h @ p) =
    Inr \<lparr>scheme = ''https'', netloc = h, path = p, query = [], fragment = []\<rparr>"
proof -
  let ?u = "''https://'' @ h @ p"
  have a: "dropWhile c0_or_space ?u = ?u" by (simp add: c0_or_space_def)
  have b: "filter (\<lambda>c. \<not> unsafe_url_char c) ?u = ?u"
    using assms(3,4) by (simp add: filter_id_conv list_ex_iff unsafe_url_char_def Let_def)
  have c: "split_scheme ?u = (''https'', ''//'' @ h @ p)"
    by (simp add: split_scheme_def partition_chr_def is_alpha_def scheme_char_def
        is_lower_alpha_def is_upper_alpha_def lower_def lower_char_def Let_def)
  have n: "takeWhile (\<lambda>c. \<not> netloc_end c) p = []" "dropWhile (\<lambda>c. \<not> netloc_end c) p = p"
    using assms(7) by (cases p; simp add: netloc_end_def)+
  have d: "split_netloc (''//'' @ h @ p) = (h, p)"
    using n assms(1) by (simp add: split_netloc_def starts_with_def takeWhile_all_app dropWhile_all_app)
  show ?thesis
    unfolding urlsplit_def a b c Let_def split d
    using assms(2,5,6) by (simp add: partition_chr_none)
qed

text \<open>The view of a valid address is a valid address of the same host.\<close>

definition no_blanks :: "string \<Rightarrow> bool" where
  "no_blanks s = list_all (\<lambda>c. \<not> is_space c) s"

lemma no_blanks_strip: "no_blanks s \<Longrightarrow> strip s = s"
  using strip_idem_of_ends [of s] by (cases "s = []") (simp_all add: no_blanks_def list_all_iff)

lemma hostname_only_netloc: "netloc u = netloc w \<Longrightarrow> hostname u = hostname w \<and> username u = username w \<and> password u = password w"
  by (simp add: hostname_def hostinfo_def username_def password_def userinfo_def)

lemma is_space_lower [simp]: "is_space (lower_char c) = is_space c"
  by (auto simp: lower_char_def is_upper_alpha_def is_space_def Let_def)

lemma no_blanks_part: "no_blanks s \<Longrightarrow> set t \<subseteq> set s \<Longrightarrow> no_blanks t"
  by (auto simp: no_blanks_def list_all_iff)

lemma set_partition_chr: "partition_chr c s = (a, f, b) \<Longrightarrow> set a \<subseteq> set s \<and> set b \<subseteq> set s"
  using partition_chr_eq [of c s a f b] by (cases f) auto

lemma set_rpartition_chr: "rpartition_chr c s = (a, f, b) \<Longrightarrow> set a \<subseteq> set s \<and> set b \<subseteq> set s"
  by (auto simp: rpartition_chr_def split: if_splits prod.splits dest!: set_partition_chr)

lemma hostname_no_blanks:
  assumes "hostname u = Some h" "no_blanks (netloc u)"
  shows "no_blanks h"
proof -
  have "set (fst (hostinfo u)) \<subseteq> set (netloc u)"
    by (auto simp: hostinfo_def Let_def split: prod.splits if_splits dest!: set_partition_chr set_rpartition_chr)
  then have n: "no_blanks (fst (hostinfo u))" using assms(2) no_blanks_part by blast
  obtain a f z where x: "partition_chr (CHR ''%'') (fst (hostinfo u)) = (a, f, z)" using prod_cases3 by blast
  have h: "h = lower a @ (if f then CHR ''%'' # z else [])"
    using assms(1) by (auto simp: hostname_def Let_def x split: if_splits)
  have "fst (hostinfo u) = a @ (if f then CHR ''%'' # z else [])"
    using partition_chr_eq [OF x] by simp
  with n show ?thesis unfolding h by (auto simp: no_blanks_def lower_def list_all_iff)
qed

definition own_url :: "(string \<Rightarrow> bool) \<Rightarrow> string \<Rightarrow> string \<Rightarrow> bool" where
  "own_url v6 zone url = (validate_https_url v6 url = Inr url \<and> no_blanks url \<and>
     (\<exists>u h. urlsplit v6 url = Inr u \<and> hostname u = Some h \<and> registrable_domain h = Some zone))"

lemma own_url_split:
  assumes "own_url v6 zone url"
  obtains u h where "urlsplit v6 url = Inr u" "scheme u = ''https''" "hostname u = Some h" "h \<noteq> []"
    "username u = None" "password u = None" "registrable_domain h = Some zone" "no_blanks h" "netloc u \<noteq> []"
proof -
  obtain u h where u: "urlsplit v6 url = Inr u" "hostname u = Some h" "registrable_domain h = Some zone"
    using assms by (auto simp: own_url_def)
  have v: "scheme u = ''https''" "h \<noteq> []" "username u = None" "password u = None"
    using assms u(2) by (auto simp: own_url_def validate_https_url_def u(1) truthy_def split: if_splits)
  have n: "netloc u \<noteq> []" using u(2) hostname_netloc_empty [of u] by auto
  have "no_blanks (netloc u)"
    using urlsplit_parts(8) [OF u(1) n] v(1) assms by (auto simp: own_url_def intro: no_blanks_part)
  then have "no_blanks h" using hostname_no_blanks u(2) by blast
  then show thesis using that u v n by blast
qed

lemma own_url_https:
  assumes "list_all (\<lambda>c. \<not> netloc_end c) h" "bracket_ok v6 h" "no_blanks h" "no_blanks p"
    and "\<not> list_ex unsafe_url_char h" "\<not> list_ex unsafe_url_char p" "CHR ''#'' \<notin> set p" "CHR ''?'' \<notin> set p"
    and "p = [] \<or> hd p = CHR ''/''" "length h + length p \<le> 2040"
    and "hostname w = Some x" "registrable_domain x = Some zone" "username w = None" "password w = None" "netloc w = h"
  shows "own_url v6 zone (''https://'' @ h @ p)" "validate_operational_url v6 (''https://'' @ h @ p) = Inr (''https://'' @ h @ p)"
proof -
  let ?u = "\<lparr>scheme = ''https'', netloc = h, path = p, query = [], fragment = []\<rparr>"
  have s: "urlsplit v6 (''https://'' @ h @ p) = Inr ?u"
    using assms by (intro urlsplit_https_bracketed) simp_all
  have f: "hostname ?u = Some x" "username ?u = None" "password ?u = None"
    using hostname_only_netloc [of ?u w] assms by simp_all
  have x: "x \<noteq> []" using assms(12) by (auto simp: registrable_domain_def fold_host_def rstrip_chr_def lower_def)
  have v: "validate_https_url v6 (''https://'' @ h @ p) = Inr (''https://'' @ h @ p)"
    using assms(10) s f x by (simp add: validate_https_url_def truthy_def)
  have "no_blanks (''https://'' @ h @ p)"
    using assms(3,4) by (simp add: no_blanks_def is_space_def)
  then show "own_url v6 zone (''https://'' @ h @ p)"
    using v s f assms(12) by (auto simp: own_url_def)
  show "validate_operational_url v6 (''https://'' @ h @ p) = Inr (''https://'' @ h @ p)"
    using v s by (simp add: validate_operational_url_def query_names_def)
qed

lemma own_url_view:
  assumes "own_url v6 zone url"
  obtains v where "entry_point_view v6 (Some url) = Inr (Some v)" "own_url v6 zone v" "validate_operational_url v6 v = Inr v"
proof -
  obtain u h where u: "urlsplit v6 url = Inr u" "scheme u = ''https''" "hostname u = Some h" "username u = None"
    "password u = None" "registrable_domain h = Some zone" "netloc u \<noteq> []"
    using assms by (rule own_url_split)
  have "scheme u \<noteq> []" using u(2) by simp
  note p = urlsplit_parts [OF u(1,7) this]
  have len: "length url \<le> 2048" and nb: "no_blanks url"
    using assms by (auto simp: own_url_def validate_https_url_def split: if_splits)
  have nbs: "no_blanks (netloc u)" "no_blanks (path u)" using p(8) nb by (auto intro: no_blanks_part)
  have "length (netloc u) + length (path u) \<le> 2040" using p(9) len u(2) by simp
  note o = own_url_https [OF p(2,1) nbs p(3-7) this u(3,6,4,5) refl]
  have "urlunsplit (u\<lparr>query := [], fragment := []\<rparr>) = ''https://'' @ netloc u @ path u"
    using p(7) u(2,7) by (auto simp: urlunsplit_def)
  then show thesis using that o u(1) by simp
qed

section \<open>The derived allow-list\<close>

lemma checkR_Inr_iff [result_simps]: "checkR f xs = Inr u \<longleftrightarrow> (\<forall>x\<in>set xs. f x = Inr ())"
  by (induction xs) (auto simp: result_simps)

lemma make_profile_Inr:
  assumes "make_profile v6 p = Inr q"
  shows "q = p" "registrable_domain (pr_registrable_domain p) = Some (pr_registrable_domain p)"
    "\<forall>a\<in>set (pr_auxiliary_hosts p). require_typed_auxiliary_host a (pr_registrable_domain p) = Inr ()"
    "\<forall>(n, u)\<in>set (declared_urls p). require_admitted_url v6 u n (pr_registrable_domain p) = Inr ()"
  using assms by (auto simp: make_profile_def result_simps split: if_splits)

lemma declared_own:
  assumes "make_profile v6 p = Inr q" "(n, url) \<in> set (declared_urls p)" "no_blanks url"
  shows "own_url v6 (pr_registrable_domain p) url"
proof -
  have r: "require_admitted_url v6 url n (pr_registrable_domain p) = Inr ()"
    using make_profile_Inr(4) [OF assms(1)] assms(2) by auto
  obtain w where w: "validate_https_url v6 url = Inr w"
    using r by (auto simp: require_admitted_url_def split: sum.splits)
  moreover have "w = url" using w by (auto simp: validate_https_url_def result_simps split: if_splits)
  ultimately show ?thesis
    using r assms(3)
    by (auto simp: own_url_def require_admitted_url_def validate_https_url_def truthy_def result_simps Let_def
        split: if_splits option.splits)
qed

lemma own_url_target: "own_url v6 zone url \<Longrightarrow> target_domain v6 url d \<longleftrightarrow> d = zone"
  by (erule own_url_split) (auto simp: target_domain_def)

lemma discovered_domains_returns:
  "\<forall>url\<in>set urls. \<exists>u. urlsplit v6 url = Inr u \<Longrightarrow> \<exists>ds. discovered_domains v6 urls = Inr ds"
proof (induction urls)
  case (Cons url urls)
  then obtain u ds where u: "urlsplit v6 url = Inr u" "discovered_domains v6 urls = Inr ds" by auto
  show ?case
    by (cases "scheme u \<noteq> ''https'' \<or> \<not> truthy (hostname u)"; cases "registrable_domain (the (hostname u))")
      (simp_all add: u)
qed simp

lemma discovered_own:
  assumes "\<forall>url\<in>set (navigation_target_urls r). own_url v6 zone url" "navigation_target_urls r \<noteq> []"
  shows "discovered_policy_from_research v6 slug r = Inr (Some \<lparr>hp_app_slug = slug, hp_active = True,
     hp_exact_hosts = [zone], hp_vendor_wildcard_domains = [zone], hp_identity_provider_hosts = [], hp_post_auth_hosts = []\<rparr>)"
proof -
  let ?us = "navigation_target_urls r"
  have "\<forall>url\<in>set ?us. \<exists>u. urlsplit v6 url = Inr u" using assms(1) by (auto simp: own_url_def)
  then obtain ds where ds: "discovered_domains v6 ?us = Inr ds" using discovered_domains_returns by blast
  have "distinct ds" "set ds = {zone}"
    using discovered_domains_Inr [OF ds] assms own_url_target
    by (auto, metis last_in_set)
  then have "ds = [zone]" by (cases ds; cases "tl ds") auto
  then show ?thesis using ds by (simp add: discovered_policy_from_research_def)
qed

text \<open>A registrable domain written in host characters.\<close>

definition plain_zone :: "string \<Rightarrow> bool" where
  "plain_zone z = (list_all (\<lambda>c. host_alnum c \<or> c = CHR ''-'' \<or> c = CHR ''.'') z \<and> length z \<le> 253)"

lemma host_char_facts:
  "host_alnum c \<or> c = CHR ''-'' \<or> c = CHR ''.'' \<Longrightarrow>
   \<not> is_space c \<and> \<not> is_upper_alpha c \<and> \<not> netloc_end c \<and> \<not> unsafe_url_char c \<and> c \<noteq> CHR ''@'' \<and> c \<noteq> CHR ''['' \<and>
   c \<noteq> CHR '']'' \<and> c \<noteq> CHR '':'' \<and> c \<noteq> CHR ''%'' \<and> c \<noteq> CHR ''*''"
  by (auto simp: host_alnum_def is_lower_alpha_def is_digit_def is_space_def is_upper_alpha_def netloc_end_def
      unsafe_url_char_def Let_def)

lemma apex_url:
  assumes "plain_zone zone" "registrable_domain zone = Some zone"
  shows "own_url v6 zone (''https://'' @ zone @ ''/'')"
proof -
  have c: "\<forall>c\<in>set zone. host_alnum c \<or> c = CHR ''-'' \<or> c = CHR ''.''" and l: "length zone \<le> 253"
    using assms(1) by (auto simp: plain_zone_def list_all_iff)
  let ?u = "\<lparr>scheme = ''https'', netloc = zone, path = ''/'', query = [], fragment = []\<rparr>"
  have n: "CHR ''@'' \<notin> set zone" "CHR ''['' \<notin> set zone" "CHR '']'' \<notin> set zone" "CHR '':'' \<notin> set zone" "CHR ''%'' \<notin> set zone"
    using c host_char_facts by blast+
  have ne: "zone \<noteq> []" using assms(2) by (auto simp: registrable_domain_def fold_host_def rstrip_chr_def lower_def)
  have low: "lower zone = zone" using c host_char_facts by (intro lower_id) (auto simp: list_all_iff)
  have s: "hostname ?u = Some zone" "username ?u = None" "password ?u = None"
    using simple_netloc [of zone ?u] n ne low by simp_all
  have "list_all (\<lambda>c. \<not> netloc_end c) zone" "no_blanks zone" "\<not> list_ex unsafe_url_char zone"
    using c host_char_facts by (auto simp: list_all_iff list_ex_iff no_blanks_def)
  then show ?thesis
    using own_url_https(1) [of zone v6 "''/''" ?u zone zone] s n l assms(2)
    by (simp add: bracket_ok_def no_blanks_def is_space_def unsafe_url_char_def)
qed

lemma declared_iff:
  "(n, url) \<in> set (map (\<lambda>(n, u). (n, the u)) (filter (\<lambda>(n, u). u \<noteq> None) xs)) \<longleftrightarrow> (n, Some url) \<in> set xs"
  by force

lemma own_url_truthy: "own_url v6 zone url \<Longrightarrow> url \<noteq> []"
  by (erule own_url_split) (auto simp: urlsplit_def split_scheme_def split_netloc_def starts_with_def
      partition_chr_def Let_def split: if_splits)

lemma research_own:
  assumes "make_profile v6 p = Inr q" "list_all no_blanks (operational_urls p)"
    and "plain_zone (pr_registrable_domain p)" "length (pr_app_slug p) \<le> max_research_slug"
  obtains r where "as_operational_research v6 p = Inr r" "navigation_target_urls r \<noteq> []"
    "\<forall>url\<in>set (navigation_target_urls r). own_url v6 (pr_registrable_domain p) url"
proof -
  let ?z = "pr_registrable_domain p"
  let ?c = "entry_candidates p"
  define own where "own x = (case x of None \<Rightarrow> True | Some url \<Rightarrow> own_url v6 ?z url)" for x
  have decl: "own_url v6 ?z url" if "(n, url) \<in> set (declared_urls p)" for n url
  proof (rule declared_own [OF assms(1) that])
    show "no_blanks url"
      using assms(2) that by (force simp: operational_urls_def list_all_iff)
  qed
  have fields: "own (pr_developer_portal_url p)" "own (pr_signup_url p)" "own (pr_login_url p)"
    "\<forall>f\<in>set (flows p). own (fl_entry_url f)"
  proof -
    let ?xs = "[(''developer_portal_url'', pr_developer_portal_url p), (''signup_url'', pr_signup_url p),
         (''login_url'', pr_login_url p), (''developer_docs_url'', pr_developer_docs_url p)] @
        map (\<lambda>f. (fl_kind f @ '' flow entry url'', fl_entry_url f)) (flows p)"
    have o: "own x" if "(n, x) \<in> set ?xs" for n x
      using decl [of n] that unfolding declared_urls_def declared_iff by (cases x) (simp_all add: own_def)
    show "own (pr_developer_portal_url p)" by (rule o [of "''developer_portal_url''"]) simp
    show "own (pr_signup_url p)" by (rule o [of "''signup_url''"]) simp
    show "own (pr_login_url p)" by (rule o [of "''login_url''"]) simp
    show "\<forall>f\<in>set (flows p). own (fl_entry_url f)"
    proof
      fix f assume "f \<in> set (flows p)"
      then show "own (fl_entry_url f)" by (intro o [of "fl_kind f @ '' flow entry url''"]) simp
    qed
  qed
  have management: "own (case filter (\<lambda>u. u \<noteq> None) (map fl_entry_url (flows p)) of [] \<Rightarrow> None | u # _ \<Rightarrow> u)"
  proof (cases "filter (\<lambda>u. u \<noteq> None) (map fl_entry_url (flows p))")
    case (Cons u us)
    then have "u \<in> set (filter (\<lambda>u. u \<noteq> None) (map fl_entry_url (flows p)))" by simp
    then show ?thesis using fields(4) Cons by auto
  qed (simp add: own_def)
  have apex: "own (Some (''https://'' @ ?z @ ''/''))"
    using apex_url [OF assms(3) make_profile_Inr(2) [OF assms(1)]] by (simp add: own_def)
  have c: "own (ru_login_url ?c)" "own (ru_signup_url ?c)" "own (ru_credential_management_url ?c)"
    "own (ru_developer_portal_url ?c)"
    using fields management apex by (simp_all add: entry_candidates_def Let_def)
  have some: "ru_login_url ?c \<noteq> None \<or> ru_signup_url ?c \<noteq> None \<or> ru_credential_management_url ?c \<noteq> None \<or>
      ru_developer_portal_url ?c \<noteq> None"
    by (auto simp: entry_candidates_def Let_def truthy_def split: option.splits)
  define viewed where "viewed x w \<longleftrightarrow> entry_point_view v6 x = Inr w \<and> own w \<and> (w = None \<longleftrightarrow> x = None) \<and>
      contract_url (validate_https_url v6) w = Inr w \<and> contract_url (validate_operational_url v6) w = Inr w" for x w
  have view: "\<exists>w. viewed x w" if "own x" for x
  proof (cases x)
    case (Some url)
    then have "own_url v6 ?z url" using that by (simp add: own_def)
    then obtain v where v: "entry_point_view v6 (Some url) = Inr (Some v)" "own_url v6 ?z v" "validate_operational_url v6 v = Inr v"
      by (rule own_url_view)
    then have "strip v = v" "validate_https_url v6 v = Inr v" by (auto simp: own_url_def no_blanks_strip)
    then have "viewed x (Some v)" using v Some by (simp add: viewed_def own_def)
    then show ?thesis by blast
  qed (auto simp: viewed_def own_def)
  obtain l s m d where w: "viewed (ru_login_url ?c) l" "viewed (ru_signup_url ?c) s"
    "viewed (ru_credential_management_url ?c) m" "viewed (ru_developer_portal_url ?c) d"
    using view c by metis
  have evidence: "checkR (\<lambda>u. bindR (validate_https_url v6 (strip u)) (\<lambda>_. Inr ())) (operational_urls p) = Inr ()"
    using decl by (force simp: result_simps operational_urls_def own_url_def no_blanks_strip)
  let ?r = "\<lparr>ru_login_url = l, ru_signup_url = s, ru_credential_management_url = m, ru_developer_portal_url = d\<rparr>"
  have r: "as_operational_research v6 p = Inr ?r"
    using w assms(4) evidence by (simp add: viewed_def as_operational_research_def Let_def)
  have "\<forall>url\<in>set (navigation_target_urls ?r). own_url v6 ?z url"
    using w by (auto simp: viewed_def navigation_target_urls_def own_def truthy_def split: option.splits if_splits)
  moreover have "navigation_target_urls ?r \<noteq> []"
    using some w own_url_truthy by (auto simp: viewed_def navigation_target_urls_def own_def truthy_def split: option.splits)
  ultimately show thesis using r that by blast
qed

lemma first_denied_None:
  "\<forall>url\<in>set urls. \<exists>d. evaluate_navigation v6 url a = Inr d \<and> hd_allowed d \<Longrightarrow>
     first_denied_navigation v6 urls a = Inr None"
  by (induction urls) auto

lemma plain_zone_no_wildcard: "plain_zone z \<Longrightarrow> \<not> is_wildcard z"
proof
  assume "plain_zone z" "is_wildcard z"
  then obtain t where "z = ''*.'' @ t" "\<forall>c\<in>set z. host_alnum c \<or> c = CHR ''-'' \<or> c = CHR ''.''"
    by (auto simp: plain_zone_def is_wildcard_def starts_with_iff list_all_iff)
  then show False using host_char_facts [of "CHR ''*''"] by auto
qed

text \<open>The allow-list of an admitted profile, whatever its auxiliary hosts.\<close>

definition own_allowed :: "provider_profile \<Rightarrow> browser_allowed_hosts" where
  "own_allowed p = \<lparr>ah_app_slug = pr_app_slug p,
     ah_exact_hosts = first_occurrences ([pr_registrable_domain p] @
       map (\<lambda>a. folded_host (au_host a)) (pr_auxiliary_hosts p)),
     ah_vendor_wildcard_domains = [pr_registrable_domain p]\<rparr>"

lemma own_allowed_domain:
  assumes "plain_zone (pr_registrable_domain p)"
    and "fold_host h = pr_registrable_domain p \<or> (\<exists>sub. fold_host h = sub @ ''.'' @ pr_registrable_domain p)"
  shows "host_matches_patterns h (patterns (own_allowed p))"
  using assms(2) plain_zone_no_wildcard [OF assms(1)]
  by (auto simp: host_matches_patterns_iff patterns_def own_allowed_def pattern_matches_iff [of _ "CHR ''*'' # _"]
      pattern_matches_def [of _ "pr_registrable_domain p"])

lemma own_allowed_hosts:
  assumes "plain_zone (pr_registrable_domain p)"
  shows "host_matches_patterns h (patterns (own_allowed p)) \<longleftrightarrow> fold_host h = pr_registrable_domain p \<or>
       (\<exists>sub. fold_host h = sub @ ''.'' @ pr_registrable_domain p) \<or>
       (\<exists>x\<in>set (pr_auxiliary_hosts p). if is_wildcard (folded_host (au_host x))
          then \<exists>sub. fold_host h = sub @ tl (folded_host (au_host x)) else fold_host h = folded_host (au_host x))"
proof -
  have pm: "pattern_matches (fold_host h) a \<longleftrightarrow>
      (if is_wildcard a then \<exists>sub. fold_host h = sub @ tl a else fold_host h = a)" for a
    by (cases a rule: list.exhaust; cases "tl a")
      (auto simp: pattern_matches_iff is_wildcard_def starts_with_def)
  show ?thesis
    using plain_zone_no_wildcard [OF assms(1)]
    by (auto simp: host_matches_patterns_iff patterns_def own_allowed_def pm) metis
qed

lemma own_allowed_url:
  assumes "make_profile v6 p = Inr q" "list_all no_blanks (operational_urls p)"
    and "plain_zone (pr_registrable_domain p)" "url \<in> set (operational_urls p)"
  shows "\<exists>d. evaluate_navigation v6 url (own_allowed p) = Inr d \<and> hd_allowed d"
proof -
  have "no_blanks url" using assms(2,4) by (simp add: list_all_iff)
  moreover have "url \<in> snd ` set (declared_urls p)"
    using assms(4) by (simp only: operational_urls_def set_first_occurrences set_map)
  then obtain n where "(n, url) \<in> set (declared_urls p)"
    by (rule imageE) (metis prod.collapse)
  ultimately have "own_url v6 (pr_registrable_domain p) url" using declared_own [OF assms(1)] by blast
  then obtain u h where u: "urlsplit v6 url = Inr u" "scheme u = ''https''" "hostname u = Some h" "h \<noteq> []"
    "username u = None" "password u = None" "registrable_domain h = Some (pr_registrable_domain p)" "no_blanks h"
    by (rule own_url_split)
  obtain d where d: "evaluate_navigation v6 url (own_allowed p) = Inr d"
    using evaluate_navigation_returns [OF u(1)] by blast
  have "strip h = h" using u(8) by (rule no_blanks_strip)
  then have "host_matches_patterns h (patterns (own_allowed p))"
    using registrable_domain_suffix [OF u(7)] by (intro own_allowed_domain [OF assms(3)]) auto
  then have "hd_allowed d"
    using evaluate_navigation_Inr [OF d] u by (simp add: truthy_def)
  then show ?thesis using d by blast
qed

lemma allowed_hosts_own:
  assumes "make_profile v6 p = Inr q" "list_all no_blanks (operational_urls p)"
    and "plain_zone (pr_registrable_domain p)" "length (pr_app_slug p) \<le> max_research_slug"
    and "route \<in> browser_routes" "get_browser_policy lookup (pr_app_slug p) = None"
  shows "allowed_hosts v6 lookup route p = Inr (own_allowed p)"
proof -
  let ?z = "pr_registrable_domain p" and ?slug = "pr_app_slug p"
  obtain r where r: "as_operational_research v6 p = Inr r" "navigation_target_urls r \<noteq> []"
    "\<forall>url\<in>set (navigation_target_urls r). own_url v6 ?z url"
    using research_own [OF assms(1-4)] by blast
  let ?resolved = "\<lparr>ah_app_slug = ?slug, ah_exact_hosts = [?z], ah_vendor_wildcard_domains = [?z]\<rparr>"
  have b: "build_browser_allowed_hosts v6 lookup ?slug r (Some route) None True = Inr ?resolved"
    using assms(5,6) discovered_own [OF r(3,2)]
    by (simp add: build_browser_allowed_hosts_def allowed_from_policy_def)
  have nav: "\<forall>url\<in>set (operational_urls p). \<exists>d. evaluate_navigation v6 url (own_allowed p) = Inr d \<and> hd_allowed d"
    using own_allowed_url [OF assms(1-3)] by blast
  show ?thesis
    using r(1) b first_denied_None [of "operational_urls p" v6 "own_allowed p"] nav
    by (simp add: allowed_hosts_def Let_def own_allowed_def)
qed


section \<open>Instances\<close>

definition plain_flow :: flow_spec where
  "plain_flow = \<lparr>fl_kind = ''developer_app'', fl_supported = True, fl_entry_url = Some ''https://acme.com/apps'',
     fl_steps = [''Open apps''], fl_produces = [''api_key''], fl_requires_approval = False, fl_requires_billing = False,
     fl_evidence = [], fl_control_names = [''Create app'']\<rparr>"

definition sample_profile_of :: "string \<Rightarrow> string \<Rightarrow> provider_profile" where
  "sample_profile_of zone aux = \<lparr>pr_run_id = ''run_1'', pr_provider_name = ''Acme'', pr_app_slug = ''acme'',
     pr_registrable_domain = zone,
     pr_auxiliary_hosts = [\<lparr>au_host = aux, au_kind = ''identity_provider'', au_source_digest = replicate 64 (CHR ''0'')\<rparr>],
     pr_developer_portal_url = None, pr_signup_url = None, pr_login_url = Some ''https://acme.com/in'',
     pr_developer_docs_url = None, pr_developer_app_flow = plain_flow,
     pr_oauth_flow = plain_flow\<lparr>fl_supported := False, fl_entry_url := None\<rparr>,
     pr_api_key_flow = plain_flow\<lparr>fl_kind := ''api_key'', fl_control_names := []\<rparr>,
     pr_pat_flow = plain_flow\<lparr>fl_supported := False, fl_entry_url := None\<rparr>,
     pr_approval_requirement = ''unknown'', pr_billing_requirement = ''none'', pr_evidence = [], pr_confidence = 1,
     pr_adapters_engaged = [''docs''], pr_built_at = ''t'', pr_digest = replicate 64 (CHR ''a'')\<rparr>"

definition acme_profile :: provider_profile where
  "acme_profile = sample_profile_of ''acme.com'' ''login.okta.com''"

lemma acme_valid: "make_profile (\<lambda>_. False) acme_profile = Inr acme_profile"
proof -
  have "returned (make_profile (\<lambda>_. False) acme_profile)" by code_simp
  then show ?thesis using make_profile_Inr(1) by (auto simp: result_simps)
qed

lemma acme_allowed:
  "allowed_hosts (\<lambda>_. False) (\<lambda>_. None) ''self_serve'' acme_profile = Inr (own_allowed acme_profile)"
proof (rule allowed_hosts_own [OF acme_valid])
  show "list_all no_blanks (operational_urls acme_profile)" "plain_zone (pr_registrable_domain acme_profile)"
    "length (pr_app_slug acme_profile) \<le> max_research_slug"
    by code_simp+
qed (simp_all add: browser_routes_def get_browser_policy_def)


text \<open>An auxiliary host may itself be a wildcard, and then admits every host below it.\<close>

definition open_profile :: provider_profile where
  "open_profile = sample_profile_of ''acme.com'' ''*.okta.com''"

lemma open_valid: "make_profile (\<lambda>_. False) open_profile = Inr open_profile"
proof -
  have "returned (make_profile (\<lambda>_. False) open_profile)" by code_simp
  then show ?thesis using make_profile_Inr(1) by (auto simp: result_simps)
qed

lemma auxiliary_wildcard:
  "\<exists>a. allowed_hosts (\<lambda>_. False) (\<lambda>_. None) ''self_serve'' open_profile = Inr a \<and>
     host_matches_patterns ''evil.okta.com'' (patterns a)"
proof -
  have h: "list_all no_blanks (operational_urls open_profile)" "plain_zone (pr_registrable_domain open_profile)"
    "length (pr_app_slug open_profile) \<le> max_research_slug"
    "host_matches_patterns ''evil.okta.com'' (patterns (own_allowed open_profile))"
    by code_simp+
  show ?thesis
    using allowed_hosts_own [OF open_valid h(1-3), of "''self_serve''" "\<lambda>_. None"] h(4)
    by (auto simp: browser_routes_def get_browser_policy_def)
qed

end
