(* ===== verification/Profile_Store.thy ===== *)
theory Profile_Store
  imports Profile "HOL-Library.List_Lexorder"
begin

text \<open>
  The content-addressed profile store (\<^theory_text>\<open>ops/providers/profile_store.py\<close>): its three tables,
  \<^theory_text>\<open>put\<close> and the three reads of \<^theory_text>\<open>SQLiteProviderProfileStore\<close>, and the reader that
  rebuilds a profile from its stored body.

  The owner a store was constructed for, the clock and the hash are arguments. The error
  \<^theory_text>\<open>ProviderProfileConflictError\<close>, a \<^theory_text>\<open>RuntimeError\<close>, is the value carrying its reason
  code. Counts of corroborations are exact, as in Python below 2 to the 53.
\<close>

section \<open>Tables\<close>

record profile_row =
  pw_digest :: string
  pw_provider_name :: string
  pw_app_slug :: string
  pw_registrable_domain :: string
  pw_developer_portal_url :: "string option"
  pw_signup_url :: "string option"
  pw_login_url :: "string option"
  pw_developer_docs_url :: "string option"
  pw_approval_requirement :: string
  pw_billing_requirement :: string
  pw_flows :: json
  pw_auxiliary_hosts :: json
  pw_confidence :: rat
  pw_adapters_engaged :: string
  pw_built_at :: string
  pw_body :: json

record evidence_row =
  ew_digest :: string
  ew_field :: string
  ew_value :: string
  ew_source_url :: string
  ew_source_digest :: string
  ew_adapters :: string
  ew_corroborations :: int
  ew_confidence :: rat
  ew_extracted_at :: string

record run_binding =
  rb_run_id :: string
  rb_owner :: string
  rb_digest :: string
  rb_bound_at :: string

record profile_store =
  ps_profiles :: "profile_row list"
  ps_evidence :: "evidence_row list"
  ps_runs :: "run_binding list"

definition empty_store :: profile_store where
  "empty_store = \<lparr>ps_profiles = [], ps_evidence = [], ps_runs = []\<rparr>"

definition max_run_identifier :: nat where
  "max_run_identifier = 200"

definition flow_fields :: "string list" where
  "flow_fields = [''developer_app_flow'', ''oauth_flow'', ''api_key_flow'', ''pat_flow'']"

definition profile_digest :: "string \<Rightarrow> string result" where
  "profile_digest d =
     (if length d \<noteq> source_digest_length then Inl (ValueError ''profile digest must be a sha256 hex digest'') else Inr d)"

definition split_names :: "string \<Rightarrow> string list" where
  "split_names v = filter (\<lambda>n. n \<noteq> []) (split_chr (CHR '','') v)"

section \<open>Reading a body\<close>

definition malformed :: exn where
  "malformed = RuntimeError ''stored provider profile is malformed''"

fun as_mapping :: "json \<Rightarrow> (string \<times> json) list result" where
  "as_mapping (J_Object b) = Inr b"
| "as_mapping _ = Inl malformed"

fun as_text :: "json \<Rightarrow> string result" where
  "as_text (J_Text s) = Inr s"
| "as_text _ = Inl malformed"

definition body_get :: "(string \<times> json) list \<Rightarrow> string \<Rightarrow> json" where
  "body_get b k = (case map_of b k of None \<Rightarrow> J_Null | Some v \<Rightarrow> v)"

definition body_mapping :: "(string \<times> json) list \<Rightarrow> string \<Rightarrow> (string \<times> json) list result" where
  "body_mapping b k = as_mapping (body_get b k)"

definition body_sequence :: "(string \<times> json) list \<Rightarrow> string \<Rightarrow> json list result" where
  "body_sequence b k =
     (case map_of b k of None \<Rightarrow> Inr [] | Some (J_List xs) \<Rightarrow> Inr xs | Some _ \<Rightarrow> Inl malformed)"

definition body_text :: "(string \<times> json) list \<Rightarrow> string \<Rightarrow> string result" where
  "body_text b k = as_text (body_get b k)"

definition optional_text :: "(string \<times> json) list \<Rightarrow> string \<Rightarrow> string option result" where
  "optional_text b k =
     (case body_get b k of J_Null \<Rightarrow> Inr None | v \<Rightarrow> bindR (as_text v) (\<lambda>s. Inr (Some s)))"

definition body_number :: "(string \<times> json) list \<Rightarrow> string \<Rightarrow> rat result" where
  "body_number b k = (case body_get b k of J_Num n \<Rightarrow> Inr n | _ \<Rightarrow> Inl malformed)"

definition body_flag :: "(string \<times> json) list \<Rightarrow> string \<Rightarrow> bool result" where
  "body_flag b k = (case body_get b k of J_Bool v \<Rightarrow> Inr v | _ \<Rightarrow> Inl malformed)"

definition vocabulary_member :: "string \<Rightarrow> string list \<Rightarrow> string result" where
  "vocabulary_member v vocabulary =
     (if v \<notin> set vocabulary
      then Inl (RuntimeError ''stored provider profile carries a value outside its vocabulary'') else Inr v)"

text \<open>A comprehension whose items may raise.\<close>

fun mapR :: "('a \<Rightarrow> 'b result) \<Rightarrow> 'a list \<Rightarrow> 'b list result" where
  "mapR f [] = Inr []"
| "mapR f (x # xs) = bindR (f x) (\<lambda>y. bindR (mapR f xs) (\<lambda>ys. Inr (y # ys)))"

type_synonym extraction_times = "(string \<times> string \<times> string) \<Rightarrow> string option"

definition cited_at :: "extraction_times \<Rightarrow> string \<Rightarrow> string \<Rightarrow> string \<Rightarrow> string \<Rightarrow> string" where
  "cited_at stamps built field val digest = (case stamps (field, val, digest) of None \<Rightarrow> built | Some t \<Rightarrow> t)"

definition evidence_item :: "extraction_times \<Rightarrow> string \<Rightarrow> json \<Rightarrow> field_evidence result" where
  "evidence_item stamps built item =
     bindR (as_mapping item) (\<lambda>b.
     bindR (body_text b ''field'') (\<lambda>f.
     bindR (vocabulary_member f profile_fields) (\<lambda>field.
     bindR (body_text b ''value'') (\<lambda>val.
     bindR (body_text b ''source_digest'') (\<lambda>digest.
     bindR (body_text b ''source_url'') (\<lambda>url.
     bindR (bindR (body_sequence b ''adapters'') (mapR as_text)) (\<lambda>adapters.
     bindR (body_number b ''corroborations'') (\<lambda>corroborations.
     bindR (body_number b ''confidence'') (\<lambda>confidence.
       make_field_evidence \<lparr>fe_field = field, fe_value = val, fe_source_url = url, fe_source_digest = digest,
         fe_adapters = adapters, fe_corroborations = floor corroborations, fe_confidence = confidence,
         fe_extracted_at = cited_at stamps built field val digest\<rparr>)))))))))"

definition evidence_from_body :: "extraction_times \<Rightarrow> string \<Rightarrow> json list \<Rightarrow> field_evidence list result" where
  "evidence_from_body stamps built items = mapR (evidence_item stamps built) items"

definition auxiliary_from_body :: "json \<Rightarrow> auxiliary_host result" where
  "auxiliary_from_body item =
     bindR (as_mapping item) (\<lambda>b.
     bindR (body_text b ''host'') (\<lambda>h.
     bindR (bindR (body_text b ''kind'') (\<lambda>k. vocabulary_member k auxiliary_host_kinds)) (\<lambda>kind.
     bindR (body_text b ''source_digest'') (\<lambda>d. Inr \<lparr>au_host = h, au_kind = kind, au_source_digest = d\<rparr>))))"

text \<open>The reader of a flow. It passes no \<^theory_text>\<open>control_names\<close>, so the default, none, is taken.\<close>

definition flow_from_body :: "extraction_times \<Rightarrow> string \<Rightarrow> (string \<times> json) list \<Rightarrow> flow_spec result" where
  "flow_from_body stamps built b =
     bindR (bindR (body_text b ''kind'') (\<lambda>k. vocabulary_member k flow_kinds)) (\<lambda>kind.
     bindR (body_flag b ''supported'') (\<lambda>supported.
     bindR (optional_text b ''entry_url'') (\<lambda>entry.
     bindR (bindR (body_sequence b ''steps'') (mapR as_text)) (\<lambda>steps.
     bindR (bindR (body_sequence b ''produces'')
        (mapR (\<lambda>x. bindR (as_text x) (\<lambda>s. vocabulary_member s credential_kinds)))) (\<lambda>produces.
     bindR (body_flag b ''requires_approval'') (\<lambda>approval.
     bindR (body_flag b ''requires_billing'') (\<lambda>billing.
     bindR (bindR (body_sequence b ''evidence'') (evidence_from_body stamps built)) (\<lambda>evidence.
       make_flow \<lparr>fl_kind = kind, fl_supported = supported, fl_entry_url = entry, fl_steps = steps,
         fl_produces = produces, fl_requires_approval = approval, fl_requires_billing = billing,
         fl_evidence = evidence, fl_control_names = []\<rparr>))))))))"

definition flow_at :: "extraction_times \<Rightarrow> string \<Rightarrow> (string \<times> json) list \<Rightarrow> string \<Rightarrow> flow_spec result" where
  "flow_at stamps built b k = bindR (body_mapping b k) (flow_from_body stamps built)"

definition profile_from_body ::
    "(string \<Rightarrow> bool) \<Rightarrow> (string \<times> json) list \<Rightarrow> string \<Rightarrow> string \<Rightarrow> string list \<Rightarrow> string \<Rightarrow> extraction_times \<Rightarrow>
     provider_profile result" where
  "profile_from_body v6 b run built adapters digest stamps =
     bindR (flow_at stamps built b ''developer_app_flow'') (\<lambda>f1.
     bindR (flow_at stamps built b ''oauth_flow'') (\<lambda>f2.
     bindR (flow_at stamps built b ''api_key_flow'') (\<lambda>f3.
     bindR (flow_at stamps built b ''pat_flow'') (\<lambda>f4.
     bindR (body_text b ''provider_name'') (\<lambda>name.
     bindR (body_text b ''app_slug'') (\<lambda>slug.
     bindR (body_text b ''registrable_domain'') (\<lambda>domain.
     bindR (bindR (body_sequence b ''auxiliary_hosts'') (mapR auxiliary_from_body)) (\<lambda>auxiliaries.
     bindR (optional_text b ''developer_portal_url'') (\<lambda>portal.
     bindR (optional_text b ''signup_url'') (\<lambda>signup.
     bindR (optional_text b ''login_url'') (\<lambda>login.
     bindR (optional_text b ''developer_docs_url'') (\<lambda>docs.
     bindR (bindR (body_text b ''approval_requirement'') (\<lambda>v. vocabulary_member v approval_requirements)) (\<lambda>approval.
     bindR (bindR (body_text b ''billing_requirement'') (\<lambda>v. vocabulary_member v billing_requirements)) (\<lambda>billing.
     bindR (bindR (body_sequence b ''evidence'') (evidence_from_body stamps built)) (\<lambda>evidence.
     bindR (body_number b ''confidence'') (\<lambda>confidence.
       make_profile v6 \<lparr>pr_run_id = run, pr_provider_name = name, pr_app_slug = slug, pr_registrable_domain = domain,
         pr_auxiliary_hosts = auxiliaries, pr_developer_portal_url = portal, pr_signup_url = signup,
         pr_login_url = login, pr_developer_docs_url = docs, pr_developer_app_flow = f1, pr_oauth_flow = f2,
         pr_api_key_flow = f3, pr_pat_flow = f4, pr_approval_requirement = approval,
         pr_billing_requirement = billing, pr_evidence = evidence, pr_confidence = confidence,
         pr_adapters_engaged = adapters, pr_built_at = built, pr_digest = digest\<rparr>))))))))))))))))"

section \<open>Operations\<close>

definition all_evidence :: "provider_profile \<Rightarrow> field_evidence list" where
  "all_evidence p = pr_evidence p @ concat (map fl_evidence (flows p))"

text \<open>One citation row: its check constraints, then the row unless its key is there.\<close>

definition insert_evidence :: "string \<Rightarrow> field_evidence \<Rightarrow> evidence_row list \<Rightarrow> evidence_row list result" where
  "insert_evidence digest e rows =
     (if fe_corroborations e < 1 \<or> \<not> (0 \<le> fe_confidence e \<and> fe_confidence e \<le> 1)
      then Inl (IntegrityError ''provider_profile_evidence'')
      else if list_ex (\<lambda>r. ew_digest r = digest \<and> ew_field r = fe_field e \<and> ew_value r = fe_value e \<and>
                        ew_source_digest r = fe_source_digest e) rows
      then Inr rows
      else Inr (rows @ [\<lparr>ew_digest = digest, ew_field = fe_field e, ew_value = fe_value e,
        ew_source_url = fe_source_url e, ew_source_digest = fe_source_digest e,
        ew_adapters = join_chr (CHR '','') (fe_adapters e), ew_corroborations = fe_corroborations e,
        ew_confidence = fe_confidence e, ew_extracted_at = fe_extracted_at e\<rparr>]))"

fun insert_all_evidence :: "string \<Rightarrow> field_evidence list \<Rightarrow> evidence_row list \<Rightarrow> evidence_row list result" where
  "insert_all_evidence digest [] rows = Inr rows"
| "insert_all_evidence digest (e # es) rows =
     bindR (insert_evidence digest e rows) (insert_all_evidence digest es)"

definition insert_profile :: "provider_profile \<Rightarrow> string \<Rightarrow> json \<Rightarrow> profile_store \<Rightarrow> profile_store result" where
  "insert_profile p digest body s =
     bindR (as_mapping body) (\<lambda>b.
       if pr_approval_requirement p \<notin> set approval_requirements \<or>
          pr_billing_requirement p \<notin> set billing_requirements \<or>
          \<not> (0 \<le> pr_confidence p \<and> pr_confidence p \<le> 1)
       then Inl (IntegrityError ''provider_profiles'')
       else bindR (insert_all_evidence digest (all_evidence p) (ps_evidence s)) (\<lambda>rows.
         Inr (s\<lparr>ps_profiles := ps_profiles s @
            [\<lparr>pw_digest = digest, pw_provider_name = pr_provider_name p, pw_app_slug = pr_app_slug p,
              pw_registrable_domain = pr_registrable_domain p, pw_developer_portal_url = pr_developer_portal_url p,
              pw_signup_url = pr_signup_url p, pw_login_url = pr_login_url p,
              pw_developer_docs_url = pr_developer_docs_url p, pw_approval_requirement = pr_approval_requirement p,
              pw_billing_requirement = pr_billing_requirement p, pw_flows = J_List (map (body_get b) flow_fields),
              pw_auxiliary_hosts = body_get b ''auxiliary_hosts'', pw_confidence = pr_confidence p,
              pw_adapters_engaged = join_chr (CHR '','') (pr_adapters_engaged p), pw_built_at = pr_built_at p,
              pw_body = body\<rparr>],
            ps_evidence := rows\<rparr>)))"

definition bind_run :: "string \<Rightarrow> string \<Rightarrow> string \<Rightarrow> string \<Rightarrow> profile_store \<Rightarrow> profile_store result" where
  "bind_run owner now run digest s =
     (case List.find (\<lambda>b. rb_run_id b = run) (ps_runs s) of
        None \<Rightarrow> Inr (s\<lparr>ps_runs := ps_runs s @
           [\<lparr>rb_run_id = run, rb_owner = owner, rb_digest = digest, rb_bound_at = now\<rparr>]\<rparr>)
      | Some b \<Rightarrow>
          if rb_owner b \<noteq> owner \<or> rb_digest b \<noteq> digest
          then Inl (RuntimeError ''profile_run_binding_conflict'') else Inr s)"

definition store_profile :: "provider_profile \<Rightarrow> string \<Rightarrow> profile_store \<Rightarrow> profile_store result" where
  "store_profile p digest s =
     (case List.find (\<lambda>r. pw_digest r = digest) (ps_profiles s) of
        None \<Rightarrow> insert_profile p digest (canonical_body p) s
      | Some r \<Rightarrow>
          if pw_body r \<noteq> canonical_body p then Inl (RuntimeError ''profile_body_diverges_from_digest'') else Inr s)"

definition put_profile ::
    "(json \<Rightarrow> string) \<Rightarrow> string \<Rightarrow> string \<Rightarrow> provider_profile \<Rightarrow> profile_store \<Rightarrow> (string \<times> profile_store) result" where
  "put_profile sha owner now p s =
     bindR (profile_digest (pr_digest p)) (\<lambda>digest.
       if compute_profile_digest sha p \<noteq> digest
       then Inl (ValueError ''profile digest does not address the profile body'')
       else bindR (store_identifier max_run_identifier ''run id is invalid'' (pr_run_id p)) (\<lambda>run.
            bindR (store_profile p digest s) (\<lambda>s1.
            bindR (bind_run owner now run digest s1) (\<lambda>s2. Inr (digest, s2)))))"

text \<open>The timestamps of a profile's citations; a later row would win.\<close>

definition extraction_times :: "profile_store \<Rightarrow> string \<Rightarrow> extraction_times" where
  "extraction_times s digest =
     map_of (map (\<lambda>r. ((ew_field r, ew_value r, ew_source_digest r), ew_extracted_at r))
       (rev (filter (\<lambda>r. ew_digest r = digest) (ps_evidence s))))"

definition profile_from_row ::
    "(string \<Rightarrow> bool) \<Rightarrow> profile_store \<Rightarrow> profile_row \<Rightarrow> string \<Rightarrow> provider_profile result" where
  "profile_from_row v6 s r run =
     bindR (as_mapping (pw_body r)) (\<lambda>b.
       profile_from_body v6 b run (pw_built_at r) (split_names (pw_adapters_engaged r)) (pw_digest r)
         (extraction_times s (pw_digest r)))"

definition get_profile ::
    "(string \<Rightarrow> bool) \<Rightarrow> string \<Rightarrow> string \<Rightarrow> profile_store \<Rightarrow> provider_profile option result" where
  "get_profile v6 owner d s =
     bindR (profile_digest d) (\<lambda>digest.
       case List.find (\<lambda>r. pw_digest r = digest) (ps_profiles s) of
         None \<Rightarrow> Inr None
       | Some r \<Rightarrow>
           (case sort_key rb_bound_at (sort_key rb_run_id
                   (filter (\<lambda>b. rb_digest b = digest \<and> rb_owner b = owner) (ps_runs s))) of
              [] \<Rightarrow> Inr None
            | b # _ \<Rightarrow> bindR (profile_from_row v6 s r (rb_run_id b)) (\<lambda>p. Inr (Some p))))"

definition get_for_run ::
    "(string \<Rightarrow> bool) \<Rightarrow> string \<Rightarrow> string \<Rightarrow> profile_store \<Rightarrow> provider_profile option result" where
  "get_for_run v6 owner r s =
     bindR (store_identifier max_run_identifier ''run id is invalid'' r) (\<lambda>run.
       case List.find (\<lambda>b. rb_run_id b = run \<and> rb_owner b = owner) (ps_runs s) of
         None \<Rightarrow> Inr None
       | Some b \<Rightarrow>
           (case List.find (\<lambda>w. pw_digest w = rb_digest b) (ps_profiles s) of
              None \<Rightarrow> Inr None
            | Some w \<Rightarrow> bindR (profile_from_row v6 s w run) (\<lambda>p. Inr (Some p))))"

definition owner_reaches :: "string \<Rightarrow> string \<Rightarrow> profile_store \<Rightarrow> bool" where
  "owner_reaches owner digest s = list_ex (\<lambda>b. rb_digest b = digest \<and> rb_owner b = owner) (ps_runs s)"

definition evidence_of_row :: "evidence_row \<Rightarrow> field_evidence result" where
  "evidence_of_row r =
     bindR (vocabulary_member (ew_field r) profile_fields) (\<lambda>field.
       make_field_evidence \<lparr>fe_field = field, fe_value = ew_value r, fe_source_url = ew_source_url r,
         fe_source_digest = ew_source_digest r, fe_adapters = split_names (ew_adapters r),
         fe_corroborations = ew_corroborations r, fe_confidence = ew_confidence r,
         fe_extracted_at = ew_extracted_at r\<rparr>)"

definition evidence_for :: "string \<Rightarrow> string \<Rightarrow> profile_store \<Rightarrow> field_evidence list result" where
  "evidence_for owner d s =
     bindR (profile_digest d) (\<lambda>digest.
       if \<not> owner_reaches owner digest s then Inr []
       else mapR evidence_of_row (filter (\<lambda>r. ew_digest r = digest) (ps_evidence s)))"

section \<open>Reading back what was written\<close>

text \<open>The values the typed fields of a profile may have.\<close>

definition typed_evidence :: "field_evidence \<Rightarrow> bool" where
  "typed_evidence e = (returned (make_field_evidence e) \<and> fe_field e \<in> set profile_fields)"

definition typed_flow :: "flow_spec \<Rightarrow> bool" where
  "typed_flow f = (returned (make_flow f) \<and> fl_kind f \<in> set flow_kinds \<and>
     list_all (\<lambda>k. k \<in> set credential_kinds) (fl_produces f) \<and> list_all typed_evidence (fl_evidence f))"

definition typed_profile :: "(string \<Rightarrow> bool) \<Rightarrow> provider_profile \<Rightarrow> bool" where
  "typed_profile v6 p = (returned (make_profile v6 p) \<and> list_all typed_flow (flows p) \<and>
     list_all typed_evidence (pr_evidence p))"

definition restamp :: "extraction_times \<Rightarrow> string \<Rightarrow> field_evidence \<Rightarrow> field_evidence" where
  "restamp stamps built e = e\<lparr>fe_extracted_at := cited_at stamps built (fe_field e) (fe_value e) (fe_source_digest e)\<rparr>"

definition reread_flow :: "extraction_times \<Rightarrow> string \<Rightarrow> flow_spec \<Rightarrow> flow_spec" where
  "reread_flow stamps built f = f\<lparr>fl_evidence := map (restamp stamps built) (fl_evidence f), fl_control_names := []\<rparr>"

definition without_controls :: "provider_profile \<Rightarrow> provider_profile" where
  "without_controls p = p\<lparr>pr_developer_app_flow := pr_developer_app_flow p\<lparr>fl_control_names := []\<rparr>,
     pr_oauth_flow := pr_oauth_flow p\<lparr>fl_control_names := []\<rparr>,
     pr_api_key_flow := pr_api_key_flow p\<lparr>fl_control_names := []\<rparr>,
     pr_pat_flow := pr_pat_flow p\<lparr>fl_control_names := []\<rparr>\<rparr>"

definition reread :: "extraction_times \<Rightarrow> string \<Rightarrow> string list \<Rightarrow> string \<Rightarrow> string \<Rightarrow> provider_profile \<Rightarrow> provider_profile" where
  "reread stamps built adapters digest run p = p\<lparr>pr_run_id := run, pr_built_at := built,
     pr_adapters_engaged := adapters, pr_digest := digest,
     pr_developer_app_flow := reread_flow stamps built (pr_developer_app_flow p),
     pr_oauth_flow := reread_flow stamps built (pr_oauth_flow p),
     pr_api_key_flow := reread_flow stamps built (pr_api_key_flow p),
     pr_pat_flow := reread_flow stamps built (pr_pat_flow p),
     pr_evidence := map (restamp stamps built) (pr_evidence p)\<rparr>"

lemma mapR_Inr: "list_all (\<lambda>x. f x = Inr (g x)) xs \<Longrightarrow> mapR f xs = Inr (map g xs)"
  by (induction xs) auto

lemma mapR_map: "mapR f (map g xs) = mapR (\<lambda>x. f (g x)) xs"
  by (induction xs) auto

lemma mapR_texts [simp]: "mapR as_text (map J_Text ss) = Inr ss"
  by (induction ss) auto

lemma body_get_Cons [simp]: "body_get ((k, v) # b) k' = (if k = k' then v else body_get b k')"
  by (simp add: body_get_def)

lemma body_sequence_Cons [simp]:
  "body_sequence ((k, v) # b) k' =
     (if k = k' then (case v of J_List xs \<Rightarrow> Inr xs | _ \<Rightarrow> Inl malformed) else body_sequence b k')"
  by (simp add: body_sequence_def split: json.splits)

lemma json_option_back [simp]:
  "(case json_option x of J_Null \<Rightarrow> Inr None | v \<Rightarrow> bindR (as_text v) (\<lambda>s. Inr (Some s))) = Inr x"
  by (cases x) auto

lemma vocabulary_member_in: "v \<in> set voc \<Longrightarrow> vocabulary_member v voc = Inr v"
  by (simp add: vocabulary_member_def)

lemma evidence_item_body:
  "typed_evidence e \<Longrightarrow> evidence_item stamps built (evidence_body e) = Inr (restamp stamps built e)"
  by (auto simp: evidence_item_def evidence_body_def body_text_def body_number_def json_texts_def vocabulary_member_def
      typed_evidence_def make_field_evidence_def restamp_def split: if_splits)

lemma evidence_from_body_back:
  "list_all typed_evidence es \<Longrightarrow>
     evidence_from_body stamps built (map evidence_body es) = Inr (map (restamp stamps built) es)"
  unfolding evidence_from_body_def mapR_map
  by (rule mapR_Inr) (auto simp: list_all_iff evidence_item_body)

lemma produces_back:
  "list_all (\<lambda>k. k \<in> set credential_kinds) ks \<Longrightarrow>
     mapR (\<lambda>x. bindR (as_text x) (\<lambda>s. vocabulary_member s credential_kinds)) (map J_Text ks) = Inr ks"
  unfolding mapR_map using mapR_Inr [of "\<lambda>k. bindR (as_text (J_Text k)) (\<lambda>s. vocabulary_member s credential_kinds)" id ks]
  by (auto simp: list_all_iff vocabulary_member_def)

lemma make_flow_back:
  "returned (make_flow f) \<Longrightarrow> make_flow (f\<lparr>fl_evidence := es, fl_control_names := []\<rparr>) = Inr (f\<lparr>fl_evidence := es, fl_control_names := []\<rparr>)"
  by (auto simp: make_flow_def split: if_splits)

lemma flow_from_body_back:
  assumes "typed_flow f"
  shows "bindR (as_mapping (flow_body f)) (flow_from_body stamps built) = Inr (reread_flow stamps built f)"
proof -
  have f: "f\<lparr>fl_evidence := es, fl_control_names := []\<rparr> = \<lparr>fl_kind = fl_kind f, fl_supported = fl_supported f,
      fl_entry_url = fl_entry_url f, fl_steps = fl_steps f, fl_produces = fl_produces f,
      fl_requires_approval = fl_requires_approval f, fl_requires_billing = fl_requires_billing f,
      fl_evidence = es, fl_control_names = []\<rparr>" for es by simp
  have m: "returned (make_flow f)" "fl_kind f \<in> set flow_kinds" "list_all (\<lambda>k. k \<in> set credential_kinds) (fl_produces f)"
    "list_all typed_evidence (fl_evidence f)"
    using assms by (auto simp: typed_flow_def)
  show ?thesis
    using make_flow_back [OF m(1)] m(2)
    by (simp add: flow_from_body_def flow_body_def body_text_def body_flag_def optional_text_def json_texts_def
        vocabulary_member_in produces_back [OF m(3)] evidence_from_body_back [OF m(4)] reread_flow_def f)
qed

lemma auxiliary_from_body_back:
  "au_kind a \<in> set auxiliary_host_kinds \<Longrightarrow> auxiliary_from_body (auxiliary_body a) = Inr a"
  by (simp add: auxiliary_from_body_def auxiliary_body_def body_text_def vocabulary_member_def)

lemma checkR_Inr: "checkR f xs = Inr u \<longleftrightarrow> list_all (\<lambda>x. f x = Inr ()) xs"
  by (induction xs) (auto simp: result_simps)

lemma make_profile_kinds:
  assumes "make_profile v6 p = Inr q"
  shows "list_all (\<lambda>a. au_kind a \<in> set auxiliary_host_kinds) (pr_auxiliary_hosts p)"
    "pr_approval_requirement p \<in> set approval_requirements" "pr_billing_requirement p \<in> set billing_requirements"
    "0 \<le> pr_confidence p" "pr_confidence p \<le> 1"
  using assms
  by (auto simp: make_profile_def result_simps checkR_Inr list_all_iff require_typed_auxiliary_host_def split: if_splits)

lemma make_profile_reread:
  assumes "make_profile v6 p = Inr q" "digest = [] \<or> length digest = source_digest_length"
  shows "make_profile v6 (reread stamps built adapters digest run p) = Inr (reread stamps built adapters digest run p)"
proof -
  let ?r = "reread stamps built adapters digest run p"
  have "declared_urls ?r = declared_urls p"
    by (simp add: declared_urls_def flows_def reread_def reread_flow_def)
  moreover have "pr_app_slug ?r = pr_app_slug p" "pr_registrable_domain ?r = pr_registrable_domain p"
    "pr_confidence ?r = pr_confidence p" "pr_approval_requirement ?r = pr_approval_requirement p"
    "pr_billing_requirement ?r = pr_billing_requirement p" "pr_auxiliary_hosts ?r = pr_auxiliary_hosts p"
    "pr_digest ?r = digest"
    by (simp_all add: reread_def)
  ultimately show ?thesis
    using assms by (auto simp: make_profile_def result_simps split: if_splits)
qed

text \<open>The whole reader, on the body of a profile.\<close>

lemma profile_from_body_back:
  assumes "typed_profile v6 p" "length digest = source_digest_length"
  shows "bindR (as_mapping (canonical_body p)) (\<lambda>b. profile_from_body v6 b run built adapters digest stamps) =
    Inr (reread stamps built adapters digest run p)"
proof -
  obtain q where q: "make_profile v6 p = Inr q" using assms(1) by (auto simp: typed_profile_def result_simps)
  note k = make_profile_kinds [OF q]
  have fs: "typed_flow (pr_developer_app_flow p)" "typed_flow (pr_oauth_flow p)" "typed_flow (pr_api_key_flow p)"
    "typed_flow (pr_pat_flow p)" and es: "list_all typed_evidence (pr_evidence p)"
    using assms(1) by (simp_all add: typed_profile_def flows_def)
  have aux: "mapR auxiliary_from_body (map auxiliary_body (pr_auxiliary_hosts p)) = Inr (pr_auxiliary_hosts p)"
    unfolding mapR_map using mapR_Inr [of "\<lambda>a. auxiliary_from_body (auxiliary_body a)" id "pr_auxiliary_hosts p"] k(1)
    by (auto simp: list_all_iff auxiliary_from_body_back)
  have r: "reread stamps built adapters digest run p = \<lparr>pr_run_id = run, pr_provider_name = pr_provider_name p,
      pr_app_slug = pr_app_slug p, pr_registrable_domain = pr_registrable_domain p,
      pr_auxiliary_hosts = pr_auxiliary_hosts p, pr_developer_portal_url = pr_developer_portal_url p,
      pr_signup_url = pr_signup_url p, pr_login_url = pr_login_url p, pr_developer_docs_url = pr_developer_docs_url p,
      pr_developer_app_flow = reread_flow stamps built (pr_developer_app_flow p),
      pr_oauth_flow = reread_flow stamps built (pr_oauth_flow p),
      pr_api_key_flow = reread_flow stamps built (pr_api_key_flow p),
      pr_pat_flow = reread_flow stamps built (pr_pat_flow p), pr_approval_requirement = pr_approval_requirement p,
      pr_billing_requirement = pr_billing_requirement p, pr_evidence = map (restamp stamps built) (pr_evidence p),
      pr_confidence = pr_confidence p, pr_adapters_engaged = adapters, pr_built_at = built, pr_digest = digest\<rparr>"
    by (simp add: reread_def)
  have mk: "make_profile v6 (reread stamps built adapters digest run p) = Inr (reread stamps built adapters digest run p)"
    using make_profile_reread [OF q] assms(2) by simp
  show ?thesis
    using mk k(2,3)
    by (simp add: profile_from_body_def canonical_body_def flow_at_def body_mapping_def body_text_def body_number_def
        optional_text_def vocabulary_member_in aux evidence_from_body_back [OF es] flow_from_body_back fs r)
qed

section \<open>What a call changes\<close>

lemma find_append: "List.find P (xs @ ys) = (case List.find P xs of None \<Rightarrow> List.find P ys | Some x \<Rightarrow> Some x)"
  by (induction xs) auto

lemma find_conj: "List.find P xs = Some b \<Longrightarrow> Q b \<Longrightarrow> List.find (\<lambda>x. P x \<and> Q x) xs = Some b"
  by (induction xs) (auto split: if_splits)

lemma insert_profile_Inr:
  assumes "insert_profile p digest (canonical_body p) s = Inr s'"
  shows "\<exists>w. ps_profiles s' = ps_profiles s @ [w] \<and> pw_digest w = digest \<and> pw_body w = canonical_body p"
    "ps_runs s' = ps_runs s"
  using assms by (auto simp: insert_profile_def result_simps split: if_splits)

lemma store_profile_Inr:
  assumes "store_profile p digest s = Inr s'"
  shows "\<exists>ws. ps_profiles s' = ps_profiles s @ ws \<and> list_all (\<lambda>w. pw_digest w = digest \<and> pw_body w = canonical_body p) ws"
    "\<exists>r. List.find (\<lambda>r. pw_digest r = digest) (ps_profiles s') = Some r \<and> pw_body r = canonical_body p"
    "ps_runs s' = ps_runs s"
proof -
  show "\<exists>ws. ps_profiles s' = ps_profiles s @ ws \<and> list_all (\<lambda>w. pw_digest w = digest \<and> pw_body w = canonical_body p) ws"
    using assms insert_profile_Inr(1) [of p digest s s']
    by (fastforce simp: store_profile_def split: option.splits if_splits)
  show "\<exists>r. List.find (\<lambda>r. pw_digest r = digest) (ps_profiles s') = Some r \<and> pw_body r = canonical_body p"
    using assms insert_profile_Inr(1) [of p digest s s']
    by (auto simp: store_profile_def find_append split: option.splits if_splits)
  show "ps_runs s' = ps_runs s"
    using assms insert_profile_Inr(2) [of p digest s s'] by (auto simp: store_profile_def split: option.splits if_splits)
qed

lemma bind_run_Inr:
  assumes "bind_run owner now run digest s = Inr s'"
  shows "ps_profiles s' = ps_profiles s"
    "\<exists>bs. ps_runs s' = ps_runs s @ bs \<and> list_all (\<lambda>b. rb_run_id b = run \<and> rb_owner b = owner \<and> rb_digest b = digest) bs"
    "\<exists>b. List.find (\<lambda>b. rb_run_id b = run) (ps_runs s') = Some b \<and> rb_owner b = owner \<and> rb_digest b = digest"
    "distinct (map rb_run_id (ps_runs s)) \<Longrightarrow> distinct (map rb_run_id (ps_runs s'))"
proof -
  show "ps_profiles s' = ps_profiles s"
    "\<exists>bs. ps_runs s' = ps_runs s @ bs \<and> list_all (\<lambda>b. rb_run_id b = run \<and> rb_owner b = owner \<and> rb_digest b = digest) bs"
    "\<exists>b. List.find (\<lambda>b. rb_run_id b = run) (ps_runs s') = Some b \<and> rb_owner b = owner \<and> rb_digest b = digest"
    using assms by (auto simp: bind_run_def find_append split: option.splits if_splits)
  show "distinct (map rb_run_id (ps_runs s)) \<Longrightarrow> distinct (map rb_run_id (ps_runs s'))"
    using assms by (auto simp: bind_run_def find_None_not split: option.splits if_splits)
qed

lemma put_profile_Inr:
  assumes "put_profile sha owner now p s = Inr (d, s')"
  shows "d = compute_profile_digest sha p" "length d = source_digest_length"
    "identifier_ok max_run_identifier (pr_run_id p)"
    "\<exists>ws. ps_profiles s' = ps_profiles s @ ws \<and> list_all (\<lambda>w. pw_digest w = d \<and> pw_body w = canonical_body p) ws"
    "\<exists>r. List.find (\<lambda>r. pw_digest r = d) (ps_profiles s') = Some r \<and> pw_body r = canonical_body p"
    "\<exists>bs. ps_runs s' = ps_runs s @ bs \<and>
       list_all (\<lambda>b. rb_run_id b = pr_run_id p \<and> rb_owner b = owner \<and> rb_digest b = d) bs"
    "\<exists>b. List.find (\<lambda>b. rb_run_id b = pr_run_id p) (ps_runs s') = Some b \<and> rb_owner b = owner \<and> rb_digest b = d"
    "distinct (map rb_run_id (ps_runs s)) \<Longrightarrow> distinct (map rb_run_id (ps_runs s'))"
proof -
  obtain s1 where a: "d = compute_profile_digest sha p" "length d = source_digest_length"
    "identifier_ok max_run_identifier (pr_run_id p)" "store_profile p d s = Inr s1"
    "bind_run owner now (pr_run_id p) d s1 = Inr s'"
    using assms by (auto simp: put_profile_def profile_digest_def result_simps guard_simps split: if_splits)
  note S = store_profile_Inr [OF a(4)] and B = bind_run_Inr [OF a(5)]
  show "d = compute_profile_digest sha p" "length d = source_digest_length"
    "identifier_ok max_run_identifier (pr_run_id p)" using a(1-3) .
  show "\<exists>ws. ps_profiles s' = ps_profiles s @ ws \<and> list_all (\<lambda>w. pw_digest w = d \<and> pw_body w = canonical_body p) ws"
    "\<exists>r. List.find (\<lambda>r. pw_digest r = d) (ps_profiles s') = Some r \<and> pw_body r = canonical_body p"
    "\<exists>bs. ps_runs s' = ps_runs s @ bs \<and>
       list_all (\<lambda>b. rb_run_id b = pr_run_id p \<and> rb_owner b = owner \<and> rb_digest b = d) bs"
    "\<exists>b. List.find (\<lambda>b. rb_run_id b = pr_run_id p) (ps_runs s') = Some b \<and> rb_owner b = owner \<and> rb_digest b = d"
    "distinct (map rb_run_id (ps_runs s)) \<Longrightarrow> distinct (map rb_run_id (ps_runs s'))"
    using S B(2-4) unfolding B(1) by auto
qed

text \<open>Calls of any owners in any order; a call that raises is rolled back.\<close>

type_synonym put_call = "string \<times> string \<times> provider_profile"

fun put_call :: "(json \<Rightarrow> string) \<Rightarrow> put_call \<Rightarrow> profile_store \<Rightarrow> profile_store" where
  "put_call sha (owner, now, p) s = (case put_profile sha owner now p s of Inl _ \<Rightarrow> s | Inr (d, s') \<Rightarrow> s')"

definition put_all :: "(json \<Rightarrow> string) \<Rightarrow> put_call list \<Rightarrow> profile_store \<Rightarrow> profile_store" where
  "put_all sha calls s = fold (put_call sha) calls s"

lemma put_all_simps [simp]: "put_all sha [] s = s" "put_all sha (c # cs) s = put_all sha cs (put_call sha c s)"
  by (simp_all add: put_all_def)

lemma put_call_cases:
  obtains "put_call sha (owner, now, p) s = s"
  | d s' where "put_profile sha owner now p s = Inr (d, s')" "put_call sha (owner, now, p) s = s'"
  by (cases "put_profile sha owner now p s") auto

lemma put_all_keeps:
  "(\<exists>ws. ps_profiles (put_all sha calls s) = ps_profiles s @ ws) \<and> (\<exists>bs. ps_runs (put_all sha calls s) = ps_runs s @ bs) \<and>
   (distinct (map rb_run_id (ps_runs s)) \<longrightarrow> distinct (map rb_run_id (ps_runs (put_all sha calls s))))"
proof (induction calls arbitrary: s)
  case (Cons c calls)
  obtain owner now p where c: "c = (owner, now, p)" by (rule prod_cases3)
  show ?case
  proof (rule put_call_cases [of sha owner now p s])
    fix d s' assume u: "put_profile sha owner now p s = Inr (d, s')" "put_call sha (owner, now, p) s = s'"
    show ?thesis
      using put_profile_Inr(4,6,8) [OF u(1)] Cons [of s'] unfolding c put_all_simps u(2) by (metis append.assoc)
  qed (use Cons c in simp)
qed simp

lemma put_all_runs:
  "b \<in> set (ps_runs (put_all sha calls s)) \<Longrightarrow>
     b \<in> set (ps_runs s) \<or> (\<exists>t p. (rb_owner b, t, p) \<in> set calls \<and> compute_profile_digest sha p = rb_digest b)"
proof (induction calls arbitrary: s)
  case (Cons c calls)
  obtain owner now p where c: "c = (owner, now, p)" by (rule prod_cases3)
  show ?case
  proof (rule put_call_cases [of sha owner now p s])
    fix d s' assume u: "put_profile sha owner now p s = Inr (d, s')" "put_call sha (owner, now, p) s = s'"
    have "b \<in> set (ps_runs s') \<Longrightarrow> b \<in> set (ps_runs s) \<or> (rb_owner b = owner \<and> rb_digest b = d)"
      using put_profile_Inr(6) [OF u(1)] by (auto simp: list_all_iff)
    moreover have "b \<in> set (ps_runs s') \<or> (\<exists>t p. (rb_owner b, t, p) \<in> set calls \<and> compute_profile_digest sha p = rb_digest b)"
      using Cons.IH [of s'] Cons.prems unfolding c put_all_simps u(2) by blast
    ultimately show ?thesis
      using put_profile_Inr(1) [OF u(1)] unfolding c by (metis list.set_intros)
  qed (use Cons c in auto)
qed simp

section \<open>The properties\<close>

lemma evidence_body_restamp [simp]: "evidence_body (restamp stamps built e) = evidence_body e"
  by (simp add: evidence_body_def restamp_def)

lemma flow_body_reread: "flow_body (reread_flow stamps built f) = flow_body (f\<lparr>fl_control_names := []\<rparr>)"
  by (simp add: flow_body_def reread_flow_def)

lemma canonical_body_reread:
  "canonical_body (reread stamps built adapters digest run p) = canonical_body (without_controls p)"
  by (simp add: canonical_body_def reread_def without_controls_def flow_body_reread comp_def)

lemma allowed_hosts_reread:
  "allowed_hosts v6 lookup route (reread stamps built adapters digest run p) = allowed_hosts v6 lookup route p"
proof -
  let ?q = "reread stamps built adapters digest run p"
  have f: "map fl_entry_url (flows ?q) = map fl_entry_url (flows p)" "declared_urls ?q = declared_urls p"
    by (simp_all add: flows_def declared_urls_def reread_def reread_flow_def)
  have g: "pr_app_slug ?q = pr_app_slug p" "pr_registrable_domain ?q = pr_registrable_domain p"
    "pr_auxiliary_hosts ?q = pr_auxiliary_hosts p" "pr_developer_portal_url ?q = pr_developer_portal_url p"
    "pr_signup_url ?q = pr_signup_url p" "pr_login_url ?q = pr_login_url p"
    by (simp_all add: reread_def)
  have e: "entry_candidates ?q = entry_candidates p" unfolding entry_candidates_def f g ..
  have o: "operational_urls ?q = operational_urls p" unfolding operational_urls_def f ..
  have "as_operational_research v6 ?q = as_operational_research v6 p"
    unfolding as_operational_research_def g e o ..
  then show ?thesis unfolding allowed_hosts_def g o by simp
qed

text \<open>What the row of a digest keeps beside the body: the build time and the adapters of the profile
  first stored under it, and of each citation the time it first had there.\<close>

definition first_cited :: "field_evidence list \<Rightarrow> extraction_times" where
  "first_cited es = map_of (map (\<lambda>e. ((fe_field e, fe_value e, fe_source_digest e), fe_extracted_at e)) es)"

definition stored_from :: "profile_store \<Rightarrow> provider_profile \<Rightarrow> profile_row \<Rightarrow> bool" where
  "stored_from s p w = (pw_body w = canonical_body p \<and> pw_built_at w = pr_built_at p \<and>
     pw_adapters_engaged w = join_chr (CHR '','') (pr_adapters_engaged p) \<and>
     extraction_times s (pw_digest w) = first_cited (all_evidence p))"

definition rows_ok :: "(json \<Rightarrow> string) \<Rightarrow> provider_profile set \<Rightarrow> profile_store \<Rightarrow> bool" where
  "rows_ok sha P s =
     ((\<forall>w\<in>set (ps_profiles s). \<exists>p\<in>P. compute_profile_digest sha p = pw_digest w \<and> stored_from s p w) \<and>
      (\<forall>r\<in>set (ps_evidence s). ew_digest r \<in> pw_digest ` set (ps_profiles s)))"

lemma times_insert:
  assumes "insert_evidence d e rows = Inr rows'"
  shows "extraction_times (s\<lparr>ps_evidence := rows'\<rparr>) d' =
      (if d' = d then first_cited [e] ++ extraction_times (s\<lparr>ps_evidence := rows\<rparr>) d
       else extraction_times (s\<lparr>ps_evidence := rows\<rparr>) d')" and
    "ew_digest ` set rows' \<subseteq> insert d (ew_digest ` set rows)"
proof -
  let ?k = "(fe_field e, fe_value e, fe_source_digest e)"
  have known: "list_ex (\<lambda>r. ew_digest r = d \<and> ew_field r = fe_field e \<and> ew_value r = fe_value e \<and>
      ew_source_digest r = fe_source_digest e) rows \<longleftrightarrow> extraction_times (s\<lparr>ps_evidence := rows\<rparr>) d ?k \<noteq> None"
    by (auto simp: extraction_times_def list_ex_iff map_of_eq_None_iff image_iff, metis)
  show "extraction_times (s\<lparr>ps_evidence := rows'\<rparr>) d' =
      (if d' = d then first_cited [e] ++ extraction_times (s\<lparr>ps_evidence := rows\<rparr>) d
       else extraction_times (s\<lparr>ps_evidence := rows\<rparr>) d')"
    using assms known
    by (auto simp: insert_evidence_def first_cited_def extraction_times_def map_add_def fun_eq_iff split: if_splits option.splits)
  show "ew_digest ` set rows' \<subseteq> insert d (ew_digest ` set rows)"
    using assms by (auto simp: insert_evidence_def split: if_splits)
qed

lemma times_insert_all:
  assumes "insert_all_evidence d es rows = Inr rows'"
  shows "extraction_times (s\<lparr>ps_evidence := rows'\<rparr>) d' =
      (if d' = d then first_cited es ++ extraction_times (s\<lparr>ps_evidence := rows\<rparr>) d
       else extraction_times (s\<lparr>ps_evidence := rows\<rparr>) d') \<and>
    ew_digest ` set rows' \<subseteq> insert d (ew_digest ` set rows)"
  using assms
proof (induction es arbitrary: rows)
  case Nil
  then show ?case by (auto simp: first_cited_def)
next
  case (Cons e es)
  then obtain rows1 where r: "insert_evidence d e rows = Inr rows1" "insert_all_evidence d es rows1 = Inr rows'"
    by (auto simp: result_simps)
  have "first_cited (e # es) = first_cited es ++ first_cited [e]"
    by (simp add: first_cited_def fun_eq_iff map_add_def)
  moreover have "ew_digest ` set rows' \<subseteq> insert d (ew_digest ` set rows)"
    using Cons.IH [OF r(2)] times_insert(2) [OF r(1)] by blast
  ultimately show ?case
    using Cons.IH [OF r(2)] times_insert(1) [OF r(1), of s d'] times_insert(1) [OF r(1), of s d]
    by auto
qed

lemma times_same_evidence: "ps_evidence s = ps_evidence t \<Longrightarrow> extraction_times s = extraction_times t"
  by (simp add: fun_eq_iff extraction_times_def)

text \<open>A put adds the row of its digest with its own profile, or leaves every row and citation as it was.\<close>

lemma put_profile_rows:
  assumes "put_profile sha owner now p s = Inr (d, s')"
  obtains "ps_profiles s' = ps_profiles s" "ps_evidence s' = ps_evidence s"
    | w rows where "ps_profiles s' = ps_profiles s @ [w]" "d \<notin> pw_digest ` set (ps_profiles s)"
      "pw_digest w = d" "d = compute_profile_digest sha p" "pw_body w = canonical_body p" "pw_built_at w = pr_built_at p"
      "pw_adapters_engaged w = join_chr (CHR '','') (pr_adapters_engaged p)"
      "insert_all_evidence d (all_evidence p) (ps_evidence s) = Inr rows" "ps_evidence s' = rows"
proof -
  obtain s1 where a: "d = compute_profile_digest sha p" "store_profile p d s = Inr s1"
    "bind_run owner now (pr_run_id p) d s1 = Inr s'"
    using assms by (auto simp: put_profile_def profile_digest_def result_simps guard_simps split: if_splits)
  have b: "ps_profiles s' = ps_profiles s1" "ps_evidence s' = ps_evidence s1"
    using a(3) by (auto simp: bind_run_def split: option.splits if_splits)
  show thesis
  proof (cases "List.find (\<lambda>r. pw_digest r = d) (ps_profiles s)")
    case None
    then have "insert_profile p d (canonical_body p) s = Inr s1" using a(2) by (simp add: store_profile_def)
    then obtain w rows where "ps_profiles s1 = ps_profiles s @ [w]" "pw_digest w = d" "pw_body w = canonical_body p"
      "pw_built_at w = pr_built_at p" "pw_adapters_engaged w = join_chr (CHR '','') (pr_adapters_engaged p)"
      "insert_all_evidence d (all_evidence p) (ps_evidence s) = Inr rows" "ps_evidence s1 = rows"
      by (auto simp: insert_profile_def result_simps split: if_splits)
    moreover have "d \<notin> pw_digest ` set (ps_profiles s)" using None by (auto simp: find_None_not)
    ultimately show thesis using that(2) a(1) b by simp
  next
    case (Some r)
    then have "s1 = s" using a(2) by (simp add: store_profile_def split: if_splits)
    then show thesis using that(1) b by simp
  qed
qed

lemma put_rows_ok:
  assumes "put_profile sha owner now p s = Inr (d, s')" "rows_ok sha P s"
  shows "rows_ok sha (insert p P) s' \<and>
    (\<forall>w\<in>set (ps_profiles s). extraction_times s' (pw_digest w) = extraction_times s (pw_digest w))"
proof (rule put_profile_rows [OF assms(1)])
  assume same: "ps_profiles s' = ps_profiles s" "ps_evidence s' = ps_evidence s"
  then show ?thesis
    using assms(2) times_same_evidence [OF same(2)] by (auto simp: rows_ok_def stored_from_def)
next
  fix w rows
  assume w: "ps_profiles s' = ps_profiles s @ [w]" "d \<notin> pw_digest ` set (ps_profiles s)"
      "pw_digest w = d" "d = compute_profile_digest sha p" "pw_body w = canonical_body p" "pw_built_at w = pr_built_at p"
      "pw_adapters_engaged w = join_chr (CHR '','') (pr_adapters_engaged p)"
    and rows: "insert_all_evidence d (all_evidence p) (ps_evidence s) = Inr rows" "ps_evidence s' = rows"
  have s: "extraction_times (s\<lparr>ps_evidence := ps_evidence s\<rparr>) = extraction_times s"
    "extraction_times (s\<lparr>ps_evidence := rows\<rparr>) = extraction_times s'"
    by (rule times_same_evidence; simp add: rows(2))+
  note t = times_insert_all [OF rows(1), of s, unfolded s]
  have "extraction_times s d = Map.empty"
    using assms(2) w(2) by (auto simp: rows_ok_def extraction_times_def filter_empty_conv)
  then have new: "extraction_times s' d = first_cited (all_evidence p)" using t [of d] by simp
  have old: "extraction_times s' (pw_digest v) = extraction_times s (pw_digest v)" if "v \<in> set (ps_profiles s)" for v
  proof -
    have "pw_digest v \<noteq> d" using w(2) that by blast
    then show ?thesis using t [of "pw_digest v"] by simp
  qed
  have ev: "ew_digest r \<in> pw_digest ` set (ps_profiles s')" if "r \<in> set (ps_evidence s')" for r
  proof -
    have "ew_digest r \<in> insert d (ew_digest ` set (ps_evidence s))" using t that rows(2) by blast
    then show ?thesis using assms(2) w(1,3) by (auto simp: rows_ok_def)
  qed
  have "stored_from s' p w" using w(3,5-7) new by (simp add: stored_from_def)
  moreover have "\<exists>p'\<in>P. compute_profile_digest sha p' = pw_digest v \<and> stored_from s' p' v" if "v \<in> set (ps_profiles s)" for v
    using assms(2) that old [OF that] by (auto simp: rows_ok_def stored_from_def)
  ultimately show ?thesis
    using ev old w(1,3,4) by (auto simp: rows_ok_def)
qed

lemma put_all_rows_ok:
  "rows_ok sha P s \<Longrightarrow> rows_ok sha (P \<union> (\<lambda>(o', t, p). p) ` set calls) (put_all sha calls s) \<and>
     (\<forall>w\<in>set (ps_profiles s). extraction_times (put_all sha calls s) (pw_digest w) = extraction_times s (pw_digest w))"
proof (induction calls arbitrary: s P)
  case (Cons c calls)
  obtain owner now p where c: "c = (owner, now, p)" by (rule prod_cases3)
  have mono: "rows_ok sha (insert p P) s" using Cons.prems by (auto simp: rows_ok_def)
  show ?case
  proof (rule put_call_cases [of sha owner now p s])
    fix d s' assume u: "put_profile sha owner now p s = Inr (d, s')" "put_call sha (owner, now, p) s = s'"
    note r = put_rows_ok [OF u(1) Cons.prems]
    have "set (ps_profiles s) \<subseteq> set (ps_profiles s')" using put_profile_Inr(4) [OF u(1)] by auto
    then show ?thesis
      using Cons.IH [OF conjunct1 [OF r]] r unfolding c put_all_simps u(2) by (auto simp: subset_eq)
  next
    assume "put_call sha (owner, now, p) s = s"
    then show ?thesis using Cons.IH [OF mono] unfolding c by simp
  qed
qed simp


text \<open>An owner that never put a profile of a digest learns nothing of it: both reads by digest answer
  as for a digest that is not stored, and no run of the owner reads it.\<close>

theorem profile_reads_are_tenant_scoped:
  assumes "\<not> list_ex (\<lambda>(o', t, p). o' = owner \<and> compute_profile_digest sha p = d) calls"
    and "length d = source_digest_length"
  shows "get_profile v6 owner d (put_all sha calls empty_store) = Inr None \<and>
    evidence_for owner d (put_all sha calls empty_store) = Inr [] \<and>
    (case get_for_run v6 owner run (put_all sha calls empty_store) of
       Inr (Some q) \<Rightarrow> pr_digest q \<noteq> d | _ \<Rightarrow> True)"
proof -
  let ?s = "put_all sha calls empty_store"
  have no: "\<not> (rb_owner b = owner \<and> rb_digest b = d)" if "b \<in> set (ps_runs ?s)" for b
    using put_all_runs [OF that] assms(1) by (auto simp: empty_store_def list_ex_iff)
  then have f: "filter (\<lambda>b. rb_digest b = d \<and> rb_owner b = owner) (ps_runs ?s) = []"
    by (auto simp: filter_empty_conv)
  have g: "get_profile v6 owner d ?s = Inr None"
    unfolding get_profile_def profile_digest_def using assms(2) by (simp add: f split: option.splits)
  have e: "evidence_for owner d ?s = Inr []"
    using assms(2) no by (auto simp: evidence_for_def profile_digest_def owner_reaches_def list_ex_iff)
  have "pr_digest q \<noteq> d" if u: "get_for_run v6 owner run ?s = Inr (Some q)" for q
  proof -
    obtain b w where b: "List.find (\<lambda>b. rb_run_id b = run \<and> rb_owner b = owner) (ps_runs ?s) = Some b"
      "List.find (\<lambda>w. pw_digest w = rb_digest b) (ps_profiles ?s) = Some w" "profile_from_row v6 ?s w run = Inr q"
      using u by (auto simp: get_for_run_def result_simps guard_simps split: option.splits)
    have "pr_digest q = pw_digest w"
      using b(3) by (auto simp: profile_from_row_def profile_from_body_def result_simps make_profile_def split: if_splits)
    then show ?thesis using find_Some_in [OF b(1)] find_Some_in [OF b(2)] no by auto
  qed
  then show ?thesis using g e by (auto split: sum.splits option.splits)
qed

section \<open>Instances\<close>

definition sample_sha :: "json \<Rightarrow> string" where
  "sample_sha body = (if body = canonical_body acme_profile then replicate 64 (CHR ''a'') else replicate 64 (CHR ''b''))"

definition acme_stored :: profile_store where
  "acme_stored = put_all sample_sha [(''tenant_a'', ''t1'', acme_profile)] empty_store"

lemma acme_typed: "typed_profile (\<lambda>_. False) acme_profile"
proof -
  have "list_all typed_flow (flows acme_profile) \<and> list_all typed_evidence (pr_evidence acme_profile)" by code_simp
  then show ?thesis using acme_valid by (simp add: typed_profile_def)
qed

lemma acme_put: "put_profile sample_sha ''tenant_a'' ''t1'' acme_profile empty_store = Inr (replicate 64 (CHR ''a''), acme_stored)"
proof -
  have d: "compute_profile_digest sample_sha acme_profile = replicate 64 (CHR ''a'')"
    by (simp add: compute_profile_digest_def sample_sha_def)
  have p: "pr_digest acme_profile = replicate 64 (CHR ''a'')" "pr_run_id acme_profile = ''run_1''"
    by (simp_all add: acme_profile_def sample_profile_of_def)
  have i: "store_identifier max_run_identifier ''run id is invalid'' ''run_1'' = Inr ''run_1''" by code_simp
  have "returned (store_profile acme_profile (replicate 64 (CHR ''a'')) empty_store)" by code_simp
  then obtain s1 where s1: "store_profile acme_profile (replicate 64 (CHR ''a'')) empty_store = Inr s1"
    by (auto simp: result_simps)
  have "ps_runs s1 = []" using store_profile_Inr(3) [OF s1] by (simp add: empty_store_def)
  then have "put_profile sample_sha ''tenant_a'' ''t1'' acme_profile empty_store =
      Inr (replicate 64 (CHR ''a''), s1\<lparr>ps_runs := [\<lparr>rb_run_id = ''run_1'', rb_owner = ''tenant_a'',
        rb_digest = replicate 64 (CHR ''a''), rb_bound_at = ''t1''\<rparr>]\<rparr>)"
    using d i s1 by (simp add: put_profile_def profile_digest_def p source_digest_length_def bind_run_def)
  then show ?thesis by (simp add: acme_stored_def)
qed


lemma profile_reads_are_tenant_scoped_witness:
  "get_profile (\<lambda>_. False) ''tenant_b'' (replicate 64 (CHR ''a'')) acme_stored = Inr None \<and>
   evidence_for ''tenant_b'' (replicate 64 (CHR ''a'')) acme_stored = Inr []"
  unfolding acme_stored_def
  using profile_reads_are_tenant_scoped [of "''tenant_b''" sample_sha "replicate 64 (CHR ''a'')"
      "[(''tenant_a'', ''t1'', acme_profile)]"]
  by (simp add: source_digest_length_def)

end
