(* ===== verification/Page_Snapshot.thy ===== *)
theory Page_Snapshot
  imports Regex Admission
begin

text \<open>
  What the agent sees of a page (\<^theory_text>\<open>ops/browser/decider.py\<close>, and the ranking of
  \<^theory_text>\<open>ops/browser/snapshot.py\<close>): the facts collected per element, their ranking and the
  projection to the bounded snapshot, and the validation of a model's reply into a choice.

  A collected fact is a value of \<^theory_text>\<open>raw_value\<close>, and an element the association list of
  its facts. Viewport offsets are whole pixels, and scores are compared exactly.
\<close>

section \<open>Labels\<close>

definition lower_alnum_char :: "char \<Rightarrow> bool" where
  "lower_alnum_char c = (is_lower_alpha c \<or> is_digit c)"

text \<open>Every run of other characters is one space, and none stands at an end.\<close>

definition normalize_label :: "string \<Rightarrow> string" where
  "normalize_label s = join_chr (CHR '' '') (filter (\<lambda>w. w \<noteq> [])
     (split_chr (CHR '' '') (map (\<lambda>c. if lower_alnum_char c then c else CHR '' '') (lower s))))"

definition label_needles :: "string list \<Rightarrow> string list" where
  "label_needles signals = map normalize_label (filter (\<lambda>s. strip s \<noteq> []) signals)"

definition needle_in :: "string list \<Rightarrow> string \<Rightarrow> bool" where
  "needle_in needles label = list_ex (\<lambda>n. n \<noteq> [] \<and> has_infix n (normalize_label label)) needles"

section \<open>Collected facts\<close>

datatype raw_value =
    Raw_None
  | Raw_Bool bool
  | Raw_Number int
  | Raw_Text string
  | Raw_List "string list"

type_synonym raw_element = "(string \<times> raw_value) list"

definition raw_get :: "raw_element \<Rightarrow> string \<Rightarrow> raw_value" where
  "raw_get raw k = (case map_of raw k of None \<Rightarrow> Raw_None | Some v \<Rightarrow> v)"

fun raw_true :: "raw_value \<Rightarrow> bool" where
  "raw_true Raw_None = False"
| "raw_true (Raw_Bool b) = b"
| "raw_true (Raw_Number n) = (n \<noteq> 0)"
| "raw_true (Raw_Text s) = (s \<noteq> [])"
| "raw_true (Raw_List xs) = (xs \<noteq> [])"

text \<open>A chain of \<^theory_text>\<open>or\<close>: the first true value, or the last one.\<close>

fun raw_first :: "raw_element \<Rightarrow> string list \<Rightarrow> raw_value \<Rightarrow> raw_value" where
  "raw_first raw [] d = d"
| "raw_first raw (k # ks) d = (if raw_true (raw_get raw k) then raw_get raw k else raw_first raw ks d)"

fun raw_text :: "raw_value \<Rightarrow> string" where
  "raw_text (Raw_Text s) = strip s"
| "raw_text _ = []"

definition raw_default :: "raw_element \<Rightarrow> string \<Rightarrow> bool \<Rightarrow> bool" where
  "raw_default raw k d = (case map_of raw k of None \<Rightarrow> d | Some v \<Rightarrow> raw_true v)"

fun tri_state :: "raw_value \<Rightarrow> bool option" where
  "tri_state (Raw_Bool b) = Some b"
| "tri_state (Raw_Text s) =
     (let l = lower (strip s)
      in if l \<in> {''true'', ''checked'', ''selected'', ''expanded''} then Some True
         else if l \<in> {''false'', ''unchecked'', ''unselected'', ''collapsed''} then Some False
         else None)"
| "tri_state _ = None"

section \<open>The snapshot\<close>

record snapshot_element =
  se_index :: nat
  se_role :: string
  se_name :: string
  se_type :: string
  se_has_value :: bool
  se_secretish :: bool
  se_visible :: bool
  se_enabled :: bool
  se_checked :: "bool option"
  se_selected :: "bool option"
  se_expanded :: "bool option"
  se_frame :: "string list"
  se_href_path :: "string option"
  se_test_id :: "string option"
  se_heading :: "string option"
  se_selected_label :: "string option"

definition actionable :: "snapshot_element \<Rightarrow> bool" where
  "actionable e = (se_visible e \<and> se_enabled e)"

definition max_elements :: nat where
  "max_elements = 40"

definition secretish_words :: "string list" where
  "secretish_words = [''pass'', ''secret'', ''token'', ''otp'', ''code'', ''cvv'', ''card'', ''credential'']"

definition secretish_text :: "string \<Rightarrow> bool" where
  "secretish_text s =
     (list_ex (\<lambda>w. has_infix w (lower s)) secretish_words \<or>
      rx_search (rx_seq [lit ''api'', Upto 1 (Cls (\<lambda>c. c \<noteq> CHR 0x0A)), lit ''key'']) (lower s) \<noteq> None)"

definition non_empty :: "string \<Rightarrow> string option" where
  "non_empty s = (if s = [] then None else Some s)"

definition project_element :: "nat \<Rightarrow> raw_element \<Rightarrow> snapshot_element" where
  "project_element i raw =
     (let name = take 120 (raw_text (raw_first raw [''name'', ''label'', ''placeholder'', ''text''] (Raw_Text [])));
          etype = take 40 (raw_text (raw_first raw [''type''] (Raw_Text [])));
          secretish = secretish_text (name @ '' '' @ etype)
      in \<lparr>se_index = i,
          se_role = take 40 (raw_text (raw_first raw [''role'', ''tag''] (Raw_Text ''element''))),
          se_name = name, se_type = etype,
          se_has_value = (raw_true (raw_get raw ''value_present'') \<and> \<not> secretish),
          se_secretish = secretish,
          se_visible = raw_default raw ''visible'' True, se_enabled = raw_default raw ''enabled'' True,
          se_checked = tri_state (raw_get raw ''checked''), se_selected = tri_state (raw_get raw ''selected''),
          se_expanded = tri_state (raw_get raw ''expanded''),
          se_frame = (case raw_get raw ''frame_path'' of
              Raw_List ps \<Rightarrow> map (take 60) (filter (\<lambda>p. p \<noteq> []) ps) | _ \<Rightarrow> []),
          se_href_path = non_empty (take 300 (raw_text (raw_get raw ''href_path''))),
          se_test_id = non_empty (take 120 (raw_text (raw_get raw ''test_id''))),
          se_heading = non_empty (take 120 (raw_text (raw_get raw ''nearby_heading''))),
          se_selected_label = (if secretish then None
              else non_empty (take 120 (raw_text (raw_get raw ''selected_label''))))\<rparr>)"

definition build_snapshot :: "raw_element list \<Rightarrow> snapshot_element list" where
  "build_snapshot raws = map (\<lambda>(i, raw). project_element i raw) (enumerate 0 (take max_elements raws))"

section \<open>Ranking\<close>

definition role_importance :: "(string \<times> int) list" where
  "role_importance = [(''button'', 40), (''a'', 34), (''link'', 34), (''input'', 32), (''select'', 30),
     (''textarea'', 26), (''menuitem'', 24), (''tab'', 20)]"

text \<open>\<^theory_text>\<open>str(item.get(k) or "")\<close> of a text fact.\<close>

fun raw_str :: "raw_value \<Rightarrow> string" where
  "raw_str (Raw_Text s) = s"
| "raw_str _ = []"

text \<open>Two hundred times the score of the code.\<close>

definition rank_score :: "string list \<Rightarrow> raw_element \<Rightarrow> int" where
  "rank_score needles raw =
     (let importance = (case map_of role_importance (lower (raw_str (raw_get raw ''role''))) of
            None \<Rightarrow> 8 | Some n \<Rightarrow> n);
          top = (case raw_get raw ''_top'' of Raw_Number n \<Rightarrow> n | Raw_Bool b \<Rightarrow> (if b then 1 else 0) | _ \<Rightarrow> 10000)
      in 200 * ((if needle_in needles (raw_str (raw_get raw ''name'')) then 120 else 0)
              + (if raw_true (raw_get raw ''visible'') then 30 else 0)
              + (if raw_true (raw_get raw ''enabled'') then 20 else 0)
              + importance
              + (if raw_true (raw_get raw ''test_id'') then 12 else 0))
         + max 0 (5000 - min top 5000))"

definition rank_raw_elements :: "string list \<Rightarrow> nat \<Rightarrow> raw_element list \<Rightarrow> raw_element list" where
  "rank_raw_elements signals limit raws =
     take limit (sort_key (\<lambda>raw. - rank_score (label_needles signals) raw) raws)"

section \<open>The choice of a model\<close>

datatype choice_kind = Select_Candidate | Report_Hitl | Report_Blocked

record candidate_choice =
  cc_decision :: choice_kind
  cc_id :: "string option"
  cc_reason :: string

fun choice_kind_of :: "raw_value \<Rightarrow> choice_kind option" where
  "choice_kind_of (Raw_Text s) =
     (if s = ''select_candidate'' then Some Select_Candidate
      else if s = ''report_hitl'' then Some Report_Hitl
      else if s = ''report_blocked'' then Some Report_Blocked else None)"
| "choice_kind_of _ = None"

text \<open>The schema of \<^theory_text>\<open>CandidateChoice\<close>: no other field, a decision of the three, and bounded
  text.\<close>

definition choice_of_payload :: "raw_element \<Rightarrow> candidate_choice option" where
  "choice_of_payload payload =
     (if \<not> set (map fst payload) \<subseteq> {''decision'', ''candidate_id'', ''reason''} then None
      else (case (choice_kind_of (raw_get payload ''decision''), raw_get payload ''candidate_id'',
                  case map_of payload ''reason'' of None \<Rightarrow> Raw_Text [] | Some r \<Rightarrow> r) of
          (Some k, Raw_None, Raw_Text r) \<Rightarrow>
            if length r \<le> 300 then Some \<lparr>cc_decision = k, cc_id = None, cc_reason = r\<rparr> else None
        | (Some k, Raw_Text i, Raw_Text r) \<Rightarrow>
            if length i \<le> 64 \<and> length r \<le> 300
            then Some \<lparr>cc_decision = k, cc_id = Some i, cc_reason = r\<rparr> else None
        | _ \<Rightarrow> None))"

definition validate_choice :: "raw_element \<Rightarrow> string list \<Rightarrow> candidate_choice result" where
  "validate_choice payload ids =
     (case choice_of_payload payload of
        None \<Rightarrow> Inl (ValueError ''choice failed schema validation'')
      | Some c \<Rightarrow>
          if cc_decision c \<noteq> Select_Candidate then Inr c
          else (case cc_id c of
              None \<Rightarrow> Inl (ValueError ''select_candidate requires a candidate_id'')
            | Some i \<Rightarrow>
                if i = [] then Inl (ValueError ''select_candidate requires a candidate_id'')
                else if i \<notin> set ids
                then Inl (ValueError ''candidate_id is not in the generated policy set'')
                else Inr c))"

section \<open>What holds of a snapshot\<close>

lemma length_build_snapshot [simp]: "length (build_snapshot raws) = min (length raws) max_elements"
  by (simp add: build_snapshot_def)

lemma build_snapshot_nth:
  "i < length (build_snapshot raws) \<Longrightarrow> build_snapshot raws ! i = project_element i (raws ! i)"
  by (simp add: build_snapshot_def nth_enumerate_eq)

lemma build_snapshot_mem:
  "e \<in> set (build_snapshot raws) \<Longrightarrow> \<exists>i<length raws. e = project_element i (raws ! i)"
  by (metis build_snapshot_nth in_set_conv_nth length_build_snapshot min_less_iff_conj)

lemma snapshot_secret:
  "e \<in> set (build_snapshot raws) \<Longrightarrow>
     se_secretish e = secretish_text (se_name e @ '' '' @ se_type e) \<and>
     (se_secretish e \<longrightarrow> \<not> se_has_value e \<and> se_selected_label e = None)"
  by (auto dest!: build_snapshot_mem simp: project_element_def Let_def)

lemma snapshot_name_bound: "e \<in> set (build_snapshot raws) \<Longrightarrow> length (se_name e) \<le> 120"
  by (auto dest!: build_snapshot_mem simp: project_element_def Let_def)

lemma rank_raw_subset: "set (rank_raw_elements signals limit raws) \<subseteq> set raws"
  by (auto simp: rank_raw_elements_def dest!: in_set_takeD)

lemma validate_choice_select:
  "validate_choice payload ids = Inr c \<Longrightarrow> cc_decision c = Select_Candidate \<Longrightarrow>
     \<exists>i. cc_id c = Some i \<and> i \<in> set ids"
  by (auto simp: validate_choice_def split: option.splits if_splits)

end
