(* ===== verification/Candidates.thy ===== *)
theory Candidates
  imports Page_Snapshot Host_Policy
begin

text \<open>
  The actions a page affords (\<^theory_text>\<open>ops/browser/candidates.py\<close>): what the policy offers a
  model to choose from, derived from the snapshot and the reviewed facts of the phase, and how
  the element of a choice is found again before the action runs. The model names an
  identifier of an offer; it authors no selector, URL or value.

  \<^theory_text>\<open>sha\<close> is the hexadecimal SHA-256 digest of a text; \<^theory_text>\<open>v6\<close> decides an address literal,
  as in the theory of URLs.
\<close>

section \<open>Offers\<close>

datatype candidate_action =
    Do_Click | Do_Fill | Do_Type | Do_Press | Do_Goto | Do_Select_Option | Do_Check | Do_Uncheck
  | Do_Scroll | Do_Focus

fun action_text :: "candidate_action \<Rightarrow> string" where
  "action_text Do_Click = ''click''"
| "action_text Do_Fill = ''fill''"
| "action_text Do_Type = ''type''"
| "action_text Do_Press = ''press''"
| "action_text Do_Goto = ''goto''"
| "action_text Do_Select_Option = ''select_option''"
| "action_text Do_Check = ''check''"
| "action_text Do_Uncheck = ''uncheck''"
| "action_text Do_Scroll = ''scroll_into_view''"
| "action_text Do_Focus = ''focus''"

definition read_only_actions :: "candidate_action set" where
  "read_only_actions = {Do_Scroll, Do_Focus}"

definition value_actions :: "candidate_action set" where
  "value_actions = {Do_Fill, Do_Type, Do_Select_Option}"

datatype risk_level = Risk_Low | Risk_Medium | Risk_High | Risk_Requires_Hitl

record element_predicate =
  ep_role :: string
  ep_name :: string
  ep_type :: string
  ep_frame :: "string list"
  ep_test_id :: "string option"

definition predicate_matches :: "element_predicate \<Rightarrow> snapshot_element \<Rightarrow> bool" where
  "predicate_matches p e =
     (if truthy (ep_test_id p) then se_test_id e = ep_test_id p
      else if ep_role p \<noteq> [] \<and> se_role e \<noteq> ep_role p then False
      else if ep_type p \<noteq> [] \<and> se_type e \<noteq> ep_type p then False
      else if ep_frame p \<noteq> [] \<and> se_frame e \<noteq> ep_frame p then False
      else if ep_name p \<noteq> [] then has_infix (normalize_label (ep_name p)) (normalize_label (se_name e))
      else ep_role p \<noteq> [] \<or> ep_type p \<noteq> [])"

record candidate_postcondition =
  cp_target :: "element_predicate option"
  cp_url_changed :: bool
  cp_url_matches :: "string list"
  cp_appears :: "element_predicate list"
  cp_disappears :: "element_predicate list"
  cp_text :: "string list"
  cp_selected :: "string option"
  cp_checked :: "bool option"

definition no_postcondition :: candidate_postcondition where
  "no_postcondition = \<lparr>cp_target = None, cp_url_changed = False, cp_url_matches = [], cp_appears = [],
     cp_disappears = [], cp_text = [], cp_selected = None, cp_checked = None\<rparr>"

definition postcondition_empty :: "candidate_postcondition \<Rightarrow> bool" where
  "postcondition_empty p = (\<not> (cp_url_changed p \<or> cp_url_matches p \<noteq> [] \<or> cp_appears p \<noteq> [] \<or>
     cp_disappears p \<noteq> [] \<or> cp_text p \<noteq> [] \<or> cp_selected p \<noteq> None \<or> cp_checked p \<noteq> None \<or>
     cp_target p \<noteq> None))"

record element_identity =
  ei_role :: string
  ei_name :: string
  ei_type :: string
  ei_frame :: "string list"
  ei_test_id :: "string option"
  ei_href_path :: "string option"
  ei_heading :: "string option"

record action_candidate =
  ac_id :: string
  ac_action :: candidate_action
  ac_target :: string
  ac_identity :: "element_identity option"
  ac_risk :: risk_level
  ac_expected :: string
  ac_trace :: string
  ac_order :: int
  ac_value_ref :: "string option"
  ac_press_key :: "string option"
  ac_url :: "string option"
  ac_hint :: "nat option"
  ac_option :: "string option"
  ac_postcondition :: candidate_postcondition

definition candidate_executable :: "action_candidate \<Rightarrow> bool" where
  "candidate_executable c = (ac_risk c \<noteq> Risk_Requires_Hitl)"

section \<open>Finding an element again\<close>

definition identity_matches :: "element_identity \<Rightarrow> snapshot_element \<Rightarrow> bool" where
  "identity_matches i e = (se_role e = ei_role i \<and> se_name e = ei_name i \<and> se_type e = ei_type i \<and>
     se_frame e = ei_frame i)"

definition tier_test_id :: "element_identity \<Rightarrow> snapshot_element list \<Rightarrow> snapshot_element list" where
  "tier_test_id i es = (if \<not> truthy (ei_test_id i) then []
     else filter (\<lambda>e. truthy (se_test_id e) \<and> se_test_id e = ei_test_id i) es)"

definition tier_frame_role_name :: "element_identity \<Rightarrow> snapshot_element list \<Rightarrow> snapshot_element list" where
  "tier_frame_role_name i es = filter (identity_matches i) es"

definition tier_label_or_placeholder ::
    "element_identity \<Rightarrow> snapshot_element list \<Rightarrow> snapshot_element list" where
  "tier_label_or_placeholder i es = (if ei_name i = [] then []
     else filter (\<lambda>e. se_frame e = ei_frame i \<and> se_role e = ei_role i \<and>
            normalize_label (ei_name i) \<noteq> [] \<and> normalize_label (ei_name i) = normalize_label (se_name e)) es)"

definition tier_href_path :: "element_identity \<Rightarrow> snapshot_element list \<Rightarrow> snapshot_element list" where
  "tier_href_path i es = (if \<not> truthy (ei_href_path i) then []
     else filter (\<lambda>e. truthy (se_href_path e) \<and> se_href_path e = ei_href_path i \<and> se_frame e = ei_frame i) es)"

definition tier_nearby_heading :: "element_identity \<Rightarrow> snapshot_element list \<Rightarrow> snapshot_element list" where
  "tier_nearby_heading i es = (if \<not> truthy (ei_heading i) \<or> ei_name i = [] then []
     else filter (\<lambda>e. truthy (se_heading e) \<and>
            normalize_label (the (se_heading e)) = normalize_label (the (ei_heading i)) \<and>
            normalize_label (ei_name i) \<noteq> [] \<and>
            has_infix (normalize_label (ei_name i)) (normalize_label (se_name e)) \<and>
            se_frame e = ei_frame i) es)"

datatype identity_resolution = Resolved snapshot_element | Not_Found | Ambiguous

fun first_tier :: "snapshot_element list list \<Rightarrow> identity_resolution" where
  "first_tier [] = Not_Found"
| "first_tier (hits # tiers) = (case hits of [] \<Rightarrow> first_tier tiers | [e] \<Rightarrow> Resolved e | _ \<Rightarrow> Ambiguous)"

definition resolve_identity :: "element_identity \<Rightarrow> snapshot_element list \<Rightarrow> identity_resolution" where
  "resolve_identity i es = first_tier [tier_test_id i es, tier_frame_role_name i es,
     tier_label_or_placeholder i es, tier_href_path i es, tier_nearby_heading i es]"

section \<open>Policy of the offers\<close>

definition irreversible_intents :: "(string \<times> string) list" where
  "irreversible_intents =
     [(''delete account'', ''account_deletion''), (''close account'', ''account_deletion''),
      (''delete workspace'', ''destructive_change''), (''delete'', ''destructive_change''),
      (''remove'', ''destructive_change''), (''revoke'', ''key_revocation''), (''rotate'', ''key_revocation''),
      (''regenerate'', ''key_revocation''), (''deactivate'', ''destructive_change''),
      (''transfer ownership'', ''permission_escalation''), (''make admin'', ''permission_escalation''),
      (''grant access'', ''permission_escalation''), (''change plan'', ''billing''), (''upgrade'', ''billing''),
      (''add payment'', ''billing''), (''billing'', ''billing''), (''subscribe'', ''billing''),
      (''accept terms'', ''legal_acceptance''), (''i agree'', ''legal_acceptance''),
      (''accept and continue'', ''legal_acceptance'')]"

definition classify_irreversible :: "string \<Rightarrow> string \<Rightarrow> string option" where
  "classify_irreversible name role =
     map_option snd (List.find (\<lambda>(needle, _). has_infix needle (lower (name @ '' '' @ role))) irreversible_intents)"

definition provider_value_refs :: "string list" where
  "provider_value_refs =
     [''application_name'', ''credential_name'', ''bot_name'', ''bot_username'', ''callback_url'', ''store_domain'',
      ''account_name'', ''team_name'', ''organization_name'', ''project_name'', ''instance_name'', ''region'', ''plan'',
      ''expiration'', ''permission_profile'', ''service_account_name'', ''service_account_email'', ''site'']"

definition company_value_refs :: "string list" where
  "company_value_refs = [''company_name'', ''company_website'', ''use_case'', ''expected_volume'']"

definition approved_value_refs :: "string list" where
  "approved_value_refs = provider_value_refs @ company_value_refs"

definition max_per_action_kind :: nat where
  "max_per_action_kind = 4"

definition max_value_refs_per_element :: nat where
  "max_value_refs_per_element = 2"

definition max_value_candidates :: nat where
  "max_value_candidates = 6"

definition identity_parts :: "snapshot_element \<Rightarrow> string list" where
  "identity_parts e = [se_role e, se_name e, se_type e, join_chr (CHR ''/'') (se_frame e),
     case se_test_id e of None \<Rightarrow> [] | Some t \<Rightarrow> t, case se_heading e of None \<Rightarrow> [] | Some h \<Rightarrow> h]"

definition candidate_id :: "(string \<Rightarrow> string) \<Rightarrow> string list \<Rightarrow> string" where
  "candidate_id sha parts = ''c_'' @ take 12 (sha (join_chr (CHR ''|'') parts))"

definition identity_of :: "snapshot_element \<Rightarrow> element_identity" where
  "identity_of e = \<lparr>ei_role = se_role e, ei_name = se_name e, ei_type = se_type e, ei_frame = se_frame e,
     ei_test_id = se_test_id e, ei_href_path = se_href_path e, ei_heading = se_heading e\<rparr>"

definition predicate_of :: "snapshot_element \<Rightarrow> element_predicate" where
  "predicate_of e = \<lparr>ep_role = se_role e, ep_name = se_name e, ep_type = se_type e, ep_frame = se_frame e,
     ep_test_id = se_test_id e\<rparr>"

definition or_text :: "string \<Rightarrow> string \<Rightarrow> string" where
  "or_text a b = (if a = [] then b else a)"

section \<open>Budgets\<close>

text \<open>Element by element, every first offer before any second one.\<close>

definition interleave :: "'a list list \<Rightarrow> nat \<Rightarrow> 'a list" where
  "interleave groups limit =
     take limit (concat (map (\<lambda>i. concat (map (\<lambda>g. if i < length g then [g ! i] else []) groups))
                             [0..<foldr max (map length groups) 0]))"

text \<open>One round of seating: a place for every group that has an offer left, while places last.\<close>

fun seat_round :: "nat list \<Rightarrow> nat list \<Rightarrow> nat \<Rightarrow> nat list \<times> nat" where
  "seat_round (n # ns) (q # qs) left =
     (if 0 < left \<and> q < n
      then (let (qs', left') = seat_round ns qs (left - 1) in (Suc q # qs', left'))
      else (let (qs', left') = seat_round ns qs left in (q # qs', left')))"
| "seat_round _ qs left = (qs, left)"

lemma seat_round_left: "snd (seat_round ns qs left) \<le> left"
  by (induction ns qs left rule: seat_round.induct) (auto simp: split_beta)

function seat :: "nat list \<Rightarrow> nat list \<Rightarrow> nat \<Rightarrow> nat list" where
  "seat ns qs left =
     (let r = seat_round ns qs left in if snd r < left then seat ns (fst r) (snd r) else fst r)"
  by pat_completeness auto
termination
  by (relation "measure (\<lambda>x. snd (snd x))") auto

definition allocate :: "'a list list \<Rightarrow> nat \<Rightarrow> 'a list" where
  "allocate groups budget =
     concat (map (\<lambda>(g, q). take q g)
       (zip groups (seat (map length groups) (replicate (length groups) 0) budget)))"

text \<open>Elements without a value first, each part in its order.\<close>

definition by_need :: "snapshot_element list \<Rightarrow> snapshot_element list" where
  "by_need es = filter (\<lambda>e. \<not> se_has_value e) es @ filter se_has_value es"

section \<open>The offers of a page\<close>

record checkpoint =
  ck_signals :: "string list"
  ck_order :: int
  ck_trace :: string
  ck_expected :: string
  ck_goto_urls :: "string list"
  ck_value_refs :: "string list"
  ck_max :: nat

fun int_text :: "int \<Rightarrow> string" where
  "int_text n = (if n < 0 then CHR ''-'' # nat_digits (nat (- n)) else nat_digits (nat n))"

definition offer :: "(string \<Rightarrow> string) \<Rightarrow> checkpoint \<Rightarrow> candidate_action \<Rightarrow> string list \<Rightarrow> action_candidate" where
  "offer sha ck a parts =
     \<lparr>ac_id = candidate_id sha ([ck_trace ck, int_text (ck_order ck), action_text a] @ parts),
      ac_action = a, ac_target = [], ac_identity = None, ac_risk = Risk_Low, ac_expected = ck_expected ck,
      ac_trace = ck_trace ck, ac_order = ck_order ck, ac_value_ref = None, ac_press_key = None,
      ac_url = None, ac_hint = None, ac_option = None,
      ac_postcondition = no_postcondition\<rparr>"

definition element_offer ::
    "(string \<Rightarrow> string) \<Rightarrow> checkpoint \<Rightarrow> candidate_action \<Rightarrow> string list \<Rightarrow> string \<Rightarrow> snapshot_element \<Rightarrow>
     action_candidate" where
  "element_offer sha ck a parts label e =
     (offer sha ck a (parts @ identity_parts e))
       \<lparr>ac_target := or_text (take 120 (se_name e)) label, ac_identity := Some (identity_of e),
        ac_hint := Some (se_index e)\<rparr>"

definition signal_needles :: "checkpoint \<Rightarrow> snapshot_element list \<Rightarrow> string list" where
  "signal_needles ck es =
     (let needles = label_needles (ck_signals ck)
      in if needles \<noteq> [] \<and>
            \<not> list_ex (\<lambda>e. se_name e \<noteq> [] \<and> actionable e \<and> needle_in needles (se_name e)) es
         then [] else needles)"

definition click_offer :: "(string \<Rightarrow> string) \<Rightarrow> checkpoint \<Rightarrow> snapshot_element \<Rightarrow> action_candidate" where
  "click_offer sha ck e =
     (let c = (element_offer sha ck Do_Click [] [] e)
            \<lparr>ac_postcondition := no_postcondition\<lparr>cp_url_changed := True,
               cp_disappears := [\<lparr>ep_role = se_role e, ep_name = se_name e, ep_type = [],
                                 ep_frame = se_frame e, ep_test_id = None\<rparr>]\<rparr>\<rparr>
      in case classify_irreversible (se_name e) (se_role e) of
           None \<Rightarrow> c
         | Some category \<Rightarrow> c\<lparr>ac_risk := Risk_Requires_Hitl, ac_expected := ''human_decision:'' @ category\<rparr>)"

definition click_offers :: "(string \<Rightarrow> string) \<Rightarrow> checkpoint \<Rightarrow> snapshot_element list \<Rightarrow> action_candidate list" where
  "click_offers sha ck es =
     (let needles = signal_needles ck es
      in take (ck_max ck) (map (click_offer sha ck)
           (filter (\<lambda>e. (needles \<noteq> [] \<longrightarrow> needle_in needles (se_name e)) \<and> se_name e \<noteq> [] \<and> actionable e) es)))"

definition usable_refs :: "checkpoint \<Rightarrow> string list" where
  "usable_refs ck = take max_value_refs_per_element
     (filter (\<lambda>r. r \<in> set approved_value_refs) (ck_value_refs ck))"

text \<open>The groups of a value action: the usable references for each element that takes it.\<close>

definition value_groups ::
    "(snapshot_element \<Rightarrow> bool) \<Rightarrow> (string \<Rightarrow> snapshot_element \<Rightarrow> action_candidate) \<Rightarrow> checkpoint \<Rightarrow>
     snapshot_element list \<Rightarrow> action_candidate list list" where
  "value_groups P mk ck es =
     take max_value_candidates (filter (\<lambda>g. g \<noteq> [])
       (map (\<lambda>e. map (\<lambda>r. mk r e) (usable_refs ck)) (filter P (by_need es))))"

definition fill_offers :: "(string \<Rightarrow> string) \<Rightarrow> checkpoint \<Rightarrow> snapshot_element list \<Rightarrow> action_candidate list" where
  "fill_offers sha ck es = interleave
     (value_groups (\<lambda>e. se_type e \<in> {''text'', ''email'', ''search'', ''url'', ''tel''} \<and>
                        \<not> se_secretish e \<and> actionable e)
        (\<lambda>r e. (element_offer sha ck Do_Fill [r] (se_type e) e)\<lparr>ac_value_ref := Some r\<rparr>) ck es)
     max_value_candidates"

definition select_offers :: "(string \<Rightarrow> string) \<Rightarrow> checkpoint \<Rightarrow> snapshot_element list \<Rightarrow> action_candidate list" where
  "select_offers sha ck es = interleave
     (value_groups (\<lambda>e. lower (se_role e) = ''select'' \<and> actionable e)
        (\<lambda>r e. (element_offer sha ck Do_Select_Option [r] ''select'' e)
           \<lparr>ac_value_ref := Some r,
            ac_postcondition := no_postcondition\<lparr>cp_target := Some (predicate_of e)\<rparr>\<rparr>) ck es)
     max_value_candidates"

definition toggle_offer :: "(string \<Rightarrow> string) \<Rightarrow> checkpoint \<Rightarrow> snapshot_element \<Rightarrow> action_candidate" where
  "toggle_offer sha ck e =
     (let desired = (se_checked e \<noteq> Some True)
      in (element_offer sha ck (if desired then Do_Check else Do_Uncheck) [] (se_type e) e)
           \<lparr>ac_postcondition := no_postcondition
              \<lparr>cp_target := Some (predicate_of e), cp_checked := Some desired\<rparr>\<rparr>)"

definition toggle_offers :: "(string \<Rightarrow> string) \<Rightarrow> checkpoint \<Rightarrow> snapshot_element list \<Rightarrow> action_candidate list" where
  "toggle_offers sha ck es =
     take max_per_action_kind (map (toggle_offer sha ck)
       (filter (\<lambda>e. lower (se_type e) \<in> {''checkbox'', ''radio''} \<and> actionable e \<and> \<not> se_secretish e \<and>
                    classify_irreversible (se_name e) (se_role e) = None) es))"

definition url_path :: "(string \<Rightarrow> bool) \<Rightarrow> string \<Rightarrow> string result" where
  "url_path v6 url = bindR (urlsplit v6 url) (\<lambda>u. Inr (or_text (path u) ''/''))"

definition goto_offer :: "(string \<Rightarrow> string) \<Rightarrow> checkpoint \<Rightarrow> string \<Rightarrow> string \<Rightarrow> action_candidate" where
  "goto_offer sha ck url where = (offer sha ck Do_Goto [url])
     \<lparr>ac_target := ''reviewed trace URL'', ac_url := Some url,
      ac_postcondition := no_postcondition\<lparr>cp_url_matches := [where]\<rparr>\<rparr>"

fun goto_offers ::
    "(string \<Rightarrow> bool) \<Rightarrow> (string \<Rightarrow> string) \<Rightarrow> checkpoint \<Rightarrow> string list \<Rightarrow> action_candidate list result" where
  "goto_offers v6 sha ck [] = Inr []"
| "goto_offers v6 sha ck (url # urls) =
     bindR (url_path v6 url) (\<lambda>p. bindR (goto_offers v6 sha ck urls) (\<lambda>cs. Inr (goto_offer sha ck url p # cs)))"

definition press_offers :: "(string \<Rightarrow> string) \<Rightarrow> checkpoint \<Rightarrow> snapshot_element list \<Rightarrow> action_candidate list" where
  "press_offers sha ck es =
     take max_per_action_kind
       (map (\<lambda>e. (element_offer sha ck Do_Press [''Enter''] (se_type e) e)
              \<lparr>ac_press_key := Some ''Enter'', ac_postcondition := no_postcondition\<lparr>cp_url_changed := True\<rparr>\<rparr>)
         (filter (\<lambda>e. se_type e \<in> {''text'', ''email'', ''search''} \<and> \<not> se_secretish e \<and> actionable e) es))"

definition generate_candidates ::
    "(string \<Rightarrow> bool) \<Rightarrow> (string \<Rightarrow> string) \<Rightarrow> checkpoint \<Rightarrow> snapshot_element list \<Rightarrow>
     action_candidate list result" where
  "generate_candidates v6 sha ck es =
     bindR (goto_offers v6 sha ck (take (ck_max ck) (ck_goto_urls ck))) (\<lambda>gotos.
       Inr (allocate [click_offers sha ck es, fill_offers sha ck es, select_offers sha ck es,
                      toggle_offers sha ck es, gotos, press_offers sha ck es] (ck_max ck)))"

definition executable_candidates :: "action_candidate list \<Rightarrow> action_candidate list" where
  "executable_candidates cs = filter candidate_executable cs"

definition select_candidate :: "action_candidate list \<Rightarrow> string \<Rightarrow> action_candidate result" where
  "select_candidate cs i =
     (case List.find (\<lambda>c. ac_id c = i) cs of
        None \<Rightarrow> Inl (ValueError ''selected candidate id is not in the generated policy set'')
      | Some c \<Rightarrow> if candidate_executable c then Inr c
                  else Inl (ValueError ''selected candidate requires human authorization''))"

definition validate_press_key :: "string \<Rightarrow> string result" where
  "validate_press_key key = (if key \<notin> {''Enter'', ''Escape'', ''Tab''}
     then Inl (ValueError ''press key is not reviewed'') else Inr key)"

end
