(* ===== verification/Action_Risk.thy ===== *)
theory Action_Risk
  imports Candidates
begin

text \<open>
  Which offered action may run without a human (\<^theory_text>\<open>ops/browser/risk.py\<close>): the verdict of
  \<^theory_text>\<open>BrowserActionRiskPolicy\<close> from the action, the reviewed authorization of the phase and
  the label of the control.
\<close>

section \<open>Verdicts\<close>

datatype risk_name = Read_Only | Reversible | State_Changing | Irreversible

record risk_decision =
  rd_level :: risk_name
  rd_autonomous :: bool
  rd_reason :: string

definition after_colon :: "string \<Rightarrow> string" where
  "after_colon s = drop 1 (dropWhile (\<lambda>c. c \<noteq> CHR '':'') s)"

definition risk_category :: "risk_decision \<Rightarrow> string" where
  "risk_category d =
     (if starts_with ''irreversible_intent:'' (rd_reason d) then after_colon (rd_reason d)
      else if rd_reason d = ''credential_creation_control_not_reviewed'' then ''creation'' else [])"

record action_authorization =
  az_value_refs :: "string list"
  az_controls :: "string list"
  az_requires_hitl :: bool
  az_create :: bool

definition authorization_for ::
    "string list \<Rightarrow> string list \<Rightarrow> bool \<Rightarrow> string \<Rightarrow> action_authorization" where
  "authorization_for refs controls hitl policy =
     \<lparr>az_value_refs = refs, az_controls = controls, az_requires_hitl = hitl,
      az_create = (policy = ''create_if_missing'' \<and> controls \<noteq> [])\<rparr>"

section \<open>The verb families\<close>

definition word :: "rx \<Rightarrow> rx" where
  "word r = rx_seq [Word_Edge, r, Word_Edge]"

definition phrase :: "string \<Rightarrow> rx" where
  "phrase s = word (lit s)"

definition irreversible_verbs :: "(rx \<times> string) list" where
  "irreversible_verbs =
     [(rx_alt [phrase ''create'', phrase ''generate'',
         word (rx_seq [lit ''new '', Upto 1 (lit ''api ''), rx_alt [lit ''key'', lit ''token'', lit ''app'']])],
       ''creation''),
      (rx_alt [phrase ''save'', rx_seq [phrase ''apply'', Not_Ahead (lit '' filters'')]], ''persist''),
      (rx_alt [word (rx_seq [lit ''authori'', one_of ''sz'', lit ''e'']), phrase ''approve'', phrase ''allow'',
         phrase ''grant''], ''authorization''),
      (rx_alt [phrase ''install'', phrase ''connect'', phrase ''publish'', phrase ''deploy''],
       ''integration_change''),
      (rx_alt [phrase ''invite'', phrase ''send'', phrase ''share''], ''outbound_message''),
      (rx_alt [phrase ''delete'', phrase ''remove'', phrase ''destroy'', phrase ''deactivate''],
       ''destructive_change''),
      (rx_alt [phrase ''revoke'', phrase ''rotate'', phrase ''regenerate'',
         word (rx_seq [lit ''reset '', rx_alt [lit ''key'', lit ''token'', lit ''secret'']])], ''key_revocation''),
      (rx_alt [phrase ''upgrade'', phrase ''subscribe'', phrase ''buy'', phrase ''purchase'',
         phrase ''add payment'', phrase ''billing''], ''billing''),
      (rx_alt [phrase ''i agree'', word (rx_seq [lit ''accept '', Upto 1 (lit ''the ''), lit ''terms'']),
         phrase ''accept and continue''], ''legal_acceptance''),
      (rx_alt [phrase ''reveal'',
         word (rx_seq [lit ''show '', rx_alt [lit ''key'', lit ''token'', lit ''secret'', lit ''password'']]),
         word (rx_seq [lit ''copy '', rx_alt [lit ''key'', lit ''token'', lit ''secret'']])], ''credential_exposure''),
      (rx_alt [phrase ''transfer ownership'', phrase ''make admin''], ''permission_escalation'')]"

text \<open>The first family a label names.\<close>

definition verb_family :: "string \<Rightarrow> string option" where
  "verb_family label = map_option snd (List.find (\<lambda>(r, _). rx_search r label \<noteq> None) irreversible_verbs)"

definition read_only_roles :: "string set" where
  "read_only_roles = {''heading'', ''paragraph'', ''text'', ''img'', ''image''}"

text \<open>\<^theory_text>\<open>" ".join(name.casefold().split())\<close>.\<close>

definition folded_name :: "string \<Rightarrow> string" where
  "folded_name s = join_chr (CHR '' '') (filter (\<lambda>w. w \<noteq> [])
     (split_chr (CHR '' '') (map (\<lambda>c. if is_space c then CHR '' '' else c) (lower s))))"

definition element_label :: "snapshot_element option \<Rightarrow> string" where
  "element_label e = (case e of None \<Rightarrow> [] | Some x \<Rightarrow> se_name x)"

definition control_label :: "action_candidate \<Rightarrow> snapshot_element option \<Rightarrow> string" where
  "control_label c e = lower (ac_target c @ '' '' @ element_label e)"

definition reviewed_control :: "action_candidate \<Rightarrow> action_authorization \<Rightarrow> snapshot_element option \<Rightarrow> bool" where
  "reviewed_control c az e =
     (set (map folded_name [ac_target c, element_label e]) \<inter> set (map folded_name (az_controls az)) \<noteq> {})"

section \<open>Classification\<close>

definition verdict :: "risk_name \<Rightarrow> bool \<Rightarrow> string \<Rightarrow> risk_decision" where
  "verdict l a r = \<lparr>rd_level = l, rd_autonomous = a, rd_reason = r\<rparr>"

text \<open>What the structure of the action says once no verb decided.\<close>

definition classify_structure ::
    "action_candidate \<Rightarrow> action_authorization \<Rightarrow> snapshot_element option \<Rightarrow> risk_decision" where
  "classify_structure c az e =
     (if (case e of None \<Rightarrow> False | Some x \<Rightarrow> se_secretish x) \<and> ac_action c \<notin> read_only_actions
      then verdict Irreversible False ''credential_field_requires_code_injection''
      else if ac_action c \<in> read_only_actions then verdict Read_Only True ''read_only_action''
      else if ac_action c \<in> value_actions \<union> {Do_Check, Do_Uncheck}
      then (case ac_value_ref c of
          Some r \<Rightarrow> if r \<notin> set (az_value_refs az)
                    then verdict State_Changing False ''value_ref_not_authorized_by_checkpoint''
                    else verdict Reversible True ''reversible_form_input''
        | None \<Rightarrow> verdict Reversible True ''reversible_form_input'')
      else if ac_action c = Do_Goto then verdict State_Changing True ''reviewed_trace_navigation''
      else if (case e of None \<Rightarrow> False | Some x \<Rightarrow> lower (se_role x) \<in> read_only_roles)
      then verdict Read_Only True ''non_interactive_element''
      else if az_requires_hitl az then verdict State_Changing False ''checkpoint_requires_hitl''
      else verdict State_Changing True ''authorized_checkpoint_progression'')"

definition classify_action ::
    "action_candidate \<Rightarrow> action_authorization \<Rightarrow> snapshot_element option \<Rightarrow> risk_decision" where
  "classify_action c az e =
     (if ac_risk c = Risk_Requires_Hitl then verdict Irreversible False ''candidate_marked_requires_hitl''
      else (case verb_family (control_label c e) of
          None \<Rightarrow> classify_structure c az e
        | Some family \<Rightarrow>
            if ac_action c \<in> read_only_actions then classify_structure c az e
            else if az_create az \<and> family \<in> {''creation'', ''persist''}
            then (if reviewed_control c az e
                  then verdict State_Changing True (''authorized_credential_'' @ family)
                  else verdict Irreversible False ''credential_creation_control_not_reviewed'')
            else verdict Irreversible False (''irreversible_intent:'' @ family)))"

text \<open>The verdict on an offer against a snapshot (\<^theory_text>\<open>_risk_of\<close>) and the split of the offers
  (\<^theory_text>\<open>_autonomous_options\<close>) of \<^theory_text>\<open>ops/onboarding/action_loop.py\<close>.\<close>

definition risk_of ::
    "action_candidate \<Rightarrow> snapshot_element list \<Rightarrow> action_authorization \<Rightarrow> risk_decision" where
  "risk_of c es az = classify_action c az
     (case ac_identity c of
        None \<Rightarrow> None
      | Some i \<Rightarrow> (case resolve_identity i es of Resolved e \<Rightarrow> Some e | _ \<Rightarrow> None))"

definition autonomous_options ::
    "action_candidate list \<Rightarrow> snapshot_element list \<Rightarrow> action_authorization \<Rightarrow>
     action_candidate list \<times> (action_candidate \<times> risk_decision) option" where
  "autonomous_options cs es az =
     (filter (\<lambda>c. rd_autonomous (risk_of c es az)) cs,
      map_option (\<lambda>c. (c, risk_of c es az)) (List.find (\<lambda>c. \<not> rd_autonomous (risk_of c es az)) cs))"

end
