(* ===== verification/Phase_Goal.thy ===== *)
theory Phase_Goal
  imports Action_Risk Driver_Steps
begin

text \<open>
  The vocabulary of the action loop (\<^theory_text>\<open>ops/onboarding/action_loop.py\<close>): the budgets of
  a phase, the observation the browser reports (\<^theory_text>\<open>ops/browser/worker.py\<close>), the goal a phase
  is driven toward and the check of its postconditions. Time is in microseconds.
\<close>

section \<open>Budgets\<close>

definition max_actions :: int where "max_actions = 60"
definition max_model_calls :: int where "max_model_calls = 80"
definition max_no_progress :: int where "max_no_progress = 6"
definition max_wallclock_seconds :: int where "max_wallclock_seconds = 900"
definition max_navigation_denials :: int where "max_navigation_denials = 10"
definition max_candidates :: int where "max_candidates = 8"
definition max_decision_failures :: nat where "max_decision_failures = 2"
definition max_action_failures :: nat where "max_action_failures = 3"

datatype budget_bound = Bound_Actions | Bound_Model_Calls | Bound_No_Progress | Bound_Wallclock

record loop_budget =
  lb_actions :: int
  lb_model_calls :: int
  lb_no_progress :: int
  lb_wallclock :: int
  lb_denials :: int

definition make_budget :: "loop_budget \<Rightarrow> loop_budget result" where
  "make_budget b =
     (if list_ex (\<lambda>n. n < 1) [lb_actions b, lb_model_calls b, lb_no_progress b, lb_wallclock b, lb_denials b]
      then Inl (ValueError ''every loop budget bound must be at least one'')
      else if lb_model_calls b < lb_actions b
      then Inl (ValueError ''the model-call budget cannot be below the action budget'')
      else Inr b)"

definition default_budget :: loop_budget where
  "default_budget = \<lparr>lb_actions = max_actions, lb_model_calls = max_model_calls,
     lb_no_progress = max_no_progress, lb_wallclock = max_wallclock_seconds,
     lb_denials = max_navigation_denials\<rparr>"

definition exhausted_bound :: "loop_budget \<Rightarrow> nat \<Rightarrow> nat \<Rightarrow> nat \<Rightarrow> int \<Rightarrow> budget_bound option" where
  "exhausted_bound b actions calls no_progress elapsed =
     (if lb_actions b \<le> int actions then Some Bound_Actions
      else if lb_model_calls b \<le> int calls then Some Bound_Model_Calls
      else if lb_no_progress b \<le> int no_progress then Some Bound_No_Progress
      else if lb_wallclock b * 1000000 \<le> elapsed then Some Bound_Wallclock
      else None)"

fun exhaustion_reason :: "budget_bound \<Rightarrow> string" where
  "exhaustion_reason Bound_Actions = ''loop_action_budget_exhausted''"
| "exhaustion_reason Bound_Model_Calls = ''loop_model_call_budget_exhausted''"
| "exhaustion_reason Bound_No_Progress = ''loop_no_progress_budget_exhausted''"
| "exhaustion_reason Bound_Wallclock = ''loop_wallclock_budget_exhausted''"

section \<open>Observations\<close>

datatype observation_status =
    Obs_Navigating | Obs_Human_Action | Obs_Console_Ready | Obs_Credential_Ready | Obs_Blocked | Obs_Failed

record browser_observation =
  bo_status :: observation_status
  bo_url :: string
  bo_title :: string
  bo_app_id :: "string option"
  bo_human :: "string option"
  bo_instruction :: "string option"
  bo_labels :: "string list"
  bo_reason :: "string option"

definition observation_reason_ok :: "string \<Rightarrow> bool" where
  "observation_reason_ok r = (r \<noteq> [] \<and> length r \<le> 100 \<and>
     list_all (\<lambda>c. is_lower_alpha c \<or> is_digit c \<or> c \<in> set ''_:-'') r)"

text \<open>The checks of the constructor on the fields modelled here; the address is already the
  sanitized one.\<close>

definition make_observation :: "browser_observation \<Rightarrow> browser_observation result" where
  "make_observation o1 =
     (if bo_title o1 = [] \<or> 500 < int (length (bo_title o1))
      then Inl (ValueError ''browser page title is invalid'')
      else if (case bo_reason o1 of None \<Rightarrow> False | Some r \<Rightarrow> \<not> observation_reason_ok r)
      then Inl (ValueError ''browser reason code is invalid'')
      else if bo_status o1 = Obs_Human_Action \<and> (bo_human o1 = None \<or> \<not> truthy (bo_instruction o1))
      then Inl (ValueError ''human action observations require a typed instruction'')
      else if bo_status o1 \<noteq> Obs_Human_Action \<and> bo_human o1 \<noteq> None
      then Inl (ValueError ''human action type is only valid for a human-action observation'')
      else if 20 < int (length (bo_labels o1)) \<or>
              list_ex (\<lambda>l. l = [] \<or> 200 < int (length l)) (bo_labels o1)
      then Inl (ValueError ''credential field labels are invalid'')
      else Inr o1)"

definition unobserved :: browser_observation where
  "unobserved = \<lparr>bo_status = Obs_Failed, bo_url = ''about:blank'', bo_title = ''unobserved'', bo_app_id = None,
     bo_human = None, bo_instruction = None, bo_labels = [], bo_reason = Some ''outcome_unknown''\<rparr>"

record loop_observation =
  lo_observation :: browser_observation
  lo_elements :: "raw_element list"
  lo_page_text :: string

section \<open>Goals\<close>

fun phase_postconditions :: "phase \<Rightarrow> string list" where
  "phase_postconditions route_selected_login = [''authenticated_session'']"
| "phase_postconditions signup = [''signup_submitted'']"
| "phase_postconditions email_verification = [''verification_completed'', ''authenticated_session'']"
| "phase_postconditions authenticated = [''authenticated_session'']"
| "phase_postconditions developer_app = [''developer_app_present'']"
| "phase_postconditions credential_generation = [''credential_visible'']"
| "phase_postconditions _ = []"

record phase_goal =
  go_phase :: phase
  go_provider :: string
  go_description :: string
  go_instruction :: string
  go_signals :: "string list"
  go_postconditions :: "string list"
  go_success :: string
  go_goto_urls :: "string list"
  go_value_refs :: "string list"
  go_max_candidates :: int
  go_controls :: "string list"
  go_policy :: string
  go_requires_hitl :: bool

definition make_goal :: "phase_goal \<Rightarrow> phase_goal result" where
  "make_goal g =
     (if go_phase g \<notin> session_bearing_phases
      then Inl (ValueError ''only a session-bearing phase can carry an action-loop goal'')
      else if strip (go_provider g) = [] \<or> strip (go_description g) = []
      then Inl (ValueError ''a phase goal requires a provider name and a description'')
      else if strip (go_instruction g) = [] then Inl (ValueError ''a phase goal requires an instruction'')
      else if go_postconditions g = []
      then Inl (ValueError ''a phase goal requires at least one postcondition'')
      else if \<not> (1 \<le> go_max_candidates g \<and> go_max_candidates g \<le> max_candidates)
      then Inl (ValueError ''max_candidates must be between 1 and 8'')
      else Inr g)"

text \<open>\<^theory_text>\<open>PhaseGoal.for_phase\<close>: the phase's own postconditions replace those of the argument.\<close>

definition goal_for_phase :: "phase_goal \<Rightarrow> phase_goal result" where
  "goal_for_phase g =
     (if phase_postconditions (go_phase g) = []
      then Inl (ValueError ''no declared postconditions for phase'')
      else make_goal (g\<lparr>go_postconditions := phase_postconditions (go_phase g), go_max_candidates := max_candidates\<rparr>))"

definition goal_authorization :: "phase_goal \<Rightarrow> action_authorization" where
  "goal_authorization g = authorization_for (go_value_refs g) (go_controls g) (go_requires_hitl g) (go_policy g)"

section \<open>Postconditions\<close>

definition authenticated_statuses :: "observation_status set" where
  "authenticated_statuses = {Obs_Console_Ready, Obs_Credential_Ready}"

definition postcondition_holds :: "string \<Rightarrow> browser_observation \<Rightarrow> bool" where
  "postcondition_holds name o1 =
     (let ready = bo_status o1 \<in> authenticated_statuses
      in if name = ''authenticated_session'' then ready \<and> bo_human o1 = None
         else if name = ''signup_submitted'' then bo_reason o1 = Some ''signup_submitted'' \<or> ready
         else if name = ''verification_completed''
         then bo_reason o1 \<in> {Some ''verification_email_found'', Some ''captcha_resolved''} \<or> ready
         else if name = ''developer_app_present''
         then bo_app_id o1 \<noteq> None \<or> (ready \<and> bo_human o1 = None)
         else if name = ''credential_visible''
         then bo_status o1 = Obs_Credential_Ready \<and> bo_labels o1 \<noteq> []
         else False)"

record postcondition_check =
  pk_all_met :: bool
  pk_any_progress :: bool
  pk_satisfied :: "string list"
  pk_pending :: "string list"

definition check_postconditions :: "phase_goal \<Rightarrow> browser_observation \<Rightarrow> string list \<Rightarrow> postcondition_check" where
  "check_postconditions g o1 before =
     (let satisfied = filter (\<lambda>n. postcondition_holds n o1) (go_postconditions g);
          pending = filter (\<lambda>n. \<not> postcondition_holds n o1) (go_postconditions g)
      in \<lparr>pk_all_met = (pending = []), pk_any_progress = list_ex (\<lambda>n. n \<notin> set before) satisfied,
          pk_satisfied = satisfied, pk_pending = pending\<rparr>)"

lemma check_met:
  "pk_all_met (check_postconditions g o1 before) \<longleftrightarrow> (\<forall>n\<in>set (go_postconditions g). postcondition_holds n o1)"
  by (auto simp: check_postconditions_def Let_def filter_empty_conv)

lemma make_goal_Inr:
  "make_goal g = Inr g' \<Longrightarrow> g' = g \<and> go_postconditions g \<noteq> [] \<and> go_phase g \<in> session_bearing_phases \<and>
     1 \<le> go_max_candidates g \<and> go_max_candidates g \<le> max_candidates"
  by (auto simp: make_goal_def split: if_splits)

lemma make_budget_Inr:
  "make_budget b = Inr b' \<Longrightarrow> b' = b \<and> 1 \<le> lb_actions b \<and> lb_actions b \<le> lb_model_calls b \<and>
     1 \<le> lb_no_progress b \<and> 1 \<le> lb_wallclock b \<and> 1 \<le> lb_denials b"
  by (auto simp: make_budget_def split: if_splits)

end
