(* ===== verification/Action_Loop.thy ===== *)
theory Action_Loop
  imports Phase_Goal
begin

text \<open>
  The action loop of one phase (\<^theory_text>\<open>run_action_loop\<close> of
  \<^theory_text>\<open>ops/onboarding/action_loop.py\<close>): observe, check the budgets and the host, offer, decide,
  check the choice again, act, verify, and contain what fails.

  A turn is one iteration. Its answers from outside are its argument: the time elapsed, whether
  the prompt passed the leak screen, the reply of the decision chain, the report of the session on
  an action and the observation read after it. The telemetry is the list of events. The loop is driven
  with its scratchpad inert; prompts are not modelled beyond the screen.
\<close>

section \<open>Answers and events\<close>

datatype look_answer = Saw loop_observation | Look_Timed_Out | Look_Raised | Look_Bug exn

datatype decider_answer =
    Reply raw_element | Decision_Failed string | Decide_Timed_Out | Decide_Raised | Decide_Bug exn

datatype act_status = Executed | Stale | Refused | Failed

datatype act_answer =
    Act_Reported act_status "string option" | Act_Untyped | Act_Timed_Out | Act_Raised | Act_Bug exn

record loop_turn =
  lt_elapsed :: int
  lt_screened :: bool
  lt_reply :: decider_answer
  lt_act :: act_answer
  lt_look :: look_answer

datatype loop_stage =
    Stage_Observe | Stage_Candidates | Stage_Decide | Stage_Act | Stage_Verify | Stage_Gate | Stage_Exhausted

datatype step_decision = Decided_Select | Decided_Hitl | Decided_Blocked | Decided_Rejected

datatype loop_event =
    Ev_Progress loop_stage
  | Ev_Decision step_decision "string option" "string option"
  | Ev_Denial string
  | Ev_Reject string
  | Ev_Dlp_Refusal
  | Ev_Model_Call nat
  | Ev_Acted action_candidate
  | Ev_Action string nat

record loop_state =
  ls_seen :: loop_observation
  ls_actions :: nat
  ls_calls :: nat
  ls_denials :: nat
  ls_idle :: nat
  ls_decision_failures :: nat
  ls_action_failures :: nat
  ls_pending :: "string option"
  ls_avoid :: "string list"
  ls_satisfied :: "string list"
  ls_events :: "loop_event list"

datatype loop_exit =
    Exit_Result loop_outcome browser_observation string
  | Exit_Undecided string
  | Exit_Bug exn

text \<open>How the guarded body of an iteration ends; an escaping failure carries the stage it was in and
  the action that ran without being read back.\<close>

datatype body_end =
    Body_On loop_state
  | Body_Exit loop_exit loop_state
  | Body_Timed_Out loop_stage "action_candidate option" loop_state
  | Body_Raised loop_stage "action_candidate option" loop_state

record loop_setup =
  lp_v6 :: "string \<Rightarrow> bool"
  lp_sha :: "string \<Rightarrow> string"
  lp_goal :: phase_goal
  lp_allowed :: browser_allowed_hosts
  lp_budget :: loop_budget

definition emit :: "loop_event list \<Rightarrow> loop_state \<Rightarrow> loop_state" where
  "emit evs s = s\<lparr>ls_events := ls_events s @ evs\<rparr>"

definition idle_turn :: "loop_state \<Rightarrow> loop_state" where
  "idle_turn s = s\<lparr>ls_idle := Suc (ls_idle s)\<rparr>"

abbreviation page_of :: "loop_state \<Rightarrow> browser_observation" where
  "page_of s \<equiv> lo_observation (ls_seen s)"

section \<open>Reasons\<close>

definition host_reason :: "string \<Rightarrow> string" where
  "host_reason r = (if r \<in> set onboarding_reason_codes then r else ''browser_host_not_in_app_policy'')"

definition page_gate_reason :: "browser_observation \<Rightarrow> string" where
  "page_gate_reason o1 = (case bo_reason o1 of
      Some r \<Rightarrow> if r \<in> set onboarding_reason_codes then r else ''candidate_risk_requires_human''
    | None \<Rightarrow> ''candidate_risk_requires_human'')"

definition action_reasons :: "(string \<times> string) list" where
  "action_reasons =
     [(''target_not_found'', ''candidate_identity_not_found''),
      (''target_ambiguous'', ''candidate_identity_ambiguous''),
      (''policy_blocked'', ''browser_host_not_in_app_policy''),
      (''postcondition_failed'', ''postcondition_failed''),
      (''action_timeout'', ''outcome_unknown''), (''navigation_timeout'', ''outcome_unknown''),
      (''browser_disconnected'', ''outcome_unknown''), (''page_crashed'', ''outcome_unknown'')]"

definition action_reason :: "string option \<Rightarrow> string \<Rightarrow> string" where
  "action_reason r fallback = (case r of None \<Rightarrow> fallback
    | Some code \<Rightarrow> (case map_of action_reasons code of None \<Rightarrow> fallback | Some x \<Rightarrow> x))"

definition decision_reject_reason :: "string \<Rightarrow> string" where
  "decision_reject_reason code =
     (if code \<in> {''invalid_json'', ''schema_invalid''} then ''decision_unusable'' else ''decision_provider_failed'')"

definition category_action :: "string \<Rightarrow> string" where
  "category_action category =
     (if category = ''billing'' then ''billing''
      else if category = ''legal_acceptance'' then ''legal_acceptance''
      else if category = ''authorization'' then ''oauth_grant'' else ''provider_verification'')"

text \<open>The observation of a gate names the human action: the page's own, that of the verb family, or that
  of the candidate's category.\<close>

definition gate_observation :: "browser_observation \<Rightarrow> action_candidate option \<Rightarrow> string \<Rightarrow> browser_observation" where
  "gate_observation o1 c category0 =
     (if bo_human o1 \<noteq> None then o1
      else
        let category = (if category0 \<noteq> [] then category0
              else (case c of None \<Rightarrow> []
                | Some x \<Rightarrow> if starts_with ''human_decision:'' (ac_expected x) then after_colon (ac_expected x) else []))
        in \<lparr>bo_status = Obs_Human_Action, bo_url = bo_url o1, bo_title = bo_title o1, bo_app_id = None,
            bo_human = Some (category_action category),
            bo_instruction = Some (''A human decision is required before continuing: '' @
               or_text category ''provider action'' @ ''.''),
            bo_labels = [], bo_reason = Some ''candidate_risk_requires_human''\<rparr>)"

definition gate_exit :: "browser_observation \<Rightarrow> action_candidate option \<Rightarrow> string \<Rightarrow> loop_exit" where
  "gate_exit o1 c category =
     Exit_Result Loop_Gate (gate_observation o1 c category) ''candidate_risk_requires_human''"

section \<open>The steps of a turn\<close>

definition look ::
    "loop_turn \<Rightarrow> loop_stage \<Rightarrow> action_candidate option \<Rightarrow> (loop_state \<Rightarrow> body_end) \<Rightarrow> loop_state \<Rightarrow> body_end" where
  "look T stage unverified k s = (case lt_look T of
      Saw o1 \<Rightarrow> k (s\<lparr>ls_seen := o1\<rparr>)
    | Look_Timed_Out \<Rightarrow> Body_Timed_Out stage unverified s
    | Look_Raised \<Rightarrow> Body_Raised stage unverified s
    | Look_Bug e \<Rightarrow> Body_Exit (Exit_Bug e) s)"

text \<open>Nothing was done: one idle turn, its events, and the page is read again.\<close>

definition look_again :: "loop_turn \<Rightarrow> loop_stage \<Rightarrow> loop_event list \<Rightarrow> loop_state \<Rightarrow> body_end" where
  "look_again T stage evs s = look T stage None Body_On (idle_turn (emit evs s))"

definition rejected :: "string \<Rightarrow> string option \<Rightarrow> loop_event list" where
  "rejected r c = [Ev_Reject r, Ev_Decision Decided_Rejected (Some r) c]"

definition verify_step :: "loop_setup \<Rightarrow> loop_state \<Rightarrow> body_end" where
  "verify_step S s =
     (let o1 = page_of s; check = check_postconditions (lp_goal S) o1 (ls_satisfied s)
      in if pk_all_met check
         then Body_Exit (Exit_Result Loop_Done o1 (go_success (lp_goal S))) (emit [Ev_Progress Stage_Verify] s)
         else if bo_human o1 \<noteq> None
         then Body_Exit (Exit_Result Loop_Gate o1 (page_gate_reason o1)) (emit [Ev_Progress Stage_Gate] s)
         else Body_On (emit [Ev_Progress Stage_Verify]
                (s\<lparr>ls_idle := (if pk_any_progress check then 0 else Suc (ls_idle s)),
                   ls_satisfied := pk_satisfied check\<rparr>)))"

definition deny :: "loop_setup \<Rightarrow> loop_turn \<Rightarrow> string \<Rightarrow> loop_state \<Rightarrow> body_end" where
  "deny S T reason s0 =
     (let s = emit [Ev_Denial reason] (s0\<lparr>ls_denials := Suc (ls_denials s0)\<rparr>)
      in if lb_denials (lp_budget S) \<le> int (ls_denials s)
         then Body_Exit (Exit_Result Loop_Denied_Fatal (page_of s) reason) (emit [Ev_Progress Stage_Act] s)
         else look_again T Stage_Act [Ev_Progress Stage_Act] s)"

definition report_step ::
    "loop_setup \<Rightarrow> loop_turn \<Rightarrow> action_candidate \<Rightarrow> act_status \<Rightarrow> string option \<Rightarrow> loop_state \<Rightarrow> body_end" where
  "report_step S T c st code s =
     (case st of
        Stale \<Rightarrow> look_again T Stage_Act [Ev_Progress Stage_Act] (s\<lparr>ls_pending := Some (ac_id c)\<rparr>)
      | Refused \<Rightarrow> deny S T (action_reason code ''browser_host_not_in_app_policy'')
                     (s\<lparr>ls_avoid := List.insert (ac_id c) (ls_avoid s)\<rparr>)
      | Failed \<Rightarrow>
          (let reason = action_reason code ''postcondition_failed'';
               s1 = s\<lparr>ls_action_failures := Suc (ls_action_failures s),
                      ls_avoid := List.insert (ac_id c) (ls_avoid s)\<rparr>;
               evs = rejected reason (Some (ac_id c)) @ [Ev_Progress Stage_Act]
           in if max_action_failures \<le> ls_action_failures s1
              then Body_Exit (Exit_Result Loop_Exhausted (page_of s) reason) (idle_turn (emit evs s1))
              else look_again T Stage_Act evs s1)
      | Executed \<Rightarrow>
          look T Stage_Verify (Some c) (verify_step S)
            (emit [Ev_Action (ac_id c) (Suc (ls_actions s))]
              (s\<lparr>ls_action_failures := 0, ls_avoid := filter (\<lambda>i. i \<noteq> ac_id c) (ls_avoid s),
                 ls_actions := Suc (ls_actions s)\<rparr>)))"

definition act_step :: "loop_setup \<Rightarrow> loop_turn \<Rightarrow> action_candidate \<Rightarrow> loop_state \<Rightarrow> body_end" where
  "act_step S T c s0 =
     (let s = emit [Ev_Acted c] s0
      in case lt_act T of
           Act_Timed_Out \<Rightarrow> Body_Timed_Out Stage_Act None s
         | Act_Raised \<Rightarrow> Body_Raised Stage_Act None s
         | Act_Bug e \<Rightarrow> Body_Exit (Exit_Bug e) s
         | Act_Untyped \<Rightarrow> Body_Exit (Exit_Bug (TypeError ''LoopSession.act must return an ActionExecutionResult'')) s
         | Act_Reported st code \<Rightarrow> report_step S T c st code s)"

definition navigate_step :: "loop_setup \<Rightarrow> loop_turn \<Rightarrow> action_candidate \<Rightarrow> loop_state \<Rightarrow> body_end" where
  "navigate_step S T c s =
     (if ac_action c = Do_Goto then
        (case evaluate_navigation (lp_v6 S) (case ac_url c of None \<Rightarrow> [] | Some u \<Rightarrow> u) (lp_allowed S) of
           Inl _ \<Rightarrow> Body_Raised Stage_Act None s
         | Inr d \<Rightarrow> if \<not> hd_allowed d then deny S T (host_reason (hd_reason_code d)) s
                    else act_step S T c s)
      else act_step S T c s)"

text \<open>The choice once more against this turn's offers and snapshot.\<close>

definition chosen_step ::
    "loop_setup \<Rightarrow> loop_turn \<Rightarrow> loop_stage \<Rightarrow> snapshot_element list \<Rightarrow> action_candidate list \<Rightarrow> string \<Rightarrow>
     loop_state \<Rightarrow> body_end" where
  "chosen_step S T stage es cs i s0 =
     (case List.find (\<lambda>c. ac_id c = i) cs of
        None \<Rightarrow> look_again T stage (rejected ''action_not_in_candidate_set'' None @ [Ev_Progress Stage_Decide]) s0
      | Some c \<Rightarrow>
          (let s = emit [Ev_Decision Decided_Select None (Some (ac_id c))] s0;
               d = risk_of c es (goal_authorization (lp_goal S))
           in if \<not> candidate_executable c
              then Body_Exit (gate_exit (page_of s) (Some c) []) (emit [Ev_Progress Stage_Gate] s)
              else if \<not> rd_autonomous d
              then Body_Exit (gate_exit (page_of s) (Some c) (risk_category d))
                     (emit (rejected ''candidate_risk_requires_human'' (Some (ac_id c)) @ [Ev_Progress Stage_Gate]) s)
              else (case ac_identity c of
                  None \<Rightarrow> navigate_step S T c s
                | Some ident \<Rightarrow>
                    (case resolve_identity ident es of
                       Resolved e \<Rightarrow> navigate_step S T c s
                     | Not_Found \<Rightarrow> look_again T stage
                         (rejected ''candidate_identity_not_found'' (Some (ac_id c)) @ [Ev_Progress Stage_Decide]) s
                     | Ambiguous \<Rightarrow> look_again T stage
                         (rejected ''candidate_identity_ambiguous'' (Some (ac_id c)) @ [Ev_Progress Stage_Decide]) s))))"

definition decide_step ::
    "loop_setup \<Rightarrow> loop_turn \<Rightarrow> snapshot_element list \<Rightarrow> action_candidate list \<Rightarrow> action_candidate list \<Rightarrow>
     loop_state \<Rightarrow> body_end" where
  "decide_step S T es cs options s =
     (if \<not> lt_screened T then look_again T Stage_Decide [Ev_Dlp_Refusal, Ev_Progress Stage_Decide] s
      else (case lt_reply T of
          Decision_Failed code \<Rightarrow>
            (let r = decision_reject_reason code;
                 s1 = idle_turn (emit (rejected r None @ [Ev_Progress Stage_Decide])
                        (s\<lparr>ls_decision_failures := Suc (ls_decision_failures s)\<rparr>))
             in if max_decision_failures \<le> ls_decision_failures s1
                then Body_Exit (Exit_Undecided code) s1 else Body_On s1)
        | Decide_Timed_Out \<Rightarrow> Body_Timed_Out Stage_Decide None s
        | Decide_Raised \<Rightarrow> Body_Raised Stage_Decide None s
        | Decide_Bug e \<Rightarrow> Body_Exit (Exit_Bug e) s
        | Reply payload \<Rightarrow>
            (let s1 = emit [Ev_Model_Call (Suc (ls_calls s))]
                   (s\<lparr>ls_decision_failures := 0, ls_calls := Suc (ls_calls s)\<rparr>)
             in case validate_choice payload (map ac_id options) of
                  Inl _ \<Rightarrow> look_again T Stage_Decide
                    (rejected ''action_not_in_candidate_set'' None @ [Ev_Progress Stage_Decide]) s1
                | Inr choice \<Rightarrow>
                    (case cc_decision choice of
                       Report_Hitl \<Rightarrow> Body_Exit (gate_exit (page_of s) None [])
                         (emit [Ev_Decision Decided_Hitl None None, Ev_Progress Stage_Gate] s1)
                     | Report_Blocked \<Rightarrow> Body_Exit (Exit_Result Loop_Exhausted (page_of s) ''decision_unusable'')
                         (emit [Ev_Decision Decided_Blocked None None, Ev_Progress Stage_Decide] s1)
                     | Select_Candidate \<Rightarrow> chosen_step S T Stage_Decide es cs (the (cc_id choice)) s1))))"

definition resumable_intent :: "string option \<Rightarrow> action_candidate list \<Rightarrow> string option" where
  "resumable_intent pending options = (case pending of None \<Rightarrow> None
    | Some i \<Rightarrow> if i \<in> set (map ac_id options) then Some i else None)"

definition options_step ::
    "loop_setup \<Rightarrow> loop_turn \<Rightarrow> snapshot_element list \<Rightarrow> action_candidate list \<Rightarrow> loop_state \<Rightarrow> body_end" where
  "options_step S T es cs s =
     (let split = autonomous_options (executable_candidates cs) es (goal_authorization (lp_goal S));
          kept = filter (\<lambda>c. ac_id c \<notin> set (ls_avoid s)) (fst split);
          options = (if kept = [] then fst split else kept);
          s1 = s\<lparr>ls_pending := None\<rparr>
      in if options = []
         then Body_Exit (case snd split of
                  Some (c, d) \<Rightarrow> gate_exit (page_of s) (Some c) (risk_category d)
                | None \<Rightarrow> gate_exit (page_of s) (Some (hd cs)) []) (emit [Ev_Progress Stage_Gate] s)
         else (case resumable_intent (ls_pending s) options of
             Some i \<Rightarrow> chosen_step S T Stage_Candidates es cs i s1
           | None \<Rightarrow> decide_step S T es cs options s1))"

definition page_elements :: "loop_setup \<Rightarrow> loop_observation \<Rightarrow> snapshot_element list" where
  "page_elements S seen =
     build_snapshot (rank_raw_elements (go_signals (lp_goal S)) max_elements (lo_elements seen))"

definition page_checkpoint :: "phase_goal \<Rightarrow> checkpoint" where
  "page_checkpoint g = \<lparr>ck_signals = go_signals g, ck_order = 0, ck_trace = ''phase:'' @ phase_text (go_phase g),
     ck_expected = hd (go_postconditions g), ck_goto_urls = go_goto_urls g, ck_value_refs = go_value_refs g,
     ck_max = nat (go_max_candidates g)\<rparr>"

definition page_offers :: "loop_setup \<Rightarrow> loop_observation \<Rightarrow> action_candidate list result" where
  "page_offers S seen =
     generate_candidates (lp_v6 S) (lp_sha S) (page_checkpoint (lp_goal S)) (page_elements S seen)"

definition loop_body :: "loop_setup \<Rightarrow> loop_turn \<Rightarrow> loop_state \<Rightarrow> body_end" where
  "loop_body S T s =
     (case exhausted_bound (lp_budget S) (ls_actions s) (ls_calls s) (ls_idle s) (lt_elapsed T) of
        Some b \<Rightarrow> Body_Exit (Exit_Result Loop_Exhausted (page_of s) (exhaustion_reason b))
                    (emit [Ev_Progress Stage_Exhausted] s)
      | None \<Rightarrow>
        (case evaluate_navigation (lp_v6 S) (bo_url (page_of s)) (lp_allowed S) of
           Inl _ \<Rightarrow> Body_Raised Stage_Observe None s
         | Inr here \<Rightarrow>
             if \<not> hd_allowed here
             then (let reason = host_reason (hd_reason_code here)
                   in Body_Exit (Exit_Result Loop_Denied_Fatal (page_of s) reason)
                        (emit [Ev_Denial reason, Ev_Progress Stage_Observe] (s\<lparr>ls_denials := Suc (ls_denials s)\<rparr>)))
             else (case page_offers S (ls_seen s) of
                 Inl _ \<Rightarrow> Body_Raised Stage_Candidates None s
               | Inr [] \<Rightarrow> look_again T Stage_Candidates [Ev_Progress Stage_Candidates] s
               | Inr (c # cs) \<Rightarrow> options_step S T (page_elements S (ls_seen s)) (c # cs) s)))"

section \<open>Containment\<close>

datatype turn_end = Turn_On loop_state | Turn_Exit loop_exit loop_state

definition unknown_outcome :: "browser_observation \<Rightarrow> loop_exit" where
  "unknown_outcome o1 = Exit_Result Loop_Exhausted o1 ''outcome_unknown''"

text \<open>\<open>o1\<close> is the observation the turn began with.\<close>

fun contain :: "browser_observation \<Rightarrow> body_end \<Rightarrow> turn_end" where
  "contain o1 (Body_On s) = Turn_On s"
| "contain o1 (Body_Exit x s) = Turn_Exit x s"
| "contain o1 (Body_Timed_Out stage unverified s) =
     (let s1 = emit [Ev_Progress stage] s
      in if stage = Stage_Act then Turn_Exit (unknown_outcome o1) s1
         else (case unverified of
             Some c \<Rightarrow> Turn_Exit (unknown_outcome o1) (emit (rejected ''outcome_unknown'' (Some (ac_id c))) s1)
           | None \<Rightarrow> Turn_On (idle_turn s1)))"
| "contain o1 (Body_Raised stage unverified s) =
     (let s1 = emit [Ev_Progress stage] s
      in if stage = Stage_Act then Turn_Exit (unknown_outcome o1) s1
         else (case unverified of
             Some c \<Rightarrow> Turn_Exit (unknown_outcome o1) (emit (rejected ''outcome_unknown'' (Some (ac_id c))) s1)
           | None \<Rightarrow>
               (let s2 = idle_turn (s1\<lparr>ls_action_failures := Suc (ls_action_failures s1)\<rparr>)
                in if max_action_failures \<le> ls_action_failures s2
                   then Turn_Exit (unknown_outcome o1) s2 else Turn_On s2)))"

definition loop_turn_step :: "loop_setup \<Rightarrow> loop_turn \<Rightarrow> loop_state \<Rightarrow> turn_end" where
  "loop_turn_step S T s = contain (page_of s) (loop_body S T s)"


section \<open>A turn moves on\<close>

lemma emit_simps [simp]:
  "ls_seen (emit evs s) = ls_seen s" "ls_actions (emit evs s) = ls_actions s"
  "ls_calls (emit evs s) = ls_calls s" "ls_denials (emit evs s) = ls_denials s"
  "ls_idle (emit evs s) = ls_idle s" "ls_decision_failures (emit evs s) = ls_decision_failures s"
  "ls_action_failures (emit evs s) = ls_action_failures s" "ls_pending (emit evs s) = ls_pending s"
  "ls_avoid (emit evs s) = ls_avoid s" "ls_satisfied (emit evs s) = ls_satisfied s"
  "ls_events (emit evs s) = ls_events s @ evs"
  by (simp_all add: emit_def)

lemma idle_turn_simps [simp]:
  "ls_seen (idle_turn s) = ls_seen s" "ls_actions (idle_turn s) = ls_actions s"
  "ls_calls (idle_turn s) = ls_calls s" "ls_denials (idle_turn s) = ls_denials s"
  "ls_idle (idle_turn s) = Suc (ls_idle s)" "ls_decision_failures (idle_turn s) = ls_decision_failures s"
  "ls_action_failures (idle_turn s) = ls_action_failures s" "ls_pending (idle_turn s) = ls_pending s"
  "ls_avoid (idle_turn s) = ls_avoid s" "ls_satisfied (idle_turn s) = ls_satisfied s"
  "ls_events (idle_turn s) = ls_events s"
  by (simp_all add: idle_turn_def)

text \<open>What a body, seen from the counters \<open>n\<close> of actions and \<open>k\<close> of idle turns, may do to them:
  an action was executed, or a turn was idle.\<close>

definition moved :: "nat \<Rightarrow> nat \<Rightarrow> loop_state \<Rightarrow> bool" where
  "moved n k s = (ls_actions s = n \<and> k < ls_idle s \<or> ls_actions s = Suc n \<and> ls_idle s \<le> Suc k)"

fun body_moved :: "nat \<Rightarrow> nat \<Rightarrow> body_end \<Rightarrow> bool" where
  "body_moved n k (Body_On s) = moved n k s"
| "body_moved n k (Body_Exit x s) = True"
| "body_moved n k (Body_Timed_Out st unverified s) = (unverified = None \<longrightarrow> ls_actions s = n \<and> k \<le> ls_idle s)"
| "body_moved n k (Body_Raised st unverified s) = (unverified = None \<longrightarrow> ls_actions s = n \<and> k \<le> ls_idle s)"

lemma look_again_moved: "body_moved (ls_actions s) (ls_idle s) (look_again T stage evs s)"
  by (simp add: look_again_def look_def moved_def split: look_answer.splits)

lemma look_again_moved' [intro]:
  "ls_actions s = n \<Longrightarrow> ls_idle s = k \<Longrightarrow> body_moved n k (look_again T stage evs s)"
  using look_again_moved by blast

lemma deny_moved [intro]: "ls_actions s = n \<Longrightarrow> ls_idle s = k \<Longrightarrow> body_moved n k (deny S T reason s)"
  by (auto simp: deny_def Let_def)

lemma verify_moved:
  "ls_actions s = Suc n \<Longrightarrow> ls_idle s = k \<Longrightarrow> body_moved n k (verify_step S s)"
  by (simp add: verify_step_def Let_def moved_def)

lemma report_moved [intro]:
  "ls_actions s = n \<Longrightarrow> ls_idle s = k \<Longrightarrow> body_moved n k (report_step S T c st code s)"
  by (cases st) (auto simp: report_step_def Let_def look_def verify_moved split: look_answer.splits)

lemma act_moved [intro]: "ls_actions s = n \<Longrightarrow> ls_idle s = k \<Longrightarrow> body_moved n k (act_step S T c s)"
  by (cases "lt_act T") (auto simp: act_step_def)

lemma navigate_moved [intro]: "ls_actions s = n \<Longrightarrow> ls_idle s = k \<Longrightarrow> body_moved n k (navigate_step S T c s)"
  by (auto simp: navigate_step_def split: sum.splits)

lemma chosen_moved [intro]:
  "ls_actions s = n \<Longrightarrow> ls_idle s = k \<Longrightarrow> body_moved n k (chosen_step S T stage es cs i s)"
  by (auto simp: chosen_step_def Let_def split: option.splits identity_resolution.splits)

lemma decide_moved [intro]:
  "ls_actions s = n \<Longrightarrow> ls_idle s = k \<Longrightarrow> body_moved n k (decide_step S T es cs options s)"
  by (cases "lt_reply T")
    (auto simp: decide_step_def Let_def moved_def split: sum.splits choice_kind.splits)

lemma options_moved [intro]:
  "ls_actions s = n \<Longrightarrow> ls_idle s = k \<Longrightarrow> body_moved n k (options_step S T es cs s)"
  by (auto simp: options_step_def Let_def split: option.splits)

lemma loop_body_moved: "body_moved (ls_actions s) (ls_idle s) (loop_body S T s)"
  by (auto simp: loop_body_def Let_def split: option.splits sum.splits list.splits)

lemma turn_moved: "loop_turn_step S T s = Turn_On s' \<Longrightarrow> moved (ls_actions s) (ls_idle s) s'"
  using loop_body_moved [of s S T]
  by (cases "loop_body S T s")
    (auto simp: loop_turn_step_def Let_def moved_def split: if_splits option.splits)

lemma turn_within:
  "loop_turn_step S T s = Turn_On s' \<Longrightarrow>
     exhausted_bound (lp_budget S) (ls_actions s) (ls_calls s) (ls_idle s) (lt_elapsed T) = None"
  by (auto simp: loop_turn_step_def loop_body_def split: option.splits)

section \<open>The loop\<close>

text \<open>How many turns may still follow: at most \<open>lb_no_progress\<close> idle ones after each action.\<close>

definition turns_left :: "loop_setup \<Rightarrow> loop_state \<Rightarrow> nat" where
  "turns_left S s =
     (nat (lb_actions (lp_budget S)) - ls_actions s) * nat (lb_no_progress (lp_budget S))
     + (nat (lb_no_progress (lp_budget S)) - ls_idle s)"

lemma turn_decreases:
  assumes "loop_turn_step S T s = Turn_On s'"
  shows "turns_left S s' < turns_left S s"
proof -
  define A where "A = nat (lb_actions (lp_budget S))"
  define N where "N = nat (lb_no_progress (lp_budget S))"
  have lt: "ls_actions s < A" "ls_idle s < N"
    using turn_within [OF assms] by (auto simp: exhausted_bound_def A_def N_def split: if_splits)
  have "(A - ls_actions s) * N = (A - Suc (ls_actions s)) * N + N"
    using lt(1) by (metis Suc_diff_Suc add.commute mult_Suc)
  then show ?thesis
    using turn_moved [OF assms] lt(2) unfolding moved_def turns_left_def A_def [symmetric] N_def [symmetric]
    by (elim disjE conjE) simp_all
qed

text \<open>\<^theory_text>\<open>run_action_loop\<close> from its first iteration on; \<open>turns i\<close> answers iteration \<open>i\<close>.\<close>

function action_loop :: "loop_setup \<Rightarrow> (nat \<Rightarrow> loop_turn) \<Rightarrow> nat \<Rightarrow> loop_state \<Rightarrow> loop_exit \<times> loop_state \<times> nat" where
  "action_loop S turns i s =
     (case loop_turn_step S (turns i) s of
        Turn_Exit x s' \<Rightarrow> (x, s', Suc i)
      | Turn_On s' \<Rightarrow> action_loop S turns (Suc i) s')"
  by pat_completeness auto
termination
  by (relation "measure (\<lambda>(S, _, _, s). turns_left S s)") (auto dest: turn_decreases)

declare action_loop.simps [simp del]

definition first_state :: "loop_observation \<Rightarrow> loop_state" where
  "first_state o1 = \<lparr>ls_seen = o1, ls_actions = 0, ls_calls = 0, ls_denials = 0, ls_idle = 0,
     ls_decision_failures = 0, ls_action_failures = 0, ls_pending = None, ls_avoid = [], ls_satisfied = [],
     ls_events = []\<rparr>"

definition unseen :: loop_observation where
  "unseen = \<lparr>lo_observation = unobserved, lo_elements = [], lo_page_text = []\<rparr>"

text \<open>The whole function: the check of the goal, the first observation outside the loop, the loop. The
  last component counts the iterations.\<close>

definition run_action_loop ::
    "loop_setup \<Rightarrow> phase \<Rightarrow> look_answer \<Rightarrow> (nat \<Rightarrow> loop_turn) \<Rightarrow> loop_exit \<times> loop_state \<times> nat" where
  "run_action_loop S p first turns =
     (if go_phase (lp_goal S) \<noteq> p
      then (Exit_Bug (ValueError ''the phase goal does not describe the phase being driven''), first_state unseen, 0)
      else (case first of
          Look_Bug e \<Rightarrow> (Exit_Bug e, first_state unseen, 0)
        | Saw o1 \<Rightarrow> action_loop S turns 0 (first_state o1)
        | _ \<Rightarrow> (unknown_outcome unobserved, emit [Ev_Progress Stage_Observe] (first_state unseen), 0)))"

text \<open>The hand-off to the driver.\<close>

definition loop_result_of :: "loop_outcome \<Rightarrow> browser_observation \<Rightarrow> string \<Rightarrow> loop_state \<Rightarrow> loop_result" where
  "loop_result_of outcome o1 reason s =
     \<lparr>lr_outcome = outcome, lr_reason = reason, lr_human_action = bo_human o1, lr_model_calls = ls_calls s,
      lr_actions_executed = ls_actions s, lr_navigation_denials = ls_denials s\<rparr>"

end
