(* ===== verification/Loop_Laws.thy ===== *)
theory Loop_Laws
  imports Action_Loop
begin

text \<open>
  What the action loop guarantees whatever its session, its decision chain and its clock answer: how it ends,
  within which bounds, which actions it runs, and that it never acts again on a page whose
  last action it could not read back.
\<close>

lemma action_loop_ends:
  assumes "action_loop S turns i s = (x, s', n)" "P s"
    and on: "\<And>T s s'. P s \<Longrightarrow> loop_turn_step S T s = Turn_On s' \<Longrightarrow> P s'"
    and leave: "\<And>T s x s'. P s \<Longrightarrow> loop_turn_step S T s = Turn_Exit x s' \<Longrightarrow> Q x s'"
  shows "Q x s'"
proof -
  have "action_loop S turns i s = (x, s', n) \<longrightarrow> P s \<longrightarrow> Q x s'"
  proof (induction "turns_left S s" arbitrary: i s rule: less_induct)
    case less
    show ?case
    proof (cases "loop_turn_step S (turns i) s")
      case (Turn_On t)
      then show ?thesis
        using less [OF turn_decreases [OF Turn_On], of "Suc i"] on [OF _ Turn_On]
        by (simp add: action_loop.simps [of S turns i s])
    next
      case (Turn_Exit y t)
      then show ?thesis
        using leave [OF _ Turn_Exit] by (auto simp: action_loop.simps [of S turns i s])
    qed
  qed
  then show ?thesis using assms(1,2) by blast
qed

section \<open>How a phase ends\<close>

text \<open>What each outcome means, at the state it is returned in.\<close>

fun exit_meaning :: "loop_setup \<Rightarrow> loop_exit \<Rightarrow> loop_state \<Rightarrow> bool" where
  "exit_meaning S (Exit_Result Loop_Done o1 r) s =
     ((\<forall>n\<in>set (go_postconditions (lp_goal S)). postcondition_holds n o1) \<and>
      r = go_success (lp_goal S) \<and> page_of s = o1 \<and> 0 < ls_actions s)"
| "exit_meaning S (Exit_Result Loop_Gate o1 r) s = (bo_human o1 \<noteq> None)"
| "exit_meaning S (Exit_Result Loop_Denied_Fatal o1 r) s =
     (lb_denials (lp_budget S) \<le> int (ls_denials s) \<or>
      (\<exists>d. evaluate_navigation (lp_v6 S) (bo_url o1) (lp_allowed S) = Inr d \<and> \<not> hd_allowed d))"
| "exit_meaning S (Exit_Result Loop_Exhausted o1 r) s =
     ((\<exists>b elapsed. exhausted_bound (lp_budget S) (ls_actions s) (ls_calls s) (ls_idle s) elapsed = Some b \<and>
         r = exhaustion_reason b) \<or>
      r = ''outcome_unknown'' \<or> r = ''decision_unusable'' \<or>
      max_action_failures \<le> ls_action_failures s \<and> (\<exists>code. r = action_reason code ''postcondition_failed''))"
| "exit_meaning S (Exit_Undecided code) s = (max_decision_failures \<le> ls_decision_failures s)"
| "exit_meaning S (Exit_Bug e) s = True"

fun exits_mean :: "loop_setup \<Rightarrow> body_end \<Rightarrow> bool" where
  "exits_mean S (Body_Exit x s) = exit_meaning S x s"
| "exits_mean S _ = True"

lemma look_again_means [intro, simp]: "exits_mean S (look_again T stage evs s)"
  by (simp add: look_again_def look_def split: look_answer.splits)

lemma deny_means [intro, simp]: "exits_mean S (deny S T reason s)"
  by (simp add: deny_def Let_def)

lemma verify_means: "0 < ls_actions s \<Longrightarrow> exits_mean S (verify_step S s)"
  by (simp add: verify_step_def Let_def check_met)

lemma report_means [intro, simp]: "exits_mean S (report_step S T c st code s)"
  by (cases st) (auto simp: report_step_def Let_def look_def verify_means split: look_answer.splits)

lemma act_means [intro, simp]: "exits_mean S (act_step S T c s)"
  by (cases "lt_act T") (auto simp: act_step_def)

lemma navigate_means [intro, simp]: "exits_mean S (navigate_step S T c s)"
  by (simp add: navigate_step_def split: sum.splits)

lemma gate_human: "bo_human (gate_observation o1 c category) \<noteq> None"
  by (simp add: gate_observation_def Let_def)

lemma gate_means [simp]: "exit_meaning S (gate_exit o1 c category) s"
  using gate_human by (simp add: gate_exit_def)

lemma chosen_means [intro, simp]: "exits_mean S (chosen_step S T stage es cs i s)"
  by (simp add: chosen_step_def Let_def split: option.splits identity_resolution.splits)

lemma decide_means [intro, simp]: "exits_mean S (decide_step S T es cs options s)"
  by (cases "lt_reply T") (simp_all add: decide_step_def Let_def split: sum.splits choice_kind.splits)

lemma options_means [intro, simp]: "exits_mean S (options_step S T es cs s)"
  by (simp add: options_step_def Let_def split: option.splits)

lemma body_means: "exits_mean S (loop_body S T s)"
  by (auto simp: loop_body_def Let_def split: option.splits sum.splits list.splits)

lemma unknown_means [simp]: "exit_meaning S (unknown_outcome o1) s"
  by (simp add: unknown_outcome_def)

lemma turn_means: "loop_turn_step S T s = Turn_Exit x s' \<Longrightarrow> exit_meaning S x s'"
  using body_means [of S T s]
  by (cases "loop_body S T s") (auto simp: loop_turn_step_def Let_def split: if_splits option.splits)

text \<open>C21. The outcome of a phase means what it says, whatever the page, the model and the session answered:
  done is only returned with every declared postcondition of the phase true of the observation
  returned, which was read after an executed action; a gate names the human action it asks for; a fatal
  denial stands for an address outside the allow-list or for the spent denial budget; an exhaustion names
  a bound that was reached, three failed actions, an unusable decision or an unknown
  effect; and the decision failure leaves only after two in a row.\<close>

theorem loop_outcome_means:
  assumes "action_loop S turns 0 (first_state o1) = (x, s, n)"
  shows "exit_meaning S x s"
  by (rule action_loop_ends [OF assms, of "\<lambda>_. True"]) (simp_all add: turn_means)

section \<open>Bounds\<close>

fun body_state :: "body_end \<Rightarrow> loop_state" where
  "body_state (Body_On s) = s"
| "body_state (Body_Exit x s) = s"
| "body_state (Body_Timed_Out st u s) = s"
| "body_state (Body_Raised st u s) = s"

fun body_stays :: "body_end \<Rightarrow> bool" where
  "body_stays (Body_Exit x s) = False"
| "body_stays _ = True"

definition spent :: "loop_setup \<Rightarrow> nat \<Rightarrow> nat \<Rightarrow> nat \<Rightarrow> body_end \<Rightarrow> bool" where
  "spent S c a d b \<longleftrightarrow>
     ls_calls (body_state b) \<le> c \<and> ls_actions (body_state b) \<le> a \<and> ls_denials (body_state b) \<le> Suc d \<and>
     (body_stays b \<longrightarrow> ls_denials (body_state b) = d \<or> int (ls_denials (body_state b)) < lb_denials (lp_budget S))"

lemma look_again_spent:
  "ls_calls s \<le> c \<Longrightarrow> ls_actions s \<le> a \<Longrightarrow> ls_denials s \<le> Suc d \<Longrightarrow>
     ls_denials s = d \<or> int (ls_denials s) < lb_denials (lp_budget S) \<Longrightarrow> spent S c a d (look_again T stage evs s)"
  by (simp add: look_again_def look_def spent_def split: look_answer.splits)

lemma deny_spent [simp]:
  "ls_calls s \<le> c \<Longrightarrow> ls_actions s \<le> a \<Longrightarrow> ls_denials s = d \<Longrightarrow> spent S c a d (deny S T reason s)"
  by (auto simp: deny_def Let_def intro!: look_again_spent) (simp add: spent_def)

lemma verify_spent:
  "ls_calls s \<le> c \<Longrightarrow> ls_actions s \<le> a \<Longrightarrow> ls_denials s = d \<Longrightarrow> spent S c a d (verify_step S s)"
  by (simp add: verify_step_def Let_def spent_def)

lemma report_spent [simp]:
  "ls_calls s \<le> c \<Longrightarrow> ls_actions s < a \<Longrightarrow> ls_denials s = d \<Longrightarrow> spent S c a d (report_step S T k st code s)"
  by (cases st) (auto simp: report_step_def Let_def look_def spent_def [of _ _ _ _ "Body_Exit _ _"]
    spent_def [of _ _ _ _ "Body_Timed_Out _ _ _"] spent_def [of _ _ _ _ "Body_Raised _ _ _"]
    intro!: look_again_spent verify_spent split: look_answer.splits)

lemma act_spent [simp]:
  "ls_calls s \<le> c \<Longrightarrow> ls_actions s < a \<Longrightarrow> ls_denials s = d \<Longrightarrow> spent S c a d (act_step S T k s)"
  by (cases "lt_act T") (simp_all add: act_step_def, simp_all add: spent_def)

lemma navigate_spent [simp]:
  "ls_calls s \<le> c \<Longrightarrow> ls_actions s < a \<Longrightarrow> ls_denials s = d \<Longrightarrow> spent S c a d (navigate_step S T k s)"
  by (simp add: navigate_step_def split: sum.splits) (simp add: spent_def)

lemma chosen_spent [simp]:
  "ls_calls s \<le> c \<Longrightarrow> ls_actions s < a \<Longrightarrow> ls_denials s = d \<Longrightarrow> spent S c a d (chosen_step S T stage es cs i s)"
  by (auto simp: chosen_step_def Let_def spent_def [of _ _ _ _ "Body_Exit _ _"]
    intro!: look_again_spent split: option.splits identity_resolution.splits)

lemma decide_spent [simp]:
  "ls_calls s < c \<Longrightarrow> ls_actions s < a \<Longrightarrow> ls_denials s = d \<Longrightarrow> spent S c a d (decide_step S T es cs options s)"
  by (cases "lt_reply T") (auto simp: decide_step_def Let_def spent_def [of _ _ _ _ "Body_Exit _ _"]
    spent_def [of _ _ _ _ "Body_On _"]
    spent_def [of _ _ _ _ "Body_Timed_Out _ _ _"] spent_def [of _ _ _ _ "Body_Raised _ _ _"]
    intro!: look_again_spent split: sum.splits choice_kind.splits)

lemma options_spent [simp]:
  "ls_calls s < c \<Longrightarrow> ls_actions s < a \<Longrightarrow> ls_denials s = d \<Longrightarrow> spent S c a d (options_step S T es cs s)"
  by (simp add: options_step_def Let_def spent_def [of _ _ _ _ "Body_Exit _ _"] split: option.splits)

lemma body_spent: "spent S (Suc (ls_calls s)) (Suc (ls_actions s)) (ls_denials s) (loop_body S T s)"
  by (auto simp: loop_body_def Let_def spent_def [of _ _ _ _ "Body_Exit _ _"] spent_def [of _ _ _ _ "Body_Raised _ _ _"]
    intro!: look_again_spent split: option.splits sum.splits list.splits)


lemma turn_state:
  "loop_turn_step S T s = Turn_On s' \<Longrightarrow> body_stays (loop_body S T s) \<and>
     ls_calls s' = ls_calls (body_state (loop_body S T s)) \<and> ls_actions s' = ls_actions (body_state (loop_body S T s)) \<and>
     ls_denials s' = ls_denials (body_state (loop_body S T s))"
  "loop_turn_step S T s = Turn_Exit x s' \<Longrightarrow>
     ls_calls s' = ls_calls (body_state (loop_body S T s)) \<and> ls_actions s' = ls_actions (body_state (loop_body S T s)) \<and>
     ls_denials s' = ls_denials (body_state (loop_body S T s))"
  by (cases "loop_body S T s"; auto simp: loop_turn_step_def Let_def split: if_splits option.splits)+

lemma loop_body_idle:
  "exhausted_bound (lp_budget S) (ls_actions s) (ls_calls s) (ls_idle s) (lt_elapsed T) \<noteq> None \<Longrightarrow>
     body_state (loop_body S T s) = emit [Ev_Progress Stage_Exhausted] s"
  by (auto simp: loop_body_def)

definition within :: "loop_setup \<Rightarrow> loop_state \<Rightarrow> bool" where
  "within S s = (int (ls_actions s) \<le> lb_actions (lp_budget S) \<and> int (ls_calls s) \<le> lb_model_calls (lp_budget S) \<and>
     int (ls_denials s) \<le> lb_denials (lp_budget S))"

lemma turn_spends:
  assumes "int (ls_actions s) \<le> lb_actions (lp_budget S)" "int (ls_calls s) \<le> lb_model_calls (lp_budget S)"
    "int (ls_denials s) < lb_denials (lp_budget S)"
  shows "within S (body_state (loop_body S T s))"
    and "body_stays (loop_body S T s) \<Longrightarrow> int (ls_denials (body_state (loop_body S T s))) < lb_denials (lp_budget S)"
proof -
  show "within S (body_state (loop_body S T s))"
  proof (cases "exhausted_bound (lp_budget S) (ls_actions s) (ls_calls s) (ls_idle s) (lt_elapsed T)")
    case None
    then have "int (ls_actions s) < lb_actions (lp_budget S)" "int (ls_calls s) < lb_model_calls (lp_budget S)"
      by (auto simp: exhausted_bound_def split: if_splits)
    then show ?thesis
      using body_spent [of S s T] assms(3) by (auto simp: within_def spent_def)
  qed (use assms loop_body_idle [of S s T] in \<open>simp add: within_def\<close>)
  show "body_stays (loop_body S T s) \<Longrightarrow> int (ls_denials (body_state (loop_body S T s))) < lb_denials (lp_budget S)"
    using body_spent [of S s T] assms(3) by (auto simp: spent_def)
qed

lemma loop_within:
  assumes "action_loop S turns i s = (x, s', n)" "within S s" "int (ls_denials s) < lb_denials (lp_budget S)"
  shows "within S s'"
proof (rule action_loop_ends [OF assms(1), of "\<lambda>s. within S s \<and> int (ls_denials s) < lb_denials (lp_budget S)"])
  fix T s s' assume "within S s \<and> int (ls_denials s) < lb_denials (lp_budget S)" "loop_turn_step S T s = Turn_On s'"
  then show "within S s' \<and> int (ls_denials s') < lb_denials (lp_budget S)"
    using turn_spends [of s S T] turn_state(1) [of S T s s'] by (simp add: within_def)
next
  fix T s x s' assume "within S s \<and> int (ls_denials s) < lb_denials (lp_budget S)" "loop_turn_step S T s = Turn_Exit x s'"
  then show "within S s'"
    using turn_spends [of s S T] turn_state(2) [of S T s x s'] by (simp add: within_def)
qed (use assms in simp)

lemma loop_turns: "action_loop S turns i s = (x, s', n) \<Longrightarrow> n \<le> Suc (i + turns_left S s)"
proof (induction "turns_left S s" arbitrary: i s rule: less_induct)
  case less
  show ?case
  proof (cases "loop_turn_step S (turns i) s")
    case (Turn_On t)
    then show ?thesis
      using less.hyps [OF turn_decreases [OF Turn_On], of "Suc i"] turn_decreases [OF Turn_On] less.prems
      by (simp add: action_loop.simps [of S turns i s])
  next
    case (Turn_Exit y t)
    then show ?thesis
      using less.prems by (auto simp: action_loop.simps [of S turns i s])
  qed
qed

text \<open>C7. The loop ends, and within its budget: for every budget the constructor admits it returns after at
  most one turn more than the idle turns allowed before and after each allowed action, having executed no
  more actions, asked no more model calls and taken no more denials than the budget names.\<close>

theorem loop_ends_within_budget:
  assumes "make_budget b = Inr (lp_budget S)" "run_action_loop S p first turns = (x, s, n)"
  shows "int n \<le> (lb_actions (lp_budget S) + 1) * lb_no_progress (lp_budget S) + 1 \<and>
    int (ls_actions s) \<le> lb_actions (lp_budget S) \<and> int (ls_calls s) \<le> lb_model_calls (lp_budget S) \<and>
    int (ls_denials s) \<le> lb_denials (lp_budget S)"
proof -
  let ?B = "lp_budget S"
  have b: "1 \<le> lb_actions ?B" "1 \<le> lb_model_calls ?B" "1 \<le> lb_no_progress ?B" "1 \<le> lb_denials ?B"
    using make_budget_Inr [OF assms(1)] by auto
  have pos: "0 \<le> (lb_actions ?B + 1) * lb_no_progress ?B"
    using b by simp
  consider (idle) "n = 0" "ls_actions s = 0" "ls_calls s = 0" "ls_denials s = 0"
    | (loop) o1 where "action_loop S turns 0 (first_state o1) = (x, s, n)"
    using assms(2) by (auto simp: run_action_loop_def first_state_def split: if_splits look_answer.splits)
  then show ?thesis
  proof cases
    case idle
    then show ?thesis using b pos by simp
  next
    case loop
    have "within S s"
      by (rule loop_within [OF loop]) (use b in \<open>simp_all add: within_def first_state_def\<close>)
    moreover have "int (turns_left S (first_state o1)) = (lb_actions ?B + 1) * lb_no_progress ?B"
      using b by (simp add: turns_left_def first_state_def distrib_right)
    ultimately show ?thesis
      using loop_turns [OF loop] by (simp add: within_def)
  qed
qed

section \<open>What the loop does\<close>

definition acted :: "loop_state \<Rightarrow> action_candidate set" where
  "acted s = {c. Ev_Acted c \<in> set (ls_events s)}"

text \<open>An action the loop may run on a page: the page is on an allowed host, the action was offered for it,
  a human is not required for it, its element is found again, and where it leads is allowed.\<close>

definition permitted :: "loop_setup \<Rightarrow> loop_observation \<Rightarrow> action_candidate \<Rightarrow> bool" where
  "permitted S seen c \<longleftrightarrow>
     (\<exists>d. evaluate_navigation (lp_v6 S) (bo_url (lo_observation seen)) (lp_allowed S) = Inr d \<and> hd_allowed d) \<and>
     (\<exists>cs. page_offers S seen = Inr cs \<and> c \<in> set cs) \<and> candidate_executable c \<and>
     rd_autonomous (risk_of c (page_elements S seen) (goal_authorization (lp_goal S))) \<and>
     (\<forall>i. ac_identity c = Some i \<longrightarrow> (\<exists>e. resolve_identity i (page_elements S seen) = Resolved e)) \<and>
     (ac_action c = Do_Goto \<longrightarrow>
       (\<exists>d. evaluate_navigation (lp_v6 S) (case ac_url c of None \<Rightarrow> [] | Some u \<Rightarrow> u) (lp_allowed S) = Inr d \<and> hd_allowed d))"

lemma acted_simps [simp]:
  "acted (emit evs s) = acted s \<union> {c. Ev_Acted c \<in> set evs}" "acted (idle_turn s) = acted s"
  "acted (s\<lparr>ls_seen := v1\<rparr>) = acted s" "acted (s\<lparr>ls_actions := v2\<rparr>) = acted s"
  "acted (s\<lparr>ls_calls := v3\<rparr>) = acted s" "acted (s\<lparr>ls_denials := v4\<rparr>) = acted s"
  "acted (s\<lparr>ls_idle := v5\<rparr>) = acted s" "acted (s\<lparr>ls_decision_failures := v6\<rparr>) = acted s"
  "acted (s\<lparr>ls_action_failures := v7\<rparr>) = acted s" "acted (s\<lparr>ls_pending := v8\<rparr>) = acted s"
  "acted (s\<lparr>ls_avoid := v9\<rparr>) = acted s" "acted (s\<lparr>ls_satisfied := v10\<rparr>) = acted s"
  by (auto simp: acted_def)

lemma rejected_acts [simp]: "Ev_Acted c \<notin> set (rejected r i)"
  by (simp add: rejected_def)

lemma look_again_acts [simp]:
  "\<forall>c. Ev_Acted c \<notin> set evs \<Longrightarrow> acted (body_state (look_again T stage evs s)) = acted s"
  by (simp add: look_again_def look_def split: look_answer.splits)

lemma deny_acts [simp]: "acted (body_state (deny S T reason s)) = acted s"
  by (simp add: deny_def Let_def)

lemma verify_acts [simp]: "acted (body_state (verify_step S s)) = acted s"
  by (simp add: verify_step_def Let_def)

lemma report_acts [simp]: "acted (body_state (report_step S T c st code s)) = acted s"
  by (cases st) (simp_all add: report_step_def Let_def look_def split: look_answer.splits)

lemma act_acts [simp]: "acted (body_state (act_step S T c s)) = insert c (acted s)"
  by (cases "lt_act T") (simp_all add: act_step_def)

lemma navigate_acts:
  "acted (body_state (navigate_step S T c s)) \<subseteq> acted s \<union>
     (if ac_action c = Do_Goto \<longrightarrow>
        (\<exists>d. evaluate_navigation (lp_v6 S) (case ac_url c of None \<Rightarrow> [] | Some u \<Rightarrow> u) (lp_allowed S) = Inr d \<and> hd_allowed d)
      then {c} else {})"
  by (auto simp: navigate_step_def split: sum.splits)

lemma chosen_acts:
  assumes "\<exists>d. evaluate_navigation (lp_v6 S) (bo_url (page_of s)) (lp_allowed S) = Inr d \<and> hd_allowed d"
    and "page_offers S (ls_seen s) = Inr cs"
  shows "acted (body_state (chosen_step S T stage (page_elements S (ls_seen s)) cs i s)) \<subseteq>
     acted s \<union> {c. permitted S (ls_seen s) c}"
proof (cases "List.find (\<lambda>c. ac_id c = i) cs")
  case (Some c)
  let ?es = "page_elements S (ls_seen s)"
  let ?s = "emit [Ev_Decision Decided_Select None (Some (ac_id c))] s"
  have c: "c \<in> set cs"
    using Some by (auto simp: find_Some_iff)
  have go: "acted (body_state (navigate_step S T c ?s)) \<subseteq> acted s \<union> {c. permitted S (ls_seen s) c}"
    if "candidate_executable c" "rd_autonomous (risk_of c ?es (goal_authorization (lp_goal S)))"
      "\<forall>i. ac_identity c = Some i \<longrightarrow> (\<exists>e. resolve_identity i ?es = Resolved e)"
    using navigate_acts [of S T c ?s] that assms c by (auto simp: permitted_def split: if_splits)
  show ?thesis
    using go Some by (auto simp: chosen_step_def Let_def split: option.splits identity_resolution.splits)
qed (simp add: chosen_step_def)

lemma decide_acts:
  assumes "\<exists>d. evaluate_navigation (lp_v6 S) (bo_url (page_of s)) (lp_allowed S) = Inr d \<and> hd_allowed d"
    and "page_offers S (ls_seen s) = Inr cs"
  shows "acted (body_state (decide_step S T (page_elements S (ls_seen s)) cs options s)) \<subseteq>
     acted s \<union> {c. permitted S (ls_seen s) c}"
proof -
  let ?s = "emit [Ev_Model_Call (Suc (ls_calls s))] (s\<lparr>ls_decision_failures := 0, ls_calls := Suc (ls_calls s)\<rparr>)"
  have "acted (body_state (chosen_step S T Stage_Decide (page_elements S (ls_seen s)) cs i ?s)) \<subseteq>
      acted s \<union> {c. permitted S (ls_seen s) c}" for i
    using chosen_acts [of S ?s cs T Stage_Decide i] assms by simp
  then show ?thesis
    by (cases "lt_reply T") (auto simp: decide_step_def Let_def split: sum.splits choice_kind.splits)
qed

lemma options_acts:
  assumes "\<exists>d. evaluate_navigation (lp_v6 S) (bo_url (page_of s)) (lp_allowed S) = Inr d \<and> hd_allowed d"
    and "page_offers S (ls_seen s) = Inr cs"
  shows "acted (body_state (options_step S T (page_elements S (ls_seen s)) cs s)) \<subseteq>
     acted s \<union> {c. permitted S (ls_seen s) c}"
  using chosen_acts [of S "s\<lparr>ls_pending := None\<rparr>" cs T Stage_Candidates]
    decide_acts [of S "s\<lparr>ls_pending := None\<rparr>" cs T] assms
  by (simp add: options_step_def Let_def split: option.splits)

lemma body_acts: "acted (body_state (loop_body S T s)) \<subseteq> acted s \<union> {c. permitted S (ls_seen s) c}"
proof -
  have "acted (body_state (options_step S T (page_elements S (ls_seen s)) cs s)) \<subseteq>
      acted s \<union> {c. permitted S (ls_seen s) c}"
    if "evaluate_navigation (lp_v6 S) (bo_url (page_of s)) (lp_allowed S) = Inr d" "hd_allowed d"
      "page_offers S (ls_seen s) = Inr cs" for d cs
    using options_acts [of S s cs T] that by blast
  then show ?thesis
    by (simp add: loop_body_def Let_def split: option.splits sum.splits list.splits)
qed


text \<open>The observations the session delivered.\<close>

definition delivered :: "look_answer \<Rightarrow> (nat \<Rightarrow> loop_turn) \<Rightarrow> loop_observation set" where
  "delivered first turns = {o1. first = Saw o1 \<or> (\<exists>i. lt_look (turns i) = Saw o1)}"

fun body_seen :: "loop_turn \<Rightarrow> loop_observation \<Rightarrow> body_end \<Rightarrow> bool" where
  "body_seen T o1 b = (ls_seen (body_state b) = o1 \<or> lt_look T = Saw (ls_seen (body_state b)))"

lemma look_again_seen [simp]: "ls_seen s = o1 \<Longrightarrow> body_seen T o1 (look_again T stage evs s)"
  by (simp add: look_again_def look_def split: look_answer.splits)

lemma deny_seen: "ls_seen s = o1 \<Longrightarrow> body_seen T o1 (deny S T reason s)"
  using look_again_seen [of "emit [Ev_Denial reason] (s\<lparr>ls_denials := Suc (ls_denials s)\<rparr>)" o1 T Stage_Act "[Ev_Progress Stage_Act]"]
  by (simp add: deny_def Let_def)

lemma report_seen: "ls_seen s = o1 \<Longrightarrow> body_seen T o1 (report_step S T c st code s)"
  using look_again_seen [of _ o1 T Stage_Act] deny_seen [of _ o1 T S]
  by (cases st) (simp_all add: report_step_def Let_def look_def verify_step_def split: look_answer.splits)

lemma act_seen: "ls_seen s = o1 \<Longrightarrow> body_seen T o1 (act_step S T c s)"
  using report_seen [of _ o1 T S c] by (cases "lt_act T") (simp_all add: act_step_def)

lemma navigate_seen: "ls_seen s = o1 \<Longrightarrow> body_seen T o1 (navigate_step S T c s)"
  using act_seen [of _ o1 T S c] deny_seen [of _ o1 T S] by (simp add: navigate_step_def split: sum.splits)

lemma chosen_seen: "ls_seen s = o1 \<Longrightarrow> body_seen T o1 (chosen_step S T stage es cs i s)"
  using look_again_seen [of _ o1 T stage] navigate_seen [of _ o1 T S]
  by (simp add: chosen_step_def Let_def split: option.splits identity_resolution.splits)

lemma decide_seen: "ls_seen s = o1 \<Longrightarrow> body_seen T o1 (decide_step S T es cs options s)"
  using look_again_seen [of _ o1 T Stage_Decide] chosen_seen [of _ o1 T S Stage_Decide es cs]
  by (cases "lt_reply T") (simp_all add: decide_step_def Let_def split: sum.splits choice_kind.splits)

lemma options_seen: "ls_seen s = o1 \<Longrightarrow> body_seen T o1 (options_step S T es cs s)"
  using decide_seen [of _ o1 T S es cs] chosen_seen [of _ o1 T S Stage_Candidates es cs]
  by (simp add: options_step_def Let_def split: option.splits)

lemma body_seen_step: "body_seen T (ls_seen s) (loop_body S T s)"
  using look_again_seen [of _ "ls_seen s" T Stage_Candidates] options_seen [of s "ls_seen s" T S]
  by (simp add: loop_body_def Let_def split: option.splits sum.splits list.splits)

lemma turn_acts:
  "loop_turn_step S T s = Turn_On s' \<Longrightarrow> acted s' \<subseteq> acted s \<union> {c. permitted S (ls_seen s) c} \<and>
     (ls_seen s' = ls_seen s \<or> lt_look T = Saw (ls_seen s'))"
  "loop_turn_step S T s = Turn_Exit x s' \<Longrightarrow> acted s' \<subseteq> acted s \<union> {c. permitted S (ls_seen s) c}"
  using body_acts [of S T s] body_seen_step [of T s S]
  by (cases "loop_body S T s"; auto simp: loop_turn_step_def Let_def split: if_splits option.splits)+

lemma loop_acts:
  assumes "action_loop S turns i s = (x, s', n)" "ls_seen s \<in> Obs"
    and "\<forall>j\<ge>i. \<forall>o1. lt_look (turns j) = Saw o1 \<longrightarrow> o1 \<in> Obs"
    and "acted s \<subseteq> {c. \<exists>o1\<in>Obs. permitted S o1 c}"
  shows "acted s' \<subseteq> {c. \<exists>o1\<in>Obs. permitted S o1 c}"
  using assms
proof (induction "turns_left S s" arbitrary: i s rule: less_induct)
  case less
  show ?case
  proof (cases "loop_turn_step S (turns i) s")
    case (Turn_On t)
    have "acted t \<subseteq> {c. \<exists>o1\<in>Obs. permitted S o1 c}" "ls_seen t \<in> Obs"
      using turn_acts(1) [OF Turn_On] less.prems by auto
    moreover have "\<forall>j\<ge>Suc i. \<forall>o1. lt_look (turns j) = Saw o1 \<longrightarrow> o1 \<in> Obs"
      using less.prems(3) by (meson Suc_leD)
    ultimately show ?thesis
      using less.hyps [OF turn_decreases [OF Turn_On], of "Suc i"] less.prems Turn_On
      by (simp add: action_loop.simps [of S turns i s])
  next
    case (Turn_Exit y t)
    then show ?thesis
      using turn_acts(2) [OF Turn_Exit] less.prems by (auto simp: action_loop.simps [of S turns i s])
  qed
qed

lemma run_loop_acts:
  "run_action_loop S p first turns = (x, s, n) \<Longrightarrow> Ev_Acted c \<in> set (ls_events s) \<Longrightarrow>
     \<exists>o1\<in>delivered first turns. permitted S o1 c"
proof -
  assume r: "run_action_loop S p first turns = (x, s, n)" and c: "Ev_Acted c \<in> set (ls_events s)"
  then obtain o1 where o1: "first = Saw o1" "action_loop S turns 0 (first_state o1) = (x, s, n)"
    by (auto simp: run_action_loop_def first_state_def emit_def split: if_splits look_answer.splits)
  have "acted s \<subseteq> {c. \<exists>o1\<in>delivered first turns. permitted S o1 c}"
    by (rule loop_acts [OF o1(2)]) (auto simp: delivered_def o1(1) first_state_def acted_def)
  then show ?thesis using c by (auto simp: acted_def)
qed

text \<open>C6. Every action the session is asked to run is one the policy permits on a page it delivered: the page's host is
  allowed, the action was generated for that page, it needs no human by the generator and by the risk policy under
  the phase's authorization, its element resolves to exactly one element of that page, and the
  address of a navigation is inside the allow-list, whatever the model replied.\<close>

theorem loop_acts_as_permitted:
  "run_action_loop S p first turns = (x, s, n) \<Longrightarrow>
     Ev_Acted c \<in> set (ls_events s) \<Longrightarrow> \<exists>o1\<in>delivered first turns. permitted S o1 c"
  by (rule run_loop_acts)

section \<open>No action on an unread page\<close>

text \<open>The session reported on every action of the turn, and what it executed was read back.\<close>

definition read_back :: "loop_turn \<Rightarrow> loop_state \<Rightarrow> bool" where
  "read_back T s \<longleftrightarrow> (\<exists>st code. lt_act T = Act_Reported st code \<and> (st = Executed \<longrightarrow> lt_look T = Saw (ls_seen s)))"

fun goes_on :: "body_end \<Rightarrow> bool" where
  "goes_on (Body_On s) = True"
| "goes_on (Body_Exit x s) = False"
| "goes_on (Body_Timed_Out stage u s) = (stage \<noteq> Stage_Act \<and> u = None)"
| "goes_on (Body_Raised stage u s) = (stage \<noteq> Stage_Act \<and> u = None)"

lemma report_read_back:
  "goes_on (report_step S T c st code s) \<Longrightarrow> st = Executed \<Longrightarrow>
     lt_look T = Saw (ls_seen (body_state (report_step S T c st code s)))"
  by (auto simp: report_step_def look_def verify_step_def Let_def split: look_answer.splits if_splits)

lemma act_read_back: "goes_on (act_step S T c s) \<Longrightarrow> read_back T (body_state (act_step S T c s))"
  using report_read_back [of S T c _ _ "emit [Ev_Acted c] s"]
  by (cases "lt_act T") (auto simp: act_step_def read_back_def)


definition acts :: "loop_state \<Rightarrow> nat" where
  "acts s = length (filter (\<lambda>e. case e of Ev_Acted c \<Rightarrow> True | _ \<Rightarrow> False) (ls_events s))"

lemma acts_simps [simp]:
  "acts (emit evs s) = acts s + length (filter (\<lambda>e. case e of Ev_Acted c \<Rightarrow> True | _ \<Rightarrow> False) evs)"
  "acts (idle_turn s) = acts s"
  "acts (s\<lparr>ls_seen := v1\<rparr>) = acts s" "acts (s\<lparr>ls_actions := v2\<rparr>) = acts s"
  "acts (s\<lparr>ls_calls := v3\<rparr>) = acts s" "acts (s\<lparr>ls_denials := v4\<rparr>) = acts s"
  "acts (s\<lparr>ls_idle := v5\<rparr>) = acts s" "acts (s\<lparr>ls_decision_failures := v6\<rparr>) = acts s"
  "acts (s\<lparr>ls_action_failures := v7\<rparr>) = acts s" "acts (s\<lparr>ls_pending := v8\<rparr>) = acts s"
  "acts (s\<lparr>ls_avoid := v9\<rparr>) = acts s" "acts (s\<lparr>ls_satisfied := v10\<rparr>) = acts s"
  by (simp_all add: acts_def emit_def idle_turn_def)

lemma rejected_no_acts [simp]:
  "filter (\<lambda>e. case e of Ev_Acted c \<Rightarrow> True | _ \<Rightarrow> False) (rejected r i) = []"
  by (simp add: rejected_def)

text \<open>A body, seen from \<open>k\<close> actions requested so far: at most one more, and if the phase goes on, it was
  reported and read back; otherwise an unreported one ends with an unknown outcome or a defect.\<close>

definition careful :: "loop_turn \<Rightarrow> nat \<Rightarrow> body_end \<Rightarrow> bool" where
  "careful T k b \<longleftrightarrow> acts (body_state b) = k \<or>
     acts (body_state b) = Suc k \<and> (goes_on b \<longrightarrow> read_back T (body_state b))"

lemma look_again_careful [simp]:
  "acts s = k \<Longrightarrow> filter (\<lambda>e. case e of Ev_Acted c \<Rightarrow> True | _ \<Rightarrow> False) evs = [] \<Longrightarrow>
     careful T k (look_again T stage evs s)"
  by (simp add: look_again_def look_def careful_def split: look_answer.splits)

lemma deny_careful [simp]: "acts s = k \<Longrightarrow> careful T k (deny S T reason s)"
  by (simp add: deny_def Let_def) (simp add: careful_def)

lemma report_acts_count: "acts (body_state (report_step S T c st code s)) = acts s"
  by (cases st) (simp_all add: report_step_def Let_def look_again_def look_def deny_def verify_step_def
      split: look_answer.splits)

lemma act_careful [simp]: "acts s = k \<Longrightarrow> careful T k (act_step S T c s)"
  using act_read_back [of S T c s]
  by (cases "lt_act T") (auto simp: careful_def act_step_def report_acts_count)

lemma navigate_careful [simp]: "acts s = k \<Longrightarrow> careful T k (navigate_step S T c s)"
  by (simp add: navigate_step_def split: sum.splits) (simp add: careful_def)

lemma chosen_careful [simp]: "acts s = k \<Longrightarrow> careful T k (chosen_step S T stage es cs i s)"
  by (auto simp: chosen_step_def Let_def careful_def [of _ _ "Body_Exit _ _"] split: option.splits identity_resolution.splits)

lemma decide_careful [simp]: "acts s = k \<Longrightarrow> careful T k (decide_step S T es cs options s)"
  by (cases "lt_reply T") (auto simp: decide_step_def Let_def careful_def [of _ _ "Body_Exit _ _"]
      careful_def [of _ _ "Body_On _"] careful_def [of _ _ "Body_Timed_Out _ _ _"]
      careful_def [of _ _ "Body_Raised _ _ _"] split: sum.splits choice_kind.splits)

lemma options_careful [simp]: "acts s = k \<Longrightarrow> careful T k (options_step S T es cs s)"
  by (auto simp: options_step_def Let_def careful_def [of _ _ "Body_Exit _ _"] split: option.splits)

lemma body_careful: "careful T (acts s) (loop_body S T s)"
  by (auto simp: loop_body_def Let_def careful_def [of _ _ "Body_Exit _ _"] careful_def [of _ _ "Body_Raised _ _ _"]
      split: option.splits sum.splits list.splits)

text \<open>C22. A phase never acts again on a page whose last action it could not read back: a turn requests at most one action,
  and the loop goes on after it only if the session reported on it and, when it was executed,
  the observation the next turn plans against was read after it. An action whose report or verifying
  observation is lost ends the phase.\<close>

theorem unread_action_ends_phase:
  assumes "loop_turn_step S T s = Turn_On s'"
  shows "acts s' = acts s \<or> acts s' = Suc (acts s) \<and> read_back T s'"
  using body_careful [of T s S] assms
  by (cases "loop_body S T s")
    (auto simp: loop_turn_step_def Let_def careful_def read_back_def split: if_splits option.splits)


section \<open>What the containment costs\<close>

text \<open>An action the session refused leaves the page untouched; when the page then cannot be read again, the
  phase still ends as if the action's effect were unknown.\<close>

lemma refused_then_unread_ends_phase:
  assumes "lt_act T = Act_Reported Refused code" "lt_look T = Look_Timed_Out"
    and "int (Suc (ls_denials s)) < lb_denials (lp_budget S)"
  shows "\<exists>s'. contain o1 (act_step S T c s) = Turn_Exit (unknown_outcome o1) s' \<and> ls_actions s' = ls_actions s"
  using assms by (simp add: act_step_def report_step_def deny_def look_again_def look_def Let_def)

text \<open>A page without offers that cannot be read again is reported twice and costs two idle turns.\<close>

lemma unread_page_counts_twice:
  assumes "exhausted_bound (lp_budget S) (ls_actions s) (ls_calls s) (ls_idle s) (lt_elapsed T) = None"
    and "evaluate_navigation (lp_v6 S) (bo_url (page_of s)) (lp_allowed S) = Inr d" "hd_allowed d"
    and "page_offers S (ls_seen s) = Inr []" "lt_look T = Look_Timed_Out"
  shows "\<exists>s'. loop_turn_step S T s = Turn_On s' \<and> ls_idle s' = ls_idle s + 2 \<and>
     ls_events s' = ls_events s @ [Ev_Progress Stage_Candidates, Ev_Progress Stage_Candidates]"
  using assms by (simp add: loop_turn_step_def loop_body_def look_again_def look_def Let_def)

section \<open>Instances\<close>

definition sample_goal :: phase_goal where
  "sample_goal = \<lparr>go_phase = authenticated, go_provider = ''Acme'', go_description = ''a key'',
     go_instruction = ''sign in'', go_signals = [], go_postconditions = [''authenticated_session''],
     go_success = ''session_reattached'', go_goto_urls = [''https://app.acme.com/''], go_value_refs = [], go_max_candidates = 8,
     go_controls = [], go_policy = ''reuse_only'', go_requires_hitl = False\<rparr>"

definition sample_setup :: loop_setup where
  "sample_setup = \<lparr>lp_v6 = (\<lambda>_. False), lp_sha = (\<lambda>s. ''0123456789ab''), lp_goal = sample_goal,
     lp_allowed = \<lparr>ah_app_slug = ''acme'', ah_exact_hosts = [''app.acme.com''], ah_vendor_wildcard_domains = []\<rparr>,
     lp_budget = \<lparr>lb_actions = 1, lb_model_calls = 1, lb_no_progress = 1, lb_wallclock = 60, lb_denials = 1\<rparr>\<rparr>"

definition sample_sight :: "observation_status \<Rightarrow> loop_observation" where
  "sample_sight st = \<lparr>lo_observation = \<lparr>bo_status = st, bo_url = ''https://app.acme.com/'', bo_title = ''Acme'',
       bo_app_id = None, bo_human = None, bo_instruction = None, bo_labels = [], bo_reason = None\<rparr>,
     lo_elements = [], lo_page_text = []\<rparr>"

definition sample_loop_turn :: "observation_status \<Rightarrow> loop_turn" where
  "sample_loop_turn st = \<lparr>lt_elapsed = 0, lt_screened = True,
     lt_reply = Reply [(''decision'', Raw_Text ''select_candidate''), (''candidate_id'', Raw_Text ''c_0123456789ab'')],
     lt_act = Act_Reported Executed None, lt_look = Saw (sample_sight st)\<rparr>"


definition sample_offer :: action_candidate where
  "sample_offer = goto_offer (\<lambda>s. ''0123456789ab'') (page_checkpoint sample_goal) ''https://app.acme.com/'' ''/''"

lemma sample_navigation:
  "case evaluate_navigation (\<lambda>_. False) ''https://app.acme.com/''
     \<lparr>ah_app_slug = ''acme'', ah_exact_hosts = [''app.acme.com''], ah_vendor_wildcard_domains = []\<rparr> of
     Inl _ \<Rightarrow> False | Inr d \<Rightarrow> hd_allowed d"
  by code_simp

lemma sample_offers:
  "page_offers sample_setup (sample_sight st) = Inr [sample_offer]" "page_elements sample_setup (sample_sight st) = []"
  by (cases st; code_simp)+

lemma sample_risk:
  "risk_of sample_offer [] (goal_authorization sample_goal) = verdict State_Changing True ''reviewed_trace_navigation''"
  "candidate_executable sample_offer"
  by code_simp+
lemma sample_choice: "validate_choice [(''decision'', Raw_Text ''select_candidate''), (''candidate_id'', Raw_Text ''c_0123456789ab'')] [''c_0123456789ab''] =
   Inr \<lparr>cc_decision = Select_Candidate, cc_id = Some ''c_0123456789ab'', cc_reason = []\<rparr>"
  by code_simp
lemma sample_offer_simps: "ac_id sample_offer = ''c_0123456789ab''" "ac_action sample_offer = Do_Goto"
   "ac_url sample_offer = Some ''https://app.acme.com/''" "ac_identity sample_offer = None"
  by code_simp+

lemma sample_simps:
  "lp_v6 sample_setup = (\<lambda>_. False)" "lp_goal sample_setup = sample_goal"
  "lp_allowed sample_setup = \<lparr>ah_app_slug = ''acme'', ah_exact_hosts = [''app.acme.com''], ah_vendor_wildcard_domains = []\<rparr>"
  "lp_budget sample_setup = \<lparr>lb_actions = 1, lb_model_calls = 1, lb_no_progress = 1, lb_wallclock = 60, lb_denials = 1\<rparr>"
  "bo_url (lo_observation (sample_sight st)) = ''https://app.acme.com/''"
  "lt_elapsed (sample_loop_turn st) = 0" "lt_screened (sample_loop_turn st)"
  "lt_reply (sample_loop_turn st) =
     Reply [(''decision'', Raw_Text ''select_candidate''), (''candidate_id'', Raw_Text ''c_0123456789ab'')]"
  "lt_act (sample_loop_turn st) = Act_Reported Executed None" "lt_look (sample_loop_turn st) = Saw (sample_sight st)"
  by (simp_all add: sample_setup_def sample_sight_def sample_loop_turn_def)

lemma sample_checks:
  "pk_all_met (check_postconditions sample_goal (lo_observation (sample_sight Obs_Console_Ready)) [])"
  "\<not> pk_all_met (check_postconditions sample_goal (lo_observation (sample_sight Obs_Navigating)) [])"
  "bo_human (lo_observation (sample_sight st)) = None" "go_success sample_goal = ''session_reattached''"
  by (code_simp, code_simp, simp_all add: sample_sight_def sample_goal_def)

lemmas sample_turn_simps = loop_turn_step_def loop_body_def first_state_def exhausted_bound_def options_step_def
  autonomous_options_def executable_candidates_def resumable_intent_def verdict_def decide_step_def chosen_step_def
  navigate_step_def act_step_def report_step_def look_def verify_step_def Let_def
  sample_simps sample_offers sample_risk sample_choice sample_offer_simps sample_checks

text \<open>The turn navigates to the reviewed address; whether the phase is done is what the page then shows.\<close>

lemma sample_turn:
  "\<exists>s. loop_turn_step sample_setup (sample_loop_turn Obs_Console_Ready) (first_state (sample_sight Obs_Navigating)) =
     Turn_Exit (Exit_Result Loop_Done (lo_observation (sample_sight Obs_Console_Ready)) ''session_reattached'') s \<and>
     Ev_Acted sample_offer \<in> set (ls_events s)"
  "\<exists>s. loop_turn_step sample_setup (sample_loop_turn Obs_Navigating) (first_state (sample_sight Obs_Navigating)) =
     Turn_On s \<and> acts s = 1"
proof -
  obtain d where d: "evaluate_navigation (\<lambda>_. False) ''https://app.acme.com/''
     \<lparr>ah_app_slug = ''acme'', ah_exact_hosts = [''app.acme.com''], ah_vendor_wildcard_domains = []\<rparr> = Inr d" "hd_allowed d"
    using sample_navigation by (auto split: sum.splits)
  show "\<exists>s. loop_turn_step sample_setup (sample_loop_turn Obs_Console_Ready) (first_state (sample_sight Obs_Navigating)) =
     Turn_Exit (Exit_Result Loop_Done (lo_observation (sample_sight Obs_Console_Ready)) ''session_reattached'') s \<and>
     Ev_Acted sample_offer \<in> set (ls_events s)"
    by (simp add: sample_turn_simps d emit_def)
  show "\<exists>s. loop_turn_step sample_setup (sample_loop_turn Obs_Navigating) (first_state (sample_sight Obs_Navigating)) =
     Turn_On s \<and> acts s = 1"
    by (simp add: sample_turn_simps d emit_def acts_def)
qed

definition sample_turns :: "nat \<Rightarrow> loop_turn" where
  "sample_turns i = sample_loop_turn Obs_Console_Ready"

lemma sample_run:
  "\<exists>s. run_action_loop sample_setup authenticated (Saw (sample_sight Obs_Navigating)) sample_turns =
     (Exit_Result Loop_Done (lo_observation (sample_sight Obs_Console_Ready)) ''session_reattached'', s, 1) \<and>
     action_loop sample_setup sample_turns 0 (first_state (sample_sight Obs_Navigating)) =
     (Exit_Result Loop_Done (lo_observation (sample_sight Obs_Console_Ready)) ''session_reattached'', s, 1) \<and>
     Ev_Acted sample_offer \<in> set (ls_events s)"
  using sample_turn(1)
  by (auto simp: run_action_loop_def sample_simps action_loop.simps [of _ _ 0] sample_turns_def)
     (simp_all add: sample_goal_def)

lemma loop_outcome_means_witness:
  "postcondition_holds ''authenticated_session'' (lo_observation (sample_sight Obs_Console_Ready))"
proof -
  obtain s where "action_loop sample_setup sample_turns 0 (first_state (sample_sight Obs_Navigating)) =
     (Exit_Result Loop_Done (lo_observation (sample_sight Obs_Console_Ready)) ''session_reattached'', s, 1)"
    using sample_run by blast
  then show ?thesis
    using loop_outcome_means [of sample_setup] by (fastforce simp: sample_simps sample_goal_def)
qed

lemma loop_ends_within_budget_witness:
  "\<exists>x s n. run_action_loop sample_setup authenticated (Saw (sample_sight Obs_Navigating)) sample_turns = (x, s, n) \<and>
     n \<le> 3 \<and> ls_actions s \<le> 1 \<and> ls_calls s \<le> 1"
proof -
  obtain x s n where r: "run_action_loop sample_setup authenticated (Saw (sample_sight Obs_Navigating)) sample_turns = (x, s, n)"
    using prod_cases3 by blast
  have b: "make_budget (lp_budget sample_setup) = Inr (lp_budget sample_setup)"
    by code_simp
  have "n \<le> 3 \<and> ls_actions s \<le> 1 \<and> ls_calls s \<le> 1"
    using loop_ends_within_budget [OF b r] by (simp add: sample_simps)
  then show ?thesis using r by blast
qed

lemma loop_acts_as_permitted_witness:
  "\<exists>o1\<in>delivered (Saw (sample_sight Obs_Navigating)) sample_turns. permitted sample_setup o1 sample_offer"
  using sample_run loop_acts_as_permitted by blast

lemma unread_action_ends_phase_witness:
  "\<exists>s'. loop_turn_step sample_setup (sample_loop_turn Obs_Navigating) (first_state (sample_sight Obs_Navigating)) = Turn_On s' \<and>
     acts s' = 1 \<and> read_back (sample_loop_turn Obs_Navigating) s'"
proof -
  obtain s' where s': "loop_turn_step sample_setup (sample_loop_turn Obs_Navigating)
      (first_state (sample_sight Obs_Navigating)) = Turn_On s'" "acts s' = 1"
    using sample_turn(2) by blast
  have "acts (first_state (sample_sight Obs_Navigating)) = 0"
    by (simp add: acts_def first_state_def)
  then show ?thesis
    using unread_action_ends_phase [OF s'(1)] s' by auto
qed

end
