(* ===== verification/Developer_App.thy ===== *)
theory Developer_App
  imports Effects Loop_Laws Profile
begin

text \<open>
  The developer-application phase of \<^theory_text>\<open>ops/onboarding/driver.py\<close>
  (\<^theory_text>\<open>drive_developer_app\<close> and what it is built from): the flows it selects from the profile,
  the gates above its reservation, the effect it reserves, the loop it runs, and how it settles the effect.

  It composes the effect plans (\<^theory_text>\<open>Effects\<close>), the profile's allow-list (\<^theory_text>\<open>Profile\<close>),
  the action loop (\<^theory_text>\<open>Action_Loop\<close>) and the steps of the driver (\<^theory_text>\<open>Driver_Steps\<close>).
  The session and the page, the redactor, the hash and the catalog of recipes are arguments.
\<close>

section \<open>Vocabulary\<close>

definition blocking_approval_requirements :: "string list" where
  "blocking_approval_requirements = [''manual_review'', ''invite_only'']"

definition blocking_billing_requirements :: "string list" where
  "blocking_billing_requirements = [''card_required'', ''paid_plan_required'']"

definition credential_flow_kinds :: "(string \<times> string) list" where
  "credential_flow_kinds = [(''oauth_client_id'', ''oauth''), (''oauth_client_secret'', ''oauth''),
     (''api_key'', ''api_key''), (''personal_access_token'', ''pat''),
     (''client_credentials_pair'', ''client_credentials'')]"

record app_request =
  aq_owner :: string
  aq_kind :: string

definition make_app_request :: "app_request \<Rightarrow> app_request result" where
  "make_app_request q =
     bindR (store_identifier 200 ''owner id is invalid'' (aq_owner q)) (\<lambda>_.
       if aq_kind q \<notin> set (map fst credential_flow_kinds)
       then Inl (ValueError ''credential kind is not a declared onboarding credential kind'') else Inr q)"

section \<open>Flows\<close>

record app_flows =
  af_creation :: flow_spec
  af_credential :: flow_spec

definition entry_urls :: "app_flows \<Rightarrow> string list" where
  "entry_urls f = first_occurrences (map the (filter truthy [fl_entry_url (af_creation f), fl_entry_url (af_credential f)]))"

definition flow_signals :: "app_flows \<Rightarrow> string list" where
  "flow_signals f = take max_flow_steps (first_occurrences (fl_steps (af_creation f) @ fl_steps (af_credential f)))"

definition control_names :: "app_flows \<Rightarrow> string \<Rightarrow> string list" where
  "control_names f policy =
     first_occurrences (fl_control_names (af_creation f) @
       (if policy = ''create_if_missing'' then fl_control_names (af_credential f) else []))"

definition app_name_digest_length :: nat where
  "app_name_digest_length = 12"

definition developer_app_name :: "(string \<Rightarrow> string) \<Rightarrow> string \<Rightarrow> string \<Rightarrow> string result" where
  "developer_app_name sha owner run =
     bindR (store_identifier 200 ''owner id is invalid'' owner) (\<lambda>owner.
     bindR (store_identifier 200 ''run id is invalid'' run) (\<lambda>run.
       Inr (''composio-ops-'' @ take app_name_digest_length (sha (owner @ ''|'' @ run)))))"

definition developer_app_gate :: "provider_profile \<Rightarrow> flow_spec list \<Rightarrow> string option" where
  "developer_app_gate p fs =
     (if pr_approval_requirement p \<in> set blocking_approval_requirements then Some ''developer_app_approval_required''
      else if pr_billing_requirement p \<in> set blocking_billing_requirements then Some ''billing_required''
      else if list_ex fl_requires_approval fs then Some ''developer_app_approval_required''
      else if list_ex fl_requires_billing fs then Some ''billing_required''
      else None)"

definition developer_app_flows :: "provider_profile \<Rightarrow> string \<Rightarrow> app_flows option result" where
  "developer_app_flows p kind =
     (if \<not> fl_supported (pr_developer_app_flow p) then Inr None
      else (case map_of credential_flow_kinds kind of
          None \<Rightarrow> Inl (KeyError kind)
        | Some wanted \<Rightarrow>
            Inr (map_option (\<lambda>f. \<lparr>af_creation = pr_developer_app_flow p, af_credential = f\<rparr>)
              (List.find (\<lambda>f. fl_kind f = wanted \<and> fl_supported f) (flows p)))))"

definition developer_app_goal :: "provider_profile \<Rightarrow> app_request \<Rightarrow> app_flows \<Rightarrow> string \<Rightarrow> phase_goal result" where
  "developer_app_goal p q f policy = goal_for_phase
     \<lparr>go_phase = developer_app, go_provider = pr_provider_name p,
      go_description = ''Create a developer application on this provider so the run can then be issued a '' @
        aq_kind q @ '' credential.'',
      go_instruction = ''Create the provider's developer application through its own declared flow, filling only the approved application name.'',
      go_signals = flow_signals f, go_postconditions = [], go_success = ''developer_app_created'',
      go_goto_urls = entry_urls f, go_value_refs = [''application_name''], go_max_candidates = max_candidates,
      go_controls = control_names f policy, go_policy = ''create_if_missing'', go_requires_hitl = False\<rparr>"

section \<open>The phase\<close>

text \<open>The dependencies of the handler and the answers it meets: what opening the session gives, the first
  look and the turns of the loop.\<close>

record app_deps =
  ae_v6 :: "string \<Rightarrow> bool"
  ae_sha :: "string \<Rightarrow> string"
  ae_redact :: "receipt \<Rightarrow> receipt"
  ae_lookup :: "string \<Rightarrow> app_recipe option"
  ae_budget :: loop_budget
  ae_policy :: string
  ae_pauses :: bool
  ae_captcha_budget :: nat

record app_answers =
  ax_session :: "string result"
  ax_first :: look_answer
  ax_turns :: "nat \<Rightarrow> loop_turn"

record app_drive =
  ad_effects :: effect_table
  ad_phases :: phase_db
  ad_step :: "phase_step result"
  ad_opened :: bool
  ad_events :: "loop_event list"

definition key_profile_of :: "provider_profile \<Rightarrow> key_profile" where
  "key_profile_of p = \<lparr>kp_digest = pr_digest p, kp_signup_url = pr_signup_url p,
     kp_flow_kind = fl_kind (pr_developer_app_flow p), kp_flow_entry_url = fl_entry_url (pr_developer_app_flow p)\<rparr>"

definition app_operation_key ::
    "(string \<Rightarrow> string) \<Rightarrow> (string \<Rightarrow> bool) \<Rightarrow> string \<Rightarrow> key_profile \<Rightarrow> string \<Rightarrow> string result" where
  "app_operation_key sha v6 run kp owner =
     bindR (developer_app_name sha owner run) (create_dev_app_key sha v6 run kp)"

text \<open>\<^theory_text>\<open>_developer_app_id\<close>.\<close>

fun recorded_app_id :: "string option \<Rightarrow> string option" where
  "recorded_app_id None = None"
| "recorded_app_id (Some v) = (if identifier_ok 200 v then Some v else None)"

definition app_setup :: "app_deps \<Rightarrow> phase_goal \<Rightarrow> browser_allowed_hosts \<Rightarrow> loop_setup" where
  "app_setup E goal allowed = \<lparr>lp_v6 = ae_v6 E, lp_sha = ae_sha E, lp_goal = goal, lp_allowed = allowed,
     lp_budget = ae_budget E\<rparr>"

text \<open>What the outcome of the loop settles.\<close>

definition settle_app ::
    "app_deps \<Rightarrow> effect_table \<Rightarrow> phase_db \<Rightarrow> string \<Rightarrow> app_flows \<Rightarrow> effect_plan \<Rightarrow> string \<Rightarrow>
     loop_exit \<Rightarrow> loop_state \<Rightarrow> effect_table \<times> phase_db \<times> phase_step result" where
  "settle_app E T D run f plan session_id x s =
     (case x of
        Exit_Undecided code \<Rightarrow> (T, D, step_for_decision_failure code)
      | Exit_Bug e \<Rightarrow> (T, D, Inl e)
      | Exit_Result outcome o1 reason \<Rightarrow>
          if outcome \<noteq> Loop_Done
          then (T, step_for_loop_outcome (ae_pauses E) (ae_captcha_budget E) D run developer_app session_id
                  (loop_result_of outcome o1 reason s))
          else (case recorded_app_id (bo_app_id o1) of
              None \<Rightarrow> (case mark_effect_outcome_unknown (ae_sha E) T plan of
                  (T', Inl e) \<Rightarrow> (T', D, Inl e)
                | (T', Inr _) \<Rightarrow> (T', D, pause_on ''outcome_unknown''))
            | Some i \<Rightarrow> (case complete_effect (ae_sha E) (ae_redact E) T plan
                    [(''developer_app_id'', i), (''flow_kind'', fl_kind (af_creation f))] of
                  (T', Inl e) \<Rightarrow> (T', D, Inl e)
                | (T', Inr _) \<Rightarrow> (T', D, advance_to credential_generation ''developer_app_created'' None))))"

text \<open>After an authorised plan: the goal, the session, the allow-list, the loop.\<close>

definition run_app_loop ::
    "app_deps \<Rightarrow> app_answers \<Rightarrow> effect_table \<Rightarrow> phase_db \<Rightarrow> string \<Rightarrow> provider_profile \<Rightarrow> app_request \<Rightarrow>
     app_flows \<Rightarrow> effect_plan \<Rightarrow> app_drive" where
  "run_app_loop E A T D run p q f plan =
     (let stop = (\<lambda>opened v. \<lparr>ad_effects = T, ad_phases = D, ad_step = v, ad_opened = opened, ad_events = []\<rparr>)
      in case developer_app_goal p q f (ae_policy E) of
           Inl e \<Rightarrow> stop False (Inl e)
         | Inr goal \<Rightarrow>
             (case ax_session A of
                Inl e \<Rightarrow> stop False (Inl e)
              | Inr session_id \<Rightarrow>
                  (case allowed_hosts (ae_v6 E) (ae_lookup E) ''self_serve'' p of
                     Inl e \<Rightarrow> stop True (Inl e)
                   | Inr allowed \<Rightarrow>
                       (case run_action_loop (app_setup E goal allowed) developer_app (ax_first A) (ax_turns A) of
                          (x, s, _) \<Rightarrow>
                            (case settle_app E T D run f plan session_id x s of
                               (T', D', v) \<Rightarrow> \<lparr>ad_effects = T', ad_phases = D', ad_step = v, ad_opened = True,
                                 ad_events = ls_events s\<rparr>)))))"

definition drive_developer_app ::
    "app_deps \<Rightarrow> app_answers \<Rightarrow> effect_table \<Rightarrow> phase_db \<Rightarrow> string \<Rightarrow> provider_profile option \<Rightarrow> app_request \<Rightarrow>
     app_drive" where
  "drive_developer_app E A T D run profile q =
     (let stop = (\<lambda>T' v. \<lparr>ad_effects = T', ad_phases = D, ad_step = v, ad_opened = False, ad_events = []\<rparr>)
      in case profile of
           None \<Rightarrow> stop T (pause_on ''capture_spec_unavailable'')
         | Some p \<Rightarrow>
             (case developer_app_flows p (aq_kind q) of
                Inl e \<Rightarrow> stop T (Inl e)
              | Inr None \<Rightarrow> stop T (pause_on ''flow_unsupported'')
              | Inr (Some f) \<Rightarrow>
                  (case developer_app_gate p [af_creation f, af_credential f] of
                     Some g \<Rightarrow> stop T (pause_on g)
                   | None \<Rightarrow>
                       (case app_operation_key (ae_sha E) (ae_v6 E) run (key_profile_of p) (aq_owner q) of
                          Inl e \<Rightarrow> stop T (Inl e)
                        | Inr key \<Rightarrow>
                            (case plan_effect (ae_sha E) T key create_dev_app of
                               (T', Inl e) \<Rightarrow> stop T' (Inl e)
                             | (T', Inr plan) \<Rightarrow>
                                 (case plan_disposition plan of
                                    Skip \<Rightarrow> stop T' (advance_to credential_generation ''developer_app_created'' None)
                                  | Execute \<Rightarrow> run_app_loop E A T' D run p q f plan
                                  | _ \<Rightarrow> stop T' (pause_on (plan_reason plan))))))))"

text \<open>\<^theory_text>\<open>DeveloperAppPhaseHandler.__call__\<close>; the binding answers the request or raises.\<close>

definition developer_app_handler ::
    "app_deps \<Rightarrow> app_answers \<Rightarrow> effect_table \<Rightarrow> phase_db \<Rightarrow> string \<Rightarrow> phase \<Rightarrow> provider_profile option \<Rightarrow>
     app_request result \<Rightarrow> app_drive" where
  "developer_app_handler E A T D run p profile q =
     (let stop = (\<lambda>v. \<lparr>ad_effects = T, ad_phases = D, ad_step = v, ad_opened = False, ad_events = []\<rparr>)
      in if p \<noteq> developer_app
         then stop (Inl (ValueError ''the developer application handler drives that phase only''))
         else (case q of Inl e \<Rightarrow> stop (Inl e) | Inr q \<Rightarrow> drive_developer_app E A T D run profile q))"

section \<open>The ledger row of an application\<close>

definition taken :: "effect_table \<Rightarrow> string \<Rightarrow> bool" where
  "taken T k = (\<exists>st r. effect_state T k = Some (st, r) \<and> st \<noteq> effect_row_status.Failed)"

lemma taken_simp: "taken T k \<longleftrightarrow> (\<exists>row. T k = Some row \<and> row_status row \<noteq> effect_row_status.Failed)"
  by (auto simp: taken_def effect_state_def)

lemma reserve_taken: "reserve sha T p a ik = (T', v) \<Longrightarrow> taken T k \<Longrightarrow> taken T' k"
  by (auto simp: reserve_def taken_simp split: sum.splits option.splits effect_row_status.splits)

lemma transition_taken:
  "transition sha T p a ik st st' r = (T', v) \<Longrightarrow> st' \<noteq> effect_row_status.Failed \<Longrightarrow> taken T k \<Longrightarrow> taken T' k"
  by (auto simp: transition_def taken_simp split: sum.splits option.splits if_splits)

lemma complete_taken: "complete_effect sha rd T plan r = (T', v) \<Longrightarrow> taken T k \<Longrightarrow> taken T' k"
  by (auto simp: complete_effect_def Effect_Ledger.complete_def intro: transition_taken split: sum.splits)

lemma unknown_taken: "mark_effect_outcome_unknown sha T plan = (T', v) \<Longrightarrow> taken T k \<Longrightarrow> taken T' k"
  by (auto simp: mark_effect_outcome_unknown_def mark_outcome_unknown_def intro: transition_taken)

lemma plan_taken: "plan_effect sha T key a = (T', v) \<Longrightarrow> taken T k \<Longrightarrow> taken T' k"
  by (auto simp: plan_effect_def Let_def intro: reserve_taken split: prod.splits)

text \<open>What each plan says of the row.\<close>

lemma plan_effect_Inr:
  assumes "plan_effect sha T key a = (T', Inr plan)"
  obtains rs where "reserve sha T effect_provider (effect_action a) key = (T', Inr rs)"
    "plan_for_reservation key a rs = Inr plan"
  using assms by (auto simp: plan_effect_def result_simps split: prod.splits)

lemma plan_executes:
  assumes "plan_effect sha T key a = (T', Inr plan)" "plan_disposition plan = Execute"
  shows "\<exists>k. effect_key sha effect_provider (effect_action a) key = Inr k \<and> \<not> taken T k \<and> taken T' k"
proof -
  obtain rs where r: "reserve sha T effect_provider (effect_action a) key = (T', Inr rs)"
    "plan_for_reservation key a rs = Inr plan"
    using assms(1) by (rule plan_effect_Inr)
  have "rs = Reserved"
    using r(2) assms(2) by (cases rs) (auto simp: plan_for_reservation_def make_plan_def split: if_splits)
  then show ?thesis
    using reserve_state [of sha T "(effect_provider, effect_action a, key)" T'] r(1)
    by (auto simp: taken_def split: sum.splits)
qed

lemma reserve_completed:
  assumes "reserve sha T p a ik = (T', Inr (Already_Completed x))"
  shows "\<exists>k. effect_key sha p a ik = Inr k \<and> effect_state T' k = Some (Completed, Some x)"
proof (cases "effect_key sha p a ik")
  case (Inr k)
  show ?thesis
  proof (cases "T k")
    case (Some row)
    then show ?thesis
      using assms Inr
      by (cases "row_status row"; cases "row_receipt row")
        (simp_all add: reserve_def effect_state_def deserialize_receipt_def)
  qed (use assms Inr in \<open>simp add: reserve_def\<close>)
qed (use assms in \<open>simp add: reserve_def\<close>)

lemma plan_skips:
  assumes "plan_effect sha T key a = (T', Inr plan)" "plan_disposition plan = Skip"
  shows "\<exists>k r. effect_key sha effect_provider (effect_action a) key = Inr k \<and>
     effect_state T' k = Some (Completed, Some r) \<and> r \<noteq> []"
proof -
  obtain rs where r: "reserve sha T effect_provider (effect_action a) key = (T', Inr rs)"
    "plan_for_reservation key a rs = Inr plan"
    using assms(1) by (rule plan_effect_Inr)
  have "\<exists>x. rs = Already_Completed x \<and> x \<noteq> []"
    using r(2) assms(2) by (cases rs) (auto simp: plan_for_reservation_def make_plan_def split: if_splits)
  then show ?thesis using reserve_completed r(1) by blast
qed

lemma plan_fields:
  "plan_effect sha T key a = (T', Inr plan) \<Longrightarrow> plan_key plan = key \<and> plan_action plan = a"
  by (erule plan_effect_Inr, rename_tac rs, case_tac rs)
    (auto simp: plan_for_reservation_def make_plan_def split: if_splits)

lemma complete_records:
  assumes "complete_effect sha rd T plan rc = (T', Inr u)"
  shows "\<exists>k r. effect_key sha effect_provider (effect_action (plan_action plan)) (plan_key plan) = Inr k \<and>
     effect_state T' k = Some (Completed, Some r) \<and> r \<noteq> []"
proof -
  obtain r where r: "serialize_receipt rd rc = Inr r" "transition sha T effect_provider
      (effect_action (plan_action plan)) (plan_key plan) Pending Completed (Some r) = (T', Inr u)"
    using assms by (auto simp: complete_effect_def Effect_Ledger.complete_def split: sum.splits)
  have "rc \<noteq> []" "r = sort_key fst rc" using r(1) by (auto simp: serialize_receipt_def split: if_splits)
  then have "r \<noteq> []" using length_sort [of fst rc] by force
  then show ?thesis
    using r(2) by (auto simp: transition_def effect_state_def split: sum.splits option.splits if_splits)
qed

section \<open>What one drive does\<close>

lemma settle_taken: "settle_app E T D run f plan i x s = (T', D', v) \<Longrightarrow> taken T k \<Longrightarrow> taken T' k"
  by (auto simp: settle_app_def intro: unknown_taken complete_taken
      split: loop_exit.splits if_splits option.splits prod.splits sum.splits)

lemma run_loop_taken: "taken T k \<Longrightarrow> taken (ad_effects (run_app_loop E A T D run p q f plan)) k"
  by (auto simp: run_app_loop_def Let_def intro: settle_taken split: sum.splits prod.splits)

lemma drive_taken: "taken T k \<Longrightarrow> taken (ad_effects (drive_developer_app E A T D run profile q)) k"
  by (auto simp: drive_developer_app_def Let_def intro: plan_taken run_loop_taken
      split: option.splits sum.splits prod.splits effect_disposition.splits)

lemma drive_opens:
  assumes "ad_opened (drive_developer_app E A T D run profile q)"
  obtains p f key T' plan where "profile = Some p" "developer_app_flows p (aq_kind q) = Inr (Some f)"
    "developer_app_gate p [af_creation f, af_credential f] = None"
    "app_operation_key (ae_sha E) (ae_v6 E) run (key_profile_of p) (aq_owner q) = Inr key"
    "plan_effect (ae_sha E) T key create_dev_app = (T', Inr plan)" "plan_disposition plan = Execute"
    "drive_developer_app E A T D run profile q = run_app_loop E A T' D run p q f plan"
proof -
  have "\<exists>p f key T' plan. profile = Some p \<and> developer_app_flows p (aq_kind q) = Inr (Some f) \<and>
    developer_app_gate p [af_creation f, af_credential f] = None \<and>
    app_operation_key (ae_sha E) (ae_v6 E) run (key_profile_of p) (aq_owner q) = Inr key \<and>
    plan_effect (ae_sha E) T key create_dev_app = (T', Inr plan) \<and> plan_disposition plan = Execute \<and>
    drive_developer_app E A T D run profile q = run_app_loop E A T' D run p q f plan"
    using assms
    by (auto simp: drive_developer_app_def Let_def
        split: option.splits sum.splits prod.splits effect_disposition.splits)
  then show thesis using that by blast
qed

lemma drive_takes:
  assumes "ad_opened (drive_developer_app E A T D run (Some p) q)"
  shows "\<exists>key k. app_operation_key (ae_sha E) (ae_v6 E) run (key_profile_of p) (aq_owner q) = Inr key \<and>
    effect_key (ae_sha E) effect_provider (effect_action create_dev_app) key = Inr k \<and> \<not> taken T k \<and>
    taken (ad_effects (drive_developer_app E A T D run (Some p) q)) k"
proof -
  obtain p' f key T' plan where u: "Some p = Some p'"
    "app_operation_key (ae_sha E) (ae_v6 E) run (key_profile_of p') (aq_owner q) = Inr key"
    "plan_effect (ae_sha E) T key create_dev_app = (T', Inr plan)" "plan_disposition plan = Execute"
    "drive_developer_app E A T D run (Some p) q = run_app_loop E A T' D run p' q f plan"
    using drive_opens [OF assms] by metis
  show ?thesis using plan_executes [OF u(3,4)] run_loop_taken u(1,2,5) by fastforce
qed

section \<open>Any number of drives\<close>

type_synonym app_call = "app_deps \<times> app_answers \<times> string \<times> provider_profile option \<times> app_request"

fun app_call :: "app_call \<Rightarrow> effect_table \<Rightarrow> phase_db \<Rightarrow> app_drive" where
  "app_call (E, A, run, profile, q) T D = drive_developer_app E A T D run profile q"

text \<open>The drives of any workers one after the other; each sees the ledger the one before left.\<close>

fun app_drives :: "app_call list \<Rightarrow> effect_table \<Rightarrow> phase_db \<Rightarrow> app_drive list" where
  "app_drives [] T D = []"
| "app_drives (c # cs) T D = (let R = app_call c T D in R # app_drives cs (ad_effects R) (ad_phases R))"

text \<open>What the requested application is told apart by: the run, its owner, and the fields of the profile
  the operation key reads.\<close>

fun app_identity :: "app_call \<Rightarrow> string \<times> string \<times> key_profile option" where
  "app_identity (E, A, run, profile, q) = (run, aq_owner q, map_option key_profile_of profile)"

definition opened_for :: "string \<times> string \<times> key_profile option \<Rightarrow> app_call \<times> app_drive \<Rightarrow> bool" where
  "opened_for i cR = (ad_opened (snd cR) \<and> app_identity (fst cR) = i)"

fun shares_hash :: "(string \<Rightarrow> string) \<Rightarrow> (string \<Rightarrow> bool) \<Rightarrow> app_call \<Rightarrow> bool" where
  "shares_hash sha v6 (E, A, run, profile, q) = (ae_sha E = sha \<and> ae_v6 E = v6)"

definition ledger_key ::
    "(string \<Rightarrow> string) \<Rightarrow> (string \<Rightarrow> bool) \<Rightarrow> string \<times> string \<times> key_profile option \<Rightarrow> string option" where
  "ledger_key sha v6 i =
     (case i of (run, owner, Some kp) \<Rightarrow>
        (case bindR (app_operation_key sha v6 run kp owner) (effect_key sha effect_provider (effect_action create_dev_app)) of
           Inl _ \<Rightarrow> None | Inr k \<Rightarrow> Some k)
      | _ \<Rightarrow> None)"

lemma call_taken: "taken T k \<Longrightarrow> taken (ad_effects (app_call c T D)) k"
  by (cases c) (auto intro: drive_taken)

lemma call_takes:
  assumes "opened_for i (c, app_call c T D)" "shares_hash sha v6 c"
  shows "\<exists>k. ledger_key sha v6 i = Some k \<and> \<not> taken T k \<and> taken (ad_effects (app_call c T D)) k"
proof -
  obtain E A run profile q where c: "c = (E, A, run, profile, q)" by (rule prod_cases5)
  have o: "ad_opened (drive_developer_app E A T D run profile q)" and i: "i = (run, aq_owner q, map_option key_profile_of profile)"
    using assms(1) by (auto simp: opened_for_def c)
  then obtain p where p: "profile = Some p" by (metis drive_opens)
  show ?thesis
    using drive_takes [of E A T D run p q] o assms(2) by (auto simp: p i c ledger_key_def)
qed

lemma drives_when_taken:
  "ledger_key sha v6 i = Some k \<Longrightarrow> taken T k \<Longrightarrow> list_all (shares_hash sha v6) cs \<Longrightarrow>
     filter (opened_for i) (zip cs (app_drives cs T D)) = []"
proof (induction cs arbitrary: T D)
  case (Cons c cs)
  have "\<not> opened_for i (c, app_call c T D)" using call_takes [of i c T D sha v6] Cons.prems by auto
  then show ?case using Cons call_taken [of T k c D] by (simp add: Let_def)
qed simp

text \<open>C5. At most one drive per application. However many workers drive the phase of a run, one after the
  other, with whatever answers of page and model, at most one of the drives for the same run, owner
  and profile opens a browser session; the others act on no page.\<close>

theorem developer_app_created_once:
  "list_all (shares_hash sha v6) calls \<Longrightarrow>
     length (filter (opened_for i) (zip calls (app_drives calls T D))) \<le> 1"
proof (induction calls arbitrary: T D)
  case (Cons c cs)
  let ?R = "app_call c T D"
  show ?case
  proof (cases "opened_for i (c, ?R)")
    case True
    then obtain k where "ledger_key sha v6 i = Some k" "taken (ad_effects ?R) k"
      using call_takes Cons.prems by fastforce
    then show ?thesis using drives_when_taken Cons.prems True by (simp add: Let_def)
  qed (use Cons in \<open>simp add: Let_def\<close>)
qed simp

section \<open>The contract of the phase\<close>

text \<open>The three reasons the phase stops above its reservation.\<close>

definition stops_early :: "provider_profile option \<Rightarrow> app_request \<Rightarrow> bool" where
  "stops_early profile q =
     (case profile of None \<Rightarrow> True
      | Some p \<Rightarrow> (case developer_app_flows p (aq_kind q) of
          Inr (Some f) \<Rightarrow> developer_app_gate p [af_creation f, af_credential f] \<noteq> None
        | _ \<Rightarrow> True))"

lemma drive_stops_early:
  "stops_early profile q \<Longrightarrow> ad_effects (drive_developer_app E A T D run profile q) = T \<and>
     ad_phases (drive_developer_app E A T D run profile q) = D \<and> \<not> ad_opened (drive_developer_app E A T D run profile q)"
  by (auto simp: stops_early_def drive_developer_app_def Let_def split: option.splits sum.splits)

lemma run_loop_closed: "\<not> ad_opened (run_app_loop E A T D run p q f plan) \<Longrightarrow>
    ad_events (run_app_loop E A T D run p q f plan) = [] \<and> ad_phases (run_app_loop E A T D run p q f plan) = D"
  by (auto simp: run_app_loop_def Let_def split: sum.splits prod.splits)

lemma drive_closed:
  "\<not> ad_opened (drive_developer_app E A T D run profile q) \<Longrightarrow>
     ad_events (drive_developer_app E A T D run profile q) = [] \<and> ad_phases (drive_developer_app E A T D run profile q) = D"
  using run_loop_closed
  by (auto simp: drive_developer_app_def Let_def split: option.splits sum.splits prod.splits effect_disposition.splits)

text \<open>An advance into credential generation is only reached over a completed row.\<close>

definition advances :: "phase_step result \<Rightarrow> bool" where
  "advances v = (case v of Inl _ \<Rightarrow> False | Inr st \<Rightarrow> st_next st = Some credential_generation)"

lemma pause_advances: "\<not> advances (pause_on r)"
  by (simp add: advances_def step_simps)

lemma pause_on_next: "pause_on r = Inr st \<Longrightarrow> st_next st = None"
  by (auto simp: step_simps split: if_splits)

lemma pausing_advances:
  "outcome \<noteq> Loop_Done \<Longrightarrow> step_for_loop_outcome b n D run p i (loop_result_of outcome o1 r s) = (D', v) \<Longrightarrow> \<not> advances v"
  by (auto simp: step_for_loop_outcome_def pause_for_captcha_def step_for_loop_result_def loop_result_of_def
      advances_def step_simps split: if_splits sum.splits prod.splits)

lemma settle_advances:
  assumes "settle_app E T D run f plan i x s = (T', D', v)" "advances v"
  shows "\<exists>k r. effect_key (ae_sha E) effect_provider (effect_action (plan_action plan)) (plan_key plan) = Inr k \<and>
     effect_state T' k = Some (Completed, Some r) \<and> r \<noteq> []"
proof (cases x)
  case (Exit_Result outcome o1 reason)
  show ?thesis
  proof (cases "outcome = Loop_Done")
    case True
    then obtain i where i: "recorded_app_id (bo_app_id o1) = Some i"
      using assms Exit_Result
      by (auto simp: settle_app_def advances_def dest: pause_on_next split: option.splits prod.splits sum.splits)
    then obtain u where "complete_effect (ae_sha E) (ae_redact E) T plan
        [(''developer_app_id'', i), (''flow_kind'', fl_kind (af_creation f))] = (T', Inr u)"
      using assms Exit_Result True by (auto simp: settle_app_def advances_def split: prod.splits sum.splits)
    then show ?thesis by (rule complete_records)
  next
    case False
    then show ?thesis
      using assms Exit_Result pausing_advances [OF False] by (auto simp: settle_app_def)
  qed
qed (use assms pause_advances in \<open>auto simp: settle_app_def step_for_decision_failure_def advances_def\<close>)

lemma run_loop_advances:
  assumes "advances (ad_step (run_app_loop E A T D run p q f plan))"
  shows "\<exists>k r. effect_key (ae_sha E) effect_provider (effect_action (plan_action plan)) (plan_key plan) = Inr k \<and>
     effect_state (ad_effects (run_app_loop E A T D run p q f plan)) k = Some (Completed, Some r) \<and> r \<noteq> []"
  using assms settle_advances
  by (auto simp: run_app_loop_def Let_def advances_def [of "Inl _"] split: sum.splits prod.splits)

lemma drive_advances:
  assumes "advances (ad_step (drive_developer_app E A T D run profile q))"
  shows "\<exists>p k r. profile = Some p \<and> ledger_key (ae_sha E) (ae_v6 E) (run, aq_owner q, Some (key_profile_of p)) = Some k \<and>
     effect_state (ad_effects (drive_developer_app E A T D run profile q)) k = Some (Completed, Some r) \<and> r \<noteq> []"
proof -
  obtain p f key T' plan where u: "profile = Some p" "developer_app_flows p (aq_kind q) = Inr (Some f)"
    "developer_app_gate p [af_creation f, af_credential f] = None"
    "app_operation_key (ae_sha E) (ae_v6 E) run (key_profile_of p) (aq_owner q) = Inr key"
    "plan_effect (ae_sha E) T key create_dev_app = (T', Inr plan)"
    using assms pause_advances
    by (auto simp: drive_developer_app_def Let_def advances_def [of "Inl _"]
        split: option.splits sum.splits prod.splits effect_disposition.splits)
  note pf = plan_fields [OF u(5)]
  show ?thesis
  proof (cases "plan_disposition plan")
    case Skip
    then show ?thesis
      using plan_skips [OF u(5)] u by (auto simp: drive_developer_app_def Let_def ledger_key_def)
  next
    case Execute
    then show ?thesis
      using run_loop_advances [of E A T' D run p q f plan] assms u pf
      by (auto simp: drive_developer_app_def Let_def ledger_key_def)
  qed (use assms u pause_advances in \<open>auto simp: drive_developer_app_def Let_def\<close>)
qed

text \<open>Every action is one of the loop's, under the goal the phase built.\<close>

lemma drive_acts:
  assumes "Ev_Acted c \<in> set (ad_events (drive_developer_app E A T D run profile q))"
  shows "\<exists>p f goal allowed. profile = Some p \<and> developer_app_flows p (aq_kind q) = Inr (Some f) \<and>
     developer_app_goal p q f (ae_policy E) = Inr goal \<and>
     allowed_hosts (ae_v6 E) (ae_lookup E) ''self_serve'' p = Inr allowed \<and>
     (\<exists>o1\<in>delivered (ax_first A) (ax_turns A). permitted (app_setup E goal allowed) o1 c)"
proof -
  have "ad_opened (drive_developer_app E A T D run profile q)" using assms drive_closed by fastforce
  then obtain p f key T' plan where u: "profile = Some p" "developer_app_flows p (aq_kind q) = Inr (Some f)"
    "drive_developer_app E A T D run profile q = run_app_loop E A T' D run p q f plan"
    by (rule drive_opens)
  then obtain goal allowed x s n where l: "developer_app_goal p q f (ae_policy E) = Inr goal"
    "allowed_hosts (ae_v6 E) (ae_lookup E) ''self_serve'' p = Inr allowed"
    "run_action_loop (app_setup E goal allowed) developer_app (ax_first A) (ax_turns A) = (x, s, n)"
    "Ev_Acted c \<in> set (ls_events s)"
    using assms unfolding u(3) by (auto simp: run_app_loop_def Let_def split: sum.splits prod.splits)
  show ?thesis using u l run_loop_acts [OF l(3,4)] by blast
qed

text \<open>C15. The phase keeps its contract on every path. A missing profile, an unsupported flow and a gate reserve
  nothing and open no session; the run only advances into credential generation over a
  completed row of its own key that carries a receipt; and every action run was permitted under
  the profile's allow-list, with the creation controls the selected flows review.\<close>

theorem developer_app_contract:
  assumes "drive_developer_app E A T D run profile q = R"
  shows "(stops_early profile q \<longrightarrow> ad_effects R = T \<and> \<not> ad_opened R) \<and>
    (\<not> ad_opened R \<longrightarrow> ad_events R = [] \<and> ad_phases R = D) \<and>
    (advances (ad_step R) \<longrightarrow> (\<exists>p k r. profile = Some p \<and>
       ledger_key (ae_sha E) (ae_v6 E) (run, aq_owner q, Some (key_profile_of p)) = Some k \<and>
       effect_state (ad_effects R) k = Some (Completed, Some r) \<and> r \<noteq> [])) \<and>
    (\<forall>c. Ev_Acted c \<in> set (ad_events R) \<longrightarrow>
       (\<exists>p f goal allowed. profile = Some p \<and> developer_app_flows p (aq_kind q) = Inr (Some f) \<and>
          developer_app_goal p q f (ae_policy E) = Inr goal \<and>
          allowed_hosts (ae_v6 E) (ae_lookup E) ''self_serve'' p = Inr allowed \<and>
          (\<exists>o1\<in>delivered (ax_first A) (ax_turns A). permitted (app_setup E goal allowed) o1 c)))"
  using drive_stops_early [of profile q E A T D run] drive_closed [of E A T D run profile q]
    drive_advances [of E A T D run profile q] drive_acts [of _ E A T D run profile q]
  unfolding assms by blast

text \<open>The creation authority of the goal is that of the flows, narrowed by the run's policy.\<close>

lemma goal_for_phase_controls: "goal_for_phase g = Inr goal \<Longrightarrow> go_controls goal = go_controls g"
  by (auto simp: goal_for_phase_def dest: make_goal_Inr split: if_splits)

lemma goal_controls:
  assumes "developer_app_goal p q f policy = Inr goal"
  shows "set (go_controls goal) = set (fl_control_names (af_creation f)) \<union>
    (if policy = ''create_if_missing'' then set (fl_control_names (af_credential f)) else {})"
  using assms unfolding developer_app_goal_def
  by (subst goal_for_phase_controls) (assumption, simp add: control_names_def)

text \<open>Two ways an application that was created is not recorded. The postcondition holds on a ready console
  without an id, and then the outcome is unknown; and an id the redactor takes for a secret makes
  the completion raise, although it is a bounded identifier.\<close>

lemma present_without_id:
  assumes "bo_status o1 = Obs_Console_Ready" "bo_human o1 = None" "bo_app_id o1 = None"
  shows "postcondition_holds ''developer_app_present'' o1 \<and>
    \<not> advances (snd (snd (settle_app E T D run f plan i (Exit_Result Loop_Done o1 r) s)))"
  using assms pause_advances
  by (auto simp: postcondition_holds_def authenticated_statuses_def settle_app_def advances_def [of "Inl _"]
      split: prod.splits sum.splits)

lemma redacted_id_raises:
  assumes "bo_app_id o1 = Some i" "identifier_ok 200 i"
    and "ae_redact E [(''developer_app_id'', i), (''flow_kind'', fl_kind (af_creation f))] \<noteq>
         [(''developer_app_id'', i), (''flow_kind'', fl_kind (af_creation f))]"
  shows "\<exists>e. settle_app E T D run f plan sid (Exit_Result Loop_Done o1 r) s = (T, D, Inl e)"
  using assms by (auto simp: settle_app_def complete_effect_def Effect_Ledger.complete_def serialize_receipt_def)

section \<open>Instances\<close>

definition sample_deps :: app_deps where
  "sample_deps = \<lparr>ae_v6 = (\<lambda>_. False), ae_sha = (\<lambda>s. replicate 64 (CHR ''0'')), ae_redact = id, ae_lookup = (\<lambda>_. None),
     ae_budget = default_budget, ae_policy = ''reuse_only'', ae_pauses = False, ae_captcha_budget = 3\<rparr>"

definition sample_answers :: app_answers where
  "sample_answers = \<lparr>ax_session = Inr ''session_1'', ax_first = Look_Timed_Out,
     ax_turns = (\<lambda>_. \<lparr>lt_elapsed = 0, lt_screened = True, lt_reply = Decide_Timed_Out, lt_act = Act_Timed_Out,
       lt_look = Look_Timed_Out\<rparr>)\<rparr>"

definition sample_request :: app_request where
  "sample_request = \<lparr>aq_owner = ''owner_1'', aq_kind = ''api_key''\<rparr>"

definition sample_app_call :: app_call where
  "sample_app_call = (sample_deps, sample_answers, ''run_1'', Some acme_profile, sample_request)"

lemma acme_opens:
  "ad_opened (app_call sample_app_call Map.empty D)"
proof -
  let ?f = "\<lparr>af_creation = pr_developer_app_flow acme_profile, af_credential = pr_api_key_flow acme_profile\<rparr>"
  have f: "developer_app_flows acme_profile ''api_key'' = Inr (Some ?f)"
    by (simp add: developer_app_flows_def credential_flow_kinds_def flows_def acme_profile_def sample_profile_of_def plain_flow_def)
  have g: "developer_app_gate acme_profile [af_creation ?f, af_credential ?f] = None"
    by (simp add: developer_app_gate_def blocking_approval_requirements_def blocking_billing_requirements_def
        acme_profile_def sample_profile_of_def plain_flow_def)
  have "returned (app_operation_key (\<lambda>s. replicate 64 (CHR ''0'')) (\<lambda>_. False) ''run_1'' (key_profile_of acme_profile) ''owner_1'')"
    by code_simp
  then obtain key where k: "app_operation_key (\<lambda>s. replicate 64 (CHR ''0'')) (\<lambda>_. False) ''run_1'' (key_profile_of acme_profile) ''owner_1'' = Inr key"
    by (auto simp: result_simps)
  have "case app_operation_key (\<lambda>s. replicate 64 (CHR ''0'')) (\<lambda>_. False) ''run_1'' (key_profile_of acme_profile) ''owner_1'' of
      Inl _ \<Rightarrow> False | Inr key \<Rightarrow> returned (effect_key (\<lambda>s. replicate 64 (CHR ''0'')) effect_provider (effect_action create_dev_app) key)"
    by code_simp
  then obtain e where "effect_key (\<lambda>s. replicate 64 (CHR ''0'')) effect_provider (effect_action create_dev_app) key = Inr e"
    using k by (auto simp: result_simps)
  then obtain T where t: "plan_effect (\<lambda>s. replicate 64 (CHR ''0'')) Map.empty key create_dev_app =
      (T, Inr (make_plan key create_dev_app Execute None))"
    by (simp add: plan_effect_def reserve_def plan_for_reservation_def)
  have "returned (developer_app_goal acme_profile sample_request ?f ''reuse_only'')" by code_simp
  then obtain goal where l: "developer_app_goal acme_profile sample_request ?f ''reuse_only'' = Inr goal"
    by (auto simp: result_simps)
  have q: "aq_owner sample_request = ''owner_1''" "aq_kind sample_request = ''api_key''"
    by (simp_all add: sample_request_def)
  have o: "ad_opened (run_app_loop sample_deps sample_answers T D ''run_1'' acme_profile sample_request ?f plan)" for plan
    using l acme_allowed by (simp add: run_app_loop_def sample_deps_def sample_answers_def split: prod.splits)
  have p: "plan_disposition (make_plan key create_dev_app Execute None) = Execute" by (simp add: make_plan_def)
  have d: "ae_sha sample_deps = (\<lambda>s. replicate 64 (CHR ''0''))" "ae_v6 sample_deps = (\<lambda>_. False)"
    by (simp_all add: sample_deps_def)
  show ?thesis
    using o by (simp add: sample_app_call_def drive_developer_app_def Let_def q f g [simplified] d k t p)
qed

lemma developer_app_created_once_witness:
  "ad_opened (app_call sample_app_call Map.empty empty_db) \<and>
   length (filter (opened_for (app_identity sample_app_call))
     (zip [sample_app_call, sample_app_call] (app_drives [sample_app_call, sample_app_call] Map.empty empty_db))) \<le> 1"
  using developer_app_created_once [of "ae_sha sample_deps" "ae_v6 sample_deps" "[sample_app_call, sample_app_call]"]
    acme_opens [of empty_db]
  by (simp add: sample_app_call_def)

lemma developer_app_contract_witness:
  "ad_opened (app_call sample_app_call Map.empty empty_db) \<and> \<not> stops_early (Some acme_profile) sample_request \<and>
   stops_early None sample_request \<and> \<not> ad_opened (drive_developer_app sample_deps sample_answers Map.empty empty_db ''run_1'' None sample_request)"
  using developer_app_contract [OF refl, of None sample_request sample_deps sample_answers Map.empty empty_db "''run_1''"]
    developer_app_contract [OF refl, of "Some acme_profile" sample_request sample_deps sample_answers Map.empty empty_db "''run_1''"]
    acme_opens [of empty_db]
  by (simp add: sample_app_call_def stops_early_def)

end
