(* ===== verification/Verification.thy ===== *)
theory Verification
  imports Email_Selection Vault_Claims Phase_Goal Profile
begin

text \<open>
  Email verification (\<^theory_text>\<open>await_verification\<close> of \<^theory_text>\<open>ops/onboarding/driver.py\<close>) over the mailbox
  adapter of \<^theory_text>\<open>ops/gmail/verification_provider.py\<close>: the run-bound query, the selection, the claim in the
  vault, the use of the one-time secret on the run's session, and the settlement or release of the claim.

  It composes \<^theory_text>\<open>select_verification\<close> (\<^theory_text>\<open>Email_Selection\<close>), the message claims and one-time
  entries of the vault (\<^theory_text>\<open>Vault\<close>), the profile's allow-list (\<^theory_text>\<open>Profile\<close>), the declared
  postconditions (\<^theory_text>\<open>Phase_Goal\<close>) and the steps of the driver. What the worker reads from the
  mailbox, what the session answers, the clocks, the identifiers drawn and the vault calls of other
  processes in between are arguments. Instants are microseconds, seconds of a delay are rationals.
\<close>

section \<open>Bounds and context\<close>

record verification_budget =
  vb_base_delay :: rat
  vb_max_attempts :: int
  vb_freshness :: int

definition make_verification_budget :: "verification_budget \<Rightarrow> verification_budget result" where
  "make_verification_budget b =
     (if vb_base_delay b < 0 then Inl (ValueError ''the verification base delay cannot be negative'')
      else if vb_max_attempts b < 1
      then Inl (ValueError ''the verification attempt budget is at least one attempt'')
      else if \<not> (0 < vb_freshness b \<and> vb_freshness b \<le> max_verification_age_seconds)
      then Inl (ValueError ''the verification freshness window is bounded at 3600 seconds'')
      else Inr b)"

record verification_context =
  vx_mailbox :: string
  vx_session :: string
  vx_issued_ms :: int
  vx_consumed :: "string list"

definition make_verification_context :: "verification_context \<Rightarrow> verification_context result" where
  "make_verification_context c =
     (if canonical_address (vx_mailbox c) = None
      then Inl (ValueError ''a verification context requires the run's mailbox address'')
      else bindR (store_identifier 200 ''browser session id is invalid'' (vx_session c)) (\<lambda>_.
        if vx_issued_ms c \<le> 0
        then Inl (ValueError ''the verification challenge timestamp is a positive epoch instant'') else Inr c))"

definition backoff_cap :: rat where "backoff_cap = 30"
definition jitter_min :: rat where "jitter_min = 4 / 5"
definition jitter_max :: rat where "jitter_max = 6 / 5"

definition verification_backoff_seconds :: "verification_budget \<Rightarrow> int \<Rightarrow> rat \<Rightarrow> rat result" where
  "verification_backoff_seconds b attempt jitter =
     (if \<not> (jitter_min \<le> jitter \<and> jitter < jitter_max)
      then Inl (ValueError ''the verification jitter factor is in [0.8, 1.2)'')
      else bindR (attempt_check attempt) (\<lambda>n.
        Inr (min (vb_base_delay b * 2 ^ nat n) backoff_cap * jitter)))"

definition verification_deferral :: "verification_budget \<Rightarrow> int \<Rightarrow> int \<Rightarrow> rat \<Rightarrow> string \<Rightarrow> phase_step result" where
  "verification_deferral b attempt now jitter reason =
     bindR (verification_backoff_seconds b attempt jitter) (\<lambda>d. defer_until (now + round (d * 1000000)) reason)"

section \<open>The query\<close>

definition verification_sender_domains :: "provider_profile \<Rightarrow> string list" where
  "verification_sender_domains p = first_occurrences
     (pr_registrable_domain p # map au_host (filter (\<lambda>a. au_kind a = ''email_link_host'') (pr_auxiliary_hosts p)))"

definition verification_reviewed_senders :: "provider_profile \<Rightarrow> string list" where
  "verification_reviewed_senders p =
     (let domains = verification_sender_domains p in first_occurrences (domains @ map (\<lambda>d. ''*.'' @ d) domains))"

definition max_verification_candidates :: int where
  "max_verification_candidates = 10"

record verification_query =
  vq_recipient :: string
  vq_sender_domains :: "string list"
  vq_purpose :: verification_purpose
  vq_not_before :: int
  vq_max_age :: int
  vq_allowed :: "string list"
  vq_limit :: int

definition make_query :: "verification_query \<Rightarrow> verification_query result" where
  "make_query q =
     (if canonical_address (vq_recipient q) = None
      then Inl (ValueError ''expected_recipient is not a single valid mailbox address'')
      else if \<not> (0 < vq_max_age q \<and> vq_max_age q \<le> max_verification_age_seconds)
      then Inl (ValueError ''max_age_seconds must be in 1..3600 seconds'')
      else if vq_not_before q \<le> 0
      then Inl (ValueError ''not_before_ms must be a positive epoch-millisecond instant'')
      else if \<not> (0 < vq_limit q \<and> vq_limit q \<le> max_verification_candidates)
      then Inl (ValueError ''limit must be in 1..10'')
      else Inr q)"

definition freshness_floor_ms :: "verification_query \<Rightarrow> int \<Rightarrow> int" where
  "freshness_floor_ms q now = max (vq_not_before q) (now - vq_max_age q * 1000)"

definition verification_query ::
    "(string \<Rightarrow> bool) \<Rightarrow> (string \<Rightarrow> app_recipe option) \<Rightarrow> provider_profile \<Rightarrow> verification_context \<Rightarrow>
     verification_budget \<Rightarrow> verification_query result" where
  "verification_query v6 lookup p c b =
     bindR (allowed_hosts v6 lookup ''self_serve'' p) (\<lambda>a.
       make_query \<lparr>vq_recipient = vx_mailbox c, vq_sender_domains = verification_sender_domains p,
         vq_purpose = Signup_Confirmation, vq_not_before = vx_issued_ms c, vq_max_age = vb_freshness b,
         vq_allowed = patterns a, vq_limit = max_verification_candidates\<rparr>)"

section \<open>The mailbox adapter\<close>

text \<open>\<^theory_text>\<open>search\<close> after the worker's read: \<open>now\<close> is the adapter's own clock, in milliseconds.\<close>

definition mailbox_search :: "mail_env \<Rightarrow> verification_query \<Rightarrow> int \<Rightarrow> mail_message list \<Rightarrow> mail_message list" where
  "mailbox_search E q now ms =
     (case canonical_address (vq_recipient q) of
        None \<Rightarrow> []
      | Some expected \<Rightarrow>
          let bound = filter (\<lambda>(t, m). (case t of None \<Rightarrow> False | Some r \<Rightarrow> freshness_floor_ms q now \<le> r) \<and>
                 bind_recipient expected (parse_addresses E (mm_recipients m)) \<in> {Binding_Exact, Binding_Canonical})
               (map (\<lambda>m. (parse_received_at_ms E (mm_received m), m)) ms)
          in take (nat (vq_limit q)) (map snd (sort_key (\<lambda>(t, m). (- the t, mm_id m)) bound)))"

definition verification_app_slug :: string where
  "verification_app_slug = ''email-verification''"

definition claim_lease_seconds :: int where
  "claim_lease_seconds = 300"

definition message_of :: "string \<Rightarrow> string \<Rightarrow> message_identity" where
  "message_of account i = \<lparr>mi_account = account, mi_thread = i, mi_message = i\<rparr>"

definition claim_message ::
    "vault_keys \<Rightarrow> string \<Rightarrow> string \<Rightarrow> int \<Rightarrow> vault \<Rightarrow> string \<Rightarrow> string \<Rightarrow> vault \<times> ingestion_claim result" where
  "claim_message K account token now V i run =
     begin_gmail_message_ingestion K (\<lambda>_. []) (\<lambda>_. 0) token now V (message_of account i) run
       verification_app_slug [] claim_lease_seconds"

definition release_message ::
    "vault_keys \<Rightarrow> string \<Rightarrow> int \<Rightarrow> vault \<Rightarrow> string \<Rightarrow> string \<Rightarrow> string \<Rightarrow> vault \<times> unit result" where
  "release_message K account now V i run token =
     (case release_gmail_message_ingestion K now V (message_of account i) run token of
        (V', v) \<Rightarrow> (V', bindR v (\<lambda>_. Inr ())))"

definition settle_message ::
    "vault_keys \<Rightarrow> string \<Rightarrow> vault \<Rightarrow> string \<Rightarrow> string \<Rightarrow> string \<Rightarrow> vault \<times> unit result" where
  "settle_message K account V i run token =
     (case complete_gmail_message_ingestion K V (message_of account i) run token of
        (V', v) \<Rightarrow> (V', bindR v (\<lambda>ok.
          if ok then Inr () else Inl (RuntimeError ''verification_claim_settlement_failed''))))"

section \<open>The code of a message\<close>

definition code_kind :: string where
  "code_kind = ''browser_login_login_otp''"

definition code_ttl_seconds :: int where
  "code_ttl_seconds = 300"

definition verification_operation_key :: "(string \<Rightarrow> string) \<Rightarrow> string \<Rightarrow> string \<Rightarrow> string" where
  "verification_operation_key sha run i = run @ '':verification:'' @ take 32 (sha i) @ '':consume:login_otp''"

definition stage_verification_code ::
    "vault_keys \<Rightarrow> nat \<times> string \<Rightarrow> int \<Rightarrow> vault \<Rightarrow> provider_profile \<Rightarrow> verification_context \<Rightarrow> string \<Rightarrow> string \<Rightarrow>
     string \<Rightarrow> vault \<times> (string \<times> string) result" where
  "stage_verification_code K draw now V p c run i code =
     (case put_transient K (fst draw) (snd draw) now V (pr_app_slug p) code_kind run code code_ttl_seconds of
        (V1, Inl e) \<Rightarrow> (V1, Inl e)
      | (V1, Inr ref) \<Rightarrow>
          (case reserve_browser_secret_grant K now V1
                 \<lparr>gb_operation = verification_operation_key (ck_sha K) run i, gb_run = run,
                  gb_session = vx_session c, gb_app = pr_app_slug p, gb_kind = code_kind,
                  gb_action = Consume_Action, gb_reference = Some ref\<rparr> code_ttl_seconds of
             (V2, Inl e) \<Rightarrow> (V2, Inl e)
           | (V2, Inr grant) \<Rightarrow> (V2, Inr (ref, grant))))"

section \<open>The service\<close>

definition verification_accepted :: "provider_profile \<Rightarrow> browser_observation \<Rightarrow> bool result" where
  "verification_accepted p o1 =
     bindR (goal_for_phase
        \<lparr>go_phase = email_verification, go_provider = pr_provider_name p,
         go_description = ''Complete the provider's email verification for this run.'',
         go_instruction = ''Confirm the provider accepted the verification the mailbox supplied.'',
         go_signals = [], go_postconditions = [], go_success = ''verification_email_found'', go_goto_urls = [],
         go_value_refs = [], go_max_candidates = max_candidates, go_controls = [], go_policy = ''reuse_only'',
         go_requires_hitl = False\<rparr>)
       (\<lambda>g. Inr (''verification_completed'' \<in> set (pk_satisfied (check_postconditions g o1 []))))"

text \<open>What is fixed for a deployment and a run.\<close>

record verification_deps =
  vd_mail :: mail_env
  vd_keys :: vault_keys
  vd_lookup :: "string \<Rightarrow> app_recipe option"
  vd_mailbox :: "string option"
  vd_budget :: verification_budget

text \<open>What one attempt meets: the clocks, the inbox, the claim token, the session, the vault calls of other
  processes before the claim and while the session works.\<close>

record verification_answers =
  va_session :: string
  va_now :: int
  va_search_now_ms :: int
  va_inbox :: "mail_message list result"
  va_before_claim :: "vault_call list"
  va_claim :: "string \<times> int"
  va_drawn :: "nat \<times> string"
  va_staged_at :: int
  va_used :: "unit result"
  va_during :: "vault_call list"
  va_observed :: "loop_observation result"
  va_session_after :: string
  va_released_at :: int
  va_jitter :: rat

record verification_drive =
  vf_vault :: vault
  vf_step :: "phase_step result"
  vf_opened :: "string option"
  vf_injected :: "(string \<times> string) option"

definition verification_end ::
    "string option \<Rightarrow> (string \<times> string) option \<Rightarrow> vault \<times> phase_step result \<Rightarrow> verification_drive" where
  "verification_end opened injected r =
     \<lparr>vf_vault = fst r, vf_step = snd r, vf_opened = opened, vf_injected = injected\<rparr>"

definition selection_request :: "provider_profile \<Rightarrow> verification_context \<Rightarrow> verification_query \<Rightarrow> int \<Rightarrow> verification_request" where
  "selection_request p c q now_ms =
     \<lparr>vr_purpose = vq_purpose q, vr_recipient = vq_recipient q, vr_now = now_ms, vr_max_age = vq_max_age q,
      vr_allowed = vq_allowed q, vr_reviewed = verification_reviewed_senders p, vr_need_reviewed = True,
      vr_need_authenticated = True, vr_need_reviewed_link = True, vr_prefer_link = True,
      vr_consumed = vx_consumed c, vr_requested = Some (vx_issued_ms c), vr_skew = 300, vr_request_skew = 30\<rparr>"

text \<open>After the secret was used: the page decides between settling and releasing.\<close>

definition conclude_verification ::
    "verification_deps \<Rightarrow> verification_answers \<Rightarrow> string \<Rightarrow> provider_profile \<Rightarrow> verification_context \<Rightarrow> int \<Rightarrow>
     string \<Rightarrow> string \<Rightarrow> string \<Rightarrow> vault \<Rightarrow> vault \<times> phase_step result" where
  "conclude_verification E A run p c attempt account i token V =
     (case bindR (va_observed A) (\<lambda>o1. verification_accepted p (lo_observation o1)) of
        Inl e \<Rightarrow> (V, Inl e)
      | Inr accepted \<Rightarrow>
          if \<not> accepted \<or> va_session_after A \<noteq> vx_session c
          then (case release_message (vd_keys E) account (va_released_at A) V i run token of
                  (V', Inl e) \<Rightarrow> (V', Inl e)
                | (V', Inr _) \<Rightarrow> (V', verification_deferral (vd_budget E) attempt (va_now A) (va_jitter A)
                    ''verification_unresolved''))
          else (case settle_message (vd_keys E) account V i run token of
                  (V', Inl e) \<Rightarrow> (V', Inl e)
                | (V', Inr _) \<Rightarrow> (V', advance_to authenticated ''verification_email_found'' None)))"

text \<open>The use of the secret, under the claim \<open>token\<close> of message \<open>i\<close>.\<close>

definition use_verification ::
    "verification_deps \<Rightarrow> verification_answers \<Rightarrow> string \<Rightarrow> provider_profile \<Rightarrow> verification_context \<Rightarrow> int \<Rightarrow>
     string \<Rightarrow> string list \<Rightarrow> resolved_verification \<Rightarrow> string \<Rightarrow> vault \<Rightarrow> verification_drive" where
  "use_verification E A run p c attempt account allowed x token V =
     (let i = ve_message (snd x)
      in if ve_kind (snd x) = Secret_Link then
           (if \<not> is_safe_verification_link (vd_mail E) (fst x) allowed
            then verification_end None None
                   (case release_message (vd_keys E) account (va_released_at A) V i run token of
                      (V', Inl e) \<Rightarrow> (V', Inl e)
                    | (V', Inr _) \<Rightarrow> (V', pause_on ''verification_link_blocked''))
            else verification_end (Some (fst x)) None
                   (let V1 = vault_run (vd_keys E) (va_during A) V
                    in case va_used A of
                         Inl e \<Rightarrow> (V1, Inl e)
                       | Inr _ \<Rightarrow> conclude_verification E A run p c attempt account i token V1))
         else
           (case stage_verification_code (vd_keys E) (va_drawn A) (va_staged_at A) V p c run i (fst x) of
              (V1, Inl e) \<Rightarrow> verification_end None None (V1, Inl e)
            | (V1, Inr staged) \<Rightarrow>
                verification_end None (Some staged)
                  (let V2 = vault_run (vd_keys E) (va_during A) V1
                   in case va_used A of
                        Inl e \<Rightarrow> (V2, Inl e)
                      | Inr _ \<Rightarrow> conclude_verification E A run p c attempt account i token V2)))"

definition claim_verification ::
    "verification_deps \<Rightarrow> verification_answers \<Rightarrow> string \<Rightarrow> provider_profile \<Rightarrow> verification_context \<Rightarrow> int \<Rightarrow>
     string \<Rightarrow> string list \<Rightarrow> resolved_verification \<Rightarrow> vault \<Rightarrow> verification_drive" where
  "claim_verification E A run p c attempt account allowed x V =
     (case claim_message (vd_keys E) account (fst (va_claim A)) (snd (va_claim A)) V (ve_message (snd x)) run of
        (V1, Inl e) \<Rightarrow> verification_end None None (V1, Inl e)
      | (V1, Inr claim) \<Rightarrow>
          (case ic_status claim of
             Claim_Busy \<Rightarrow> verification_end None None (V1, verification_deferral (vd_budget E) attempt (va_now A)
               (va_jitter A) ''verification_claim_contended'')
           | Claim_Completed \<Rightarrow> verification_end None None (V1, advance_to authenticated ''verification_email_found'' None)
           | Claim_Acquired \<Rightarrow> use_verification E A run p c attempt account allowed x (the (ic_token claim)) V1))"

definition await_verification ::
    "verification_deps \<Rightarrow> verification_answers \<Rightarrow> string \<Rightarrow> provider_profile \<Rightarrow> verification_context \<Rightarrow> int \<Rightarrow>
     vault \<Rightarrow> verification_drive" where
  "await_verification E A run p c attempt V =
     (let stop = (\<lambda>v. verification_end None None (V, v))
      in if vb_max_attempts (vd_budget E) \<le> attempt then stop (pause_on ''verification_unresolved'')
         else (case vd_mailbox E of
             None \<Rightarrow> stop (pause_on ''verification_unresolved'')
           | Some account \<Rightarrow>
               if va_session A \<noteq> vx_session c
               then stop (Inl (PhaseNotDrivable ''verification continues on the run's bound browser session''))
               else (case verification_query (me_v6 (vd_mail E)) (vd_lookup E) p c (vd_budget E) of
                   Inl e \<Rightarrow> stop (Inl e)
                 | Inr q \<Rightarrow>
                     (case bindR (va_inbox A) (\<lambda>ms.
                             select_verification (vd_mail E) (mailbox_search (vd_mail E) q (va_search_now_ms A) ms)
                               (selection_request p c q (va_now A div 1000))) of
                        Inl e \<Rightarrow> stop (Inl e)
                      | Inr d \<Rightarrow>
                          (case vd_resolved d of
                             None \<Rightarrow> stop (verification_deferral (vd_budget E) attempt (va_now A) (va_jitter A)
                               ''verification_unresolved'')
                           | Some x \<Rightarrow> claim_verification E A run p c attempt account (vq_allowed q) x
                               (vault_run (vd_keys E) (va_before_claim A) V))))))"

section \<open>Delays\<close>

text \<open>The cap bounds the delay before the jitter, so a delay may exceed it by a fifth.\<close>

lemma backoff_bounds:
  assumes "make_verification_budget b = Inr b'" "verification_backoff_seconds b attempt jitter = Inr d"
  shows "0 \<le> d" "d < 36"
proof -
  have b: "0 \<le> vb_base_delay b" using assms(1) by (auto simp: make_verification_budget_def split: if_splits)
  have d: "d = min (vb_base_delay b * 2 ^ nat attempt) backoff_cap * jitter" "4 / 5 \<le> jitter" "jitter < 6 / 5"
    using assms(2) by (auto simp: verification_backoff_seconds_def jitter_min_def jitter_max_def attempt_check_def
        result_simps split: if_splits)
  have m: "0 \<le> min (vb_base_delay b * 2 ^ nat attempt) backoff_cap" "min (vb_base_delay b * 2 ^ nat attempt) backoff_cap \<le> 30"
    using b by (auto simp: backoff_cap_def)
  show "0 \<le> d" using m(1) d by simp
  have "d \<le> 30 * jitter" using m(2) d by (simp add: mult_right_mono)
  then show "d < 36" using d(3) by simp
qed

lemma backoff_over_cap:
  "verification_backoff_seconds \<lparr>vb_base_delay = 5, vb_max_attempts = 10, vb_freshness = 3600\<rparr> 4 (11 / 10) = Inr 33"
  by (simp add: verification_backoff_seconds_def jitter_min_def jitter_max_def attempt_check_def backoff_cap_def)

section \<open>Claims\<close>

lemma message_row: "gmail_ingestion_key K m = Inr key \<Longrightarrow> claim_row K V m = va_ingest V key"
  by (simp add: claim_row_def)

lemma claim_message_acquired:
  assumes "claim_message K account t now V i run = (V', Inr cl)" "ic_status cl = Claim_Acquired"
  shows "ic_token cl = Some t \<and> (\<exists>r. claim_row K V' (message_of account i) = Some r \<and> in_owner r = run \<and>
     \<not> in_completed r \<and> in_token r = Some t)"
  using assms unfolding claim_message_def by (elim begin_acquired) (auto simp: claim_row_def)

lemma settle_message_done:
  assumes "settle_message K account V i run t = (V', Inr u)"
  shows "\<exists>r. claim_row K V' (message_of account i) = Some r \<and> in_owner r = run \<and> in_completed r"
proof -
  obtain v where "complete_gmail_message_ingestion K V (message_of account i) run t = (V', Inr True)"
    using assms by (auto simp: settle_message_def result_simps split: prod.splits if_splits)
  then show ?thesis by (cases rule: complete_cases) (auto simp: claim_row_def)
qed

lemma release_message_done:
  assumes "release_message K account now V i run t = (V', Inr u)"
    and "claim_row K V (message_of account i) = Some r" "in_owner r = run" "\<not> in_completed r" "in_token r = Some t"
  shows "claim_row K V' (message_of account i) = Some (r\<lparr>in_expires := Some (now - second)\<rparr>)"
proof -
  obtain ok where "release_gmail_message_ingestion K now V (message_of account i) run t = (V', Inr ok)"
    using assms(1) by (auto simp: release_message_def result_simps split: prod.splits)
  moreover obtain key where key: "gmail_ingestion_key K (message_of account i) = Inr key" "va_ingest V key = Some r"
    using assms(2) by (auto simp: claim_row_def split: sum.splits)
  ultimately have "V' = V\<lparr>va_ingest := (va_ingest V)(key \<mapsto> r\<lparr>in_expires := Some (now - second)\<rparr>)\<rparr>"
    using assms(3-5)
    by (auto simp: release_gmail_message_ingestion_def in_transaction_Inr bindR_Inr_iff)
  then show ?thesis using key by (simp add: claim_row_def)
qed

lemma run_keeps_claims:
  "list_all (\<lambda>c. \<not> touches_claims c) cs \<Longrightarrow> va_ingest (vault_run K cs V) = va_ingest V"
  by (induction cs arbitrary: V) (auto simp: claims_frame)

lemma stage_keeps_claims:
  assumes "stage_verification_code K d now V p c run i code = (V', v)"
  shows "va_ingest V' = va_ingest V"
proof -
  let ?put = "Put_Transient (fst d) (snd d) now (pr_app_slug p) code_kind run code code_ttl_seconds"
  obtain V1 u where p: "put_transient K (fst d) (snd d) now V (pr_app_slug p) code_kind run code code_ttl_seconds = (V1, u)"
    by fastforce
  have one: "va_ingest V1 = va_ingest V" using claims_frame [of ?put K V] p by simp
  show ?thesis
  proof (cases u)
    case (Inr ref)
    let ?b = "\<lparr>gb_operation = verification_operation_key (ck_sha K) run i, gb_run = run, gb_session = vx_session c,
       gb_app = pr_app_slug p, gb_kind = code_kind, gb_action = Consume_Action, gb_reference = Some ref\<rparr>"
    have "va_ingest V' = va_ingest V1"
      using assms p Inr claims_frame [of "Reserve now ?b code_ttl_seconds" K V1]
      by (auto simp: stage_verification_code_def split: prod.splits sum.splits)
    then show ?thesis using one by simp
  qed (use assms p one in \<open>auto simp: stage_verification_code_def\<close>)
qed

section \<open>The attempt taken apart\<close>

definition secret_used :: "verification_drive \<Rightarrow> bool" where
  "secret_used R = (vf_opened R \<noteq> None \<or> vf_injected R \<noteq> None)"

definition advanced :: "verification_drive \<Rightarrow> bool" where
  "advanced R = (case vf_step R of Inl _ \<Rightarrow> False | Inr st \<Rightarrow> st_kind st = Advance)"

lemma end_simps [simp]:
  "vf_opened (verification_end a b r) = a" "vf_injected (verification_end a b r) = b"
  "vf_step (verification_end a b r) = snd r" "vf_vault (verification_end a b r) = fst r"
  by (simp_all add: verification_end_def)

lemma pause_kind: "pause_on r = Inr st \<Longrightarrow> st_kind st \<noteq> Advance"
  by (auto simp: step_simps split: if_splits)

lemma deferral_kind: "verification_deferral b n now j r = Inr st \<Longrightarrow> st_kind st \<noteq> Advance"
  by (auto simp: verification_deferral_def result_simps step_simps split: if_splits)

lemma await_claims:
  assumes "secret_used (await_verification E A run p c attempt V) \<or> advanced (await_verification E A run p c attempt V)"
  obtains account q ms d x where "vd_mailbox E = Some account" "attempt < vb_max_attempts (vd_budget E)"
    "va_session A = vx_session c"
    "verification_query (me_v6 (vd_mail E)) (vd_lookup E) p c (vd_budget E) = Inr q" "va_inbox A = Inr ms"
    "select_verification (vd_mail E) (mailbox_search (vd_mail E) q (va_search_now_ms A) ms)
       (selection_request p c q (va_now A div 1000)) = Inr d" "vd_resolved d = Some x"
    "await_verification E A run p c attempt V = claim_verification E A run p c attempt account (vq_allowed q) x
       (vault_run (vd_keys E) (va_before_claim A) V)"
proof -
  have "\<exists>account q ms d x. vd_mailbox E = Some account \<and> attempt < vb_max_attempts (vd_budget E) \<and>
    va_session A = vx_session c \<and>
    verification_query (me_v6 (vd_mail E)) (vd_lookup E) p c (vd_budget E) = Inr q \<and> va_inbox A = Inr ms \<and>
    select_verification (vd_mail E) (mailbox_search (vd_mail E) q (va_search_now_ms A) ms)
       (selection_request p c q (va_now A div 1000)) = Inr d \<and> vd_resolved d = Some x \<and>
    await_verification E A run p c attempt V = claim_verification E A run p c attempt account (vq_allowed q) x
       (vault_run (vd_keys E) (va_before_claim A) V)"
    using assms
    by (auto simp: await_verification_def Let_def secret_used_def advanced_def result_simps
        dest: pause_kind deferral_kind split: if_splits option.splits sum.splits)
  then show thesis using that by blast
qed

text \<open>The message the selection took, in the mailbox as the adapter was given it.\<close>

definition run_message :: "verification_deps \<Rightarrow> provider_profile \<Rightarrow> verification_context \<Rightarrow> mail_message \<Rightarrow> bool" where
  "run_message E p c m =
     ((case canonical_address (vx_mailbox c) of None \<Rightarrow> False | Some e \<Rightarrow> addressed_to (vd_mail E) e m) \<and>
      host_matches (sender_domain_of (vd_mail E) (mm_sender m)) (verification_reviewed_senders p) \<and>
      fst (sender_authentication_method m (sender_domain_of (vd_mail E) (mm_sender m))) \<noteq> Auth_None \<and>
      strip (mm_id m) \<notin> set (vx_consumed c))"

lemma search_subset: "set (mailbox_search E q now ms) \<subseteq> set ms"
  by (auto simp: mailbox_search_def Let_def split: option.splits dest!: in_set_takeD)

lemma query_fields:
  assumes "verification_query v6 lookup p c b = Inr q"
  obtains a where "allowed_hosts v6 lookup ''self_serve'' p = Inr a" "vq_allowed q = patterns a"
    "vq_recipient q = vx_mailbox c" "vq_not_before q = vx_issued_ms c" "vq_max_age q = vb_freshness b"
  using assms by (auto simp: verification_query_def make_query_def result_simps split: if_splits)

lemma selected_message:
  assumes "select_verification (vd_mail E) (mailbox_search (vd_mail E) q t ms) (selection_request p c q now) = Inr d"
    and "vd_resolved d = Some x" "vq_recipient q = vx_mailbox c"
  obtains m where "m \<in> set ms" "run_message E p c m" "ve_message (snd x) = strip (strip (mm_id m))"
    "secret_ok (vd_mail E) (selection_request p c q now) m x"
proof -
  obtain m e where m: "m \<in> set (mailbox_search (vd_mail E) q t ms)"
    "strip (mm_id m) \<notin> set (vr_consumed (selection_request p c q now))" "ve_message (snd x) = strip (strip (mm_id m))"
    "canonical_address (vr_recipient (selection_request p c q now)) = Some e" "addressed_to (vd_mail E) e m"
    "vr_need_reviewed (selection_request p c q now) \<longrightarrow>
       host_matches (sender_domain_of (vd_mail E) (mm_sender m)) (vr_reviewed (selection_request p c q now))"
    "vr_need_authenticated (selection_request p c q now) \<longrightarrow>
       fst (sender_authentication_method m (sender_domain_of (vd_mail E) (mm_sender m))) \<noteq> Auth_None"
    "secret_ok (vd_mail E) (selection_request p c q now) m x"
    using selected_facts [OF assms(1,2)] by blast
  have "m \<in> set ms" using m(1) search_subset by blast
  moreover have "run_message E p c m"
    using m(2,4-7) assms(3) by (simp add: run_message_def selection_request_def)
  ultimately show thesis using that m(3,8) by blast
qed

text \<open>A selected link is safe on the allowed hosts, so the refusal before its use is never taken.\<close>

lemma selected_link_safe:
  assumes "secret_ok E R m x" "ve_kind (snd x) = Secret_Link" "vr_need_reviewed_link R"
  shows "is_safe_verification_link E (fst x) (vr_allowed R)"
  using assms by (simp add: secret_ok_def)

section \<open>The properties\<close>

lemma use_claims:
  assumes "secret_used (claim_verification E A run p c attempt account allowed x V) \<or>
    advanced (claim_verification E A run p c attempt account allowed x V)"
  obtains (held) V1 where "claim_message (vd_keys E) account (fst (va_claim A)) (snd (va_claim A)) V (ve_message (snd x)) run =
      (V1, Inr (bare_claim Claim_Completed))"
      "claim_verification E A run p c attempt account allowed x V =
        verification_end None None (V1, advance_to authenticated ''verification_email_found'' None)"
    | (mine) V1 cl where "claim_message (vd_keys E) account (fst (va_claim A)) (snd (va_claim A)) V (ve_message (snd x)) run =
        (V1, Inr cl)" "ic_status cl = Claim_Acquired" "ic_token cl = Some (fst (va_claim A))"
      "claim_verification E A run p c attempt account allowed x V =
        use_verification E A run p c attempt account allowed x (fst (va_claim A)) V1"
proof -
  obtain V1 v where cm: "claim_message (vd_keys E) account (fst (va_claim A)) (snd (va_claim A)) V (ve_message (snd x)) run = (V1, v)"
    by fastforce
  then obtain cl where v: "v = Inr cl"
    using assms by (cases v) (auto simp: claim_verification_def secret_used_def advanced_def)
  show thesis
  proof (cases "ic_status cl")
    case Claim_Acquired
    have "ic_token cl = Some (fst (va_claim A))" using claim_message_acquired cm v Claim_Acquired by blast
    then show thesis using cm v Claim_Acquired by (intro mine) (simp_all add: claim_verification_def)
  next
    case Claim_Busy
    then show thesis
      using assms cm v by (auto simp: claim_verification_def secret_used_def advanced_def dest: deferral_kind split: sum.splits)
  next
    case Claim_Completed
    have "cl = bare_claim Claim_Completed"
      using cm [unfolded v claim_message_def] Claim_Completed
      by (cases rule: begin_cases) (auto simp: claims_again_def claims_first_def bare_claim_def)
    then show thesis using cm v by (intro held) (simp_all add: claim_verification_def bare_claim_def)
  qed
qed

text \<open>C13. The one-time secret of a message is only used under the run's own claim. Whenever a link is opened
  or a code is handed to the session, it is the secret of a message of the mailbox that was
  delivered to the run's own address by an authenticated, reviewed sender and was not consumed before,
  the claim of that message was just acquired by this run, the session is the bound one, and a link is
  safe on the hosts of the profile.\<close>

theorem verification_secret_used_under_claim:
  assumes "secret_used (await_verification E A run p c attempt V)"
  shows "\<exists>account a ms m s V1 cl. vd_mailbox E = Some account \<and> va_session A = vx_session c \<and>
    allowed_hosts (me_v6 (vd_mail E)) (vd_lookup E) ''self_serve'' p = Inr a \<and>
    va_inbox A = Inr ms \<and> m \<in> set ms \<and> run_message E p c m \<and>
    claim_message (vd_keys E) account (fst (va_claim A)) (snd (va_claim A))
      (vault_run (vd_keys E) (va_before_claim A) V) (strip (strip (mm_id m))) run = (V1, Inr cl) \<and>
    ic_status cl = Claim_Acquired \<and>
    (case vf_opened (await_verification E A run p c attempt V) of
       Some url \<Rightarrow> url = s \<and> is_safe_verification_link (vd_mail E) url (patterns a) \<and>
         extract_verification_link (vd_mail E) (mm_subject m) (mm_body m) (patterns a) True = Some url
     | None \<Rightarrow> extract_verification_code (mm_subject m) (mm_body m) = Some s \<and>
         (\<exists>V2 g. stage_verification_code (vd_keys E) (va_drawn A) (va_staged_at A) V1 p c run
            (strip (strip (mm_id m))) s = (V2, Inr g) \<and>
            vf_injected (await_verification E A run p c attempt V) = Some g))"
proof -
  obtain account q ms d x where u: "vd_mailbox E = Some account" "attempt < vb_max_attempts (vd_budget E)"
    "va_session A = vx_session c" "verification_query (me_v6 (vd_mail E)) (vd_lookup E) p c (vd_budget E) = Inr q" "va_inbox A = Inr ms"
    "select_verification (vd_mail E) (mailbox_search (vd_mail E) q (va_search_now_ms A) ms)
       (selection_request p c q (va_now A div 1000)) = Inr d" "vd_resolved d = Some x"
    "await_verification E A run p c attempt V = claim_verification E A run p c attempt account (vq_allowed q) x
       (vault_run (vd_keys E) (va_before_claim A) V)"
    by (rule await_claims [OF disjI1 [OF assms]])
  obtain a where a: "allowed_hosts (me_v6 (vd_mail E)) (vd_lookup E) ''self_serve'' p = Inr a" "vq_allowed q = patterns a"
    "vq_recipient q = vx_mailbox c"
    using u(4) by (rule query_fields)
  obtain m where m: "m \<in> set ms" "run_message E p c m" "ve_message (snd x) = strip (strip (mm_id m))"
    "secret_ok (vd_mail E) (selection_request p c q (va_now A div 1000)) m x"
    using selected_message [OF u(6,7) a(3)] by blast
  have s: "secret_used (claim_verification E A run p c attempt account (vq_allowed q) x
       (vault_run (vd_keys E) (va_before_claim A) V))"
    using assms u(8) by simp
  obtain V1 cl where k: "claim_message (vd_keys E) account (fst (va_claim A)) (snd (va_claim A))
      (vault_run (vd_keys E) (va_before_claim A) V) (ve_message (snd x)) run = (V1, Inr cl)" "ic_status cl = Claim_Acquired"
    "await_verification E A run p c attempt V =
       use_verification E A run p c attempt account (vq_allowed q) x (fst (va_claim A)) V1"
    by (rule use_claims [OF disjI1 [OF s]]) (use s u(8) in \<open>auto simp: secret_used_def\<close>)
  show ?thesis
  proof (cases "ve_kind (snd x)")
    case Secret_Link
    have "is_safe_verification_link (vd_mail E) (fst x) (patterns a)"
      "extract_verification_link (vd_mail E) (mm_subject m) (mm_body m) (patterns a) True = Some (fst x)"
      using m(4) Secret_Link a(2) by (simp_all add: secret_ok_def selection_request_def)
    then show ?thesis
      using u(1,3,5) a m k Secret_Link by (auto simp: use_verification_def Let_def)
  next
    case Secret_Code
    have "extract_verification_code (mm_subject m) (mm_body m) = Some (fst x)"
      using m(4) Secret_Code by (simp add: secret_ok_def)
    moreover obtain V2 g where "stage_verification_code (vd_keys E) (va_drawn A) (va_staged_at A) V1 p c run
        (ve_message (snd x)) (fst x) = (V2, Inr g)"
      using assms k(3) Secret_Code
      by (auto simp: use_verification_def Let_def secret_used_def split: prod.splits sum.splits)
    ultimately show ?thesis
      using u(1,3,5) a m k Secret_Code by (auto simp: use_verification_def Let_def)
  qed
qed

text \<open>How an attempt that used the secret concludes.\<close>

definition accepted_on_session :: "verification_answers \<Rightarrow> provider_profile \<Rightarrow> verification_context \<Rightarrow> bool" where
  "accepted_on_session A p c =
     (va_session_after A = vx_session c \<and>
      (case bindR (va_observed A) (\<lambda>o1. verification_accepted p (lo_observation o1)) of Inl _ \<Rightarrow> False | Inr b \<Rightarrow> b))"

lemma conclude_cases:
  assumes "conclude_verification E A run p c attempt account i t V = (V', Inr st)"
  obtains (settled) u where "settle_message (vd_keys E) account V i run t = (V', Inr u)" "st_kind st = Advance"
      "accepted_on_session A p c"
    | (released) u where "release_message (vd_keys E) account (va_released_at A) V i run t = (V', Inr u)"
      "st_kind st \<noteq> Advance"
proof -
  obtain ok where ok: "bindR (va_observed A) (\<lambda>o1. verification_accepted p (lo_observation o1)) = Inr ok"
    using assms by (auto simp: conclude_verification_def split: sum.splits)
  show thesis
  proof (cases "ok \<and> va_session_after A = vx_session c")
    case True
    then obtain u where u: "settle_message (vd_keys E) account V i run t = (V', Inr u)"
      "advance_to authenticated ''verification_email_found'' None = Inr st"
      using assms ok by (auto simp: conclude_verification_def split: prod.splits sum.splits)
    then have "st_kind st = Advance" by (auto simp: step_simps split: if_splits)
    then show thesis using settled [OF u(1)] True ok by (simp add: accepted_on_session_def)
  next
    case False
    then obtain u where "release_message (vd_keys E) account (va_released_at A) V i run t = (V', Inr u)"
      "verification_deferral (vd_budget E) attempt (va_now A) (va_jitter A) ''verification_unresolved'' = Inr st"
      using assms ok by (auto simp: conclude_verification_def split: prod.splits sum.splits)
    then show thesis using released deferral_kind by blast
  qed
qed

lemma conclude_fails:
  assumes "conclude_verification E A run p c attempt account i t V = (V', v)"
    and "\<And>st. v = Inr st \<Longrightarrow> st_kind st \<noteq> Advance"
    and row: "claim_row (vd_keys E) V (message_of account i) = Some r" "in_owner r = run" "\<not> in_completed r" "in_token r = Some t"
  shows "\<exists>r'. claim_row (vd_keys E) V' (message_of account i) = Some r' \<and>
    (r' = r\<lparr>in_expires := Some (va_released_at A - second)\<rparr> \<or> \<not> returned v \<and> r' = r)"
proof (cases "bindR (va_observed A) (\<lambda>o1. verification_accepted p (lo_observation o1))")
  case (Inl e)
  then show ?thesis using assms(1) row(1) by (auto simp: conclude_verification_def)
next
  case (Inr ok)
  show ?thesis
  proof (cases "ok \<and> va_session_after A = vx_session c")
    case True
    obtain W u where u: "settle_message (vd_keys E) account V i run t = (W, u)" by fastforce
    have "W = V" if "u = Inl e" for e
      using u that by (auto simp: settle_message_def result_simps complete_gmail_message_ingestion_def in_transaction_def
          split: prod.splits sum.splits option.splits if_splits)
    moreover have "\<exists>st. advance_to authenticated ''verification_email_found'' None = Inr st \<and> st_kind st = Advance"
      by (simp add: step_simps onboarding_reason_codes_def)
    ultimately show ?thesis
      using assms(1,2) row(1) u True Inr by (cases u) (auto simp: conclude_verification_def)
  next
    case False
    obtain W u where u: "release_message (vd_keys E) account (va_released_at A) V i run t = (W, u)" by fastforce
    have "W = V" if "u = Inl e" for e
      using u that by (auto simp: release_message_def result_simps release_gmail_message_ingestion_def in_transaction_def
          split: prod.splits sum.splits option.splits if_splits)
    then show ?thesis
      using assms(1) row u release_message_done [of "vd_keys E" account "va_released_at A" V i run t W _ r] False Inr
      by (cases u) (auto simp: conclude_verification_def)
  qed
qed

lemma used_ends:
  assumes "secret_used (use_verification E A run p c attempt account allowed x t V)"
  obtains (raised) W e where "va_ingest W = va_ingest V"
      "vf_vault (use_verification E A run p c attempt account allowed x t V) = vault_run (vd_keys E) (va_during A) W"
      "vf_step (use_verification E A run p c attempt account allowed x t V) = Inl e"
    | (concluded) W where "va_ingest W = va_ingest V"
      "conclude_verification E A run p c attempt account (ve_message (snd x)) t (vault_run (vd_keys E) (va_during A) W) =
         (vf_vault (use_verification E A run p c attempt account allowed x t V),
          vf_step (use_verification E A run p c attempt account allowed x t V))"
proof (cases "ve_kind (snd x) = Secret_Link")
  case True
  then have "is_safe_verification_link (vd_mail E) (fst x) allowed"
    using assms by (auto simp: use_verification_def Let_def secret_used_def split: if_splits)
  then show thesis
    using True raised [of V] concluded [of V] by (cases "va_used A") (auto simp: use_verification_def Let_def)
next
  case False
  obtain W v where w: "stage_verification_code (vd_keys E) (va_drawn A) (va_staged_at A) V p c run (ve_message (snd x)) (fst x) = (W, v)"
    by fastforce
  then obtain g where "v = Inr g"
    using assms False by (cases v) (auto simp: use_verification_def Let_def secret_used_def)
  then show thesis
    using False w raised [OF stage_keeps_claims [OF w]] concluded [OF stage_keeps_claims [OF w]]
    by (cases "va_used A") (auto simp: use_verification_def Let_def)
qed

lemma used_opens:
  "secret_used (use_verification E A run p c attempt account allowed x t V) \<Longrightarrow>
   vf_opened (use_verification E A run p c attempt account allowed x t V) =
     (if ve_kind (snd x) = Secret_Link then Some (fst x) else None)"
  by (auto simp: use_verification_def Let_def secret_used_def split: if_splits prod.splits sum.splits)

text \<open>The message and the secret the attempt takes from its mailbox.\<close>

definition selects ::
    "verification_deps \<Rightarrow> verification_answers \<Rightarrow> provider_profile \<Rightarrow> verification_context \<Rightarrow>
     verification_query \<Rightarrow> resolved_verification \<Rightarrow> bool" where
  "selects E A p c q x =
     (verification_query (me_v6 (vd_mail E)) (vd_lookup E) p c (vd_budget E) = Inr q \<and>
      (case bindR (va_inbox A) (\<lambda>ms.
              select_verification (vd_mail E) (mailbox_search (vd_mail E) q (va_search_now_ms A) ms)
                (selection_request p c q (va_now A div 1000))) of
         Inl _ \<Rightarrow> False
       | Inr d \<Rightarrow> vd_resolved d = Some x))"

lemma await_selects:
  assumes "secret_used (await_verification E A run p c attempt V) \<or> advanced (await_verification E A run p c attempt V)"
  obtains account q x where "vd_mailbox E = Some account" "selects E A p c q x"
    "await_verification E A run p c attempt V = claim_verification E A run p c attempt account (vq_allowed q) x
       (vault_run (vd_keys E) (va_before_claim A) V)"
proof (rule await_claims [OF assms])
  fix account q ms d x
  assume u: "vd_mailbox E = Some account"
    "verification_query (me_v6 (vd_mail E)) (vd_lookup E) p c (vd_budget E) = Inr q" "va_inbox A = Inr ms"
    "select_verification (vd_mail E) (mailbox_search (vd_mail E) q (va_search_now_ms A) ms)
       (selection_request p c q (va_now A div 1000)) = Inr d" "vd_resolved d = Some x"
    "await_verification E A run p c attempt V = claim_verification E A run p c attempt account (vq_allowed q) x
       (vault_run (vd_keys E) (va_before_claim A) V)"
  show thesis by (rule that [OF u(1) _ u(6)]) (simp add: selects_def u)
qed

lemma completed_answer_row:
  assumes "claim_message K account ids now V i run = (V1, Inr cl)" "ic_status cl = Claim_Completed"
  obtains r where "V1 = V" "claim_row K V1 (message_of account i) = Some r" "in_completed r \<or> in_owner r \<noteq> run"
  using assms unfolding claim_message_def
  by (cases rule: begin_cases)
    (auto simp: claim_row_def bare_claim_def claims_again_def claims_first_def)

lemma advanced_use_settles:
  assumes "advanced (use_verification E A run p c attempt account allowed x t V)"
  obtains r where "secret_used (use_verification E A run p c attempt account allowed x t V)"
    "vf_opened (use_verification E A run p c attempt account allowed x t V) =
       (if ve_kind (snd x) = Secret_Link then Some (fst x) else None)"
    "claim_row (vd_keys E) (vf_vault (use_verification E A run p c attempt account allowed x t V))
       (message_of account (ve_message (snd x))) = Some r"
    "in_owner r = run" "in_completed r" "accepted_on_session A p c"
proof -
  let ?R = "use_verification E A run p c attempt account allowed x t V"
  obtain st where st: "vf_step ?R = Inr st" "st_kind st = Advance"
    using assms by (auto simp: advanced_def split: sum.splits)
  have used: "secret_used ?R"
    using st by (auto simp: use_verification_def Let_def secret_used_def dest: pause_kind split: if_splits prod.splits sum.splits)
  obtain W where "conclude_verification E A run p c attempt account (ve_message (snd x)) t
      (vault_run (vd_keys E) (va_during A) W) = (vf_vault ?R, Inr st)"
    by (rule used_ends [OF used]) (use st(1) in simp_all)
  then show ?thesis
  proof (cases rule: conclude_cases)
    case (settled u)
    then show ?thesis using settle_message_done [OF settled(1)] that used used_opens [OF used] by metis
  qed (use st(2) in simp)
qed

text \<open>C14. What a verified run means. When the phase advances, it is on the message the attempt selected
  from the mailbox: either the run acquired the claim of that message, the selected secret was used, the
  provider's page accepted it on the bound session and that message is settled for this run; or no
  secret was used, the claim call answered completed and wrote nothing, because that message is settled
  or belongs to another run.\<close>

theorem verification_advance_means:
  assumes "advanced (await_verification E A run p c attempt V)"
  shows "\<exists>account q x V1 cl r. vd_mailbox E = Some account \<and> selects E A p c q x \<and>
    claim_message (vd_keys E) account (fst (va_claim A)) (snd (va_claim A))
      (vault_run (vd_keys E) (va_before_claim A) V) (ve_message (snd x)) run = (V1, Inr cl) \<and>
    claim_row (vd_keys E) (vf_vault (await_verification E A run p c attempt V))
      (message_of account (ve_message (snd x))) = Some r \<and>
    (if secret_used (await_verification E A run p c attempt V)
     then ic_status cl = Claim_Acquired \<and> in_owner r = run \<and> in_completed r \<and> accepted_on_session A p c \<and>
       vf_opened (await_verification E A run p c attempt V) =
         (if ve_kind (snd x) = Secret_Link then Some (fst x) else None)
     else ic_status cl = Claim_Completed \<and> (in_completed r \<or> in_owner r \<noteq> run) \<and>
       vf_vault (await_verification E A run p c attempt V) = vault_run (vd_keys E) (va_before_claim A) V)"
proof -
  let ?R = "await_verification E A run p c attempt V"
  let ?V = "vault_run (vd_keys E) (va_before_claim A) V"
  obtain account q x where u: "vd_mailbox E = Some account" "selects E A p c q x"
    "?R = claim_verification E A run p c attempt account (vq_allowed q) x ?V"
    by (rule await_selects [OF disjI2 [OF assms]])
  have adv: "advanced (claim_verification E A run p c attempt account (vq_allowed q) x ?V)"
    using assms u(3) by simp
  show ?thesis
  proof (rule use_claims [OF disjI2 [OF adv]])
    fix V1 assume h: "claim_message (vd_keys E) account (fst (va_claim A)) (snd (va_claim A))
        ?V (ve_message (snd x)) run = (V1, Inr (bare_claim Claim_Completed))"
      "claim_verification E A run p c attempt account (vq_allowed q) x ?V =
        verification_end None None (V1, advance_to authenticated ''verification_email_found'' None)"
    have "ic_status (bare_claim Claim_Completed) = Claim_Completed" by (simp add: bare_claim_def)
    moreover have "\<not> secret_used ?R" "vf_vault ?R = V1" using u(3) h(2) by (simp_all add: secret_used_def)
    ultimately show ?thesis using u(1,2) h(1) completed_answer_row [OF h(1)] by metis
  next
    fix V1 cl
    assume h: "claim_message (vd_keys E) account (fst (va_claim A)) (snd (va_claim A)) ?V (ve_message (snd x)) run = (V1, Inr cl)"
      "ic_status cl = Claim_Acquired"
      "claim_verification E A run p c attempt account (vq_allowed q) x ?V =
        use_verification E A run p c attempt account (vq_allowed q) x (fst (va_claim A)) V1"
    then have R: "?R = use_verification E A run p c attempt account (vq_allowed q) x (fst (va_claim A)) V1" using u(3) by simp
    obtain r where "secret_used ?R" "vf_opened ?R = (if ve_kind (snd x) = Secret_Link then Some (fst x) else None)"
      "claim_row (vd_keys E) (vf_vault ?R) (message_of account (ve_message (snd x))) = Some r"
      "in_owner r = run" "in_completed r" "accepted_on_session A p c"
      by (rule advanced_use_settles [OF assms [unfolded R], folded R])
    then show ?thesis
      using u(1,2) h(1,2)
      by (intro exI [of _ account] exI [of _ q] exI [of _ x] exI [of _ V1] exI [of _ cl] exI [of _ r])
        (simp only: if_True simp_thms)
  qed
qed

text \<open>C23. What an attempt that used the secret without advancing leaves of its claim, when no other claim
  call fell between. The claim is the one it acquired on the message it selected: it still belongs to the
  run and is not settled. An attempt that returned has released it, so its lease is over; an attempt
  that raised has either released it too or left it as it was acquired, lease running.\<close>

theorem verification_failure_releases_claim:
  assumes "secret_used (await_verification E A run p c attempt V)"
    and "\<not> advanced (await_verification E A run p c attempt V)"
    and "list_all (\<lambda>k. \<not> touches_claims k) (va_during A)"
  shows "\<exists>account q x V1 cl r r'. vd_mailbox E = Some account \<and> selects E A p c q x \<and>
    claim_message (vd_keys E) account (fst (va_claim A)) (snd (va_claim A))
      (vault_run (vd_keys E) (va_before_claim A) V) (ve_message (snd x)) run = (V1, Inr cl) \<and>
    ic_status cl = Claim_Acquired \<and>
    claim_row (vd_keys E) V1 (message_of account (ve_message (snd x))) = Some r \<and>
    claim_row (vd_keys E) (vf_vault (await_verification E A run p c attempt V))
      (message_of account (ve_message (snd x))) = Some r' \<and>
    in_owner r' = run \<and> \<not> in_completed r' \<and>
    (r' = r\<lparr>in_expires := Some (va_released_at A - second)\<rparr> \<and> lease_over (va_released_at A) (in_expires r') \<or>
     \<not> returned (vf_step (await_verification E A run p c attempt V)) \<and> r' = r)"
proof -
  let ?R = "await_verification E A run p c attempt V"
  let ?V = "vault_run (vd_keys E) (va_before_claim A) V"
  obtain account q x where u: "vd_mailbox E = Some account" "selects E A p c q x"
    "?R = claim_verification E A run p c attempt account (vq_allowed q) x ?V"
    by (rule await_selects [OF disjI1 [OF assms(1)]])
  have s: "secret_used (claim_verification E A run p c attempt account (vq_allowed q) x ?V)"
    using assms(1) u(3) by simp
  let ?m = "message_of account (ve_message (snd x))"
  obtain V1 cl where k: "claim_message (vd_keys E) account (fst (va_claim A)) (snd (va_claim A))
      ?V (ve_message (snd x)) run = (V1, Inr cl)" "ic_status cl = Claim_Acquired"
    and R: "?R = use_verification E A run p c attempt account (vq_allowed q) x (fst (va_claim A)) V1"
    by (rule use_claims [OF disjI1 [OF s]]) (use s u(3) in \<open>auto simp: secret_used_def\<close>)
  obtain r where r: "claim_row (vd_keys E) V1 ?m = Some r" "in_owner r = run"
    "\<not> in_completed r" "in_token r = Some (fst (va_claim A))"
    using claim_message_acquired [OF k] by blast
  have row: "claim_row (vd_keys E) (vault_run (vd_keys E) (va_during A) W) ?m = Some r" if "va_ingest W = va_ingest V1" for W
    using r(1) unfolding claim_row_def run_keeps_claims [OF assms(3)] that .
  have "\<exists>r'. claim_row (vd_keys E) (vf_vault ?R) ?m = Some r' \<and>
      (r' = r\<lparr>in_expires := Some (va_released_at A - second)\<rparr> \<or> \<not> returned (vf_step ?R) \<and> r' = r)"
    using assms(1)[unfolded R]
  proof (cases rule: used_ends)
    case (raised W e)
    then show ?thesis using row [OF raised(1)] by (simp add: R)
  next
    case (concluded W)
    show ?thesis
      unfolding R
      by (rule conclude_fails [OF concluded(2) _ row [OF concluded(1)] r(2-4)])
        (use assms(2) in \<open>auto simp: R advanced_def\<close>)
  qed
  then obtain r' where r': "claim_row (vd_keys E) (vf_vault ?R) ?m = Some r'"
    "r' = r\<lparr>in_expires := Some (va_released_at A - second)\<rparr> \<or> \<not> returned (vf_step ?R) \<and> r' = r" by blast
  have "in_owner r' = run \<and> \<not> in_completed r' \<and>
    (r' = r\<lparr>in_expires := Some (va_released_at A - second)\<rparr> \<and> lease_over (va_released_at A) (in_expires r') \<or>
     \<not> returned (vf_step ?R) \<and> r' = r)"
    using r'(2) r(2,3) by (auto simp: lease_over_def second_def)
  then show ?thesis using u(1,2) k r(1) r'(1) by blast
qed

text \<open>A raise out of the session keeps the claim: nothing releases it before its lease ends.\<close>

lemma raise_keeps_claim:
  assumes "va_used A = Inl e" "list_all (\<lambda>k. \<not> touches_claims k) (va_during A)"
  shows "va_ingest (vf_vault (use_verification E A run p c attempt account (vr_allowed R) (url, v\<lparr>ve_kind := Secret_Link\<rparr>) t V)) =
    va_ingest V \<or> \<not> is_safe_verification_link (vd_mail E) url (vr_allowed R)"
  using assms by (auto simp: use_verification_def Let_def run_keeps_claims)

text \<open>Two runs waiting on one mailbox: while another run holds the claim in flight, the attempt advances
  although nobody verified anything for it.\<close>

lemma foreign_claim_advances:
  assumes "claim_row (vd_keys E) V (message_of account (ve_message (snd x))) = Some r" "in_owner r \<noteq> run"
    and "validate_ingestion_owner run = Inr ()"
  shows "advanced (claim_verification E A run p c attempt account allowed x V) \<and>
    \<not> secret_used (claim_verification E A run p c attempt account allowed x V)"
proof -
  obtain key where key: "gmail_ingestion_key (vd_keys E) (message_of account (ve_message (snd x))) = Inr key"
    "va_ingest V key = Some r"
    using assms(1) by (auto simp: claim_row_def split: sum.splits)
  have v: "validate_ingestion_input run verification_app_slug [] claim_lease_seconds = Inr ()"
    using assms(3) by (simp add: validate_ingestion_input_def verification_app_slug_def claim_lease_seconds_def
        app_slug_ok_def slug_char_def is_lower_alpha_def)
  have "claim_message (vd_keys E) account (fst (va_claim A)) (snd (va_claim A)) V (ve_message (snd x)) run =
      (V, Inr (bare_claim Claim_Completed))"
    unfolding claim_message_def by (rule foreign_claim_reads_completed [OF key assms(2) v])
  then show ?thesis
    by (simp add: claim_verification_def bare_claim_def advanced_def secret_used_def step_simps
        onboarding_reason_codes_def)
qed

section \<open>Reading the header of the sample message\<close>

lemma upto_ends_step: "upto_ends f n st = (if n = 0 then [st] else concat (map (upto_ends f (n - 1)) (f st)) @ [st])"
  by (cases n) simp_all

lemma search_found:
  "k < n \<Longrightarrow> \<forall>i<k. match_at r s (p + i) = None \<Longrightarrow> match_at r s (p + k) = Some m \<Longrightarrow> search_from r s p n = Some m"
proof (induction r s p n arbitrary: k rule: search_from.induct)
  case (2 r s p n)
  show ?case
  proof (cases k)
    case 0
    then show ?thesis using 2 by simp
  next
    case (Suc j)
    then show ?thesis using 2(1) [of j] 2(2-4)  by (auto split: option.splits) fastforce+
  qed
qed simp

lemma search_none:
  "\<forall>i<n. match_at r s (p + i) = None \<Longrightarrow> search_from r s p n = None"
proof (induction r s p n rule: search_from.induct)
  case (2 r s p n)
  have "match_at r s p = None" using 2(2) by (metis add.right_neutral zero_less_Suc)
  moreover have "\<forall>i<n. match_at r s (Suc p + i) = None" using 2(2) by (metis Suc_mono add_Suc_shift)
  ultimately show ?case using 2(1) by simp
qed simp

abbreviation (input) hdr :: string where
  "hdr \<equiv> ''mx.google.com;spf=pass smtp.mailfrom=acme.com''"


lemma finditer_one:
  assumes "search_from r s 0 (Suc (length s)) = Some m" "mt_start m < mt_end m"
    and "search_from r s (mt_end m) (Suc (length s - mt_end m)) = None"
  shows "rx_finditer r s = [m]"
proof -
  have "matches_from r s (mt_end m) n = []" for n using assms(3) by (cases n) simp_all
  then show ?thesis using assms(1,2) by (simp add: rx_finditer_def)
qed

lemmas match_simps = match_at_def lit_def lit_i_def spaces_def some_of_def upto_ends_step [of _ "numeral _"]
  lower_char_def is_upper_alpha_def is_space_def lower_alnum_def is_lower_alpha_def is_digit_def word_char_def

lemma mt_simps: "mt_start \<lparr>mt_start = a, mt_end = b, mt_groups = g\<rparr> = a" "mt_end \<lparr>mt_start = a, mt_end = b, mt_groups = g\<rparr> = b"
  "((13::nat) < 22) = True" "((10::nat) < 32) = True"
  by simp_all

lemma no_clause: "0 < i \<Longrightarrow> (i < length h \<Longrightarrow> h ! i \<noteq> CHR '';'') \<Longrightarrow> match_at auth_method_re h i = None"
  by (auto simp: match_at_def auth_method_re_def clause_start_def lit_def)

lemma no_clause0: "match_at auth_method_re hdr 0 = None"
  by (simp add: auth_method_re_def clause_start_def match_simps)

lemma clause13: "match_at auth_method_re hdr 13 = Some \<lparr>mt_start = 13, mt_end = 22, mt_groups = [(14,17),(18,22)]\<rparr>"
  by (simp add: auth_method_re_def clause_start_def match_simps)

lemma nth_no: "c \<notin> set (drop a (take b h)) \<Longrightarrow> a \<le> i \<Longrightarrow> i < b \<Longrightarrow> i < length h \<Longrightarrow> h ! i \<noteq> c"
proof -
  assume n: "c \<notin> set (drop a (take b h))" "a \<le> i" "i < b" "i < length h"
  then have "drop a (take b h) ! (i - a) = h ! i" "i - a < length (drop a (take b h))" by auto
  then show ?thesis using n(1) nth_mem by metis
qed

lemma hdr_clauses: "rx_finditer auth_method_re hdr = [\<lparr>mt_start = 13, mt_end = 22, mt_groups = [(14,17),(18,22)]\<rparr>]"
proof -
  have "match_at auth_method_re hdr (0 + i) = None" if "i < 13" for i
  proof (cases "i = 0")
    case False
    have "CHR '';'' \<notin> set (drop 0 (take 13 hdr))" by simp
    then show ?thesis using no_clause [of i hdr] False that nth_no [of "CHR '';''" 0 13 hdr i] by simp
  qed (simp add: no_clause0)
  then have f: "search_from auth_method_re hdr 0 (Suc (length hdr)) = Some \<lparr>mt_start = 13, mt_end = 22, mt_groups = [(14,17),(18,22)]\<rparr>"
    using clause13 by (intro search_found [of 13]) simp_all
  have "match_at auth_method_re hdr (22 + i) = None" for i
  proof -
    have "CHR '';'' \<notin> set (drop 22 (take 45 hdr))" by simp
    then have "22 + i < length hdr \<Longrightarrow> hdr ! (22 + i) \<noteq> CHR '';''"
      by (rule nth_no) simp_all
    then show ?thesis using no_clause [of "22 + i" hdr] by simp
  qed
  then have "search_from auth_method_re hdr 22 (Suc (length hdr - 22)) = None" by (intro search_none) blast
  then show ?thesis by (intro finditer_one [OF f]) (simp_all only: mt_simps)
qed

abbreviation (input) clause_text :: string where
  "clause_text \<equiv> '';spf=pass smtp.mailfrom=acme.com''"

lemma no_prop: "list_all (\<lambda>i. match_at auth_property_re clause_text i = None) [0,1,2,3,4,5,6,7,8,9,32]"
  by (simp add: auth_property_re_def match_simps)

lemma prop10: "match_at auth_property_re clause_text 10 = Some \<lparr>mt_start = 10, mt_end = 32, mt_groups = [(10,23),(24,32)]\<rparr>"
  by (simp add: auth_property_re_def match_simps)

lemma clause_props: "rx_finditer auth_property_re clause_text = [\<lparr>mt_start = 10, mt_end = 32, mt_groups = [(10,23),(24,32)]\<rparr>]"
proof -
  have "match_at auth_property_re clause_text (0 + i) = None" if "i < 10" for i
  proof -
    have "i \<in> set [0,1,2,3,4,5,6,7,8,9,32]" using that by auto
    then show ?thesis using no_prop unfolding list_all_iff add_0 by blast
  qed
  then have f: "search_from auth_property_re clause_text 0 (Suc (length clause_text)) = Some \<lparr>mt_start = 10, mt_end = 32, mt_groups = [(10,23),(24,32)]\<rparr>"
    using prop10 by (intro search_found [of 10]) simp_all
  have "search_from auth_property_re clause_text 32 (Suc (length clause_text - 32)) = None" using no_prop by (intro search_none) simp
  then show ?thesis by (intro finditer_one [OF f]) (simp_all only: mt_simps)
qed

lemma acme_domain: "authentication_domain (Some ''acme.com'') = Some ''acme.com''" by code_simp

lemma hdr_trusted: "trusted_authentication_results_header hdr" by code_simp

lemma acme_spf: "read_clauses hdr ''acme.com'' (False, False) (rx_finditer auth_method_re hdr) = Some (False, True)"
  unfolding hdr_clauses
  by (simp add: group_of_def slice_def lower_def lower_char_def is_upper_alpha_def clause_property_def clause_props
     aligned_with_def acme_domain strict_domain_alignment_def Let_def)

definition acme_mail :: mail_message where
  "acme_mail = \<lparr>mm_id = ''m2'', mm_sender = ''no@acme.com'', mm_recipients = [''d+x@b.io''],
     mm_received = Received_Int 1700000002000, mm_subject = ''verify'', mm_body = ''https://acme.com/w'',
     mm_auth = [hdr], mm_arc_auth = [], mm_arc_seals = []\<rparr>"

lemma acme_authenticated: "fst (sender_authentication_method acme_mail ''acme.com'') = Auth_Spf"
  by (simp add: sender_authentication_method_def acme_domain acme_mail_def hdr_trusted best_authenticated_method_def acme_spf Let_def)

lemma acme_own_patterns: "patterns (own_allowed acme_profile) = [''acme.com'', ''login.okta.com'', ''*.acme.com'']" by code_simp
lemma acme_link: "extract_verification_link bare_mail ''verify'' ''https://acme.com/w'' [''acme.com'', ''login.okta.com'', ''*.acme.com''] True = Some ''https://acme.com/w''" by code_simp

section \<open>Instances\<close>

definition acme_context :: verification_context where
  "acme_context = \<lparr>vx_mailbox = ''d+x@b.io'', vx_session = ''s1'', vx_issued_ms = 1700000000000, vx_consumed = []\<rparr>"

definition acme_deps :: verification_deps where
  "acme_deps = \<lparr>vd_mail = bare_mail, vd_keys = plain_keys, vd_lookup = (\<lambda>_. None), vd_mailbox = Some ''acc'',
     vd_budget = \<lparr>vb_base_delay = 5, vb_max_attempts = 3, vb_freshness = 3600\<rparr>\<rparr>"

definition acme_observation :: "observation_status \<Rightarrow> browser_observation" where
  "acme_observation st = \<lparr>bo_status = st, bo_url = ''https://acme.com/'', bo_title = ''t'', bo_app_id = None,
     bo_human = None, bo_instruction = None, bo_labels = [], bo_reason = None\<rparr>"

definition acme_answers :: "observation_status \<Rightarrow> verification_answers" where
  "acme_answers st = \<lparr>va_session = ''s1'', va_now = 1700000100000000, va_search_now_ms = 1700000100000,
     va_inbox = Inr [acme_mail], va_before_claim = [], va_claim = (token_a, 1700000100000000),
     va_drawn = (0, ''i1''), va_staged_at = 1700000100000000, va_used = Inr (), va_during = [],
     va_observed = Inr \<lparr>lo_observation = acme_observation st, lo_elements = [], lo_page_text = []\<rparr>,
     va_session_after = ''s1'', va_released_at = 1700000101000000, va_jitter = 1\<rparr>"

definition acme_query :: verification_query where
  "acme_query = \<lparr>vq_recipient = ''d+x@b.io'', vq_sender_domains = [''acme.com''], vq_purpose = Signup_Confirmation,
     vq_not_before = 1700000000000, vq_max_age = 3600,
     vq_allowed = [''acme.com'', ''login.okta.com'', ''*.acme.com''], vq_limit = 10\<rparr>"

lemma acme_senders: "verification_sender_domains acme_profile = [''acme.com'']"
  "verification_reviewed_senders acme_profile = [''acme.com'', ''*.acme.com'']"
  by code_simp+

lemma acme_queried: "verification_query (me_v6 bare_mail) (\<lambda>_. None) acme_profile acme_context (vd_budget acme_deps) = Inr acme_query"
  using acme_allowed acme_own_patterns
  by (simp add: verification_query_def make_query_def acme_context_def acme_deps_def acme_query_def bare_mail_def
      sample_parts acme_senders max_verification_candidates_def max_verification_age_seconds_def)

lemma acme_parts:
  "parse_received_at_ms bare_mail (mm_received acme_mail) = Some 1700000002000"
  "sender_domain_of bare_mail ''no@acme.com'' = ''acme.com''"
  "host_matches ''acme.com'' [''acme.com'', ''*.acme.com'']"
  "is_safe_verification_link bare_mail ''https://acme.com/w'' [''acme.com'', ''login.okta.com'', ''*.acme.com'']"
  "link_host bare_mail ''https://acme.com/w'' = ''acme.com''"
  "strip ''m2'' = ''m2''" "strip ''acme.com'' = ''acme.com''"
  by code_simp+

lemma acme_searched: "mailbox_search bare_mail acme_query 1700000100000 [acme_mail] = [acme_mail]"
proof -
  have "bind_recipient sample_identity [sample_identity] = Binding_Exact" by (simp add: bind_recipient_def)
  moreover have "mm_recipients acme_mail = [''d+x@b.io'']" by (simp add: acme_mail_def)
  ultimately show ?thesis
    by (simp add: mailbox_search_def acme_query_def sample_parts acme_parts(1) freshness_floor_ms_def Let_def)
qed

lemma acme_selected:
  "\<exists>d v. select_verification bare_mail [acme_mail]
      (selection_request acme_profile acme_context acme_query 1700000100000) = Inr d \<and>
     vd_resolved d = Some (''https://acme.com/w'', v) \<and> ve_kind v = Secret_Link \<and> ve_message v = ''m2''"
proof -
  let ?R = "selection_request acme_profile acme_context acme_query 1700000100000"
  have R: "?R = \<lparr>vr_purpose = Signup_Confirmation, vr_recipient = ''d+x@b.io'', vr_now = 1700000100000, vr_max_age = 3600,
      vr_allowed = [''acme.com'', ''login.okta.com'', ''*.acme.com''], vr_reviewed = [''acme.com'', ''*.acme.com''],
      vr_need_reviewed = True, vr_need_authenticated = True, vr_need_reviewed_link = True, vr_prefer_link = True,
      vr_consumed = [], vr_requested = Some 1700000000000, vr_skew = 300, vr_request_skew = 30\<rparr>"
    by (simp add: selection_request_def acme_query_def acme_context_def acme_senders)
  have ok: "selection_refusal ?R = None"
    by (simp add: R selection_refusal_def sample_parts max_verification_age_seconds_def)
  have o: "order_newest_first bare_mail [acme_mail] = [(Some 1700000002000, acme_mail)]"
    by (simp add: order_newest_first_def acme_parts)
  have "bind_recipient sample_identity [sample_identity] = Binding_Exact" by (simp add: bind_recipient_def)
  moreover have "fst (sender_authentication_method acme_mail ''acme.com'') \<noteq> Auth_None" by (simp add: acme_authenticated)
  moreover have "mm_recipients acme_mail = [''d+x@b.io'']" "mm_sender acme_mail = ''no@acme.com''" "mm_id acme_mail = ''m2''"
    "mm_subject acme_mail = ''verify''" "mm_body acme_mail = ''https://acme.com/w''"
    by (simp_all add: acme_mail_def)
  ultimately obtain v where "screen_message bare_mail ?R sample_identity (Some 1700000002000, acme_mail) =
      Inr (Accepted (''https://acme.com/w'', v))" "ve_kind v = Secret_Link" "ve_message v = ''m2''"
    by (simp add: R screen_message_def screen_bindings_def extract_secret_def link_secret_def make_evidence_def clip_def
        Let_def sample_parts acme_parts acme_link)
  moreover have "the (canonical_address (vr_recipient ?R)) = sample_identity" by (simp add: R sample_parts)
  ultimately show ?thesis using ok o by (simp add: select_verification_def)
qed

definition acme_claimed :: "vault \<times> ingestion_claim result" where
  "acme_claimed = claim_message plain_keys ''acc'' token_a 1700000100000000 empty_vault ''m2'' ''run_1''"

lemma acme_claim: "snd acme_claimed = Inr \<lparr>ic_status = Claim_Acquired, ic_token = Some token_a, ic_refs = []\<rparr>"
  unfolding acme_claimed_def by code_simp

lemma acme_claim': "claim_message plain_keys ''acc'' token_a 1700000100000000 empty_vault ''m2'' ''run_1'' =
    (fst acme_claimed, Inr \<lparr>ic_status = Claim_Acquired, ic_token = Some token_a, ic_refs = []\<rparr>)"
  using acme_claim unfolding acme_claimed_def by (metis prod.collapse)

lemma acme_attempt:
  "await_verification acme_deps (acme_answers st) ''run_1'' acme_profile acme_context 0 empty_vault =
     verification_end (Some ''https://acme.com/w'') None
       (conclude_verification acme_deps (acme_answers st) ''run_1'' acme_profile acme_context 0 ''acc'' ''m2'' token_a (fst acme_claimed))"
proof -
  obtain d v where d: "select_verification bare_mail [acme_mail]
      (selection_request acme_profile acme_context acme_query 1700000100000) = Inr d"
    "vd_resolved d = Some (''https://acme.com/w'', v)" "ve_kind v = Secret_Link" "ve_message v = ''m2''"
    using acme_selected by blast
  have q: "verification_query (me_v6 bare_mail) (\<lambda>_. None) acme_profile acme_context
      \<lparr>vb_base_delay = 5, vb_max_attempts = 3, vb_freshness = 3600\<rparr> = Inr acme_query"
    using acme_queried by (simp add: acme_deps_def)
  have a: "vq_allowed acme_query = [''acme.com'', ''login.okta.com'', ''*.acme.com'']" "vx_session acme_context = ''s1''"
    by (simp_all add: acme_query_def acme_context_def)
  show ?thesis
    by (simp add: await_verification_def claim_verification_def use_verification_def acme_deps_def acme_answers_def
        q acme_searched d acme_claim' a acme_parts Let_def)
qed

lemma acme_concludes:
  "\<exists>V. conclude_verification acme_deps (acme_answers Obs_Console_Ready) ''run_1'' acme_profile acme_context 0 ''acc'' ''m2''
      token_a (fst acme_claimed) = (V, advance_to authenticated ''verification_email_found'' None)"
  "\<exists>V. conclude_verification acme_deps (acme_answers Obs_Navigating) ''run_1'' acme_profile acme_context 0 ''acc'' ''m2''
      token_a (fst acme_claimed) = (V, verification_deferral (vd_budget acme_deps) 0 1700000100000000 1 ''verification_unresolved'')"
proof -
  have "snd (settle_message plain_keys ''acc'' (fst acme_claimed) ''m2'' ''run_1'' token_a) = Inr ()"
    "snd (release_message plain_keys ''acc'' 1700000101000000 (fst acme_claimed) ''m2'' ''run_1'' token_a) = Inr ()"
    unfolding acme_claimed_def by code_simp+
  moreover have "verification_accepted acme_profile (acme_observation Obs_Console_Ready) = Inr True"
    "verification_accepted acme_profile (acme_observation Obs_Navigating) = Inr False"
    by code_simp+
  ultimately show
    "\<exists>V. conclude_verification acme_deps (acme_answers Obs_Console_Ready) ''run_1'' acme_profile acme_context 0 ''acc'' ''m2''
      token_a (fst acme_claimed) = (V, advance_to authenticated ''verification_email_found'' None)"
    "\<exists>V. conclude_verification acme_deps (acme_answers Obs_Navigating) ''run_1'' acme_profile acme_context 0 ''acc'' ''m2''
      token_a (fst acme_claimed) = (V, verification_deferral (vd_budget acme_deps) 0 1700000100000000 1 ''verification_unresolved'')"
    by (auto simp: conclude_verification_def acme_deps_def acme_answers_def acme_context_def split: prod.splits)
qed

lemma verification_secret_used_under_claim_witness:
  "\<exists>V1 cl. vf_opened (await_verification acme_deps (acme_answers Obs_Navigating) ''run_1'' acme_profile acme_context 0
       empty_vault) = Some ''https://acme.com/w'' \<and> ic_status cl = Claim_Acquired \<and>
     claim_message plain_keys ''acc'' token_a 1700000100000000 empty_vault ''m2'' ''run_1'' = (V1, Inr cl) \<and>
     run_message acme_deps acme_profile acme_context acme_mail"
proof -
  have o: "vf_opened (await_verification acme_deps (acme_answers Obs_Navigating) ''run_1'' acme_profile acme_context 0
       empty_vault) = Some ''https://acme.com/w''"
    using acme_attempt [of Obs_Navigating] by auto
  then have "secret_used (await_verification acme_deps (acme_answers Obs_Navigating) ''run_1'' acme_profile acme_context 0
       empty_vault)"
    by (simp add: secret_used_def)
  from verification_secret_used_under_claim [OF this]
  have "run_message acme_deps acme_profile acme_context acme_mail" by (auto simp: acme_answers_def)
  then show ?thesis using o acme_claim' by auto
qed

lemma verification_advance_means_witness:
  "\<exists>q x r. selects acme_deps (acme_answers Obs_Console_Ready) acme_profile acme_context q x \<and>
     fst x = ''https://acme.com/w'' \<and> in_owner r = ''run_1'' \<and> in_completed r \<and>
     claim_row plain_keys (vf_vault (await_verification acme_deps (acme_answers Obs_Console_Ready) ''run_1'' acme_profile
       acme_context 0 empty_vault)) (message_of ''acc'' (ve_message (snd x))) = Some r"
proof -
  let ?R = "await_verification acme_deps (acme_answers Obs_Console_Ready) ''run_1'' acme_profile acme_context 0 empty_vault"
  have "advanced ?R"
    using acme_attempt [of Obs_Console_Ready] acme_concludes(1)
    by (auto simp: advanced_def step_simps onboarding_reason_codes_def)
  moreover have o: "vf_opened ?R = Some ''https://acme.com/w''"
    using acme_attempt [of Obs_Console_Ready] by auto
  moreover have "secret_used ?R" using o by (simp add: secret_used_def)
  moreover have "vd_mailbox acme_deps = Some ''acc''" "vd_keys acme_deps = plain_keys" by (simp_all add: acme_deps_def)
  ultimately show ?thesis
    using verification_advance_means [of acme_deps "acme_answers Obs_Console_Ready" "''run_1''" acme_profile acme_context 0 empty_vault]
    by (fastforce split: if_splits)
qed

lemma verification_failure_releases_claim_witness:
  "\<exists>i r. claim_row plain_keys (vf_vault (await_verification acme_deps (acme_answers Obs_Navigating) ''run_1'' acme_profile
       acme_context 0 empty_vault)) i = Some r \<and> in_owner r = ''run_1'' \<and> \<not> in_completed r \<and>
     lease_over 1700000101000000 (in_expires r)"
proof -
  let ?R = "await_verification acme_deps (acme_answers Obs_Navigating) ''run_1'' acme_profile acme_context 0 empty_vault"
  have used: "secret_used ?R" using acme_attempt [of Obs_Navigating] by (auto simp: secret_used_def)
  obtain st where st: "vf_step ?R = Inr st" "st_kind st \<noteq> Advance"
  proof -
    have s: "vf_step ?R = verification_deferral (vd_budget acme_deps) 0 1700000100000000 1 ''verification_unresolved''"
      using acme_attempt [of Obs_Navigating] acme_concludes(2) by auto
    have "returned (verification_deferral (vd_budget acme_deps) 0 1700000100000000 1 ''verification_unresolved'')"
      by (simp add: verification_deferral_def verification_backoff_seconds_def jitter_min_def jitter_max_def
          attempt_check_def step_simps onboarding_reason_codes_def)
    then show thesis using that s deferral_kind by (auto simp: result_simps)
  qed
  have keeps: "list_all (\<lambda>k. \<not> touches_claims k) (va_during (acme_answers Obs_Navigating))"
    and at: "va_released_at (acme_answers Obs_Navigating) = 1700000101000000" "vd_keys acme_deps = plain_keys"
    by (simp_all add: acme_answers_def acme_deps_def)
  have "\<not> advanced ?R" "returned (vf_step ?R)" using st by (simp_all add: advanced_def)
  with verification_failure_releases_claim [OF used _ keeps] show ?thesis
    unfolding at by metis
qed

end
