(* ===== verification/Candidate_Laws.thy ===== *)
theory Candidate_Laws
  imports Action_Risk
begin

text \<open>
  What the offers of a page and the risk verdict on them guarantee: the policy bounds every offer, no kind of
  action is starved, the element of an offer is found again or refused, and nothing
  irreversible runs unreviewed.
\<close>

section \<open>Seating\<close>

lemma seat_round_props:
  assumes "length qs = length ns"
  shows "length (fst (seat_round ns qs left)) = length qs \<and>
     list_all2 (\<le>) qs (fst (seat_round ns qs left)) \<and>
     sum_list (fst (seat_round ns qs left)) + snd (seat_round ns qs left) = sum_list qs + left"
  using assms
proof (induction ns qs left rule: seat_round.induct)
  case (1 n ns q qs left)
  then show ?case by (auto simp: split_beta Let_def)
qed (auto simp: list_all2_refl)

lemma list_all2_le_trans: "list_all2 (\<le>) xs ys \<Longrightarrow> list_all2 (\<le>) ys zs \<Longrightarrow> list_all2 (\<le>) xs (zs :: nat list)"
  by (rule list_all2_trans [of "(\<le>)" "(\<le>)" "(\<le>)"]) auto

declare seat.simps [simp del]

lemma seat_props:
  "length qs = length ns \<Longrightarrow> length (seat ns qs left) = length ns \<and> list_all2 (\<le>) qs (seat ns qs left) \<and>
     sum_list (seat ns qs left) \<le> sum_list qs + left"
proof (induction ns qs left rule: seat.induct)
  case (1 ns qs left)
  note r = seat_round_props [OF 1(2), of left]
  show ?case
  proof (cases "snd (seat_round ns qs left) < left")
    case True
    then show ?thesis
      using 1(1) [OF refl True] r 1(2) list_all2_le_trans [of qs "fst (seat_round ns qs left)"]
      by (subst (1 2 3) seat.simps) (auto simp: Let_def)
  next
    case False
    then show ?thesis
      using r 1(2) by (subst (1 2 3) seat.simps) (auto simp: Let_def)
  qed
qed

lemma seat_round_first:
  "length ns \<le> left \<Longrightarrow> fst (seat_round ns (replicate (length ns) 0) left) = map (\<lambda>n. if 0 < n then 1 else 0) ns"
  by (induction ns arbitrary: left) (auto simp: split_beta Let_def)

lemma seat_every:
  assumes "length ns \<le> left" "k < length ns" "0 < ns ! k"
  shows "0 < seat ns (replicate (length ns) 0) left ! k"
proof -
  let ?q = "replicate (length ns) 0"
  let ?r = "seat_round ns ?q left"
  have first: "fst ?r ! k = 1"
    using assms by (simp add: seat_round_first)
  show ?thesis
  proof (cases "snd ?r < left")
    case True
    have "list_all2 (\<le>) (fst ?r) (seat ns (fst ?r) (snd ?r))"
      using seat_props [of "fst ?r" ns "snd ?r"] seat_round_props [of ?q ns left] by simp
    then have "fst ?r ! k \<le> seat ns (fst ?r) (snd ?r) ! k"
      using assms(2) seat_round_props [of ?q ns left] by (simp add: list_all2_conv_all_nth)
    then show ?thesis
      using True first by (subst seat.simps) (simp add: Let_def)
  next
    case False
    then show ?thesis
      using first by (subst seat.simps) (simp add: Let_def)
  qed
qed

lemma length_concat_take: "length (concat (map (\<lambda>(g, q). take q g) (zip gs qs))) \<le> sum_list qs"
proof (induction gs arbitrary: qs)
  case (Cons g gs)
  show ?case
  proof (cases qs)
    case (Cons q rest)
    then show ?thesis using Cons.IH [of rest] by (simp add: add_mono)
  qed simp
qed simp

lemma allocate_length: "length (allocate gs budget) \<le> budget"
  using length_concat_take [of gs "seat (map length gs) (replicate (length gs) 0) budget"]
    seat_props [of "replicate (length gs) 0" "map length gs" budget]
  by (simp add: allocate_def sum_list_replicate)

lemma allocate_subset: "set (allocate gs budget) \<subseteq> (\<Union>g\<in>set gs. set g)"
  by (auto simp: allocate_def dest!: in_set_takeD set_zip_leftD)

lemma allocate_first:
  assumes "length gs \<le> budget" "g \<in> set gs" "g \<noteq> []"
  shows "hd g \<in> set (allocate gs budget)"
proof -
  obtain k where k: "k < length gs" "gs ! k = g"
    using assms(2) by (auto simp: in_set_conv_nth)
  let ?q = "seat (map length gs) (replicate (length gs) 0) budget"
  have q: "0 < ?q ! k" "length ?q = length gs"
    using seat_every [of "map length gs" budget k] seat_props [of "replicate (length gs) 0" "map length gs" budget] assms k
    by simp_all
  have "(g, ?q ! k) \<in> set (zip gs ?q)"
    using k q by (auto simp: in_set_zip)
  moreover have "hd g \<in> set (take (?q ! k) g)"
    using q(1) assms(3) by (cases g; cases "?q ! k") auto
  ultimately show ?thesis
    by (force simp: allocate_def)
qed

lemma interleave_subset: "set (interleave gs limit) \<subseteq> (\<Union>g\<in>set gs. set g)"
  by (force simp: interleave_def dest!: in_set_takeD dest: nth_mem split: if_splits)

lemma interleave_first:
  assumes "g \<in> set gs" "g \<noteq> []" "0 < limit"
  shows "interleave gs limit \<noteq> []"
proof -
  have "length g \<le> foldr max (map length gs) 0"
    using assms(1) by (induction gs) auto
  then have "0 < foldr max (map length gs) 0"
    using assms(2) by (meson length_greater_0_conv less_le_trans)
  moreover have "concat (map (\<lambda>g. if 0 < length g then [g ! 0] else []) gs) \<noteq> []"
    using assms(1,2) by auto
  ultimately show ?thesis
    using assms(3) by (auto simp: interleave_def upt_rec [of 0])
qed

section \<open>The policy of an offer\<close>

definition offer_ok :: "checkpoint \<Rightarrow> snapshot_element list \<Rightarrow> action_candidate \<Rightarrow> bool" where
  "offer_ok ck es c \<longleftrightarrow>
     (if ac_action c = Do_Goto
      then ac_identity c = None \<and> ac_url c \<in> Some ` set (ck_goto_urls ck)
      else \<exists>e\<in>set es. actionable e \<and> ac_identity c = Some (identity_of e) \<and> ac_url c = None \<and>
        (case ac_action c of
           Do_Click \<Rightarrow> ac_value_ref c = None \<and>
             (ac_risk c = Risk_Requires_Hitl \<longleftrightarrow> classify_irreversible (se_name e) (se_role e) \<noteq> None)
         | Do_Fill \<Rightarrow> \<not> se_secretish e \<and>
             ac_value_ref c \<in> Some ` (set (ck_value_refs ck) \<inter> set approved_value_refs)
         | Do_Select_Option \<Rightarrow> ac_value_ref c \<in> Some ` (set (ck_value_refs ck) \<inter> set approved_value_refs)
         | Do_Check \<Rightarrow> \<not> se_secretish e \<and> classify_irreversible (se_name e) (se_role e) = None
         | Do_Uncheck \<Rightarrow> \<not> se_secretish e \<and> classify_irreversible (se_name e) (se_role e) = None
         | Do_Press \<Rightarrow> \<not> se_secretish e \<and> ac_press_key c = Some ''Enter''
         | _ \<Rightarrow> False))"

lemmas offer_defs = element_offer_def offer_def

lemma click_ok:
  assumes "c \<in> set (click_offers sha ck es)"
  shows "offer_ok ck es c"
proof -
  obtain e where "e \<in> set es" "actionable e" "c = click_offer sha ck e"
    using assms unfolding click_offers_def Let_def by (auto dest!: in_set_takeD) blast+
  then show ?thesis
    by (cases "classify_irreversible (se_name e) (se_role e)")
      (auto simp: click_offer_def offer_defs offer_ok_def Let_def intro!: bexI [of _ e])
qed

lemma usable_refs_ok: "r \<in> set (usable_refs ck) \<Longrightarrow> r \<in> set (ck_value_refs ck) \<and> r \<in> set approved_value_refs"
  by (auto simp: usable_refs_def dest!: in_set_takeD)

lemma by_need_set [simp]: "set (by_need es) = set es"
  by (auto simp: by_need_def)

lemma value_group_mem:
  "g \<in> set (value_groups P mk ck es) \<Longrightarrow> c \<in> set g \<Longrightarrow>
     \<exists>e\<in>set es. \<exists>r\<in>set (usable_refs ck). P e \<and> c = mk r e"
  by (auto simp: value_groups_def dest!: in_set_takeD) blast

lemma fill_ok: "c \<in> set (fill_offers sha ck es) \<Longrightarrow> offer_ok ck es c"
  using interleave_subset [of _ max_value_candidates]
  by (fastforce simp: fill_offers_def offer_ok_def offer_defs dest!: value_group_mem usable_refs_ok)

lemma select_ok: "c \<in> set (select_offers sha ck es) \<Longrightarrow> offer_ok ck es c"
  using interleave_subset [of _ max_value_candidates]
  by (fastforce simp: select_offers_def offer_ok_def offer_defs dest!: value_group_mem usable_refs_ok)

lemma toggle_ok:
  assumes "c \<in> set (toggle_offers sha ck es)"
  shows "offer_ok ck es c"
proof -
  obtain e where "e \<in> set es" "actionable e" "\<not> se_secretish e" "classify_irreversible (se_name e) (se_role e) = None"
    "c = toggle_offer sha ck e"
    using assms by (auto simp: toggle_offers_def dest!: in_set_takeD)
  then show ?thesis
    by (cases "se_checked e = Some True") (auto simp: toggle_offer_def offer_defs offer_ok_def Let_def)
qed

lemma press_ok: "c \<in> set (press_offers sha ck es) \<Longrightarrow> offer_ok ck es c"
  by (auto simp: press_offers_def offer_defs offer_ok_def dest!: in_set_takeD) blast+

lemma goto_ok:
  "goto_offers v6 sha ck urls = Inr cs \<Longrightarrow> set urls \<subseteq> set (ck_goto_urls ck) \<Longrightarrow> c \<in> set cs \<Longrightarrow> offer_ok ck es c"
  by (induction urls arbitrary: cs) (auto simp: bindR_Inr_iff goto_offer_def offer_def offer_ok_def)

lemma generate_Inr:
  assumes "generate_candidates v6 sha ck es = Inr cs"
  obtains gotos where "goto_offers v6 sha ck (take (ck_max ck) (ck_goto_urls ck)) = Inr gotos"
    "cs = allocate [click_offers sha ck es, fill_offers sha ck es, select_offers sha ck es,
                    toggle_offers sha ck es, gotos, press_offers sha ck es] (ck_max ck)"
  using assms by (auto simp: generate_candidates_def bindR_Inr_iff)

text \<open>C24. The model only ever chooses among what policy allows. A page is offered at most the candidates the goal asks
  for, and each of them navigates to a reviewed address, or acts on an element of the page that is visible and
  enabled: a click on a control named for an irreversible intent is marked for a human, a text or option is one of the
  approved references the phase allows, never model text, and nothing is typed, toggled or submitted
  in a field that looks like a credential.\<close>

theorem offers_within_policy:
  "generate_candidates v6 sha ck es = Inr cs \<Longrightarrow> length cs \<le> ck_max ck \<and> (\<forall>c\<in>set cs. offer_ok ck es c)"
proof -
  assume "generate_candidates v6 sha ck es = Inr cs"
  then obtain gotos where g: "goto_offers v6 sha ck (take (ck_max ck) (ck_goto_urls ck)) = Inr gotos"
    and cs: "cs = allocate [click_offers sha ck es, fill_offers sha ck es, select_offers sha ck es,
                    toggle_offers sha ck es, gotos, press_offers sha ck es] (ck_max ck)"
    by (rule generate_Inr)
  have "offer_ok ck es c" if "c \<in> set gotos" for c
    by (rule goto_ok [OF g set_take_subset that])
  then show ?thesis
    using allocate_subset [of "[click_offers sha ck es, fill_offers sha ck es, select_offers sha ck es,
                    toggle_offers sha ck es, gotos, press_offers sha ck es]" "ck_max ck"]
    unfolding cs by (auto simp: allocate_length dest!: click_ok fill_ok select_ok toggle_ok press_ok)
qed

lemma usable_refs_some: "set (ck_value_refs ck) \<inter> set approved_value_refs \<noteq> {} \<Longrightarrow> usable_refs ck \<noteq> []"
  by (auto simp: usable_refs_def max_value_refs_per_element_def filter_empty_conv)

lemma max_value_candidates_pos: "0 < max_value_candidates"
  by (simp add: max_value_candidates_def)

lemma value_groups_some:
  assumes "e \<in> set es" "P e" "usable_refs ck \<noteq> []"
  shows "\<exists>g\<in>set (value_groups P mk ck es). g \<noteq> []"
proof -
  let ?gs = "filter (\<lambda>g. g \<noteq> []) (map (\<lambda>e. map (\<lambda>r. mk r e) (usable_refs ck)) (filter P (by_need es)))"
  have "map (\<lambda>r. mk r e) (usable_refs ck) \<in> set ?gs"
    using assms by auto
  then obtain g rest where "?gs = g # rest" by (cases ?gs) auto
  moreover have "g \<noteq> []"
    using calculation by (metis (mono_tags, lifting) filter_eq_ConsD)
  ultimately show ?thesis
    by (auto simp: value_groups_def max_value_candidates_def)
qed

lemma fill_offers_some:
  assumes "e \<in> set es" "se_type e \<in> {''text'', ''email'', ''search'', ''url'', ''tel''}" "\<not> se_secretish e" "actionable e"
    and "set (ck_value_refs ck) \<inter> set approved_value_refs \<noteq> {}"
  shows "fill_offers sha ck es \<noteq> []"
proof -
  let ?P = "\<lambda>e. se_type e \<in> {''text'', ''email'', ''search'', ''url'', ''tel''} \<and> \<not> se_secretish e \<and> actionable e"
  from value_groups_some [of e es ?P ck] assms usable_refs_some [OF assms(5)] show ?thesis
    unfolding fill_offers_def by (meson interleave_first max_value_candidates_pos)
qed

lemma kind_of_offers:
  "c \<in> set (fill_offers sha ck es) \<Longrightarrow> ac_action c = Do_Fill"
  "c \<in> set (press_offers sha ck es) \<Longrightarrow> ac_action c = Do_Press"
  "c \<in> set (toggle_offers sha ck es) \<Longrightarrow> ac_action c \<in> {Do_Check, Do_Uncheck}"
  using interleave_subset [of _ max_value_candidates]
  by (fastforce simp: fill_offers_def offer_defs dest!: value_group_mem)
    (auto simp: press_offers_def toggle_offers_def toggle_offer_def offer_defs Let_def dest!: in_set_takeD)

lemma kind_of_gotos: "goto_offers v6 sha ck urls = Inr cs \<Longrightarrow> c \<in> set cs \<Longrightarrow> ac_action c = Do_Goto"
  by (induction urls arbitrary: cs) (auto simp: bindR_Inr_iff goto_offer_def offer_def)

lemma length_gotos: "goto_offers v6 sha ck urls = Inr cs \<Longrightarrow> length cs = length urls"
  by (induction urls arbitrary: cs) (auto simp: bindR_Inr_iff)

lemma head_of_kind:
  assumes "cs = allocate gs budget" "length gs \<le> budget" "g \<in> set gs" "g \<noteq> []" "\<And>c. c \<in> set g \<Longrightarrow> P c"
  shows "\<exists>c\<in>set cs. P c"
  using allocate_first [OF assms(2-4)] assms(1,4,5) by (metis hd_in_set)

text \<open>No kind of action is starved: with the six kinds within the budget, a page with an input to fill, a box to
  toggle, a field to submit or a reviewed address is offered at least one action of each kind it
  affords, however many offers the other kinds have.\<close>

theorem offers_seat_every_kind:
  "generate_candidates v6 sha ck es = Inr cs \<and> 6 \<le> ck_max ck \<longrightarrow>
     ((\<exists>e\<in>set es. se_type e \<in> {''text'', ''email'', ''search'', ''url'', ''tel''} \<and> \<not> se_secretish e \<and> actionable e) \<and>
        set (ck_value_refs ck) \<inter> set approved_value_refs \<noteq> {} \<longrightarrow> (\<exists>c\<in>set cs. ac_action c = Do_Fill)) \<and>
     ((\<exists>e\<in>set es. se_type e \<in> {''text'', ''email'', ''search''} \<and> \<not> se_secretish e \<and> actionable e) \<longrightarrow>
        (\<exists>c\<in>set cs. ac_action c = Do_Press)) \<and>
     ((\<exists>e\<in>set es. lower (se_type e) \<in> {''checkbox'', ''radio''} \<and> actionable e \<and> \<not> se_secretish e \<and>
          classify_irreversible (se_name e) (se_role e) = None) \<longrightarrow>
        (\<exists>c\<in>set cs. ac_action c \<in> {Do_Check, Do_Uncheck})) \<and>
     (ck_goto_urls ck \<noteq> [] \<longrightarrow> (\<exists>c\<in>set cs. ac_action c = Do_Goto))"
proof (intro impI conjI; elim conjE)
  assume g: "generate_candidates v6 sha ck es = Inr cs" and six: "6 \<le> ck_max ck"
  let ?gs = "\<lambda>gotos. [click_offers sha ck es, fill_offers sha ck es, select_offers sha ck es,
      toggle_offers sha ck es, gotos, press_offers sha ck es]"
  obtain gotos where gotos: "goto_offers v6 sha ck (take (ck_max ck) (ck_goto_urls ck)) = Inr gotos"
    and cs: "cs = allocate (?gs gotos) (ck_max ck)"
    using g by (rule generate_Inr)
  have len: "length (?gs gotos) \<le> ck_max ck" using six by simp
  note seated = head_of_kind [OF cs len]
  {
    assume "\<exists>e\<in>set es. se_type e \<in> {''text'', ''email'', ''search'', ''url'', ''tel''} \<and> \<not> se_secretish e \<and> actionable e"
      "set (ck_value_refs ck) \<inter> set approved_value_refs \<noteq> {}"
    then have some: "fill_offers sha ck es \<noteq> []"
      by (elim bexE conjE) (rule fill_offers_some)
    show "\<exists>c\<in>set cs. ac_action c = Do_Fill"
      by (rule seated [of "fill_offers sha ck es"]) (use some in \<open>simp_all add: kind_of_offers(1)\<close>)
  next
    assume "\<exists>e\<in>set es. se_type e \<in> {''text'', ''email'', ''search''} \<and> \<not> se_secretish e \<and> actionable e"
    then have some: "press_offers sha ck es \<noteq> []"
      by (auto simp: press_offers_def max_per_action_kind_def filter_empty_conv)
    show "\<exists>c\<in>set cs. ac_action c = Do_Press"
      by (rule seated [of "press_offers sha ck es"]) (use some in \<open>simp_all add: kind_of_offers(2)\<close>)
  next
    assume "\<exists>e\<in>set es. lower (se_type e) \<in> {''checkbox'', ''radio''} \<and> actionable e \<and> \<not> se_secretish e \<and>
          classify_irreversible (se_name e) (se_role e) = None"
    then have some: "toggle_offers sha ck es \<noteq> []"
      by (auto simp: toggle_offers_def max_per_action_kind_def filter_empty_conv)
    show "\<exists>c\<in>set cs. ac_action c \<in> {Do_Check, Do_Uncheck}"
      by (rule seated [of "toggle_offers sha ck es"]) (use some kind_of_offers(3) in simp_all)
  next
    assume "ck_goto_urls ck \<noteq> []"
    then have some: "gotos \<noteq> []"
      using length_gotos [OF gotos] six by (auto simp: min_def split: if_splits)
    show "\<exists>c\<in>set cs. ac_action c = Do_Goto"
      by (rule seated [of gotos]) (use some in \<open>simp_all add: kind_of_gotos [OF gotos]\<close>)
  }
qed

section \<open>Finding an element again\<close>

lemma first_tier_hit:
  "e \<in> set hits \<Longrightarrow> first_tier (hits # tiers) = (if length hits = 1 then Resolved e else Ambiguous)"
  by (cases hits rule: remdups_adj.cases) auto

lemma tier_test_id_of:
  "tier_test_id (identity_of e) es =
     (if truthy (se_test_id e) then filter (\<lambda>x. se_test_id x = se_test_id e) es else [])"
  by (auto simp: tier_test_id_def identity_of_def intro!: filter_cong)

text \<open>An element is found again exactly: the identity taken of an element resolves, in the snapshot it came from, to that
  element when no other shares its test identifier, or without one its role, name, type and frame, and to nothing
  otherwise; a second match is never guessed between.\<close>

theorem identity_resolution_exact:
  assumes "e \<in> set es"
  shows "resolve_identity (identity_of e) es =
    (if length (filter (if truthy (se_test_id e) then (\<lambda>x. se_test_id x = se_test_id e)
                        else identity_matches (identity_of e)) es) = 1
     then Resolved e else Ambiguous)"
proof (cases "truthy (se_test_id e)")
  case True
  then show ?thesis
    using first_tier_hit [of e "filter (\<lambda>x. se_test_id x = se_test_id e) es"] assms
    by (simp add: resolve_identity_def tier_test_id_of del: first_tier.simps)
next
  case False
  have "e \<in> set (filter (identity_matches (identity_of e)) es)"
    using assms by (simp add: identity_matches_def identity_of_def)
  from first_tier_hit [OF this] show ?thesis
    using False by (simp add: resolve_identity_def tier_test_id_of first_tier.simps(2) [of "[]"] tier_frame_role_name_def
        del: first_tier.simps)
qed

section \<open>Irreversible intents\<close>

text \<open>C25. Nothing irreversible runs without review: an action that changes anything is only autonomous when neither
  the generator nor a verb of its label calls for a human, or when the verb creates or saves a credential, the
  run's policy is to create a missing one, and the control was reviewed by name; and a
  credential field is otherwise never acted on.\<close>

theorem irreversible_needs_review:
  "rd_autonomous (classify_action c az e) \<and> ac_action c \<notin> read_only_actions \<longrightarrow>
     ac_risk c \<noteq> Risk_Requires_Hitl \<and>
     (case verb_family (control_label c e) of
        Some family \<Rightarrow> family \<in> {''creation'', ''persist''} \<and> az_create az \<and> reviewed_control c az e
      | None \<Rightarrow> (\<forall>x. e = Some x \<longrightarrow> \<not> se_secretish x) \<and>
          (ac_action c \<in> value_actions \<longrightarrow> (\<forall>r. ac_value_ref c = Some r \<longrightarrow> r \<in> set (az_value_refs az))) \<and>
          (ac_action c \<in> {Do_Click, Do_Press} \<longrightarrow>
             az_requires_hitl az \<longrightarrow> (\<exists>x. e = Some x \<and> lower (se_role x) \<in> read_only_roles)))"
  by (auto simp: classify_action_def classify_structure_def verdict_def value_actions_def
      split: option.splits if_splits)


section \<open>Instances\<close>

definition plain_element :: snapshot_element where
  "plain_element = \<lparr>se_index = 0, se_role = ''input'', se_name = ''Company name'', se_type = ''text'',
     se_has_value = False, se_secretish = False, se_visible = True, se_enabled = True, se_checked = None,
     se_selected = None, se_expanded = None, se_frame = [], se_href_path = None, se_test_id = None,
     se_heading = None, se_selected_label = None\<rparr>"

definition sample_page :: "snapshot_element list" where
  "sample_page = [plain_element,
     plain_element\<lparr>se_index := 1, se_role := ''button'', se_name := ''Create API key'', se_type := []\<rparr>,
     plain_element\<lparr>se_index := 2, se_role := ''button'', se_name := ''Delete account'', se_type := []\<rparr>,
     plain_element\<lparr>se_index := 3, se_name := ''News'', se_type := ''checkbox''\<rparr>]"

definition sample_checkpoint :: checkpoint where
  "sample_checkpoint = \<lparr>ck_signals = [], ck_order = 0, ck_trace = ''phase:developer_app'',
     ck_expected = ''developer_app_present'', ck_goto_urls = [''https://app.acme.com/keys''],
     ck_value_refs = [''company_name''], ck_max = 8\<rparr>"

definition sample_offers :: "action_candidate list" where
  "sample_offers = (case generate_candidates (\<lambda>_. False) rev sample_checkpoint sample_page of
     Inr cs \<Rightarrow> cs | Inl _ \<Rightarrow> [])"

lemma sample_generated: "generate_candidates (\<lambda>_. False) rev sample_checkpoint sample_page = Inr sample_offers"
proof -
  have "returned (generate_candidates (\<lambda>_. False) rev sample_checkpoint sample_page)" by code_simp
  then show ?thesis by (auto simp: sample_offers_def returned_iff)
qed

lemma offers_within_policy_witness: "list_all (offer_ok sample_checkpoint sample_page) sample_offers"
  using offers_within_policy [OF sample_generated] by (simp add: list_all_iff)

lemma offers_seat_every_kind_witness:
  "(\<exists>c\<in>set sample_offers. ac_action c = Do_Fill) \<and> (\<exists>c\<in>set sample_offers. ac_action c = Do_Goto)"
proof -
  have "6 \<le> ck_max sample_checkpoint" "ck_goto_urls sample_checkpoint \<noteq> []"
    "set (ck_value_refs sample_checkpoint) \<inter> set approved_value_refs \<noteq> {}"
    by (simp_all add: sample_checkpoint_def approved_value_refs_def company_value_refs_def)
  moreover have "\<exists>e\<in>set sample_page. se_type e \<in> {''text'', ''email'', ''search'', ''url'', ''tel''} \<and>
      \<not> se_secretish e \<and> actionable e"
    by (simp add: sample_page_def plain_element_def actionable_def)
  ultimately show ?thesis
    using offers_seat_every_kind [of "\<lambda>_. False" rev sample_checkpoint sample_page sample_offers] sample_generated
    by simp
qed

lemma identity_resolution_exact_witness:
  "resolve_identity (identity_of (sample_page ! 1)) sample_page = Resolved (sample_page ! 1) \<and>
   resolve_identity (identity_of plain_element) (plain_element # sample_page) = Ambiguous"
proof -
  have "length (filter (if truthy (se_test_id (sample_page ! 1)) then (\<lambda>x. se_test_id x = se_test_id (sample_page ! 1))
      else identity_matches (identity_of (sample_page ! 1))) sample_page) = 1"
    "length (filter (if truthy (se_test_id plain_element) then (\<lambda>x. se_test_id x = se_test_id plain_element)
      else identity_matches (identity_of plain_element)) (plain_element # sample_page)) \<noteq> 1"
    by code_simp+
  moreover have "sample_page ! 1 \<in> set sample_page" "plain_element \<in> set (plain_element # sample_page)"
    by (simp_all add: sample_page_def)
  ultimately show ?thesis
    using identity_resolution_exact [of "sample_page ! 1" sample_page]
      identity_resolution_exact [of plain_element "plain_element # sample_page"] by simp
qed

definition key_click :: action_candidate where
  "key_click = click_offer rev sample_checkpoint (sample_page ! 1)"

lemma irreversible_needs_review_witness:
  "(let az = authorization_for [] [''create  api KEY''] False ''create_if_missing''
    in rd_autonomous (classify_action key_click az (Some (sample_page ! 1))) \<and>
       reviewed_control key_click az (Some (sample_page ! 1))) \<and>
   \<not> rd_autonomous (classify_action key_click (authorization_for [] [] False ''create_if_missing'') None)"
proof -
  let ?az = "authorization_for [] [''create  api KEY''] False ''create_if_missing''"
  let ?no = "authorization_for [] [] False ''create_if_missing''"
  have auto: "rd_autonomous (classify_action key_click ?az (Some (sample_page ! 1)))"
    by code_simp
  have click: "ac_action key_click \<notin> read_only_actions"
    by code_simp
  have verb: "verb_family (control_label key_click (Some (sample_page ! 1))) = Some ''creation''"
    "verb_family (control_label key_click None) = Some ''creation''"
    by code_simp+
  have "\<not> az_create ?no" by code_simp
  then show ?thesis
    using irreversible_needs_review [of key_click ?az "Some (sample_page ! 1)"]
      irreversible_needs_review [of key_click ?no None] auto click verb by (auto simp: Let_def)
qed

text \<open>The parts of an identifier are joined without escaping, so that two elements shown under different
  headings may share one.\<close>

lemma candidate_ids_collide:
  "candidate_id sha ([''t'', ''0'', ''click''] @ identity_parts (plain_element\<lparr>se_test_id := Some ''a|b''\<rparr>)) =
   candidate_id sha ([''t'', ''0'', ''click''] @
     identity_parts (plain_element\<lparr>se_test_id := Some ''a'', se_heading := Some ''b|''\<rparr>))"
  by (simp add: candidate_id_def identity_parts_def plain_element_def)

end
