(* ===== verification/Spec2Isabelle.thy ===== *)
theory Spec2Isabelle
  imports State_Projection Effects Lease_Guard Phase_Store Gate_Policy Takeover Planner
    Driver Run_Control Recovery Prompts Email_Selection Vault_Claims Profile_Store Developer_App Verification Candidate_Laws Loop_Laws
begin

text \<open>
  A verification library of the control plane that onboards provider accounts: it takes a run from an
  application name to stored credentials by driving a browser under policy, with every external effect,
  secret, boundary and human decision recorded durably. All paths below are under \<^theory_text>\<open>src/\<close>.

  \<^bold>\<open>How the program hangs together.\<close> A worker claims a run (\<^theory_text>\<open>ops/onboarding/lease_store.py\<close>) and drives
  it (\<^theory_text>\<open>drive_run\<close> of \<^theory_text>\<open>ops/onboarding/driver.py\<close>). A turn of the drive checks the lease through the
  guard, runs the handler of the phase the run stands in, and commits one boundary to the phase history,
  with the reservation of an external effect where the phase has one. What a handler may do is decided by
  pure policy (hosts, gates, risk, admission, plans) over the committed provider profile; what it does in
  the page is the action loop; secrets pass through the vault. Operators pause, resume, cancel and prompt
  through the run controls, a crashed worker's run is taken up by the recovery, and the isolated
  browser service owns sessions, displays and the human's live view.

  \<^bold>\<open>Modelling conventions.\<close> A Python class with state is a record, a table an association list, a list in
  insertion order or a map, a dict that is only read a map. A method is a function from the state to
  the state and a result; a raise is \<^theory_text>\<open>Inl\<close> of the exception (\<^theory_text>\<open>exn\<close> of Prelude) and a
  transaction that raises leaves the state it began with. Texts are ASCII strings, unbounded integers
  \<^theory_text>\<open>int\<close>, instants integers. Clocks, random draws, hashes, ciphers, the redactor, JSON lengths and
  everything outside the process (page, mailbox, model, third-party service) are arguments, with the
  laws the code relies on as named hypotheses. A coroutine is split at its awaits where others
  may interleave; concurrency is then an arbitrary list of calls.

  \<^bold>\<open>Theories and code.\<close>
  \<^item> Prelude: exceptions and results, the \<^theory_text>\<open>str\<close> operations the code uses, identifier checks, the
    collections \<^theory_text>\<open>result_simps\<close> and \<^theory_text>\<open>guard_simps\<close>. Url: the part of \<^theory_text>\<open>urllib.parse\<close> the policy
    reads addresses with. Regex: the part of \<^theory_text>\<open>re\<close> the mail reader and the risk policy use.
  \<^item> Phases (\<^theory_text>\<open>ops/core/state.py\<close>, \<^theory_text>\<open>ops/onboarding/phase.py\<close>): the run status table and the phase
    machine. State_Projection (\<^theory_text>\<open>ops/runs/state_projection.py\<close>, \<^theory_text>\<open>ops/core/storage.py\<close>): the status writers.
  \<^item> Effect_Ledger (\<^theory_text>\<open>ops/core/effect_ledger.py\<close>), Effects (\<^theory_text>\<open>ops/onboarding/effects.py\<close>): the ledger of
    external effects, the operation keys and the plans read off its rows.
  \<^item> Run_Lease (\<^theory_text>\<open>ops/onboarding/lease.py\<close>, \<^theory_text>\<open>lease_store.py\<close>), Lease_Guard (\<^theory_text>\<open>LeaseGuard\<close> of
    \<^theory_text>\<open>driver.py\<close>): the fenced leases, the run queue and the worker's guard.
  \<^item> Phase_Store (\<^theory_text>\<open>SQLitePhaseHistoryStore\<close> of \<^theory_text>\<open>driver.py\<close>): boundaries, effect intents and
    reservations, the prompt and captcha counters.
  \<^item> Admission (\<^theory_text>\<open>ops/onboarding/admission.py\<close>), Gate_Policy (\<^theory_text>\<open>ops/access/\<close>), Host_Policy
    (\<^theory_text>\<open>ops/browser/host_policy.py\<close>), Planner (\<^theory_text>\<open>ops/planner/\<close>): who may sign up, which gates the agent
    resolves, where the browser may go, which route a run follows.
  \<^item> Driver_Steps, Driver (\<^theory_text>\<open>driver.py\<close>): steps, outcomes and tallies; the drive itself. Run_Control, Recovery,
    Prompts: the operator's controls, the takeover of a crashed worker's run, the authorization and
    legal prompts. Developer_App and Verification (\<^theory_text>\<open>driver.py\<close>): the phase that
    creates the provider's application and the wait for the verification mail.
  \<^item> Phase_Goal, Action_Loop, Loop_Laws (\<^theory_text>\<open>ops/onboarding/action_loop.py\<close>), Page_Snapshot
    (\<^theory_text>\<open>ops/browser/decider.py\<close>), Candidates, Candidate_Laws (\<^theory_text>\<open>ops/browser/candidates.py\<close>), Action_Risk
    (\<^theory_text>\<open>ops/browser/risk.py\<close>): one phase's work in the page.
  \<^item> Sessions, Takeover (\<^theory_text>\<open>browser_service/\<close>, \<^theory_text>\<open>ops/browser/\<close>, \<^theory_text>\<open>ops/runs/takeover.py\<close>): sessions, displays,
    live-view grants, and continuing a run whose human gate is gone.
  \<^item> Vault, Vault_Laws, Vault_Grants, Vault_Logins, Vault_Claims (\<^theory_text>\<open>ops/core/secret_store.py\<close>): the secret
    vault and its laws over every interleaving of its callers. Email_Verification, Email_Selection
    (\<^theory_text>\<open>ops/email/verification.py\<close>): which message a run may use.
  \<^item> Profile, Profile_Store (\<^theory_text>\<open>ops/providers/\<close>): the provider profile, its digest and its store.

  \<^bold>\<open>Interfaces.\<close> The locale \<^theory_text>\<open>effect_grants\<close> states what a store of effects must guarantee for its clients (an
  answer that hands out an execution finds the row absent or failed and leaves it open, and
  settlements move open rows only) and bounds how often an execution is handed out; \<^theory_text>\<open>effect_store\<close> extends
  it with answers determined by the row. The effect ledger interprets the second (\<^theory_text>\<open>ledger\<close>), the
  committing boundary of the phase store the first (\<^theory_text>\<open>boundaries\<close>). The locale \<^theory_text>\<open>lease_store\<close> states
  fencing; the lease table interprets it (\<^theory_text>\<open>leases\<close>), and the guard's lemmas are proved inside it.

  \<^bold>\<open>What the lemmas show.\<close>
  \<^item> Durability: the phase history is gapless and legal, a boundary commits with its reservation or not at all,
    a replay changes nothing; an execution is handed out at most once more than it failed; a fenced-out
    worker never writes again; a drive crosses only boundaries of the phase table, and acts externally
    only under a live lease. Recovery and pause never turn an unknown outcome into a repeated effect.
  \<^item> Policy: navigation stays on the allow-list, the allow-list is the profile's; no account is created and no
    legal text accepted without a recorded human or standing decision; irreversible actions are reviewed;
    the loop runs only actions offered, permitted and validated, and ends within its budget.
  \<^item> Secrets: a one-time secret is read once, a grant is spent once, a mail is consumed for one run, the
    reusable logins are a map from accounts to pairs; the verification secret is used only under the run's
    own claim, from an authenticated message bound to it.
  \<^item> Service: capacity is conserved, a display is leased once, a control grant dies with its pause, a takeover
    needs an observed clearance.

  \<^bold>\<open>Bounds and termination.\<close> The action loop is a total function: its measure is the number of idle turns left
  before and after each allowed action, so it ends within
  \<^theory_text>\<open>(actions + 1) * no_progress + 1\<close> turns (C7). A regular expression is tried from each of the
  \<^theory_text>\<open>length + 1\<close> positions of a text, and a repetition is bounded by the text that is left, so no match
  is cut off. The drive and the sequences of calls recurse over the list of turns or calls the environment gives;
  a drive whose list ends first says so (\<^theory_text>\<open>Still_Driving\<close>) and claims nothing about an outcome.

  \<^bold>\<open>What is not modelled.\<close> The HTTP routes, the reviewed-recipe workflow on its graph engine, the Playwright
  worker's page calls, the web and model clients, mail parsing and sending, deployment: they are third-party
  behaviour or wiring, and what the model needs of them enters as an answer. Of SQL the
  statements are modelled, not the connection: a transaction is atomic and calls are serial. Whether a
  browser that was told to stop is gone is not known to the service, hence not to the model.
\<close>

end
